(* ===== verification/Prelude.thy ===== *)
theory Prelude
  imports Main "HOL-Library.Word"
begin

unbundle bit_operations_syntax

text \<open>
  Shared vocabulary of the development: the machine integer types of the C code, its
  little-endian memory images of integers, C strings as byte lists, and the generic lemmas the
  component theories share.

  An integer of C is a word of its width.  \<open>size_t\<close> is 32 bits wide where its wrap-around is
  observable, and a natural number where it is the length of an object that already exists in
  memory (such a length cannot wrap).  A \<open>char *\<close> argument is the list of the bytes it points
  to, up to (not including) a terminating zero byte.
\<close>

section \<open>Machine integers\<close>

type_synonym byte = "8 word"
type_synonym u8 = "8 word"
type_synonym u16 = "16 word"
type_synonym u32 = "32 word"
type_synonym u64 = "64 word"

named_theorems res_simps \<open>rules that run the error plumbing of the model\<close>

section \<open>Little-endian images\<close>

text \<open>
  \<open>le_bytes n w\<close> is the image that \<open>memcpy\<close> of a little-endian integer leaves in memory,
  \<open>of_le\<close> reads such an image back.
\<close>

primrec le_bytes :: "nat \<Rightarrow> 'a::len word \<Rightarrow> byte list" where
  "le_bytes 0 w = []"
| "le_bytes (Suc n) w = ucast w # le_bytes n (drop_bit 8 w)"

primrec of_le :: "byte list \<Rightarrow> 'a::len word" where
  "of_le [] = 0"
| "of_le (b # bs) = ucast b OR push_bit 8 (of_le bs)"

lemma le_bytes_numeral [simp]:
  "le_bytes (numeral k) w = ucast w # le_bytes (pred_numeral k) (drop_bit 8 w)"
  by (simp add: numeral_eq_Suc)

lemma length_le_bytes [simp]: "length (le_bytes n w) = n"
  by (induction n arbitrary: w) simp_all

lemma le_step:
  fixes w :: "'a::len word"
  shows "ucast (ucast w :: byte) OR push_bit 8 (take_bit m (drop_bit 8 w)) = take_bit (8 + m) w"
  by (rule bit_word_eqI) (auto simp add: bit_simps not_less)

lemma of_le_le_bytes: "of_le (le_bytes n w) = take_bit (8 * n) (w :: 'a::len word)"
proof (induction n arbitrary: w)
  case 0
  show ?case by simp
next
  case (Suc n)
  have "of_le (le_bytes (Suc n) w) =
      ucast (ucast w :: byte) OR push_bit 8 (take_bit (8 * n) (drop_bit 8 w))"
    by (simp add: Suc.IH)
  also have "\<dots> = take_bit (8 + 8 * n) w"
    by (rule le_step)
  finally show ?case by simp
qed

lemma take_bit_whole: "LENGTH('a) \<le> n \<Longrightarrow> take_bit n (w :: 'a::len word) = w"
  by (rule bit_word_eqI) (auto simp add: bit_simps)

definition le16 :: "u16 \<Rightarrow> byte list" where "le16 w = le_bytes 2 w"
definition le32 :: "u32 \<Rightarrow> byte list" where "le32 w = le_bytes 4 w"
definition le64 :: "u64 \<Rightarrow> byte list" where "le64 w = le_bytes 8 w"

text \<open>\<open>sys_get_le16/32/64\<close> read the integer at the start of a buffer.\<close>

definition get_le16 :: "byte list \<Rightarrow> u16" where "get_le16 bs = of_le (take 2 bs)"
definition get_le32 :: "byte list \<Rightarrow> u32" where "get_le32 bs = of_le (take 4 bs)"
definition get_le64 :: "byte list \<Rightarrow> u64" where "get_le64 bs = of_le (take 8 bs)"

lemma length_le [simp]: "length (le16 v) = 2" "length (le32 w) = 4" "length (le64 x) = 8"
  unfolding le16_def le32_def le64_def by (rule length_le_bytes)+

lemma le_neq_Nil [simp]: "le16 v \<noteq> []" "le32 w \<noteq> []" "le64 x \<noteq> []"
  by (simp_all flip: length_0_conv)

lemma of_le_image:
  "LENGTH('a) \<le> 8 * n \<Longrightarrow> of_le (take n (le_bytes n w @ bs)) = (w :: 'a::len word)"
  by (simp add: of_le_le_bytes take_bit_whole)

lemma get_le [simp]:
  "get_le16 (le16 v @ bs) = v" "get_le32 (le32 w @ bs) = w" "get_le64 (le64 x @ bs) = x"
  unfolding get_le16_def get_le32_def get_le64_def le16_def le32_def le64_def
  by (rule of_le_image, simp)+

lemma get_le_whole [simp]: "get_le16 (le16 v) = v" "get_le32 (le32 w) = w" "get_le64 (le64 x) = x"
  using get_le(1) [of v "[]"] get_le(2) [of w "[]"] get_le(3) [of x "[]"] by simp_all

lemma le32_inj [simp]: "le32 a = le32 b \<longleftrightarrow> a = b"
  using get_le_whole(2) by metis

section \<open>C strings and buffers\<close>

text \<open>
  \<open>c_string bs\<close> is the string a C function sees in a buffer that holds \<open>bs\<close> and then a zero
  byte; \<open>strlen\<close> is its length.  \<open>strncmp_eq a b n\<close> is \<open>strncmp(a, b, n) == 0\<close> on two such
  buffers.
\<close>

definition c_string :: "byte list \<Rightarrow> byte list" where
  "c_string bs = takeWhile (\<lambda>b. b \<noteq> 0) bs"

definition strlen :: "byte list \<Rightarrow> nat" where
  "strlen bs = length (c_string bs)"

fun strncmp_eq :: "byte list \<Rightarrow> byte list \<Rightarrow> nat \<Rightarrow> bool" where
  "strncmp_eq a b 0 = True"
| "strncmp_eq [] [] (Suc n) = True"
| "strncmp_eq [] (y # ys) (Suc n) = (y = 0)"
| "strncmp_eq (x # xs) [] (Suc n) = (x = 0)"
| "strncmp_eq (x # xs) (y # ys) (Suc n) =
     (if x \<noteq> y then False else if x = 0 then True else strncmp_eq xs ys n)"

text \<open>A buffer of \<open>n\<close> zero bytes into which \<open>bs\<close> was read.\<close>

definition fill_buf :: "nat \<Rightarrow> byte list \<Rightarrow> byte list" where
  "fill_buf n bs = take n (bs @ replicate n 0)"

lemma length_fill_buf [simp]: "length (fill_buf n bs) = n"
  by (simp add: fill_buf_def)

lemma fill_buf_same [simp]: "length bs = n \<Longrightarrow> fill_buf n bs = bs"
  by (simp add: fill_buf_def)

text \<open>A C string proper holds no zero byte.\<close>

definition nul_free :: "byte list \<Rightarrow> bool" where
  "nul_free bs \<longleftrightarrow> 0 \<notin> set bs"

lemma c_string_nul_free [simp]: "nul_free bs \<Longrightarrow> c_string bs = bs"
  by (auto simp: nul_free_def c_string_def takeWhile_eq_all_conv)

lemma strlen_nul_free [simp]: "nul_free bs \<Longrightarrow> strlen bs = length bs"
  by (simp add: strlen_def)

lemma strncmp_eq_whole:
  "nul_free a \<Longrightarrow> nul_free b \<Longrightarrow> length a = length b \<Longrightarrow>
   strncmp_eq a b (length a) \<longleftrightarrow> a = b"
  by (induction a b "length a" rule: strncmp_eq.induct) (auto simp: nul_free_def)

section \<open>Decimal numbers\<close>

text \<open>What \<open>snprintf\<close> prints for \<open>"%u"\<close>, or \<open>"%i"\<close> of a number that is not negative.\<close>

fun dec_string :: "nat \<Rightarrow> byte list" where
  "dec_string n = (if n < 10 then [of_nat (48 + n)] else dec_string (n div 10) @ [of_nat (48 + n mod 10)])"

declare dec_string.simps [simp del]

lemma length_dec_string_pos [simp]: "0 < length (dec_string n)"
  by (subst dec_string.simps) simp

lemma length_dec_string: "n < 10 ^ Suc k \<Longrightarrow> length (dec_string n) \<le> Suc k"
proof (induction k arbitrary: n)
  case 0
  then show ?case by (subst dec_string.simps) simp
next
  case (Suc k)
  then have "n div 10 < 10 ^ Suc k" by (simp add: less_mult_imp_div_less)
  with Suc.IH show ?case by (subst dec_string.simps) simp
qed

lemma digit_nonzero: "k < 10 \<Longrightarrow> (of_nat (48 + k) :: byte) \<noteq> 0"
proof -
  assume k: "k < 10"
  then have "unat (of_nat (48 + k) :: byte) = 48 + k"
    by (simp add: unat_of_nat take_bit_nat_eq_self del: of_nat_add)
  then show ?thesis by auto
qed

lemma nul_free_dec_string [simp]: "nul_free (dec_string n)"
proof (induction n rule: dec_string.induct)
  case (1 n)
  have "n mod 10 < 10" by simp
  with 1 digit_nonzero show ?case
    by (subst dec_string.simps) (auto simp: nul_free_def simp del: of_nat_add)
qed

lemma strncmp_eq_iff: "strncmp_eq a b n \<longleftrightarrow> take n (c_string a) = take n (c_string b)"
  by (induction a b n rule: strncmp_eq.induct) (auto simp: c_string_def)

section \<open>Generic lemmas\<close>

lemma take_eq_append: "length xs = n \<Longrightarrow> take n (xs @ ys) = xs"
  by simp

lemma drop_eq_append: "length xs = n \<Longrightarrow> drop n (xs @ ys) = ys"
  by simp

text \<open>\<open>memcpy\<close> of \<open>src\<close> over \<open>dst\<close> at an offset.\<close>

definition patch :: "nat \<Rightarrow> byte list \<Rightarrow> byte list \<Rightarrow> byte list" where
  "patch off src dst = take off dst @ src @ drop (off + length src) dst"

lemma length_patch [simp]: "off + length src \<le> length dst \<Longrightarrow> length (patch off src dst) = length dst"
  by (simp add: patch_def)

lemma patch_append:
  "length pre = off \<Longrightarrow> length mid = length src \<Longrightarrow>
   patch off src (pre @ mid @ post) = pre @ src @ post"
  by (simp add: patch_def)

end
