(* ===== verification/Result.thy ===== *)
theory Result
  imports Prelude
begin

text \<open>
  The result codes of the library (include/astarte_device_sdk/result.h) and their names
  (lib/astarte_device_sdk/result.c).  Every operation of the model returns one of these codes;
  \<open>and_then\<close>, \<open>try_res\<close> and \<open>rc_check\<close> are the three shapes of the code's
  \<open>if (ares != ASTARTE_RESULT_OK) return ares;\<close>.
\<close>

section \<open>astarte\_result\_t\<close>

datatype (plugins only: code size) astarte_result_t =
    ASTARTE_RESULT_OK
  | ASTARTE_RESULT_BSON_DESERIALIZER_ERROR
  | ASTARTE_RESULT_BSON_DESERIALIZER_TYPES_ERROR
  | ASTARTE_RESULT_BSON_EMPTY_ARRAY_ERROR
  | ASTARTE_RESULT_BSON_EMPTY_DOCUMENT_ERROR
  | ASTARTE_RESULT_BSON_SERIALIZER_ERROR
  | ASTARTE_RESULT_CLIENT_CERT_INVALID
  | ASTARTE_RESULT_DEVICE_CACHING_OUTDATED_INTROSPECTION
  | ASTARTE_RESULT_DEVICE_NOT_READY
  | ASTARTE_RESULT_HTTP_REQUEST_ERROR
  | ASTARTE_RESULT_INCOMPLETE_AGGREGATION_OBJECT
  | ASTARTE_RESULT_INTERFACE_ALREADY_PRESENT
  | ASTARTE_RESULT_INTERFACE_CONFLICTING
  | ASTARTE_RESULT_INTERFACE_INVALID_VERSION
  | ASTARTE_RESULT_INTERFACE_NOT_FOUND
  | ASTARTE_RESULT_INTERNAL_ERROR
  | ASTARTE_RESULT_INVALID_CONFIGURATION
  | ASTARTE_RESULT_INVALID_PARAM
  | ASTARTE_RESULT_JSON_ERROR
  | ASTARTE_RESULT_KEY_VALUE_FULL
  | ASTARTE_RESULT_KEY_VALUE_INCOMPATIBLE_VERSION
  | ASTARTE_RESULT_KEY_VALUE_RECOVERY_FAILED
  | ASTARTE_RESULT_MAPPING_DATA_INCOMPATIBLE
  | ASTARTE_RESULT_MAPPING_EXPLICIT_TIMESTAMP_NOT_SUPPORTED
  | ASTARTE_RESULT_MAPPING_EXPLICIT_TIMESTAMP_REQUIRED
  | ASTARTE_RESULT_MAPPING_NOT_IN_INTERFACE
  | ASTARTE_RESULT_MAPPING_PATH_MISMATCH
  | ASTARTE_RESULT_MAPPING_UNSET_NOT_ALLOWED
  | ASTARTE_RESULT_MBEDTLS_ERROR
  | ASTARTE_RESULT_MISMATCH
  | ASTARTE_RESULT_MQTT_CLIENT_ALREADY_CONNECTED
  | ASTARTE_RESULT_MQTT_CLIENT_ALREADY_CONNECTING
  | ASTARTE_RESULT_MQTT_CLIENT_NOT_READY
  | ASTARTE_RESULT_MQTT_ERROR
  | ASTARTE_RESULT_MUTEX_LOCK_ERROR
  | ASTARTE_RESULT_NOT_FOUND
  | ASTARTE_RESULT_OUT_OF_MEMORY
  | ASTARTE_RESULT_OUT_OF_SPACE
  | ASTARTE_RESULT_SOCKET_ERROR
  | ASTARTE_RESULT_STORAGE_CORRUPTED_ERROR
  | ASTARTE_RESULT_TIMEOUT
  | ASTARTE_RESULT_TLS_ERROR
  | ASTARTE_RESULT_ZMS_ERROR

primrec result_code :: "astarte_result_t \<Rightarrow> nat" where
  "result_code ASTARTE_RESULT_OK = 0"
| "result_code ASTARTE_RESULT_BSON_DESERIALIZER_ERROR = 1"
| "result_code ASTARTE_RESULT_BSON_DESERIALIZER_TYPES_ERROR = 2"
| "result_code ASTARTE_RESULT_BSON_EMPTY_ARRAY_ERROR = 3"
| "result_code ASTARTE_RESULT_BSON_EMPTY_DOCUMENT_ERROR = 4"
| "result_code ASTARTE_RESULT_BSON_SERIALIZER_ERROR = 5"
| "result_code ASTARTE_RESULT_CLIENT_CERT_INVALID = 6"
| "result_code ASTARTE_RESULT_DEVICE_CACHING_OUTDATED_INTROSPECTION = 7"
| "result_code ASTARTE_RESULT_DEVICE_NOT_READY = 8"
| "result_code ASTARTE_RESULT_HTTP_REQUEST_ERROR = 9"
| "result_code ASTARTE_RESULT_INCOMPLETE_AGGREGATION_OBJECT = 10"
| "result_code ASTARTE_RESULT_INTERFACE_ALREADY_PRESENT = 11"
| "result_code ASTARTE_RESULT_INTERFACE_CONFLICTING = 12"
| "result_code ASTARTE_RESULT_INTERFACE_INVALID_VERSION = 13"
| "result_code ASTARTE_RESULT_INTERFACE_NOT_FOUND = 14"
| "result_code ASTARTE_RESULT_INTERNAL_ERROR = 15"
| "result_code ASTARTE_RESULT_INVALID_CONFIGURATION = 16"
| "result_code ASTARTE_RESULT_INVALID_PARAM = 17"
| "result_code ASTARTE_RESULT_JSON_ERROR = 18"
| "result_code ASTARTE_RESULT_KEY_VALUE_FULL = 19"
| "result_code ASTARTE_RESULT_KEY_VALUE_INCOMPATIBLE_VERSION = 20"
| "result_code ASTARTE_RESULT_KEY_VALUE_RECOVERY_FAILED = 21"
| "result_code ASTARTE_RESULT_MAPPING_DATA_INCOMPATIBLE = 22"
| "result_code ASTARTE_RESULT_MAPPING_EXPLICIT_TIMESTAMP_NOT_SUPPORTED = 23"
| "result_code ASTARTE_RESULT_MAPPING_EXPLICIT_TIMESTAMP_REQUIRED = 24"
| "result_code ASTARTE_RESULT_MAPPING_NOT_IN_INTERFACE = 25"
| "result_code ASTARTE_RESULT_MAPPING_PATH_MISMATCH = 26"
| "result_code ASTARTE_RESULT_MAPPING_UNSET_NOT_ALLOWED = 27"
| "result_code ASTARTE_RESULT_MBEDTLS_ERROR = 28"
| "result_code ASTARTE_RESULT_MISMATCH = 29"
| "result_code ASTARTE_RESULT_MQTT_CLIENT_ALREADY_CONNECTED = 30"
| "result_code ASTARTE_RESULT_MQTT_CLIENT_ALREADY_CONNECTING = 31"
| "result_code ASTARTE_RESULT_MQTT_CLIENT_NOT_READY = 32"
| "result_code ASTARTE_RESULT_MQTT_ERROR = 33"
| "result_code ASTARTE_RESULT_MUTEX_LOCK_ERROR = 34"
| "result_code ASTARTE_RESULT_NOT_FOUND = 35"
| "result_code ASTARTE_RESULT_OUT_OF_MEMORY = 36"
| "result_code ASTARTE_RESULT_OUT_OF_SPACE = 37"
| "result_code ASTARTE_RESULT_SOCKET_ERROR = 38"
| "result_code ASTARTE_RESULT_STORAGE_CORRUPTED_ERROR = 39"
| "result_code ASTARTE_RESULT_TIMEOUT = 40"
| "result_code ASTARTE_RESULT_TLS_ERROR = 41"
| "result_code ASTARTE_RESULT_ZMS_ERROR = 42"

section \<open>The table of names\<close>

definition astarte_res_msg_table :: "(astarte_result_t \<times> string) list" where
  "astarte_res_msg_table = [
     (ASTARTE_RESULT_OK, ''ASTARTE_RESULT_OK''),
     (ASTARTE_RESULT_BSON_DESERIALIZER_ERROR, ''ASTARTE_RESULT_BSON_DESERIALIZER_ERROR''),
     (ASTARTE_RESULT_BSON_DESERIALIZER_TYPES_ERROR, ''ASTARTE_RESULT_BSON_DESERIALIZER_TYPES_ERROR''),
     (ASTARTE_RESULT_BSON_EMPTY_ARRAY_ERROR, ''ASTARTE_RESULT_BSON_EMPTY_ARRAY_ERROR''),
     (ASTARTE_RESULT_BSON_EMPTY_DOCUMENT_ERROR, ''ASTARTE_RESULT_BSON_EMPTY_DOCUMENT_ERROR''),
     (ASTARTE_RESULT_BSON_SERIALIZER_ERROR, ''ASTARTE_RESULT_BSON_SERIALIZER_ERROR''),
     (ASTARTE_RESULT_CLIENT_CERT_INVALID, ''ASTARTE_RESULT_CLIENT_CERT_INVALID''),
     (ASTARTE_RESULT_DEVICE_CACHING_OUTDATED_INTROSPECTION, ''ASTARTE_RESULT_DEVICE_CACHING_OUTDATED_INTROSPECTION''),
     (ASTARTE_RESULT_DEVICE_NOT_READY, ''ASTARTE_RESULT_DEVICE_NOT_READY''),
     (ASTARTE_RESULT_HTTP_REQUEST_ERROR, ''ASTARTE_RESULT_HTTP_REQUEST_ERROR''),
     (ASTARTE_RESULT_INCOMPLETE_AGGREGATION_OBJECT, ''ASTARTE_RESULT_INCOMPLETE_AGGREGATION_OBJECT''),
     (ASTARTE_RESULT_INTERFACE_ALREADY_PRESENT, ''ASTARTE_RESULT_INTERFACE_ALREADY_PRESENT''),
     (ASTARTE_RESULT_INTERFACE_CONFLICTING, ''ASTARTE_RESULT_INTERFACE_CONFLICTING''),
     (ASTARTE_RESULT_INTERFACE_INVALID_VERSION, ''ASTARTE_RESULT_INTERFACE_INVALID_VERSION''),
     (ASTARTE_RESULT_INTERFACE_NOT_FOUND, ''ASTARTE_RESULT_INTERFACE_NOT_FOUND''),
     (ASTARTE_RESULT_INTERNAL_ERROR, ''ASTARTE_RESULT_INTERNAL_ERROR''),
     (ASTARTE_RESULT_INVALID_CONFIGURATION, ''ASTARTE_RESULT_INVALID_CONFIGURATION''),
     (ASTARTE_RESULT_INVALID_PARAM, ''ASTARTE_RESULT_INVALID_PARAM''),
     (ASTARTE_RESULT_JSON_ERROR, ''ASTARTE_RESULT_JSON_ERROR''),
     (ASTARTE_RESULT_KEY_VALUE_FULL, ''ASTARTE_RESULT_KEY_VALUE_FULL''),
     (ASTARTE_RESULT_KEY_VALUE_INCOMPATIBLE_VERSION, ''ASTARTE_RESULT_KEY_VALUE_INCOMPATIBLE_VERSION''),
     (ASTARTE_RESULT_KEY_VALUE_RECOVERY_FAILED, ''ASTARTE_RESULT_KEY_VALUE_RECOVERY_FAILED''),
     (ASTARTE_RESULT_MAPPING_DATA_INCOMPATIBLE, ''ASTARTE_RESULT_MAPPING_DATA_INCOMPATIBLE''),
     (ASTARTE_RESULT_MAPPING_EXPLICIT_TIMESTAMP_NOT_SUPPORTED, ''ASTARTE_RESULT_MAPPING_EXPLICIT_TIMESTAMP_NOT_SUPPORTED''),
     (ASTARTE_RESULT_MAPPING_EXPLICIT_TIMESTAMP_REQUIRED, ''ASTARTE_RESULT_MAPPING_EXPLICIT_TIMESTAMP_REQUIRED''),
     (ASTARTE_RESULT_MAPPING_NOT_IN_INTERFACE, ''ASTARTE_RESULT_MAPPING_NOT_IN_INTERFACE''),
     (ASTARTE_RESULT_MAPPING_PATH_MISMATCH, ''ASTARTE_RESULT_MAPPING_PATH_MISMATCH''),
     (ASTARTE_RESULT_MAPPING_UNSET_NOT_ALLOWED, ''ASTARTE_RESULT_MAPPING_UNSET_NOT_ALLOWED''),
     (ASTARTE_RESULT_MBEDTLS_ERROR, ''ASTARTE_RESULT_MBEDTLS_ERROR''),
     (ASTARTE_RESULT_MISMATCH, ''ASTARTE_RESULT_MISMATCH''),
     (ASTARTE_RESULT_MQTT_CLIENT_ALREADY_CONNECTED, ''ASTARTE_RESULT_MQTT_CLIENT_ALREADY_CONNECTED''),
     (ASTARTE_RESULT_MQTT_CLIENT_ALREADY_CONNECTING, ''ASTARTE_RESULT_MQTT_CLIENT_ALREADY_CONNECTING''),
     (ASTARTE_RESULT_MQTT_CLIENT_NOT_READY, ''ASTARTE_RESULT_MQTT_CLIENT_NOT_READY''),
     (ASTARTE_RESULT_MQTT_ERROR, ''ASTARTE_RESULT_MQTT_ERROR''),
     (ASTARTE_RESULT_MUTEX_LOCK_ERROR, ''ASTARTE_RESULT_MUTEX_LOCK_ERROR''),
     (ASTARTE_RESULT_NOT_FOUND, ''ASTARTE_RESULT_NOT_FOUND''),
     (ASTARTE_RESULT_OUT_OF_MEMORY, ''ASTARTE_RESULT_OUT_OF_MEMORY''),
     (ASTARTE_RESULT_OUT_OF_SPACE, ''ASTARTE_RESULT_OUT_OF_SPACE''),
     (ASTARTE_RESULT_SOCKET_ERROR, ''ASTARTE_RESULT_SOCKET_ERROR''),
     (ASTARTE_RESULT_STORAGE_CORRUPTED_ERROR, ''ASTARTE_RESULT_STORAGE_CORRUPTED_ERROR''),
     (ASTARTE_RESULT_TIMEOUT, ''ASTARTE_RESULT_TIMEOUT''),
     (ASTARTE_RESULT_TLS_ERROR, ''ASTARTE_RESULT_TLS_ERROR''),
     (ASTARTE_RESULT_ZMS_ERROR, ''ASTARTE_RESULT_ZMS_ERROR'')]"

fun find_msg :: "(astarte_result_t \<times> string) list \<Rightarrow> astarte_result_t \<Rightarrow> string" where
  "find_msg [] code = ''UNKNOWN RESULT CODE''"
| "find_msg ((c, msg) # tbl) code = (if c = code then msg else find_msg tbl code)"

definition astarte_result_to_name :: "astarte_result_t \<Rightarrow> string" where
  "astarte_result_to_name code = find_msg astarte_res_msg_table code"

lemma find_msg_map_of:
  "find_msg tbl code = (case map_of tbl code of None \<Rightarrow> ''UNKNOWN RESULT CODE'' | Some m \<Rightarrow> m)"
  by (induction tbl code rule: find_msg.induct) auto

section \<open>Error plumbing\<close>

text \<open>Run the second operation only if the first returned \<open>ASTARTE_RESULT_OK\<close>.\<close>

definition and_then ::
    "astarte_result_t \<times> 's \<Rightarrow> ('s \<Rightarrow> astarte_result_t \<times> 's) \<Rightarrow> astarte_result_t \<times> 's" where
  "and_then p f = (case p of (ares, s) \<Rightarrow> if ares = ASTARTE_RESULT_OK then f s else (ares, s))"

text \<open>Use the value of a query, or leave with its error.\<close>

definition try_res ::
    "astarte_result_t + 'a \<Rightarrow> 's \<Rightarrow> ('a \<Rightarrow> astarte_result_t \<times> 's) \<Rightarrow> astarte_result_t \<times> 's" where
  "try_res q s f = (case q of Inl ares \<Rightarrow> (ares, s) | Inr x \<Rightarrow> f x)"

text \<open>A negative return code of a driver call becomes an error of the library.\<close>

definition rc_check :: "astarte_result_t \<Rightarrow> int \<times> 's \<Rightarrow> astarte_result_t \<times> 's" where
  "rc_check err p = (case p of (rc, s) \<Rightarrow> (if rc < 0 then err else ASTARTE_RESULT_OK, s))"

lemma and_then_simps [simp, res_simps]:
  "and_then (ASTARTE_RESULT_OK, s) f = f s"
  "ares \<noteq> ASTARTE_RESULT_OK \<Longrightarrow> and_then (ares, s) f = (ares, s)"
  by (simp_all add: and_then_def)

lemma try_res_simps [simp, res_simps]:
  "try_res (Inl ares) s f = (ares, s)"
  "try_res (Inr x) s f = f x"
  by (simp_all add: try_res_def)

lemma and_then_OK:
  "and_then p f = (ASTARTE_RESULT_OK, s') \<longleftrightarrow>
     (\<exists>s. p = (ASTARTE_RESULT_OK, s) \<and> f s = (ASTARTE_RESULT_OK, s'))"
  by (cases p) (auto simp: and_then_def)

lemma and_then_cases:
  assumes "and_then p f = (r, s')"
  obtains (fail) "p = (r, s')" "r \<noteq> ASTARTE_RESULT_OK"
    | (ok) s where "p = (ASTARTE_RESULT_OK, s)" "f s = (r, s')"
  using assms by (cases p) (auto simp: and_then_def split: if_splits)

lemma try_res_cases:
  assumes "try_res q s f = (r, s')"
  obtains (fail) "q = Inl r" "s' = s" | (ok) x where "q = Inr x" "f x = (r, s')"
  using assms by (cases q) (auto simp: try_res_def)

lemma rc_check_cases:
  assumes "rc_check e p = (r, s')"
  obtains (fail) rc where "p = (rc, s')" "rc < 0" "r = e"
    | (ok) rc where "p = (rc, s')" "0 \<le> rc" "r = ASTARTE_RESULT_OK"
  using assms by (cases p) (auto simp: rc_check_def split: if_splits)

end
