(* ===== verification/Alloc.thy ===== *)
theory Alloc
  imports Result
begin

text \<open>
  The allocator of the library (lib/astarte\_device\_sdk/alloc.c).  The kernel heap is not part of
  the repository: \<open>heap n\<close> says whether it can serve a request of \<open>n\<close> bytes.  What the
  library adds is the treatment of empty requests, which always fail.
\<close>

definition astarte_malloc :: "(nat \<Rightarrow> bool) \<Rightarrow> nat \<Rightarrow> bool" where
  "astarte_malloc heap sz = (if sz = 0 then False else heap sz)"

definition astarte_calloc :: "(nat \<Rightarrow> bool) \<Rightarrow> nat \<Rightarrow> nat \<Rightarrow> bool" where
  "astarte_calloc heap nmemb sz =
     (if nmemb = 0 \<or> sz = 0 then False else heap (nmemb * sz))"

text \<open>\<open>old\<close> tells whether the pointer handed in is not \<open>NULL\<close>.\<close>

definition astarte_realloc :: "(nat \<Rightarrow> bool) \<Rightarrow> bool \<Rightarrow> nat \<Rightarrow> bool" where
  "astarte_realloc heap old sz =
     (if \<not> old then astarte_malloc heap sz else if sz = 0 then False else heap sz)"

lemma astarte_calloc_one [simp]: "astarte_calloc heap n (Suc 0) \<longleftrightarrow> 0 < n \<and> heap n"
  by (simp add: astarte_calloc_def)

lemma astarte_realloc_pos [simp]: "0 < n \<Longrightarrow> astarte_realloc heap old n = heap n"
  by (simp add: astarte_realloc_def astarte_malloc_def)

end
