(* ===== verification/KV_Env.thy ===== *)
theory KV_Env
  imports Alloc
begin

text \<open>
  The environment of the key-value store (lib/astarte\_device\_sdk/key\_value): Zephyr's ZMS
  file system, the kernel heap, \<open>sys_hash32\<close> and the system mutex.  None of them is part of the
  repository, so they are the fields of a record \<open>'s kv_env\<close> over an arbitrary state \<open>'s\<close>, and
  every operation of the store takes such a record.

  The locale \<open>zms_store\<close> states the documented behaviour of ZMS the store relies on: reads are
  exact, a missing ID reads as \<open>-ENOENT\<close>, and a write or a delete either fails and leaves the
  contents alone (a record is committed by its allocation table entry, so a power loss in the
  middle of a write is a failed write) or takes effect as a whole.  Nothing is assumed of the
  heap, the hash function or the mutex.
\<close>

section \<open>The interface\<close>

definition ENOENT :: int where "ENOENT = 2"
definition EIO :: int where "EIO = 5"

record 's kv_env =
  zms_read :: "'s \<Rightarrow> u32 \<Rightarrow> nat \<Rightarrow> int \<times> byte list"
  zms_get_data_length :: "'s \<Rightarrow> u32 \<Rightarrow> int"
  zms_write :: "'s \<Rightarrow> u32 \<Rightarrow> byte list \<Rightarrow> int \<times> 's"
  zms_delete :: "'s \<Rightarrow> u32 \<Rightarrow> int \<times> 's"
  k_heap :: "'s \<Rightarrow> nat \<Rightarrow> bool"
  sys_hash32 :: "byte list \<Rightarrow> u32"
  sys_mutex_lock :: "'s \<Rightarrow> int"

locale zms_store =
  fixes Z :: "'s kv_env"
    and C :: "'s \<Rightarrow> u32 \<rightharpoonup> byte list"
  assumes read_Some: "C s i = Some d \<Longrightarrow> zms_read Z s i n = (int (min n (length d)), take n d)"
    and read_None: "C s i = None \<Longrightarrow> zms_read Z s i n = (- ENOENT, [])"
    and length_Some: "C s i = Some d \<Longrightarrow> zms_get_data_length Z s i = int (length d)"
    and length_None: "C s i = None \<Longrightarrow> zms_get_data_length Z s i = - ENOENT"
    and write_law: "zms_write Z s i d = (rc, s') \<Longrightarrow> d \<noteq> [] \<Longrightarrow>
      rc < 0 \<and> C s' = C s \<or> 0 \<le> rc \<and> C s' = (C s)(i \<mapsto> d)"
    and delete_law: "zms_delete Z s i = (rc, s') \<Longrightarrow>
      rc < 0 \<and> C s' = C s \<or> 0 \<le> rc \<and> C s' = (C s)(i := None)"
begin

text \<open>The two outcomes of a checked write or delete.\<close>

lemma write_cases:
  assumes "rc_check e (zms_write Z s i d) = (r, s')" and "d \<noteq> []"
  obtains (fail) "r = e" "C s' = C s" | (ok) "r = ASTARTE_RESULT_OK" "C s' = (C s)(i \<mapsto> d)"
  using assms by (elim rc_check_cases) (use write_law in fastforce)+

lemma delete_cases:
  assumes "rc_check e (zms_delete Z s i) = (r, s')"
  obtains (fail) "r = e" "C s' = C s" | (ok) "r = ASTARTE_RESULT_OK" "C s' = (C s)(i := None)"
  using assms by (elim rc_check_cases) (use delete_law in fastforce)+

text \<open>What a read says about the contents.\<close>

lemma read_ENOENT [simp]: "fst (zms_read Z s i n) = - ENOENT \<longleftrightarrow> C s i = None"
  by (cases "C s i") (simp_all add: read_Some read_None ENOENT_def)

end

text \<open>
  A store on which every write succeeds, with an ample heap and a free mutex: what is needed, on
  top of the documented behaviour, to say that an operation does succeed.
\<close>

locale reliable_store = zms_store Z C for Z :: "'s kv_env" and C +
  assumes write_ok: "0 \<le> fst (zms_write Z s i d)"
    and delete_ok: "0 \<le> fst (zms_delete Z s i)"
    and heap_ok: "k_heap Z s n"
    and mutex_ok: "sys_mutex_lock Z s = 0"
begin

lemma write_check: "rc_check e (zms_write Z s i d) = (ASTARTE_RESULT_OK, snd (zms_write Z s i d))"
  using write_ok [of s i d] by (cases "zms_write Z s i d") (simp add: rc_check_def)

lemma delete_check: "rc_check e (zms_delete Z s i) = (ASTARTE_RESULT_OK, snd (zms_delete Z s i))"
  using delete_ok [of s i] by (cases "zms_delete Z s i") (simp add: rc_check_def)

end

section \<open>A store in memory\<close>

text \<open>
  The concrete environment used to evaluate the model: the contents of the flash partition and the
  number of writes that still succeed.  When that number reaches zero every further write fails
  and the contents stay as they are, which is how a power loss after that many writes looks to
  whoever mounts the partition again.
\<close>

record ram =
  ram_store :: "u32 \<rightharpoonup> byte list"
  ram_writes :: nat

definition ram_read :: "ram \<Rightarrow> u32 \<Rightarrow> nat \<Rightarrow> int \<times> byte list" where
  "ram_read s i n = (case ram_store s i of None \<Rightarrow> (- ENOENT, [])
     | Some d \<Rightarrow> (int (min n (length d)), take n d))"

definition ram_length :: "ram \<Rightarrow> u32 \<Rightarrow> int" where
  "ram_length s i = (case ram_store s i of None \<Rightarrow> - ENOENT | Some d \<Rightarrow> int (length d))"

definition ram_write :: "ram \<Rightarrow> u32 \<Rightarrow> byte list \<Rightarrow> int \<times> ram" where
  "ram_write s i d = (if ram_writes s = 0 then (- EIO, s)
     else (int (length d),
       s\<lparr>ram_store := (ram_store s)(i \<mapsto> d), ram_writes := ram_writes s - 1\<rparr>))"

definition ram_delete :: "ram \<Rightarrow> u32 \<Rightarrow> int \<times> ram" where
  "ram_delete s i = (if ram_writes s = 0 then (- EIO, s)
     else (0, s\<lparr>ram_store := (ram_store s)(i := None), ram_writes := ram_writes s - 1\<rparr>))"

definition ram_env :: "(byte list \<Rightarrow> u32) \<Rightarrow> ram kv_env" where
  "ram_env h = \<lparr>zms_read = ram_read, zms_get_data_length = ram_length, zms_write = ram_write,
     zms_delete = ram_delete, k_heap = (\<lambda>_ _. True), sys_hash32 = h,
     sys_mutex_lock = (\<lambda>_. 0)\<rparr>"

definition ram_fresh :: "nat \<Rightarrow> ram" where
  "ram_fresh n = \<lparr>ram_store = Map.empty, ram_writes = n\<rparr>"

lemma ram_env_simps [simp]:
  "zms_read (ram_env h) = ram_read" "zms_get_data_length (ram_env h) = ram_length"
  "zms_write (ram_env h) = ram_write" "zms_delete (ram_env h) = ram_delete"
  "k_heap (ram_env h) s n" "sys_hash32 (ram_env h) = h" "sys_mutex_lock (ram_env h) s = 0"
  by (simp_all add: ram_env_def)

interpretation ram: zms_store "ram_env h" ram_store for h
  by unfold_locales
    (auto simp: ram_read_def ram_length_def ram_write_def ram_delete_def ENOENT_def EIO_def
      split: if_splits)

text \<open>The same partition on a device that works again.\<close>

definition ram_repaired :: "(byte list \<Rightarrow> u32) \<Rightarrow> ram kv_env" where
  "ram_repaired h = (ram_env h)
     \<lparr>zms_write := (\<lambda>s i d. (int (length d), s\<lparr>ram_store := (ram_store s)(i \<mapsto> d)\<rparr>)),
      zms_delete := (\<lambda>s i. (0, s\<lparr>ram_store := (ram_store s)(i := None)\<rparr>))\<rparr>"

interpretation repaired: reliable_store "ram_repaired h" ram_store for h
  by unfold_locales
    (auto simp: ram_repaired_def ram_env_def ram_read_def ram_length_def ENOENT_def)

lemma ram_repaired_hash [simp]: "sys_hash32 (ram_repaired h) = h"
  by (simp add: ram_repaired_def)

text \<open>The same store without the limit on writes.\<close>

definition disk_write :: "(u32 \<rightharpoonup> byte list) \<Rightarrow> u32 \<Rightarrow> byte list \<Rightarrow> int \<times> (u32 \<rightharpoonup> byte list)" where
  "disk_write m i d = (int (length d), m(i \<mapsto> d))"

definition disk_delete :: "(u32 \<rightharpoonup> byte list) \<Rightarrow> u32 \<Rightarrow> int \<times> (u32 \<rightharpoonup> byte list)" where
  "disk_delete m i = (0, m(i := None))"

definition disk_read :: "(u32 \<rightharpoonup> byte list) \<Rightarrow> u32 \<Rightarrow> nat \<Rightarrow> int \<times> byte list" where
  "disk_read m i n = (case m i of None \<Rightarrow> (- ENOENT, [])
     | Some d \<Rightarrow> (int (min n (length d)), take n d))"

definition disk_length :: "(u32 \<rightharpoonup> byte list) \<Rightarrow> u32 \<Rightarrow> int" where
  "disk_length m i = (case m i of None \<Rightarrow> - ENOENT | Some d \<Rightarrow> int (length d))"

definition disk_env :: "(byte list \<Rightarrow> u32) \<Rightarrow> (u32 \<rightharpoonup> byte list) kv_env" where
  "disk_env h = \<lparr>zms_read = disk_read, zms_get_data_length = disk_length, zms_write = disk_write,
     zms_delete = disk_delete, k_heap = (\<lambda>_ _. True), sys_hash32 = h,
     sys_mutex_lock = (\<lambda>_. 0)\<rparr>"

lemma disk_env_simps [simp]:
  "zms_read (disk_env h) = disk_read" "zms_get_data_length (disk_env h) = disk_length"
  "zms_write (disk_env h) = disk_write" "zms_delete (disk_env h) = disk_delete"
  "k_heap (disk_env h) s n" "sys_hash32 (disk_env h) = h" "sys_mutex_lock (disk_env h) s = 0"
  by (simp_all add: disk_env_def)

interpretation disk: reliable_store "disk_env h" "\<lambda>m. m" for h
  by unfold_locales
    (auto simp: disk_read_def disk_length_def disk_write_def disk_delete_def ENOENT_def)

end
