(* ===== verification/KV_Format.thy ===== *)
theory KV_Format
  imports KV_Env
begin

text \<open>
  What the key-value store keeps in ZMS: the reserved IDs (include/key\_value/entry.h), the header
  of an entry and its reading (entry\_header.c), the hash that gives an entry its natural ID
  (entry\_hash.c), and the serialisation of an entry (\<open>serialize_entry\<close> of entry.c).

  The second half relates the bytes to the entry they stand for: \<open>kv_image\<close> is the image of an
  entry, and every operation that reads a header of an image gets the fields back.
\<close>

section \<open>Reserved IDs\<close>

definition NULL_ID :: u32 where "NULL_ID = 0xFFFFFFFF"
definition VERSION_ID :: u32 where "VERSION_ID = NULL_ID - 1"
definition HEAD_AND_TAIL_ID :: u32 where "HEAD_AND_TAIL_ID = VERSION_ID - 1"
definition INTENT_ID :: u32 where "INTENT_ID = HEAD_AND_TAIL_ID - 1"
definition MAX_USABLE_ID :: u32 where "MAX_USABLE_ID = INTENT_ID - 1"
definition MIN_USABLE_ID :: u32 where "MIN_USABLE_ID = 0x1FFFF + 1"

lemmas id_defs = NULL_ID_def VERSION_ID_def HEAD_AND_TAIL_ID_def INTENT_ID_def
  MAX_USABLE_ID_def MIN_USABLE_ID_def

definition usable :: "u32 \<Rightarrow> bool" where
  "usable i \<longleftrightarrow> MIN_USABLE_ID \<le> i \<and> i \<le> MAX_USABLE_ID"

lemma reserved_not_usable [simp]:
  "\<not> usable NULL_ID" "\<not> usable VERSION_ID" "\<not> usable HEAD_AND_TAIL_ID" "\<not> usable INTENT_ID"
  by (simp_all add: usable_def id_defs)

lemma reserved_distinct [simp]:
  "HEAD_AND_TAIL_ID \<noteq> INTENT_ID" "INTENT_ID \<noteq> HEAD_AND_TAIL_ID"
  "VERSION_ID \<noteq> INTENT_ID" "VERSION_ID \<noteq> HEAD_AND_TAIL_ID"
  "INTENT_ID \<noteq> VERSION_ID" "HEAD_AND_TAIL_ID \<noteq> VERSION_ID"
  by (simp_all add: id_defs)

lemma usable_neq:
  "usable i \<Longrightarrow> i \<noteq> NULL_ID" "usable i \<Longrightarrow> i \<noteq> HEAD_AND_TAIL_ID"
  "usable i \<Longrightarrow> i \<noteq> INTENT_ID" "usable i \<Longrightarrow> i \<noteq> VERSION_ID"
  by auto

text \<open>The step of the linear probing loops: the next ID, back to the first after the last.\<close>

definition next_slot :: "u32 \<Rightarrow> u32" where
  "next_slot c = (if c + 1 > MAX_USABLE_ID then MIN_USABLE_ID else c + 1)"

section \<open>Hash\<close>

definition HASH_COMBINE_MAGIC :: u32 where "HASH_COMBINE_MAGIC = 0x9e3779b9"

definition slot_range :: u32 where
  "slot_range = MAX_USABLE_ID - MIN_USABLE_ID + 1"

definition hash_combine :: "u32 \<Rightarrow> u32 \<Rightarrow> u32" where
  "hash_combine hash_nsp hash_key =
     hash_nsp XOR (hash_key + HASH_COMBINE_MAGIC + push_bit 6 hash_nsp + drop_bit 2 hash_nsp)"

definition lemire_reduce :: "u32 \<Rightarrow> u32" where
  "lemire_reduce hash =
     MIN_USABLE_ID + (ucast (drop_bit 32 ((ucast hash :: u64) * (ucast slot_range :: u64))) :: u32)"

definition entry_hash_generate :: "'s kv_env \<Rightarrow> byte list \<Rightarrow> byte list \<Rightarrow> u32" where
  "entry_hash_generate Z ns key =
     lemire_reduce (hash_combine (sys_hash32 Z (c_string ns)) (sys_hash32 Z (c_string key)))"

section \<open>Entry headers\<close>

definition FIXED_HEADER_BYTES :: nat where "FIXED_HEADER_BYTES = 2 + 2 + 4 + 4"

record header_fixed =
  hf_namespace_len :: u16
  hf_key_len :: u16
  hf_next_id :: u32
  hf_prev_id :: u32

record entry_header =
  eh_fixed :: header_fixed
  eh_namespace :: "byte list"
  eh_key :: "byte list"

definition parse_fixed :: "byte list \<Rightarrow> header_fixed" where
  "parse_fixed raw = \<lparr>hf_namespace_len = get_le16 raw, hf_key_len = get_le16 (drop 2 raw),
     hf_next_id = get_le32 (drop 4 raw), hf_prev_id = get_le32 (drop 8 raw)\<rparr>"

definition entry_header_read_fixed ::
    "'s kv_env \<Rightarrow> 's \<Rightarrow> u32 \<Rightarrow> astarte_result_t + header_fixed \<times> nat" where
  "entry_header_read_fixed Z s idx =
     (case zms_read Z s idx FIXED_HEADER_BYTES of (ret, raw) \<Rightarrow>
        if ret = - ENOENT then Inl ASTARTE_RESULT_NOT_FOUND
        else if ret \<noteq> int FIXED_HEADER_BYTES then Inl ASTARTE_RESULT_ZMS_ERROR
        else let len = zms_get_data_length Z s idx in
          if len < 0 then Inl ASTARTE_RESULT_ZMS_ERROR
          else Inr (parse_fixed (fill_buf FIXED_HEADER_BYTES raw), nat len))"

definition entry_header_read ::
    "'s kv_env \<Rightarrow> 's \<Rightarrow> u32 \<Rightarrow> astarte_result_t + entry_header \<times> nat" where
  "entry_header_read Z s idx =
     (case entry_header_read_fixed Z s idx of
        Inl ares \<Rightarrow> Inl ares
      | Inr (fixed, raw_entry_size) \<Rightarrow>
          let nsl = unat (hf_namespace_len fixed); keyl = unat (hf_key_len fixed);
              raw_header_size = FIXED_HEADER_BYTES + nsl + keyl in
          if \<not> astarte_calloc (k_heap Z s) raw_header_size 1 then Inl ASTARTE_RESULT_OUT_OF_MEMORY
          else case zms_read Z s idx raw_header_size of (ret, raw) \<Rightarrow>
            if ret \<noteq> int raw_header_size then Inl ASTARTE_RESULT_ZMS_ERROR
            else if \<not> astarte_calloc (k_heap Z s) (nsl + 1) 1 then Inl ASTARTE_RESULT_OUT_OF_MEMORY
            else if \<not> astarte_calloc (k_heap Z s) (keyl + 1) 1 then Inl ASTARTE_RESULT_OUT_OF_MEMORY
            else Inr (\<lparr>eh_fixed = fixed,
                eh_namespace = take nsl (drop FIXED_HEADER_BYTES (fill_buf raw_header_size raw)),
                eh_key = take keyl (drop (FIXED_HEADER_BYTES + nsl) (fill_buf raw_header_size raw))\<rparr>,
              raw_entry_size))"

section \<open>Serialisation\<close>

text \<open>
  The lengths are stored in 16 bits.  A \<open>NULL\<close> value of \<open>n\<close> bytes leaves the \<open>n\<close> zero bytes of
  \<open>calloc\<close> in place, so it is the value of \<open>n\<close> zero bytes.
\<close>

definition serialize_entry ::
    "'s kv_env \<Rightarrow> 's \<Rightarrow> entry_header \<Rightarrow> byte list \<Rightarrow> byte list option" where
  "serialize_entry Z s header value =
     (let f = eh_fixed header;
          nsp_len = unat (hf_namespace_len f); key_len = unat (hf_key_len f);
          entry_size = FIXED_HEADER_BYTES + nsp_len + key_len + length value in
      if \<not> astarte_calloc (k_heap Z s) entry_size 1 then None
      else Some (le16 (hf_namespace_len f) @ le16 (hf_key_len f) @ le32 (hf_next_id f)
        @ le32 (hf_prev_id f) @ take nsp_len (eh_namespace header) @ take key_len (eh_key header)
        @ value))"

section \<open>Entries and their images\<close>

record kv_entry =
  e_ns :: "byte list"
  e_key :: "byte list"
  e_val :: "byte list"
  e_next :: u32
  e_prev :: u32

definition kv_image :: "kv_entry \<Rightarrow> byte list" where
  "kv_image e = le16 (of_nat (length (e_ns e))) @ le16 (of_nat (length (e_key e)))
     @ le32 (e_next e) @ le32 (e_prev e) @ e_ns e @ e_key e @ e_val e"

text \<open>Names are C strings short enough for their stored length.\<close>

definition valid_name :: "byte list \<Rightarrow> bool" where
  "valid_name n \<longleftrightarrow> nul_free n \<and> length n < 65536"

definition valid_entry :: "kv_entry \<Rightarrow> bool" where
  "valid_entry e \<longleftrightarrow> valid_name (e_ns e) \<and> valid_name (e_key e)"

definition entry_fixed :: "kv_entry \<Rightarrow> header_fixed" where
  "entry_fixed e = \<lparr>hf_namespace_len = of_nat (length (e_ns e)), hf_key_len = of_nat (length (e_key e)),
     hf_next_id = e_next e, hf_prev_id = e_prev e\<rparr>"

definition entry_header_of :: "kv_entry \<Rightarrow> entry_header" where
  "entry_header_of e = \<lparr>eh_fixed = entry_fixed e, eh_namespace = e_ns e, eh_key = e_key e\<rparr>"

lemma valid_entry_upd [simp]:
  "valid_entry (e\<lparr>e_next := n\<rparr>) = valid_entry e"
  "valid_entry (e\<lparr>e_prev := n\<rparr>) = valid_entry e"
  "valid_entry (e\<lparr>e_val := v\<rparr>) = valid_entry e"
  by (simp_all add: valid_entry_def)

lemma valid_nameD: "valid_name n \<Longrightarrow> nul_free n" "valid_name n \<Longrightarrow> length n < 65536"
  by (simp_all add: valid_name_def)

lemma length_kv_image [simp]:
  "length (kv_image e) = 12 + length (e_ns e) + length (e_key e) + length (e_val e)"
  by (simp add: kv_image_def)

lemma kv_image_not_Nil [simp]: "kv_image e \<noteq> []"
  by (simp flip: length_0_conv)

lemma unat_of_nat_u16: "n < 65536 \<Longrightarrow> unat (of_nat n :: u16) = n"
  by (simp add: unsigned_of_nat take_bit_eq_mod)

lemma parse_fixed_image: "parse_fixed (take 12 (kv_image e)) = entry_fixed e"
  by (simp add: parse_fixed_def kv_image_def entry_fixed_def)

lemma image_names:
  "take (length (e_ns e)) (drop 12 (kv_image e)) = e_ns e"
  "take (length (e_key e)) (drop (12 + length (e_ns e)) (kv_image e)) = e_key e"
  "drop (12 + length (e_ns e) + length (e_key e)) (kv_image e) = e_val e"
  by (simp_all add: kv_image_def)

text \<open>Overwriting a link field of an image.\<close>

lemma patch_next: "patch 4 (le32 n) (kv_image e) = kv_image (e\<lparr>e_next := n\<rparr>)"
  using patch_append [of "le16 (of_nat (length (e_ns e))) @ le16 (of_nat (length (e_key e)))" 4
      "le32 (e_next e)" "le32 n"]
  by (simp add: kv_image_def)

lemma patch_prev: "patch 8 (le32 n) (kv_image e) = kv_image (e\<lparr>e_prev := n\<rparr>)"
  using patch_append [of "le16 (of_nat (length (e_ns e))) @ le16 (of_nat (length (e_key e)))
      @ le32 (e_next e)" 8 "le32 (e_prev e)" "le32 n"]
  by (simp add: kv_image_def)

section \<open>Reading an image back\<close>

lemma serialize_entry_image:
  assumes "valid_entry e" and "serialize_entry Z s (entry_header_of e) (e_val e) = Some raw"
  shows "raw = kv_image e"
  using assms
  by (auto simp: serialize_entry_def entry_header_of_def entry_fixed_def kv_image_def Let_def
      valid_entry_def valid_name_def unat_of_nat_u16 split: if_splits)

context zms_store begin

lemma read_fixed_image:
  assumes "C s i = Some (kv_image e)"
  shows "entry_header_read_fixed Z s i = Inr (entry_fixed e, length (kv_image e))"
  using assms
  by (simp add: entry_header_read_fixed_def FIXED_HEADER_BYTES_def read_Some length_Some ENOENT_def
      parse_fixed_image)

lemma read_fixed_None:
  "C s i = None \<Longrightarrow> entry_header_read_fixed Z s i = Inl ASTARTE_RESULT_NOT_FOUND"
  by (simp add: entry_header_read_fixed_def read_None)

lemma read_header_image:
  assumes "C s i = Some (kv_image e)" and "valid_entry e"
  shows "entry_header_read Z s i = Inr (entry_header_of e, length (kv_image e))
    \<or> entry_header_read Z s i = Inl ASTARTE_RESULT_OUT_OF_MEMORY"
proof -
  have nsl: "unat (of_nat (length (e_ns e)) :: u16) = length (e_ns e)"
    and keyl: "unat (of_nat (length (e_key e)) :: u16) = length (e_key e)"
    using assms(2) by (simp_all add: valid_entry_def valid_name_def unat_of_nat_u16)
  have "take (length (e_ns e)) (drop 12 (take (12 + length (e_ns e) + length (e_key e)) (kv_image e)))
      = e_ns e"
    by (simp add: kv_image_def)
  moreover have "take (length (e_key e)) (drop (12 + length (e_ns e))
      (take (12 + length (e_ns e) + length (e_key e)) (kv_image e))) = e_key e"
    by (simp add: kv_image_def)
  ultimately show ?thesis
    using assms(1)
    by (simp add: entry_header_read_def read_fixed_image read_Some Let_def nsl keyl
        FIXED_HEADER_BYTES_def entry_header_of_def entry_fixed_def)
qed

lemma read_header_None:
  "C s i = None \<Longrightarrow> entry_header_read Z s i = Inl ASTARTE_RESULT_NOT_FOUND"
  by (simp add: entry_header_read_def read_fixed_None)

lemma read_header_heap:
  assumes "C s i = Some (kv_image e)" and "valid_entry e" and "\<And>n. k_heap Z s n"
  shows "entry_header_read Z s i = Inr (entry_header_of e, length (kv_image e))"
proof -
  have "entry_header_read Z s i \<noteq> Inl ASTARTE_RESULT_OUT_OF_MEMORY"
    using assms
    by (simp add: entry_header_read_def read_fixed_image Let_def FIXED_HEADER_BYTES_def
        split: prod.splits)
  with read_header_image [OF assms(1,2)] show ?thesis by simp
qed

end

end
