(* ===== verification/KV_Ops.thy ===== *)
theory KV_Ops
  imports KV_Format "HOL-Library.Monad_Syntax"
begin

text \<open>
  The operations of the store below its public interface, file by file: the global list
  (entry\_list.c), the intent block (entry\_intent.c), entries (entry.c) and deletion with its
  shift back (entry\_delete.c).

  A query returns \<open>astarte_result_t + 'a\<close>, an update \<open>astarte_result_t \<times> 's\<close>.  The
  probing and list loops have no bound in the code, so they are partial functions: their result is
  an option, and \<open>None\<close> is a loop that does not return.
\<close>

section \<open>entry\_list.c\<close>

definition read_head_and_tail_ids :: "'s kv_env \<Rightarrow> 's \<Rightarrow> astarte_result_t + u32 \<times> u32" where
  "read_head_and_tail_ids Z s =
     (case zms_read Z s HEAD_AND_TAIL_ID 8 of (ret, raw) \<Rightarrow>
        if ret = - ENOENT then Inr (NULL_ID, NULL_ID)
        else if ret \<noteq> 8 then Inl ASTARTE_RESULT_ZMS_ERROR
        else Inr (get_le32 (fill_buf 8 raw), get_le32 (drop 4 (fill_buf 8 raw))))"

definition write_head_and_tail_ids ::
    "'s kv_env \<Rightarrow> u32 \<Rightarrow> u32 \<Rightarrow> 's \<Rightarrow> astarte_result_t \<times> 's" where
  "write_head_and_tail_ids Z head_id tail_id s =
     rc_check ASTARTE_RESULT_ZMS_ERROR
       (zms_write Z s HEAD_AND_TAIL_ID (le32 head_id @ le32 tail_id))"

text \<open>The code's result, next ID and previous ID; the IDs are meaningless after an error.\<close>

definition compute_next_and_prev_ids ::
    "'s kv_env \<Rightarrow> 's \<Rightarrow> u32 \<Rightarrow> astarte_result_t \<times> u32 \<times> u32" where
  "compute_next_and_prev_ids Z s idx =
     (case entry_header_read_fixed Z s idx of
        Inr (fixed, raw_size) \<Rightarrow> (ASTARTE_RESULT_OK, hf_next_id fixed, hf_prev_id fixed)
      | Inl ares \<Rightarrow>
          if ares = ASTARTE_RESULT_NOT_FOUND then
            (case read_head_and_tail_ids Z s of
               Inl internal_ares \<Rightarrow> (internal_ares, NULL_ID, NULL_ID)
             | Inr (head_id, tail_id) \<Rightarrow> (ares, NULL_ID, tail_id))
          else (ares, NULL_ID, NULL_ID))"

definition patch_entry :: "'s kv_env \<Rightarrow> nat \<Rightarrow> u32 \<Rightarrow> u32 \<Rightarrow> 's \<Rightarrow> astarte_result_t \<times> 's" where
  "patch_entry Z off idx new_id s =
     (let raw_entry_size = zms_get_data_length Z s idx; n = nat raw_entry_size in
      if raw_entry_size \<le> 0 then (ASTARTE_RESULT_ZMS_ERROR, s)
      else if \<not> astarte_calloc (k_heap Z s) n 1 then (ASTARTE_RESULT_OUT_OF_MEMORY, s)
      else case zms_read Z s idx n of (ret, raw) \<Rightarrow>
        if ret \<noteq> raw_entry_size then (ASTARTE_RESULT_ZMS_ERROR, s)
        else rc_check ASTARTE_RESULT_ZMS_ERROR
          (zms_write Z s idx (patch off (le32 new_id) (fill_buf n raw))))"

definition update_next_id :: "'s kv_env \<Rightarrow> u32 \<Rightarrow> u32 \<Rightarrow> 's \<Rightarrow> astarte_result_t \<times> 's" where
  "update_next_id Z idx new_next s = patch_entry Z (2 + 2) idx new_next s"

definition update_prev_id :: "'s kv_env \<Rightarrow> u32 \<Rightarrow> u32 \<Rightarrow> 's \<Rightarrow> astarte_result_t \<times> 's" where
  "update_prev_id Z idx new_prev s = patch_entry Z (2 + 2 + 4) idx new_prev s"

section \<open>entry\_intent.c, writing\<close>

datatype intent_state = INTENT_NONE | INTENT_INSERTING | INTENT_UPDATING | INTENT_DELETING
  | INTENT_SHIFTING

fun intent_state_code :: "intent_state \<Rightarrow> u8" where
  "intent_state_code INTENT_NONE = 0"
| "intent_state_code INTENT_INSERTING = 1"
| "intent_state_code INTENT_UPDATING = 2"
| "intent_state_code INTENT_DELETING = 3"
| "intent_state_code INTENT_SHIFTING = 4"

record kv_intent =
  in_state :: u8
  in_target_id :: u32
  in_affected_id_1 :: u32
  in_affected_id_2 :: u32

text \<open>The struct in memory: the state byte, three bytes of padding and the IDs.\<close>

definition intent_bytes :: "kv_intent \<Rightarrow> byte list" where
  "intent_bytes i = [in_state i, 0, 0, 0] @ le32 (in_target_id i) @ le32 (in_affected_id_1 i)
     @ le32 (in_affected_id_2 i)"

definition parse_intent :: "byte list \<Rightarrow> kv_intent" where
  "parse_intent raw = \<lparr>in_state = hd raw, in_target_id = get_le32 (drop 4 raw),
     in_affected_id_1 = get_le32 (drop 8 raw), in_affected_id_2 = get_le32 (drop 12 raw)\<rparr>"

definition entry_intent_write ::
    "'s kv_env \<Rightarrow> intent_state \<Rightarrow> u32 \<Rightarrow> u32 \<Rightarrow> u32 \<Rightarrow> 's \<Rightarrow> astarte_result_t \<times> 's" where
  "entry_intent_write Z st target_id affected_id_1 affected_id_2 s =
     rc_check ASTARTE_RESULT_ZMS_ERROR (zms_write Z s INTENT_ID (intent_bytes
       \<lparr>in_state = intent_state_code st, in_target_id = target_id,
        in_affected_id_1 = affected_id_1, in_affected_id_2 = affected_id_2\<rparr>))"

definition entry_intent_clear :: "'s kv_env \<Rightarrow> 's \<Rightarrow> astarte_result_t \<times> 's" where
  "entry_intent_clear Z s =
     rc_check ASTARTE_RESULT_ZMS_ERROR (zms_write Z s INTENT_ID (intent_bytes
       \<lparr>in_state = intent_state_code INTENT_NONE, in_target_id = 0, in_affected_id_1 = 0,
        in_affected_id_2 = 0\<rparr>))"

section \<open>entry.c\<close>

definition check_entry_match ::
    "'s kv_env \<Rightarrow> 's \<Rightarrow> u32 \<Rightarrow> byte list \<Rightarrow> byte list \<Rightarrow> astarte_result_t" where
  "check_entry_match Z s idx ns key =
     (case entry_header_read Z s idx of
        Inl ares \<Rightarrow> ares
      | Inr (header, raw_size) \<Rightarrow>
          let nsl = unat (hf_namespace_len (eh_fixed header));
              keyl = unat (hf_key_len (eh_fixed header)) in
          if nsl \<noteq> strlen ns \<or> keyl \<noteq> strlen key then ASTARTE_RESULT_MISMATCH
          else if \<not> strncmp_eq (eh_namespace header) ns nsl
              \<or> \<not> strncmp_eq (eh_key header) key keyl then ASTARTE_RESULT_MISMATCH
          else ASTARTE_RESULT_OK)"

partial_function (option) find_or_alloc_loop ::
    "'s kv_env \<Rightarrow> 's \<Rightarrow> byte list \<Rightarrow> byte list \<Rightarrow> bool \<Rightarrow> u32 \<Rightarrow> u32
      \<Rightarrow> (astarte_result_t + u32) option" where
  "find_or_alloc_loop Z s ns key allocate start_id curr_id =
     (let ares = check_entry_match Z s curr_id ns key in
      if ares = ASTARTE_RESULT_NOT_FOUND then
        Some (if \<not> allocate then Inl ares else Inr curr_id)
      else if ares = ASTARTE_RESULT_OK then Some (Inr curr_id)
      else if ares \<noteq> ASTARTE_RESULT_MISMATCH then Some (Inl ares)
      else if next_slot curr_id = start_id then Some (Inl ASTARTE_RESULT_KEY_VALUE_FULL)
      else find_or_alloc_loop Z s ns key allocate start_id (next_slot curr_id))"

definition entry_find_or_alloc ::
    "'s kv_env \<Rightarrow> 's \<Rightarrow> byte list \<Rightarrow> byte list \<Rightarrow> bool \<Rightarrow> (astarte_result_t + u32) option" where
  "entry_find_or_alloc Z s ns key allocate =
     (let start_id = entry_hash_generate Z ns key in
      find_or_alloc_loop Z s ns key allocate start_id start_id)"

definition update_list_tail :: "'s kv_env \<Rightarrow> u32 \<Rightarrow> 's \<Rightarrow> astarte_result_t \<times> 's" where
  "update_list_tail Z new_tail_id s =
     try_res (read_head_and_tail_ids Z s) s (\<lambda>(head_id, tail_id).
       if tail_id \<noteq> NULL_ID then
         and_then (update_next_id Z tail_id new_tail_id s) (\<lambda>s.
           write_head_and_tail_ids Z head_id new_tail_id s)
       else write_head_and_tail_ids Z new_tail_id new_tail_id s)"

definition entry_write ::
    "'s kv_env \<Rightarrow> u32 \<Rightarrow> byte list \<Rightarrow> byte list \<Rightarrow> byte list \<Rightarrow> 's \<Rightarrow> astarte_result_t \<times> 's" where
  "entry_write Z idx ns key value s =
     (case compute_next_and_prev_ids Z s idx of (ares, next_id, prev_id) \<Rightarrow>
        if ares \<noteq> ASTARTE_RESULT_NOT_FOUND \<and> ares \<noteq> ASTARTE_RESULT_OK then (ares, s)
        else
          let is_end_of_list = (ares = ASTARTE_RESULT_NOT_FOUND);
              header = \<lparr>eh_fixed = \<lparr>hf_namespace_len = of_nat (strlen ns),
                hf_key_len = of_nat (strlen key), hf_next_id = next_id, hf_prev_id = prev_id\<rparr>,
                eh_namespace = ns, eh_key = key\<rparr>
          in case serialize_entry Z s header value of
            None \<Rightarrow> (ASTARTE_RESULT_OUT_OF_MEMORY, s)
          | Some raw_entry \<Rightarrow>
              and_then (entry_intent_write Z
                (if is_end_of_list then INTENT_INSERTING else INTENT_UPDATING) idx prev_id next_id s)
              (\<lambda>s. and_then (rc_check ASTARTE_RESULT_ZMS_ERROR (zms_write Z s idx raw_entry))
              (\<lambda>s. and_then (if is_end_of_list then update_list_tail Z idx s
                  else (ASTARTE_RESULT_OK, s))
              (\<lambda>s. entry_intent_clear Z s))))"

text \<open>
  The value buffer is \<open>None\<close> to query the size, or \<open>Some size\<close> of the caller's buffer.  The
  result is the size of the value and, when a buffer was given, its bytes.
\<close>

definition entry_read_value ::
    "'s kv_env \<Rightarrow> 's \<Rightarrow> u32 \<Rightarrow> nat option \<Rightarrow> astarte_result_t + nat \<times> byte list" where
  "entry_read_value Z s idx buffer =
     (case entry_header_read_fixed Z s idx of
        Inl ares \<Rightarrow> Inl ares
      | Inr (fixed, raw_entry_size) \<Rightarrow>
          let header_size = FIXED_HEADER_BYTES + unat (hf_namespace_len fixed)
                + unat (hf_key_len fixed);
              read_value_size = raw_entry_size - header_size in
          if header_size > raw_entry_size then Inl ASTARTE_RESULT_STORAGE_CORRUPTED_ERROR
          else case buffer of
            None \<Rightarrow> Inr (read_value_size, [])
          | Some value_size \<Rightarrow>
              if value_size < read_value_size then Inl ASTARTE_RESULT_INVALID_PARAM
              else if \<not> astarte_calloc (k_heap Z s) raw_entry_size 1
                then Inl ASTARTE_RESULT_OUT_OF_MEMORY
              else case zms_read Z s idx raw_entry_size of (ret, raw) \<Rightarrow>
                if ret \<noteq> int raw_entry_size then Inl ASTARTE_RESULT_ZMS_ERROR
                else Inr (read_value_size, drop header_size (fill_buf raw_entry_size raw)))"

text \<open>Likewise for the key; its size counts the terminating zero byte, which the result has too.\<close>

definition entry_read_key ::
    "'s kv_env \<Rightarrow> 's \<Rightarrow> u32 \<Rightarrow> nat option \<Rightarrow> astarte_result_t + nat \<times> byte list" where
  "entry_read_key Z s idx buffer =
     (case entry_header_read Z s idx of
        Inl ares \<Rightarrow> Inl ares
      | Inr (header, raw_entry_size) \<Rightarrow>
          let key_len = unat (hf_key_len (eh_fixed header)) in
          case buffer of
            None \<Rightarrow> Inr (key_len + 1, [])
          | Some key_size \<Rightarrow>
              if key_size < key_len + 1 then Inl ASTARTE_RESULT_INVALID_PARAM
              else Inr (key_len + 1, take key_len (eh_key header) @ [0]))"

definition entry_check_namespace ::
    "'s kv_env \<Rightarrow> 's \<Rightarrow> u32 \<Rightarrow> byte list \<Rightarrow> astarte_result_t + bool" where
  "entry_check_namespace Z s idx ns =
     (case entry_header_read Z s idx of
        Inl ares \<Rightarrow> if ares = ASTARTE_RESULT_NOT_FOUND then Inr False else Inl ares
      | Inr (header, raw_entry_size) \<Rightarrow>
          let nsl = unat (hf_namespace_len (eh_fixed header)) in
          if nsl \<noteq> strlen ns then Inr False
          else Inr (strncmp_eq (eh_namespace header) ns nsl))"

definition entry_get_next_id :: "'s kv_env \<Rightarrow> 's \<Rightarrow> u32 \<Rightarrow> astarte_result_t + u32" where
  "entry_get_next_id Z s idx =
     (if idx = NULL_ID then map_sum id fst (read_head_and_tail_ids Z s)
      else map_sum id (\<lambda>(fixed, raw_entry_size). hf_next_id fixed) (entry_header_read_fixed Z s idx))"

definition entry_get_prev_id :: "'s kv_env \<Rightarrow> 's \<Rightarrow> u32 \<Rightarrow> astarte_result_t + u32" where
  "entry_get_prev_id Z s idx =
     (if idx = NULL_ID then Inr NULL_ID
      else map_sum id (\<lambda>(fixed, raw_entry_size). hf_prev_id fixed) (entry_header_read_fixed Z s idx))"

section \<open>entry\_delete.c\<close>

definition update_shifted_entry_neighbors ::
    "'s kv_env \<Rightarrow> entry_header \<Rightarrow> u32 \<Rightarrow> 's \<Rightarrow> astarte_result_t \<times> 's" where
  "update_shifted_entry_neighbors Z header hole_id s =
     and_then
       (if hf_prev_id (eh_fixed header) \<noteq> NULL_ID
        then update_next_id Z (hf_prev_id (eh_fixed header)) hole_id s
        else try_res (read_head_and_tail_ids Z s) s (\<lambda>(head_id, tail_id).
          write_head_and_tail_ids Z hole_id tail_id s))
       (\<lambda>s. if hf_next_id (eh_fixed header) \<noteq> NULL_ID
        then update_prev_id Z (hf_next_id (eh_fixed header)) hole_id s
        else try_res (read_head_and_tail_ids Z s) s (\<lambda>(head_id, tail_id).
          write_head_and_tail_ids Z head_id hole_id s))"

text \<open>The cyclic distance of an ID from its natural hash.\<close>

definition cyclic_distance :: "u32 \<Rightarrow> u32 \<Rightarrow> u32" where
  "cyclic_distance natural_hash i =
     (if i \<ge> natural_hash then i - natural_hash else slot_range - (natural_hash - i))"

text \<open>The second component is \<open>shift_performed\<close>.\<close>

definition shift_back_single_entry ::
    "'s kv_env \<Rightarrow> u32 \<Rightarrow> u32 \<Rightarrow> 's \<Rightarrow> (astarte_result_t \<times> bool) \<times> 's" where
  "shift_back_single_entry Z idx hole_id s =
     (if idx \<le> 1 then ((ASTARTE_RESULT_INTERNAL_ERROR, False), s)
      else case entry_header_read Z s idx of
        Inl ares \<Rightarrow> ((ares, False), s)
      | Inr (header, raw_entry_size) \<Rightarrow>
          if \<not> astarte_calloc (k_heap Z s) raw_entry_size 1
          then ((ASTARTE_RESULT_OUT_OF_MEMORY, False), s)
          else case zms_read Z s idx raw_entry_size of (ret, raw) \<Rightarrow>
            if ret \<noteq> int raw_entry_size then ((ASTARTE_RESULT_ZMS_ERROR, False), s)
            else
              let natural_hash = entry_hash_generate Z (eh_namespace header) (eh_key header);
                  d_curr = cyclic_distance natural_hash idx;
                  d_hole = cyclic_distance natural_hash hole_id in
              if d_hole < d_curr then
                (case and_then (rc_check ASTARTE_RESULT_ZMS_ERROR
                     (zms_write Z s hole_id (fill_buf raw_entry_size raw)))
                   (\<lambda>s. and_then (update_shifted_entry_neighbors Z header hole_id s)
                   (\<lambda>s. rc_check ASTARTE_RESULT_ZMS_ERROR (zms_delete Z s idx)))
                 of (ares, s) \<Rightarrow> ((ares, ares = ASTARTE_RESULT_OK), s))
              else ((ASTARTE_RESULT_OK, False), s))"

definition delete_and_unlink_single_entry ::
    "'s kv_env \<Rightarrow> u32 \<Rightarrow> 's \<Rightarrow> astarte_result_t \<times> 's" where
  "delete_and_unlink_single_entry Z idx s =
     try_res (entry_header_read_fixed Z s idx) s (\<lambda>(fixed, raw_entry_size).
       let next_id = hf_next_id fixed; prev_id = hf_prev_id fixed in
       and_then (entry_intent_write Z INTENT_DELETING idx prev_id next_id s) (\<lambda>s.
       try_res (read_head_and_tail_ids Z s) s (\<lambda>(head_id, tail_id).
       and_then (if prev_id \<noteq> NULL_ID then update_next_id Z prev_id next_id s
         else (ASTARTE_RESULT_OK, s)) (\<lambda>s.
       and_then (if next_id \<noteq> NULL_ID then update_prev_id Z next_id prev_id s
         else (ASTARTE_RESULT_OK, s)) (\<lambda>s.
       and_then (if prev_id = NULL_ID \<or> next_id = NULL_ID
         then write_head_and_tail_ids Z (if prev_id = NULL_ID then next_id else head_id)
           (if next_id = NULL_ID then prev_id else tail_id) s
         else (ASTARTE_RESULT_OK, s)) (\<lambda>s.
       rc_check ASTARTE_RESULT_ZMS_ERROR (zms_delete Z s idx)))))))"

partial_function (option) resume_shift_loop ::
    "'s kv_env \<Rightarrow> u32 \<Rightarrow> u32 \<Rightarrow> 's \<Rightarrow> (astarte_result_t \<times> 's) option" where
  "resume_shift_loop Z hole_id curr_id s =
     (if curr_id = hole_id then Some (ASTARTE_RESULT_OK, s)
      else case shift_back_single_entry Z curr_id hole_id s of ((ares, shift_performed), s) \<Rightarrow>
        if ares = ASTARTE_RESULT_NOT_FOUND then Some (ASTARTE_RESULT_OK, s)
        else if ares \<noteq> ASTARTE_RESULT_OK then Some (ares, s)
        else if shift_performed then
          (case entry_intent_write Z INTENT_SHIFTING curr_id NULL_ID NULL_ID s of (ares, s) \<Rightarrow>
             if ares \<noteq> ASTARTE_RESULT_OK then Some (ares, s)
             else resume_shift_loop Z curr_id (next_slot curr_id) s)
        else resume_shift_loop Z hole_id (next_slot curr_id) s)"

definition entry_delete_resume_shift ::
    "'s kv_env \<Rightarrow> u32 \<Rightarrow> 's \<Rightarrow> (astarte_result_t \<times> 's) option" where
  "entry_delete_resume_shift Z hole_id s = resume_shift_loop Z hole_id (next_slot hole_id) s"

text \<open>\<open>and_then\<close> for updates that may not return.\<close>

definition and_then_opt ::
    "astarte_result_t \<times> 's \<Rightarrow> ('s \<Rightarrow> (astarte_result_t \<times> 's) option)
      \<Rightarrow> (astarte_result_t \<times> 's) option" where
  "and_then_opt p f = (case p of (ares, s) \<Rightarrow>
     if ares = ASTARTE_RESULT_OK then f s else Some (ares, s))"

lemma and_then_opt_simps [simp, res_simps]:
  "and_then_opt (ASTARTE_RESULT_OK, s) f = f s"
  "ares \<noteq> ASTARTE_RESULT_OK \<Longrightarrow> and_then_opt (ares, s) f = Some (ares, s)"
  by (simp_all add: and_then_opt_def)

definition entry_delete :: "'s kv_env \<Rightarrow> u32 \<Rightarrow> 's \<Rightarrow> (astarte_result_t \<times> 's) option" where
  "entry_delete Z idx s =
     (case delete_and_unlink_single_entry Z idx s of (ares, s) \<Rightarrow>
        if ares = ASTARTE_RESULT_NOT_FOUND then Some (ASTARTE_RESULT_OK, s)
        else and_then_opt (ares, s) (\<lambda>s.
          and_then_opt (entry_intent_write Z INTENT_SHIFTING idx NULL_ID NULL_ID s) (\<lambda>s. do {
            p \<leftarrow> entry_delete_resume_shift Z idx s;
            and_then_opt p (\<lambda>s. Some (entry_intent_clear Z s))
          })))"

section \<open>entry\_intent.c, recovery\<close>

text \<open>A failed clean-up of the orphaned entry is logged only: the result is the code's \<open>ares\<close>.\<close>

definition resolve_insert_intent :: "'s kv_env \<Rightarrow> kv_intent \<Rightarrow> 's \<Rightarrow> astarte_result_t \<times> 's" where
  "resolve_insert_intent Z intent s =
     try_res (read_head_and_tail_ids Z s) s (\<lambda>(head_id, tail_id).
       if tail_id = in_target_id intent then (ASTARTE_RESULT_OK, s)
       else and_then (if in_affected_id_1 intent \<noteq> NULL_ID
           then update_next_id Z (in_affected_id_1 intent) NULL_ID s else (ASTARTE_RESULT_OK, s))
         (\<lambda>s. (ASTARTE_RESULT_OK, snd (zms_delete Z s (in_target_id intent)))))"

text \<open>Any result but \<open>NOT_FOUND\<close> of the header check, an error included, resumes the deletion.\<close>

definition resolve_delete_intent :: "'s kv_env \<Rightarrow> kv_intent \<Rightarrow> 's \<Rightarrow> astarte_result_t \<times> 's" where
  "resolve_delete_intent Z intent s =
     (let prev_id = in_affected_id_1 intent; next_id = in_affected_id_2 intent in
      and_then
        (if entry_header_read_fixed Z s (in_target_id intent) = Inl ASTARTE_RESULT_NOT_FOUND
         then (ASTARTE_RESULT_OK, s)
         else
           and_then (if prev_id \<noteq> NULL_ID then update_next_id Z prev_id next_id s
             else (ASTARTE_RESULT_OK, s)) (\<lambda>s.
           and_then (if next_id \<noteq> NULL_ID then update_prev_id Z next_id prev_id s
             else (ASTARTE_RESULT_OK, s)) (\<lambda>s.
           try_res (read_head_and_tail_ids Z s) s (\<lambda>(head_id, tail_id).
           and_then (if prev_id = NULL_ID \<or> next_id = NULL_ID
             then write_head_and_tail_ids Z (if prev_id = NULL_ID then next_id else head_id)
               (if next_id = NULL_ID then prev_id else tail_id) s
             else (ASTARTE_RESULT_OK, s)) (\<lambda>s.
           rc_check ASTARTE_RESULT_ZMS_ERROR (zms_delete Z s (in_target_id intent)))))))
        (\<lambda>s. entry_intent_write Z INTENT_SHIFTING (in_target_id intent) NULL_ID NULL_ID s))"

text \<open>The scan for the true hole wraps to ID 0, as the code does.\<close>

partial_function (option) find_hole ::
    "'s kv_env \<Rightarrow> 's \<Rightarrow> u32 \<Rightarrow> u32 \<Rightarrow> (astarte_result_t + u32) option" where
  "find_hole Z s target_id current_hole =
     (case entry_header_read_fixed Z s current_hole of
        Inl ares \<Rightarrow>
          if ares = ASTARTE_RESULT_NOT_FOUND then Some (Inr current_hole) else Some (Inl ares)
      | Inr hdr \<Rightarrow>
          let current_hole = (if current_hole + 1 > MAX_USABLE_ID then 0 else current_hole + 1) in
          if current_hole = target_id then Some (Inl ASTARTE_RESULT_KEY_VALUE_RECOVERY_FAILED)
          else find_hole Z s target_id current_hole)"

definition resolve_shift_intent ::
    "'s kv_env \<Rightarrow> kv_intent \<Rightarrow> 's \<Rightarrow> (astarte_result_t \<times> 's) option" where
  "resolve_shift_intent Z intent s = do {
     hole \<leftarrow> find_hole Z s (in_target_id intent) (in_target_id intent);
     case hole of
       Inl ares \<Rightarrow> Some (ares, s)
     | Inr current_hole \<Rightarrow> entry_delete_resume_shift Z current_hole s
   }"

definition recovery_result :: "astarte_result_t \<times> 's \<Rightarrow> astarte_result_t \<times> 's" where
  "recovery_result p = (case p of (ares, s) \<Rightarrow>
     (if ares = ASTARTE_RESULT_OK then ares else ASTARTE_RESULT_KEY_VALUE_RECOVERY_FAILED, s))"

text \<open>A deletion that was resumed goes on to the shift, whose intent it has just written.\<close>

definition entry_intent_resolve :: "'s kv_env \<Rightarrow> 's \<Rightarrow> (astarte_result_t \<times> 's) option" where
  "entry_intent_resolve Z s =
     (case zms_read Z s INTENT_ID 16 of (ret, raw) \<Rightarrow>
        let intent = parse_intent (fill_buf 16 raw); st = in_state intent in
        if ret = - ENOENT \<or> st = intent_state_code INTENT_NONE then Some (ASTARTE_RESULT_OK, s)
        else if ret \<noteq> 16 then Some (ASTARTE_RESULT_ZMS_ERROR, s)
        else
          and_then_opt (recovery_result
            (if st = intent_state_code INTENT_INSERTING then resolve_insert_intent Z intent s
             else if st = intent_state_code INTENT_UPDATING then (ASTARTE_RESULT_OK, s)
             else if st = intent_state_code INTENT_DELETING then resolve_delete_intent Z intent s
             else (ASTARTE_RESULT_OK, s)))
          (\<lambda>s. do {
            p \<leftarrow> (if st = intent_state_code INTENT_DELETING \<or> st = intent_state_code INTENT_SHIFTING
              then resolve_shift_intent Z intent s else Some (ASTARTE_RESULT_OK, s));
            and_then_opt (recovery_result p) (\<lambda>s. Some (entry_intent_clear Z s))
          }))"

section \<open>Code equations of the loops\<close>

declare find_or_alloc_loop.simps [code]
  resume_shift_loop.simps [code]
  find_hole.simps [code]

end
