(* ===== verification/KV_Ring.thy ===== *)
theory KV_Ring
  imports KV_Ops
begin

text \<open>
  The IDs of entries as a ring: \<open>next_slot\<close> steps around it, \<open>dist a b\<close> counts the steps from
  \<open>a\<close> to \<open>b\<close>.  The hash always lands in the ring, and \<open>cyclic_distance\<close> of the code is
  \<open>dist\<close> of the model.
\<close>

definition ring_size :: nat where "ring_size = 4294836220"

definition dist :: "u32 \<Rightarrow> u32 \<Rightarrow> nat" where
  "dist a b = (if unat a \<le> unat b then unat b - unat a else ring_size - (unat a - unat b))"

lemma usable_unat: "usable i \<longleftrightarrow> 131072 \<le> unat i \<and> unat i \<le> 4294967291"
  by (simp add: usable_def id_defs word_le_nat_alt)

lemma unat_inj_iff: "unat (a :: u32) = unat b \<longleftrightarrow> a = b"
  by (simp add: word_unat_eq_iff)

lemma unat_next_slot:
  assumes "usable i"
  shows "unat (next_slot i) = (if unat i = 4294967291 then 131072 else unat i + 1)"
proof -
  have "unat (i + 1) = unat i + 1"
    using assms by (simp add: usable_unat unat_word_ariths)
  then show ?thesis
    using assms by (simp add: next_slot_def id_defs word_less_nat_alt usable_unat)
qed

lemma usable_next_slot [simp]: "usable i \<Longrightarrow> usable (next_slot i)"
  by (simp add: usable_unat unat_next_slot)

lemma next_slot_neq: "usable i \<Longrightarrow> next_slot i \<noteq> i"
  by (auto simp: unat_next_slot simp flip: unat_inj_iff)

lemma dist_self [simp]: "dist a a = 0"
  by (simp add: dist_def)

lemma dist_less: "usable a \<Longrightarrow> usable b \<Longrightarrow> dist a b < ring_size"
  by (auto simp: dist_def usable_unat ring_size_def)

lemma dist_0 [simp]: "usable a \<Longrightarrow> usable b \<Longrightarrow> dist a b = 0 \<longleftrightarrow> a = b"
  by (auto simp: dist_def usable_unat ring_size_def simp flip: unat_inj_iff)

lemma dist_pos [simp]: "usable a \<Longrightarrow> usable b \<Longrightarrow> 0 < dist a b \<longleftrightarrow> a \<noteq> b"
  using dist_0 [of a b] by linarith

lemma dist_next:
  assumes "usable a" and "usable b"
  shows "dist a (next_slot b) = (if next_slot b = a then 0 else dist a b + 1)"
  using assms
  by (auto simp: dist_def unat_next_slot usable_unat ring_size_def simp flip: unat_inj_iff)

lemma dist_from_next:
  assumes "usable a" and "usable b" and "a \<noteq> b"
  shows "dist a b = dist (next_slot a) b + 1"
  using assms
  by (auto simp: dist_def unat_next_slot usable_unat ring_size_def simp flip: unat_inj_iff
      split: if_splits)

lemma dist_last:
  assumes "usable a" and "usable b"
  shows "next_slot b = a \<longleftrightarrow> dist a b = ring_size - 1"
  using assms
  by (auto simp: dist_def unat_next_slot usable_unat ring_size_def simp flip: unat_inj_iff
      split: if_splits)

text \<open>\<open>b\<close> lies on the way from \<open>a\<close> to \<open>c\<close>.\<close>

lemma dist_split:
  assumes "usable a" and "usable b" and "usable c" and "dist a b \<le> dist a c"
  shows "dist a c = dist a b + dist b c"
  using assms by (auto simp: dist_def usable_unat ring_size_def split: if_splits)

lemma dist_unsplit:
  assumes "usable a" and "usable b" and "usable c" and "dist a c < dist a b"
  shows "dist a b + dist b c = dist a c + ring_size"
  using assms by (auto simp: dist_def usable_unat ring_size_def split: if_splits)

lemma dist_inj:
  assumes "usable a" and "usable b" and "usable c" and "dist a b = dist a c"
  shows "b = c"
  using assms by (auto simp: dist_def usable_unat ring_size_def simp flip: unat_inj_iff split: if_splits)

text \<open>A step of the probing loop that does not come back to its start makes progress.\<close>

lemma dist_next_less:
  assumes "usable a" and "usable b" and "next_slot b \<noteq> a"
  shows "dist a (next_slot b) = Suc (dist a b)"
  using assms by (simp add: dist_next)

section \<open>The hash and the code's distance\<close>

lemma unat_slot_range [simp]: "unat slot_range = ring_size"
  by (simp add: slot_range_def id_defs ring_size_def)

lemma usable_lemire [simp]: "usable (lemire_reduce h)"
proof -
  let ?p = "(ucast h :: u64) * (ucast slot_range :: u64)"
  have sr: "slot_range = 4294836220"
    by (simp add: slot_range_def id_defs)
  have h: "unat h < 2 ^ 32"
    using unsigned_less [of h] by simp
  have "unat h * 4294836220 < 4294836220 * 2 ^ 32"
    using h by simp
  moreover have "unat (ucast h :: u64) = unat h" "unat (ucast slot_range :: u64) = 4294836220"
    using h by (simp_all add: unsigned_ucast_eq take_bit_nat_eq_self sr)
  ultimately have p: "unat ?p = unat h * 4294836220"
    by (simp add: unat_word_ariths)
  have "unat (drop_bit 32 ?p) = unat h * 4294836220 div 2 ^ 32"
    by (subst unat_drop_bit_eq, subst p, rule drop_bit_eq_div)
  also have "\<dots> < 4294836220"
    using h by (simp add: less_mult_imp_div_less)
  finally have d: "unat (drop_bit 32 ?p) < 4294836220" .
  have u: "unat (ucast (drop_bit 32 ?p) :: u32) = unat (drop_bit 32 ?p)"
    using d by (simp add: unsigned_ucast_eq take_bit_nat_eq_self)
  show ?thesis
    unfolding lemire_reduce_def usable_unat
    using d by (simp add: unat_word_ariths u id_defs)
qed

lemma usable_hash [simp]: "usable (entry_hash_generate Z ns key)"
  by (simp add: entry_hash_generate_def)

lemma unat_cyclic_distance:
  assumes "usable h" and "usable i"
  shows "unat (cyclic_distance h i) = dist h i"
proof (cases "h \<le> i")
  case True
  then have "unat (i - h) = unat i - unat h"
    by (simp add: unat_sub)
  with True show ?thesis
    by (simp add: cyclic_distance_def dist_def word_le_nat_alt)
next
  case False
  then have le: "i \<le> h" by simp
  then have d: "unat (h - i) = unat h - unat i"
    by (simp add: unat_sub)
  have "unat (h - i) \<le> unat slot_range"
    unfolding d unat_slot_range using assms by (auto simp: usable_unat ring_size_def)
  then have "h - i \<le> slot_range"
    by (simp add: word_le_nat_alt del: unat_slot_range)
  then have "unat (slot_range - (h - i)) = ring_size - (unat h - unat i)"
    by (simp add: unat_sub d)
  with False show ?thesis
    by (simp add: cyclic_distance_def dist_def word_le_nat_alt)
qed

lemma cyclic_distance_less:
  assumes "usable h" and "usable i" and "usable j"
  shows "cyclic_distance h i < cyclic_distance h j \<longleftrightarrow> dist h i < dist h j"
  using assms by (simp add: word_less_nat_alt unat_cyclic_distance)

end
