(* ===== verification/KV_Table.thy ===== *)
theory KV_Table
  imports KV_Ring "HOL-Library.AList"
begin

text \<open>
  The data structures of the store without the bytes: a table of entries under their IDs, the
  doubly linked list through them, and linear probing.

  \<open>linked\<close> says that the links of the table spell out a list of IDs; \<open>splice\<close> is the one
  lemma behind appending, unlinking and relocating an entry.  \<open>probed\<close> is the invariant of
  linear probing (no gap between an entry and its natural ID), \<open>hole_inv\<close> its form while a
  deletion shifts entries back, with one lemma per branch of the shift loop.
\<close>

type_synonym table = "u32 \<rightharpoonup> kv_entry"
type_synonym kv_key = "byte list \<times> byte list"

definition entry_kv :: "kv_entry \<Rightarrow> kv_key \<times> byte list" where
  "entry_kv e = ((e_ns e, e_key e), e_val e)"

definition keys_of :: "table \<Rightarrow> u32 \<rightharpoonup> kv_key" where
  "keys_of ent = (\<lambda>i. map_option (\<lambda>e. (e_ns e, e_key e)) (ent i))"

text \<open>The association list of a table along a list of IDs.\<close>

definition pairs_of :: "table \<Rightarrow> u32 list \<Rightarrow> (kv_key \<times> byte list) list" where
  "pairs_of ent ids = map (\<lambda>i. entry_kv (the (ent i))) ids"

section \<open>Links\<close>

definition set_next :: "table \<Rightarrow> u32 \<Rightarrow> u32 \<Rightarrow> table" where
  "set_next ent i n = ent(i := map_option (\<lambda>e. e\<lparr>e_next := n\<rparr>) (ent i))"

definition set_prev :: "table \<Rightarrow> u32 \<Rightarrow> u32 \<Rightarrow> table" where
  "set_prev ent i p = ent(i := map_option (\<lambda>e. e\<lparr>e_prev := p\<rparr>) (ent i))"

text \<open>Make \<open>x\<close> the successor of \<open>p\<close> and \<open>y\<close> the predecessor of \<open>n\<close>, where they exist.\<close>

definition relink :: "u32 \<Rightarrow> u32 \<Rightarrow> u32 \<Rightarrow> u32 \<Rightarrow> table \<Rightarrow> table" where
  "relink p n x y ent =
     (let ent = (if p \<noteq> NULL_ID then set_next ent p x else ent)
      in if n \<noteq> NULL_ID then set_prev ent n y else ent)"

lemma set_next_apply: "set_next ent i n j =
    (if j = i then map_option (\<lambda>e. e\<lparr>e_next := n\<rparr>) (ent i) else ent j)"
  by (simp add: set_next_def)

lemma set_prev_apply: "set_prev ent i n j =
    (if j = i then map_option (\<lambda>e. e\<lparr>e_prev := n\<rparr>) (ent i) else ent j)"
  by (simp add: set_prev_def)

lemma keys_of_links [simp]:
  "keys_of (set_next ent i n) = keys_of ent" "keys_of (set_prev ent i n) = keys_of ent"
  "keys_of (relink p q x y ent) = keys_of ent"
  by (auto simp: keys_of_def set_next_def set_prev_def relink_def Let_def fun_eq_iff
      option.map_comp comp_def)

lemma dom_keys_of [simp]: "dom (keys_of ent) = dom ent"
  by (auto simp: keys_of_def)

lemma dom_links [simp]:
  "dom (set_next ent i n) = dom ent" "dom (set_prev ent i n) = dom ent"
  "dom (relink p q x y ent) = dom ent"
  by (auto simp: dom_def set_next_apply set_prev_apply relink_def Let_def split: if_splits)

lemma entry_kv_links [simp]:
  "entry_kv (e\<lparr>e_next := n\<rparr>) = entry_kv e" "entry_kv (e\<lparr>e_prev := n\<rparr>) = entry_kv e"
  by (simp_all add: entry_kv_def)

lemma pairs_of_cong:
  "(\<And>i. i \<in> set ids \<Longrightarrow> map_option entry_kv (ent i) = map_option entry_kv (ent' i)) \<Longrightarrow>
   set ids \<subseteq> dom ent \<Longrightarrow> pairs_of ent ids = pairs_of ent' ids"
  unfolding pairs_of_def
  by (rule map_cong [OF refl])
    (metis (no_types, lifting) domIff option.map_sel option.map_disc_iff subsetD)

lemma relink_kv: "map_option entry_kv (relink p q x y ent i) = map_option entry_kv (ent i)"
  by (cases "ent i") (auto simp: relink_def Let_def set_next_apply set_prev_apply)

section \<open>Segments\<close>

definition first_id :: "u32 list \<Rightarrow> u32 \<Rightarrow> u32" where
  "first_id ids n = (case ids of [] \<Rightarrow> n | i # _ \<Rightarrow> i)"

definition last_id :: "u32 \<Rightarrow> u32 list \<Rightarrow> u32" where
  "last_id p ids = (if ids = [] then p else last ids)"

lemma first_id_simps [simp]: "first_id [] n = n" "first_id (i # is) n = i"
  by (simp_all add: first_id_def)

lemma last_id_simps [simp]: "last_id p [] = p" "last_id p (i # is) = last_id i is"
  by (simp_all add: last_id_def)

lemma first_id_append [simp]: "first_id (xs @ ys) n = first_id xs (first_id ys n)"
  by (cases xs) simp_all

lemma last_id_append [simp]: "last_id p (xs @ ys) = last_id (last_id p xs) ys"
  by (simp add: last_id_def)

lemma first_id_in: "ids \<noteq> [] \<Longrightarrow> first_id ids n \<in> set ids"
  by (cases ids) simp_all

lemma last_id_in: "ids \<noteq> [] \<Longrightarrow> last_id p ids \<in> set ids"
  by (simp add: last_id_def)

text \<open>\<open>ids\<close> are linked one after the other, between the neighbours \<open>p\<close> and \<open>n\<close>.\<close>

fun seg :: "table \<Rightarrow> u32 \<Rightarrow> u32 list \<Rightarrow> u32 \<Rightarrow> bool" where
  "seg ent p [] n = True"
| "seg ent p (i # is) n =
     (\<exists>e. ent i = Some e \<and> e_prev e = p \<and> e_next e = first_id is n \<and> seg ent i is n)"

lemma seg_append:
  "seg ent p (xs @ ys) n \<longleftrightarrow> seg ent p xs (first_id ys n) \<and> seg ent (last_id p xs) ys n"
  by (induction xs arbitrary: p) auto

lemma seg_cong: "(\<And>i. i \<in> set ids \<Longrightarrow> ent i = ent' i) \<Longrightarrow> seg ent p ids n = seg ent' p ids n"
  by (induction ids arbitrary: p) auto

lemma seg_dom: "seg ent p ids n \<Longrightarrow> set ids \<subseteq> dom ent"
  by (induction ids arbitrary: p) auto

lemma seg_set_next:
  assumes "seg ent p xs n" and "distinct xs"
    and "\<And>i. i \<in> set xs \<Longrightarrow> ent' i = set_next ent (last_id p xs) m i"
  shows "seg ent' p xs m"
  using assms
proof (induction xs arbitrary: p)
  case Nil
  show ?case by simp
next
  case (Cons i "is")
  then obtain e where e: "ent i = Some e" "e_prev e = p" "e_next e = first_id is n"
    and s: "seg ent i is n" by auto
  have rest: "seg ent' i is m"
    using Cons.IH [OF s] Cons.prems(2,3) by simp
  show ?case
  proof (cases "is")
    case Nil
    then show ?thesis
      using e Cons.prems(3) [of i] by (simp add: set_next_apply)
  next
    case (Cons j js)
    then have "last_id i is \<in> set is"
      by (intro last_id_in) simp
    then have "last_id i is \<noteq> i"
      using Cons.prems(2) by auto
    then show ?thesis
      using e rest Cons Cons.prems(3) [of i] by (simp add: set_next_apply)
  qed
qed

lemma seg_set_prev:
  assumes "seg ent p ys n" and "distinct ys"
    and "\<And>i. i \<in> set ys \<Longrightarrow> ent' i = set_prev ent (first_id ys n) q i"
  shows "seg ent' q ys n"
proof (cases ys)
  case Nil
  then show ?thesis by simp
next
  case (Cons i "is")
  have "\<And>j. j \<in> set is \<Longrightarrow> ent' j = ent j"
    using assms(2,3) Cons by (auto simp: set_prev_apply)
  moreover have "seg ent i is n"
    using assms(1) Cons by auto
  ultimately have "seg ent' i is n"
    by (metis seg_cong)
  then show ?thesis
    using assms(1) Cons assms(3) [of i] by (auto simp: set_prev_apply)
qed

text \<open>
  Replace the middle of a linked list: the neighbours are relinked to the new middle, everything
  else outside it stays.
\<close>

lemma splice:
  assumes sg: "seg ent NULL_ID (xs @ zs @ ys) NULL_ID" and dst: "distinct (xs @ ys)"
    and nn: "NULL_ID \<notin> set xs" "NULL_ID \<notin> set ys"
    and p: "p = last_id NULL_ID xs" and n: "n = first_id ys NULL_ID"
    and rest: "\<And>i. i \<in> set xs \<union> set ys \<Longrightarrow>
      ent' i = relink p n (first_id zs' n) (last_id p zs') ent i"
    and mid: "seg ent' p zs' n"
  shows "seg ent' NULL_ID (xs @ zs' @ ys) NULL_ID"
proof -
  let ?x = "first_id zs' n" and ?y = "last_id p zs'"
  have sx: "seg ent NULL_ID xs (first_id (zs @ ys) NULL_ID)"
    and sy: "seg ent (last_id p zs) ys NULL_ID"
    using sg by (simp_all add: seg_append p)
  have "seg ent' NULL_ID xs ?x"
  proof (rule seg_set_next [OF sx])
    show "distinct xs" using dst by simp
    fix i assume i: "i \<in> set xs"
    have "p \<noteq> NULL_ID"
      using i nn(1) p last_id_in [of xs NULL_ID] by (cases xs) auto
    moreover have "i \<noteq> n \<or> n = NULL_ID"
      using i dst n first_id_in [of ys NULL_ID] by (cases "ys = []") auto
    ultimately show "ent' i = set_next ent (last_id NULL_ID xs) ?x i"
      using rest i by (auto simp: relink_def Let_def p set_prev_apply)
  qed
  moreover have "seg ent' ?y ys NULL_ID"
  proof (rule seg_set_prev [OF sy])
    show "distinct ys" using dst by simp
    fix i assume i: "i \<in> set ys"
    have "n \<noteq> NULL_ID"
      using i nn(2) n first_id_in [of ys NULL_ID] by (cases ys) auto
    moreover have "i \<noteq> p \<or> p = NULL_ID"
      using i dst p last_id_in [of xs NULL_ID] by (cases "xs = []") auto
    ultimately show "ent' i = set_prev ent (first_id ys NULL_ID) ?y i"
      using rest i by (auto simp: relink_def Let_def n set_prev_apply set_next_apply)
  qed
  ultimately show ?thesis
    using mid by (simp add: seg_append p n)
qed

section \<open>The linked table\<close>

definition linked :: "table \<Rightarrow> u32 \<Rightarrow> u32 \<Rightarrow> u32 list \<Rightarrow> bool" where
  "linked ent hd_id tl_id ids \<longleftrightarrow> distinct ids \<and> set ids = dom ent \<and> dom ent \<subseteq> Collect usable
     \<and> seg ent NULL_ID ids NULL_ID \<and> hd_id = first_id ids NULL_ID \<and> tl_id = last_id NULL_ID ids"

lemma linked_empty [simp]: "linked Map.empty NULL_ID NULL_ID []"
  by (simp add: linked_def)

lemma linkedD:
  assumes "linked ent h t ids"
  shows "distinct ids" "set ids = dom ent" "NULL_ID \<notin> set ids" "seg ent NULL_ID ids NULL_ID"
  using assms by (auto simp: linked_def)

lemma linked_usable: "linked ent h t ids \<Longrightarrow> ent i = Some e \<Longrightarrow> usable i"
  by (auto simp: linked_def)

lemma linked_Nil_iff:
  assumes "linked ent h t ids"
  shows "t = NULL_ID \<longleftrightarrow> ids = []" "h = NULL_ID \<longleftrightarrow> ids = []"
  using assms last_id_in [of ids NULL_ID] first_id_in [of ids NULL_ID] linkedD(3) [OF assms]
  by (auto simp: linked_def)

text \<open>The place of an entry in the list.\<close>

lemma linked_split:
  assumes "linked ent h t ids" and "ent i = Some e"
  obtains xs ys where "ids = xs @ i # ys" "e_prev e = last_id NULL_ID xs"
    "e_next e = first_id ys NULL_ID"
proof -
  have "i \<in> set ids" using assms by (auto simp: linked_def)
  then obtain xs ys where ids: "ids = xs @ i # ys" by (auto simp: in_set_conv_decomp)
  have "seg ent NULL_ID (xs @ i # ys) NULL_ID"
    using assms(1) ids by (simp add: linked_def)
  then have "seg ent (last_id NULL_ID xs) (i # ys) NULL_ID"
    by (simp only: seg_append)
  then have "e_prev e = last_id NULL_ID xs" "e_next e = first_id ys NULL_ID"
    using assms(2) by auto
  with ids show thesis by (rule that)
qed

lemma linked_neighbours:
  assumes "linked ent h t ids" and "ent i = Some e"
  shows "e_prev e \<noteq> NULL_ID \<Longrightarrow> e_prev e \<in> dom ent - {i}"
    and "e_next e \<noteq> NULL_ID \<Longrightarrow> e_next e \<in> dom ent - {i}"
    and "e_prev e = NULL_ID \<longleftrightarrow> h = i" and "e_next e = NULL_ID \<longleftrightarrow> t = i"
    and "e_prev e \<noteq> NULL_ID \<Longrightarrow> e_prev e \<noteq> e_next e"
proof -
  from assms obtain xs ys where ids: "ids = xs @ i # ys"
    and p: "e_prev e = last_id NULL_ID xs" and n: "e_next e = first_id ys NULL_ID"
    by (rule linked_split)
  note l = linkedD [OF assms(1)]
  have ht: "h = first_id ids NULL_ID" "t = last_id NULL_ID ids"
    using assms(1) by (simp_all add: linked_def)
  have px: "xs \<noteq> [] \<Longrightarrow> e_prev e \<in> set xs" and nx: "ys \<noteq> [] \<Longrightarrow> e_next e \<in> set ys"
    using p n last_id_in [of xs NULL_ID] first_id_in [of ys NULL_ID] by simp_all
  show "e_prev e \<noteq> NULL_ID \<Longrightarrow> e_prev e \<in> dom ent - {i}"
    using l ids px p by (cases "xs = []") auto
  show "e_next e \<noteq> NULL_ID \<Longrightarrow> e_next e \<in> dom ent - {i}"
    using l ids nx n by (cases "ys = []") auto
  show "e_prev e = NULL_ID \<longleftrightarrow> h = i"
    using l ids px p ht by (cases xs) auto
  show "e_next e = NULL_ID \<longleftrightarrow> t = i"
    using l ids nx n ht last_id_in [of ys i] by (cases "ys = []") auto
  show "e_prev e \<noteq> NULL_ID \<Longrightarrow> e_prev e \<noteq> e_next e"
    using l(1) ids px nx p n by (cases "xs = []"; cases "ys = []") auto
qed

text \<open>Head and tail after the middle of the list was replaced by at most one ID.\<close>

lemma linked_ends:
  assumes "NULL_ID \<notin> set xs" and "NULL_ID \<notin> set ys"
    and "p = last_id NULL_ID xs" and "n = first_id ys NULL_ID"
  shows "(if p = NULL_ID then first_id zs n else first_id (xs @ i # ys) NULL_ID)
      = first_id (xs @ zs @ ys) NULL_ID"
    and "(if n = NULL_ID then last_id p zs else last_id NULL_ID (xs @ i # ys))
      = last_id NULL_ID (xs @ zs @ ys)"
proof -
  have x: "p = NULL_ID \<longleftrightarrow> xs = []" and y: "n = NULL_ID \<longleftrightarrow> ys = []"
    using assms last_id_in [of xs NULL_ID] first_id_in [of ys NULL_ID] by force+
  show "(if p = NULL_ID then first_id zs n else first_id (xs @ i # ys) NULL_ID)
      = first_id (xs @ zs @ ys) NULL_ID"
    unfolding x assms(4) by (cases xs) simp_all
  show "(if n = NULL_ID then last_id p zs else last_id NULL_ID (xs @ i # ys))
      = last_id NULL_ID (xs @ zs @ ys)"
    unfolding y assms(3) by (cases ys rule: rev_cases) (simp_all add: last_id_def)
qed

subsection \<open>Append, unlink, relocate\<close>

lemma linked_append:
  assumes l: "linked ent h t ids" and i: "usable i" "ent i = None"
    and e: "e_prev e = t" "e_next e = NULL_ID"
  shows "linked (relink t NULL_ID i NULL_ID (ent(i \<mapsto> e))) (if t = NULL_ID then i else h) i (ids @ [i])"
proof -
  let ?ent = "relink t NULL_ID i NULL_ID (ent(i \<mapsto> e))"
  note d = linkedD [OF l]
  have ni: "i \<notin> set ids" using d(2) i(2) by (auto simp: domIff)
  have t: "t = last_id NULL_ID ids" using l by (simp add: linked_def)
  have ti: "t \<noteq> i"
    using t ni i(1) last_id_in [of ids NULL_ID] by (cases "ids = []") auto
  have "seg ?ent NULL_ID (ids @ [i] @ []) NULL_ID"
  proof (rule splice [where ent = ent and zs = "[]" and p = t and n = NULL_ID])
    show "seg ent NULL_ID (ids @ [] @ []) NULL_ID" using d(4) by simp
    show "seg ?ent t [i] NULL_ID"
      using ti e by (simp add: relink_def set_next_apply)
    fix j assume "j \<in> set ids \<union> set []"
    then show "?ent j = relink t NULL_ID (first_id [i] NULL_ID) (last_id t [i]) ent j"
      using ni by (auto simp: relink_def set_next_apply)
  qed (use d t in simp_all)
  moreover have "h = NULL_ID \<longleftrightarrow> t = NULL_ID" "h = first_id ids NULL_ID"
    using linked_Nil_iff [OF l] l by (auto simp: linked_def)
  moreover have "dom ?ent = insert i (dom ent)" by simp
  ultimately show ?thesis
    using d ni i l by (cases ids) (auto simp: linked_def)
qed

lemma linked_unlink:
  assumes l: "linked ent h t ids" and e: "ent i = Some e"
  shows "\<exists>xs ys. ids = xs @ i # ys \<and>
    linked ((relink (e_prev e) (e_next e) (e_next e) (e_prev e) ent)(i := None))
      (if e_prev e = NULL_ID then e_next e else h) (if e_next e = NULL_ID then e_prev e else t)
      (xs @ ys)"
proof -
  from l e obtain xs ys where ids: "ids = xs @ i # ys"
    and p: "e_prev e = last_id NULL_ID xs" and n: "e_next e = first_id ys NULL_ID"
    by (rule linked_split)
  let ?r = "relink (e_prev e) (e_next e) (e_next e) (e_prev e) ent"
  note d = linkedD [OF l]
  have nn: "NULL_ID \<notin> set xs" "NULL_ID \<notin> set ys" using d(3) ids by auto
  have "seg (?r(i := None)) NULL_ID (xs @ [] @ ys) NULL_ID"
  proof (rule splice [where ent = ent and zs = "[i]", OF _ _ _ _ p n])
    show "seg ent NULL_ID (xs @ [i] @ ys) NULL_ID" using d(4) ids by simp
    fix j assume "j \<in> set xs \<union> set ys"
    then have "j \<noteq> i" using d(1) ids by auto
    then show "(?r(i := None)) j =
        relink (e_prev e) (e_next e) (first_id [] (e_next e)) (last_id (e_prev e) []) ent j"
      by simp
  qed (use d ids in auto)
  moreover have "dom (?r(i := None)) = set xs \<union> set ys"
    using d(1,2) ids by (auto simp del: fun_upd_apply)
  moreover have "h = first_id ids NULL_ID" "t = last_id NULL_ID ids"
    using l by (simp_all add: linked_def)
  ultimately have "linked (?r(i := None)) (if e_prev e = NULL_ID then e_next e else h)
      (if e_next e = NULL_ID then e_prev e else t) (xs @ ys)"
    unfolding linked_def
    using d ids l linked_ends [OF nn p n, of "[]" i] by (auto simp: linked_def)
  with ids show ?thesis by blast
qed

lemma linked_relocate:
  assumes l: "linked ent h t ids" and e: "ent i = Some e" and o: "usable j" "ent j = None"
  shows "\<exists>xs ys. ids = xs @ i # ys \<and>
    linked ((relink (e_prev e) (e_next e) j j (ent(j \<mapsto> e)))(i := None))
      (if e_prev e = NULL_ID then j else h) (if e_next e = NULL_ID then j else t) (xs @ j # ys)"
proof -
  from l e obtain xs ys where ids: "ids = xs @ i # ys"
    and p: "e_prev e = last_id NULL_ID xs" and n: "e_next e = first_id ys NULL_ID"
    by (rule linked_split)
  let ?r = "relink (e_prev e) (e_next e) j j (ent(j \<mapsto> e))"
  note d = linkedD [OF l]
  have nn: "NULL_ID \<notin> set xs" "NULL_ID \<notin> set ys" using d(3) ids by auto
  have ij: "i \<noteq> j" and nj: "j \<notin> set ids" using e o(2) d(2) by auto
  have pj: "e_prev e \<noteq> j" and qj: "e_next e \<noteq> j"
    using nj ids p n o(1) last_id_in [of xs NULL_ID] first_id_in [of ys NULL_ID]
    by (cases "xs = []"; cases "ys = []"; auto)+
  have "seg (?r(i := None)) NULL_ID (xs @ [j] @ ys) NULL_ID"
  proof (rule splice [where ent = ent and zs = "[i]", OF _ _ _ _ p n])
    show "seg ent NULL_ID (xs @ [i] @ ys) NULL_ID" using d(4) ids by simp
    show "seg (?r(i := None)) (e_prev e) [j] (e_next e)"
      using ij pj qj by (simp add: relink_def Let_def set_next_apply set_prev_apply)
    fix k assume "k \<in> set xs \<union> set ys"
    then have "k \<noteq> i" "k \<noteq> j" using d(1) ids nj by auto
    then show "(?r(i := None)) k =
        relink (e_prev e) (e_next e) (first_id [j] (e_next e)) (last_id (e_prev e) [j]) ent k"
      by (auto simp: relink_def Let_def set_next_apply set_prev_apply)
  qed (use d ids in auto)
  moreover have "dom (?r(i := None)) = insert j (set xs \<union> set ys)"
    using d(1,2) ids ij by (auto simp del: fun_upd_apply)
  moreover have "h = first_id ids NULL_ID" "t = last_id NULL_ID ids"
    using l by (simp_all add: linked_def)
  ultimately have "linked (?r(i := None)) (if e_prev e = NULL_ID then j else h)
      (if e_next e = NULL_ID then j else t) (xs @ j # ys)"
    unfolding linked_def
    using d ids l o(1) nj linked_ends [OF nn p n, of "[j]" i] by (auto simp: linked_def)
  with ids show ?thesis by blast
qed

lemma linked_update:
  assumes "linked ent h t ids" and "ent i = Some e" and "e_prev e' = e_prev e" "e_next e' = e_next e"
  shows "linked (ent(i \<mapsto> e')) h t ids"
proof -
  have "seg (ent(i \<mapsto> e')) p js n" if "seg ent p js n" for p js n
    using that assms(2-) by (induction js arbitrary: p) auto
  then show ?thesis
    using assms by (auto simp: linked_def)
qed

end
