(* ===== verification/KV_Probe.thy ===== *)
theory KV_Probe
  imports KV_Table
begin

text \<open>
  Linear probing on the ring, over the keys alone: \<open>K\<close> gives the key stored under an ID and
  \<open>h\<close> the natural ID of a key.  The interface \<open>ring_hash\<close> asks of the hash only that it lands
  in the ring; the hash of the code is an instance whatever \<open>sys_hash32\<close> is.
\<close>

definition probed :: "('k \<Rightarrow> u32) \<Rightarrow> (u32 \<rightharpoonup> 'k) \<Rightarrow> bool" where
  "probed h K \<longleftrightarrow> (\<forall>i k j. K i = Some k \<longrightarrow> usable j \<longrightarrow> dist (h k) j < dist (h k) i \<longrightarrow> K j \<noteq> None)"

definition unique_keys :: "(u32 \<rightharpoonup> 'k) \<Rightarrow> bool" where
  "unique_keys K \<longleftrightarrow> (\<forall>i j k. K i = Some k \<longrightarrow> K j = Some k \<longrightarrow> i = j)"

text \<open>
  \<open>hole\<close> is the gap a deletion left.  Paths are full but for the hole, and the \<open>n - 1\<close> IDs after
  the hole are occupied by entries whose path does not lead over it.
\<close>

definition hole_inv :: "('k \<Rightarrow> u32) \<Rightarrow> (u32 \<rightharpoonup> 'k) \<Rightarrow> u32 \<Rightarrow> nat \<Rightarrow> bool" where
  "hole_inv h K hole n \<longleftrightarrow> K hole = None \<and> usable hole
     \<and> (\<forall>i k j. K i = Some k \<longrightarrow> usable j \<longrightarrow> dist (h k) j < dist (h k) i \<longrightarrow> K j \<noteq> None \<or> j = hole)
     \<and> (\<forall>i k. K i = Some k \<longrightarrow> 0 < dist hole i \<longrightarrow> dist hole i < n \<longrightarrow> dist (h k) i \<le> dist (h k) hole)"

lemma probedD:
  "probed h K \<Longrightarrow> K i = Some k \<Longrightarrow> usable j \<Longrightarrow> dist (h k) j < dist (h k) i \<Longrightarrow> K j \<noteq> None"
  unfolding probed_def by blast

lemma hole_invD:
  assumes "hole_inv h K hole n"
  shows "K hole = None" "usable hole"
    and "K i = Some k \<Longrightarrow> usable j \<Longrightarrow> dist (h k) j < dist (h k) i \<Longrightarrow> j \<noteq> hole \<Longrightarrow> K j \<noteq> None"
    and "K i = Some k \<Longrightarrow> 0 < dist hole i \<Longrightarrow> dist hole i < n \<Longrightarrow> dist (h k) i \<le> dist (h k) hole"
  using assms unfolding hole_inv_def by blast+

lemma hole_invI:
  assumes "K hole = None" "usable hole"
    and "\<And>i k j. K i = Some k \<Longrightarrow> usable j \<Longrightarrow> dist (h k) j < dist (h k) i \<Longrightarrow> j \<noteq> hole \<Longrightarrow> K j \<noteq> None"
    and "\<And>i k. K i = Some k \<Longrightarrow> 0 < dist hole i \<Longrightarrow> dist hole i < n \<Longrightarrow> dist (h k) i \<le> dist (h k) hole"
  shows "hole_inv h K hole n"
  using assms unfolding hole_inv_def by blast

lemma unique_keysD: "unique_keys K \<Longrightarrow> K i = Some k \<Longrightarrow> K j = Some k \<Longrightarrow> i = j"
  by (auto simp: unique_keys_def)

lemma unique_keys_insert:
  "unique_keys K \<Longrightarrow> k \<notin> ran K \<Longrightarrow> unique_keys (K(i \<mapsto> k))"
  by (auto simp: unique_keys_def ran_def)

lemma unique_keys_remove: "unique_keys K \<Longrightarrow> unique_keys (K(i := None))"
  by (auto simp: unique_keys_def)

lemma unique_keys_move:
  "unique_keys K \<Longrightarrow> K c = Some k \<Longrightarrow> K j = None \<Longrightarrow> unique_keys (K(j \<mapsto> k, c := None))"
  by (auto simp: unique_keys_def split: if_splits)

locale ring_hash =
  fixes h :: "'k \<Rightarrow> u32"
  assumes usable_home [simp]: "usable (h k)"
begin

text \<open>What a search may conclude when it meets an empty slot, or none at all.\<close>

lemma probed_absent:
  assumes "probed h K" and "dom K \<subseteq> Collect usable"
    and "usable c" and "K c = None"
    and "\<And>j. usable j \<Longrightarrow> dist (h k) j < dist (h k) c \<Longrightarrow> K j \<noteq> Some k"
  shows "k \<notin> ran K"
proof
  assume "k \<in> ran K"
  then obtain i where i: "K i = Some k" by (auto simp: ran_def)
  then have ui: "usable i" using assms(2) by auto
  have "\<not> dist (h k) i < dist (h k) c" using assms(5) ui i by blast
  moreover have "\<not> dist (h k) c < dist (h k) i"
    using probedD [OF assms(1) i assms(3)] assms(4) by blast
  ultimately have "i = c"
    using ui assms(3) by (intro dist_inj [of "h k"]) auto
  with i assms(4) show False by simp
qed

lemma probed_insert:
  assumes "probed h K" and "usable c"
    and "\<And>j. usable j \<Longrightarrow> dist (h k) j < dist (h k) c \<Longrightarrow> K j \<noteq> None"
  shows "probed h (K(c \<mapsto> k))"
  using assms by (auto simp: probed_def)

lemma hole_start:
  assumes "probed h K" and "usable hole"
  shows "hole_inv h (K(hole := None)) hole 1"
  using assms by (auto simp: probed_def hole_inv_def)

lemma hole_settled:
  assumes "hole_inv h K hole n" and "usable c" and "dist hole c = n" and "K c = Some k"
    and "dom K \<subseteq> Collect usable" and "\<not> dist (h k) hole < dist (h k) c"
  shows "hole_inv h K hole (Suc n)"
proof (rule hole_invI)
  note inv = hole_invD [OF assms(1)]
  fix i k'
  assume i: "K i = Some k'" and d: "0 < dist hole i" "dist hole i < Suc n"
  show "dist (h k') i \<le> dist (h k') hole"
  proof (cases "dist hole i = n")
    case True
    have "i = c"
      using assms(2,3,5) i inv(2) True by (intro dist_inj [of hole]) auto
    with i assms(4,6) show ?thesis by simp
  next
    case False
    then show ?thesis using inv(4) [OF i d(1)] d(2) by simp
  qed
qed (use hole_invD [OF assms(1)] in blast)+

lemma hole_move:
  assumes "hole_inv h K hole n" and "usable c" and "K c = Some k"
    and "dist (h k) hole < dist (h k) c"
  shows "hole_inv h (K(hole \<mapsto> k, c := None)) c 1"
proof (rule hole_invI)
  note inv = hole_invD [OF assms(1)]
  fix i k' j
  assume i: "(K(hole \<mapsto> k, c := None)) i = Some k'"
    and j: "usable j" "dist (h k') j < dist (h k') i" "j \<noteq> c"
  show "(K(hole \<mapsto> k, c := None)) j \<noteq> None"
  proof (cases "j = hole")
    case True
    then show ?thesis using j(3) by simp
  next
    case False
    obtain i' where "K i' = Some k'" "dist (h k') j < dist (h k') i'"
      using i j(2) assms(3,4) by (auto split: if_splits)
    then show ?thesis using inv(3) j(1,3) False by auto
  qed
qed (use assms in auto)

lemma hole_done_empty:
  assumes inv: "hole_inv h K hole n" and c: "usable c" "dist hole c = n" "K c = None" "c \<noteq> hole"
    and dm: "dom K \<subseteq> Collect usable"
  shows "probed h K"
  unfolding probed_def
proof (intro allI impI)
  fix i k j assume i: "K i = Some k" and j: "usable j" and d: "dist (h k) j < dist (h k) i"
  have u: "usable hole" "usable i" using inv i dm by (auto simp: hole_inv_def)
  have "K j \<noteq> None \<or> j = hole" using hole_invD(3) [OF inv i j d] by blast
  moreover have False if "j = hole"
  proof -
    have "i \<noteq> hole" using inv i by (auto simp: hole_inv_def)
    then have "0 < dist hole i" using u by simp
    then have "n \<le> dist hole i"
      using hole_invD(4) [OF inv i] d that by force
    moreover have "i \<noteq> c" using i c(3) by auto
    ultimately have lt: "dist hole c < dist hole i"
      using c u dist_inj [of hole c i] by (cases "dist hole i = n") auto
    have hi: "dist (h k) i = dist (h k) hole + dist hole i"
      using d that u by (intro dist_split) auto
    moreover have "dist (h k) i < ring_size"
      using u by (intro dist_less) auto
    ultimately have "\<not> dist (h k) c < dist (h k) hole"
      using lt dist_unsplit [of "h k" hole c] u c(1) by auto
    then have "dist (h k) c = dist (h k) hole + dist hole c"
      using u c(1) by (intro dist_split) auto
    then have "dist (h k) c < dist (h k) i" using hi lt by simp
    then have "K c \<noteq> None \<or> c = hole" using hole_invD(3) [OF inv i c(1)] by blast
    with c show False by simp
  qed
  ultimately show "K j \<noteq> None" by blast
qed

lemma hole_done_full:
  assumes inv: "hole_inv h K hole ring_size" and dm: "dom K \<subseteq> Collect usable"
  shows "probed h K"
  unfolding probed_def
proof (intro allI impI)
  fix i k j assume i: "K i = Some k" and j: "usable j" and d: "dist (h k) j < dist (h k) i"
  have u: "usable hole" "usable i" using inv i dm by (auto simp: hole_inv_def)
  have "K j \<noteq> None \<or> j = hole" using hole_invD(3) [OF inv i j d] by blast
  moreover have "i \<noteq> hole" using inv i by (auto simp: hole_inv_def)
  then have "0 < dist hole i" "dist hole i < ring_size" using u by (simp_all add: dist_less)
  then have "dist (h k) i \<le> dist (h k) hole"
    by (rule hole_invD(4) [OF inv i])
  ultimately show "K j \<noteq> None" using d by force
qed

end

definition home_of :: "'s kv_env \<Rightarrow> kv_key \<Rightarrow> u32" where
  "home_of Z = (\<lambda>(ns, key). entry_hash_generate Z ns key)"

interpretation code_hash: ring_hash "home_of Z" for Z :: "'s kv_env"
  by unfold_locales (simp add: home_of_def split: prod.splits)

section \<open>Progress of the shift\<close>

text \<open>
  How far the entries are from their natural IDs in total.  Every entry the shift moves gets
  closer, so the shift ends.
\<close>

definition displacement :: "('k \<Rightarrow> u32) \<Rightarrow> (u32 \<rightharpoonup> 'k) \<Rightarrow> nat" where
  "displacement h K = (\<Sum>i | K i \<noteq> None. dist (h (the (K i))) i)"

lemma displacement_move:
  assumes "K c = Some k" and "K j = None" and "dist (h k) j < dist (h k) c"
  shows "displacement h (K(j \<mapsto> k, c := None)) < displacement h K"
proof -
  let ?K = "K(j \<mapsto> k, c := None)" and ?S = "{i. K i \<noteq> None \<and> i \<noteq> c}"
  have cj: "c \<noteq> j" using assms by auto
  have "{i. K i \<noteq> None} = insert c ?S" "{i. ?K i \<noteq> None} = insert j ?S"
    using assms cj by auto
  moreover have "c \<notin> ?S" "j \<notin> ?S" using assms by auto
  moreover have "(\<Sum>i\<in>?S. dist (h (the (?K i))) i) = (\<Sum>i\<in>?S. dist (h (the (K i))) i)"
    using assms cj by (intro sum.cong) auto
  ultimately show ?thesis
    using assms cj by (simp add: displacement_def)
qed

end
