(* ===== verification/KV_Core.thy ===== *)
theory KV_Core
  imports KV_Ops
begin

text \<open>
  The public interface of the key-value store: namespaces with a quota, insertion, look-up,
  deletion and iteration (core.c), the direct storage under 16-bit keys (direct.c) and the
  mutex that serialises them (mutex.c).

  A handle (\<open>astarte_key_value_t\<close>) is the record \<open>kv_storage\<close>; its two counters are
  \<open>size_t\<close> of a 32-bit target, so their arithmetic wraps.  The file system of the handle is the
  state of the environment.
\<close>

section \<open>mutex.c\<close>

definition mutex_lock :: "'s kv_env \<Rightarrow> 's \<Rightarrow> astarte_result_t" where
  "mutex_lock Z s =
     (if sys_mutex_lock Z s \<noteq> 0 then ASTARTE_RESULT_MUTEX_LOCK_ERROR else ASTARTE_RESULT_OK)"

section \<open>core.c\<close>

record kv_storage =
  kv_namespace :: "byte list"
  kv_max_quota_bytes :: u32
  kv_current_usage_bytes :: u32

subsection \<open>Opening\<close>

record kv_version =
  ver_major :: u16
  ver_minor :: u16
  ver_patch :: u16

definition kv_current_version :: kv_version where
  "kv_current_version = \<lparr>ver_major = 0, ver_minor = 6, ver_patch = 0\<rparr>"

definition version_bytes :: "kv_version \<Rightarrow> byte list" where
  "version_bytes v = le16 (ver_major v) @ le16 (ver_minor v) @ le16 (ver_patch v)"

definition parse_version :: "byte list \<Rightarrow> kv_version" where
  "parse_version raw = \<lparr>ver_major = get_le16 raw, ver_minor = get_le16 (drop 2 raw),
     ver_patch = get_le16 (drop 4 raw)\<rparr>"

text \<open>
  The flash device, its page information and the mount are answers of the platform: whether the
  device is ready, the result of the page query, and the result of \<open>zms_mount\<close> with the state
  it leaves.
\<close>

definition key_value_open ::
    "'s kv_env \<Rightarrow> bool \<Rightarrow> int \<Rightarrow> int \<times> 's \<Rightarrow> 's \<Rightarrow> (astarte_result_t \<times> 's) option" where
  "key_value_open Z device_ready flash_rc mount s =
     (if \<not> device_ready then Some (ASTARTE_RESULT_DEVICE_NOT_READY, s)
      else if flash_rc \<noteq> 0 then Some (ASTARTE_RESULT_INVALID_CONFIGURATION, s)
      else case mount of (zms_rc, s) \<Rightarrow>
        if zms_rc \<noteq> 0 then Some (ASTARTE_RESULT_ZMS_ERROR, s)
        else case zms_read Z s VERSION_ID 6 of (ver_rc, raw) \<Rightarrow>
          and_then_opt
            (if ver_rc = - ENOENT then
               rc_check ASTARTE_RESULT_ZMS_ERROR
                 (zms_write Z s VERSION_ID (version_bytes kv_current_version))
             else if ver_rc \<noteq> 6 then (ASTARTE_RESULT_ZMS_ERROR, s)
             else if parse_version (fill_buf 6 raw) \<noteq> kv_current_version
               then (ASTARTE_RESULT_KEY_VALUE_INCOMPATIBLE_VERSION, s)
             else (ASTARTE_RESULT_OK, s))
            (\<lambda>s. entry_intent_resolve Z s))"

subsection \<open>Iterators\<close>

text \<open>An iterator is the ID it stands at; its handle is passed along.\<close>

partial_function (option) iterator_next_loop ::
    "'s kv_env \<Rightarrow> 's \<Rightarrow> byte list \<Rightarrow> u32 \<Rightarrow> (astarte_result_t + u32) option" where
  "iterator_next_loop Z s ns curr_id =
     (case entry_get_next_id Z s curr_id of
        Inl ares \<Rightarrow> Some (Inl ASTARTE_RESULT_NOT_FOUND)
      | Inr next_id \<Rightarrow>
          if next_id = NULL_ID then Some (Inl ASTARTE_RESULT_NOT_FOUND)
          else if entry_check_namespace Z s next_id ns = Inr True then Some (Inr next_id)
          else iterator_next_loop Z s ns next_id)"

text \<open>Every locked operation first resolves a left-over intent.\<close>

definition resolve_locked :: "'s kv_env \<Rightarrow> 's \<Rightarrow> (astarte_result_t \<times> 's) option" where
  "resolve_locked Z s =
     (if mutex_lock Z s \<noteq> ASTARTE_RESULT_OK then Some (mutex_lock Z s, s)
      else entry_intent_resolve Z s)"

definition iterator_next ::
    "'s kv_env \<Rightarrow> kv_storage \<Rightarrow> u32 \<Rightarrow> 's \<Rightarrow> ((astarte_result_t + u32) \<times> 's) option" where
  "iterator_next Z kv current_id s = do {
     (ares, s) \<leftarrow> resolve_locked Z s;
     if ares \<noteq> ASTARTE_RESULT_OK then Some (Inl ares, s)
     else do {
       r \<leftarrow> iterator_next_loop Z s (kv_namespace kv) current_id;
       Some (r, s)
     }
   }"

definition iterator_init ::
    "'s kv_env \<Rightarrow> kv_storage \<Rightarrow> 's \<Rightarrow> ((astarte_result_t + u32) \<times> 's) option" where
  "iterator_init Z kv s = iterator_next Z kv NULL_ID s"

definition iterator_get ::
    "'s kv_env \<Rightarrow> u32 \<Rightarrow> nat option \<Rightarrow> 's \<Rightarrow> ((astarte_result_t + nat \<times> byte list) \<times> 's) option"
  where
  "iterator_get Z current_id buffer s = do {
     (ares, s) \<leftarrow> resolve_locked Z s;
     if ares \<noteq> ASTARTE_RESULT_OK then Some (Inl ares, s)
     else Some (entry_read_key Z s current_id buffer, s)
   }"

subsection \<open>New handle\<close>

text \<open>The loop that sums up the sizes of the values of the namespace.\<close>

partial_function (option) usage_loop ::
    "'s kv_env \<Rightarrow> kv_storage \<Rightarrow> (astarte_result_t + u32) \<Rightarrow> 's \<Rightarrow> (kv_storage \<times> 's) option" where
  "usage_loop Z kv iter_res s =
     (case iter_res of
        Inl ares \<Rightarrow> Some (kv, s)
      | Inr current_id \<Rightarrow> do {
          let kv = (case entry_read_value Z s current_id None of
              Inl read_res \<Rightarrow> kv
            | Inr (entry_size, _) \<Rightarrow>
                kv\<lparr>kv_current_usage_bytes := kv_current_usage_bytes kv + of_nat entry_size\<rparr>);
          (iter_res, s) \<leftarrow> iterator_next Z kv current_id s;
          usage_loop Z kv iter_res s
        })"

definition quota_bytes :: "u32 \<Rightarrow> u32 \<Rightarrow> u8 \<Rightarrow> u32" where
  "quota_bytes sector_size sector_count max_quota_pct =
     (sector_size * sector_count * ucast max_quota_pct) div 100"

definition key_value_new ::
    "'s kv_env \<Rightarrow> u32 \<Rightarrow> u32 \<Rightarrow> byte list \<Rightarrow> u8 \<Rightarrow> 's
      \<Rightarrow> ((astarte_result_t + kv_storage) \<times> 's) option" where
  "key_value_new Z sector_size sector_count ns max_quota_pct s =
     (if \<not> astarte_calloc (k_heap Z s) (strlen ns + 1) 1 then Some (Inl ASTARTE_RESULT_OUT_OF_MEMORY, s)
      else
        let calculated_max_bytes = quota_bytes sector_size sector_count max_quota_pct;
            kv = \<lparr>kv_namespace = c_string ns, kv_max_quota_bytes = calculated_max_bytes,
              kv_current_usage_bytes = 0\<rparr> in
        if calculated_max_bytes > 0 then
          if mutex_lock Z s \<noteq> ASTARTE_RESULT_OK then Some (Inl (mutex_lock Z s), s)
          else do {
            (iter_res, s) \<leftarrow> iterator_init Z kv s;
            (kv, s) \<leftarrow> usage_loop Z kv iter_res s;
            Some (Inr kv, s)
          }
        else Some (Inr kv, s))"

subsection \<open>Insertion\<close>

text \<open>The quota check: the new usage counter and the old size, or the error it ends with.\<close>

definition insert_quota ::
    "'s kv_env \<Rightarrow> kv_storage \<Rightarrow> u32 \<Rightarrow> nat \<Rightarrow> 's \<Rightarrow> astarte_result_t \<times> kv_storage \<times> u32" where
  "insert_quota Z kv entry_id value_size s =
     (if kv_max_quota_bytes kv > 0 then
        (case (case entry_read_value Z s entry_id None of
             Inl ares \<Rightarrow> if ares \<noteq> ASTARTE_RESULT_NOT_FOUND then Inl ares else Inr 0
           | Inr (n, _) \<Rightarrow> Inr (of_nat n)) of
           Inl ares \<Rightarrow> (ares, kv, 0)
         | Inr old_value_size \<Rightarrow>
             let kv = (if kv_current_usage_bytes kv < old_value_size
                   then kv\<lparr>kv_current_usage_bytes := old_value_size\<rparr> else kv);
                 projected_size = (kv_current_usage_bytes kv + of_nat value_size) - old_value_size in
             if projected_size > kv_max_quota_bytes kv
             then (ASTARTE_RESULT_OUT_OF_SPACE, kv, old_value_size)
             else (ASTARTE_RESULT_OK, kv, old_value_size))
      else (ASTARTE_RESULT_OK, kv, 0))"

definition key_value_insert ::
    "'s kv_env \<Rightarrow> kv_storage \<Rightarrow> byte list \<Rightarrow> byte list \<Rightarrow> 's
      \<Rightarrow> (astarte_result_t \<times> kv_storage \<times> 's) option" where
  "key_value_insert Z kv key value s = do {
     (ares, s) \<leftarrow> resolve_locked Z s;
     if ares \<noteq> ASTARTE_RESULT_OK then Some (ares, kv, s)
     else do {
       slot \<leftarrow> entry_find_or_alloc Z s (kv_namespace kv) key True;
       case slot of
         Inl ares \<Rightarrow> Some (ares, kv, s)
       | Inr entry_id \<Rightarrow>
           (case insert_quota Z kv entry_id (length value) s of (ares, kv, old_value_size) \<Rightarrow>
              if ares \<noteq> ASTARTE_RESULT_OK then Some (ares, kv, s)
              else case entry_write Z entry_id (kv_namespace kv) key value s of (ares, s) \<Rightarrow>
                if ares \<noteq> ASTARTE_RESULT_OK then Some (ares, kv, s)
                else Some (ASTARTE_RESULT_OK,
                  (if kv_max_quota_bytes kv > 0 then kv\<lparr>kv_current_usage_bytes :=
                     (kv_current_usage_bytes kv + of_nat (length value)) - old_value_size\<rparr> else kv),
                  s))
     }
   }"

subsection \<open>Look-up\<close>

definition key_value_find ::
    "'s kv_env \<Rightarrow> kv_storage \<Rightarrow> byte list \<Rightarrow> nat option \<Rightarrow> 's
      \<Rightarrow> ((astarte_result_t + nat \<times> byte list) \<times> 's) option" where
  "key_value_find Z kv key buffer s = do {
     (ares, s) \<leftarrow> resolve_locked Z s;
     if ares \<noteq> ASTARTE_RESULT_OK then Some (Inl ares, s)
     else do {
       slot \<leftarrow> entry_find_or_alloc Z s (kv_namespace kv) key False;
       case slot of
         Inl ares \<Rightarrow> Some (Inl ares, s)
       | Inr entry_id \<Rightarrow> Some (entry_read_value Z s entry_id buffer, s)
     }
   }"

subsection \<open>Deletion\<close>

definition deleted_size :: "'s kv_env \<Rightarrow> kv_storage \<Rightarrow> u32 \<Rightarrow> 's \<Rightarrow> u32" where
  "deleted_size Z kv entry_id s =
     (if kv_max_quota_bytes kv > 0 then
        (case entry_read_value Z s entry_id None of Inl _ \<Rightarrow> 0 | Inr (n, _) \<Rightarrow> of_nat n)
      else 0)"

definition account_deletion :: "kv_storage \<Rightarrow> u32 \<Rightarrow> kv_storage" where
  "account_deletion kv deleted_value_size =
     (if kv_max_quota_bytes kv > 0 \<and> deleted_value_size > 0 then
        (if kv_current_usage_bytes kv \<ge> deleted_value_size
         then kv\<lparr>kv_current_usage_bytes := kv_current_usage_bytes kv - deleted_value_size\<rparr>
         else kv\<lparr>kv_current_usage_bytes := 0\<rparr>)
      else kv)"

definition key_value_delete ::
    "'s kv_env \<Rightarrow> kv_storage \<Rightarrow> byte list \<Rightarrow> 's
      \<Rightarrow> (astarte_result_t \<times> kv_storage \<times> 's) option" where
  "key_value_delete Z kv key s = do {
     (ares, s) \<leftarrow> resolve_locked Z s;
     if ares \<noteq> ASTARTE_RESULT_OK then Some (ares, kv, s)
     else do {
       slot \<leftarrow> entry_find_or_alloc Z s (kv_namespace kv) key False;
       case slot of
         Inl ares \<Rightarrow> Some (ares, kv, s)
       | Inr entry_id \<Rightarrow> do {
           let deleted_value_size = deleted_size Z kv entry_id s;
           (ares, s) \<leftarrow> entry_delete Z entry_id s;
           if ares \<noteq> ASTARTE_RESULT_OK then Some (ares, kv, s)
           else Some (ASTARTE_RESULT_OK, account_deletion kv deleted_value_size, s)
         }
     }
   }"

subsection \<open>Deletion at an iterator\<close>

partial_function (option) find_next_matching_loop ::
    "'s kv_env \<Rightarrow> 's \<Rightarrow> byte list \<Rightarrow> u32 \<Rightarrow> (astarte_result_t + u32 option) option" where
  "find_next_matching_loop Z s ns peek_curr_id =
     (case entry_get_next_id Z s peek_curr_id of
        Inl ares \<Rightarrow> Some (Inl ares)
      | Inr idx \<Rightarrow>
          if idx = NULL_ID then Some (Inr None)
          else case entry_check_namespace Z s idx ns of
            Inl ares \<Rightarrow> Some (Inl ares)
          | Inr matches \<Rightarrow> if matches then Some (Inr (Some idx))
              else find_next_matching_loop Z s ns idx)"

definition read_next_key :: "'s kv_env \<Rightarrow> 's \<Rightarrow> u32 \<Rightarrow> astarte_result_t + byte list" where
  "read_next_key Z s next_id =
     (case entry_read_key Z s next_id None of
        Inl ares \<Rightarrow> Inl ares
      | Inr (next_key_size, _) \<Rightarrow>
          if \<not> astarte_calloc (k_heap Z s) next_key_size 1 then Inl ASTARTE_RESULT_OUT_OF_MEMORY
          else map_sum id (\<lambda>(n, key). c_string key) (entry_read_key Z s next_id (Some next_key_size)))"

definition heal_iterator_post_delete ::
    "'s kv_env \<Rightarrow> 's \<Rightarrow> byte list \<Rightarrow> byte list \<Rightarrow> (astarte_result_t + u32) option" where
  "heal_iterator_post_delete Z s ns next_key = do {
     slot \<leftarrow> entry_find_or_alloc Z s ns next_key False;
     case slot of
       Inl ares \<Rightarrow> Some (Inl ares)
     | Inr valid_next_matching_id \<Rightarrow> Some (entry_get_prev_id Z s valid_next_matching_id)
   }"

text \<open>The result, the handle, the ID the iterator is left at, and the file system.\<close>

definition iterator_delete ::
    "'s kv_env \<Rightarrow> kv_storage \<Rightarrow> u32 \<Rightarrow> 's
      \<Rightarrow> (astarte_result_t \<times> kv_storage \<times> u32 \<times> 's) option" where
  "iterator_delete Z kv current_id s =
     (if current_id = 0 then Some (ASTARTE_RESULT_INVALID_PARAM, kv, current_id, s)
      else do {
        (ares, s) \<leftarrow> resolve_locked Z s;
        if ares \<noteq> ASTARTE_RESULT_OK then Some (ares, kv, current_id, s)
        else do {
          peek \<leftarrow> find_next_matching_loop Z s (kv_namespace kv) current_id;
          case peek of
            Inl ares \<Rightarrow> Some (ares, kv, current_id, s)
          | Inr next_matching_id \<Rightarrow>
              (case (case next_matching_id of None \<Rightarrow> Inr []
                  | Some next_id \<Rightarrow> read_next_key Z s next_id) of
                 Inl ares \<Rightarrow> Some (ares, kv, current_id, s)
               | Inr next_key \<Rightarrow> do {
                   let deleted_value_size = deleted_size Z kv current_id s;
                   (ares, s) \<leftarrow> entry_delete Z current_id s;
                   if ares \<noteq> ASTARTE_RESULT_OK then Some (ares, kv, current_id, s)
                   else do {
                     let kv = account_deletion kv deleted_value_size;
                     if next_matching_id = None then Some (ASTARTE_RESULT_OK, kv, NULL_ID, s)
                     else do {
                       healed \<leftarrow> heal_iterator_post_delete Z s (kv_namespace kv) next_key;
                       Some (case healed of
                           Inl ares \<Rightarrow> (ares, kv, current_id, s)
                         | Inr new_prev_id \<Rightarrow> (ASTARTE_RESULT_OK, kv, new_prev_id, s))
                     }
                   }
                 })
        }
      })"

section \<open>direct.c\<close>

definition full_key :: "bool \<Rightarrow> u16 \<Rightarrow> u32" where
  "full_key alternate key = (if alternate then 0x10000 + ucast key else ucast key)"

definition direct_insert ::
    "'s kv_env \<Rightarrow> bool \<Rightarrow> u16 \<Rightarrow> byte list option \<Rightarrow> 's \<Rightarrow> astarte_result_t \<times> 's" where
  "direct_insert Z alternate key value s =
     (case value of
        None \<Rightarrow> (ASTARTE_RESULT_INVALID_PARAM, s)
      | Some v \<Rightarrow>
          if v = [] then (ASTARTE_RESULT_INVALID_PARAM, s)
          else if mutex_lock Z s \<noteq> ASTARTE_RESULT_OK then (mutex_lock Z s, s)
          else rc_check ASTARTE_RESULT_ZMS_ERROR (zms_write Z s (full_key alternate key) v))"

definition direct_find ::
    "'s kv_env \<Rightarrow> bool \<Rightarrow> u16 \<Rightarrow> nat option \<Rightarrow> 's \<Rightarrow> astarte_result_t \<times> nat option \<times> byte list"
  where
  "direct_find Z alternate key buffer s =
     (if mutex_lock Z s \<noteq> ASTARTE_RESULT_OK then (mutex_lock Z s, None, [])
      else let data_len = zms_get_data_length Z s (full_key alternate key) in
        if data_len = - ENOENT then (ASTARTE_RESULT_NOT_FOUND, None, [])
        else if data_len < 0 then (ASTARTE_RESULT_ZMS_ERROR, None, [])
        else case buffer of
          None \<Rightarrow> (ASTARTE_RESULT_OK, Some (nat data_len), [])
        | Some value_size \<Rightarrow>
            if value_size < nat data_len then (ASTARTE_RESULT_INVALID_PARAM, Some (nat data_len), [])
            else case zms_read Z s (full_key alternate key) value_size of (ret, raw) \<Rightarrow>
              if ret \<noteq> data_len then (ASTARTE_RESULT_ZMS_ERROR, None, [])
              else (ASTARTE_RESULT_OK, Some (nat ret), raw))"

definition direct_delete :: "'s kv_env \<Rightarrow> bool \<Rightarrow> u16 \<Rightarrow> 's \<Rightarrow> astarte_result_t \<times> 's" where
  "direct_delete Z alternate key s =
     (if mutex_lock Z s \<noteq> ASTARTE_RESULT_OK then (mutex_lock Z s, s)
      else case zms_delete Z s (full_key alternate key) of (ret, s) \<Rightarrow>
        (if ret < 0 \<and> ret \<noteq> - ENOENT then ASTARTE_RESULT_ZMS_ERROR else ASTARTE_RESULT_OK, s))"

section \<open>Code equations of the loops\<close>

declare iterator_next_loop.simps [code]
  usage_loop.simps [code]
  find_next_matching_loop.simps [code]

end
