(* ===== verification/KV_Rep.thy ===== *)
theory KV_Rep
  imports KV_Probe KV_Core
begin

text \<open>
  The contents of the file system as a table of entries, a head, a tail and an intent
  (\<open>kv_abs\<close>), and what every single write of the store does to them.

  \<open>runs Z C p S P\<close> is the judgement the proofs are built from: the operation that returned \<open>p\<close>
  either succeeded in a state that represents some abstract state satisfying \<open>P\<close>, or it failed,
  which a reliable environment excludes, in a state that represents one satisfying \<open>S\<close>.  Since a
  failed write changes nothing, \<open>S\<close> also describes every state a power loss can leave.
\<close>

section \<open>Abstract contents\<close>

record kv_abs =
  ka_ent :: table
  ka_head :: u32
  ka_tail :: u32
  ka_int :: "kv_intent option"
  ka_rest :: "u32 \<rightharpoonup> byte list"

definition ht_image :: "u32 \<Rightarrow> u32 \<Rightarrow> byte list option \<Rightarrow> bool" where
  "ht_image h t d \<longleftrightarrow> d = Some (le32 h @ le32 t) \<or> d = None \<and> h = NULL_ID \<and> t = NULL_ID"

definition other_id :: "u32 \<Rightarrow> bool" where
  "other_id i \<longleftrightarrow> \<not> usable i \<and> i \<noteq> HEAD_AND_TAIL_ID \<and> i \<noteq> INTENT_ID"

definition rep :: "('s \<Rightarrow> u32 \<rightharpoonup> byte list) \<Rightarrow> 's \<Rightarrow> kv_abs \<Rightarrow> bool" where
  "rep C s A \<longleftrightarrow> (\<forall>i. usable i \<longrightarrow> C s i = map_option kv_image (ka_ent A i))
     \<and> (\<forall>i e. ka_ent A i = Some e \<longrightarrow> usable i \<and> valid_entry e)
     \<and> ht_image (ka_head A) (ka_tail A) (C s HEAD_AND_TAIL_ID)
     \<and> C s INTENT_ID = map_option intent_bytes (ka_int A)
     \<and> (\<forall>i. other_id i \<longrightarrow> C s i = ka_rest A i)"

lemma repD:
  assumes "rep C s A"
  shows "usable i \<Longrightarrow> C s i = map_option kv_image (ka_ent A i)"
    and "ka_ent A i = Some e \<Longrightarrow> usable i" and "ka_ent A i = Some e \<Longrightarrow> valid_entry e"
    and "ka_ent A i = Some e \<Longrightarrow> C s i = Some (kv_image e)"
    and "usable i \<Longrightarrow> ka_ent A i = None \<Longrightarrow> C s i = None"
    and "C s INTENT_ID = map_option intent_bytes (ka_int A)"
  using assms by (auto simp: rep_def)

lemma other_id_not_usable: "other_id i \<Longrightarrow> \<not> usable i"
  by (simp add: other_id_def)

text \<open>Writing one record of the file system is one update of the abstract contents.\<close>

lemma rep_entry:
  assumes "rep C s A" and u: "usable i" and "valid_entry e" and "C s' = (C s)(i \<mapsto> kv_image e)"
  shows "rep C s' (A\<lparr>ka_ent := (ka_ent A)(i \<mapsto> e)\<rparr>)"
  unfolding rep_def
  using assms usable_neq [OF u] by (simp add: rep_def other_id_def)

lemma rep_delete:
  assumes "rep C s A" and u: "usable i" and "C s' = (C s)(i := None)"
  shows "rep C s' (A\<lparr>ka_ent := (ka_ent A)(i := None)\<rparr>)"
  unfolding rep_def
  using assms usable_neq [OF u] by (simp add: rep_def other_id_def)

lemma rep_head_tail:
  "rep C s A \<Longrightarrow> C s' = (C s)(HEAD_AND_TAIL_ID \<mapsto> le32 h @ le32 t) \<Longrightarrow>
   rep C s' (A\<lparr>ka_head := h, ka_tail := t\<rparr>)"
  using usable_neq by (auto simp: rep_def ht_image_def other_id_def)

lemma rep_intent:
  "rep C s A \<Longrightarrow> C s' = (C s)(INTENT_ID \<mapsto> intent_bytes x) \<Longrightarrow>
   rep C s' (A\<lparr>ka_int := Some x\<rparr>)"
  using usable_neq by (auto simp: rep_def other_id_def)

lemma rep_same: "rep C s A \<Longrightarrow> C s' = C s \<Longrightarrow> rep C s' A"
  by (simp add: rep_def)

section \<open>The judgement\<close>

definition runs ::
    "'s kv_env \<Rightarrow> ('s \<Rightarrow> u32 \<rightharpoonup> byte list) \<Rightarrow> astarte_result_t \<times> 's
      \<Rightarrow> (kv_abs \<Rightarrow> bool) \<Rightarrow> (kv_abs \<Rightarrow> bool) \<Rightarrow> bool" where
  "runs Z C p S P \<longleftrightarrow>
     fst p = ASTARTE_RESULT_OK \<and> (\<exists>A. rep C (snd p) A \<and> P A)
   \<or> fst p \<noteq> ASTARTE_RESULT_OK \<and> fst p \<noteq> ASTARTE_RESULT_NOT_FOUND \<and> \<not> reliable_store Z C
       \<and> (\<exists>A. rep C (snd p) A \<and> S A)"

lemma runs_OK [intro]: "rep C s A \<Longrightarrow> P A \<Longrightarrow> runs Z C (ASTARTE_RESULT_OK, s) S P"
  by (auto simp: runs_def)

lemma runs_fail:
  "rep C s A \<Longrightarrow> S A \<Longrightarrow> \<not> reliable_store Z C \<Longrightarrow> r \<noteq> ASTARTE_RESULT_OK \<Longrightarrow>
   r \<noteq> ASTARTE_RESULT_NOT_FOUND \<Longrightarrow> runs Z C (r, s) S P"
  by (auto simp: runs_def)

lemma runs_weaken:
  "runs Z C p S P \<Longrightarrow> (\<And>A. S A \<Longrightarrow> S' A) \<Longrightarrow> (\<And>A. P A \<Longrightarrow> P' A) \<Longrightarrow> runs Z C p S' P'"
  unfolding runs_def by blast

lemma runs_and_then:
  assumes "runs Z C p S P" and "\<And>s A. rep C s A \<Longrightarrow> P A \<Longrightarrow> runs Z C (f s) S Q"
  shows "runs Z C (and_then p f) S Q"
  using assms by (cases p) (auto simp: runs_def and_then_def)

lemma runs_cases:
  assumes "runs Z C p S P"
  obtains (ok) s A where "p = (ASTARTE_RESULT_OK, s)" "rep C s A" "P A"
    | (fail) r s A where "p = (r, s)" "r \<noteq> ASTARTE_RESULT_OK" "r \<noteq> ASTARTE_RESULT_NOT_FOUND"
        "\<not> reliable_store Z C" "rep C s A" "S A"
  using assms by (cases p) (auto simp: runs_def)

lemma runs_reliable: "runs Z C p S P \<Longrightarrow> reliable_store Z C \<Longrightarrow> fst p = ASTARTE_RESULT_OK"
  by (auto simp: runs_def)

section \<open>Single operations\<close>

definition cleared :: "kv_abs \<Rightarrow> kv_abs" where
  "cleared A = A\<lparr>ka_int := Some \<lparr>in_state = 0, in_target_id = 0, in_affected_id_1 = 0,
     in_affected_id_2 = 0\<rparr>\<rparr>"

context zms_store begin

lemma not_reliable_write:
  "zms_write Z s i d = (rc, s') \<Longrightarrow> rc < 0 \<Longrightarrow> \<not> reliable_store Z C"
  using reliable_store.write_ok [of Z C s i d] by auto

lemma not_reliable_delete:
  "zms_delete Z s i = (rc, s') \<Longrightarrow> rc < 0 \<Longrightarrow> \<not> reliable_store Z C"
  using reliable_store.delete_ok [of Z C s i] by auto

lemma not_reliable_heap: "\<not> k_heap Z s n \<Longrightarrow> \<not> reliable_store Z C"
  using reliable_store.heap_ok [of Z C s n] by blast

text \<open>A checked write, with what its two outcomes represent.\<close>

lemma runs_write:
  assumes "d \<noteq> []" and "\<And>s'. C s' = (C s)(i \<mapsto> d) \<Longrightarrow> rep C s' A'" and "P A'"
    and "rep C s A" and "S A" and "e \<noteq> ASTARTE_RESULT_OK" and "e \<noteq> ASTARTE_RESULT_NOT_FOUND"
  shows "runs Z C (rc_check e (zms_write Z s i d)) S P"
proof (cases "zms_write Z s i d")
  case (Pair rc s')
  show ?thesis
  proof (cases "rc < 0")
    case True
    with Pair have "C s' = C s" using write_law assms(1) by fastforce
    then have "rep C s' A" using assms(4) by (rule rep_same [rotated])
    with assms(5-) True Pair not_reliable_write [OF Pair True] show ?thesis
      by (simp add: rc_check_def runs_fail)
  next
    case False
    with Pair have "C s' = (C s)(i \<mapsto> d)" using write_law assms(1) by fastforce
    with assms(2,3) False Pair show ?thesis
      by (auto simp: rc_check_def)
  qed
qed

lemma runs_delete:
  assumes "usable i" and "rep C s A" and "S A" and "P (A\<lparr>ka_ent := (ka_ent A)(i := None)\<rparr>)"
  shows "runs Z C (rc_check ASTARTE_RESULT_ZMS_ERROR (zms_delete Z s i)) S P"
proof (cases "zms_delete Z s i")
  case (Pair rc s')
  show ?thesis
  proof (cases "rc < 0")
    case True
    with Pair have "C s' = C s" using delete_law by fastforce
    then have "rep C s' A" using assms(2) by (rule rep_same [rotated])
    with assms(3) True Pair not_reliable_delete [OF Pair True] show ?thesis
      by (simp add: rc_check_def runs_fail)
  next
    case False
    with Pair have "C s' = (C s)(i := None)" using delete_law by fastforce
    with assms False Pair show ?thesis
      by (auto simp: rc_check_def intro: rep_delete)
  qed
qed

lemma runs_entry:
  assumes "usable i" and "valid_entry e" and "rep C s A" and "S A"
    and "P (A\<lparr>ka_ent := (ka_ent A)(i \<mapsto> e)\<rparr>)"
  shows "runs Z C (rc_check ASTARTE_RESULT_ZMS_ERROR (zms_write Z s i (kv_image e))) S P"
  using assms by (intro runs_write) (auto intro: rep_entry)

lemma runs_head_tail:
  assumes "rep C s A" and "S A" and "P (A\<lparr>ka_head := h, ka_tail := t\<rparr>)"
  shows "runs Z C (write_head_and_tail_ids Z h t s) S P"
  unfolding write_head_and_tail_ids_def
  using assms by (intro runs_write) (auto intro: rep_head_tail)

lemma intent_bytes_not_Nil [simp]: "intent_bytes x \<noteq> []"
  by (simp add: intent_bytes_def)

lemma runs_intent:
  assumes "rep C s A" and "S A"
    and "P (A\<lparr>ka_int := Some \<lparr>in_state = intent_state_code st, in_target_id = t,
      in_affected_id_1 = a, in_affected_id_2 = b\<rparr>\<rparr>)"
  shows "runs Z C (entry_intent_write Z st t a b s) S P"
  unfolding entry_intent_write_def
  using assms by (intro runs_write) (auto intro: rep_intent)

lemma runs_clear:
  assumes "rep C s A" and "S A" and "P (cleared A)"
  shows "runs Z C (entry_intent_clear Z s) S P"
  unfolding entry_intent_clear_def
  using assms by (intro runs_write) (auto simp: cleared_def intro: rep_intent)

lemma read_head_tail:
  "rep C s A \<Longrightarrow> read_head_and_tail_ids Z s = Inr (ka_head A, ka_tail A)"
  by (auto simp: rep_def ht_image_def read_head_and_tail_ids_def read_Some read_None ENOENT_def)

text \<open>Patching a link of an entry.\<close>

lemma runs_patch:
  assumes "rep C s A" and "ka_ent A i = Some e" and "S A"
    and "patch off (le32 n) (kv_image e) = kv_image e'" and "valid_entry e'"
    and "P (A\<lparr>ka_ent := (ka_ent A)(i \<mapsto> e')\<rparr>)"
  shows "runs Z C (patch_entry Z off i n s) S P"
proof -
  note r = repD [OF assms(1)]
  have c: "C s i = Some (kv_image e)" using r(4) assms(2) by blast
  show ?thesis
  proof (cases "k_heap Z s (length (kv_image e))")
    case True
    have "patch_entry Z off i n s =
        rc_check ASTARTE_RESULT_ZMS_ERROR (zms_write Z s i (kv_image e'))"
      using c True assms(4)
      by (simp add: patch_entry_def length_Some read_Some Let_def del: length_kv_image)
    moreover have "runs Z C (rc_check ASTARTE_RESULT_ZMS_ERROR (zms_write Z s i (kv_image e'))) S P"
      using assms(1,3,5,6) r(2) [OF assms(2)] by (intro runs_entry)
    ultimately show ?thesis by simp
  next
    case False
    then have "patch_entry Z off i n s = (ASTARTE_RESULT_OUT_OF_MEMORY, s)"
      using c by (simp add: patch_entry_def length_Some Let_def del: length_kv_image)
    then show ?thesis
      using assms(1,3) not_reliable_heap [OF False] by (simp add: runs_fail)
  qed
qed

lemma runs_next:
  assumes "rep C s A" and "i \<in> dom (ka_ent A)" and "S A"
    and "P (A\<lparr>ka_ent := set_next (ka_ent A) i n\<rparr>)"
  shows "runs Z C (update_next_id Z i n s) S P"
proof -
  obtain e where e: "ka_ent A i = Some e" using assms(2) by auto
  show ?thesis
    unfolding update_next_id_def
    using assms e repD(3) [OF assms(1) e] by (intro runs_patch) (auto simp: patch_next set_next_def)
qed

lemma runs_prev:
  assumes "rep C s A" and "i \<in> dom (ka_ent A)" and "S A"
    and "P (A\<lparr>ka_ent := set_prev (ka_ent A) i n\<rparr>)"
  shows "runs Z C (update_prev_id Z i n s) S P"
proof -
  obtain e where e: "ka_ent A i = Some e" using assms(2) by auto
  show ?thesis
    unfolding update_prev_id_def
    using assms e repD(3) [OF assms(1) e] by (intro runs_patch) (auto simp: patch_prev set_prev_def)
qed

section \<open>Queries\<close>

lemma header_fixed_Some:
  "rep C s A \<Longrightarrow> ka_ent A i = Some e \<Longrightarrow>
   entry_header_read_fixed Z s i = Inr (entry_fixed e, length (kv_image e))"
  by (simp add: read_fixed_image repD)

lemma header_fixed_None:
  "rep C s A \<Longrightarrow> usable i \<Longrightarrow> ka_ent A i = None \<Longrightarrow>
   entry_header_read_fixed Z s i = Inl ASTARTE_RESULT_NOT_FOUND"
  by (simp add: read_fixed_None repD)

lemma header_None:
  "rep C s A \<Longrightarrow> usable i \<Longrightarrow> ka_ent A i = None \<Longrightarrow>
   entry_header_read Z s i = Inl ASTARTE_RESULT_NOT_FOUND"
  by (simp add: read_header_None repD)

lemma header_Some:
  assumes "rep C s A" and "ka_ent A i = Some e"
  obtains (ok) "entry_header_read Z s i = Inr (entry_header_of e, length (kv_image e))"
    | (oom) "entry_header_read Z s i = Inl ASTARTE_RESULT_OUT_OF_MEMORY" "\<not> reliable_store Z C"
proof (cases "\<forall>n. k_heap Z s n")
  case True
  then show thesis
    using read_header_heap [OF repD(4) [OF assms] repD(3) [OF assms]] by (intro ok) simp
next
  case False
  then have "\<not> reliable_store Z C" using not_reliable_heap by blast
  then show thesis
    using read_header_image [OF repD(4) [OF assms] repD(3) [OF assms]] ok oom by blast
qed

lemma unat_len_ns [simp]: "valid_entry e \<Longrightarrow> unat (hf_namespace_len (entry_fixed e)) = length (e_ns e)"
  by (simp add: entry_fixed_def valid_entry_def valid_name_def unat_of_nat_u16)

lemma unat_len_key [simp]: "valid_entry e \<Longrightarrow> unat (hf_key_len (entry_fixed e)) = length (e_key e)"
  by (simp add: entry_fixed_def valid_entry_def valid_name_def unat_of_nat_u16)

lemma check_entry_match_Some:
  assumes "rep C s A" and "ka_ent A i = Some e" and "valid_name ns" and "valid_name key"
  shows "check_entry_match Z s i ns key =
      (if e_ns e = ns \<and> e_key e = key then ASTARTE_RESULT_OK else ASTARTE_RESULT_MISMATCH)
    \<or> check_entry_match Z s i ns key = ASTARTE_RESULT_OUT_OF_MEMORY \<and> \<not> reliable_store Z C"
proof -
  have v: "valid_entry e" using assms(1,2) by (rule repD)
  then have nf: "nul_free (e_ns e)" "nul_free (e_key e)" "nul_free ns" "nul_free key"
    using assms(3,4) by (auto simp: valid_entry_def valid_name_def)
  have m: "(length (e_ns e) = length ns \<and> length (e_key e) = length key
      \<and> strncmp_eq (e_ns e) ns (length (e_ns e)) \<and> strncmp_eq (e_key e) key (length (e_key e)))
      \<longleftrightarrow> e_ns e = ns \<and> e_key e = key"
    using nf strncmp_eq_whole by blast
  from assms(1,2) show ?thesis
  proof (cases rule: header_Some)
    case ok
    then show ?thesis
      using v nf m by (auto simp: check_entry_match_def Let_def entry_header_of_def)
  next
    case oom
    then show ?thesis by (simp add: check_entry_match_def)
  qed
qed

lemma check_entry_match_None:
  "rep C s A \<Longrightarrow> usable i \<Longrightarrow> ka_ent A i = None \<Longrightarrow>
   check_entry_match Z s i ns key = ASTARTE_RESULT_NOT_FOUND"
  by (simp add: check_entry_match_def header_None)

lemma read_value_size:
  assumes "rep C s A" and "ka_ent A i = Some e"
  shows "entry_read_value Z s i None = Inr (length (e_val e), [])"
  using header_fixed_Some [OF assms] repD(3) [OF assms]
  by (simp add: entry_read_value_def Let_def FIXED_HEADER_BYTES_def)

lemma read_value_Some:
  assumes "rep C s A" and "ka_ent A i = Some e" and "length (e_val e) \<le> n"
  shows "entry_read_value Z s i (Some n) = Inr (length (e_val e), e_val e)
    \<or> entry_read_value Z s i (Some n) = Inl ASTARTE_RESULT_OUT_OF_MEMORY \<and> \<not> reliable_store Z C"
proof (cases "k_heap Z s (length (kv_image e))")
  case True
  then show ?thesis
    using header_fixed_Some [OF assms(1,2)] repD(3,4) [OF assms(1,2)] assms(3) image_names(3) [of e]
    by (simp add: entry_read_value_def Let_def FIXED_HEADER_BYTES_def read_Some)
next
  case False
  then show ?thesis
    using header_fixed_Some [OF assms(1,2)] repD(3) [OF assms(1,2)] assms(3)
      not_reliable_heap [OF False]
    by (simp add: entry_read_value_def Let_def FIXED_HEADER_BYTES_def)
qed

lemma read_value_small:
  assumes "rep C s A" and "ka_ent A i = Some e" and "n < length (e_val e)"
  shows "entry_read_value Z s i (Some n) = Inl ASTARTE_RESULT_INVALID_PARAM"
  using header_fixed_Some [OF assms(1,2)] repD(3) [OF assms(1,2)] assms(3)
  by (simp add: entry_read_value_def Let_def FIXED_HEADER_BYTES_def)

lemma read_value_None:
  "rep C s A \<Longrightarrow> usable i \<Longrightarrow> ka_ent A i = None \<Longrightarrow>
   entry_read_value Z s i b = Inl ASTARTE_RESULT_NOT_FOUND"
  by (simp add: entry_read_value_def header_fixed_None)

end

end
