(* ===== verification/KV_Insert.thy ===== *)
theory KV_Insert
  imports KV_Rep
begin

text \<open>
  Searching, inserting and updating.  \<open>stored\<close> is the invariant between operations, \<open>kv_good\<close>
  says which association list the contents stand for, in the order of the global list.
\<close>

section \<open>The invariant\<close>

definition stored :: "'s kv_env \<Rightarrow> kv_abs \<Rightarrow> u32 list \<Rightarrow> bool" where
  "stored Z A ids \<longleftrightarrow> linked (ka_ent A) (ka_head A) (ka_tail A) ids
     \<and> unique_keys (keys_of (ka_ent A)) \<and> probed (home_of Z) (keys_of (ka_ent A))"

definition idle :: "kv_abs \<Rightarrow> bool" where
  "idle A \<longleftrightarrow> (case ka_int A of None \<Rightarrow> True | Some i \<Rightarrow> in_state i = 0)"

definition kv_good :: "'s kv_env \<Rightarrow> (kv_key \<times> byte list) list \<Rightarrow> (u32 \<rightharpoonup> byte list) \<Rightarrow> kv_abs \<Rightarrow> bool" where
  "kv_good Z al R A \<longleftrightarrow> (\<exists>ids. stored Z A ids \<and> pairs_of (ka_ent A) ids = al) \<and> ka_rest A = R"

lemma storedD:
  assumes "stored Z A ids"
  shows "linked (ka_ent A) (ka_head A) (ka_tail A) ids" "unique_keys (keys_of (ka_ent A))"
    "probed (home_of Z) (keys_of (ka_ent A))" "dom (ka_ent A) \<subseteq> Collect usable"
    "set ids = dom (ka_ent A)" "distinct ids"
  using assms by (auto simp: stored_def linked_def)

lemma stored_int [simp]: "stored Z (A\<lparr>ka_int := x\<rparr>) ids = stored Z A ids"
  by (simp add: stored_def)

lemma kv_good_int [simp]: "kv_good Z al R (A\<lparr>ka_int := x\<rparr>) = kv_good Z al R A"
  by (simp add: kv_good_def)

lemma kv_good_cleared [simp]: "kv_good Z al R (cleared A) = kv_good Z al R A"
  by (simp add: cleared_def)

lemma idle_cleared [simp]: "idle (cleared A)"
  by (simp add: cleared_def idle_def)

lemma keys_of_Some: "keys_of ent i = Some k \<longleftrightarrow> (\<exists>e. ent i = Some e \<and> k = (e_ns e, e_key e))"
  by (auto simp: keys_of_def)

lemma keys_of_upd [simp]:
  "keys_of (ent(i \<mapsto> e)) = (keys_of ent)(i \<mapsto> (e_ns e, e_key e))"
  "keys_of (ent(i := None)) = (keys_of ent)(i := None)"
  by (auto simp: keys_of_def)

lemma keys_of_None [simp]: "keys_of ent i = None \<longleftrightarrow> ent i = None"
  by (simp add: keys_of_def)

section \<open>The association list\<close>

lemma fst_entry_kv [simp]: "fst (entry_kv e) = (e_ns e, e_key e)" "snd (entry_kv e) = e_val e"
  by (simp_all add: entry_kv_def)

lemma pairs_of_append [simp]: "pairs_of ent (xs @ ys) = pairs_of ent xs @ pairs_of ent ys"
  by (simp add: pairs_of_def)

lemma pairs_of_simps [simp]:
  "pairs_of ent [] = []" "pairs_of ent (i # is) = entry_kv (the (ent i)) # pairs_of ent is"
  by (simp_all add: pairs_of_def)

lemma pairs_of_other: "i \<notin> set ids \<Longrightarrow> pairs_of (ent(i := x)) ids = pairs_of ent ids"
  by (auto simp: pairs_of_def)

lemma pairs_of_relink:
  "set ids \<subseteq> dom ent \<Longrightarrow> pairs_of (relink p n x y ent) ids = pairs_of ent ids"
  by (intro pairs_of_cong) (simp_all add: relink_kv)

lemma map_of_pairs:
  assumes "unique_keys (keys_of ent)" and "set ids \<subseteq> dom ent" and "i \<in> set ids"
    and "ent i = Some e" and "distinct ids"
  shows "map_of (pairs_of ent ids) (e_ns e, e_key e) = Some (e_val e)"
  using assms(2,3,5)
proof (induction ids)
  case (Cons j js)
  obtain f where f: "ent j = Some f" using Cons.prems(1) by auto
  show ?case
  proof (cases "j = i")
    case True
    then show ?thesis using assms(4) by (simp add: entry_kv_def)
  next
    case False
    then have "(e_ns f, e_key f) \<noteq> (e_ns e, e_key e)"
      using unique_keysD [OF assms(1), of j "(e_ns e, e_key e)" i] f assms(4)
      by (auto simp: keys_of_Some)
    then show ?thesis
      using Cons False f by (auto simp: entry_kv_def)
  qed
qed simp

lemma map_of_pairs_None:
  assumes "k \<notin> ran (keys_of ent)" and "set ids \<subseteq> dom ent"
  shows "k \<notin> fst ` set (pairs_of ent ids)"
proof
  assume "k \<in> fst ` set (pairs_of ent ids)"
  then obtain i where "i \<in> set ids" "k = fst (entry_kv (the (ent i)))"
    by (auto simp: pairs_of_def)
  moreover from this assms(2) obtain e where "ent i = Some e" by auto
  ultimately have "keys_of ent i = Some k" by (simp add: keys_of_def)
  with assms(1) show False by (auto simp: ran_def)
qed

lemma alist_update_absent: "k \<notin> fst ` set al \<Longrightarrow> AList.update k v al = al @ [(k, v)]"
  by (induction al) auto

lemma alist_update_present:
  "k \<notin> fst ` set xs \<Longrightarrow> AList.update k v (xs @ (k, w) # ys) = xs @ (k, v) # ys"
  by (induction xs) auto

lemma alist_delete_present:
  "k \<notin> fst ` set xs \<Longrightarrow> k \<notin> fst ` set ys \<Longrightarrow> AList.delete k (xs @ (k, w) # ys) = xs @ ys"
  by (induction xs) (force simp: AList.delete_eq filter_id_conv)+

text \<open>The keys around an entry differ from its key.\<close>

lemma pairs_around:
  assumes "linked ent h t (xs @ i # ys)" and "unique_keys (keys_of ent)" and "ent i = Some e"
  shows "(e_ns e, e_key e) \<notin> fst ` set (pairs_of ent xs)"
    and "(e_ns e, e_key e) \<notin> fst ` set (pairs_of ent ys)"
proof -
  have *: "(e_ns e, e_key e) \<notin> fst ` set (pairs_of ent js)"
    if js: "i \<notin> set js" "set js \<subseteq> dom ent" for js
  proof
    assume "(e_ns e, e_key e) \<in> fst ` set (pairs_of ent js)"
    then obtain j where j: "j \<in> set js" "(e_ns e, e_key e) = fst (entry_kv (the (ent j)))"
      by (auto simp: pairs_of_def)
    moreover from this js(2) obtain f where "ent j = Some f" by auto
    ultimately have "keys_of ent j = Some (e_ns e, e_key e)" "keys_of ent i = Some (e_ns e, e_key e)"
      using assms(3) by (simp_all add: keys_of_def)
    then have "j = i" by (rule unique_keysD [OF assms(2)])
    with j js show False by simp
  qed
  note d = linkedD [OF assms(1)]
  show "(e_ns e, e_key e) \<notin> fst ` set (pairs_of ent xs)"
    using d by (intro *) auto
  show "(e_ns e, e_key e) \<notin> fst ` set (pairs_of ent ys)"
    using d by (intro *) auto
qed

section \<open>The search\<close>

text \<open>The possible results of the search.\<close>

definition slot_result ::
    "('s kv_env) \<Rightarrow> ('s \<Rightarrow> u32 \<rightharpoonup> byte list) \<Rightarrow> kv_abs \<Rightarrow> kv_key \<Rightarrow> bool \<Rightarrow> astarte_result_t + u32 \<Rightarrow> bool" where
  "slot_result Z C A k allocate r \<longleftrightarrow>
     (\<exists>i e. r = Inr i \<and> ka_ent A i = Some e \<and> (e_ns e, e_key e) = k)
   \<or> (\<exists>c. usable c \<and> ka_ent A c = None \<and> k \<notin> ran (keys_of (ka_ent A))
        \<and> (\<forall>j. usable j \<longrightarrow> dist (home_of Z k) j < dist (home_of Z k) c \<longrightarrow> ka_ent A j \<noteq> None)
        \<and> r = (if allocate then Inr c else Inl ASTARTE_RESULT_NOT_FOUND))
   \<or> Collect usable \<subseteq> dom (ka_ent A) \<and> k \<notin> ran (keys_of (ka_ent A))
        \<and> r = Inl ASTARTE_RESULT_KEY_VALUE_FULL
   \<or> r = Inl ASTARTE_RESULT_OUT_OF_MEMORY \<and> \<not> reliable_store Z C"

context zms_store begin

lemma find_or_alloc_loop_spec:
  assumes rep: "rep C s A" and st: "stored Z A ids" and v: "valid_name ns" "valid_name key"
    and c: "usable c" and start: "start = home_of Z (ns, key)"
    and path: "\<And>j. usable j \<Longrightarrow> dist start j < dist start c \<Longrightarrow>
      ka_ent A j \<noteq> None \<and> keys_of (ka_ent A) j \<noteq> Some (ns, key)"
  shows "\<exists>r. find_or_alloc_loop Z s ns key allocate start c = Some r
    \<and> slot_result Z C A (ns, key) allocate r"
  using c path
proof (induction "ring_size - dist start c" arbitrary: c rule: less_induct)
  case less
  note step = find_or_alloc_loop.simps [of Z s ns key allocate start c]
  have us: "usable start" by (simp add: start)
  show ?case
  proof (cases "ka_ent A c")
    case None
    then have m: "check_entry_match Z s c ns key = ASTARTE_RESULT_NOT_FOUND"
      using rep less.prems(1) by (intro check_entry_match_None)
    have "(ns, key) \<notin> ran (keys_of (ka_ent A))"
      using storedD [OF st] None less.prems start
      by (intro code_hash.probed_absent [where c = c]) auto
    then show ?thesis
      using None m less.prems start step by (auto simp: slot_result_def Let_def)
  next
    case (Some e)
    from check_entry_match_Some [OF rep Some v] show ?thesis
    proof (elim disjE conjE)
      assume "check_entry_match Z s c ns key = ASTARTE_RESULT_OUT_OF_MEMORY" "\<not> reliable_store Z C"
      then show ?thesis using step by (auto simp: slot_result_def Let_def)
    next
      assume m: "check_entry_match Z s c ns key =
        (if e_ns e = ns \<and> e_key e = key then ASTARTE_RESULT_OK else ASTARTE_RESULT_MISMATCH)"
      show ?thesis
      proof (cases "e_ns e = ns \<and> e_key e = key")
        case True
        then show ?thesis using m Some step by (auto simp: slot_result_def Let_def)
      next
        case False
        have path': "ka_ent A j \<noteq> None \<and> keys_of (ka_ent A) j \<noteq> Some (ns, key)"
          if "usable j" "dist start j \<le> dist start c" for j
        proof (cases "dist start j = dist start c")
          case True
          then have "j = c" using us that less.prems(1) by (intro dist_inj [of start])
          then show ?thesis using Some False by (auto simp: keys_of_def)
        next
          case False
          then show ?thesis using less.prems(2) that by auto
        qed
        show ?thesis
        proof (cases "next_slot c = start")
          case True
          then have d: "dist start c = ring_size - 1" using us less.prems(1) by (simp add: dist_last)
          have all: "ka_ent A j \<noteq> None \<and> keys_of (ka_ent A) j \<noteq> Some (ns, key)" if "usable j" for j
            using path' [OF that] dist_less [OF us that] d by simp
          have "(ns, key) \<notin> ran (keys_of (ka_ent A))"
            using all storedD(4) [OF st] by (auto simp: ran_def keys_of_Some domIff subset_iff)
          moreover have "Collect usable \<subseteq> dom (ka_ent A)" using all by auto
          ultimately show ?thesis using m False True step by (auto simp: slot_result_def Let_def)
        next
          case no: False
          have d: "dist start (next_slot c) = Suc (dist start c)"
            using us less.prems(1) no by (rule dist_next_less)
          have "\<exists>r. find_or_alloc_loop Z s ns key allocate start (next_slot c) = Some r
              \<and> slot_result Z C A (ns, key) allocate r"
          proof (rule less.hyps)
            show "ring_size - dist start (next_slot c) < ring_size - dist start c"
              using d dist_less [OF us less.prems(1)] by simp
            show "usable (next_slot c)" using less.prems(1) by simp
            show "ka_ent A j \<noteq> None \<and> keys_of (ka_ent A) j \<noteq> Some (ns, key)"
              if "usable j" "dist start j < dist start (next_slot c)" for j
              using path' that d by simp
          qed
          then show ?thesis using m False no step by (simp add: Let_def)
        qed
      qed
    qed
  qed
qed

lemma find_or_alloc_spec:
  assumes "rep C s A" and "stored Z A ids" and "valid_name ns" "valid_name key"
  shows "\<exists>r. entry_find_or_alloc Z s ns key allocate = Some r
    \<and> slot_result Z C A (ns, key) allocate r"
  unfolding entry_find_or_alloc_def Let_def
  using assms by (intro find_or_alloc_loop_spec) (auto simp: home_of_def)

end

section \<open>Writing an entry\<close>

definition intent_of :: "intent_state \<Rightarrow> u32 \<Rightarrow> u32 \<Rightarrow> u32 \<Rightarrow> kv_intent" where
  "intent_of st t a b = \<lparr>in_state = intent_state_code st, in_target_id = t,
     in_affected_id_1 = a, in_affected_id_2 = b\<rparr>"

text \<open>The contents an interrupted insertion or update of \<open>e\<close> under \<open>c\<close> can leave.\<close>

definition inserting :: "kv_abs \<Rightarrow> u32 \<Rightarrow> kv_entry \<Rightarrow> kv_abs" where
  "inserting A c e = A\<lparr>ka_int := Some (intent_of INTENT_INSERTING c (ka_tail A) NULL_ID)\<rparr>"

definition with_new :: "kv_abs \<Rightarrow> u32 \<Rightarrow> kv_entry \<Rightarrow> kv_abs" where
  "with_new A c e = (inserting A c e)\<lparr>ka_ent := (ka_ent A)(c \<mapsto> e)\<rparr>"

definition with_tail :: "kv_abs \<Rightarrow> u32 \<Rightarrow> kv_entry \<Rightarrow> kv_abs" where
  "with_tail A c e = (inserting A c e)\<lparr>ka_ent := relink (ka_tail A) NULL_ID c NULL_ID ((ka_ent A)(c \<mapsto> e))\<rparr>"

definition appended :: "kv_abs \<Rightarrow> u32 \<Rightarrow> kv_entry \<Rightarrow> kv_abs" where
  "appended A c e = (with_tail A c e)\<lparr>ka_head := (if ka_tail A = NULL_ID then c else ka_head A), ka_tail := c\<rparr>"

definition insert_states :: "kv_abs \<Rightarrow> u32 \<Rightarrow> kv_entry \<Rightarrow> kv_abs \<Rightarrow> bool" where
  "insert_states A c e B \<longleftrightarrow>
     B \<in> {A, inserting A c e, with_new A c e, with_tail A c e, appended A c e}"

definition update_states :: "kv_abs \<Rightarrow> u32 \<Rightarrow> kv_entry \<Rightarrow> kv_abs \<Rightarrow> bool" where
  "update_states A c e B \<longleftrightarrow>
     (\<exists>i. B = A \<or> B = A\<lparr>ka_int := Some i\<rparr> \<and> in_state i = intent_state_code INTENT_UPDATING
        \<or> B = A\<lparr>ka_int := Some i, ka_ent := (ka_ent A)(c \<mapsto> e)\<rparr> \<and> in_state i = intent_state_code INTENT_UPDATING)"

lemmas insert_state_defs = insert_states_def inserting_def with_new_def with_tail_def appended_def

definition new_entry :: "kv_key \<Rightarrow> byte list \<Rightarrow> u32 \<Rightarrow> u32 \<Rightarrow> kv_entry" where
  "new_entry k v n p = \<lparr>e_ns = fst k, e_key = snd k, e_val = v, e_next = n, e_prev = p\<rparr>"

lemma new_entry_simps [simp]:
  "e_ns (new_entry k v n p) = fst k" "e_key (new_entry k v n p) = snd k"
  "e_val (new_entry k v n p) = v" "e_next (new_entry k v n p) = n" "e_prev (new_entry k v n p) = p"
  by (simp_all add: new_entry_def)

lemma entry_kv_new [simp]: "entry_kv (new_entry k v n p) = (k, v)"
  by (simp add: entry_kv_def)

lemma appended_good:
  assumes "stored Z A ids" and "usable c" and "ka_ent A c = None"
    and "k \<notin> ran (keys_of (ka_ent A))"
    and "\<forall>j. usable j \<longrightarrow> dist (home_of Z k) j < dist (home_of Z k) c \<longrightarrow> ka_ent A j \<noteq> None"
  shows "kv_good Z (AList.update k v (pairs_of (ka_ent A) ids)) (ka_rest A)
    (appended A c (new_entry k v NULL_ID (ka_tail A)))"
proof -
  let ?e = "new_entry k v NULL_ID (ka_tail A)"
  let ?B = "appended A c ?e"
  note d = storedD [OF assms(1)]
  have l: "linked (ka_ent ?B) (ka_head ?B) (ka_tail ?B) (ids @ [c])"
    using linked_append [OF d(1) assms(2,3), of ?e] by (simp add: insert_state_defs)
  have "keys_of (ka_ent ?B) = (keys_of (ka_ent A))(c \<mapsto> k)"
    by (simp add: insert_state_defs)
  then have "stored Z ?B (ids @ [c])"
    using l unique_keys_insert [OF d(2) assms(4)] code_hash.probed_insert [OF d(3) assms(2), of k]
      assms(5) by (simp add: stored_def)
  moreover have "pairs_of (ka_ent ?B) (ids @ [c]) = pairs_of (ka_ent A) ids @ [(k, v)]"
  proof -
    have c: "c \<notin> set ids" using assms(3) d(5) by (auto simp: domIff)
    have "ka_ent ?B = relink (ka_tail A) NULL_ID c NULL_ID ((ka_ent A)(c \<mapsto> ?e))"
      by (simp add: insert_state_defs)
    moreover have "set (ids @ [c]) \<subseteq> dom ((ka_ent A)(c \<mapsto> ?e))"
      using d(5) by auto
    ultimately have "pairs_of (ka_ent ?B) (ids @ [c]) = pairs_of ((ka_ent A)(c \<mapsto> ?e)) (ids @ [c])"
      by (simp only: pairs_of_relink)
    then show ?thesis using pairs_of_other [OF c, of "ka_ent A"] by simp
  qed
  moreover have "AList.update k v (pairs_of (ka_ent A) ids) = pairs_of (ka_ent A) ids @ [(k, v)]"
    using d(5) by (intro alist_update_absent map_of_pairs_None assms(4)) auto
  ultimately show ?thesis by (auto simp: kv_good_def insert_state_defs)
qed

lemma updated_good:
  assumes "stored Z A ids" and "ka_ent A i = Some e" and "k = (e_ns e, e_key e)"
  shows "kv_good Z (AList.update k v (pairs_of (ka_ent A) ids)) (ka_rest A)
    (A\<lparr>ka_ent := (ka_ent A)(i \<mapsto> new_entry k v (e_next e) (e_prev e))\<rparr>)"
proof -
  let ?e = "new_entry k v (e_next e) (e_prev e)"
  note d = storedD [OF assms(1)]
  from d(1) assms(2) obtain xs ys where ids: "ids = xs @ i # ys" by (rule linked_split)
  have n: "i \<notin> set xs" "i \<notin> set ys" using d(6) ids by auto
  have l: "linked ((ka_ent A)(i \<mapsto> ?e)) (ka_head A) (ka_tail A) ids"
    by (rule linked_update [OF d(1) assms(2)]) simp_all
  have "keys_of ((ka_ent A)(i \<mapsto> ?e)) = keys_of (ka_ent A)"
    using assms(2,3) by (auto simp: keys_of_def)
  then have "stored Z (A\<lparr>ka_ent := (ka_ent A)(i \<mapsto> ?e)\<rparr>) ids"
    using l d(2,3) by (simp add: stored_def)
  moreover have "pairs_of ((ka_ent A)(i \<mapsto> ?e)) ids = AList.update k v (pairs_of (ka_ent A) ids)"
    using pairs_of_other [OF n(1)] pairs_of_other [OF n(2)] assms(2,3)
      alist_update_present [OF pairs_around(1) [OF d(1) [unfolded ids] d(2) assms(2)]]
    by (simp add: ids entry_kv_def)
  ultimately show ?thesis by (auto simp: kv_good_def)
qed

context zms_store begin

lemma new_header:
  assumes "valid_name ns" and "valid_name key"
  shows "\<lparr>eh_fixed = \<lparr>hf_namespace_len = of_nat (strlen ns), hf_key_len = of_nat (strlen key),
      hf_next_id = n, hf_prev_id = p\<rparr>, eh_namespace = ns, eh_key = key\<rparr>
    = entry_header_of (new_entry (ns, key) v n p)"
  using assms valid_nameD(1) by (simp add: entry_header_of_def entry_fixed_def)

lemma serialize_cases:
  assumes "valid_entry e"
  obtains (ok) "serialize_entry Z s (entry_header_of e) (e_val e) = Some (kv_image e)"
    | (oom) "serialize_entry Z s (entry_header_of e) (e_val e) = None" "\<not> reliable_store Z C"
proof (cases "serialize_entry Z s (entry_header_of e) (e_val e)")
  case None
  then have "\<exists>n. \<not> k_heap Z s n"
    by (auto simp: serialize_entry_def Let_def FIXED_HEADER_BYTES_def split: if_splits)
  then show thesis using None oom not_reliable_heap by blast
next
  case (Some raw)
  then show thesis using ok serialize_entry_image [OF assms Some] by blast
qed

lemma runs_update_list_tail:
  assumes "rep C s (with_new A c e)" and "stored Z A ids" and "ka_ent A c = None" "usable c"
  shows "runs Z C (update_list_tail Z c s) (insert_states A c e) (\<lambda>B. B = appended A c e)"
proof -
  note d = storedD [OF assms(2)]
  have ht: "read_head_and_tail_ids Z s = Inr (ka_head A, ka_tail A)"
    using read_head_tail [OF assms(1)] by (simp add: insert_state_defs)
  show ?thesis
  proof (cases "ka_tail A = NULL_ID")
    case True
    have "runs Z C (write_head_and_tail_ids Z c c s) (insert_states A c e) (\<lambda>B. B = appended A c e)"
      by (rule runs_head_tail [OF assms(1)]) (simp_all add: insert_state_defs True relink_def)
    then show ?thesis by (simp add: update_list_tail_def ht True)
  next
    case False
    have "ka_tail A \<in> dom (ka_ent A)"
      using False d(1) last_id_in [of ids NULL_ID] unfolding linked_def by (cases "ids = []") simp_all
    then have dm: "ka_tail A \<in> dom (ka_ent (with_new A c e))"
      by (simp add: insert_state_defs)
    have "runs Z C (update_next_id Z (ka_tail A) c s) (insert_states A c e) (\<lambda>B. B = with_tail A c e)"
      by (rule runs_next [OF assms(1) dm]) (simp_all add: insert_state_defs False relink_def)
    then have "runs Z C (and_then (update_next_id Z (ka_tail A) c s)
        (\<lambda>s. write_head_and_tail_ids Z (ka_head A) c s)) (insert_states A c e) (\<lambda>B. B = appended A c e)"
    proof (rule runs_and_then)
      fix s' B assume "rep C s' B" "B = with_tail A c e"
      then show "runs Z C (write_head_and_tail_ids Z (ka_head A) c s') (insert_states A c e)
          (\<lambda>B. B = appended A c e)"
        by (intro runs_head_tail [where A = B]) (simp_all add: insert_state_defs False)
    qed
    then show ?thesis by (simp add: update_list_tail_def ht False)
  qed
qed

lemma entry_write_new:
  fixes val :: "byte list"
  assumes rep: "rep C s A" and st: "stored Z A ids" and v: "valid_name ns" "valid_name key"
    and c: "usable c" "ka_ent A c = None"
  defines "e \<equiv> new_entry (ns, key) val NULL_ID (ka_tail A)"
  shows "runs Z C (entry_write Z c ns key val s) (insert_states A c e) (\<lambda>B. B = cleared (appended A c e))"
proof -
  have ve: "valid_entry e" using v by (simp add: e_def valid_entry_def)
  have np: "compute_next_and_prev_ids Z s c = (ASTARTE_RESULT_NOT_FOUND, NULL_ID, ka_tail A)"
    using header_fixed_None [OF rep c] read_head_tail [OF rep] by (simp add: compute_next_and_prev_ids_def)
  have hd: "\<lparr>eh_fixed = \<lparr>hf_namespace_len = of_nat (strlen ns), hf_key_len = of_nat (strlen key),
      hf_next_id = NULL_ID, hf_prev_id = ka_tail A\<rparr>, eh_namespace = ns, eh_key = key\<rparr>
    = entry_header_of e" "val = e_val e"
    by (simp_all add: e_def new_header [OF v])
  from ve
  show ?thesis
  proof (cases rule: serialize_cases [where s = s])
    case oom
    then show ?thesis
      using rep by (simp add: entry_write_def np hd Let_def runs_fail insert_states_def)
  next
    case ok
    have "runs Z C (and_then (entry_intent_write Z INTENT_INSERTING c (ka_tail A) NULL_ID s)
      (\<lambda>s. and_then (rc_check ASTARTE_RESULT_ZMS_ERROR (zms_write Z s c (kv_image e)))
      (\<lambda>s. and_then (update_list_tail Z c s) (\<lambda>s. entry_intent_clear Z s))))
      (insert_states A c e) (\<lambda>B. B = cleared (appended A c e))"
    proof (rule runs_and_then)
      show "runs Z C (entry_intent_write Z INTENT_INSERTING c (ka_tail A) NULL_ID s)
          (insert_states A c e) (\<lambda>B. B = inserting A c e)"
        by (rule runs_intent [OF rep]) (simp_all add: insert_state_defs intent_of_def)
    next
      fix s B assume r: "rep C s B" "B = inserting A c e"
      show "runs Z C (and_then (rc_check ASTARTE_RESULT_ZMS_ERROR (zms_write Z s c (kv_image e)))
        (\<lambda>s. and_then (update_list_tail Z c s) (\<lambda>s. entry_intent_clear Z s)))
        (insert_states A c e) (\<lambda>B. B = cleared (appended A c e))"
      proof (rule runs_and_then)
        show "runs Z C (rc_check ASTARTE_RESULT_ZMS_ERROR (zms_write Z s c (kv_image e)))
            (insert_states A c e) (\<lambda>B. B = with_new A c e)"
          using r by (intro runs_entry [OF c(1) ve r(1)]) (simp_all add: insert_state_defs)
      next
        fix s B assume r: "rep C s B" "B = with_new A c e"
        show "runs Z C (and_then (update_list_tail Z c s) (\<lambda>s. entry_intent_clear Z s))
            (insert_states A c e) (\<lambda>B. B = cleared (appended A c e))"
        proof (rule runs_and_then)
          show "runs Z C (update_list_tail Z c s) (insert_states A c e) (\<lambda>B. B = appended A c e)"
            using r st c by (intro runs_update_list_tail) simp_all
        qed (auto intro!: runs_clear simp: insert_states_def)
      qed
    qed
    then show ?thesis by (simp add: entry_write_def np hd ok Let_def)
  qed
qed

lemma entry_write_old:
  fixes val :: "byte list"
  assumes rep: "rep C s A" and v: "valid_name ns" "valid_name key"
    and old: "ka_ent A c = Some e0"
  defines "e \<equiv> new_entry (ns, key) val (e_next e0) (e_prev e0)"
  shows "runs Z C (entry_write Z c ns key val s) (update_states A c e)
    (\<lambda>B. B = cleared (A\<lparr>ka_ent := (ka_ent A)(c \<mapsto> e)\<rparr>))"
proof -
  have ve: "valid_entry e" using v by (simp add: e_def valid_entry_def)
  have c: "usable c" using rep old by (rule repD)
  have np: "compute_next_and_prev_ids Z s c = (ASTARTE_RESULT_OK, e_next e0, e_prev e0)"
    using header_fixed_Some [OF rep old] by (simp add: compute_next_and_prev_ids_def entry_fixed_def)
  have hd: "\<lparr>eh_fixed = \<lparr>hf_namespace_len = of_nat (strlen ns), hf_key_len = of_nat (strlen key),
      hf_next_id = e_next e0, hf_prev_id = e_prev e0\<rparr>, eh_namespace = ns, eh_key = key\<rparr>
    = entry_header_of e" "val = e_val e"
    by (simp_all add: e_def new_header [OF v])
  let ?I = "intent_of INTENT_UPDATING c (e_prev e0) (e_next e0)"
  from ve
  show ?thesis
  proof (cases rule: serialize_cases [where s = s])
    case oom
    then show ?thesis
      using rep by (simp add: entry_write_def np hd Let_def runs_fail update_states_def)
  next
    case ok
    have "runs Z C (and_then (entry_intent_write Z INTENT_UPDATING c (e_prev e0) (e_next e0) s)
      (\<lambda>s. and_then (rc_check ASTARTE_RESULT_ZMS_ERROR (zms_write Z s c (kv_image e)))
      (\<lambda>s. entry_intent_clear Z s)))
      (update_states A c e) (\<lambda>B. B = cleared (A\<lparr>ka_ent := (ka_ent A)(c \<mapsto> e)\<rparr>))"
    proof (rule runs_and_then)
      show "runs Z C (entry_intent_write Z INTENT_UPDATING c (e_prev e0) (e_next e0) s)
          (update_states A c e) (\<lambda>B. B = A\<lparr>ka_int := Some ?I\<rparr>)"
        by (rule runs_intent [OF rep]) (simp_all add: update_states_def intent_of_def)
    next
      fix s B assume r: "rep C s B" "B = A\<lparr>ka_int := Some ?I\<rparr>"
      show "runs Z C (and_then (rc_check ASTARTE_RESULT_ZMS_ERROR (zms_write Z s c (kv_image e)))
        (\<lambda>s. entry_intent_clear Z s))
        (update_states A c e) (\<lambda>B. B = cleared (A\<lparr>ka_ent := (ka_ent A)(c \<mapsto> e)\<rparr>))"
      proof (rule runs_and_then)
        show "runs Z C (rc_check ASTARTE_RESULT_ZMS_ERROR (zms_write Z s c (kv_image e)))
            (update_states A c e) (\<lambda>B. B = A\<lparr>ka_int := Some ?I, ka_ent := (ka_ent A)(c \<mapsto> e)\<rparr>)"
          using r by (intro runs_entry [OF c ve r(1)]) (auto simp: update_states_def intent_of_def)
      next
        fix s B assume r: "rep C s B" "B = A\<lparr>ka_int := Some ?I, ka_ent := (ka_ent A)(c \<mapsto> e)\<rparr>"
        show "runs Z C (entry_intent_clear Z s) (update_states A c e)
            (\<lambda>B. B = cleared (A\<lparr>ka_ent := (ka_ent A)(c \<mapsto> e)\<rparr>))"
          by (rule runs_clear [OF r(1)]) (use r(2) in \<open>auto simp: update_states_def cleared_def intent_of_def\<close>)
      qed
    qed
    then show ?thesis by (simp add: entry_write_def np hd ok Let_def)
  qed
qed

end

end
