(* ===== verification/KV_Delete.thy ===== *)
theory KV_Delete
  imports KV_Insert
begin

text \<open>
  Deletion: unlinking, and the backward shift that closes the gap in the probe paths.  The shift
  ends because every entry it moves gets closer to its natural ID, and its result is again a
  store without gaps that holds the same pairs in the same order.
\<close>

text \<open>No pair of \<open>al\<close> is lost, and the rest of the partition is untouched.\<close>

definition kept :: "(kv_key \<times> byte list) list \<Rightarrow> (u32 \<rightharpoonup> byte list) \<Rightarrow> kv_abs \<Rightarrow> bool" where
  "kept al R A \<longleftrightarrow> set al \<subseteq> ran (\<lambda>i. map_option entry_kv (ka_ent A i)) \<and> ka_rest A = R"

lemma kept_int [simp]: "kept al R (A\<lparr>ka_int := x\<rparr>) = kept al R A"
  by (simp add: kept_def)

lemma kept_cleared [simp]: "kept al R (cleared A) = kept al R A"
  by (simp add: cleared_def)

lemma kept_ends [simp]: "kept al R (A\<lparr>ka_head := h\<rparr>) = kept al R A" "kept al R (A\<lparr>ka_tail := h\<rparr>) = kept al R A"
  by (simp_all add: kept_def)

lemma kv_set_next: "map_option entry_kv (set_next ent p x i) = map_option entry_kv (ent i)"
  by (cases "ent i") (auto simp: set_next_apply)

lemma kv_set_prev: "map_option entry_kv (set_prev ent p x i) = map_option entry_kv (ent i)"
  by (cases "ent i") (auto simp: set_prev_apply)

lemmas kv_links = relink_kv kv_set_next kv_set_prev

lemma kept_ent:
  "ka_rest A = R \<Longrightarrow> (\<And>i. map_option entry_kv (ent i) = map_option entry_kv (ka_ent A i)) \<Longrightarrow>
   kept al R (A\<lparr>ka_ent := ent\<rparr>) = kept al R A"
  by (simp add: kept_def)

lemma kept_pairs:
  assumes "set ids \<subseteq> dom (ka_ent A)"
  shows "kept (pairs_of (ka_ent A) ids) (ka_rest A) A"
proof -
  have "map_option entry_kv (ka_ent A i) = Some (entry_kv (the (ka_ent A i)))" if "i \<in> set ids" for i
    using that assms by auto
  then have "set (pairs_of (ka_ent A) ids) \<subseteq> ran (\<lambda>i. map_option entry_kv (ka_ent A i))"
    unfolding pairs_of_def by (auto intro!: ranI simp: image_subset_iff simp del: split_paired_All)
  then show ?thesis by (simp add: kept_def)
qed

lemma kept_subset: "kept al R A \<Longrightarrow> set al' \<subseteq> set al \<Longrightarrow> kept al' R A"
  by (auto simp: kept_def)

section \<open>Conditional steps\<close>

lemma runs_when:
  "rep C s A \<Longrightarrow> (b \<Longrightarrow> runs Z C p S P) \<Longrightarrow> (\<not> b \<Longrightarrow> P A) \<Longrightarrow>
   runs Z C (if b then p else (ASTARTE_RESULT_OK, s)) S P"
  by auto

section \<open>Unlinking\<close>

definition deleting :: "kv_abs \<Rightarrow> u32 \<Rightarrow> kv_entry \<Rightarrow> kv_abs" where
  "deleting A i e = A\<lparr>ka_int := Some (intent_of INTENT_DELETING i (e_prev e) (e_next e))\<rparr>"

definition bypass1 :: "kv_abs \<Rightarrow> u32 \<Rightarrow> kv_entry \<Rightarrow> kv_abs" where
  "bypass1 A i e = (deleting A i e)\<lparr>ka_ent :=
     (if e_prev e \<noteq> NULL_ID then set_next (ka_ent A) (e_prev e) (e_next e) else ka_ent A)\<rparr>"

definition bypass2 :: "kv_abs \<Rightarrow> u32 \<Rightarrow> kv_entry \<Rightarrow> kv_abs" where
  "bypass2 A i e = (deleting A i e)\<lparr>ka_ent := relink (e_prev e) (e_next e) (e_next e) (e_prev e) (ka_ent A)\<rparr>"

definition bypassed :: "kv_abs \<Rightarrow> u32 \<Rightarrow> kv_entry \<Rightarrow> kv_abs" where
  "bypassed A i e = (bypass2 A i e)
     \<lparr>ka_head := (if e_prev e = NULL_ID then e_next e else ka_head A),
      ka_tail := (if e_next e = NULL_ID then e_prev e else ka_tail A)\<rparr>"

definition unlinked :: "kv_abs \<Rightarrow> u32 \<Rightarrow> kv_entry \<Rightarrow> kv_abs" where
  "unlinked A i e = (bypassed A i e)\<lparr>ka_ent := (ka_ent (bypassed A i e))(i := None)\<rparr>"

lemmas delete_state_defs = deleting_def bypass1_def bypass2_def bypassed_def unlinked_def

definition unlink_states :: "kv_abs \<Rightarrow> u32 \<Rightarrow> kv_entry \<Rightarrow> kv_abs \<Rightarrow> bool" where
  "unlink_states A i e B \<longleftrightarrow> B \<in> {A, deleting A i e, bypass1 A i e, bypass2 A i e, bypassed A i e, unlinked A i e}"

lemma unlinked_rest: "ka_rest (unlinked A i e) = ka_rest A"
  by (simp add: delete_state_defs)

lemma unlinked_stored:
  assumes "stored Z A ids" and "ka_ent A i = Some e"
  shows "\<exists>ids'. linked (ka_ent (unlinked A i e)) (ka_head (unlinked A i e)) (ka_tail (unlinked A i e)) ids'
    \<and> pairs_of (ka_ent (unlinked A i e)) ids' = AList.delete (e_ns e, e_key e) (pairs_of (ka_ent A) ids)"
    "unique_keys (keys_of (ka_ent (unlinked A i e)))"
    "hole_inv (home_of Z) (keys_of (ka_ent (unlinked A i e))) i 1"
proof -
  note d = storedD [OF assms(1)]
  have u: "usable i" using d(4) assms(2) by auto
  have K: "keys_of (ka_ent (unlinked A i e)) = (keys_of (ka_ent A))(i := None)"
    by (simp add: delete_state_defs)
  show "unique_keys (keys_of (ka_ent (unlinked A i e)))"
    unfolding K by (rule unique_keys_remove [OF d(2)])
  show "hole_inv (home_of Z) (keys_of (ka_ent (unlinked A i e))) i 1"
    unfolding K by (rule code_hash.hole_start [OF d(3) u])
  let ?r = "relink (e_prev e) (e_next e) (e_next e) (e_prev e) (ka_ent A)"
  from linked_unlink [OF d(1) assms(2)] obtain xs ys where ids: "ids = xs @ i # ys"
    and l: "linked (?r(i := None)) (if e_prev e = NULL_ID then e_next e else ka_head A)
      (if e_next e = NULL_ID then e_prev e else ka_tail A) (xs @ ys)" by blast
  have n: "i \<notin> set xs" "i \<notin> set ys" using d(6) ids by auto
  have "pairs_of (?r(i := None)) (xs @ ys) = pairs_of (ka_ent A) xs @ pairs_of (ka_ent A) ys"
  proof -
    have x: "set xs \<subseteq> dom (ka_ent A)" and y: "set ys \<subseteq> dom (ka_ent A)" using d(5) ids by auto
    show ?thesis
      by (simp only: pairs_of_append pairs_of_other [OF n(1)] pairs_of_other [OF n(2)]
          pairs_of_relink [OF x] pairs_of_relink [OF y])
  qed
  also have "\<dots> = AList.delete (e_ns e, e_key e) (pairs_of (ka_ent A) ids)"
    using alist_delete_present [OF pairs_around [OF d(1) [unfolded ids] d(2) assms(2)]] assms(2)
    by (simp add: ids entry_kv_def)
  finally show "\<exists>ids'. linked (ka_ent (unlinked A i e)) (ka_head (unlinked A i e)) (ka_tail (unlinked A i e)) ids'
    \<and> pairs_of (ka_ent (unlinked A i e)) ids' = AList.delete (e_ns e, e_key e) (pairs_of (ka_ent A) ids)"
    using l by (auto simp: delete_state_defs)
qed

context zms_store begin

lemma runs_unlink:
  assumes rep: "rep C s A" and st: "stored Z A ids" and e: "ka_ent A i = Some e"
  shows "runs Z C (delete_and_unlink_single_entry Z i s) (unlink_states A i e) (\<lambda>B. B = unlinked A i e)"
proof -
  note d = storedD [OF st] and nb = linked_neighbours [OF storedD(1) [OF st] e]
  let ?p = "e_prev e" and ?n = "e_next e" and ?S = "unlink_states A i e"
  have u: "usable i" using d(4) e by auto
  have f: "entry_header_read_fixed Z s i = Inr (entry_fixed e, length (kv_image e))"
    "hf_next_id (entry_fixed e) = ?n" "hf_prev_id (entry_fixed e) = ?p"
    using header_fixed_Some [OF rep e] by (simp_all add: entry_fixed_def)
  have last: "runs Z C (rc_check ASTARTE_RESULT_ZMS_ERROR (zms_delete Z s i)) ?S (\<lambda>B. B = unlinked A i e)"
    if "rep C s B" "B = bypassed A i e" for s B
    using that by (intro runs_delete [OF u that(1)]) (simp_all add: unlink_states_def unlinked_def)
  have ends: "runs Z C (and_then (if ?p = NULL_ID \<or> ?n = NULL_ID
         then write_head_and_tail_ids Z (if ?p = NULL_ID then ?n else ka_head A)
           (if ?n = NULL_ID then ?p else ka_tail A) s
         else (ASTARTE_RESULT_OK, s)) (\<lambda>s.
       rc_check ASTARTE_RESULT_ZMS_ERROR (zms_delete Z s i))) ?S (\<lambda>B. B = unlinked A i e)"
    if r: "rep C s B" "B = bypass2 A i e" for s B
  proof (rule runs_and_then [OF runs_when [OF r(1)] last])
    show "runs Z C (write_head_and_tail_ids Z (if ?p = NULL_ID then ?n else ka_head A)
           (if ?n = NULL_ID then ?p else ka_tail A) s) ?S (\<lambda>B. B = bypassed A i e)"
      using r(2) by (intro runs_head_tail [OF r(1)]) (simp_all add: unlink_states_def bypassed_def)
    show "\<not> (?p = NULL_ID \<or> ?n = NULL_ID) \<Longrightarrow> B = bypassed A i e"
      using r(2) by (simp add: bypassed_def bypass2_def deleting_def)
  qed
  have prv: "runs Z C (and_then (if ?n \<noteq> NULL_ID then update_prev_id Z ?n ?p s
         else (ASTARTE_RESULT_OK, s)) (\<lambda>s.
       and_then (if ?p = NULL_ID \<or> ?n = NULL_ID
         then write_head_and_tail_ids Z (if ?p = NULL_ID then ?n else ka_head A)
           (if ?n = NULL_ID then ?p else ka_tail A) s
         else (ASTARTE_RESULT_OK, s)) (\<lambda>s.
       rc_check ASTARTE_RESULT_ZMS_ERROR (zms_delete Z s i)))) ?S (\<lambda>B. B = unlinked A i e)"
    if r: "rep C s B" "B = bypass1 A i e" for s B
  proof (rule runs_and_then [OF runs_when [OF r(1)] ends])
    show "runs Z C (update_prev_id Z ?n ?p s) ?S (\<lambda>B. B = bypass2 A i e)" if "?n \<noteq> NULL_ID"
      using r(2) that nb(2) by (intro runs_prev [OF r(1)])
        (auto simp: unlink_states_def bypass1_def bypass2_def relink_def deleting_def)
    show "\<not> ?n \<noteq> NULL_ID \<Longrightarrow> B = bypass2 A i e"
      using r(2) by (simp add: bypass1_def bypass2_def relink_def)
  qed
  have nxt: "runs Z C (and_then (if ?p \<noteq> NULL_ID then update_next_id Z ?p ?n s
         else (ASTARTE_RESULT_OK, s)) (\<lambda>s.
       and_then (if ?n \<noteq> NULL_ID then update_prev_id Z ?n ?p s
         else (ASTARTE_RESULT_OK, s)) (\<lambda>s.
       and_then (if ?p = NULL_ID \<or> ?n = NULL_ID
         then write_head_and_tail_ids Z (if ?p = NULL_ID then ?n else ka_head A)
           (if ?n = NULL_ID then ?p else ka_tail A) s
         else (ASTARTE_RESULT_OK, s)) (\<lambda>s.
       rc_check ASTARTE_RESULT_ZMS_ERROR (zms_delete Z s i))))) ?S (\<lambda>B. B = unlinked A i e)"
    if r: "rep C s B" "B = deleting A i e" for s B
  proof (rule runs_and_then [OF runs_when [OF r(1)] prv])
    show "runs Z C (update_next_id Z ?p ?n s) ?S (\<lambda>B. B = bypass1 A i e)" if "?p \<noteq> NULL_ID"
      using r(2) that nb(1) by (intro runs_next [OF r(1)])
        (auto simp: unlink_states_def bypass1_def deleting_def)
    show "\<not> ?p \<noteq> NULL_ID \<Longrightarrow> B = bypass1 A i e"
      using r(2) by (simp add: bypass1_def deleting_def)
  qed
  show ?thesis
    unfolding delete_and_unlink_single_entry_def f Let_def try_res_simps prod.case
  proof (rule runs_and_then)
    show "runs Z C (entry_intent_write Z INTENT_DELETING i ?p ?n s) ?S (\<lambda>B. B = deleting A i e)"
      by (rule runs_intent [OF rep]) (simp_all add: unlink_states_def deleting_def intent_of_def)
    fix s B assume r: "rep C s B" "B = deleting A i e"
    have ht: "read_head_and_tail_ids Z s = Inr (ka_head A, ka_tail A)"
      using read_head_tail [OF r(1)] r(2) by (simp add: deleting_def)
    show "runs Z C (try_res (read_head_and_tail_ids Z s) s (\<lambda>(head_id, tail_id).
       and_then (if ?p \<noteq> NULL_ID then update_next_id Z ?p ?n s
         else (ASTARTE_RESULT_OK, s)) (\<lambda>s.
       and_then (if ?n \<noteq> NULL_ID then update_prev_id Z ?n ?p s
         else (ASTARTE_RESULT_OK, s)) (\<lambda>s.
       and_then (if ?p = NULL_ID \<or> ?n = NULL_ID
         then write_head_and_tail_ids Z (if ?p = NULL_ID then ?n else head_id)
           (if ?n = NULL_ID then ?p else tail_id) s
         else (ASTARTE_RESULT_OK, s)) (\<lambda>s.
       rc_check ASTARTE_RESULT_ZMS_ERROR (zms_delete Z s i)))))) ?S (\<lambda>B. B = unlinked A i e)"
      unfolding ht try_res_simps prod.case using r by (rule nxt)
  qed
qed

end

section \<open>One step of the shift\<close>

text \<open>\<open>e\<close> was moved from \<open>c\<close> to \<open>j\<close>.\<close>

definition copied :: "kv_abs \<Rightarrow> u32 \<Rightarrow> kv_entry \<Rightarrow> kv_abs" where
  "copied A j e = A\<lparr>ka_ent := (ka_ent A)(j \<mapsto> e)\<rparr>"

definition move1 :: "kv_abs \<Rightarrow> u32 \<Rightarrow> kv_entry \<Rightarrow> kv_abs" where
  "move1 A j e = A\<lparr>ka_ent := (if e_prev e \<noteq> NULL_ID then set_next ((ka_ent A)(j \<mapsto> e)) (e_prev e) j
       else (ka_ent A)(j \<mapsto> e)),
     ka_head := (if e_prev e = NULL_ID then j else ka_head A)\<rparr>"

definition move2 :: "kv_abs \<Rightarrow> u32 \<Rightarrow> kv_entry \<Rightarrow> kv_abs" where
  "move2 A j e = A\<lparr>ka_ent := relink (e_prev e) (e_next e) j j ((ka_ent A)(j \<mapsto> e)),
     ka_head := (if e_prev e = NULL_ID then j else ka_head A),
     ka_tail := (if e_next e = NULL_ID then j else ka_tail A)\<rparr>"

definition shifted :: "kv_abs \<Rightarrow> u32 \<Rightarrow> u32 \<Rightarrow> kv_entry \<Rightarrow> kv_abs" where
  "shifted A c j e = (move2 A j e)\<lparr>ka_ent := (ka_ent (move2 A j e))(c := None)\<rparr>"

lemmas shift_state_defs = copied_def move1_def move2_def shifted_def

lemma shifted_simps:
  "ka_ent (shifted A c j e) = (relink (e_prev e) (e_next e) j j ((ka_ent A)(j \<mapsto> e)))(c := None)"
  "ka_head (shifted A c j e) = (if e_prev e = NULL_ID then j else ka_head A)"
  "ka_tail (shifted A c j e) = (if e_next e = NULL_ID then j else ka_tail A)"
  "ka_rest (shifted A c j e) = ka_rest A"
  by (simp_all add: shift_state_defs)

lemma kept_copied:
  assumes "kept al R A" and "ka_ent A j = None"
  shows "kept al R (copied A j e)"
proof -
  have "ran (\<lambda>i. map_option entry_kv (ka_ent A i)) \<subseteq> ran (\<lambda>i. map_option entry_kv (ka_ent (copied A j e) i))"
  proof
    fix x assume "x \<in> ran (\<lambda>i. map_option entry_kv (ka_ent A i))"
    then obtain i where i: "map_option entry_kv (ka_ent A i) = Some x" by (auto simp: ran_def)
    then have "map_option entry_kv (ka_ent (copied A j e) i) = Some x"
      using assms(2) by (auto simp: copied_def)
    then show "x \<in> ran (\<lambda>i. map_option entry_kv (ka_ent (copied A j e) i))" by (rule ranI)
  qed
  then show ?thesis using assms(1) by (auto simp: kept_def copied_def)
qed

lemma kept_moved:
  assumes "kept al R A" and "ka_ent A j = None"
  shows "kept al R (move1 A j e)" "kept al R (move2 A j e)"
  using kept_copied [OF assms, of e] unfolding kept_def copied_def move1_def move2_def
  by (simp_all add: kv_links)

lemma shifted_ok:
  assumes "linked (ka_ent A) (ka_head A) (ka_tail A) ids" and "ka_ent A c = Some e"
    and "usable j" and "ka_ent A j = None"
  shows "\<exists>ids'. linked (ka_ent (shifted A c j e)) (ka_head (shifted A c j e)) (ka_tail (shifted A c j e)) ids'
    \<and> pairs_of (ka_ent (shifted A c j e)) ids' = pairs_of (ka_ent A) ids"
    "keys_of (ka_ent (shifted A c j e)) = (keys_of (ka_ent A))(j \<mapsto> (e_ns e, e_key e), c := None)"
proof -
  note d = linkedD [OF assms(1)]
  let ?m = "(ka_ent A)(j \<mapsto> e)"
  let ?r = "relink (e_prev e) (e_next e) j j ?m"
  from linked_relocate [OF assms] obtain xs ys where ids: "ids = xs @ c # ys"
    and l: "linked (?r(c := None)) (if e_prev e = NULL_ID then j else ka_head A)
      (if e_next e = NULL_ID then j else ka_tail A) (xs @ j # ys)" by blast
  have n: "c \<notin> set (xs @ j # ys)" "j \<notin> set xs" "j \<notin> set ys"
    using d(1,2) ids assms(2,4) by (auto simp: domIff)
  have dm: "set (xs @ j # ys) \<subseteq> dom ?m" using d(2) ids by auto
  have "pairs_of (?r(c := None)) (xs @ j # ys) = pairs_of ?m (xs @ j # ys)"
    by (simp only: pairs_of_other [OF n(1)] pairs_of_relink [OF dm])
  also have "\<dots> = pairs_of (ka_ent A) ids"
    using n(2,3) assms(2) by (simp add: ids pairs_of_other)
  finally show "\<exists>ids'. linked (ka_ent (shifted A c j e)) (ka_head (shifted A c j e)) (ka_tail (shifted A c j e)) ids'
    \<and> pairs_of (ka_ent (shifted A c j e)) ids' = pairs_of (ka_ent A) ids"
    using l unfolding shifted_simps by blast
  show "keys_of (ka_ent (shifted A c j e)) = (keys_of (ka_ent A))(j \<mapsto> (e_ns e, e_key e), c := None)"
    by (simp add: shift_state_defs)
qed

context zms_store begin

lemma runs_neighbors:
  assumes rep: "rep C s (copied A j e)" and lk: "linked (ka_ent A) (ka_head A) (ka_tail A) ids"
    and e: "ka_ent A c = Some e" and j: "usable j" "ka_ent A j = None" and k: "kept al R A"
  shows "runs Z C (update_shifted_entry_neighbors Z (entry_header_of e) j s) (kept al R) (\<lambda>B. B = move2 A j e)"
proof -
  note nb = linked_neighbours [OF lk e] and km = kept_copied [OF k j(2), of e] kept_moved [OF k j(2), of e]
  have h: "hf_next_id (eh_fixed (entry_header_of e)) = e_next e"
    "hf_prev_id (eh_fixed (entry_header_of e)) = e_prev e"
    by (simp_all add: entry_header_of_def entry_fixed_def)
  show ?thesis
    unfolding update_shifted_entry_neighbors_def h
  proof (rule runs_and_then [where P = "\<lambda>B. B = move1 A j e"])
    show "runs Z C (if e_prev e \<noteq> NULL_ID then update_next_id Z (e_prev e) j s
        else try_res (read_head_and_tail_ids Z s) s (\<lambda>(head_id, tail_id).
          write_head_and_tail_ids Z j tail_id s)) (kept al R) (\<lambda>B. B = move1 A j e)"
    proof (cases "e_prev e = NULL_ID")
      case True
      then show ?thesis
        using read_head_tail [OF rep] km
        by (auto intro!: runs_head_tail [OF rep] simp: copied_def move1_def)
    next
      case False
      then show ?thesis
        using km nb(1) by (auto intro!: runs_next [OF rep] simp: copied_def move1_def)
    qed
    fix s B assume r: "rep C s B" "B = move1 A j e"
    show "runs Z C (if e_next e \<noteq> NULL_ID then update_prev_id Z (e_next e) j s
        else try_res (read_head_and_tail_ids Z s) s (\<lambda>(head_id, tail_id).
          write_head_and_tail_ids Z head_id j s)) (kept al R) (\<lambda>B. B = move2 A j e)"
    proof (cases "e_next e = NULL_ID")
      case True
      then show ?thesis
        using read_head_tail [OF r(1)] km r(2)
        by (auto intro!: runs_head_tail [OF r(1)] simp: move1_def move2_def relink_def)
    next
      case False
      then show ?thesis
        using km nb(2) r(2)
        by (auto intro!: runs_prev [OF r(1)] simp: move1_def move2_def relink_def set_next_apply)
    qed
  qed
qed

lemma not_le_1: "usable c \<Longrightarrow> \<not> c \<le> 1"
  by (simp add: usable_unat word_le_nat_alt)

lemma shift_back_None:
  "rep C s A \<Longrightarrow> usable c \<Longrightarrow> ka_ent A c = None \<Longrightarrow>
   shift_back_single_entry Z c j s = ((ASTARTE_RESULT_NOT_FOUND, False), s)"
  by (simp add: shift_back_single_entry_def not_le_1 header_None)

lemma shift_back_Some:
  assumes rep: "rep C s A" and lk: "linked (ka_ent A) (ka_head A) (ka_tail A) ids"
    and e: "ka_ent A c = Some e" and j: "usable j" "ka_ent A j = None" and k: "kept al R A"
  defines "closer \<equiv> dist (home_of Z (e_ns e, e_key e)) j < dist (home_of Z (e_ns e, e_key e)) c"
  obtains (shift) p where "closer" "runs Z C p (kept al R) (\<lambda>B. B = shifted A c j e)"
      "shift_back_single_entry Z c j s = ((fst p, fst p = ASTARTE_RESULT_OK), snd p)"
    | (stay) "\<not> closer" "shift_back_single_entry Z c j s = ((ASTARTE_RESULT_OK, False), s)"
    | (oom) "shift_back_single_entry Z c j s = ((ASTARTE_RESULT_OUT_OF_MEMORY, False), s)"
        "\<not> reliable_store Z C"
proof -
  have u: "usable c" and v: "valid_entry e" using rep e by (rule repD)+
  have c: "C s c = Some (kv_image e)" using rep e by (rule repD)
  from rep e show thesis
  proof (cases rule: header_Some)
    case oom
    then show thesis
      by (intro that(3)) (simp_all add: shift_back_single_entry_def not_le_1 [OF u])
  next
    case ok
    show thesis
    proof (cases "k_heap Z s (length (kv_image e))")
      case False
      then show thesis
        using ok not_reliable_heap [OF False]
        by (intro that(3)) (simp_all add: shift_back_single_entry_def not_le_1 [OF u])
    next
      case True
      let ?p = "and_then (rc_check ASTARTE_RESULT_ZMS_ERROR (zms_write Z s j (kv_image e)))
        (\<lambda>s. and_then (update_shifted_entry_neighbors Z (entry_header_of e) j s)
        (\<lambda>s. rc_check ASTARTE_RESULT_ZMS_ERROR (zms_delete Z s c)))"
      have cl: "cyclic_distance (home_of Z (e_ns e, e_key e)) j < cyclic_distance (home_of Z (e_ns e, e_key e)) c
          \<longleftrightarrow> closer"
        using u j unfolding closer_def by (intro cyclic_distance_less) simp_all
      have eq: "shift_back_single_entry Z c j s =
          (if closer then (case ?p of (ares, s) \<Rightarrow> ((ares, ares = ASTARTE_RESULT_OK), s))
           else ((ASTARTE_RESULT_OK, False), s))"
        using ok True c v cl
        by (simp add: shift_back_single_entry_def not_le_1 [OF u] read_Some Let_def home_of_def
            entry_header_of_def)
      show thesis
      proof (cases closer)
        case False
        then show thesis using eq by (intro that(2)) simp_all
      next
        case True
        have "runs Z C ?p (kept al R) (\<lambda>B. B = shifted A c j e)"
        proof (rule runs_and_then)
          show "runs Z C (rc_check ASTARTE_RESULT_ZMS_ERROR (zms_write Z s j (kv_image e))) (kept al R)
              (\<lambda>B. B = copied A j e)"
            using k by (intro runs_entry [OF j(1) v rep]) (simp_all add: copied_def)
          fix s B assume r: "rep C s B" "B = copied A j e"
          show "runs Z C (and_then (update_shifted_entry_neighbors Z (entry_header_of e) j s)
              (\<lambda>s. rc_check ASTARTE_RESULT_ZMS_ERROR (zms_delete Z s c))) (kept al R)
              (\<lambda>B. B = shifted A c j e)"
          proof (rule runs_and_then)
            show "runs Z C (update_shifted_entry_neighbors Z (entry_header_of e) j s) (kept al R)
                (\<lambda>B. B = move2 A j e)"
              using r lk e j k by (intro runs_neighbors) simp_all
            fix s B assume r: "rep C s B" "B = move2 A j e"
            show "runs Z C (rc_check ASTARTE_RESULT_ZMS_ERROR (zms_delete Z s c)) (kept al R)
                (\<lambda>B. B = shifted A c j e)"
              using r(2) kept_moved(2) [OF k j(2)]
              by (intro runs_delete [OF u r(1)]) (simp_all add: shifted_def)
          qed
        qed
        then show thesis using True eq by (intro that(1) [where p = ?p]) (simp_all add: case_prod_beta)
      qed
    qed
  qed
qed

end

section \<open>The shift\<close>

definition runs_opt ::
    "'s kv_env \<Rightarrow> ('s \<Rightarrow> u32 \<rightharpoonup> byte list) \<Rightarrow> (astarte_result_t \<times> 's) option
      \<Rightarrow> (kv_abs \<Rightarrow> bool) \<Rightarrow> (kv_abs \<Rightarrow> bool) \<Rightarrow> bool" where
  "runs_opt Z C q S P \<longleftrightarrow> (\<exists>p. q = Some p \<and> runs Z C p S P)"

lemma runs_opt_Some [simp]: "runs_opt Z C (Some p) S P = runs Z C p S P"
  by (simp add: runs_opt_def)

lemma runs_opt_weaken:
  "runs_opt Z C q S P \<Longrightarrow> (\<And>A. S A \<Longrightarrow> S' A) \<Longrightarrow> (\<And>A. P A \<Longrightarrow> P' A) \<Longrightarrow> runs_opt Z C q S' P'"
  unfolding runs_opt_def using runs_weaken by blast

lemma runs_opt_and_then:
  assumes "runs Z C p S P" and "\<And>s A. rep C s A \<Longrightarrow> P A \<Longrightarrow> runs_opt Z C (f s) S Q"
  shows "runs_opt Z C (and_then_opt p f) S Q"
  using assms(1)
proof (cases rule: runs_cases)
  case ok
  then show ?thesis using assms(2) by simp
next
  case fail
  then show ?thesis by (simp add: runs_fail)
qed

text \<open>The shift stands at \<open>cur\<close>, \<open>n\<close> steps after the hole.\<close>

definition shift_inv ::
    "'s kv_env \<Rightarrow> (kv_key \<times> byte list) list \<Rightarrow> (u32 \<rightharpoonup> byte list) \<Rightarrow> u32 \<Rightarrow> u32 \<Rightarrow> nat \<Rightarrow> kv_abs \<Rightarrow> bool" where
  "shift_inv Z al R hole cur n A \<longleftrightarrow>
     (\<exists>ids. linked (ka_ent A) (ka_head A) (ka_tail A) ids \<and> pairs_of (ka_ent A) ids = al)
   \<and> unique_keys (keys_of (ka_ent A)) \<and> hole_inv (home_of Z) (keys_of (ka_ent A)) hole n
   \<and> usable cur \<and> (if cur = hole then n = ring_size else dist hole cur = n) \<and> ka_rest A = R"

lemma shift_inv_kept: "shift_inv Z al R hole cur n A \<Longrightarrow> kept al R A"
  unfolding shift_inv_def using kept_pairs linkedD(2) by blast

lemma shift_inv_next:
  assumes "usable hole" and "usable c" and "c \<noteq> hole"
  shows "(if next_slot c = hole then Suc (dist hole c) = ring_size
    else dist hole (next_slot c) = Suc (dist hole c))"
  using assms dist_last [OF assms(1,2)] dist_less [OF assms(1,2)] by (auto simp: dist_next)

lemma shift_inv_stay:
  assumes inv: "shift_inv Z al R hole c n A" and "c \<noteq> hole" and e: "ka_ent A c = Some e"
    and "\<not> dist (home_of Z (e_ns e, e_key e)) hole < dist (home_of Z (e_ns e, e_key e)) c"
  shows "shift_inv Z al R hole (next_slot c) (Suc n) A"
proof -
  have h: "hole_inv (home_of Z) (keys_of (ka_ent A)) hole n" and u: "usable c" "usable hole"
    and n: "dist hole c = n"
    using inv assms(2) hole_invD(2) by (fastforce simp: shift_inv_def)+
  have dm: "dom (keys_of (ka_ent A)) \<subseteq> Collect usable"
    using inv by (auto simp: shift_inv_def linked_def)
  have "hole_inv (home_of Z) (keys_of (ka_ent A)) hole (Suc n)"
    using e assms(4) by (intro code_hash.hole_settled [OF h u(1) n _ dm]) (simp_all add: keys_of_def)
  then show ?thesis
    using inv shift_inv_next [OF u(2,1) assms(2)] u(1) n by (auto simp: shift_inv_def split: if_splits)
qed

lemma shift_inv_move:
  assumes inv: "shift_inv Z al R hole c n A" and "c \<noteq> hole" and e: "ka_ent A c = Some e"
    and cl: "dist (home_of Z (e_ns e, e_key e)) hole < dist (home_of Z (e_ns e, e_key e)) c"
  shows "shift_inv Z al R c (next_slot c) 1 ((shifted A c hole e)\<lparr>ka_int := x\<rparr>)"
    and "displacement (home_of Z) (keys_of (ka_ent (shifted A c hole e)))
      < displacement (home_of Z) (keys_of (ka_ent A))"
proof -
  have h: "hole_inv (home_of Z) (keys_of (ka_ent A)) hole n" and u: "usable c"
    and uk: "unique_keys (keys_of (ka_ent A))"
    using inv by (simp_all add: shift_inv_def)
  from inv obtain ids where l: "linked (ka_ent A) (ka_head A) (ka_tail A) ids"
    and al: "pairs_of (ka_ent A) ids = al" by (auto simp: shift_inv_def)
  have hole: "ka_ent A hole = None" "usable hole"
    using hole_invD(1,2) [OF h] by simp_all
  have k: "keys_of (ka_ent A) c = Some (e_ns e, e_key e)" using e by (simp add: keys_of_def)
  note s = shifted_ok [OF l e hole(2,1)]
  have d1: "dist c (next_slot c) = 1" "ring_size \<noteq> 1"
    using u next_slot_neq [OF u] by (simp_all add: dist_next ring_size_def)
  show "shift_inv Z al R c (next_slot c) 1 ((shifted A c hole e)\<lparr>ka_int := x\<rparr>)"
    using s al u d1 next_slot_neq [OF u] code_hash.hole_move [OF h u k cl]
      unique_keys_move [OF uk k, of hole] hole inv
    by (simp add: shift_inv_def shifted_simps(4))
  show "displacement (home_of Z) (keys_of (ka_ent (shifted A c hole e)))
      < displacement (home_of Z) (keys_of (ka_ent A))"
    unfolding s(2) using k hole cl by (intro displacement_move) simp_all
qed

lemma shift_inv_done:
  assumes inv: "shift_inv Z al R hole c n A" and "c = hole \<or> ka_ent A c = None"
  shows "kv_good Z al R A"
proof -
  have h: "hole_inv (home_of Z) (keys_of (ka_ent A)) hole n" and u: "usable c"
    using inv by (simp_all add: shift_inv_def)
  have dm: "dom (keys_of (ka_ent A)) \<subseteq> Collect usable"
    using inv by (auto simp: shift_inv_def linked_def)
  have "probed (home_of Z) (keys_of (ka_ent A))"
  proof (cases "c = hole")
    case True
    then have "n = ring_size" using inv by (simp add: shift_inv_def)
    then show ?thesis using h dm by (intro code_hash.hole_done_full [where hole = hole]) simp_all
  next
    case False
    then show ?thesis
      using h u dm inv assms(2)
      by (intro code_hash.hole_done_empty [where hole = hole and c = c and n = n])
        (simp_all add: shift_inv_def)
  qed
  then show ?thesis using inv by (auto simp: shift_inv_def kv_good_def stored_def)
qed

context zms_store begin

lemma resume_shift_loop_spec:
  assumes "rep C s A" and "shift_inv Z al R hole c n A"
  shows "runs_opt Z C (resume_shift_loop Z hole c s) (kept al R) (kv_good Z al R)"
  using assms
proof (induction "(displacement (home_of Z) (keys_of (ka_ent A)), ring_size - n)" arbitrary: s A hole c n
    rule: wf_induct_rule [OF wf_lex_prod [OF wf_less wf_less]])
  case (1 A n s hole c)
  note rep = "1.prems"(1) and inv = "1.prems"(2)
  note step = resume_shift_loop.simps [of Z hole c s]
  have k: "kept al R A" using inv by (rule shift_inv_kept)
  have u: "usable c" and h: "hole_inv (home_of Z) (keys_of (ka_ent A)) hole n"
    using inv by (simp_all add: shift_inv_def)
  from inv obtain ids where l: "linked (ka_ent A) (ka_head A) (ka_tail A) ids"
    by (auto simp: shift_inv_def)
  have hole: "usable hole" "ka_ent A hole = None" using hole_invD(1,2) [OF h] by simp_all
  show ?case
  proof (cases "c = hole")
    case True
    then show ?thesis using step rep shift_inv_done [OF inv] by (simp add: runs_OK)
  next
    case ne: False
    show ?thesis
    proof (cases "ka_ent A c")
      case None
      then show ?thesis
        using step ne rep shift_inv_done [OF inv] shift_back_None [OF rep u None]
        by (simp add: runs_OK)
    next
      case (Some e)
      from rep l Some hole k show ?thesis
      proof (cases rule: shift_back_Some)
        case oom
        then show ?thesis using step ne rep k by (simp add: runs_fail)
      next
        case stay
        have n: "n < ring_size"
          using inv ne dist_less [OF hole(1) u] by (simp add: shift_inv_def)
        have "runs_opt Z C (resume_shift_loop Z hole (next_slot c) s) (kept al R) (kv_good Z al R)"
          using n by (intro "1.hyps" [OF _ rep shift_inv_stay [OF inv ne Some stay(1)]]) simp
        then show ?thesis using step ne stay by simp
      next
        case (shift p)
        let ?I = "intent_of INTENT_SHIFTING c NULL_ID NULL_ID"
        from shift(2) show ?thesis
        proof (cases rule: runs_cases)
          case (fail r s' B)
          then show ?thesis using step ne shift(3) by (auto intro: runs_fail)
        next
          case (ok s' B)
          have kb: "kept al R B"
            using shift_inv_kept [OF shift_inv_move(1) [OF inv ne Some shift(1), of "ka_int B"]] ok(3)
            by simp
          have "runs Z C (entry_intent_write Z INTENT_SHIFTING c NULL_ID NULL_ID s') (kept al R)
              (\<lambda>D. D = B\<lparr>ka_int := Some ?I\<rparr>)"
            using ok kb by (intro runs_intent [OF ok(2)]) (simp_all add: intent_of_def)
          then show ?thesis
          proof (cases rule: runs_cases)
            case (fail r t D)
            then show ?thesis using step ne shift(3) ok by (auto intro: runs_fail)
          next
            case (ok t D)
            have "runs_opt Z C (resume_shift_loop Z c (next_slot c) t) (kept al R) (kv_good Z al R)"
              using shift_inv_move(1) [OF inv ne Some shift(1), of "Some ?I"]
                shift_inv_move(2) [OF inv ne Some shift(1)] ok \<open>B = shifted A c hole e\<close>
              by (intro "1.hyps" [where A = D and n = 1]) simp_all
            then show ?thesis using step ne shift(3) ok \<open>p = _\<close> by simp
          qed
        qed
      qed
    qed
  qed
qed

text \<open>What is left after an interrupted deletion: all the other pairs.\<close>

lemma entry_delete_spec:
  assumes rep: "rep C s A" and st: "stored Z A ids" and e: "ka_ent A i = Some e"
  defines "al \<equiv> AList.delete (e_ns e, e_key e) (pairs_of (ka_ent A) ids)"
  shows "runs_opt Z C (entry_delete Z i s) (kept al (ka_rest A)) (\<lambda>B. kv_good Z al (ka_rest A) B \<and> idle B)"
proof -
  let ?S = "kept al (ka_rest A)" and ?P = "\<lambda>B. kv_good Z al (ka_rest A) B \<and> idle B"
  let ?I = "intent_of INTENT_SHIFTING i NULL_ID NULL_ID"
  have u: "usable i" using rep e by (rule repD)
  note us = unlinked_stored [OF st e, folded al_def]
  have sub: "?S B" if "unlink_states A i e B" for B
  proof (cases "B = unlinked A i e")
    case True
    then show ?thesis
      using us(1) kept_pairs linkedD(2) by (metis (no_types, lifting) unlinked_rest order_refl)
  next
    case False
    have "kept (pairs_of (ka_ent A) ids) (ka_rest A) A"
      using storedD(5) [OF st] by (intro kept_pairs) simp
    then have "?S A" by (rule kept_subset) (auto simp: al_def AList.delete_eq)
    then show ?thesis
      using that False unfolding unlink_states_def
      by (auto simp: delete_state_defs kept_def kv_links)
  qed
  have start: "shift_inv Z al (ka_rest A) i (next_slot i) 1 ((unlinked A i e)\<lparr>ka_int := Some ?I\<rparr>)"
    using us u next_slot_neq [OF u] by (simp add: shift_inv_def dist_next unlinked_rest)
  have main: "runs_opt Z C (and_then_opt (delete_and_unlink_single_entry Z i s) (\<lambda>s.
          and_then_opt (entry_intent_write Z INTENT_SHIFTING i NULL_ID NULL_ID s) (\<lambda>s. do {
            p \<leftarrow> entry_delete_resume_shift Z i s;
            and_then_opt p (\<lambda>s. Some (entry_intent_clear Z s))
          }))) ?S ?P"
  proof (rule runs_opt_and_then)
    show "runs Z C (delete_and_unlink_single_entry Z i s) ?S (\<lambda>B. B = unlinked A i e)"
      using runs_unlink [OF rep st e] by (rule runs_weaken) (simp_all add: sub)
  next
    fix s B assume r: "rep C s B" "B = unlinked A i e"
    show "runs_opt Z C (and_then_opt (entry_intent_write Z INTENT_SHIFTING i NULL_ID NULL_ID s) (\<lambda>s. do {
            p \<leftarrow> entry_delete_resume_shift Z i s;
            and_then_opt p (\<lambda>s. Some (entry_intent_clear Z s)) })) ?S ?P"
    proof (rule runs_opt_and_then)
      show "runs Z C (entry_intent_write Z INTENT_SHIFTING i NULL_ID NULL_ID s) ?S
          (\<lambda>D. D = (unlinked A i e)\<lparr>ka_int := Some ?I\<rparr>)"
        using r sub by (intro runs_intent [OF r(1)]) (simp_all add: intent_of_def unlink_states_def)
    next
      fix s D assume r: "rep C s D" "D = (unlinked A i e)\<lparr>ka_int := Some ?I\<rparr>"
      from resume_shift_loop_spec [OF r(1) start [folded r(2)]]
      obtain p where p: "entry_delete_resume_shift Z i s = Some p"
        and rp: "runs Z C p ?S (kv_good Z al (ka_rest A))"
        by (auto simp: entry_delete_resume_shift_def runs_opt_def)
      have "runs_opt Z C (and_then_opt p (\<lambda>s. Some (entry_intent_clear Z s))) ?S ?P"
      proof (rule runs_opt_and_then [OF rp])
        fix s B assume "rep C s B" "kv_good Z al (ka_rest A) B"
        moreover from this have "?S B"
          using kept_pairs storedD(5) by (fastforce simp: kv_good_def)
        ultimately show "runs_opt Z C (Some (entry_intent_clear Z s)) ?S ?P"
          by (auto intro!: runs_clear)
      qed
      then show "runs_opt Z C (do {
            p \<leftarrow> entry_delete_resume_shift Z i s;
            and_then_opt p (\<lambda>s. Some (entry_intent_clear Z s)) }) ?S ?P"
        by (simp add: p)
    qed
  qed
  have "fst (delete_and_unlink_single_entry Z i s) \<noteq> ASTARTE_RESULT_NOT_FOUND"
    using runs_unlink [OF rep st e] by (auto simp: runs_def)
  then show ?thesis
    using main by (simp add: entry_delete_def case_prod_beta)
qed

end

end
