(* ===== verification/KV_Store.thy ===== *)
theory KV_Store
  imports KV_Delete
begin

text \<open>
  The public operations against their contract: a store is the association list of its pairs in
  the order of insertion, \<open>insert\<close> is \<open>AList.update\<close>, \<open>find\<close> is \<open>map_of\<close> and \<open>delete\<close> is
  \<open>AList.delete\<close>; every operation returns, and the rest of the partition is not touched.
\<close>

section \<open>What a file system stores\<close>

definition kv_rep ::
    "'s kv_env \<Rightarrow> ('s \<Rightarrow> u32 \<rightharpoonup> byte list) \<Rightarrow> (u32 \<rightharpoonup> byte list) \<Rightarrow> 's \<Rightarrow> (kv_key \<times> byte list) list \<Rightarrow> bool" where
  "kv_rep Z C R s al \<longleftrightarrow> (\<exists>A. rep C s A \<and> kv_good Z al R A \<and> idle A)"

definition kv_stores ::
    "'s kv_env \<Rightarrow> ('s \<Rightarrow> u32 \<rightharpoonup> byte list) \<Rightarrow> 's \<Rightarrow> (kv_key \<times> byte list) list \<Rightarrow> bool" where
  "kv_stores Z C s al \<longleftrightarrow> (\<exists>R. kv_rep Z C R s al)"

text \<open>The two states agree on every record that is not the key-value store's.\<close>

definition same_rest :: "('s \<Rightarrow> u32 \<rightharpoonup> byte list) \<Rightarrow> 's \<Rightarrow> 's \<Rightarrow> bool" where
  "same_rest C s s' \<longleftrightarrow> (\<forall>i. other_id i \<longrightarrow> C s' i = C s i)"

lemma same_restI: "rep C s A \<Longrightarrow> rep C s' B \<Longrightarrow> ka_rest A = ka_rest B \<Longrightarrow> same_rest C s s'"
  by (simp add: rep_def same_rest_def)

lemma same_rest_refl [simp]: "same_rest C s s"
  by (simp add: same_rest_def)

lemma kv_rep_same_rest: "kv_rep Z C R s al \<Longrightarrow> kv_rep Z C R s' al' \<Longrightarrow> same_rest C s s'"
  unfolding kv_rep_def kv_good_def using same_restI by metis

lemma kv_repE:
  assumes "kv_rep Z C R s al"
  obtains A ids where "rep C s A" "stored Z A ids" "pairs_of (ka_ent A) ids = al" "ka_rest A = R" "idle A"
  using assms by (auto simp: kv_rep_def kv_good_def)

lemma kv_repI:
  "rep C s A \<Longrightarrow> stored Z A ids \<Longrightarrow> pairs_of (ka_ent A) ids = al \<Longrightarrow> ka_rest A = R \<Longrightarrow> idle A \<Longrightarrow>
   kv_rep Z C R s al"
  by (auto simp: kv_rep_def kv_good_def)

text \<open>A partition without records of the store is empty.\<close>

lemma kv_rep_empty:
  assumes "\<And>i. \<not> other_id i \<Longrightarrow> C s i = None"
  shows "kv_rep Z C (C s) s []"
proof (rule kv_repI [where ids = "[]"])
  let ?A = "\<lparr>ka_ent = Map.empty, ka_head = NULL_ID, ka_tail = NULL_ID, ka_int = None, ka_rest = C s\<rparr>"
  show "rep C s ?A"
    using assms by (auto simp: rep_def ht_image_def other_id_def)
  show "stored Z ?A []"
    by (simp add: stored_def probed_def unique_keys_def keys_of_def)
qed (simp_all add: idle_def)

text \<open>The pair stored for a key.\<close>

lemma stored_lookup:
  assumes "stored Z A ids" and "ka_ent A i = Some e"
  shows "map_of (pairs_of (ka_ent A) ids) (e_ns e, e_key e) = Some (e_val e)"
  using storedD [OF assms(1)] assms(2) by (intro map_of_pairs) auto

lemma stored_no_key:
  assumes "stored Z A ids" and "k \<notin> ran (keys_of (ka_ent A))"
  shows "map_of (pairs_of (ka_ent A) ids) k = None"
  using storedD(5) [OF assms(1)] map_of_pairs_None [OF assms(2)] by (simp add: map_of_eq_None_iff)

section \<open>The intent between operations\<close>

lemma parse_intent_bytes [simp]: "parse_intent (intent_bytes x) = x"
  by (simp add: parse_intent_def intent_bytes_def)

lemma length_intent_bytes [simp]: "length (intent_bytes x) = 16"
  by (simp add: intent_bytes_def)

context zms_store begin

lemma resolve_idle:
  assumes "rep C s A" and "idle A"
  shows "entry_intent_resolve Z s = Some (ASTARTE_RESULT_OK, s)"
proof (cases "ka_int A")
  case None
  then have "C s INTENT_ID = None" using repD(6) [OF assms(1)] by simp
  then show ?thesis by (simp add: entry_intent_resolve_def read_None)
next
  case (Some x)
  then have "C s INTENT_ID = Some (intent_bytes x)" using repD(6) [OF assms(1)] by simp
  then show ?thesis using assms(2) Some by (simp add: entry_intent_resolve_def read_Some idle_def)
qed

lemma resolve_locked_idle:
  assumes "rep C s A" and "idle A"
  obtains (ok) "resolve_locked Z s = Some (ASTARTE_RESULT_OK, s)"
    | (busy) "resolve_locked Z s = Some (ASTARTE_RESULT_MUTEX_LOCK_ERROR, s)" "\<not> reliable_store Z C"
  using resolve_idle [OF assms] reliable_store.mutex_ok [of Z C s]
  by (cases "sys_mutex_lock Z s = 0") (auto simp: resolve_locked_def mutex_lock_def)

end

section \<open>Quota\<close>

definition val_size :: "(kv_key \<times> byte list) list \<Rightarrow> kv_key \<Rightarrow> nat" where
  "val_size al k = (case map_of al k of None \<Rightarrow> 0 | Some v \<Rightarrow> length v)"

definition healed :: "kv_storage \<Rightarrow> nat \<Rightarrow> kv_storage" where
  "healed kv old = (if kv_max_quota_bytes kv > 0 \<and> kv_current_usage_bytes kv < of_nat old
     then kv\<lparr>kv_current_usage_bytes := of_nat old\<rparr> else kv)"

definition projected :: "kv_storage \<Rightarrow> nat \<Rightarrow> nat \<Rightarrow> u32" where
  "projected kv old new = (kv_current_usage_bytes (healed kv old) + of_nat new) - of_nat old"

definition over_quota :: "kv_storage \<Rightarrow> nat \<Rightarrow> nat \<Rightarrow> bool" where
  "over_quota kv old new \<longleftrightarrow> kv_max_quota_bytes kv > 0 \<and> projected kv old new > kv_max_quota_bytes kv"

definition charged :: "kv_storage \<Rightarrow> nat \<Rightarrow> nat \<Rightarrow> kv_storage" where
  "charged kv old new = (if kv_max_quota_bytes kv > 0
     then kv\<lparr>kv_current_usage_bytes := projected kv old new\<rparr> else kv)"

lemma healed_simps [simp]:
  "kv_namespace (healed kv n) = kv_namespace kv" "kv_max_quota_bytes (healed kv n) = kv_max_quota_bytes kv"
  "kv_max_quota_bytes kv = 0 \<Longrightarrow> healed kv n = kv"
  by (simp_all add: healed_def)

context zms_store begin

lemma insert_quota_spec:
  assumes rep: "rep C s A" and "usable i" and "old = (case ka_ent A i of None \<Rightarrow> 0 | Some e \<Rightarrow> length (e_val e))"
  shows "insert_quota Z kv i new s = ((if over_quota kv old new then ASTARTE_RESULT_OUT_OF_SPACE
      else ASTARTE_RESULT_OK), healed kv old, (if kv_max_quota_bytes kv > 0 then of_nat old else 0))"
proof -
  have "(case entry_read_value Z s i None of
             Inl ares \<Rightarrow> if ares \<noteq> ASTARTE_RESULT_NOT_FOUND then Inl ares else Inr 0
           | Inr (n, _) \<Rightarrow> Inr (of_nat n)) = (Inr (of_nat old) :: astarte_result_t + u32)"
  proof (cases "ka_ent A i")
    case None
    then show ?thesis using assms(2,3) read_value_None [OF rep] by simp
  next
    case (Some e)
    then show ?thesis using assms(3) read_value_size [OF rep Some] by simp
  qed
  then show ?thesis
    by (simp add: insert_quota_def over_quota_def projected_def healed_def Let_def)
qed

section \<open>Insertion\<close>

text \<open>What an insertion that failed leaves: the old contents, or one the recovery completes.\<close>

end

definition cut ::
    "'s kv_env \<Rightarrow> (kv_key \<times> byte list) list \<Rightarrow> (kv_key \<times> byte list) list \<Rightarrow> (u32 \<rightharpoonup> byte list) \<Rightarrow> kv_abs \<Rightarrow> bool" where
  "cut Z al al' R B \<longleftrightarrow> (\<exists>A c e ids. stored Z A ids \<and> pairs_of (ka_ent A) ids = al \<and> ka_rest A = R \<and> idle A
     \<and> (B = A
      \<or> usable c \<and> ka_ent A c = None \<and> insert_states A c e B \<and> kv_good Z al' R (appended A c e)
      \<or> update_states A c e B \<and> kv_good Z al' R (A\<lparr>ka_ent := (ka_ent A)(c \<mapsto> e)\<rparr>)))"

context zms_store begin

lemma insert_found:
  assumes rep: "rep C s A" and st: "stored Z A ids" and id: "idle A"
    and v: "valid_name (fst k)" "valid_name (snd k)"
    and e: "ka_ent A i = Some e" "k = (e_ns e, e_key e)"
    and al: "pairs_of (ka_ent A) ids = al"
  shows "runs Z C (entry_write Z i (fst k) (snd k) val s) (cut Z al (AList.update k val al) (ka_rest A))
    (\<lambda>B. kv_good Z (AList.update k val al) (ka_rest A) B \<and> idle B)"
proof -
  have g: "kv_good Z (AList.update k val al) (ka_rest A)
      (A\<lparr>ka_ent := (ka_ent A)(i \<mapsto> new_entry k val (e_next e) (e_prev e))\<rparr>)"
    using updated_good [OF st e, of val] al by simp
  show ?thesis
    using entry_write_old [OF rep v e(1), of val] st al id g
    by (elim runs_weaken) (auto simp: cut_def)
qed

lemma insert_new:
  assumes rep: "rep C s A" and st: "stored Z A ids" and id: "idle A"
    and v: "valid_name (fst k)" "valid_name (snd k)"
    and c: "usable c" "ka_ent A c = None" "k \<notin> ran (keys_of (ka_ent A))"
      "\<forall>j. usable j \<longrightarrow> dist (home_of Z k) j < dist (home_of Z k) c \<longrightarrow> ka_ent A j \<noteq> None"
    and al: "pairs_of (ka_ent A) ids = al"
  shows "runs Z C (entry_write Z c (fst k) (snd k) val s) (cut Z al (AList.update k val al) (ka_rest A))
    (\<lambda>B. kv_good Z (AList.update k val al) (ka_rest A) B \<and> idle B)"
proof -
  have g: "kv_good Z (AList.update k val al) (ka_rest A)
      (appended A c (new_entry k val NULL_ID (ka_tail A)))"
    using appended_good [OF st c, of val] al by simp
  show ?thesis
    using entry_write_new [OF rep st v c(1,2), of val] st al id g c
    by (elim runs_weaken) (auto simp: cut_def)
qed

lemma cut_refl: "rep C s A \<Longrightarrow> stored Z A ids \<Longrightarrow> idle A \<Longrightarrow>
    cut Z (pairs_of (ka_ent A) ids) al' (ka_rest A) A"
  by (auto simp: cut_def)

end

text \<open>Every ID is taken.\<close>

definition all_used :: "('s \<Rightarrow> u32 \<rightharpoonup> byte list) \<Rightarrow> 's \<Rightarrow> bool" where
  "all_used C s \<longleftrightarrow> (\<forall>i. usable i \<longrightarrow> C s i \<noteq> None)"

text \<open>The outcomes of an insertion.\<close>

definition insert_outcome ::
    "'s kv_env \<Rightarrow> ('s \<Rightarrow> u32 \<rightharpoonup> byte list) \<Rightarrow> (u32 \<rightharpoonup> byte list) \<Rightarrow> (kv_key \<times> byte list) list \<Rightarrow> kv_storage
     \<Rightarrow> byte list \<Rightarrow> byte list \<Rightarrow> 's \<Rightarrow> astarte_result_t \<times> kv_storage \<times> 's \<Rightarrow> bool" where
  "insert_outcome Z C R al kv key v s = (\<lambda>(r, kv', s').
     let k = (kv_namespace kv, key); old = val_size al k in
     if r = ASTARTE_RESULT_OK then
       kv_rep Z C R s' (AList.update k v al) \<and> kv' = charged kv old (length v)
         \<and> \<not> over_quota kv old (length v)
     else (\<exists>B. rep C s' B \<and> cut Z al (AList.update k v al) R B)
       \<and> (r = ASTARTE_RESULT_KEY_VALUE_FULL \<and> s' = s \<and> all_used C s
        \<or> r = ASTARTE_RESULT_OUT_OF_SPACE \<and> s' = s \<and> kv' = healed kv old \<and> over_quota kv old (length v)
        \<or> \<not> reliable_store Z C))"

lemma insert_outcome_write:
  assumes "runs Z C (r, s') (cut Z al al' R) (\<lambda>B. kv_good Z al' R B \<and> idle B)"
    and "al' = AList.update (kv_namespace kv, key) v al" and "old = val_size al (kv_namespace kv, key)"
    and "\<not> over_quota kv old (length v)"
  shows "insert_outcome Z C R al kv key v s
    (if r \<noteq> ASTARTE_RESULT_OK then (r, kv'', s') else (ASTARTE_RESULT_OK, charged kv old (length v), s'))"
  using assms by (auto simp: insert_outcome_def runs_def Let_def kv_rep_def)

context zms_store begin

lemma key_value_insert_spec:
  assumes kr: "kv_rep Z C R s al" and v: "valid_name (kv_namespace kv)" "valid_name key"
  shows "\<exists>p. key_value_insert Z kv key val s = Some p \<and> insert_outcome Z C R al kv key val s p"
proof -
  let ?k = "(kv_namespace kv, key)"
  let ?old = "val_size al ?k"
  from kr obtain A ids where rep: "rep C s A" and st: "stored Z A ids"
    and al: "pairs_of (ka_ent A) ids = al" and R: "ka_rest A = R" and id: "idle A" by (rule kv_repE)
  have cr: "\<exists>B. rep C s B \<and> cut Z al al' R B" for al'
    using rep st id al R cut_refl by blast
  have wr: ?thesis
    if i: "usable i" "?old = (case ka_ent A i of None \<Rightarrow> 0 | Some e \<Rightarrow> length (e_val e))"
      and slot: "entry_find_or_alloc Z s (kv_namespace kv) key True = Some (Inr i)"
      and lk: "resolve_locked Z s = Some (ASTARTE_RESULT_OK, s)"
      and w: "runs Z C (entry_write Z i (kv_namespace kv) key val s)
        (cut Z al (AList.update ?k val al) R) (\<lambda>B. kv_good Z (AList.update ?k val al) R B \<and> idle B)" for i
  proof (cases "over_quota kv ?old (length val)")
    case True
    then show ?thesis
      using lk slot insert_quota_spec [OF rep i] cr
      by (simp add: key_value_insert_def insert_outcome_def Let_def)
  next
    case False
    have "key_value_insert Z kv key val s = Some (let (r, s') = entry_write Z i (kv_namespace kv) key val s in
        if r \<noteq> ASTARTE_RESULT_OK then (r, healed kv ?old, s')
        else (ASTARTE_RESULT_OK, charged kv ?old (length val), s'))"
      using lk slot insert_quota_spec [OF rep i] False
      by (cases "kv_max_quota_bytes kv = 0")
        (simp_all add: key_value_insert_def charged_def projected_def healed_def word_gt_0 split: prod.splits)
    moreover obtain r s' where rs: "entry_write Z i (kv_namespace kv) key val s = (r, s')" by force
    ultimately show ?thesis
      using insert_outcome_write [OF w [unfolded rs] refl refl False] by simp
  qed
  from rep id show ?thesis
  proof (cases rule: resolve_locked_idle)
    case busy
    then show ?thesis using cr by (simp add: key_value_insert_def insert_outcome_def Let_def)
  next
    case ok
    from find_or_alloc_spec [OF rep st v, of True] obtain r
      where slot: "entry_find_or_alloc Z s (kv_namespace kv) key True = Some r"
        and sr: "slot_result Z C A ?k True r" by blast
    from sr show ?thesis
      unfolding slot_result_def
    proof (elim disjE exE conjE)
      fix i e assume r: "r = Inr i" and e: "ka_ent A i = Some e" "(e_ns e, e_key e) = ?k"
      have "?old = length (e_val e)"
        using stored_lookup [OF st e(1)] e(2) al by (simp add: val_size_def)
      then show ?thesis
        using insert_found [OF rep st id _ _ e(1) e(2) [symmetric] al, of val] v R slot r ok e
          repD(2) [OF rep e(1)]
        by (intro wr) simp_all
    next
      fix c assume "usable c" "ka_ent A c = None" "?k \<notin> ran (keys_of (ka_ent A))"
        "\<forall>j. usable j \<longrightarrow> dist (home_of Z ?k) j < dist (home_of Z ?k) c \<longrightarrow> ka_ent A j \<noteq> None"
        and r: "r = (if True then Inr c else Inl ASTARTE_RESULT_NOT_FOUND)"
      note c = this(1-4)
      have "?old = 0" using stored_no_key [OF st c(3)] al by (simp add: val_size_def)
      then show ?thesis
        using insert_new [OF rep st id _ _ c al, of val] v R slot r ok c
        by (intro wr) simp_all
    next
      assume full: "Collect usable \<subseteq> dom (ka_ent A)" and r: "r = Inl ASTARTE_RESULT_KEY_VALUE_FULL"
      have "C s i \<noteq> None" if "usable i" for i
      proof -
        from that full obtain e where "ka_ent A i = Some e" by auto
        then show ?thesis using repD(4) [OF rep] by simp
      qed
      then show ?thesis
        using slot r ok cr by (simp add: key_value_insert_def insert_outcome_def Let_def all_used_def)
    next
      assume "r = Inl ASTARTE_RESULT_OUT_OF_MEMORY" "\<not> reliable_store Z C"
      then show ?thesis
        using slot ok cr by (simp add: key_value_insert_def insert_outcome_def Let_def)
    qed
  qed
qed

end

section \<open>Look-up\<close>

text \<open>
  The result of a look-up of \<open>found\<close> with a buffer, in an environment that does not fail.
\<close>

definition found_result :: "byte list option \<Rightarrow> nat option \<Rightarrow> astarte_result_t + nat \<times> byte list" where
  "found_result found buffer = (case found of
       None \<Rightarrow> Inl ASTARTE_RESULT_NOT_FOUND
     | Some v \<Rightarrow> (case buffer of
         None \<Rightarrow> Inr (length v, [])
       | Some n \<Rightarrow> if n < length v then Inl ASTARTE_RESULT_INVALID_PARAM else Inr (length v, v)))"

text \<open>The result of a search in terms of the pairs.\<close>

definition slot_kv ::
    "'s kv_env \<Rightarrow> ('s \<Rightarrow> u32 \<rightharpoonup> byte list) \<Rightarrow> 's \<Rightarrow> kv_abs \<Rightarrow> (kv_key \<times> byte list) list \<Rightarrow> kv_key
      \<Rightarrow> astarte_result_t + u32 \<Rightarrow> bool" where
  "slot_kv Z C s A al k r \<longleftrightarrow>
     (\<exists>i e. r = Inr i \<and> ka_ent A i = Some e \<and> (e_ns e, e_key e) = k \<and> map_of al k = Some (e_val e))
   \<or> r = Inl ASTARTE_RESULT_NOT_FOUND \<and> map_of al k = None
   \<or> r = Inl ASTARTE_RESULT_KEY_VALUE_FULL \<and> map_of al k = None \<and> all_used C s
   \<or> r = Inl ASTARTE_RESULT_OUT_OF_MEMORY \<and> \<not> reliable_store Z C"

context zms_store begin

lemma find_slot:
  assumes rep: "rep C s A" and st: "stored Z A ids" and v: "valid_name ns" "valid_name key"
    and al: "pairs_of (ka_ent A) ids = al"
  shows "\<exists>r. entry_find_or_alloc Z s ns key False = Some r \<and> slot_kv Z C s A al (ns, key) r"
proof -
  from find_or_alloc_spec [OF rep st v, of False] obtain r
    where slot: "entry_find_or_alloc Z s ns key False = Some r"
      and sr: "slot_result Z C A (ns, key) False r" by blast
  have used: "all_used C s" if "Collect usable \<subseteq> dom (ka_ent A)"
  proof -
    have "C s i \<noteq> None" if "usable i" for i
    proof -
      from that \<open>Collect usable \<subseteq> dom (ka_ent A)\<close> obtain e where "ka_ent A i = Some e" by auto
      then show ?thesis using repD(4) [OF rep] by simp
    qed
    then show ?thesis by (simp add: all_used_def)
  qed
  have look: "map_of al (ns, key) = Some (e_val e)"
    if "ka_ent A i = Some e" "(e_ns e, e_key e) = (ns, key)" for i e
    using stored_lookup [OF st that(1)] that(2) al by simp
  have "slot_kv Z C s A al (ns, key) r"
    using sr used look stored_no_key [OF st, of "(ns, key)"] al
    unfolding slot_result_def slot_kv_def by (elim disjE exE conjE) auto
  then show ?thesis using slot by blast
qed

lemma key_value_find_spec:
  assumes kr: "kv_rep Z C R s al" and v: "valid_name (kv_namespace kv)" "valid_name key"
  shows "\<exists>r. key_value_find Z kv key buffer s = Some (r, s)
    \<and> (r = found_result (map_of al (kv_namespace kv, key)) buffer
     \<or> r = Inl ASTARTE_RESULT_KEY_VALUE_FULL \<and> map_of al (kv_namespace kv, key) = None \<and> all_used C s
     \<or> \<not> reliable_store Z C \<and> (\<exists>e. r = Inl e))"
proof -
  from kr obtain A ids where rep: "rep C s A" and st: "stored Z A ids"
    and al: "pairs_of (ka_ent A) ids = al" and id: "idle A" by (rule kv_repE)
  from rep id show ?thesis
  proof (cases rule: resolve_locked_idle)
    case busy
    then show ?thesis by (simp add: key_value_find_def)
  next
    case ok
    from find_slot [OF rep st v al] obtain r
      where slot: "entry_find_or_alloc Z s (kv_namespace kv) key False = Some r"
        and sr: "slot_kv Z C s A al (kv_namespace kv, key) r" by blast
    from sr show ?thesis
      unfolding slot_kv_def
    proof (elim disjE exE conjE)
      fix i e assume r: "r = Inr i" and e: "ka_ent A i = Some e"
        and m: "map_of al (kv_namespace kv, key) = Some (e_val e)"
      show ?thesis
      proof (cases buffer)
        case None
        then show ?thesis
          using ok slot r m read_value_size [OF rep e] by (simp add: key_value_find_def found_result_def)
      next
        case (Some n)
        then show ?thesis
          using ok slot r m read_value_Some [OF rep e, of n] read_value_small [OF rep e, of n]
          by (cases "n < length (e_val e)") (auto simp: key_value_find_def found_result_def)
      qed
    qed (use ok slot in \<open>simp_all add: key_value_find_def found_result_def\<close>)
  qed
qed

end

section \<open>Deletion\<close>

definition discharged :: "kv_storage \<Rightarrow> nat \<Rightarrow> kv_storage" where
  "discharged kv old = account_deletion kv (if kv_max_quota_bytes kv > 0 then of_nat old else 0)"

text \<open>The outcomes of a deletion.  An interrupted one has lost no pair but the deleted one.\<close>

definition delete_outcome ::
    "'s kv_env \<Rightarrow> ('s \<Rightarrow> u32 \<rightharpoonup> byte list) \<Rightarrow> (u32 \<rightharpoonup> byte list) \<Rightarrow> (kv_key \<times> byte list) list \<Rightarrow> kv_storage
     \<Rightarrow> byte list \<Rightarrow> 's \<Rightarrow> astarte_result_t \<times> kv_storage \<times> 's \<Rightarrow> bool" where
  "delete_outcome Z C R al kv key s = (\<lambda>(r, kv', s').
     let k = (kv_namespace kv, key) in
     if r = ASTARTE_RESULT_OK then
       kv_rep Z C R s' (AList.delete k al) \<and> kv' = discharged kv (val_size al k) \<and> map_of al k \<noteq> None
     else kv' = kv \<and> (r = ASTARTE_RESULT_NOT_FOUND \<and> s' = s \<and> map_of al k = None
        \<or> r = ASTARTE_RESULT_KEY_VALUE_FULL \<and> s' = s \<and> map_of al k = None \<and> all_used C s
        \<or> r \<noteq> ASTARTE_RESULT_NOT_FOUND \<and> \<not> reliable_store Z C
          \<and> (\<exists>B. rep C s' B \<and> kept (AList.delete k al) R B)))"

lemma kept_store:
  assumes "stored Z A ids"
  shows "kept (AList.delete k (pairs_of (ka_ent A) ids)) (ka_rest A) A"
proof -
  have "kept (pairs_of (ka_ent A) ids) (ka_rest A) A"
    using storedD(5) [OF assms] by (intro kept_pairs) simp
  then show ?thesis by (rule kept_subset) (auto simp: AList.delete_eq)
qed

context zms_store begin

lemma key_value_delete_spec:
  assumes kr: "kv_rep Z C R s al" and v: "valid_name (kv_namespace kv)" "valid_name key"
  shows "\<exists>p. key_value_delete Z kv key s = Some p \<and> delete_outcome Z C R al kv key s p"
proof -
  let ?k = "(kv_namespace kv, key)"
  from kr obtain A ids where rep: "rep C s A" and st: "stored Z A ids"
    and al: "pairs_of (ka_ent A) ids = al" and R: "ka_rest A = R" and id: "idle A" by (rule kv_repE)
  have cr: "\<exists>B. rep C s B \<and> kept (AList.delete ?k al) R B"
    using rep kept_store [OF st, of ?k] al R by auto
  from rep id show ?thesis
  proof (cases rule: resolve_locked_idle)
    case busy
    then show ?thesis using cr by (simp add: key_value_delete_def delete_outcome_def Let_def)
  next
    case ok
    from find_slot [OF rep st v al] obtain r
      where slot: "entry_find_or_alloc Z s (kv_namespace kv) key False = Some r"
        and sr: "slot_kv Z C s A al ?k r" by blast
    from sr show ?thesis
      unfolding slot_kv_def
    proof (elim disjE exE conjE)
      fix i e assume r: "r = Inr i" and e: "ka_ent A i = Some e" "(e_ns e, e_key e) = ?k"
        and m: "map_of al ?k = Some (e_val e)"
      have sz: "deleted_size Z kv i s = (if kv_max_quota_bytes kv > 0 then of_nat (val_size al ?k) else 0)"
        using read_value_size [OF rep e(1)] m by (simp add: deleted_size_def val_size_def)
      from entry_delete_spec [OF rep st e(1)] obtain p where d: "entry_delete Z i s = Some p"
        and rp: "runs Z C p (kept (AList.delete ?k al) R) (\<lambda>B. kv_good Z (AList.delete ?k al) R B \<and> idle B)"
        using e(2) al R by (auto simp: runs_opt_def)
      show ?thesis
        using rp ok slot r d sz m
        by (cases rule: runs_cases)
          (auto simp: key_value_delete_def delete_outcome_def Let_def discharged_def kv_rep_def)
    next
      assume "r = Inl ASTARTE_RESULT_OUT_OF_MEMORY" "\<not> reliable_store Z C"
      then show ?thesis
        using ok slot cr by (simp add: key_value_delete_def delete_outcome_def Let_def)
    qed (use ok slot in \<open>simp_all add: key_value_delete_def delete_outcome_def Let_def\<close>)
  qed
qed

end

end
