(* ===== verification/KV_Recover.thy ===== *)
theory KV_Recover
  imports KV_Store
begin

text \<open>
  Recovery (\<open>entry_intent_resolve\<close>) after an interrupted insertion or update: on a device that
  works again, it ends in the store before or after the operation.
\<close>

lemma home_of_cong: "sys_hash32 Z' = sys_hash32 Z \<Longrightarrow> home_of Z' = home_of Z"
  by (simp add: home_of_def entry_hash_generate_def)

lemma stored_cong: "sys_hash32 Z' = sys_hash32 Z \<Longrightarrow> stored Z' A ids = stored Z A ids"
  using home_of_cong [of Z' Z] by (simp add: stored_def)

lemma kv_good_cong: "sys_hash32 Z' = sys_hash32 Z \<Longrightarrow> kv_good Z' al R A = kv_good Z al R A"
  using stored_cong [of Z' Z] by (simp add: kv_good_def)

lemma kv_rep_cong: "sys_hash32 Z' = sys_hash32 Z \<Longrightarrow> kv_rep Z' C R s al = kv_rep Z C R s al"
  using kv_good_cong [of Z' Z] by (simp add: kv_rep_def)

lemma cut_cong: "sys_hash32 Z' = sys_hash32 Z \<Longrightarrow> cut Z' al al' R B = cut Z al al' R B"
  using kv_good_cong [of Z' Z] stored_cong [of Z' Z] by (simp add: cut_def)

text \<open>The interrupted states keep the rest of the partition.\<close>

lemma cut_same_rest: "kv_rep Z C R s al \<Longrightarrow> rep C s' B \<Longrightarrow> cut Z' bl cl R B \<Longrightarrow> same_rest C s s'"
  by (elim kv_repE, rule same_restI, assumption, assumption)
    (auto simp: cut_def insert_state_defs update_states_def)

lemma kept_same_rest: "kv_rep Z C R s al \<Longrightarrow> rep C s' B \<Longrightarrow> kept bl R B \<Longrightarrow> same_rest C s s'"
  by (elim kv_repE, rule same_restI, assumption, assumption) (simp add: kept_def)

lemma kept_images:
  assumes "rep C s A" and "kept al R A"
  shows "\<forall>p\<in>set al. \<exists>i e. C s i = Some (kv_image e) \<and> entry_kv e = p"
proof
  fix p assume "p \<in> set al"
  then have "p \<in> ran (\<lambda>i. map_option entry_kv (ka_ent A i))"
    using assms(2) by (auto simp: kept_def)
  then obtain i where "map_option entry_kv (ka_ent A i) = Some p"
    unfolding ran_def by blast
  then obtain e where "ka_ent A i = Some e" "entry_kv e = p" by auto
  then show "\<exists>i e. C s i = Some (kv_image e) \<and> entry_kv e = p"
    using repD(4) [OF assms(1)] by blast
qed

text \<open>Undoing an insertion.\<close>

lemma tail_next:
  assumes "stored Z A ids" and "ka_tail A \<noteq> NULL_ID"
  obtains e where "ka_ent A (ka_tail A) = Some e" "e_next e = NULL_ID"
proof -
  note l = storedD(1) [OF assms(1)]
  have "ids \<noteq> []" using linked_Nil_iff(1) [OF l] assms(2) by simp
  then have "ka_tail A \<in> dom (ka_ent A)"
    using l last_id_in [of ids NULL_ID] by (simp add: linked_def)
  then obtain e where e: "ka_ent A (ka_tail A) = Some e" by auto
  then show thesis using that linked_neighbours(4) [OF l e] by simp
qed

definition undo :: "kv_abs \<Rightarrow> u32 \<Rightarrow> table \<Rightarrow> table" where
  "undo A c ent = (if ka_tail A \<noteq> NULL_ID then set_next ent (ka_tail A) NULL_ID else ent)(c := None)"

lemma undo_insert:
  assumes "stored Z A ids" and "ka_ent A c = None" and "usable c"
    and "B \<in> {inserting A c e, with_new A c e, with_tail A c e}"
  shows "undo A c (ka_ent B) = ka_ent A"
proof (cases "ka_tail A = NULL_ID")
  case True
  then show ?thesis
    using assms(2,4) by (auto simp: undo_def insert_state_defs relink_def)
next
  case False
  with assms(1) obtain f where f: "ka_ent A (ka_tail A) = Some f" "e_next f = NULL_ID"
    by (rule tail_next)
  then have "ka_tail A \<noteq> c" using assms(2) by auto
  then show ?thesis
    using assms(2,4) False f
    by (auto simp: undo_def insert_state_defs relink_def set_next_def fun_eq_iff)
qed

context reliable_store begin

lemma runs_succeeds:
  assumes "runs Z C p (\<lambda>_. True) P"
  obtains s A where "p = (ASTARTE_RESULT_OK, s)" "rep C s A" "P A"
  using assms reliable_store_axioms by (cases rule: runs_cases) auto

lemma resolve_rep: "kv_rep Z C R s al \<Longrightarrow> \<exists>s'. entry_intent_resolve Z s = Some (ASTARTE_RESULT_OK, s')
    \<and> kv_rep Z C R s' al"
  using resolve_idle by (auto simp: kv_rep_def)

lemma clear_ok:
  assumes "rep C s A"
  obtains s' where "entry_intent_clear Z s = (ASTARTE_RESULT_OK, s')" "rep C s' (cleared A)"
proof -
  have "runs Z C (entry_intent_clear Z s) (\<lambda>_. True) (\<lambda>B. B = cleared A)"
    by (rule runs_clear [OF assms]) simp_all
  then show thesis using that by (elim runs_succeeds) simp
qed

lemma resolve_insert_undo:
  assumes rep: "rep C s B" and I: "I = intent_of INTENT_INSERTING c (ka_tail A) NULL_ID"
    and c: "usable c" and t: "ka_tail B \<noteq> c" "ka_tail A \<noteq> NULL_ID \<Longrightarrow> ka_tail A \<in> dom (ka_ent B)"
  obtains s' where "resolve_insert_intent Z I s = (ASTARTE_RESULT_OK, s')"
    "rep C s' (B\<lparr>ka_ent := undo A c (ka_ent B)\<rparr>)"
proof -
  define E where "E = (if ka_tail A \<noteq> NULL_ID then set_next (ka_ent B) (ka_tail A) NULL_ID else ka_ent B)"
  have "runs Z C (if ka_tail A \<noteq> NULL_ID then update_next_id Z (ka_tail A) NULL_ID s
      else (ASTARTE_RESULT_OK, s)) (\<lambda>_. True) (\<lambda>D. D = B\<lparr>ka_ent := E\<rparr>)"
    using t(2) by (intro runs_when [OF rep] runs_next [OF rep]) (auto simp: E_def)
  then obtain s1 where s1: "(if ka_tail A \<noteq> NULL_ID then update_next_id Z (ka_tail A) NULL_ID s
      else (ASTARTE_RESULT_OK, s)) = (ASTARTE_RESULT_OK, s1)" and r1: "rep C s1 (B\<lparr>ka_ent := E\<rparr>)"
    by (elim runs_succeeds) simp
  obtain rc s2 where s2: "zms_delete Z s1 c = (rc, s2)" by force
  then have "C s2 = (C s1)(c := None)"
    using delete_law [OF s2] delete_ok [of s1 c] by auto
  then have r2: "rep C s2 (B\<lparr>ka_ent := E(c := None)\<rparr>)"
    using rep_delete [OF r1 c] by simp
  have "resolve_insert_intent Z I s = (ASTARTE_RESULT_OK, s2)"
    using read_head_tail [OF rep] t(1) s1 s2 unfolding resolve_insert_intent_def
    by (cases "ka_tail A = NULL_ID") (simp_all add: I intent_of_def)
  then show thesis
    using r2 by (intro that) (simp_all add: undo_def E_def)
qed

lemma resolve_step:
  assumes "rep C s B" and "ka_int B = Some I" and "in_state I \<noteq> 0"
    and "in_state I \<noteq> intent_state_code INTENT_DELETING"
    and "in_state I \<noteq> intent_state_code INTENT_SHIFTING"
    and "(if in_state I = intent_state_code INTENT_INSERTING then resolve_insert_intent Z I s
      else (ASTARTE_RESULT_OK, s)) = (ASTARTE_RESULT_OK, s1)" and "rep C s1 D"
  obtains s' where "entry_intent_resolve Z s = Some (ASTARTE_RESULT_OK, s')" "rep C s' (cleared D)"
proof -
  have "C s INTENT_ID = Some (intent_bytes I)"
    using repD(6) [OF assms(1)] assms(2) by simp
  then have read: "zms_read Z s INTENT_ID 16 = (16, intent_bytes I)"
    by (simp add: read_Some)
  from assms(7) obtain s' where s': "entry_intent_clear Z s1 = (ASTARTE_RESULT_OK, s')" "rep C s' (cleared D)"
    by (rule clear_ok)
  have "entry_intent_resolve Z s = Some (ASTARTE_RESULT_OK, s')"
    using assms(3-6) s'(1)
    by (auto simp: entry_intent_resolve_def read ENOENT_def recovery_result_def Let_def split: if_splits)
  then show thesis using s'(2) by (rule that)
qed

lemma recover_insert:
  assumes rep: "rep C s B" and st: "stored Z A ids" and c: "usable c" "ka_ent A c = None"
    and B: "B \<in> {inserting A c e, with_new A c e, with_tail A c e}"
  obtains s' where "entry_intent_resolve Z s = Some (ASTARTE_RESULT_OK, s')" "rep C s' (cleared A)"
proof -
  let ?I = "intent_of INTENT_INSERTING c (ka_tail A) NULL_ID"
  have int: "ka_int B = Some ?I" and same: "ka_tail B = ka_tail A" "ka_head B = ka_head A" "ka_rest B = ka_rest A"
    using B by (auto simp: insert_state_defs)
  have dom: "dom (ka_ent A) \<subseteq> dom (ka_ent B)"
  proof -
    have "dom (ka_ent B) = dom (ka_ent A) \<or> dom (ka_ent B) = insert c (dom (ka_ent A))"
      using B by (elim insertE emptyE) (simp_all add: insert_state_defs)
    then show ?thesis by auto
  qed
  have tl: "ka_tail A \<in> dom (ka_ent A)" if "ka_tail A \<noteq> NULL_ID"
    using tail_next [OF st that] by blast
  have "ka_tail B \<noteq> c"
    using same tl c by (cases "ka_tail A = NULL_ID") (auto simp: domIff)
  then obtain s1 where s1: "resolve_insert_intent Z ?I s = (ASTARTE_RESULT_OK, s1)"
    and r1: "rep C s1 (B\<lparr>ka_ent := undo A c (ka_ent B)\<rparr>)"
    using tl dom by (elim resolve_insert_undo [OF rep refl c(1), rotated -1]) auto
  have "B\<lparr>ka_ent := undo A c (ka_ent B)\<rparr> = A\<lparr>ka_int := Some ?I\<rparr>"
    using undo_insert [OF st c(2,1) B] int same by (cases A; cases B) simp
  then obtain s' where "entry_intent_resolve Z s = Some (ASTARTE_RESULT_OK, s')"
      "rep C s' (cleared (A\<lparr>ka_int := Some ?I\<rparr>))"
    using s1 r1 int by (elim resolve_step [OF rep int, rotated -1]) (simp_all add: intent_of_def)
  then show thesis by (intro that) (simp_all add: cleared_def)
qed

lemma recover_cut:
  assumes rep: "rep C s B" and cut: "cut Z al al' R B"
  shows "\<exists>s'. entry_intent_resolve Z s = Some (ASTARTE_RESULT_OK, s')
    \<and> (kv_rep Z C R s' al \<or> kv_rep Z C R s' al')"
proof -
  from cut obtain A c e ids where st: "stored Z A ids" and al: "pairs_of (ka_ent A) ids = al"
    and R: "ka_rest A = R" and id: "idle A"
    and alt: "B = A
      \<or> usable c \<and> ka_ent A c = None \<and> insert_states A c e B \<and> kv_good Z al' R (appended A c e)
      \<or> update_states A c e B \<and> kv_good Z al' R (A\<lparr>ka_ent := (ka_ent A)(c \<mapsto> e)\<rparr>)"
    unfolding cut_def by blast
  have good: "kv_good Z al R A" using st al R by (auto simp: kv_good_def)
  have old: ?thesis if "B = A"
  proof -
    have "entry_intent_resolve Z s = Some (ASTARTE_RESULT_OK, s)"
      using resolve_idle [OF rep] that id by simp
    moreover have "kv_rep Z C R s al" using rep that good id by (auto simp: kv_rep_def)
    ultimately show ?thesis by blast
  qed
  from alt show ?thesis
  proof (elim disjE conjE)
    assume c: "usable c" "ka_ent A c = None" and i: "insert_states A c e B"
      and g: "kv_good Z al' R (appended A c e)"
    consider "B = A" | "B \<in> {inserting A c e, with_new A c e, with_tail A c e}" | "B = appended A c e"
      using i by (auto simp: insert_states_def)
    then show ?thesis
    proof cases
      case 1
      then show ?thesis by (rule old)
    next
      case 2
      with rep st c obtain s' where "entry_intent_resolve Z s = Some (ASTARTE_RESULT_OK, s')"
        "rep C s' (cleared A)" by (rule recover_insert)
      then show ?thesis using good by (auto simp: kv_rep_def)
    next
      case 3
      have "resolve_insert_intent Z (intent_of INTENT_INSERTING c (ka_tail A) NULL_ID) s = (ASTARTE_RESULT_OK, s)"
        using read_head_tail [OF rep] 3
        by (simp add: resolve_insert_intent_def appended_def intent_of_def)
      then obtain s' where "entry_intent_resolve Z s = Some (ASTARTE_RESULT_OK, s')" "rep C s' (cleared B)"
        using 3 rep by (elim resolve_step [OF rep, rotated -1])
          (auto simp: intent_of_def insert_state_defs)
      then show ?thesis using g 3 by (auto simp: kv_rep_def)
    qed
  next
    assume u: "update_states A c e B" and g: "kv_good Z al' R (A\<lparr>ka_ent := (ka_ent A)(c \<mapsto> e)\<rparr>)"
    show ?thesis
    proof (cases "B = A")
      case True
      then show ?thesis by (rule old)
    next
      case False
      with u obtain i where i: "in_state i = intent_state_code INTENT_UPDATING"
        and B: "B = A\<lparr>ka_int := Some i\<rparr> \<or> B = A\<lparr>ka_int := Some i, ka_ent := (ka_ent A)(c \<mapsto> e)\<rparr>"
        by (auto simp: update_states_def)
      have int: "ka_int B = Some i" using B by auto
      obtain s' where "entry_intent_resolve Z s = Some (ASTARTE_RESULT_OK, s')" "rep C s' (cleared B)"
        using rep i by (elim resolve_step [OF rep int, rotated -1]) simp_all
      moreover have "kv_good Z al R B \<or> kv_good Z al' R B"
        using B good g by (auto simp: kv_good_def stored_def)
      ultimately show ?thesis by (auto simp: kv_rep_def)
    qed
  qed (rule old)
qed

end

section \<open>Interrupted unlinking\<close>

text \<open>Repeating the relinking of an interrupted deletion completes it, wherever it stopped.\<close>

lemma redo_unlink:
  assumes "ka_ent A i = Some e"
    and "B \<in> {deleting A i e, bypass1 A i e, bypass2 A i e, bypassed A i e}"
    and "e_prev e \<noteq> NULL_ID \<Longrightarrow> e_prev e \<noteq> e_next e"
  shows "relink (e_prev e) (e_next e) (e_next e) (e_prev e) (ka_ent B)
      = relink (e_prev e) (e_next e) (e_next e) (e_prev e) (ka_ent A)"
  using assms(2,3)
  by (auto simp: delete_state_defs relink_def Let_def set_next_def set_prev_def fun_eq_iff option.map_comp comp_def)

context reliable_store begin

lemma resolve_delete_redo:
  assumes rep: "rep C s B" and st: "stored Z A ids" and e: "ka_ent A i = Some e"
    and B: "B \<in> {deleting A i e, bypass1 A i e, bypass2 A i e, bypassed A i e}"
  defines "I \<equiv> intent_of INTENT_DELETING i (e_prev e) (e_next e)"
  shows "runs Z C (resolve_delete_intent Z I s) (\<lambda>_. True)
    (\<lambda>D. D = (unlinked A i e)\<lparr>ka_int := Some (intent_of INTENT_SHIFTING i NULL_ID NULL_ID)\<rparr>)"
proof -
  let ?p = "e_prev e" and ?n = "e_next e"
  note d = storedD [OF st] and nb = linked_neighbours [OF storedD(1) [OF st] e]
  have u: "usable i" using d(4) e by auto
  have dom: "dom (ka_ent B) = dom (ka_ent A)"
    using B by (elim insertE emptyE) (simp_all add: delete_state_defs)
  then obtain f where f: "ka_ent B i = Some f" using e by (auto simp: set_eq_iff)
  have hdr: "entry_header_read_fixed Z s i \<noteq> Inl ASTARTE_RESULT_NOT_FOUND"
    using header_fixed_Some [OF rep f] by simp
  have same: "ka_rest B = ka_rest A" "ka_int B = Some I"
    using B by (auto simp: delete_state_defs I_def)
  define E1 where "E1 = (if ?p \<noteq> NULL_ID then set_next (ka_ent B) ?p ?n else ka_ent B)"
  define E2 where "E2 = relink ?p ?n ?n ?p (ka_ent B)"
  have d1: "dom E1 = dom (ka_ent A)" by (simp add: E1_def dom)
  define h where "h = (if ?p = NULL_ID then ?n else ka_head B)"
  define t where "t = (if ?n = NULL_ID then ?p else ka_tail B)"
  let ?D1 = "B\<lparr>ka_ent := E1\<rparr>" and ?D2 = "B\<lparr>ka_ent := E2\<rparr>"
  let ?D3 = "B\<lparr>ka_ent := E2, ka_head := h, ka_tail := t\<rparr>"
  let ?D4 = "?D3\<lparr>ka_ent := E2(i := None)\<rparr>"
  have D4: "?D4\<lparr>ka_int := x\<rparr> = (unlinked A i e)\<lparr>ka_int := x\<rparr>" for x
    using redo_unlink [OF e B nb(5)] B same
    by (cases A; cases B) (auto simp: delete_state_defs E2_def h_def t_def)
  have ht: "read_head_and_tail_ids Z s' = Inr (ka_head B, ka_tail B)" if "rep C s' ?D2" for s'
    using read_head_tail [OF that] by simp
  have body: "runs Z C
      (and_then (if ?p \<noteq> NULL_ID then update_next_id Z ?p ?n s else (ASTARTE_RESULT_OK, s)) (\<lambda>s.
       and_then (if ?n \<noteq> NULL_ID then update_prev_id Z ?n ?p s else (ASTARTE_RESULT_OK, s)) (\<lambda>s.
       try_res (read_head_and_tail_ids Z s) s (\<lambda>(head_id, tail_id).
       and_then (if ?p = NULL_ID \<or> ?n = NULL_ID
         then write_head_and_tail_ids Z (if ?p = NULL_ID then ?n else head_id)
           (if ?n = NULL_ID then ?p else tail_id) s
         else (ASTARTE_RESULT_OK, s)) (\<lambda>s.
       rc_check ASTARTE_RESULT_ZMS_ERROR (zms_delete Z s i))))))
      (\<lambda>_. True) (\<lambda>D. D = ?D4)"
  proof (rule runs_and_then [OF runs_when [OF rep, where P = "\<lambda>D. D = ?D1"]])
    show "runs Z C (update_next_id Z ?p ?n s) (\<lambda>_. True) (\<lambda>D. D = ?D1)" if "?p \<noteq> NULL_ID"
      using that nb(1) dom by (intro runs_next [OF rep]) (auto simp: E1_def)
    show "B = ?D1" if "\<not> ?p \<noteq> NULL_ID" using that by (simp add: E1_def)
    fix s D assume r: "rep C s D" "D = ?D1"
    show "runs Z C
      (and_then (if ?n \<noteq> NULL_ID then update_prev_id Z ?n ?p s else (ASTARTE_RESULT_OK, s)) (\<lambda>s.
       try_res (read_head_and_tail_ids Z s) s (\<lambda>(head_id, tail_id).
       and_then (if ?p = NULL_ID \<or> ?n = NULL_ID
         then write_head_and_tail_ids Z (if ?p = NULL_ID then ?n else head_id)
           (if ?n = NULL_ID then ?p else tail_id) s
         else (ASTARTE_RESULT_OK, s)) (\<lambda>s.
       rc_check ASTARTE_RESULT_ZMS_ERROR (zms_delete Z s i)))))
      (\<lambda>_. True) (\<lambda>D. D = ?D4)"
    proof (rule runs_and_then [OF runs_when [OF r(1), where P = "\<lambda>D. D = ?D2"]])
      show "runs Z C (update_prev_id Z ?n ?p s) (\<lambda>_. True) (\<lambda>D. D = ?D2)" if "?n \<noteq> NULL_ID"
        using that nb(2) r(2) d1 by (intro runs_prev [OF r(1)]) (auto simp: E1_def E2_def relink_def)
      show "D = ?D2" if "\<not> ?n \<noteq> NULL_ID" using that r(2) by (simp add: E1_def E2_def relink_def)
      fix s D assume r: "rep C s D" "D = ?D2"
      show "runs Z C
        (try_res (read_head_and_tail_ids Z s) s (\<lambda>(head_id, tail_id).
         and_then (if ?p = NULL_ID \<or> ?n = NULL_ID
           then write_head_and_tail_ids Z (if ?p = NULL_ID then ?n else head_id)
             (if ?n = NULL_ID then ?p else tail_id) s
           else (ASTARTE_RESULT_OK, s)) (\<lambda>s.
         rc_check ASTARTE_RESULT_ZMS_ERROR (zms_delete Z s i))))
        (\<lambda>_. True) (\<lambda>D. D = ?D4)"
        unfolding ht [OF r(1) [unfolded r(2)]] try_res_simps prod.case h_def [symmetric] t_def [symmetric]
      proof (rule runs_and_then [OF runs_when [OF r(1), where P = "\<lambda>D. D = ?D3"]])
        show "runs Z C (write_head_and_tail_ids Z h t s) (\<lambda>_. True) (\<lambda>D. D = ?D3)"
          using r(2) by (intro runs_head_tail [OF r(1)]) simp_all
        show "D = ?D3" if "\<not> (?p = NULL_ID \<or> ?n = NULL_ID)"
          using that r(2) by (simp add: h_def t_def)
        fix s D assume r: "rep C s D" "D = ?D3"
        show "runs Z C (rc_check ASTARTE_RESULT_ZMS_ERROR (zms_delete Z s i)) (\<lambda>_. True) (\<lambda>D. D = ?D4)"
          using r(2) by (intro runs_delete [OF u r(1)]) simp_all
      qed
    qed
  qed
  have I: "in_target_id I = i" "in_affected_id_1 I = ?p" "in_affected_id_2 I = ?n"
    by (simp_all add: I_def intent_of_def)
  show ?thesis
    unfolding resolve_delete_intent_def I Let_def if_not_P [OF hdr]
  proof (rule runs_and_then [OF body])
    fix s D assume r: "rep C s D" "D = ?D4"
    show "runs Z C (entry_intent_write Z INTENT_SHIFTING i NULL_ID NULL_ID s) (\<lambda>_. True)
      (\<lambda>D. D = (unlinked A i e)\<lparr>ka_int := Some (intent_of INTENT_SHIFTING i NULL_ID NULL_ID)\<rparr>)"
      using r(2) D4 by (intro runs_intent [OF r(1)]) (simp_all add: intent_of_def)
  qed
qed

text \<open>The shift that follows, from the intent that announces it.\<close>

lemma resume_from_hole:
  assumes rep: "rep C s B" and B: "B = (unlinked A i e)\<lparr>ka_int := x\<rparr>"
    and st: "stored Z A ids" and e: "ka_ent A i = Some e"
  shows "find_hole Z s i i = Some (Inr i)"
    and "runs_opt Z C (entry_delete_resume_shift Z i s) (\<lambda>_. True)
      (kv_good Z (AList.delete (e_ns e, e_key e) (pairs_of (ka_ent A) ids)) (ka_rest A))"
proof -
  let ?al = "AList.delete (e_ns e, e_key e) (pairs_of (ka_ent A) ids)"
  have u: "usable i" using storedD(4) [OF st] e by auto
  have "ka_ent B i = None" by (simp add: B delete_state_defs)
  then show "find_hole Z s i i = Some (Inr i)"
    using header_fixed_None [OF rep u] by (subst find_hole.simps) simp
  have "shift_inv Z ?al (ka_rest A) i (next_slot i) 1 B"
    using unlinked_stored [OF st e] u next_slot_neq [OF u]
    by (simp add: B shift_inv_def dist_next unlinked_rest)
  then show "runs_opt Z C (entry_delete_resume_shift Z i s) (\<lambda>_. True) (kv_good Z ?al (ka_rest A))"
    unfolding entry_delete_resume_shift_def
    by (rule runs_opt_weaken [OF resume_shift_loop_spec [OF rep]]) simp_all
qed

lemma recover_unlink:
  assumes rep: "rep C s B" and st: "stored Z A ids" and e: "ka_ent A i = Some e"
    and B: "B \<in> {deleting A i e, bypass1 A i e, bypass2 A i e, bypassed A i e, unlinked A i e}"
  shows "\<exists>s'. entry_intent_resolve Z s = Some (ASTARTE_RESULT_OK, s')
    \<and> kv_rep Z C (ka_rest A) s' (AList.delete (e_ns e, e_key e) (pairs_of (ka_ent A) ids))"
proof -
  let ?I = "intent_of INTENT_DELETING i (e_prev e) (e_next e)"
  let ?D = "(unlinked A i e)\<lparr>ka_int := Some (intent_of INTENT_SHIFTING i NULL_ID NULL_ID)\<rparr>"
  let ?al = "AList.delete (e_ns e, e_key e) (pairs_of (ka_ent A) ids)"
  have "ka_int B = Some ?I" using B by (auto simp: delete_state_defs)
  then have "C s INTENT_ID = Some (intent_bytes ?I)" using repD(6) [OF rep] by simp
  then have read: "zms_read Z s INTENT_ID 16 = (16, intent_bytes ?I)" by (simp add: read_Some)
  have "runs Z C (resolve_delete_intent Z ?I s) (\<lambda>_. True) (\<lambda>D. D = ?D)"
  proof (cases "B = unlinked A i e")
    case True
    have "usable i" using storedD(4) [OF st] e by auto
    then have "entry_header_read_fixed Z s i = Inl ASTARTE_RESULT_NOT_FOUND"
      using True by (intro header_fixed_None [OF rep]) (simp_all add: delete_state_defs)
    moreover have "runs Z C (entry_intent_write Z INTENT_SHIFTING i NULL_ID NULL_ID s) (\<lambda>_. True) (\<lambda>D. D = ?D)"
      using True by (intro runs_intent [OF rep]) (simp_all add: intent_of_def)
    ultimately show ?thesis by (simp add: resolve_delete_intent_def intent_of_def)
  next
    case False
    then show ?thesis using B by (intro resolve_delete_redo [OF rep st e]) auto
  qed
  then obtain s1 D where s1: "resolve_delete_intent Z ?I s = (ASTARTE_RESULT_OK, s1)"
    and r1: "rep C s1 D" "D = ?D" by (rule runs_succeeds)
  from resume_from_hole [OF r1(1,2) st e] obtain p where hole: "find_hole Z s1 i i = Some (Inr i)"
    and p: "entry_delete_resume_shift Z i s1 = Some p"
    and rp: "runs Z C p (\<lambda>_. True) (kv_good Z ?al (ka_rest A))" by (auto simp: runs_opt_def)
  from rp obtain s2 E where s2: "p = (ASTARTE_RESULT_OK, s2)" "rep C s2 E" "kv_good Z ?al (ka_rest A) E"
    by (rule runs_succeeds)
  from s2(2) obtain s3 where s3: "entry_intent_clear Z s2 = (ASTARTE_RESULT_OK, s3)" "rep C s3 (cleared E)"
    by (rule clear_ok)
  have "entry_intent_resolve Z s = Some (ASTARTE_RESULT_OK, s3)"
    unfolding entry_intent_resolve_def read prod.case
    using s1 hole p s2(1) s3(1)
    by (simp add: ENOENT_def recovery_result_def resolve_shift_intent_def intent_of_def)
  moreover have "kv_rep Z C (ka_rest A) s3 ?al"
    using s3(2) s2(3) by (auto simp: kv_rep_def)
  ultimately show ?thesis by blast
qed

end

end
