(* ===== verification/KV_Iter.thy ===== *)
theory KV_Iter
  imports KV_Recover
begin

text \<open>
  Iteration over a namespace, in an environment that does not fail: the iterator visits the keys
  of the namespace in the order of insertion, the usage computed for a new handle is the sum of
  the sizes of its values, and deletion at an iterator leaves it before the next key.
\<close>

section \<open>Entries of a namespace\<close>

definition in_ns :: "table \<Rightarrow> byte list \<Rightarrow> u32 \<Rightarrow> bool" where
  "in_ns ent ns i \<longleftrightarrow> (case ent i of None \<Rightarrow> False | Some e \<Rightarrow> e_ns e = ns)"

definition ns_ids :: "table \<Rightarrow> byte list \<Rightarrow> u32 list \<Rightarrow> u32 list" where
  "ns_ids ent ns ids = filter (in_ns ent ns) ids"

definition ns_keys :: "byte list \<Rightarrow> (kv_key \<times> byte list) list \<Rightarrow> byte list list" where
  "ns_keys ns al = map (\<lambda>((n, k), v). k) (filter (\<lambda>((n, k), v). n = ns) al)"

definition ns_size :: "byte list \<Rightarrow> (kv_key \<times> byte list) list \<Rightarrow> nat" where
  "ns_size ns al = sum_list (map (\<lambda>((n, k), v). length v) (filter (\<lambda>((n, k), v). n = ns) al))"

lemma ns_keys_simps [simp]:
  "ns_keys ns [] = []" "ns_keys ns (((n, k), v) # al) = (if n = ns then k # ns_keys ns al else ns_keys ns al)"
  "ns_keys ns (al @ bl) = ns_keys ns al @ ns_keys ns bl"
  by (simp_all add: ns_keys_def)

lemma ns_keys_split:
  assumes "ns_keys ns al = k # ks"
  obtains us v vs where "al = us @ ((ns, k), v) # vs" "ns_keys ns us = []" "ns_keys ns vs = ks"
  using assms
proof (induction al arbitrary: thesis)
  case (Cons x al)
  obtain n l w where x: "x = ((n, l), w)" by (metis surj_pair)
  show ?case
  proof (cases "n = ns")
    case True
    then show ?thesis using Cons.prems(1) [of "[]" w al] Cons.prems(2) x by simp
  next
    case False
    with Cons.prems(2) x have "ns_keys ns al = k # ks" by simp
    then obtain us v vs where "al = us @ ((ns, k), v) # vs" "ns_keys ns us = []" "ns_keys ns vs = ks"
      by (rule Cons.IH [rotated])
    then show ?thesis using Cons.prems(1) [of "x # us" v vs] False x by simp
  qed
qed simp

lemma ns_size_simps [simp]:
  "ns_size ns [] = 0"
  "ns_size ns (((n, k), v) # al) = (if n = ns then length v + ns_size ns al else ns_size ns al)"
  "ns_size ns (al @ bl) = ns_size ns al + ns_size ns bl"
  by (simp_all add: ns_size_def)

definition head_result :: "u32 list \<Rightarrow> astarte_result_t + u32" where
  "head_result ids = (case ids of [] \<Rightarrow> Inl ASTARTE_RESULT_NOT_FOUND | i # _ \<Rightarrow> Inr i)"

lemma head_result_simps [simp]:
  "head_result [] = Inl ASTARTE_RESULT_NOT_FOUND" "head_result (i # is) = Inr i"
  by (simp_all add: head_result_def)

lemma ns_ids_simps [simp]:
  "ns_ids ent ns [] = []"
  "ns_ids ent ns (i # is) = (if in_ns ent ns i then i # ns_ids ent ns is else ns_ids ent ns is)"
  "ns_ids ent ns (is @ js) = ns_ids ent ns is @ ns_ids ent ns js"
  by (simp_all add: ns_ids_def)

lemma ns_ids_split:
  assumes "ns_ids ent ns ids = i # is"
  obtains xs ys where "ids = xs @ i # ys" "ns_ids ent ns xs = []" "ns_ids ent ns ys = is" "in_ns ent ns i"
  using assms unfolding ns_ids_def by (auto simp: filter_eq_Cons_iff filter_empty_conv)

section \<open>Stepping\<close>

context reliable_store begin

lemma header_ok:
  assumes "rep C s A" and "ka_ent A i = Some e"
  shows "entry_header_read Z s i = Inr (entry_header_of e, length (kv_image e))"
  using assms reliable_store_axioms by (cases rule: header_Some) auto

lemma check_namespace_ok:
  assumes "rep C s A" and "ka_ent A i = Some e" and "valid_name ns"
  shows "entry_check_namespace Z s i ns = Inr (e_ns e = ns)"
proof -
  have v: "valid_entry e" using assms(1,2) by (rule repD)
  then have "nul_free (e_ns e)" "nul_free ns"
    using assms(3) by (auto simp: valid_entry_def valid_name_def)
  then have "strncmp_eq (e_ns e) ns (length (e_ns e)) \<longleftrightarrow> e_ns e = ns" if "length (e_ns e) = length ns"
    using that strncmp_eq_whole by blast
  then show ?thesis
    using header_ok [OF assms(1,2)] v \<open>nul_free ns\<close>
    by (auto simp: entry_check_namespace_def Let_def entry_header_of_def)
qed

text \<open>The cursor stands after \<open>xs\<close>.\<close>

lemma get_next_id_ok:
  assumes rep: "rep C s A" and st: "stored Z A (xs @ ys)"
  shows "entry_get_next_id Z s (last_id NULL_ID xs) = Inr (first_id ys NULL_ID)"
proof (cases xs rule: rev_cases)
  case Nil
  then show ?thesis
    using read_head_tail [OF rep] storedD(1) [OF st] by (simp add: entry_get_next_id_def linked_def)
next
  case (snoc zs i)
  note l = storedD(1) [OF st]
  have "seg (ka_ent A) NULL_ID (zs @ i # ys) NULL_ID"
    using linkedD(4) [OF l] snoc by simp
  then obtain e where e: "ka_ent A i = Some e" "e_next e = first_id ys NULL_ID"
    by (auto simp: seg_append)
  have "i \<noteq> NULL_ID" using linked_usable [OF l e(1)] by auto
  then show ?thesis
    using header_fixed_Some [OF rep e(1)] e(2) snoc
    by (simp add: entry_get_next_id_def entry_fixed_def last_id_def)
qed

lemma iterator_next_loop_ok:
  assumes rep: "rep C s A" and "stored Z A (xs @ ys)" and v: "valid_name ns"
  shows "iterator_next_loop Z s ns (last_id NULL_ID xs) = Some (head_result (ns_ids (ka_ent A) ns ys))"
  using assms(2)
proof (induction ys arbitrary: xs)
  case Nil
  then show ?case
    using get_next_id_ok [OF rep Nil] by (subst iterator_next_loop.simps) simp
next
  case (Cons i ys)
  have "i \<in> dom (ka_ent A)" using storedD(5) [OF Cons.prems] by auto
  then obtain e where e: "ka_ent A i = Some e" by auto
  have "i \<noteq> NULL_ID" using linked_usable [OF storedD(1) [OF Cons.prems] e] by auto
  moreover have "iterator_next_loop Z s ns i = Some (head_result (ns_ids (ka_ent A) ns ys))"
    using Cons.IH [of "xs @ [i]"] Cons.prems by simp
  ultimately show ?case
    using get_next_id_ok [OF rep Cons.prems] check_namespace_ok [OF rep e v] e
    by (subst iterator_next_loop.simps) (simp add: in_ns_def)
qed

lemma resolve_ok: "rep C s A \<Longrightarrow> idle A \<Longrightarrow> resolve_locked Z s = Some (ASTARTE_RESULT_OK, s)"
  using reliable_store_axioms by (elim resolve_locked_idle) auto

lemma iterator_next_ok:
  assumes "rep C s A" and "stored Z A (xs @ ys)" and "idle A" and "valid_name (kv_namespace kv)"
  shows "iterator_next Z kv (last_id NULL_ID xs) s
    = Some (head_result (ns_ids (ka_ent A) (kv_namespace kv) ys), s)"
  using resolve_ok [OF assms(1,3)] iterator_next_loop_ok [OF assms(1,2,4)]
  by (simp add: iterator_next_def)

text \<open>From an entry of the list.\<close>

lemma iterator_next_from:
  assumes "rep C s A" and "stored Z A (xs @ i # ys)" and "idle A" and "valid_name (kv_namespace kv)"
  shows "iterator_next Z kv i s = Some (head_result (ns_ids (ka_ent A) (kv_namespace kv) ys), s)"
  using iterator_next_ok [of s A "xs @ [i]" ys kv] assms by simp

lemma iterator_init_ok:
  assumes "rep C s A" and "stored Z A ids" and "idle A" and "valid_name (kv_namespace kv)"
  shows "iterator_init Z kv s = Some (head_result (ns_ids (ka_ent A) (kv_namespace kv) ids), s)"
  using iterator_next_ok [of s A "[]" ids kv] assms by (simp add: iterator_init_def)

lemma iterator_get_ok:
  assumes rep: "rep C s A" and id: "idle A" and e: "ka_ent A i = Some e" and n: "length (e_key e) < n"
  shows "iterator_get Z i (Some n) s = Some (Inr (length (e_key e) + 1, e_key e @ [0]), s)"
  using resolve_ok [OF rep id] header_ok [OF rep e] repD(3) [OF rep e] n
  by (simp add: iterator_get_def entry_read_key_def entry_header_of_def)

lemma iterator_get_size_ok:
  assumes rep: "rep C s A" and id: "idle A" and e: "ka_ent A i = Some e"
  shows "iterator_get Z i None s = Some (Inr (length (e_key e) + 1, []), s)"
  using resolve_ok [OF rep id] header_ok [OF rep e] repD(3) [OF rep e]
  by (simp add: iterator_get_def entry_read_key_def entry_header_of_def)

end

section \<open>Enumeration\<close>

text \<open>
  The protocol of a client that lists a namespace, at most \<open>fuel\<close> keys: \<open>iterator_get\<close> with a
  buffer for the longest key, then \<open>iterator_next\<close>, until \<open>NOT_FOUND\<close>.
\<close>

primrec iterate_keys ::
    "'s kv_env \<Rightarrow> kv_storage \<Rightarrow> nat \<Rightarrow> astarte_result_t + u32 \<Rightarrow> 's \<Rightarrow> byte list list option" where
  "iterate_keys Z kv 0 iter_res s = None"
| "iterate_keys Z kv (Suc fuel) iter_res s =
     (case iter_res of
        Inl ares \<Rightarrow> if ares = ASTARTE_RESULT_NOT_FOUND then Some [] else None
      | Inr current_id \<Rightarrow> do {
          (r, s) \<leftarrow> iterator_get Z current_id (Some 65536) s;
          case r of Inl ares \<Rightarrow> None
          | Inr (n, key) \<Rightarrow> do {
              (iter_res, s) \<leftarrow> iterator_next Z kv current_id s;
              keys \<leftarrow> iterate_keys Z kv fuel iter_res s;
              Some (c_string key # keys)
            }
        })"

definition list_namespace :: "'s kv_env \<Rightarrow> kv_storage \<Rightarrow> nat \<Rightarrow> 's \<Rightarrow> byte list list option" where
  "list_namespace Z kv fuel s = do {
     (iter_res, s) \<leftarrow> iterator_init Z kv s;
     iterate_keys Z kv fuel iter_res s
   }"

lemma c_string_snoc: "nul_free k \<Longrightarrow> c_string (k @ [0]) = k"
  by (auto simp: c_string_def nul_free_def takeWhile_append)

lemma ns_keys_pairs_none:
  assumes "ns_ids ent ns ids = []" and "set ids \<subseteq> dom ent"
  shows "ns_keys ns (pairs_of ent ids) = []" "ns_size ns (pairs_of ent ids) = 0"
  using assms by (induction ids) (auto simp: in_ns_def entry_kv_def split: if_splits)

text \<open>
  The keys a client gets from an iterator whose last result is \<open>r\<close>, as long as the store is left
  alone; a loop over an iterator is shown by induction over this relation.
\<close>

inductive key_cursor :: "'s kv_env \<Rightarrow> kv_storage \<Rightarrow> 's \<Rightarrow> astarte_result_t + u32 \<Rightarrow> byte list list \<Rightarrow> bool"
  for Z :: "'s kv_env" and kv s where
  none: "key_cursor Z kv s (Inl ASTARTE_RESULT_NOT_FOUND) []"
| key: "valid_name k \<Longrightarrow> iterator_get Z i None s = Some (Inr (length k + 1, []), s) \<Longrightarrow>
    (\<And>n. length k < n \<Longrightarrow> iterator_get Z i (Some n) s = Some (Inr (length k + 1, k @ [0]), s)) \<Longrightarrow>
    iterator_next Z kv i s = Some (r, s) \<Longrightarrow> key_cursor Z kv s r ks \<Longrightarrow> key_cursor Z kv s (Inr i) (k # ks)"

context reliable_store begin

lemma lists_ok:
  assumes rep: "rep C s A" and st: "stored Z A (xs @ ys)" and id: "idle A" and v: "valid_name (kv_namespace kv)"
  shows "key_cursor Z kv s (head_result (ns_ids (ka_ent A) (kv_namespace kv) ys))
    (ns_keys (kv_namespace kv) (pairs_of (ka_ent A) ys))"
  using st
proof (induction "length ys" arbitrary: xs ys rule: less_induct)
  case less
  have dm: "set ys \<subseteq> dom (ka_ent A)" using storedD(5) [OF less.prems] by auto
  show ?case
  proof (cases "ns_ids (ka_ent A) (kv_namespace kv) ys")
    case Nil
    then show ?thesis using ns_keys_pairs_none(1) [OF Nil dm] by (simp add: key_cursor.none)
  next
    case (Cons i "is")
    then obtain us vs where ys: "ys = us @ i # vs" and us: "ns_ids (ka_ent A) (kv_namespace kv) us = []"
      and vs: "ns_ids (ka_ent A) (kv_namespace kv) vs = is" and i: "in_ns (ka_ent A) (kv_namespace kv) i"
      by (rule ns_ids_split)
    obtain e where e: "ka_ent A i = Some e" "e_ns e = kv_namespace kv"
      using i by (auto simp: in_ns_def split: option.splits)
    have ve: "valid_name (e_key e)" using repD(3) [OF rep e(1)] by (simp add: valid_entry_def)
    have st': "stored Z A ((xs @ us) @ i # vs)" "stored Z A ((xs @ us @ [i]) @ vs)"
      using less.prems ys by simp_all
    have "iterator_next Z kv i s = Some (head_result is, s)"
      using iterator_next_from [OF rep st'(1) id v] vs by simp
    moreover have "key_cursor Z kv s (head_result is) (ns_keys (kv_namespace kv) (pairs_of (ka_ent A) vs))"
      using less.hyps [OF _ st'(2)] ys vs by simp
    moreover have "ns_keys (kv_namespace kv) (pairs_of (ka_ent A) us) = []"
      using ns_keys_pairs_none(1) [OF us] dm ys by simp
    ultimately show ?thesis
      using iterator_get_ok [OF rep id e(1)] iterator_get_size_ok [OF rep id e(1)] ve e Cons ys
      by (simp add: entry_kv_def) (rule key_cursor.key, auto)
  qed
qed

lemma iterator_lists:
  assumes "kv_rep Z C R s al" and "valid_name (kv_namespace kv)"
  obtains r where "iterator_init Z kv s = Some (r, s)" "key_cursor Z kv s r (ns_keys (kv_namespace kv) al)"
proof -
  from assms(1) obtain A ids where rep: "rep C s A" and st: "stored Z A ids"
    and al: "pairs_of (ka_ent A) ids = al" and id: "idle A" by (rule kv_repE)
  show thesis
    using that iterator_init_ok [OF rep st id assms(2)] lists_ok [of s A "[]" ids kv] rep st id assms(2) al by simp
qed

end

lemma iterate_keys_lists:
  "key_cursor Z kv s r ks \<Longrightarrow> length ks < fuel \<Longrightarrow> iterate_keys Z kv fuel r s = Some ks"
proof (induction arbitrary: fuel rule: key_cursor.induct)
  case none
  then show ?case by (cases fuel) simp_all
next
  case (key i k r ks)
  then show ?case by (cases fuel) (simp_all add: c_string_snoc valid_name_def)
qed

context reliable_store begin

lemma list_namespace_ok:
  assumes "kv_rep Z C R s al" and "valid_name (kv_namespace kv)" and "length al < fuel"
  shows "list_namespace Z kv fuel s = Some (ns_keys (kv_namespace kv) al)"
proof -
  from iterator_lists [OF assms(1,2)] obtain r where
    r: "iterator_init Z kv s = Some (r, s)" "key_cursor Z kv s r (ns_keys (kv_namespace kv) al)" .
  have "length (ns_keys (kv_namespace kv) al) \<le> length al" by (induction al) auto
  then show ?thesis
    using r iterate_keys_lists [OF r(2)] assms(3) by (simp add: list_namespace_def)
qed

section \<open>Usage of a new handle\<close>

lemma usage_loop_ok:
  assumes rep: "rep C s A" and st: "stored Z A (xs @ ys)" and id: "idle A" and v: "valid_name (kv_namespace kv)"
  shows "usage_loop Z kv (head_result (ns_ids (ka_ent A) (kv_namespace kv) ys)) s
    = Some (kv\<lparr>kv_current_usage_bytes := kv_current_usage_bytes kv
        + of_nat (ns_size (kv_namespace kv) (pairs_of (ka_ent A) ys))\<rparr>, s)"
  using st v
proof (induction "length ys" arbitrary: xs ys kv rule: less_induct)
  case less
  have dm: "set ys \<subseteq> dom (ka_ent A)" using storedD(5) [OF less.prems(1)] by auto
  show ?case
  proof (cases "ns_ids (ka_ent A) (kv_namespace kv) ys")
    case Nil
    then show ?thesis
      using ns_keys_pairs_none(2) [OF Nil dm] by (subst usage_loop.simps) simp
  next
    case (Cons i "is")
    then obtain us vs where ys: "ys = us @ i # vs" and us: "ns_ids (ka_ent A) (kv_namespace kv) us = []"
      and vs: "ns_ids (ka_ent A) (kv_namespace kv) vs = is" and i: "in_ns (ka_ent A) (kv_namespace kv) i"
      by (rule ns_ids_split)
    obtain e where e: "ka_ent A i = Some e" "e_ns e = kv_namespace kv"
      using i by (auto simp: in_ns_def split: option.splits)
    have st': "stored Z A ((xs @ us) @ i # vs)" "stored Z A ((xs @ us @ [i]) @ vs)"
      using less.prems(1) ys by simp_all
    let ?kv = "kv\<lparr>kv_current_usage_bytes := kv_current_usage_bytes kv + of_nat (length (e_val e))\<rparr>"
    have "iterator_next Z ?kv i s = Some (head_result is, s)"
      using iterator_next_from [OF rep st'(1) id, of ?kv] vs less.prems(2) by simp
    moreover have "usage_loop Z ?kv (head_result is) s = Some (?kv\<lparr>kv_current_usage_bytes :=
        kv_current_usage_bytes ?kv + of_nat (ns_size (kv_namespace kv) (pairs_of (ka_ent A) vs))\<rparr>, s)"
      using less.hyps [of vs "xs @ us @ [i]" ?kv] st'(2) less.prems(2) ys vs by simp
    moreover have "ns_size (kv_namespace kv) (pairs_of (ka_ent A) us) = 0"
      using ns_keys_pairs_none(2) [OF us] dm ys by simp
    ultimately show ?thesis
      using read_value_size [OF rep e(1)] e Cons ys
      by (subst usage_loop.simps) (simp add: entry_kv_def algebra_simps)
  qed
qed

end

section \<open>Deletion at an iterator\<close>

text \<open>The record under \<open>i\<close> is an entry for the key \<open>k\<close>.\<close>

definition entry_at :: "('s \<Rightarrow> u32 \<rightharpoonup> byte list) \<Rightarrow> 's \<Rightarrow> u32 \<Rightarrow> kv_key \<Rightarrow> bool" where
  "entry_at C s i k \<longleftrightarrow> usable i
     \<and> (\<exists>e. valid_entry e \<and> C s i = Some (kv_image e) \<and> k = (e_ns e, e_key e))"

lemma kv_image_names:
  assumes "kv_image e = kv_image f" and "valid_entry e" and "valid_entry f"
  shows "e_ns e = e_ns f" "e_key e = e_key f" "e_val e = e_val f"
proof -
  have "entry_fixed e = entry_fixed f"
    using assms(1) parse_fixed_image by metis
  then have "unat (hf_namespace_len (entry_fixed e)) = unat (hf_namespace_len (entry_fixed f))"
    "unat (hf_key_len (entry_fixed e)) = unat (hf_key_len (entry_fixed f))" by simp_all
  then have l: "length (e_ns e) = length (e_ns f)" "length (e_key e) = length (e_key f)"
    using assms(2,3) by (simp_all add: entry_fixed_def valid_entry_def valid_name_def unat_of_nat_u16)
  show "e_ns e = e_ns f" "e_key e = e_key f" "e_val e = e_val f"
    using image_names [of e] image_names [of f] assms(1) l by metis+
qed

lemma entry_at_rep:
  assumes "rep C s A" and "entry_at C s i k"
  obtains e where "ka_ent A i = Some e" "k = (e_ns e, e_key e)"
proof -
  from assms(2) obtain e where u: "usable i" and v: "valid_entry e"
    and c: "C s i = Some (kv_image e)" and k: "k = (e_ns e, e_key e)" by (auto simp: entry_at_def)
  then obtain f where f: "ka_ent A i = Some f" "kv_image f = kv_image e"
    using repD(1) [OF assms(1) u] by auto
  then show thesis
    using kv_image_names [OF f(2) repD(3) [OF assms(1) f(1)] v] k by (intro that [OF f(1)]) simp
qed

lemma rep_entry_at: "rep C s A \<Longrightarrow> ka_ent A i = Some e \<Longrightarrow> entry_at C s i (e_ns e, e_key e)"
  unfolding entry_at_def by (intro conjI exI [of _ e]) (simp_all add: repD)

text \<open>What the iterator yields when the keys that are left are \<open>keys\<close>.\<close>

definition yields :: "('s \<Rightarrow> u32 \<rightharpoonup> byte list) \<Rightarrow> 's \<Rightarrow> byte list \<Rightarrow> byte list list \<Rightarrow> astarte_result_t + u32 \<Rightarrow> bool" where
  "yields C s ns keys r = (case keys of
       [] \<Rightarrow> r = Inl ASTARTE_RESULT_NOT_FOUND
     | key # _ \<Rightarrow> (\<exists>i. r = Inr i \<and> entry_at C s i (ns, key)))"

lemma yields_head:
  assumes "rep C s A" and "set ys \<subseteq> dom (ka_ent A)"
  shows "yields C s ns (ns_keys ns (pairs_of (ka_ent A) ys)) (head_result (ns_ids (ka_ent A) ns ys))"
proof (cases "ns_ids (ka_ent A) ns ys")
  case Nil
  then show ?thesis using ns_keys_pairs_none(1) [OF Nil assms(2)] by (simp add: yields_def)
next
  case (Cons i "is")
  then obtain us vs where ys: "ys = us @ i # vs" "ns_ids (ka_ent A) ns us = []" "in_ns (ka_ent A) ns i"
    by (rule ns_ids_split)
  then obtain e where e: "ka_ent A i = Some e" "e_ns e = ns"
    by (auto simp: in_ns_def split: option.splits)
  have "ns_keys ns (pairs_of (ka_ent A) us) = []"
    using ns_keys_pairs_none(1) [OF ys(2)] assms(2) ys(1) by simp
  then show ?thesis
    using Cons ys(1) e rep_entry_at [OF assms(1) e(1)] by (simp add: yields_def entry_kv_def)
qed

lemma pairs_split:
  assumes "stored Z A ids" and "pairs_of (ka_ent A) ids = pre @ (k, v) # post"
    and "ka_ent A i = Some e" and "k = (e_ns e, e_key e)"
  obtains xs ys where "ids = xs @ i # ys" "pairs_of (ka_ent A) xs = pre" "pairs_of (ka_ent A) ys = post"
    "v = e_val e"
proof -
  from assms(2) obtain xs j ys where ids: "ids = xs @ j # ys" and xs: "pairs_of (ka_ent A) xs = pre"
    and j: "entry_kv (the (ka_ent A j)) = (k, v)" and ys: "pairs_of (ka_ent A) ys = post"
    unfolding pairs_of_def map_eq_append_conv Cons_eq_map_conv eq_commute [of "_ # _" "map _ _"]
    by (elim exE conjE) simp
  have "j \<in> dom (ka_ent A)" using ids storedD(5) [OF assms(1)] by auto
  then obtain f where f: "ka_ent A j = Some f" by auto
  then have fk: "k = (e_ns f, e_key f)" "v = e_val f" using j by (simp_all add: entry_kv_def)
  have "keys_of (ka_ent A) j = Some k" "keys_of (ka_ent A) i = Some k"
    using f assms(3,4) fk(1) by (simp_all add: keys_of_def)
  then have ji: "j = i" by (rule unique_keysD [OF storedD(2) [OF assms(1)]])
  then have "v = e_val e" using fk(2) f assms(3) by simp
  with ids [unfolded ji] xs ys show thesis by (rule that)
qed

context reliable_store begin

lemma find_next_matching_ok:
  assumes rep: "rep C s A" and "stored Z A (xs @ i # ys)" and v: "valid_name ns"
  shows "find_next_matching_loop Z s ns i = Some (Inr (case ns_ids (ka_ent A) ns ys of [] \<Rightarrow> None | j # _ \<Rightarrow> Some j))"
  using assms(2)
proof (induction ys arbitrary: xs i)
  case Nil
  then show ?case
    using get_next_id_ok [OF rep, of "xs @ [i]" "[]"] by (subst find_next_matching_loop.simps) simp
next
  case (Cons j ys)
  have st: "stored Z A ((xs @ [i]) @ j # ys)" using Cons.prems by simp
  have "j \<in> dom (ka_ent A)" using storedD(5) [OF st] by auto
  then obtain e where e: "ka_ent A j = Some e" by auto
  have "j \<noteq> NULL_ID" using linked_usable [OF storedD(1) [OF st] e] by auto
  then show ?case
    using get_next_id_ok [OF rep st] check_namespace_ok [OF rep e v] e Cons.IH [OF st]
    by (subst find_next_matching_loop.simps) (simp add: in_ns_def)
qed

lemma read_next_key_ok:
  assumes rep: "rep C s A" and e: "ka_ent A i = Some e"
  shows "read_next_key Z s i = Inr (e_key e)"
proof -
  have v: "valid_entry e" using rep e by (rule repD)
  then have "nul_free (e_key e)" by (simp add: valid_entry_def valid_name_def)
  then show ?thesis
    using header_ok [OF rep e] v heap_ok
    by (simp add: read_next_key_def entry_read_key_def entry_header_of_def c_string_snoc Let_def)
qed

lemma entry_delete_ok:
  assumes "rep C s A" and "stored Z A ids" and "ka_ent A i = Some e"
  obtains s' B where "entry_delete Z i s = Some (ASTARTE_RESULT_OK, s')" "rep C s' B"
    "kv_good Z (AList.delete (e_ns e, e_key e) (pairs_of (ka_ent A) ids)) (ka_rest A) B" "idle B"
proof -
  from entry_delete_spec [OF assms] obtain p where p: "entry_delete Z i s = Some p"
    and rp: "runs Z C p (kept (AList.delete (e_ns e, e_key e) (pairs_of (ka_ent A) ids)) (ka_rest A))
      (\<lambda>B. kv_good Z (AList.delete (e_ns e, e_key e) (pairs_of (ka_ent A) ids)) (ka_rest A) B \<and> idle B)"
    by (auto simp: runs_opt_def)
  from rp show thesis
    using p that reliable_store_axioms by (cases rule: runs_cases) auto
qed

lemma heal_ok:
  assumes kr: "kv_rep Z C R s al" and v: "valid_name (kv_namespace kv)" "valid_name key"
    and al: "al = pre @ ((kv_namespace kv, key), val) # post"
  obtains cur j where "heal_iterator_post_delete Z s (kv_namespace kv) key = Some (Inr cur)"
    "iterator_next Z kv cur s = Some (Inr j, s)" "entry_at C s j (kv_namespace kv, key)"
proof -
  let ?k = "(kv_namespace kv, key)"
  from kr obtain A ids where rep: "rep C s A" and st: "stored Z A ids"
    and pal: "pairs_of (ka_ent A) ids = al" and id: "idle A" by (rule kv_repE)
  from find_slot [OF rep st v pal] obtain r
    where slot: "entry_find_or_alloc Z s (kv_namespace kv) key False = Some r"
      and sr: "slot_kv Z C s A al ?k r" by blast
  have "map_of al ?k \<noteq> None" by (simp add: al map_of_eq_None_iff)
  then obtain j e where r: "r = Inr j" and e: "ka_ent A j = Some e" "(e_ns e, e_key e) = ?k"
    using sr reliable_store_axioms unfolding slot_kv_def by auto
  from storedD(1) [OF st] e(1) obtain us vs where ids: "ids = us @ j # vs"
    and pr: "e_prev e = last_id NULL_ID us" by (rule linked_split)
  have ju: "j \<noteq> NULL_ID" using linked_usable [OF storedD(1) [OF st] e(1)] by auto
  have "heal_iterator_post_delete Z s (kv_namespace kv) key = Some (Inr (last_id NULL_ID us))"
    using slot r header_fixed_Some [OF rep e(1)] pr ju
    by (simp add: heal_iterator_post_delete_def entry_get_prev_id_def entry_fixed_def)
  moreover have "iterator_next Z kv (last_id NULL_ID us) s = Some (Inr j, s)"
    using iterator_next_ok [OF rep st [unfolded ids] id v(1)] e by (simp add: in_ns_def)
  ultimately show thesis
    using rep_entry_at [OF rep e(1)] e(2) by (intro that) simp_all
qed

lemma iterator_delete_ok:
  assumes kr: "kv_rep Z C R s al" and v: "valid_name (kv_namespace kv)"
    and i: "entry_at C s i k" and al: "al = pre @ (k, val) # post"
  shows "\<exists>cur s'. iterator_delete Z kv i s
      = Some (ASTARTE_RESULT_OK, discharged kv (length val), cur, s')
    \<and> kv_rep Z C R s' (AList.delete k al)
    \<and> (if ns_keys (kv_namespace kv) post = [] then cur = NULL_ID
       else \<exists>r. iterator_next Z kv cur s' = Some (r, s') \<and> yields C s' (kv_namespace kv)
         (ns_keys (kv_namespace kv) post) r)"
proof -
  let ?ns = "kv_namespace kv"
  from kr obtain A ids where rep: "rep C s A" and st: "stored Z A ids"
    and pal: "pairs_of (ka_ent A) ids = al" and R: "ka_rest A = R" and id: "idle A" by (rule kv_repE)
  from rep i obtain e where e: "ka_ent A i = Some e" "k = (e_ns e, e_key e)" by (rule entry_at_rep)
  from st pal [unfolded al] e obtain xs ys where ids: "ids = xs @ i # ys"
    and ys: "pairs_of (ka_ent A) ys = post" and val: "val = e_val e" by (rule pairs_split)
  have i0: "i \<noteq> 0" using repD(2) [OF rep e(1)] by (auto simp: usable_unat)
  have dm: "set ys \<subseteq> dom (ka_ent A)" using storedD(5) [OF st] ids by auto
  have sz: "deleted_size Z kv i s = (if kv_max_quota_bytes kv > 0 then of_nat (length val) else 0)"
    using read_value_size [OF rep e(1)] val by (simp add: deleted_size_def)
  from rep st e(1) obtain s' B where d: "entry_delete Z i s = Some (ASTARTE_RESULT_OK, s')"
    and rB: "rep C s' B" "kv_good Z (AList.delete (e_ns e, e_key e) (pairs_of (ka_ent A) ids)) (ka_rest A) B"
      "idle B"
    by (rule entry_delete_ok)
  have kr': "kv_rep Z C R s' (AList.delete k al)"
    using rB e(2) pal R by (auto simp: kv_rep_def)
  note base = resolve_ok [OF rep id] find_next_matching_ok [OF rep st [unfolded ids] v] sz d i0
  show ?thesis
  proof (cases "ns_ids (ka_ent A) ?ns ys")
    case Nil
    then show ?thesis
      using base kr' ns_keys_pairs_none(1) [OF Nil dm] ys
      by (simp add: iterator_delete_def discharged_def)
  next
    case (Cons j "is")
    then obtain us vs where ysu: "ys = us @ j # vs" and us: "ns_ids (ka_ent A) ?ns us = []"
      and j: "in_ns (ka_ent A) ?ns j" by (rule ns_ids_split)
    obtain f where f: "ka_ent A j = Some f" "e_ns f = ?ns"
      using j by (auto simp: in_ns_def split: option.splits)
    have post: "post = pairs_of (ka_ent A) us @ ((?ns, e_key f), e_val f) # pairs_of (ka_ent A) vs"
      using ys ysu f by (simp add: entry_kv_def)
    have "k \<noteq> (?ns, e_key f)"
    proof
      assume "k = (?ns, e_key f)"
      then have "keys_of (ka_ent A) i = Some k" "keys_of (ka_ent A) j = Some k"
        using e f by (simp_all add: keys_of_def)
      then have "i = j" by (rule unique_keysD [OF storedD(2) [OF st]])
      then show False using storedD(6) [OF st] ids ysu by auto
    qed
    then have al': "AList.delete k al = (AList.delete k (pre @ (k, val) # pairs_of (ka_ent A) us))
        @ ((?ns, e_key f), e_val f) # AList.delete k (pairs_of (ka_ent A) vs)"
      by (simp add: al post AList.delete_eq)
    have "valid_name (e_key f)" using repD(3) [OF rep f(1)] by (simp add: valid_entry_def)
    from heal_ok [OF kr' v this al'] obtain cur l where
      h: "heal_iterator_post_delete Z s' ?ns (e_key f) = Some (Inr cur)"
      "iterator_next Z kv cur s' = Some (Inr l, s')" "entry_at C s' l (?ns, e_key f)" by blast
    have "ns_keys ?ns post = e_key f # ns_keys ?ns (pairs_of (ka_ent A) vs)"
      using post ns_keys_pairs_none(1) [OF us] dm ysu by simp
    moreover have "kv_namespace (account_deletion kv x) = ?ns" for x
      by (simp add: account_deletion_def)
    moreover have "iterator_delete Z kv i s
        = Some (ASTARTE_RESULT_OK, discharged kv (length val), cur, s')"
      unfolding iterator_delete_def
      using base Cons read_next_key_ok [OF rep f(1)] h(1) calculation(2)
      by (simp add: discharged_def)
    ultimately show ?thesis
      using kr' h(2,3) by (auto simp: yields_def)
  qed
qed

text \<open>A cursor on a key of the store: its entry, and where the iterator goes from it.\<close>

lemma yields_split:
  assumes kr: "kv_rep Z C R s al" and al: "al = pre @ post"
    and y: "yields C s ns (ns_keys ns post) (Inr i)"
  obtains A xs ys e us vs where "rep C s A" "stored Z A (xs @ i # ys)" "idle A" "ka_ent A i = Some e" "e_ns e = ns"
    "post = us @ ((ns, e_key e), e_val e) # vs" "ns_keys ns us = []" "pairs_of (ka_ent A) ys = vs"
proof -
  from y obtain k ks where ks: "ns_keys ns post = k # ks" and i: "entry_at C s i (ns, k)"
    by (auto simp: yields_def split: list.splits)
  from ks obtain us val vs where post: "post = us @ ((ns, k), val) # vs" and us: "ns_keys ns us = []"
    by (rule ns_keys_split)
  from kr obtain A ids where rep: "rep C s A" and st: "stored Z A ids"
    and pal: "pairs_of (ka_ent A) ids = al" and id: "idle A" by (rule kv_repE)
  from rep i obtain e where e: "ka_ent A i = Some e" "(ns, k) = (e_ns e, e_key e)" by (rule entry_at_rep)
  from st pal [unfolded al post append_assoc [symmetric]] e obtain xs ys where ids: "ids = xs @ i # ys"
    and ys: "pairs_of (ka_ent A) ys = vs" and val: "val = e_val e" by (rule pairs_split)
  show thesis
    using rep st id e us ys post val unfolding ids by (intro that) auto
qed

lemma cursor_from:
  assumes kr: "kv_rep Z C R s al" and v: "valid_name (kv_namespace kv)" and al: "al = pre @ post"
    and y: "yields C s (kv_namespace kv) (ns_keys (kv_namespace kv) post) (Inr i)"
  shows "key_cursor Z kv s (Inr i) (ns_keys (kv_namespace kv) post)"
  using kr al y
proof (cases rule: yields_split)
  case (1 A xs ys e us vs)
  have "in_ns (ka_ent A) (kv_namespace kv) i" using 1 by (simp add: in_ns_def)
  then show ?thesis using lists_ok [OF 1(1,2,3) v] 1(4-) by (simp add: entry_kv_def)
qed

lemma next_yields:
  assumes kr: "kv_rep Z C R s al" and v: "valid_name (kv_namespace kv)" and al: "al = pre @ post"
    and y: "yields C s (kv_namespace kv) (ns_keys (kv_namespace kv) post) (Inr i)"
  obtains us x vs r where "post = us @ ((kv_namespace kv, hd (ns_keys (kv_namespace kv) post)), x) # vs"
    "ns_keys (kv_namespace kv) us = []" "iterator_next Z kv i s = Some (r, s)"
    "yields C s (kv_namespace kv) (ns_keys (kv_namespace kv) vs) r"
  using kr al y
proof (cases rule: yields_split)
  case (1 A xs ys e us vs)
  have "set ys \<subseteq> dom (ka_ent A)" using storedD(5) [OF 1(2)] by auto
  then show ?thesis
    using that [of us "e_val e" vs] iterator_next_from [OF 1(1,2,3) v] yields_head [OF 1(1), of ys] 1(6-) by simp
qed

lemma restart_yields:
  assumes "kv_rep Z C R s al" and "valid_name (kv_namespace kv)"
  obtains r where "iterator_next Z kv NULL_ID s = Some (r, s)"
    "yields C s (kv_namespace kv) (ns_keys (kv_namespace kv) al) r"
proof -
  from assms(1) obtain A ids where rep: "rep C s A" and st: "stored Z A ids"
    and al: "pairs_of (ka_ent A) ids = al" and id: "idle A" by (rule kv_repE)
  have "set ids \<subseteq> dom (ka_ent A)" using storedD(5) [OF st] by auto
  then show thesis
    using that iterator_next_ok [of s A "[]" ids kv] yields_head [OF rep, of ids] rep st id assms(2) al by simp
qed

end

end
