(* ===== verification/Refine.thy ===== *)
theory Refine
  imports Prelude
begin

text \<open>
  Refinement of a component by operations.  \<open>step\<close> runs an operation of the code on a state,
  \<open>spec\<close> is its abstract counterpart on the value the state stands for (\<open>rel\<close>).  A component
  that meets the locale's law operation by operation answers every sequence of operations that
  stays within its capacity (\<open>may\<close>) as its specification does.
\<close>

primrec run_steps :: "('o \<Rightarrow> 's \<Rightarrow> ('r \<times> 's) option) \<Rightarrow> 'o list \<Rightarrow> 's \<Rightarrow> ('r list \<times> 's) option" where
  "run_steps step [] s = Some ([], s)"
| "run_steps step (x # xs) s = (case step x s of None \<Rightarrow> None
     | Some (r, s) \<Rightarrow> (case run_steps step xs s of None \<Rightarrow> None | Some (rs, s) \<Rightarrow> Some (r # rs, s)))"

primrec run_spec :: "('o \<Rightarrow> 'a \<Rightarrow> 'r \<times> 'a) \<Rightarrow> 'o list \<Rightarrow> 'a \<Rightarrow> 'r list \<times> 'a" where
  "run_spec spec [] a = ([], a)"
| "run_spec spec (x # xs) a = (case spec x a of (r, a) \<Rightarrow> (case run_spec spec xs a of (rs, a) \<Rightarrow> (r # rs, a)))"

locale refinement =
  fixes step :: "'o \<Rightarrow> 's \<Rightarrow> ('r \<times> 's) option"
    and spec :: "'o \<Rightarrow> 'a \<Rightarrow> 'r \<times> 'a"
    and rel :: "'s \<Rightarrow> 'a \<Rightarrow> bool"
    and may :: "'a \<Rightarrow> 'o list \<Rightarrow> bool"
  assumes refines: "rel s a \<Longrightarrow> may a (x # xs) \<Longrightarrow>
      \<exists>s'. step x s = Some (fst (spec x a), s') \<and> rel s' (snd (spec x a))"
    and may_tl: "may a (x # xs) \<Longrightarrow> may (snd (spec x a)) xs"
begin

lemma run_refines:
  assumes "rel s a" and "may a xs"
  shows "\<exists>s'. run_steps step xs s = Some (fst (run_spec spec xs a), s') \<and> rel s' (snd (run_spec spec xs a))"
  using assms
proof (induction xs arbitrary: s a)
  case Nil
  then show ?case by simp
next
  case (Cons x xs)
  from refines [OF Cons.prems] obtain s1 where
    s1: "step x s = Some (fst (spec x a), s1)" "rel s1 (snd (spec x a))" by blast
  from Cons.IH [OF s1(2) may_tl [OF Cons.prems(2)]] obtain s2 where
    "run_steps step xs s1 = Some (fst (run_spec spec xs (snd (spec x a))), s2)"
    "rel s2 (snd (run_spec spec xs (snd (spec x a))))" by blast
  with s1(1) show ?case by (auto simp: case_prod_beta)
qed

end

end
