(* ===== verification/KV_Contract.thy ===== *)
theory KV_Contract
  imports KV_Iter Refine
begin

text \<open>
  The contract of the key-value store as a client sees it.  Beyond the single operations, every
  sequence of insertions, look-ups and deletions on a device that works is answered as by an
  association list; this is the interface \<open>refinement\<close> for the operations of core.c.
\<close>

section \<open>Capacity\<close>

lemma card_usable: "card (Collect usable) = ring_size"
proof -
  have "Collect usable = (word_of_nat :: nat \<Rightarrow> u32) ` {131072..4294967291}"
  proof (intro equalityI subsetI)
    fix i :: u32 assume "i \<in> Collect usable"
    then have "unat i \<in> {131072..4294967291}" by (simp add: usable_unat)
    moreover have "i = word_of_nat (unat i)" by simp
    ultimately show "i \<in> (word_of_nat :: nat \<Rightarrow> u32) ` {131072..4294967291}" by blast
  next
    fix i :: u32 assume "i \<in> word_of_nat ` {131072..4294967291}"
    then show "i \<in> Collect usable"
      by (auto simp: usable_unat unsigned_of_nat take_bit_eq_mod)
  qed
  moreover have "inj_on (word_of_nat :: nat \<Rightarrow> u32) {131072..4294967291}"
  proof (rule inj_onI)
    fix m n :: nat assume "m \<in> {131072..4294967291}" "n \<in> {131072..4294967291}"
      and "(word_of_nat m :: u32) = word_of_nat n"
    then have "unat (word_of_nat m :: u32) = unat (word_of_nat n :: u32)" "m < 2 ^ 32" "n < 2 ^ 32" by simp_all
    then show "m = n" by (simp add: unsigned_of_nat take_bit_eq_mod)
  qed
  ultimately show ?thesis by (simp add: card_image ring_size_def)
qed

lemma all_used_length:
  assumes "kv_rep Z C R s al" and "all_used C s"
  shows "length al = ring_size"
proof -
  from assms(1) obtain A ids where rep: "rep C s A" and st: "stored Z A ids"
    and al: "pairs_of (ka_ent A) ids = al" by (rule kv_repE)
  have "Collect usable \<subseteq> dom (ka_ent A)"
  proof
    fix i :: u32 assume "i \<in> Collect usable"
    then show "i \<in> dom (ka_ent A)"
      using assms(2) repD(5) [OF rep, of i] by (cases "ka_ent A i") (auto simp: all_used_def)
  qed
  then have "set ids = Collect usable" using storedD(4,5) [OF st] by auto
  then have "length ids = ring_size"
    using distinct_card [OF storedD(6) [OF st]] card_usable by simp
  then show ?thesis using al by (auto simp: pairs_of_def)
qed

lemma alist_update_length: "length (AList.update k v al) \<le> Suc (length al)"
  by (induction al) auto

lemma alist_delete_length: "length (AList.delete k al) \<le> length al"
  by (simp add: AList.delete_eq)

section \<open>Sequences of operations\<close>

datatype kv_op = Insert "byte list" "byte list" | Find "byte list" | Delete "byte list"

text \<open>The code's answer: the result, and the value when there is one.\<close>

definition kv_step ::
    "'s kv_env \<Rightarrow> kv_storage \<Rightarrow> kv_op \<Rightarrow> 's \<Rightarrow> ((astarte_result_t \<times> byte list) \<times> 's) option" where
  "kv_step Z kv x s = (case x of
       Insert key val \<Rightarrow> do { (r, kv', s) \<leftarrow> key_value_insert Z kv key val s; Some ((r, []), s) }
     | Find key \<Rightarrow> do {
         (q, s) \<leftarrow> key_value_find Z kv key None s;
         case q of Inl r \<Rightarrow> Some ((r, []), s)
         | Inr (n, _) \<Rightarrow> do {
             (q, s) \<leftarrow> key_value_find Z kv key (Some n) s;
             case q of Inl r \<Rightarrow> Some ((r, []), s) | Inr (n, val) \<Rightarrow> Some ((ASTARTE_RESULT_OK, val), s)
           }
       }
     | Delete key \<Rightarrow> do { (r, kv', s) \<leftarrow> key_value_delete Z kv key s; Some ((r, []), s) })"

definition kv_spec ::
    "byte list \<Rightarrow> kv_op \<Rightarrow> (kv_key \<times> byte list) list \<Rightarrow> (astarte_result_t \<times> byte list) \<times> (kv_key \<times> byte list) list" where
  "kv_spec ns x al = (case x of
       Insert key val \<Rightarrow> ((ASTARTE_RESULT_OK, []), AList.update (ns, key) val al)
     | Find key \<Rightarrow> ((case map_of al (ns, key) of None \<Rightarrow> (ASTARTE_RESULT_NOT_FOUND, [])
         | Some val \<Rightarrow> (ASTARTE_RESULT_OK, val)), al)
     | Delete key \<Rightarrow> (case map_of al (ns, key) of None \<Rightarrow> ((ASTARTE_RESULT_NOT_FOUND, []), al)
         | Some _ \<Rightarrow> ((ASTARTE_RESULT_OK, []), AList.delete (ns, key) al)))"

definition op_key :: "kv_op \<Rightarrow> byte list" where
  "op_key x = (case x of Insert key _ \<Rightarrow> key | Find key \<Rightarrow> key | Delete key \<Rightarrow> key)"

definition kv_may :: "(kv_key \<times> byte list) list \<Rightarrow> kv_op list \<Rightarrow> bool" where
  "kv_may al xs \<longleftrightarrow> length al + length xs < ring_size \<and> list_all (\<lambda>x. valid_name (op_key x)) xs"

lemma kv_may_tl: "kv_may al (x # xs) \<Longrightarrow> kv_may (snd (kv_spec ns x al)) xs"
proof -
  have "length (snd (kv_spec ns x al)) \<le> Suc (length al)"
    using alist_update_length [of "(ns, op_key x)" _ al] alist_delete_length [of "(ns, op_key x)" al]
    by (auto simp: kv_spec_def op_key_def le_Suc_eq split: kv_op.splits option.splits)
  then show "kv_may al (x # xs) \<Longrightarrow> kv_may (snd (kv_spec ns x al)) xs"
    by (simp add: kv_may_def)
qed

context reliable_store begin

lemma insert_ok:
  assumes kr: "kv_rep Z C R s al" and v: "valid_name (kv_namespace kv)" "valid_name key"
    and cap: "length al < ring_size"
    and q: "\<not> over_quota kv (val_size al (kv_namespace kv, key)) (length val)"
  obtains s' where "key_value_insert Z kv key val s = Some (ASTARTE_RESULT_OK,
      charged kv (val_size al (kv_namespace kv, key)) (length val), s')"
    "kv_rep Z C R s' (AList.update (kv_namespace kv, key) val al)"
proof -
  from key_value_insert_spec [OF kr v, of val] obtain r kv' s' where
    i: "key_value_insert Z kv key val s = Some (r, kv', s')"
    and out: "insert_outcome Z C R al kv key val s (r, kv', s')" by auto
  have "\<not> all_used C s" using all_used_length [OF kr] cap by auto
  then have "r = ASTARTE_RESULT_OK"
    using out q reliable_store_axioms by (auto simp: insert_outcome_def Let_def split: if_splits)
  then show thesis using i out that by (simp add: insert_outcome_def Let_def)
qed

lemma insert_over_quota:
  assumes kr: "kv_rep Z C R s al" and v: "valid_name (kv_namespace kv)" "valid_name key"
    and cap: "length al < ring_size"
    and q: "over_quota kv (val_size al (kv_namespace kv, key)) (length val)"
  shows "key_value_insert Z kv key val s
    = Some (ASTARTE_RESULT_OUT_OF_SPACE, healed kv (val_size al (kv_namespace kv, key)), s)"
proof -
  from key_value_insert_spec [OF kr v, of val] obtain r kv' s' where
    i: "key_value_insert Z kv key val s = Some (r, kv', s')"
    and out: "insert_outcome Z C R al kv key val s (r, kv', s')" by auto
  have "\<not> all_used C s" using all_used_length [OF kr] cap by auto
  then show ?thesis
    using out q reliable_store_axioms i by (auto simp: insert_outcome_def Let_def split: if_splits)
qed

lemma find_ok:
  assumes kr: "kv_rep Z C R s al" and v: "valid_name (kv_namespace kv)" "valid_name key"
    and cap: "length al < ring_size"
  shows "key_value_find Z kv key buffer s = Some (found_result (map_of al (kv_namespace kv, key)) buffer, s)"
  using key_value_find_spec [OF kr v, of buffer] all_used_length [OF kr] cap reliable_store_axioms by auto

lemma delete_ok':
  assumes kr: "kv_rep Z C R s al" and v: "valid_name (kv_namespace kv)" "valid_name key"
    and cap: "length al < ring_size"
  obtains (absent) "map_of al (kv_namespace kv, key) = None"
      "key_value_delete Z kv key s = Some (ASTARTE_RESULT_NOT_FOUND, kv, s)"
    | (present) w s' where "map_of al (kv_namespace kv, key) = Some w"
      "key_value_delete Z kv key s = Some (ASTARTE_RESULT_OK, discharged kv (length w), s')"
      "kv_rep Z C R s' (AList.delete (kv_namespace kv, key) al)"
proof -
  from key_value_delete_spec [OF kr v] obtain r kv' s' where
    d: "key_value_delete Z kv key s = Some (r, kv', s')"
    and out: "delete_outcome Z C R al kv key s (r, kv', s')" by auto
  have "\<not> all_used C s" using all_used_length [OF kr] cap by auto
  then show thesis
    using d out that reliable_store_axioms
    by (cases "r = ASTARTE_RESULT_OK")
      (auto simp: delete_outcome_def val_size_def Let_def split: if_splits)
qed

lemma kv_step_refines:
  assumes kr: "kv_rep Z C R s al" and v: "valid_name (kv_namespace kv)" and q: "kv_max_quota_bytes kv = 0"
    and may: "kv_may al (x # xs)"
  shows "\<exists>s'. kv_step Z kv x s = Some (fst (kv_spec (kv_namespace kv) x al), s')
    \<and> kv_rep Z C R s' (snd (kv_spec (kv_namespace kv) x al))"
proof (cases x)
  case (Insert key val)
  have vk: "valid_name key" "length al < ring_size" using may Insert by (simp_all add: kv_may_def op_key_def)
  have "\<not> over_quota kv (val_size al (kv_namespace kv, key)) (length val)" by (simp add: over_quota_def q)
  with kr v vk obtain s' where "key_value_insert Z kv key val s = Some (ASTARTE_RESULT_OK,
      charged kv (val_size al (kv_namespace kv, key)) (length val), s')"
    "kv_rep Z C R s' (AList.update (kv_namespace kv, key) val al)" by (rule insert_ok)
  then show ?thesis by (simp add: Insert kv_step_def kv_spec_def)
next
  case (Find key)
  have vk: "valid_name key" "length al < ring_size" using may Find by (simp_all add: kv_may_def op_key_def)
  show ?thesis
    using find_ok [OF kr v vk] kr
    by (cases "map_of al (kv_namespace kv, key)") (simp_all add: Find kv_step_def kv_spec_def found_result_def)
next
  case (Delete key)
  have vk: "valid_name key" "length al < ring_size" using may Delete by (simp_all add: kv_may_def op_key_def)
  from kr v vk show ?thesis
  proof (cases rule: delete_ok')
    case absent
    then show ?thesis using kr by (simp add: Delete kv_step_def kv_spec_def)
  next
    case present
    then show ?thesis by (simp add: Delete kv_step_def kv_spec_def)
  qed
qed

end

text \<open>The handle is fixed: a namespace without quota on a device that works.\<close>

definition kv_rel ::
    "'s kv_env \<Rightarrow> ('s \<Rightarrow> u32 \<rightharpoonup> byte list) \<Rightarrow> kv_storage \<Rightarrow> 's \<Rightarrow> (kv_key \<times> byte list) list \<Rightarrow> bool" where
  "kv_rel Z C kv s al \<longleftrightarrow> reliable_store Z C \<and> valid_name (kv_namespace kv) \<and> kv_max_quota_bytes kv = 0
     \<and> kv_stores Z C s al"

interpretation kv: refinement "kv_step Z kv" "kv_spec (kv_namespace kv)" "kv_rel Z C kv" kv_may
  for Z :: "'s kv_env" and C kv
proof
  show "\<exists>s'. kv_step Z kv x s = Some (fst (kv_spec (kv_namespace kv) x a), s')
      \<and> kv_rel Z C kv s' (snd (kv_spec (kv_namespace kv) x a))"
    if "kv_rel Z C kv s a" "kv_may a (x # xs)" for s a x xs
    using that reliable_store.kv_step_refines [of Z C] unfolding kv_rel_def kv_stores_def by blast
qed (rule kv_may_tl)

section \<open>Usage and quota\<close>

lemma ns_size_update:
  "ns_size ns (AList.update (ns, key) v al) + val_size al (ns, key) = ns_size ns al + length v"
  by (induction al) (auto simp: val_size_def)

lemma val_size_le: "val_size al (ns, key) \<le> ns_size ns al"
  by (induction al) (auto simp: val_size_def)

lemma ns_size_delete:
  "distinct (map fst al) \<Longrightarrow> ns_size ns (AList.delete (ns, key) al) + val_size al (ns, key) = ns_size ns al"
proof (induction al)
  case (Cons p al)
  obtain n k v where p: "p = ((n, k), v)" by (metis prod.collapse)
  show ?case
  proof (cases "(n, k) = (ns, key)")
    case True
    then have "AList.delete (ns, key) al = al" using Cons.prems p by (simp add: AList.delete_idem)
    then show ?thesis using p True by (simp add: val_size_def)
  next
    case False
    then show ?thesis using Cons p by (auto simp: val_size_def)
  qed
qed (simp add: val_size_def)

lemma kv_rep_distinct:
  assumes "kv_rep Z C R s al"
  shows "distinct (map fst al)"
proof -
  from assms obtain A ids where st: "stored Z A ids" and al: "pairs_of (ka_ent A) ids = al"
    by (rule kv_repE)
  have "inj_on (\<lambda>i. fst (entry_kv (the (ka_ent A i)))) (set ids)"
  proof (rule inj_onI)
    fix i j assume "i \<in> set ids" "j \<in> set ids"
      and e: "fst (entry_kv (the (ka_ent A i))) = fst (entry_kv (the (ka_ent A j)))"
    then obtain x y where "ka_ent A i = Some x" "ka_ent A j = Some y"
      using storedD(5) [OF st] by fastforce
    then have "keys_of (ka_ent A) i = Some (e_ns y, e_key y)" "keys_of (ka_ent A) j = Some (e_ns y, e_key y)"
      using e by (simp_all add: keys_of_def)
    then show "i = j" by (rule unique_keysD [OF storedD(2) [OF st]])
  qed
  then show ?thesis
    using storedD(6) [OF st] by (simp add: al [symmetric] pairs_of_def distinct_map comp_def)
qed

lemma unat_of_nat_u32: "n < 2 ^ 32 \<Longrightarrow> unat (of_nat n :: u32) = n"
  by (simp add: unsigned_of_nat take_bit_eq_mod)

lemma projected_exact:
  assumes "unat (kv_current_usage_bytes kv) = used" and "old \<le> used" and "used + new < 2 ^ 32"
  shows "unat (projected kv old new) = used - old + new"
proof -
  have c: "kv_current_usage_bytes kv = of_nat used" using assms(1) by auto
  have "\<not> kv_current_usage_bytes kv < of_nat old"
    using assms by (simp add: word_less_nat_alt unat_of_nat_u32)
  then have "projected kv old new = of_nat (used - old + new)"
    using c assms(2) by (simp add: projected_def healed_def of_nat_diff algebra_simps)
  moreover have "used - old + new < 2 ^ 32" using assms(3) by simp
  ultimately show ?thesis by (simp only: unat_of_nat_u32)
qed

lemma account_exact:
  assumes "unat (kv_current_usage_bytes kv) = used" and "old \<le> used" and "kv_max_quota_bytes kv > 0"
  shows "unat (kv_current_usage_bytes (account_deletion kv (of_nat old))) = used - old"
proof -
  have "unat (kv_current_usage_bytes kv) < 2 ^ 32"
    using unsigned_less [of "kv_current_usage_bytes kv"] by simp
  then have "used < 2 ^ 32" using assms(1) by simp
  then have "unat (of_nat old :: u32) = old" using assms(2) by (intro unat_of_nat_u32) simp
  then show ?thesis
    using assms
    by (auto simp: account_deletion_def word_le_nat_alt unat_sub word_gt_0 simp flip: unat_0_iff)
qed

context reliable_store begin

lemma key_value_new_ok:
  assumes kr: "kv_rep Z C R s al" and v: "valid_name ns"
  shows "key_value_new Z sector_size sector_count ns pct s = Some (Inr
    \<lparr>kv_namespace = ns, kv_max_quota_bytes = quota_bytes sector_size sector_count pct,
     kv_current_usage_bytes = (if quota_bytes sector_size sector_count pct > 0
       then of_nat (ns_size ns al) else 0)\<rparr>, s)"
proof -
  let ?kv = "\<lparr>kv_namespace = ns, kv_max_quota_bytes = quota_bytes sector_size sector_count pct,
     kv_current_usage_bytes = 0\<rparr>"
  from kr obtain A ids where rep: "rep C s A" and st: "stored Z A ids"
    and al: "pairs_of (ka_ent A) ids = al" and id: "idle A" by (rule kv_repE)
  have v': "valid_name (kv_namespace ?kv)" using v by simp
  have a: "astarte_calloc (k_heap Z s) n 1" if "n > 0" for n
    using that heap_ok by (simp add: astarte_calloc_def astarte_malloc_def)
  have m: "mutex_lock Z s = ASTARTE_RESULT_OK" using mutex_ok by (simp add: mutex_lock_def)
  have "usage_loop Z ?kv (head_result (ns_ids (ka_ent A) ns ids)) s
      = Some (?kv\<lparr>kv_current_usage_bytes := of_nat (ns_size ns al)\<rparr>, s)"
    using usage_loop_ok [OF rep, of "[]" ids ?kv] st id v' al by simp
  then show ?thesis
    using iterator_init_ok [OF rep st id v'] a m valid_nameD(1) [OF v]
    by (simp add: key_value_new_def Let_def)
qed

end

end
