(* ===== verification/KV_Direct.thy ===== *)
theory KV_Direct
  imports KV_Iter
begin

text \<open>
  The direct storage (direct.c): values under 16-bit keys, in two name spaces, next to the namespaced
  store in the same file system.  Its records are the part of the file system the namespaced store
  leaves alone.
\<close>

lemma unat_full_key: "unat (full_key alternate key) = (if alternate then 65536 else 0) + unat key"
proof -
  have "unat key < 65536" using unsigned_less [of key] by simp
  then show ?thesis
    by (simp add: full_key_def unat_word_ariths unsigned_ucast_eq take_bit_nat_eq_self)
qed

lemma full_key_inj: "full_key a k = full_key b l \<longleftrightarrow> a = b \<and> k = l"
proof
  assume "full_key a k = full_key b l"
  then have "(if a then 65536 else 0) + unat k = (if b then 65536 else 0) + unat l"
    using unat_full_key [of a k] unat_full_key [of b l] by simp
  moreover have "unat k < 65536" "unat l < 65536" using unsigned_less [of k] unsigned_less [of l] by simp_all
  ultimately have "a = b" "unat k = unat l" by (auto split: if_splits)
  then show "a = b \<and> k = l" by (simp add: word_unat_eq_iff)
qed simp

lemma full_key_other: "other_id (full_key alternate key)"
proof -
  have "unat (full_key alternate key) < 131072"
  proof -
    have "unat key < 65536" using unsigned_less [of key] by simp
    then show ?thesis using unat_full_key [of alternate key] by (cases alternate) simp_all
  qed
  then show ?thesis
    by (auto simp: other_id_def usable_unat id_defs)
qed

context reliable_store begin

lemma mutex_free [simp]: "mutex_lock Z s = ASTARTE_RESULT_OK"
  by (simp add: mutex_lock_def mutex_ok)

lemma rest_contents:
  assumes "kv_rep Z C R s al"
  shows "C s (full_key alternate key) = R (full_key alternate key)"
  using assms full_key_other [of alternate key] by (auto simp: kv_rep_def kv_good_def rep_def)

lemma rest_updated:
  assumes kr: "kv_rep Z C R s al" and c: "C s' = (C s)(full_key alternate key := v)"
  shows "kv_rep Z C (R(full_key alternate key := v)) s' al"
proof -
  let ?i = "full_key alternate key"
  from kr obtain A where rep: "rep C s A" and g: "kv_good Z al R A" and id: "idle A" by (auto simp: kv_rep_def)
  let ?A = "A\<lparr>ka_rest := (ka_rest A)(?i := v)\<rparr>"
  have "rep C s' ?A" using rep full_key_other [of alternate key] c by (auto simp: rep_def other_id_def)
  moreover have "kv_good Z al (R(?i := v)) ?A" using g by (auto simp: kv_good_def stored_def)
  moreover have "idle ?A" using id by (simp add: idle_def)
  ultimately show ?thesis unfolding kv_rep_def by blast
qed

lemma direct_insert_ok:
  assumes kr: "kv_rep Z C R s al" and v: "val \<noteq> []"
  obtains s' where "direct_insert Z alternate key (Some val) s = (ASTARTE_RESULT_OK, s')"
    "kv_rep Z C (R(full_key alternate key \<mapsto> val)) s' al"
proof -
  obtain rc s' where w: "zms_write Z s (full_key alternate key) val = (rc, s')" by force
  have c: "C s' = (C s)(full_key alternate key \<mapsto> val)" and rc: "0 \<le> rc"
    using write_law [OF w v] write_ok [of s "full_key alternate key" val] w by auto
  show thesis
    using v w rc rest_updated [OF kr c] by (intro that) (simp_all add: direct_insert_def rc_check_def)
qed

lemma direct_delete_ok:
  assumes kr: "kv_rep Z C R s al"
  obtains s' where "direct_delete Z alternate key s = (ASTARTE_RESULT_OK, s')"
    "kv_rep Z C (R(full_key alternate key := None)) s' al"
proof -
  obtain rc s' where w: "zms_delete Z s (full_key alternate key) = (rc, s')" by force
  have c: "C s' = (C s)(full_key alternate key := None)" and rc: "0 \<le> rc"
    using delete_law [OF w] delete_ok [of s "full_key alternate key"] w by auto
  show thesis using w rc rest_updated [OF kr c] by (intro that) (simp_all add: direct_delete_def)
qed

lemma direct_size_ok:
  assumes kr: "kv_rep Z C R s al"
  shows "direct_find Z alternate key None s = (case R (full_key alternate key) of
      None \<Rightarrow> (ASTARTE_RESULT_NOT_FOUND, None, []) | Some v \<Rightarrow> (ASTARTE_RESULT_OK, Some (length v), []))"
  using rest_contents [OF kr, of alternate key] length_Some [of s "full_key alternate key"]
    length_None [of s "full_key alternate key"]
  by (auto simp: direct_find_def ENOENT_def split: option.splits)

lemma direct_find_ok:
  assumes kr: "kv_rep Z C R s al" and "R (full_key alternate key) = Some val" and "length val \<le> n"
  shows "direct_find Z alternate key (Some n) s = (ASTARTE_RESULT_OK, Some (length val), val)"
  using assms rest_contents [OF kr, of alternate key] length_Some [of s "full_key alternate key"]
    read_Some [of s "full_key alternate key" val n]
  by (auto simp: direct_find_def ENOENT_def)

end

end
