(* ===== verification/KV_Claims.thy ===== *)
theory KV_Claims
  imports KV_Contract KV_Direct
begin

text \<open>
  The properties of the key-value store, over any environment that keeps the documented
  behaviour of ZMS, with instances on the store in memory.
\<close>

section \<open>Instances\<close>

definition demo_kv :: kv_storage where
  "demo_kv = \<lparr>kv_namespace = [110], kv_max_quota_bytes = 0, kv_current_usage_bytes = 0\<rparr>"

definition quota_kv :: kv_storage where
  "quota_kv = \<lparr>kv_namespace = [110], kv_max_quota_bytes = 10, kv_current_usage_bytes = 0\<rparr>"

lemma demo_kv_simps [simp]:
  "kv_namespace demo_kv = [110]" "kv_max_quota_bytes demo_kv = 0" "kv_namespace quota_kv = [110]"
  "kv_max_quota_bytes quota_kv = 10" "kv_current_usage_bytes quota_kv = 0"
  by (simp_all add: demo_kv_def quota_kv_def)

lemma valid_name_demo [simp]: "valid_name [110]" "valid_name [97]" "valid_name [98]"
  by (simp_all add: valid_name_def nul_free_def)

lemma kv_stores_empty:
  assumes "\<And>i. C s i = None"
  shows "kv_stores Z C s []"
  unfolding kv_stores_def using kv_rep_empty assms by metis

lemma disk_empty [simp]: "kv_stores (disk_env h) (\<lambda>m. m) Map.empty []"
  by (intro kv_stores_empty) simp

lemma ram_empty [simp]: "kv_stores (ram_env h) ram_store (ram_fresh n) []"
  by (intro kv_stores_empty) (simp add: ram_fresh_def)

text \<open>An empty store with one pair inserted.\<close>

lemma disk_one:
  obtains m where "kv_stores (disk_env h) (\<lambda>m. m) m [(([110], [97]), [1])]"
proof -
  have e: "kv_rep (disk_env h) (\<lambda>m. m) (\<lambda>_. None) Map.empty []"
    by (rule kv_rep_empty [where C = "\<lambda>m. m", of "\<lambda>_. None"]) simp
  have "length [] < ring_size" "\<not> over_quota demo_kv (val_size [] (kv_namespace demo_kv, [97])) (length [1])"
    by (simp_all add: ring_size_def over_quota_def)
  from disk.insert_ok [OF e _ _ this, of] obtain s' where
    "kv_rep (disk_env h) (\<lambda>m. m) (\<lambda>_. None) s' [(([110], [97]), [1])]" by auto
  then show thesis using that by (auto simp: kv_stores_def)
qed

lemma update_new: "map_of al k = None \<Longrightarrow> AList.update k v al = al @ [(k, v)]"
  by (induction al) (auto split: if_splits)

text \<open>A store in memory that holds the pairs of one namespace.\<close>

lemma disk_pairs:
  assumes "valid_name ns" and "\<forall>(k, v)\<in>set kvs. valid_name k" and "distinct (map fst kvs)" and "length kvs < ring_size"
  obtains m where "kv_stores (disk_env h) (\<lambda>m. m) m (map (\<lambda>(k, v). ((ns, k), v)) kvs)"
proof -
  let ?kv = "\<lparr>kv_namespace = ns, kv_max_quota_bytes = 0, kv_current_usage_bytes = 0\<rparr>" and ?xs = "map (\<lambda>(k, v). Insert k v) kvs"
  have "kv_rel (disk_env h) (\<lambda>m. m) ?kv Map.empty []" "kv_may [] ?xs"
    using assms disk.reliable_store_axioms
    by (auto simp: kv_rel_def kv_may_def list_all_iff op_key_def)
  from kv.run_refines [OF this] obtain m where
    "kv_stores (disk_env h) (\<lambda>m. m) m (snd (run_spec (kv_spec ns) ?xs []))"
    by (auto simp: kv_rel_def)
  moreover have "snd (run_spec (kv_spec ns) ?xs al) = al @ map (\<lambda>(k, v). ((ns, k), v)) kvs"
    if "\<forall>k\<in>fst ` set kvs. map_of al (ns, k) = None" for al
    using that assms(3)
  proof (induction kvs arbitrary: al)
    case (Cons p kvs)
    obtain k v where p: "p = (k, v)" by force
    have u: "AList.update (ns, k) v al = al @ [((ns, k), v)]"
      using Cons.prems(1) p by (simp add: update_new)
    have "\<forall>j\<in>fst ` set kvs. map_of (al @ [((ns, k), v)]) (ns, j) = None"
      using Cons.prems p by (auto simp: map_add_def split: option.splits)
    from Cons.IH [OF this] have
      "snd (run_spec (kv_spec ns) (map (\<lambda>(k, v). Insert k v) kvs) (AList.update (ns, k) v al))
        = al @ ((ns, k), v) # map (\<lambda>(k, v). ((ns, k), v)) kvs"
      using Cons.prems(2) by (simp add: u)
    moreover have "snd (kv_spec ns (Insert k v) al) = AList.update (ns, k) v al" by (simp add: kv_spec_def)
    ultimately show ?case by (simp add: p case_prod_unfold)
  qed simp
  ultimately show thesis using that by simp
qed

section \<open>Refinement\<close>

text \<open>C1: On a device that works, any sequence of insertions, look-ups and deletions in a
  namespace without quota returns, and is answered exactly as by an association list.\<close>

theorem kv_operations_refine_alist:
  assumes "reliable_store Z C" and "kv_stores Z C s al" and "valid_name (kv_namespace kv)"
    and "kv_max_quota_bytes kv = 0" and "length al + length xs < ring_size"
    and "\<forall>x\<in>set xs. valid_name (op_key x)"
  shows "\<exists>s'. run_steps (kv_step Z kv) xs s = Some (fst (run_spec (kv_spec (kv_namespace kv)) xs al), s')
    \<and> kv_stores Z C s' (snd (run_spec (kv_spec (kv_namespace kv)) xs al))"
proof -
  have "kv_rel Z C kv s al" "kv_may al xs"
    using assms by (simp_all add: kv_rel_def kv_may_def list_all_iff)
  then show ?thesis using kv.run_refines [of Z C kv s al xs] by (auto simp: kv_rel_def)
qed

lemma kv_operations_refine_alist_witness:
  "\<exists>s'. run_steps (kv_step (disk_env (\<lambda>_. 0)) demo_kv)
      [Insert [97] [1], Insert [98] [2], Delete [97], Find [97], Find [98]] Map.empty
    = Some ([(ASTARTE_RESULT_OK, []), (ASTARTE_RESULT_OK, []), (ASTARTE_RESULT_OK, []),
        (ASTARTE_RESULT_NOT_FOUND, []), (ASTARTE_RESULT_OK, [2])], s')
    \<and> kv_stores (disk_env (\<lambda>_. 0)) (\<lambda>m. m) s' [(([110], [98]), [2])]"
  using kv_operations_refine_alist [OF disk.reliable_store_axioms disk_empty, of demo_kv
      "[Insert [97] [1], Insert [98] [2], Delete [97], Find [97], Find [98]]"]
  by (simp add: kv_spec_def op_key_def ring_size_def)

text \<open>An insertion returns; when it reports success the store holds the new pair, in the place
  of the old one of the key or at the end, and the usage is accounted; when it fails the store is
  unchanged and full or over its quota, or the device failed.  Records outside the store are kept.\<close>

theorem key_value_insert_refines:
  assumes "zms_store Z C" and "kv_stores Z C s al"
    and "valid_name (kv_namespace kv)" and "valid_name key"
  defines "k \<equiv> (kv_namespace kv, key)"
  shows "\<exists>r kv' s'. key_value_insert Z kv key val s = Some (r, kv', s') \<and> same_rest C s s'
    \<and> (if r = ASTARTE_RESULT_OK
       then kv_stores Z C s' (AList.update k val al) \<and> kv' = charged kv (val_size al k) (length val)
         \<and> \<not> over_quota kv (val_size al k) (length val)
       else r = ASTARTE_RESULT_KEY_VALUE_FULL \<and> s' = s \<and> all_used C s
         \<or> r = ASTARTE_RESULT_OUT_OF_SPACE \<and> s' = s \<and> over_quota kv (val_size al k) (length val)
         \<or> \<not> reliable_store Z C)"
proof -
  from assms(2) obtain R where kr: "kv_rep Z C R s al" by (auto simp: kv_stores_def)
  from zms_store.key_value_insert_spec [OF assms(1) kr assms(3,4), of val] obtain r kv' s' where
    i: "key_value_insert Z kv key val s = Some (r, kv', s')"
    and out: "insert_outcome Z C R al kv key val s (r, kv', s')" by auto
  have "same_rest C s s'"
    using out kv_rep_same_rest [OF kr] cut_same_rest [OF kr]
    by (auto simp: insert_outcome_def Let_def split: if_splits)
  then show ?thesis
    using i out by (auto simp: insert_outcome_def Let_def kv_stores_def k_def split: if_splits)
qed

lemma key_value_insert_refines_witness:
  "\<exists>s'. key_value_insert (disk_env (\<lambda>_. 0)) quota_kv [97] [1] Map.empty
      = Some (ASTARTE_RESULT_OK, quota_kv\<lparr>kv_current_usage_bytes := 1\<rparr>, s')
    \<and> kv_stores (disk_env (\<lambda>_. 0)) (\<lambda>m. m) s' [(([110], [97]), [1])]"
proof -
  have nu: "\<not> all_used (\<lambda>m. m) Map.empty"
    by (auto simp: all_used_def intro!: exI [of _ MIN_USABLE_ID] simp: usable_def id_defs)
  have nq: "\<not> over_quota quota_kv 0 1" "charged quota_kv 0 1 = quota_kv\<lparr>kv_current_usage_bytes := 1\<rparr>"
    by (simp_all add: over_quota_def charged_def projected_def healed_def)
  have z: "val_size [] k = 0" for k by (simp add: val_size_def)
  obtain r kv' s' where i: "key_value_insert (disk_env (\<lambda>_. 0)) quota_kv [97] [1] Map.empty = Some (r, kv', s')"
    and out: "if r = ASTARTE_RESULT_OK
       then kv_stores (disk_env (\<lambda>_. 0)) (\<lambda>m. m) s' [(([110], [97]), [1])] \<and> kv' = charged quota_kv 0 1
         \<and> \<not> over_quota quota_kv 0 1
       else r = ASTARTE_RESULT_KEY_VALUE_FULL \<and> s' = Map.empty \<and> all_used (\<lambda>m. m) Map.empty
         \<or> r = ASTARTE_RESULT_OUT_OF_SPACE \<and> s' = Map.empty \<and> over_quota quota_kv 0 1
         \<or> \<not> reliable_store (disk_env (\<lambda>_. 0)) (\<lambda>m. m)"
    using key_value_insert_refines [OF disk.zms_store_axioms [of "\<lambda>_. 0"] disk_empty _ valid_name_demo(2),
      of quota_kv "[1]", unfolded demo_kv_simps, OF valid_name_demo(1)]
    unfolding z by (elim exE conjE) (simp cong: if_cong)
  then have "r = ASTARTE_RESULT_OK" using nu nq(1) disk.reliable_store_axioms by metis
  then show ?thesis using i out nq(2) by simp
qed

text \<open>C3: A look-up returns and changes nothing; on a device that works it yields the value stored
  for the key, or its size when no buffer is given, \<open>INVALID_PARAM\<close> for a buffer that is too small
  and \<open>NOT_FOUND\<close> for a key that is not stored.\<close>

theorem key_value_find_refines:
  assumes "reliable_store Z C" and "kv_stores Z C s al" and "length al < ring_size"
    and "valid_name (kv_namespace kv)" and "valid_name key"
  shows "key_value_find Z kv key buffer s
    = Some (found_result (map_of al (kv_namespace kv, key)) buffer, s)"
  using assms(2) reliable_store.find_ok [OF assms(1) _ assms(4,5,3), of _ s buffer]
  by (auto simp: kv_stores_def)

lemma key_value_find_refines_witness:
  "\<exists>m. key_value_find (disk_env (\<lambda>_. 0)) demo_kv [97] (Some 4) m = Some (Inr (1, [1]), m)"
proof -
  obtain m where "kv_stores (disk_env (\<lambda>_. 0)) (\<lambda>m. m) m [(([110], [97]), [1])]" by (rule disk_one)
  from key_value_find_refines [OF disk.reliable_store_axioms this, of demo_kv "[97]" "Some 4"]
  show ?thesis by (auto simp: ring_size_def found_result_def)
qed

text \<open>A deletion returns; when it reports success the key was stored, and the store holds the
  other pairs in their order, with the usage accounted; otherwise the key was not stored and nothing
  changed, or the device failed and every other pair is still on it.\<close>

theorem key_value_delete_refines:
  assumes "zms_store Z C" and "kv_stores Z C s al"
    and "valid_name (kv_namespace kv)" and "valid_name key"
  defines "k \<equiv> (kv_namespace kv, key)"
  shows "\<exists>r kv' s'. key_value_delete Z kv key s = Some (r, kv', s') \<and> same_rest C s s'
    \<and> (if r = ASTARTE_RESULT_OK
       then kv_stores Z C s' (AList.delete k al) \<and> map_of al k \<noteq> None
         \<and> kv' = discharged kv (val_size al k)
       else kv' = kv \<and> (s' = s \<and> map_of al k = None
           \<and> (r = ASTARTE_RESULT_NOT_FOUND \<or> r = ASTARTE_RESULT_KEY_VALUE_FULL \<and> all_used C s)
         \<or> \<not> reliable_store Z C \<and> (\<forall>p\<in>set al. fst p \<noteq> k \<longrightarrow>
             (\<exists>i e. C s' i = Some (kv_image e) \<and> entry_kv e = p))))"
proof -
  from assms(2) obtain R where kr: "kv_rep Z C R s al" by (auto simp: kv_stores_def)
  from zms_store.key_value_delete_spec [OF assms(1) kr assms(3,4)] obtain r kv' s' where
    d: "key_value_delete Z kv key s = Some (r, kv', s')"
    and out: "delete_outcome Z C R al kv key s (r, kv', s')" by auto
  have "same_rest C s s'"
    using out kv_rep_same_rest [OF kr] kept_same_rest [OF kr]
    by (auto simp: delete_outcome_def Let_def split: if_splits)
  moreover have "\<forall>p\<in>set al. fst p \<noteq> k \<longrightarrow> (\<exists>i e. C s' i = Some (kv_image e) \<and> entry_kv e = p)"
    if "rep C s' B" "kept (AList.delete k al) R B" for B
    using kept_images [OF that] by (auto simp: AList.delete_eq)
  ultimately show ?thesis
    using d out by (auto simp: delete_outcome_def Let_def kv_stores_def k_def split: if_splits)
qed

lemma key_value_delete_refines_witness:
  "\<exists>m r kv' s'. key_value_delete (disk_env (\<lambda>_. 0)) demo_kv [97] m = Some (r, kv', s')
    \<and> r = ASTARTE_RESULT_OK \<and> kv_stores (disk_env (\<lambda>_. 0)) (\<lambda>m. m) s' []"
proof -
  obtain m where "kv_stores (disk_env (\<lambda>_. 0)) (\<lambda>m. m) m [(([110], [97]), [1])]" by (rule disk_one)
  from key_value_delete_refines [OF disk.zms_store_axioms this, of demo_kv "[97]"]
  show ?thesis using disk.reliable_store_axioms by (auto split: if_splits)
qed

section \<open>Power loss\<close>

text \<open>C12: Whatever write of an insertion or an update is the last one before the power fails, the
  recovery on the repaired device succeeds and finds the store before or after the operation.\<close>

theorem insert_power_loss_recovers:
  assumes "zms_store Z C" and "kv_stores Z C s al"
    and "valid_name (kv_namespace kv)" and "valid_name key"
    and "key_value_insert Z kv key val s = Some (r, kv', s')"
    and "reliable_store Z' C" and "sys_hash32 Z' = sys_hash32 Z"
  shows "\<exists>s''. entry_intent_resolve Z' s' = Some (ASTARTE_RESULT_OK, s'')
    \<and> (kv_stores Z' C s'' al \<or> kv_stores Z' C s'' (AList.update (kv_namespace kv, key) val al))"
proof -
  let ?al' = "AList.update (kv_namespace kv, key) val al"
  from assms(2) obtain R where kr: "kv_rep Z C R s al" by (auto simp: kv_stores_def)
  have out: "insert_outcome Z C R al kv key val s (r, kv', s')"
    using zms_store.key_value_insert_spec [OF assms(1) kr assms(3,4), of val] assms(5) by auto
  show ?thesis
  proof (cases "r = ASTARTE_RESULT_OK")
    case True
    then have "kv_rep Z' C R s' ?al'"
      using out by (simp add: insert_outcome_def Let_def kv_rep_cong [OF assms(7)])
    from reliable_store.resolve_rep [OF assms(6) this] show ?thesis
      unfolding kv_stores_def by blast
  next
    case False
    then obtain B where "rep C s' B" "cut Z' al ?al' R B"
      using out by (auto simp: insert_outcome_def Let_def cut_cong [OF assms(7)])
    from reliable_store.recover_cut [OF assms(6) this] show ?thesis by (auto simp: kv_stores_def)
  qed
qed

lemma insert_power_loss_recovers_witness:
  "\<exists>kv' s' s''. key_value_insert (ram_env (\<lambda>_. 0)) demo_kv [97] [1] (ram_fresh 2)
      = Some (ASTARTE_RESULT_ZMS_ERROR, kv', s')
    \<and> entry_intent_resolve (ram_repaired (\<lambda>_. 0)) s' = Some (ASTARTE_RESULT_OK, s'')
    \<and> (kv_stores (ram_repaired (\<lambda>_. 0)) ram_store s'' []
       \<or> kv_stores (ram_repaired (\<lambda>_. 0)) ram_store s'' [(([110], [97]), [1])])"
proof -
  have "map_option fst (key_value_insert (ram_env (\<lambda>_. 0)) demo_kv [97] [1] (ram_fresh 2))
      = Some ASTARTE_RESULT_ZMS_ERROR"
    by code_simp
  then obtain kv' s' where i: "key_value_insert (ram_env (\<lambda>_. 0)) demo_kv [97] [1] (ram_fresh 2)
      = Some (ASTARTE_RESULT_ZMS_ERROR, kv', s')" by auto
  from insert_power_loss_recovers [OF ram.zms_store_axioms ram_empty _ _ i repaired.reliable_store_axioms]
  show ?thesis using i by simp
qed

text \<open>C13: A power loss while an entry is unlinked (the first half of a deletion) is repaired too:
  the recovery completes the deletion, shift included, or finds the store untouched.\<close>

theorem unlink_power_loss_recovers:
  assumes "zms_store Z C" and "kv_stores Z C s al" and "entry_at C s i k"
    and "delete_and_unlink_single_entry Z i s = (r, s')"
    and "reliable_store Z' C" and "sys_hash32 Z' = sys_hash32 Z"
  shows "\<exists>s''. entry_intent_resolve Z' s' = Some (ASTARTE_RESULT_OK, s'')
    \<and> (kv_stores Z' C s'' al \<or> kv_stores Z' C s'' (AList.delete k al))"
proof -
  from assms(2) obtain R where kr: "kv_rep Z C R s al" by (auto simp: kv_stores_def)
  then obtain A ids where rep: "rep C s A" and st: "stored Z A ids"
    and al: "pairs_of (ka_ent A) ids = al" and id: "idle A" by (rule kv_repE)
  from rep assms(3) obtain e where e: "ka_ent A i = Some e" "k = (e_ns e, e_key e)" by (rule entry_at_rep)
  have st': "stored Z' A ids" using st stored_cong [OF assms(6)] by simp
  have "runs Z C (r, s') (unlink_states A i e) (\<lambda>B. B = unlinked A i e)"
    using zms_store.runs_unlink [OF assms(1) rep st e(1)] assms(4) by simp
  then obtain B where B: "rep C s' B" "unlink_states A i e B"
    by (auto simp: runs_def unlink_states_def)
  show ?thesis
  proof (cases "B = A")
    case True
    then have "kv_rep Z' C (ka_rest A) s' al"
      using B(1) st' al id by (intro kv_repI) simp_all
    from reliable_store.resolve_rep [OF assms(5) this] show ?thesis
      unfolding kv_stores_def by blast
  next
    case False
    then show ?thesis
      using B(2) reliable_store.recover_unlink [OF assms(5) B(1) st' e(1)] al e(2)
      by (auto simp: unlink_states_def kv_stores_def)
  qed
qed

text \<open>An empty store with one pair inserted, and the ID of its entry.\<close>

lemma ram_one_entry:
  obtains s i where "kv_stores (ram_repaired h) ram_store s [(([110], [97]), [1])]"
    "entry_at ram_store s i ([110], [97])"
proof -
  have e: "kv_rep (ram_repaired h) ram_store (\<lambda>_. None) (ram_fresh 9) []"
    using kv_rep_empty [of ram_store "ram_fresh 9" "ram_repaired h"] by (simp add: ram_fresh_def)
  have "length [] < ring_size" "\<not> over_quota demo_kv (val_size [] (kv_namespace demo_kv, [97])) (length [1])"
    by (simp_all add: ring_size_def over_quota_def)
  from repaired.insert_ok [OF e _ _ this] obtain s where
    kr: "kv_rep (ram_repaired h) ram_store (\<lambda>_. None) s [(([110], [97]), [1])]" by auto
  then obtain A ids where rep: "rep ram_store s A" and st: "stored (ram_repaired h) A ids"
    and al: "pairs_of (ka_ent A) ids = [(([110], [97]), [1])]" by (rule kv_repE)
  then obtain i where i: "ids = [i]" "entry_kv (the (ka_ent A i)) = (([110], [97]), [1])"
    by (auto simp: pairs_of_def)
  have "i \<in> dom (ka_ent A)" using storedD(5) [OF st] i(1) by auto
  then obtain e where "ka_ent A i = Some e" by auto
  moreover from this have "e_ns e = [110]" "e_key e = [97]" using i(2) by (simp_all add: entry_kv_def)
  ultimately have "entry_at ram_store s i ([110], [97])"
    using rep_entry_at [OF rep, of i e] by simp
  then show thesis using that kr by (auto simp: kv_stores_def)
qed

lemma kv_stores_hash:
  "sys_hash32 Z' = sys_hash32 Z \<Longrightarrow> kv_stores Z' C s al = kv_stores Z C s al"
  using kv_rep_cong [of Z' Z] by (simp add: kv_stores_def)

lemma unlink_power_loss_recovers_witness:
  "\<exists>s i r s' s''. delete_and_unlink_single_entry (ram_env (\<lambda>_. 0)) i s = (r, s')
    \<and> entry_intent_resolve (ram_repaired (\<lambda>_. 0)) s' = Some (ASTARTE_RESULT_OK, s'')
    \<and> (kv_stores (ram_repaired (\<lambda>_. 0)) ram_store s'' [(([110], [97]), [1])]
       \<or> kv_stores (ram_repaired (\<lambda>_. 0)) ram_store s'' [])"
proof -
  obtain s i where s: "kv_stores (ram_repaired (\<lambda>_. 0)) ram_store s [(([110], [97]), [1])]"
    "entry_at ram_store s i ([110], [97])" by (rule ram_one_entry)
  obtain r s' where d: "delete_and_unlink_single_entry (ram_env (\<lambda>_. 0)) i s = (r, s')" by force
  have "kv_stores (ram_env (\<lambda>_. 0)) ram_store s [(([110], [97]), [1])]"
    using s(1) kv_stores_hash [of "ram_env (\<lambda>_. 0)" "ram_repaired (\<lambda>_. 0)"] by simp
  from unlink_power_loss_recovers [OF ram.zms_store_axioms this s(2) d repaired.reliable_store_axioms] d
  show ?thesis by simp blast
qed

section \<open>Iteration\<close>

text \<open>C22: Listing a namespace with an iterator yields exactly its keys, in the order in which they
  were first inserted.\<close>

theorem iterator_lists_namespace:
  assumes "reliable_store Z C" and "kv_stores Z C s al" and "valid_name (kv_namespace kv)"
    and "length al < fuel"
  shows "list_namespace Z kv fuel s = Some (ns_keys (kv_namespace kv) al)"
  using assms(2) reliable_store.list_namespace_ok [OF assms(1) _ assms(3,4)] by (auto simp: kv_stores_def)

lemma iterator_lists_namespace_witness:
  "\<exists>m. list_namespace (disk_env (\<lambda>_. 0)) demo_kv 3 m = Some [[97]]"
proof -
  obtain m where "kv_stores (disk_env (\<lambda>_. 0)) (\<lambda>m. m) m [(([110], [97]), [1])]" by (rule disk_one)
  from iterator_lists_namespace [OF disk.reliable_store_axioms this, of demo_kv 3] show ?thesis by auto
qed

text \<open>Deleting at an iterator removes the entry it stands at, and the iteration goes on with
  the next key of the namespace, although the deletion may have moved the entries; after the last
  key the iterator is reset to the start of the list.\<close>

theorem iterator_delete_resumes:
  assumes "reliable_store Z C" and "kv_stores Z C s al" and "valid_name (kv_namespace kv)"
    and "entry_at C s i k" and "al = pre @ (k, val) # post"
  shows "\<exists>cur s'. iterator_delete Z kv i s
      = Some (ASTARTE_RESULT_OK, discharged kv (length val), cur, s')
    \<and> kv_stores Z C s' (AList.delete k al)
    \<and> (if ns_keys (kv_namespace kv) post = [] then cur = NULL_ID
       else \<exists>r. iterator_next Z kv cur s' = Some (r, s') \<and> yields C s' (kv_namespace kv)
         (ns_keys (kv_namespace kv) post) r)"
proof -
  from assms(2) obtain R where "kv_rep Z C R s al" by (auto simp: kv_stores_def)
  from reliable_store.iterator_delete_ok [OF assms(1) this assms(3-5)] show ?thesis
    unfolding kv_stores_def by blast
qed

lemma iterator_delete_resumes_witness:
  "\<exists>s i s'. iterator_delete (ram_repaired (\<lambda>_. 0)) demo_kv i s
      = Some (ASTARTE_RESULT_OK, demo_kv, NULL_ID, s')
    \<and> kv_stores (ram_repaired (\<lambda>_. 0)) ram_store s' []"
proof -
  obtain s i where s: "kv_stores (ram_repaired (\<lambda>_. 0)) ram_store s [(([110], [97]), [1])]"
    "entry_at ram_store s i ([110], [97])" by (rule ram_one_entry)
  from iterator_delete_resumes [OF repaired.reliable_store_axioms s(1) _ s(2), of demo_kv "[]" "[1]" "[]"]
  show ?thesis by (auto simp: discharged_def account_deletion_def)
qed

section \<open>Usage and quota\<close>

text \<open>C23: As long as the 32-bit counter cannot overflow, an insertion that reports success under a
  quota leaves the counter equal to the sizes of the values of the namespace, and below the quota.\<close>

theorem insert_keeps_quota:
  assumes "zms_store Z C" and "kv_stores Z C s al"
    and "valid_name (kv_namespace kv)" and "valid_name key"
    and "kv_max_quota_bytes kv > 0"
    and "unat (kv_current_usage_bytes kv) = ns_size (kv_namespace kv) al"
    and "ns_size (kv_namespace kv) al + length val < 2 ^ 32"
    and "key_value_insert Z kv key val s = Some (ASTARTE_RESULT_OK, kv', s')"
  shows "unat (kv_current_usage_bytes kv')
      = ns_size (kv_namespace kv) (AList.update (kv_namespace kv, key) val al)
    \<and> unat (kv_current_usage_bytes kv') \<le> unat (kv_max_quota_bytes kv)"
proof -
  let ?k = "(kv_namespace kv, key)"
  from assms(2) obtain R where kr: "kv_rep Z C R s al" by (auto simp: kv_stores_def)
  have "insert_outcome Z C R al kv key val s (ASTARTE_RESULT_OK, kv', s')"
    using zms_store.key_value_insert_spec [OF assms(1) kr assms(3,4), of val] assms(8) by auto
  then have kv': "kv_current_usage_bytes kv' = projected kv (val_size al ?k) (length val)"
    and q: "\<not> over_quota kv (val_size al ?k) (length val)"
    using assms(5) by (simp_all add: insert_outcome_def charged_def Let_def)
  have p: "unat (projected kv (val_size al ?k) (length val))
      = ns_size (kv_namespace kv) al - val_size al ?k + length val"
    using assms(6) val_size_le assms(7) by (rule projected_exact)
  have "unat (kv_current_usage_bytes kv') = ns_size (kv_namespace kv) (AList.update ?k val al)"
    using p kv' ns_size_update [of "kv_namespace kv" key val al] val_size_le [of al "kv_namespace kv" key]
    by simp
  moreover have "unat (kv_current_usage_bytes kv') \<le> unat (kv_max_quota_bytes kv)"
    using q assms(5) kv' by (simp add: over_quota_def word_le_nat_alt [symmetric])
  ultimately show ?thesis ..
qed

lemma insert_keeps_quota_witness:
  "\<exists>s'. key_value_insert (disk_env (\<lambda>_. 0)) quota_kv [97] [1] Map.empty
      = Some (ASTARTE_RESULT_OK, quota_kv\<lparr>kv_current_usage_bytes := 1\<rparr>, s')
    \<and> unat (kv_current_usage_bytes (quota_kv\<lparr>kv_current_usage_bytes := 1\<rparr>))
      \<le> unat (kv_max_quota_bytes quota_kv)"
proof -
  have "map_option (\<lambda>(r, kv', s'). (r, kv')) (key_value_insert (disk_env (\<lambda>_. 0)) quota_kv [97] [1] Map.empty)
      = Some (ASTARTE_RESULT_OK, quota_kv\<lparr>kv_current_usage_bytes := 1\<rparr>)"
    by code_simp
  then obtain s' where "key_value_insert (disk_env (\<lambda>_. 0)) quota_kv [97] [1] Map.empty
      = Some (ASTARTE_RESULT_OK, quota_kv\<lparr>kv_current_usage_bytes := 1\<rparr>, s')" by auto
  from insert_keeps_quota [OF disk.zms_store_axioms disk_empty _ _ _ _ _ this] this
  show ?thesis by auto
qed

text \<open>C24: A deletion that reports success keeps the usage counter of the handle equal to the bytes the
  namespace holds.\<close>

theorem delete_keeps_usage:
  assumes "zms_store Z C" and "kv_stores Z C s al"
    and "valid_name (kv_namespace kv)" and "valid_name key"
    and "kv_max_quota_bytes kv > 0"
    and "unat (kv_current_usage_bytes kv) = ns_size (kv_namespace kv) al"
    and "key_value_delete Z kv key s = Some (ASTARTE_RESULT_OK, kv', s')"
  shows "unat (kv_current_usage_bytes kv')
      = ns_size (kv_namespace kv) (AList.delete (kv_namespace kv, key) al)"
proof -
  let ?k = "(kv_namespace kv, key)"
  let ?old = "val_size al ?k"
  from assms(2) obtain R where kr: "kv_rep Z C R s al" by (auto simp: kv_stores_def)
  have "delete_outcome Z C R al kv key s (ASTARTE_RESULT_OK, kv', s')"
    using zms_store.key_value_delete_spec [OF assms(1) kr assms(3,4)] assms(7) by auto
  then have kv': "kv' = account_deletion kv (of_nat ?old)"
    using assms(5) by (simp add: delete_outcome_def discharged_def Let_def)
  have le: "?old \<le> ns_size (kv_namespace kv) al" by (rule val_size_le)
  have "unat (kv_current_usage_bytes kv') = ns_size (kv_namespace kv) al - ?old"
    using account_exact [OF assms(6) le] assms(5) unfolding kv' by simp
  then show ?thesis
    using ns_size_delete [OF kv_rep_distinct [OF kr], of "kv_namespace kv" key] by simp
qed

lemma delete_keeps_usage_witness:
  "\<exists>m s'. key_value_delete (disk_env (\<lambda>_. 0)) (quota_kv\<lparr>kv_current_usage_bytes := 1\<rparr>) [97] m
      = Some (ASTARTE_RESULT_OK, quota_kv, s') \<and> unat (kv_current_usage_bytes quota_kv) = ns_size [110] []"
proof -
  let ?kv = "quota_kv\<lparr>kv_current_usage_bytes := 1\<rparr>"
  obtain m where m: "kv_stores (disk_env (\<lambda>_. 0)) (\<lambda>m. m) m [(([110], [97]), [1])]" by (rule disk_one)
  then obtain R where kr: "kv_rep (disk_env (\<lambda>_. 0)) (\<lambda>m. m) R m [(([110], [97]), [1])]"
    by (auto simp: kv_stores_def)
  have "\<exists>s'. key_value_delete (disk_env (\<lambda>_. 0)) ?kv [97] m = Some (ASTARTE_RESULT_OK, discharged ?kv 1, s')"
    by (rule disk.delete_ok' [OF kr, of ?kv "[97]"]) (auto simp: ring_size_def)
  then obtain s' where d: "key_value_delete (disk_env (\<lambda>_. 0)) ?kv [97] m
      = Some (ASTARTE_RESULT_OK, discharged ?kv 1, s')" ..
  have "discharged ?kv 1 = quota_kv"
    by (simp add: discharged_def account_deletion_def quota_kv_def)
  then show ?thesis
    using d delete_keeps_usage [OF disk.zms_store_axioms m _ _ _ _ d] by auto
qed

text \<open>A new handle starts with the quota of its percentage of the partition and, when that is
  not zero, with the usage of the values its namespace already has.\<close>

theorem new_handle_usage:
  assumes "reliable_store Z C" and "kv_stores Z C s al" and "valid_name ns"
  shows "key_value_new Z sector_size sector_count ns pct s = Some (Inr
    \<lparr>kv_namespace = ns, kv_max_quota_bytes = quota_bytes sector_size sector_count pct,
     kv_current_usage_bytes = (if quota_bytes sector_size sector_count pct > 0
       then of_nat (ns_size ns al) else 0)\<rparr>, s)"
  using assms(2) reliable_store.key_value_new_ok [OF assms(1) _ assms(3)] by (auto simp: kv_stores_def)

lemma new_handle_usage_witness:
  "\<exists>m. key_value_new (disk_env (\<lambda>_. 0)) 4096 4 [110] 50 m
    = Some (Inr \<lparr>kv_namespace = [110], kv_max_quota_bytes = 8192, kv_current_usage_bytes = 1\<rparr>, m)"
proof -
  obtain m where "kv_stores (disk_env (\<lambda>_. 0)) (\<lambda>m. m) m [(([110], [97]), [1])]" by (rule disk_one)
  from new_handle_usage [OF disk.reliable_store_axioms this, of "[110]" 4096 4 50]
  show ?thesis by (auto simp: quota_bytes_def)
qed

section \<open>Direct storage\<close>

text \<open>A value stored under a 16-bit key is found again with its size, in a buffer that is big
  enough; the two name spaces of direct keys, the other keys of each, and the namespaced store are
  not affected.\<close>

theorem direct_insert_find:
  assumes "reliable_store Z C" and "kv_stores Z C s al" and "val \<noteq> []" and "length val \<le> n"
  shows "\<exists>s'. direct_insert Z alternate key (Some val) s = (ASTARTE_RESULT_OK, s')
    \<and> direct_find Z alternate key (Some n) s' = (ASTARTE_RESULT_OK, Some (length val), val)
    \<and> kv_stores Z C s' al
    \<and> (\<forall>b l. (b, l) \<noteq> (alternate, key) \<longrightarrow> C s' (full_key b l) = C s (full_key b l))"
proof -
  obtain R where kr: "kv_rep Z C R s al" using assms(2) by (auto simp: kv_stores_def)
  from reliable_store.direct_insert_ok [OF assms(1) kr assms(3)] obtain s' where
    ins: "direct_insert Z alternate key (Some val) s = (ASTARTE_RESULT_OK, s')"
    and kr': "kv_rep Z C (R(full_key alternate key \<mapsto> val)) s' al" .
  have "C s' (full_key b l) = C s (full_key b l)" if "(b, l) \<noteq> (alternate, key)" for b l
    using that reliable_store.rest_contents [OF assms(1) kr] reliable_store.rest_contents [OF assms(1) kr']
    by (auto simp: full_key_inj)
  then show ?thesis
    using ins kr' reliable_store.direct_find_ok [OF assms(1) kr', of alternate key val n] assms(4)
    by (auto simp: kv_stores_def)
qed

lemma direct_insert_find_witness:
  "\<exists>s'. direct_insert (disk_env (\<lambda>_. 0)) True 7 (Some [5, 6]) Map.empty = (ASTARTE_RESULT_OK, s')
    \<and> direct_find (disk_env (\<lambda>_. 0)) True 7 (Some 4) s' = (ASTARTE_RESULT_OK, Some 2, [5, 6])"
  using direct_insert_find [OF disk.reliable_store_axioms [of "\<lambda>_. 0"] disk_empty, of "[5, 6]" 4 True 7]
  by (auto simp: numeral_2_eq_2)

end
