(* ===== verification/KV_Runs.thy ===== *)
theory KV_Runs
  imports KV_Claims
begin

text \<open>
  Behaviours of the store that its comments do not promise: two states of an interrupted shift that the
  recovery does not repair, with the runs that lead to them, a read error it does not notice, the iterator
  after the last deletion, and the quota of a large partition.
\<close>

section \<open>Power losses during the shift\<close>

definition with_writes :: "nat \<Rightarrow> ram \<Rightarrow> ram" where
  "with_writes n s = s\<lparr>ram_writes := n\<rparr>"

definition insert_two :: "ram kv_env \<Rightarrow> ram \<Rightarrow> ram option" where
  "insert_two Z s = do {
     (r, kv, s) \<leftarrow> key_value_insert Z demo_kv [97] [1] s;
     (r, kv, s) \<leftarrow> key_value_insert Z demo_kv [98] [2] s;
     Some s
   }"

text \<open>
  Two keys are inserted, the deletion of the first stops after \<open>n\<close> writes, the recovery runs, the
  other key is deleted and looked up: the results of the four steps.
\<close>

definition cut_delete ::
    "(byte list \<Rightarrow> u32) \<Rightarrow> nat
     \<Rightarrow> (astarte_result_t \<times> astarte_result_t \<times> astarte_result_t \<times> (astarte_result_t + nat \<times> byte list)) option" where
  "cut_delete h n = (let Z = ram_env h in do {
     s \<leftarrow> insert_two Z (ram_fresh 15);
     (r1, kv, s) \<leftarrow> key_value_delete Z demo_kv [97] (with_writes n s);
     (r2, s) \<leftarrow> entry_intent_resolve Z (with_writes 15 s);
     (r3, kv, s) \<leftarrow> key_value_delete Z demo_kv [98] s;
     (q, s) \<leftarrow> key_value_find Z demo_kv [98] None s;
     Some (r1, r2, r3, q)
   })"

text \<open>The same run, up to the state in which the power returns.\<close>

definition cut_state :: "(byte list \<Rightarrow> u32) \<Rightarrow> nat \<Rightarrow> ram option" where
  "cut_state h n = (let Z = ram_env h in do {
     s \<leftarrow> insert_two Z (ram_fresh 15);
     (r1, kv, s) \<leftarrow> key_value_delete Z demo_kv [97] (with_writes n s);
     Some (with_writes 15 s)
   })"

subsection \<open>The scan for the hole\<close>

definition shifting :: "u32 \<Rightarrow> byte list" where
  "shifting t = intent_bytes (intent_of INTENT_SHIFTING t NULL_ID NULL_ID)"

text \<open>Every ID from \<open>t\<close> to before \<open>i\<close> holds a record with a header.\<close>

definition cluster :: "(u32 \<rightharpoonup> byte list) \<Rightarrow> u32 \<Rightarrow> u32 \<Rightarrow> bool" where
  "cluster f t i \<longleftrightarrow> (\<forall>j. t \<le> j \<longrightarrow> j < i \<longrightarrow> (\<exists>d. f j = Some d \<and> FIXED_HEADER_BYTES \<le> length d))"

lemma clusterD: "cluster f t i \<Longrightarrow> t \<le> j \<Longrightarrow> j < i \<Longrightarrow> \<exists>d. f j = Some d \<and> FIXED_HEADER_BYTES \<le> length d"
  by (simp add: cluster_def)

lemma cluster_shorter: "cluster f t i \<Longrightarrow> k \<le> i \<Longrightarrow> cluster f t k"
  by (auto simp: cluster_def)

context zms_store begin

lemma read_fixed_record:
  "C s i = Some d \<Longrightarrow> FIXED_HEADER_BYTES \<le> length d \<Longrightarrow> \<exists>p. entry_header_read_fixed Z s i = Inr p"
  by (simp add: entry_header_read_fixed_def read_Some length_Some ENOENT_def FIXED_HEADER_BYTES_def)

lemma read_fixed_short:
  "C s i = Some d \<Longrightarrow> length d < FIXED_HEADER_BYTES
    \<Longrightarrow> entry_header_read_fixed Z s i = Inl ASTARTE_RESULT_ZMS_ERROR"
  by (simp add: entry_header_read_fixed_def read_Some ENOENT_def FIXED_HEADER_BYTES_def)

lemma find_hole_cluster:
  assumes "cluster (C s) t i" and "t \<le> c" and "c \<le> i" and "i \<le> MAX_USABLE_ID"
  shows "find_hole Z s t c = find_hole Z s t i"
  using assms(2,3)
proof (induction "unat i - unat c" arbitrary: c)
  case 0
  then have "c = i" by (simp add: word_le_nat_alt flip: unat_inj_iff)
  then show ?case by simp
next
  case (Suc n)
  then have lt: "c < i" by (simp add: word_less_nat_alt)
  then have max: "unat c < unat MAX_USABLE_ID" using assms(4) by (simp add: word_less_nat_alt word_le_nat_alt)
  then have u: "unat (c + 1) = unat c + 1" by (simp add: unat_word_ariths id_defs)
  have "\<exists>p. entry_header_read_fixed Z s c = Inr p"
    using clusterD [OF assms(1) Suc.prems(1) lt] read_fixed_record by auto
  moreover have "\<not> c + 1 > MAX_USABLE_ID" using u max by (simp add: word_less_nat_alt)
  moreover have "c + 1 \<noteq> t" using u Suc.prems(1) by (auto simp: word_le_nat_alt)
  ultimately have "find_hole Z s t c = find_hole Z s t (c + 1)"
    by (subst find_hole.simps) auto
  also have "\<dots> = find_hole Z s t i"
    using Suc.hyps(2) Suc.prems(1) lt u by (intro Suc.hyps(1)) (simp_all add: word_less_nat_alt word_le_nat_alt)
  finally show ?case .
qed

lemma resolve_shifting:
  assumes "C s INTENT_ID = Some (shifting t)" and "find_hole Z s t t = Some hole"
    and "\<forall>ares. hole = Inl ares \<longrightarrow> ares \<noteq> ASTARTE_RESULT_OK"
  shows "entry_intent_resolve Z s = (case hole of
      Inl ares \<Rightarrow> Some (recovery_result (ares, s))
    | Inr i \<Rightarrow> do {
        p \<leftarrow> entry_delete_resume_shift Z i s;
        and_then_opt (recovery_result p) (\<lambda>s. Some (entry_intent_clear Z s))
      })"
proof -
  have "zms_read Z s INTENT_ID 16 = (16, shifting t)"
    using assms(1) by (simp add: read_Some shifting_def)
  then show ?thesis
    using assms(2,3)
    by (auto simp: entry_intent_resolve_def shifting_def intent_of_def ENOENT_def recovery_result_def
        resolve_shift_intent_def Let_def split: sum.splits)
qed

lemma resume_at_zero:
  "entry_delete_resume_shift Z 0 s = Some (ASTARTE_RESULT_INTERNAL_ERROR, s)"
  unfolding entry_delete_resume_shift_def
  by (subst resume_shift_loop.simps) (simp add: next_slot_def id_defs shift_back_single_entry_def)

lemma resolve_wrapped:
  assumes "C s INTENT_ID = Some (shifting t)" and u: "usable t" and "cluster (C s) t INTENT_ID"
    and "\<forall>d. C s 0 = Some d \<longrightarrow> length d < FIXED_HEADER_BYTES"
  shows "entry_intent_resolve Z s = Some (ASTARTE_RESULT_KEY_VALUE_RECOVERY_FAILED, s)"
proof -
  have le: "t \<le> MAX_USABLE_ID" using u by (simp add: usable_def)
  have nz: "0 \<noteq> t" using u by (auto simp: usable_def id_defs)
  have lt: "MAX_USABLE_ID < INTENT_ID" "\<not> MAX_USABLE_ID + 1 \<le> MAX_USABLE_ID" by (simp_all add: id_defs)
  obtain p where p: "entry_header_read_fixed Z s MAX_USABLE_ID = Inr p"
    using clusterD [OF assms(3) le lt(1)] read_fixed_record by blast
  have "cluster (C s) t MAX_USABLE_ID" using lt(1) by (intro cluster_shorter [OF assms(3)]) simp
  then have "find_hole Z s t t = find_hole Z s t MAX_USABLE_ID"
    using le by (rule find_hole_cluster [OF _ order_refl]) simp
  also have "\<dots> = find_hole Z s t 0"
    using p lt(2) nz by (subst find_hole.simps) (simp add: not_le)
  finally have wrap: "find_hole Z s t t = find_hole Z s t 0" .
  show ?thesis
  proof (cases "C s 0")
    case None
    then have "find_hole Z s t t = Some (Inr 0)"
      unfolding wrap by (subst find_hole.simps) (simp add: read_fixed_None)
    from resolve_shifting [OF assms(1) this] show ?thesis by (simp add: resume_at_zero recovery_result_def)
  next
    case (Some d)
    then have "find_hole Z s t t = Some (Inl ASTARTE_RESULT_ZMS_ERROR)"
      unfolding wrap using assms(4) by (subst find_hole.simps) (simp add: read_fixed_short)
    from resolve_shifting [OF assms(1) this] show ?thesis by (simp add: recovery_result_def)
  qed
qed

end

lemma entry_at_record: "entry_at C s i k \<Longrightarrow> \<exists>d. C s i = Some d \<and> FIXED_HEADER_BYTES \<le> length d"
  by (auto simp: entry_at_def kv_image_def FIXED_HEADER_BYTES_def)

lemma entry_at_unique:
  assumes "kv_stores Z C s al" and "entry_at C s i k" and "entry_at C s j k"
  shows "i = j"
proof -
  from assms(1) obtain A ids where rep: "rep C s A" and st: "stored Z A ids"
    unfolding kv_stores_def by (elim exE kv_repE)
  have "keys_of (ka_ent A) l = Some k" if at: "entry_at C s l k" for l
    using rep at by (rule entry_at_rep) (simp add: keys_of_def)
  then show ?thesis using unique_keysD [OF storedD(2) [OF st]] assms(2,3) by metis
qed

context reliable_store begin

lemma resolve_cluster:
  assumes "C s INTENT_ID = Some (shifting t)" and "t < hole" and "usable hole"
    and "cluster (C s) t hole" and "C s hole = None" and "C s (next_slot hole) = None"
  shows "\<exists>s'. entry_intent_resolve Z s = Some (ASTARTE_RESULT_OK, s')
    \<and> C s' = (C s)(INTENT_ID \<mapsto> intent_bytes (intent_of INTENT_NONE 0 0 0))"
proof -
  have "find_hole Z s t t = find_hole Z s t hole"
    using assms(2-4) by (intro find_hole_cluster) (simp_all add: usable_def)
  also have "\<dots> = Some (Inr hole)"
    using assms(5) by (subst find_hole.simps) (simp add: read_fixed_None)
  finally have "find_hole Z s t t = Some (Inr hole)" .
  moreover have "\<not> next_slot hole \<le> 1"
    using usable_next_slot [OF assms(3)] by (auto simp: usable_def id_defs word_le_nat_alt)
  then have "entry_delete_resume_shift Z hole s = Some (ASTARTE_RESULT_OK, s)"
    unfolding entry_delete_resume_shift_def using next_slot_neq [OF assms(3)] assms(6)
    by (subst resume_shift_loop.simps) (simp add: shift_back_single_entry_def read_header_None)
  ultimately have "entry_intent_resolve Z s = Some (entry_intent_clear Z s)"
    using resolve_shifting [OF assms(1)] by (simp add: recovery_result_def)
  moreover obtain rc s' where w: "zms_write Z s INTENT_ID (intent_bytes (intent_of INTENT_NONE 0 0 0)) = (rc, s')"
    by force
  moreover have "0 \<le> rc" "C s' = (C s)(INTENT_ID \<mapsto> intent_bytes (intent_of INTENT_NONE 0 0 0))"
    using write_law [OF w] write_ok [of s INTENT_ID "intent_bytes (intent_of INTENT_NONE 0 0 0)"] w
    by (auto simp: intent_bytes_def)
  ultimately show ?thesis by (auto simp: entry_intent_clear_def intent_of_def rc_check_def)
qed

end

subsection \<open>A shift that left an entry twice\<close>

text \<open>C35: When the power fails in the shift, after an entry was copied into the hole and before its old
  record is deleted, the target of the intent holds an entry and its key is stored under a second ID.  If
  the cluster ends in two free IDs, the recovery takes the first of them for the hole, reports success and
  changes nothing but the intent: the key stays stored twice, and the store is not that of any list of
  pairs.\<close>

theorem shift_power_loss_duplicates:
  assumes "reliable_store Z C" and "C s INTENT_ID = Some (shifting t)"
    and "entry_at C s t k" and "entry_at C s j k" and "j \<noteq> t"
    and "t < hole" and "usable hole" and "cluster (C s) t hole"
    and "C s hole = None" and "C s (next_slot hole) = None"
  shows "\<exists>s'. entry_intent_resolve Z s = Some (ASTARTE_RESULT_OK, s')
    \<and> C s' = (C s)(INTENT_ID \<mapsto> intent_bytes (intent_of INTENT_NONE 0 0 0))
    \<and> entry_at C s' t k \<and> entry_at C s' j k \<and> (\<forall>al. \<not> kv_stores Z C s' al)"
proof -
  from reliable_store.resolve_cluster [OF assms(1,2,6-10)] obtain s' where
    s': "entry_intent_resolve Z s = Some (ASTARTE_RESULT_OK, s')"
      "C s' = (C s)(INTENT_ID \<mapsto> intent_bytes (intent_of INTENT_NONE 0 0 0))" by auto
  have at: "entry_at C s' i k" if "entry_at C s i k" for i
    using that s'(2) by (auto simp: entry_at_def)
  then have "entry_at C s' t k" "entry_at C s' j k" using assms(3,4) by simp_all
  with s' entry_at_unique [OF _ this] assms(5) show ?thesis by blast
qed

text \<open>Both keys have the same natural ID: the second entry was copied there from the next.\<close>

definition shared_slot :: u32 where "shared_slot = 0x9E383D47"

definition copied_entry :: kv_entry where
  "copied_entry = \<lparr>e_ns = [110], e_key = [98], e_val = [2], e_next = NULL_ID, e_prev = NULL_ID\<rparr>"

lemma cut_copied:
  "map_option (\<lambda>s. (ram_store s INTENT_ID = Some (shifting shared_slot),
      map (ram_store s) [shared_slot, shared_slot + 1, shared_slot + 2, shared_slot + 3]))
    (cut_state (\<lambda>_. 0) 6)
   = Some (True, [Some (kv_image copied_entry), Some (kv_image copied_entry), None, None])"
  by code_simp

lemma shift_power_loss_duplicates_witness:
  "\<exists>s s'. cut_state (\<lambda>_. 0) 6 = Some s
    \<and> entry_intent_resolve (ram_repaired (\<lambda>_. 0)) s = Some (ASTARTE_RESULT_OK, s')
    \<and> entry_at ram_store s' shared_slot ([110], [98])
    \<and> entry_at ram_store s' (shared_slot + 1) ([110], [98])
    \<and> (\<forall>al. \<not> kv_stores (ram_repaired (\<lambda>_. 0)) ram_store s' al)"
proof -
  let ?t = shared_slot
  obtain s where s: "cut_state (\<lambda>_. 0) 6 = Some s"
    and int: "ram_store s INTENT_ID = Some (shifting ?t)"
    and both: "ram_store s ?t = Some (kv_image copied_entry)" "ram_store s (?t + 1) = Some (kv_image copied_entry)"
    and free: "ram_store s (?t + 2) = None" "ram_store s (?t + 3) = None"
    using cut_copied by auto
  have at: "entry_at ram_store s ?t ([110], [98])" "entry_at ram_store s (?t + 1) ([110], [98])"
    using both unfolding entry_at_def copied_entry_def
    by (auto simp: usable_def id_defs shared_slot_def valid_entry_def intro!: exI)
  have "i = ?t \<or> i = ?t + 1" if "?t \<le> i" "i < ?t + 2" for i :: u32
    using that by (auto simp: id_defs shared_slot_def word_le_nat_alt word_less_nat_alt simp flip: unat_inj_iff)
  then have "cluster (ram_store s) ?t (?t + 2)" using at [THEN entry_at_record] unfolding cluster_def by blast
  from shift_power_loss_duplicates [OF repaired.reliable_store_axioms int at _ _ _ this free(1)] free(2)
  show ?thesis using s by (auto simp: usable_def id_defs shared_slot_def next_slot_def)
qed

text \<open>On the same device the deletion of the key then reports success, and the key is still found.\<close>

lemma duplicate_survives_deletion:
  "cut_delete (\<lambda>_. 0) 6
   = Some (ASTARTE_RESULT_ZMS_ERROR, ASTARTE_RESULT_OK, ASTARTE_RESULT_OK, Inr (1, []))"
  by code_simp

subsection \<open>A shift that wrapped around\<close>

text \<open>C36: When the interrupted shift wrapped around the end of the ID range, every ID from the target of
  the intent to the last usable one holds an entry.  The scan for the hole then goes on from ID 0
  instead of the first usable ID, and unless a record happens to be stored there the recovery fails and
  changes nothing.  So the store never works again: every later insertion, look-up, deletion and use of
  an iterator, in any order and number, fails with \<open>KEY_VALUE_RECOVERY_FAILED\<close>, although the device
  works.\<close>

theorem wrapped_shift_recovery_fails:
  assumes "zms_store Z C" and "sys_mutex_lock Z s = 0"
    and "C s INTENT_ID = Some (shifting t)" and "usable t" and "cluster (C s) t INTENT_ID"
    and "\<forall>d. C s 0 = Some d \<longrightarrow> length d < FIXED_HEADER_BYTES"
  shows "entry_intent_resolve Z s = Some (ASTARTE_RESULT_KEY_VALUE_RECOVERY_FAILED, s)
    \<and> run_steps (kv_step Z kv) xs s
        = Some (map (\<lambda>_. (ASTARTE_RESULT_KEY_VALUE_RECOVERY_FAILED, [])) xs, s)
    \<and> iterator_next Z kv i s = Some (Inl ASTARTE_RESULT_KEY_VALUE_RECOVERY_FAILED, s)
    \<and> iterator_get Z i buffer s = Some (Inl ASTARTE_RESULT_KEY_VALUE_RECOVERY_FAILED, s)
    \<and> (i \<noteq> 0 \<longrightarrow> iterator_delete Z kv i s = Some (ASTARTE_RESULT_KEY_VALUE_RECOVERY_FAILED, kv, i, s))"
proof -
  have r: "entry_intent_resolve Z s = Some (ASTARTE_RESULT_KEY_VALUE_RECOVERY_FAILED, s)"
    using zms_store.resolve_wrapped [OF assms(1,3-6)] .
  then have l: "resolve_locked Z s = Some (ASTARTE_RESULT_KEY_VALUE_RECOVERY_FAILED, s)"
    using assms(2) by (simp add: resolve_locked_def mutex_lock_def)
  then have "kv_step Z kv x s = Some ((ASTARTE_RESULT_KEY_VALUE_RECOVERY_FAILED, []), s)" for x
    by (simp add: kv_step_def key_value_insert_def key_value_find_def key_value_delete_def split: kv_op.split)
  then have "run_steps (kv_step Z kv) xs s
      = Some (map (\<lambda>_. (ASTARTE_RESULT_KEY_VALUE_RECOVERY_FAILED, [])) xs, s)"
    by (induction xs) simp_all
  with r l show ?thesis by (simp add: iterator_next_def iterator_get_def iterator_delete_def)
qed

text \<open>The natural ID of every key is the last usable one; the entry of the second key has just been
  copied there from the first usable ID.\<close>

definition last_slot_hash :: "byte list \<Rightarrow> u32" where
  "last_slot_hash bs = (if bs = [110] then 0 else 0x61C88646)"

lemma cut_wrapped:
  "map_option (\<lambda>s. (ram_store s INTENT_ID = Some (shifting MAX_USABLE_ID),
      map_option (\<lambda>d. FIXED_HEADER_BYTES \<le> length d) (ram_store s MAX_USABLE_ID), ram_store s 0))
    (cut_state last_slot_hash 9) = Some (True, Some True, None)"
  by code_simp

lemma wrapped_shift_recovery_fails_witness:
  "\<exists>s. cut_state last_slot_hash 9 = Some s
    \<and> run_steps (kv_step (ram_env last_slot_hash) demo_kv) [Find [98], Delete [98], Insert [99] [3]] s
        = Some (replicate 3 (ASTARTE_RESULT_KEY_VALUE_RECOVERY_FAILED, []), s)"
proof -
  obtain s where s: "cut_state last_slot_hash 9 = Some s"
    and int: "ram_store s INTENT_ID = Some (shifting MAX_USABLE_ID)"
    and last: "\<exists>d. ram_store s MAX_USABLE_ID = Some d \<and> FIXED_HEADER_BYTES \<le> length d"
    and "ram_store s 0 = None"
    using cut_wrapped by auto
  have "j = MAX_USABLE_ID" if "MAX_USABLE_ID \<le> j" "j < INTENT_ID" for j :: u32
    using that by (simp add: id_defs word_le_nat_alt word_less_nat_alt flip: unat_inj_iff)
  then have "cluster (ram_store s) MAX_USABLE_ID INTENT_ID" using last by (auto simp: cluster_def)
  from wrapped_shift_recovery_fails [OF ram.zms_store_axioms _ int _ this, of last_slot_hash demo_kv
      "[Find [98], Delete [98], Insert [99] [3]]"]
  show ?thesis using s \<open>ram_store s 0 = None\<close> by (simp add: usable_def id_defs numeral_3_eq_3)
qed

section \<open>A read error\<close>

text \<open>C37: An intent block that cannot be read counts as a healthy store: the check of the state
  byte, still zero, comes before the check of the result of the read.\<close>

theorem intent_read_error_ignored:
  assumes "zms_read Z s INTENT_ID 16 = (ret, [])"
  shows "entry_intent_resolve Z s = Some (ASTARTE_RESULT_OK, s)"
  using assms by (simp add: entry_intent_resolve_def parse_intent_def fill_buf_def)

text \<open>The partition in memory with an intent block that cannot be read.\<close>

definition bad_intent_env :: "ram kv_env" where
  "bad_intent_env = (ram_env (\<lambda>_. 0))
     \<lparr>zms_read := (\<lambda>s i n. if i = INTENT_ID then (- EIO, []) else ram_read s i n)\<rparr>"

lemma intent_read_error_ignored_witness:
  "entry_intent_resolve bad_intent_env (ram_fresh 9) = Some (ASTARTE_RESULT_OK, ram_fresh 9)"
  by (rule intent_read_error_ignored [of _ _ "- EIO"]) (simp add: bad_intent_env_def)

section \<open>The iterator after the last deletion\<close>

text \<open>
  Two keys are inserted, an iterator is moved to the second, deletes there and is moved on: the
  keys it visited before and after the deletion.
\<close>

definition key_at :: "ram kv_env \<Rightarrow> u32 \<Rightarrow> ram \<Rightarrow> byte list option" where
  "key_at Z i s = (case entry_read_key Z s i (Some 8) of Inl _ \<Rightarrow> None | Inr (n, key) \<Rightarrow> Some (c_string key))"

definition delete_last :: "ram kv_env \<Rightarrow> (byte list option \<times> astarte_result_t \<times> byte list option) option" where
  "delete_last Z = do {
     s \<leftarrow> insert_two Z (ram_fresh 60);
     (r, s) \<leftarrow> iterator_init Z demo_kv s;
     (r, s) \<leftarrow> iterator_next Z demo_kv (projr r) s;
     let before = key_at Z (projr r) s;
     (ares, kv, cur, s) \<leftarrow> iterator_delete Z demo_kv (projr r) s;
     (r, s) \<leftarrow> iterator_next Z demo_kv cur s;
     Some (before, ares, key_at Z (projr r) s)
   }"

text \<open>After the deletion at the last key the next key the iterator yields is the first one
  again, not the end.\<close>

theorem iterator_restarts_after_last_deletion:
  "delete_last (ram_env (\<lambda>_. 0)) = Some (Some [98], ASTARTE_RESULT_OK, Some [97])"
  by code_simp

section \<open>Quota of a large partition\<close>

text \<open>The quota is computed in 32 bits: it is the stated percentage only while the product of
  the partition's bytes and the percentage fits; 80 percent of a partition of 64 MiB is 10 MiB.\<close>

theorem quota_bytes_exact:
  assumes "unat sector_size * unat sector_count * unat pct < 2 ^ 32"
  shows "unat (quota_bytes sector_size sector_count pct)
      = unat sector_size * unat sector_count * unat pct div 100
    \<and> quota_bytes 4096 16384 80 = 10737418"
proof
  let ?a = "unat sector_size" and ?b = "unat sector_count" and ?c = "unat pct"
  have c: "unat (ucast pct :: u32) = ?c"
  proof -
    have "unat pct < 256" using unsigned_less [of pct] by simp
    then show ?thesis by (simp add: unsigned_ucast_eq take_bit_nat_eq_self)
  qed
  show "unat (quota_bytes sector_size sector_count pct) = ?a * ?b * ?c div 100"
  proof (cases "?c = 0")
    case True
    then have "pct = 0" by (simp add: unat_eq_0)
    then show ?thesis by (simp add: quota_bytes_def)
  next
    case False
    then have "?a * ?b * 1 \<le> ?a * ?b * ?c" by (intro mult_le_mono) simp_all
    then have "?a * ?b < 2 ^ 32" using assms by linarith
    then have "unat (sector_size * sector_count) = ?a * ?b" by (simp add: unat_word_ariths)
    then have "unat (sector_size * sector_count * ucast pct) = ?a * ?b * ?c"
      using assms c by (simp add: unat_word_ariths)
    then show ?thesis by (simp add: quota_bytes_def unat_div)
  qed
  show "quota_bytes 4096 16384 80 = 10737418"
    by (simp add: quota_bytes_def)
qed

lemma quota_bytes_exact_witness: "unat (quota_bytes 4096 16 80) = 52428"
  using quota_bytes_exact [of 4096 16 80] by simp

end
