(* ===== verification/Data_Core.thy ===== *)
theory Data_Core
  imports Result
begin

text \<open>
  Astarte data (lib/astarte\_device\_sdk/data/core.c, include/astarte\_device\_sdk/data.h): the tagged
  union of the fourteen Astarte types, its constructors and its checked accessors.  A double is its
  bit pattern; an array is the buffer and the length given for it, so a length that differs from the
  length of the buffer is representable; \<open>NULL\<close> is the empty buffer.
\<close>

section \<open>Types and values\<close>

text \<open>\<open>ASTARTE_MAPPING_TYPE_INVALID\<close> stands for the values of the enumeration outside its constants.\<close>

datatype (plugins only: code size) astarte_mapping_type_t =
    ASTARTE_MAPPING_TYPE_BINARYBLOB
  | ASTARTE_MAPPING_TYPE_BOOLEAN
  | ASTARTE_MAPPING_TYPE_DATETIME
  | ASTARTE_MAPPING_TYPE_DOUBLE
  | ASTARTE_MAPPING_TYPE_INTEGER
  | ASTARTE_MAPPING_TYPE_LONGINTEGER
  | ASTARTE_MAPPING_TYPE_STRING
  | ASTARTE_MAPPING_TYPE_BINARYBLOBARRAY
  | ASTARTE_MAPPING_TYPE_BOOLEANARRAY
  | ASTARTE_MAPPING_TYPE_DATETIMEARRAY
  | ASTARTE_MAPPING_TYPE_DOUBLEARRAY
  | ASTARTE_MAPPING_TYPE_INTEGERARRAY
  | ASTARTE_MAPPING_TYPE_LONGINTEGERARRAY
  | ASTARTE_MAPPING_TYPE_STRINGARRAY
  | ASTARTE_MAPPING_TYPE_INVALID

datatype astarte_data_union =
    Binaryblob "byte list" nat
  | Boolean bool
  | Datetime u64
  | Double u64
  | Integer u32
  | Longinteger u64
  | String "byte list"
  | BinaryblobArray "byte list list" "nat list" nat
  | BooleanArray "bool list" nat
  | DatetimeArray "u64 list" nat
  | DoubleArray "u64 list" nat
  | IntegerArray "u32 list" nat
  | LongintegerArray "u64 list" nat
  | StringArray "byte list list" nat
  | NoData

primrec union_tag :: "astarte_data_union \<Rightarrow> astarte_mapping_type_t" where
  "union_tag (Binaryblob _ _) = ASTARTE_MAPPING_TYPE_BINARYBLOB"
| "union_tag (Boolean _) = ASTARTE_MAPPING_TYPE_BOOLEAN"
| "union_tag (Datetime _) = ASTARTE_MAPPING_TYPE_DATETIME"
| "union_tag (Double _) = ASTARTE_MAPPING_TYPE_DOUBLE"
| "union_tag (Integer _) = ASTARTE_MAPPING_TYPE_INTEGER"
| "union_tag (Longinteger _) = ASTARTE_MAPPING_TYPE_LONGINTEGER"
| "union_tag (String _) = ASTARTE_MAPPING_TYPE_STRING"
| "union_tag (BinaryblobArray _ _ _) = ASTARTE_MAPPING_TYPE_BINARYBLOBARRAY"
| "union_tag (BooleanArray _ _) = ASTARTE_MAPPING_TYPE_BOOLEANARRAY"
| "union_tag (DatetimeArray _ _) = ASTARTE_MAPPING_TYPE_DATETIMEARRAY"
| "union_tag (DoubleArray _ _) = ASTARTE_MAPPING_TYPE_DOUBLEARRAY"
| "union_tag (IntegerArray _ _) = ASTARTE_MAPPING_TYPE_INTEGERARRAY"
| "union_tag (LongintegerArray _ _) = ASTARTE_MAPPING_TYPE_LONGINTEGERARRAY"
| "union_tag (StringArray _ _) = ASTARTE_MAPPING_TYPE_STRINGARRAY"
| "union_tag NoData = ASTARTE_MAPPING_TYPE_INVALID"

record astarte_data_t =
  data :: astarte_data_union
  is_owned :: bool

abbreviation tag :: "astarte_data_t \<Rightarrow> astarte_mapping_type_t" where
  "tag d \<equiv> union_tag (data d)"

definition astarte_data_get_type :: "astarte_data_t \<Rightarrow> astarte_mapping_type_t" where
  "astarte_data_get_type d = tag d"

section \<open>Constructors\<close>

definition from_union :: "astarte_data_union \<Rightarrow> astarte_data_t" where
  "from_union u = \<lparr>data = u, is_owned = False\<rparr>"

definition astarte_data_from_binaryblob :: "byte list \<Rightarrow> nat \<Rightarrow> astarte_data_t" where
  "astarte_data_from_binaryblob buf len = from_union (Binaryblob buf len)"

definition astarte_data_from_boolean :: "bool \<Rightarrow> astarte_data_t" where
  "astarte_data_from_boolean val = from_union (Boolean val)"

definition astarte_data_from_datetime :: "u64 \<Rightarrow> astarte_data_t" where
  "astarte_data_from_datetime val = from_union (Datetime val)"

definition astarte_data_from_double :: "u64 \<Rightarrow> astarte_data_t" where
  "astarte_data_from_double val = from_union (Double val)"

definition astarte_data_from_integer :: "u32 \<Rightarrow> astarte_data_t" where
  "astarte_data_from_integer val = from_union (Integer val)"

definition astarte_data_from_longinteger :: "u64 \<Rightarrow> astarte_data_t" where
  "astarte_data_from_longinteger val = from_union (Longinteger val)"

definition astarte_data_from_string :: "byte list \<Rightarrow> astarte_data_t" where
  "astarte_data_from_string val = from_union (String val)"

definition astarte_data_from_binaryblob_array :: "byte list list \<Rightarrow> nat list \<Rightarrow> nat \<Rightarrow> astarte_data_t" where
  "astarte_data_from_binaryblob_array blobs sizes count = from_union (BinaryblobArray blobs sizes count)"

definition astarte_data_from_boolean_array :: "bool list \<Rightarrow> nat \<Rightarrow> astarte_data_t" where
  "astarte_data_from_boolean_array buf len = from_union (BooleanArray buf len)"

definition astarte_data_from_datetime_array :: "u64 list \<Rightarrow> nat \<Rightarrow> astarte_data_t" where
  "astarte_data_from_datetime_array buf len = from_union (DatetimeArray buf len)"

definition astarte_data_from_double_array :: "u64 list \<Rightarrow> nat \<Rightarrow> astarte_data_t" where
  "astarte_data_from_double_array buf len = from_union (DoubleArray buf len)"

definition astarte_data_from_integer_array :: "u32 list \<Rightarrow> nat \<Rightarrow> astarte_data_t" where
  "astarte_data_from_integer_array buf len = from_union (IntegerArray buf len)"

definition astarte_data_from_longinteger_array :: "u64 list \<Rightarrow> nat \<Rightarrow> astarte_data_t" where
  "astarte_data_from_longinteger_array buf len = from_union (LongintegerArray buf len)"

definition astarte_data_from_string_array :: "byte list list \<Rightarrow> nat \<Rightarrow> astarte_data_t" where
  "astarte_data_from_string_array buf len = from_union (StringArray buf len)"

section \<open>Accessors\<close>

text \<open>\<open>val\<close>, \<open>buf\<close> and \<open>len\<close> tell whether the pointers for the results are not \<open>NULL\<close>.\<close>

definition astarte_data_to_binaryblob ::
    "astarte_data_t \<Rightarrow> bool \<Rightarrow> bool \<Rightarrow> astarte_result_t + byte list \<times> nat" where
  "astarte_data_to_binaryblob d buf len =
     (case data d of
        Binaryblob b n \<Rightarrow> if \<not> buf \<or> \<not> len then Inl ASTARTE_RESULT_INVALID_PARAM else Inr (b, n)
      | _ \<Rightarrow> Inl ASTARTE_RESULT_INVALID_PARAM)"

definition astarte_data_to_boolean :: "astarte_data_t \<Rightarrow> bool \<Rightarrow> astarte_result_t + bool" where
  "astarte_data_to_boolean d val =
     (case data d of
        Boolean v \<Rightarrow> if \<not> val then Inl ASTARTE_RESULT_INVALID_PARAM else Inr v
      | _ \<Rightarrow> Inl ASTARTE_RESULT_INVALID_PARAM)"

definition astarte_data_to_datetime :: "astarte_data_t \<Rightarrow> bool \<Rightarrow> astarte_result_t + u64" where
  "astarte_data_to_datetime d val =
     (case data d of
        Datetime v \<Rightarrow> if \<not> val then Inl ASTARTE_RESULT_INVALID_PARAM else Inr v
      | _ \<Rightarrow> Inl ASTARTE_RESULT_INVALID_PARAM)"

definition astarte_data_to_double :: "astarte_data_t \<Rightarrow> bool \<Rightarrow> astarte_result_t + u64" where
  "astarte_data_to_double d val =
     (case data d of
        Double v \<Rightarrow> if \<not> val then Inl ASTARTE_RESULT_INVALID_PARAM else Inr v
      | _ \<Rightarrow> Inl ASTARTE_RESULT_INVALID_PARAM)"

definition astarte_data_to_integer :: "astarte_data_t \<Rightarrow> bool \<Rightarrow> astarte_result_t + u32" where
  "astarte_data_to_integer d val =
     (case data d of
        Integer v \<Rightarrow> if \<not> val then Inl ASTARTE_RESULT_INVALID_PARAM else Inr v
      | _ \<Rightarrow> Inl ASTARTE_RESULT_INVALID_PARAM)"

definition astarte_data_to_longinteger :: "astarte_data_t \<Rightarrow> bool \<Rightarrow> astarte_result_t + u64" where
  "astarte_data_to_longinteger d val =
     (case data d of
        Longinteger v \<Rightarrow> if \<not> val then Inl ASTARTE_RESULT_INVALID_PARAM else Inr v
      | _ \<Rightarrow> Inl ASTARTE_RESULT_INVALID_PARAM)"

definition astarte_data_to_string :: "astarte_data_t \<Rightarrow> bool \<Rightarrow> astarte_result_t + byte list" where
  "astarte_data_to_string d val =
     (case data d of
        String v \<Rightarrow> if \<not> val then Inl ASTARTE_RESULT_INVALID_PARAM else Inr v
      | _ \<Rightarrow> Inl ASTARTE_RESULT_INVALID_PARAM)"

definition astarte_data_to_binaryblob_array ::
    "astarte_data_t \<Rightarrow> bool \<Rightarrow> bool \<Rightarrow> bool \<Rightarrow> astarte_result_t + byte list list \<times> nat list \<times> nat" where
  "astarte_data_to_binaryblob_array d blobs sizes count =
     (case data d of
        BinaryblobArray b s n \<Rightarrow>
          if \<not> blobs \<or> \<not> sizes \<or> \<not> count then Inl ASTARTE_RESULT_INVALID_PARAM else Inr (b, s, n)
      | _ \<Rightarrow> Inl ASTARTE_RESULT_INVALID_PARAM)"

definition astarte_data_to_boolean_array ::
    "astarte_data_t \<Rightarrow> bool \<Rightarrow> bool \<Rightarrow> astarte_result_t + bool list \<times> nat" where
  "astarte_data_to_boolean_array d buf len =
     (case data d of
        BooleanArray b n \<Rightarrow> if \<not> buf \<or> \<not> len then Inl ASTARTE_RESULT_INVALID_PARAM else Inr (b, n)
      | _ \<Rightarrow> Inl ASTARTE_RESULT_INVALID_PARAM)"

definition astarte_data_to_datetime_array ::
    "astarte_data_t \<Rightarrow> bool \<Rightarrow> bool \<Rightarrow> astarte_result_t + u64 list \<times> nat" where
  "astarte_data_to_datetime_array d buf len =
     (case data d of
        DatetimeArray b n \<Rightarrow> if \<not> buf \<or> \<not> len then Inl ASTARTE_RESULT_INVALID_PARAM else Inr (b, n)
      | _ \<Rightarrow> Inl ASTARTE_RESULT_INVALID_PARAM)"

definition astarte_data_to_double_array ::
    "astarte_data_t \<Rightarrow> bool \<Rightarrow> bool \<Rightarrow> astarte_result_t + u64 list \<times> nat" where
  "astarte_data_to_double_array d buf len =
     (case data d of
        DoubleArray b n \<Rightarrow> if \<not> buf \<or> \<not> len then Inl ASTARTE_RESULT_INVALID_PARAM else Inr (b, n)
      | _ \<Rightarrow> Inl ASTARTE_RESULT_INVALID_PARAM)"

definition astarte_data_to_integer_array ::
    "astarte_data_t \<Rightarrow> bool \<Rightarrow> bool \<Rightarrow> astarte_result_t + u32 list \<times> nat" where
  "astarte_data_to_integer_array d buf len =
     (case data d of
        IntegerArray b n \<Rightarrow> if \<not> buf \<or> \<not> len then Inl ASTARTE_RESULT_INVALID_PARAM else Inr (b, n)
      | _ \<Rightarrow> Inl ASTARTE_RESULT_INVALID_PARAM)"

definition astarte_data_to_longinteger_array ::
    "astarte_data_t \<Rightarrow> bool \<Rightarrow> bool \<Rightarrow> astarte_result_t + u64 list \<times> nat" where
  "astarte_data_to_longinteger_array d buf len =
     (case data d of
        LongintegerArray b n \<Rightarrow> if \<not> buf \<or> \<not> len then Inl ASTARTE_RESULT_INVALID_PARAM else Inr (b, n)
      | _ \<Rightarrow> Inl ASTARTE_RESULT_INVALID_PARAM)"

definition astarte_data_to_string_array ::
    "astarte_data_t \<Rightarrow> bool \<Rightarrow> bool \<Rightarrow> astarte_result_t + byte list list \<times> nat" where
  "astarte_data_to_string_array d buf len =
     (case data d of
        StringArray b n \<Rightarrow> if \<not> buf \<or> \<not> len then Inl ASTARTE_RESULT_INVALID_PARAM else Inr (b, n)
      | _ \<Rightarrow> Inl ASTARTE_RESULT_INVALID_PARAM)"

end
