(* ===== verification/Bson_Types.thy ===== *)
theory Bson_Types
  imports Result
begin

text \<open>
  The BSON format of lib/astarte\_device\_sdk/bson: the type bytes of bson/types.h, the values the
  library knows, and their encoding as the format defines it.  The encoding is the specification
  both the serializer and the deserializer are checked against.
\<close>

section \<open>Type bytes\<close>

definition ASTARTE_BSON_TYPE_DOUBLE :: u8 where "ASTARTE_BSON_TYPE_DOUBLE = 0x01"
definition ASTARTE_BSON_TYPE_STRING :: u8 where "ASTARTE_BSON_TYPE_STRING = 0x02"
definition ASTARTE_BSON_TYPE_DOCUMENT :: u8 where "ASTARTE_BSON_TYPE_DOCUMENT = 0x03"
definition ASTARTE_BSON_TYPE_ARRAY :: u8 where "ASTARTE_BSON_TYPE_ARRAY = 0x04"
definition ASTARTE_BSON_TYPE_BINARY :: u8 where "ASTARTE_BSON_TYPE_BINARY = 0x05"
definition ASTARTE_BSON_TYPE_BOOLEAN :: u8 where "ASTARTE_BSON_TYPE_BOOLEAN = 0x08"
definition ASTARTE_BSON_TYPE_DATETIME :: u8 where "ASTARTE_BSON_TYPE_DATETIME = 0x09"
definition ASTARTE_BSON_TYPE_INT32 :: u8 where "ASTARTE_BSON_TYPE_INT32 = 0x10"
definition ASTARTE_BSON_TYPE_INT64 :: u8 where "ASTARTE_BSON_TYPE_INT64 = 0x12"
definition ASTARTE_BSON_SUBTYPE_DEFAULT_BINARY :: u8 where "ASTARTE_BSON_SUBTYPE_DEFAULT_BINARY = 0x00"

lemmas bson_type_bytes =
  ASTARTE_BSON_TYPE_DOUBLE_def ASTARTE_BSON_TYPE_STRING_def ASTARTE_BSON_TYPE_DOCUMENT_def
  ASTARTE_BSON_TYPE_ARRAY_def ASTARTE_BSON_TYPE_BINARY_def ASTARTE_BSON_TYPE_BOOLEAN_def
  ASTARTE_BSON_TYPE_DATETIME_def ASTARTE_BSON_TYPE_INT32_def ASTARTE_BSON_TYPE_INT64_def

section \<open>Values and their encoding\<close>

text \<open>
  A double is its IEEE 754 bit pattern, an integer its two's complement word; a document and an
  array are the list of their named elements (the names of an array are its indices).
\<close>

datatype bson_value =
    BDouble u64
  | BString "byte list"
  | BDocument "(byte list \<times> bson_value) list"
  | BArray "(byte list \<times> bson_value) list"
  | BBinary "byte list"
  | BBoolean bool
  | BDatetime u64
  | BInt32 u32
  | BInt64 u64

fun type_byte :: "bson_value \<Rightarrow> u8" where
  "type_byte (BDouble _) = ASTARTE_BSON_TYPE_DOUBLE"
| "type_byte (BString _) = ASTARTE_BSON_TYPE_STRING"
| "type_byte (BDocument _) = ASTARTE_BSON_TYPE_DOCUMENT"
| "type_byte (BArray _) = ASTARTE_BSON_TYPE_ARRAY"
| "type_byte (BBinary _) = ASTARTE_BSON_TYPE_BINARY"
| "type_byte (BBoolean _) = ASTARTE_BSON_TYPE_BOOLEAN"
| "type_byte (BDatetime _) = ASTARTE_BSON_TYPE_DATETIME"
| "type_byte (BInt32 _) = ASTARTE_BSON_TYPE_INT32"
| "type_byte (BInt64 _) = ASTARTE_BSON_TYPE_INT64"

lemma type_byte_nonzero [simp]: "type_byte v \<noteq> 0"
  by (cases v) (simp_all add: bson_type_bytes)

text \<open>A document: its length, its elements, a zero byte; the length counts all of it.\<close>

definition frame_doc :: "byte list \<Rightarrow> byte list" where
  "frame_doc body = le32 (of_nat (length body + 5)) @ body @ [0]"

lemma length_frame_doc [simp]: "length (frame_doc body) = length body + 5"
  by (simp add: frame_doc_def)

fun enc_value :: "bson_value \<Rightarrow> byte list"
and enc_elems :: "(byte list \<times> bson_value) list \<Rightarrow> byte list" where
  "enc_value (BDouble w) = le64 w"
| "enc_value (BString s) = le32 (of_nat (length s + 1)) @ s @ [0]"
| "enc_value (BDocument es) = frame_doc (enc_elems es)"
| "enc_value (BArray es) = frame_doc (enc_elems es)"
| "enc_value (BBinary b) = le32 (of_nat (length b)) @ [ASTARTE_BSON_SUBTYPE_DEFAULT_BINARY] @ b"
| "enc_value (BBoolean b) = [if b then 1 else 0]"
| "enc_value (BDatetime w) = le64 w"
| "enc_value (BInt32 w) = le32 w"
| "enc_value (BInt64 w) = le64 w"
| "enc_elems [] = []"
| "enc_elems ((n, v) # es) = type_byte v # n @ [0] @ enc_value v @ enc_elems es"

definition enc_elem :: "byte list \<times> bson_value \<Rightarrow> byte list" where
  "enc_elem e = type_byte (snd e) # fst e @ [0] @ enc_value (snd e)"

definition enc_doc :: "(byte list \<times> bson_value) list \<Rightarrow> byte list" where
  "enc_doc es = frame_doc (enc_elems es)"

lemma enc_elems_Cons: "enc_elems (e # es) = enc_elem e @ enc_elems es"
  by (cases e) (simp add: enc_elem_def)

lemma enc_elems_append [simp]: "enc_elems (es @ fs) = enc_elems es @ enc_elems fs"
  by (induction es) (simp_all add: enc_elems_Cons)

lemma enc_elem_neq_Nil [simp]: "enc_elem e \<noteq> []"
  by (simp add: enc_elem_def)

text \<open>The names of elements are C strings, at every depth.\<close>

fun wf_value :: "bson_value \<Rightarrow> bool"
and wf_elems :: "(byte list \<times> bson_value) list \<Rightarrow> bool" where
  "wf_value (BDocument es) = wf_elems es"
| "wf_value (BArray es) = wf_elems es"
| "wf_value v = True"
| "wf_elems [] = True"
| "wf_elems ((n, v) # es) = (nul_free n \<and> wf_value v \<and> wf_elems es)"

lemma wf_elems_Cons: "wf_elems (e # es) \<longleftrightarrow> nul_free (fst e) \<and> wf_value (snd e) \<and> wf_elems es"
  by (cases e) simp

lemma wf_elems_iff: "wf_elems es \<longleftrightarrow> list_all (\<lambda>e. nul_free (fst e) \<and> wf_value (snd e)) es"
  by (induction es) (auto simp: wf_elems_Cons)

lemma enc_value_neq_Nil [simp]: "enc_value v \<noteq> []"
  by (cases v) (simp_all add: frame_doc_def)

end
