(* ===== verification/Astarte_Mapping.thy ===== *)
theory Astarte_Mapping
  imports Data_Core Bson_Types
begin

text \<open>
  The mappings of an interface (lib/astarte\_device\_sdk/mapping.c): the types of the array
  elements, the match of a path against an endpoint, the check of data against a mapping and the
  compatibility of BSON types.  A pointer into an endpoint or a path is the rest of the string
  from there.
\<close>

section \<open>The mapping\<close>

datatype (plugins only: code size) astarte_mapping_reliability_t =
    ASTARTE_MAPPING_RELIABILITY_UNRELIABLE
  | ASTARTE_MAPPING_RELIABILITY_GUARANTEED
  | ASTARTE_MAPPING_RELIABILITY_UNIQUE

datatype (plugins only: code size) astarte_mapping_retention_t =
    ASTARTE_MAPPING_RETENTION_DISCARD
  | ASTARTE_MAPPING_RETENTION_VOLATILE
  | ASTARTE_MAPPING_RETENTION_STORED

record astarte_mapping_t =
  mp_endpoint :: "byte list"
  mp_type :: astarte_mapping_type_t
  mp_reliability :: astarte_mapping_reliability_t
  mp_explicit_timestamp :: bool
  mp_required :: bool
  mp_retention :: astarte_mapping_retention_t
  mp_expiry :: u32
  mp_allow_unset :: bool

primrec astarte_mapping_array_to_scalar_type ::
    "astarte_mapping_type_t \<Rightarrow> astarte_result_t + astarte_mapping_type_t" where
  "astarte_mapping_array_to_scalar_type ASTARTE_MAPPING_TYPE_BINARYBLOBARRAY = Inr ASTARTE_MAPPING_TYPE_BINARYBLOB"
| "astarte_mapping_array_to_scalar_type ASTARTE_MAPPING_TYPE_BOOLEANARRAY = Inr ASTARTE_MAPPING_TYPE_BOOLEAN"
| "astarte_mapping_array_to_scalar_type ASTARTE_MAPPING_TYPE_DATETIMEARRAY = Inr ASTARTE_MAPPING_TYPE_DATETIME"
| "astarte_mapping_array_to_scalar_type ASTARTE_MAPPING_TYPE_DOUBLEARRAY = Inr ASTARTE_MAPPING_TYPE_DOUBLE"
| "astarte_mapping_array_to_scalar_type ASTARTE_MAPPING_TYPE_INTEGERARRAY = Inr ASTARTE_MAPPING_TYPE_INTEGER"
| "astarte_mapping_array_to_scalar_type ASTARTE_MAPPING_TYPE_LONGINTEGERARRAY = Inr ASTARTE_MAPPING_TYPE_LONGINTEGER"
| "astarte_mapping_array_to_scalar_type ASTARTE_MAPPING_TYPE_STRINGARRAY = Inr ASTARTE_MAPPING_TYPE_STRING"
| "astarte_mapping_array_to_scalar_type ASTARTE_MAPPING_TYPE_BINARYBLOB = Inl ASTARTE_RESULT_INTERNAL_ERROR"
| "astarte_mapping_array_to_scalar_type ASTARTE_MAPPING_TYPE_BOOLEAN = Inl ASTARTE_RESULT_INTERNAL_ERROR"
| "astarte_mapping_array_to_scalar_type ASTARTE_MAPPING_TYPE_DATETIME = Inl ASTARTE_RESULT_INTERNAL_ERROR"
| "astarte_mapping_array_to_scalar_type ASTARTE_MAPPING_TYPE_DOUBLE = Inl ASTARTE_RESULT_INTERNAL_ERROR"
| "astarte_mapping_array_to_scalar_type ASTARTE_MAPPING_TYPE_INTEGER = Inl ASTARTE_RESULT_INTERNAL_ERROR"
| "astarte_mapping_array_to_scalar_type ASTARTE_MAPPING_TYPE_LONGINTEGER = Inl ASTARTE_RESULT_INTERNAL_ERROR"
| "astarte_mapping_array_to_scalar_type ASTARTE_MAPPING_TYPE_STRING = Inl ASTARTE_RESULT_INTERNAL_ERROR"
| "astarte_mapping_array_to_scalar_type ASTARTE_MAPPING_TYPE_INVALID = Inl ASTARTE_RESULT_INTERNAL_ERROR"

section \<open>Paths\<close>

definition slash :: byte where "slash = 0x2F"
definition open_param :: "byte list" where "open_param = [0x25, 0x7B]"
definition close_param :: byte where "close_param = 0x7D"

text \<open>The segments start at the head of the rests; their lengths are the pointer differences.\<close>

definition check_path_segment :: "byte list \<Rightarrow> nat \<Rightarrow> byte list \<Rightarrow> nat \<Rightarrow> bool" where
  "check_path_segment endpoint_start endpoint_segment_len path_start path_segment_len =
     (if take 2 endpoint_start = open_param \<and> endpoint_start ! (endpoint_segment_len - 1) = close_param then
        if path_segment_len = 0 then False
        else list_all (\<lambda>c. c \<noteq> 0x23 \<and> c \<noteq> 0x2B) (take path_segment_len path_start)
      else if endpoint_segment_len \<noteq> path_segment_len then False
      else take path_segment_len endpoint_start = take path_segment_len path_start)"

text \<open>The length up to the next slash or the end, and the rest behind that slash.\<close>

definition segment_len :: "byte list \<Rightarrow> nat" where
  "segment_len s = length (takeWhile (\<lambda>c. c \<noteq> slash) s)"

definition next_segment :: "byte list \<Rightarrow> byte list" where
  "next_segment s = (case dropWhile (\<lambda>c. c \<noteq> slash) s of [] \<Rightarrow> [] | _ # r \<Rightarrow> r)"

lemma next_segment_shorter: "s \<noteq> [] \<Longrightarrow> length (next_segment s) < length s"
  using length_dropWhile_le [of "\<lambda>c. c \<noteq> slash" s]
  by (auto simp: next_segment_def split: list.splits)

function check_path_loop :: "byte list \<Rightarrow> byte list \<Rightarrow> astarte_result_t" where
  "check_path_loop endpoint path =
     (if endpoint \<noteq> [] \<and> path \<noteq> [] then
        if \<not> check_path_segment endpoint (segment_len endpoint) path (segment_len path)
        then ASTARTE_RESULT_MAPPING_PATH_MISMATCH
        else check_path_loop (next_segment endpoint) (next_segment path)
      else if endpoint \<noteq> [] \<or> path \<noteq> [] then ASTARTE_RESULT_MAPPING_PATH_MISMATCH
      else ASTARTE_RESULT_OK)"
  by pat_completeness auto
termination
  by (relation "measure (\<lambda>(e, p). length e)") (auto simp: next_segment_shorter)

declare check_path_loop.simps [simp del]

text \<open>\<open>*endpoint\<close> of an empty endpoint is its terminating zero byte.\<close>

definition astarte_mapping_check_path :: "astarte_mapping_t \<Rightarrow> byte list \<Rightarrow> astarte_result_t" where
  "astarte_mapping_check_path mapping path =
     (let endpoint = c_string (mp_endpoint mapping);
          path = c_string path;
          path_len = length path in
      if path_len < 2 then ASTARTE_RESULT_MAPPING_PATH_MISMATCH
      else if path ! (path_len - 1) = slash then ASTARTE_RESULT_MAPPING_PATH_MISMATCH
      else if (case endpoint of [] \<Rightarrow> 0 | c # _ \<Rightarrow> c) \<noteq> hd path then ASTARTE_RESULT_MAPPING_PATH_MISMATCH
      else check_path_loop (tl endpoint) (tl path))"

section \<open>Data\<close>

text \<open>\<open>isfinite\<close>: the exponent of the bit pattern is not all ones.\<close>

definition isfinite :: "u64 \<Rightarrow> bool" where
  "isfinite w \<longleftrightarrow> drop_bit 52 w AND 0x7FF \<noteq> 0x7FF"

definition astarte_mapping_check_data :: "astarte_mapping_t \<Rightarrow> astarte_data_t \<Rightarrow> astarte_result_t" where
  "astarte_mapping_check_data mapping d =
     (if mp_type mapping \<noteq> tag d then ASTARTE_RESULT_MAPPING_DATA_INCOMPATIBLE
      else case data d of
        Double v \<Rightarrow> if \<not> isfinite v then ASTARTE_RESULT_MAPPING_DATA_INCOMPATIBLE else ASTARTE_RESULT_OK
      | DoubleArray buf len \<Rightarrow>
          if list_ex (\<lambda>i. \<not> isfinite (buf ! i)) [0..<len]
          then ASTARTE_RESULT_MAPPING_DATA_INCOMPATIBLE else ASTARTE_RESULT_OK
      | _ \<Rightarrow> ASTARTE_RESULT_OK)"

primrec expected_bson_type :: "astarte_mapping_type_t \<Rightarrow> u8 option" where
  "expected_bson_type ASTARTE_MAPPING_TYPE_BINARYBLOB = Some ASTARTE_BSON_TYPE_BINARY"
| "expected_bson_type ASTARTE_MAPPING_TYPE_BOOLEAN = Some ASTARTE_BSON_TYPE_BOOLEAN"
| "expected_bson_type ASTARTE_MAPPING_TYPE_DATETIME = Some ASTARTE_BSON_TYPE_DATETIME"
| "expected_bson_type ASTARTE_MAPPING_TYPE_DOUBLE = Some ASTARTE_BSON_TYPE_DOUBLE"
| "expected_bson_type ASTARTE_MAPPING_TYPE_INTEGER = Some ASTARTE_BSON_TYPE_INT32"
| "expected_bson_type ASTARTE_MAPPING_TYPE_LONGINTEGER = Some ASTARTE_BSON_TYPE_INT64"
| "expected_bson_type ASTARTE_MAPPING_TYPE_STRING = Some ASTARTE_BSON_TYPE_STRING"
| "expected_bson_type ASTARTE_MAPPING_TYPE_BINARYBLOBARRAY = Some ASTARTE_BSON_TYPE_ARRAY"
| "expected_bson_type ASTARTE_MAPPING_TYPE_BOOLEANARRAY = Some ASTARTE_BSON_TYPE_ARRAY"
| "expected_bson_type ASTARTE_MAPPING_TYPE_DATETIMEARRAY = Some ASTARTE_BSON_TYPE_ARRAY"
| "expected_bson_type ASTARTE_MAPPING_TYPE_DOUBLEARRAY = Some ASTARTE_BSON_TYPE_ARRAY"
| "expected_bson_type ASTARTE_MAPPING_TYPE_INTEGERARRAY = Some ASTARTE_BSON_TYPE_ARRAY"
| "expected_bson_type ASTARTE_MAPPING_TYPE_LONGINTEGERARRAY = Some ASTARTE_BSON_TYPE_ARRAY"
| "expected_bson_type ASTARTE_MAPPING_TYPE_STRINGARRAY = Some ASTARTE_BSON_TYPE_ARRAY"
| "expected_bson_type ASTARTE_MAPPING_TYPE_INVALID = None"

definition astarte_mapping_bson_is_compatible :: "astarte_mapping_type_t \<Rightarrow> u8 \<Rightarrow> bool" where
  "astarte_mapping_bson_is_compatible mapping_type bson_type =
     (case expected_bson_type mapping_type of
        None \<Rightarrow> False
      | Some expected \<Rightarrow>
          if expected = ASTARTE_BSON_TYPE_INT64 \<and> bson_type = ASTARTE_BSON_TYPE_INT32 then True
          else bson_type = expected)"

end
