(* ===== verification/Interface.thy ===== *)
theory Interface
  imports Astarte_Mapping Alloc
begin

text \<open>
  Interfaces (lib/astarte\_device\_sdk/interface.c) and the validation of outgoing data against them
  (validation.c).  A pointer to a mapping of an interface is the index of the mapping.
\<close>

section \<open>The interface\<close>

datatype (plugins only: code size) astarte_interface_ownership_t =
    ASTARTE_INTERFACE_OWNERSHIP_DEVICE
  | ASTARTE_INTERFACE_OWNERSHIP_SERVER

datatype (plugins only: code size) astarte_interface_type_t =
    ASTARTE_INTERFACE_TYPE_DATASTREAM
  | ASTARTE_INTERFACE_TYPE_PROPERTIES

datatype (plugins only: code size) astarte_interface_aggregation_t =
    ASTARTE_INTERFACE_AGGREGATION_INDIVIDUAL
  | ASTARTE_INTERFACE_AGGREGATION_OBJECT

definition ASTARTE_INTERFACE_NAME_MAX_SIZE :: nat where "ASTARTE_INTERFACE_NAME_MAX_SIZE = 128"

record astarte_interface_t =
  if_name :: "byte list"
  if_major :: u32
  if_minor :: u32
  if_ownership :: astarte_interface_ownership_t
  if_type :: astarte_interface_type_t
  if_aggregation :: astarte_interface_aggregation_t
  if_mappings :: "astarte_mapping_t list"

text \<open>The argument is \<open>None\<close> for \<open>NULL\<close>.\<close>

definition astarte_interface_validate :: "astarte_interface_t option \<Rightarrow> astarte_result_t" where
  "astarte_interface_validate interface =
     (case interface of
        None \<Rightarrow> ASTARTE_RESULT_INVALID_PARAM
      | Some i \<Rightarrow>
          if if_major i = 0 \<and> if_minor i = 0 then ASTARTE_RESULT_INTERFACE_INVALID_VERSION
          else ASTARTE_RESULT_OK)"

fun mapping_loop :: "astarte_mapping_t list \<Rightarrow> byte list \<Rightarrow> nat \<Rightarrow> astarte_result_t + nat" where
  "mapping_loop [] path i = Inl ASTARTE_RESULT_MAPPING_NOT_IN_INTERFACE"
| "mapping_loop (m # ms) path i =
     (let ares = astarte_mapping_check_path m path in
      if ares = ASTARTE_RESULT_OK then Inr i
      else if ares \<noteq> ASTARTE_RESULT_MAPPING_PATH_MISMATCH then Inl ASTARTE_RESULT_INTERNAL_ERROR
      else mapping_loop ms path (i + 1))"

definition astarte_interface_get_mapping_from_path ::
    "astarte_interface_t \<Rightarrow> byte list \<Rightarrow> astarte_result_t + nat" where
  "astarte_interface_get_mapping_from_path interface path = mapping_loop (if_mappings interface) path 0"

text \<open>\<open>snprintf\<close> of \<open>"%s/%s"\<close> returns the length of the whole text.\<close>

definition astarte_interface_get_mapping_from_paths ::
    "(nat \<Rightarrow> bool) \<Rightarrow> astarte_interface_t \<Rightarrow> byte list \<Rightarrow> byte list \<Rightarrow> astarte_result_t + nat" where
  "astarte_interface_get_mapping_from_paths heap interface path1 path2 =
     (let fullpath_size = strlen path1 + 1 + strlen path2 + 1 in
      if \<not> astarte_calloc heap fullpath_size 1 then Inl ASTARTE_RESULT_OUT_OF_MEMORY
      else
        let fullpath = c_string path1 @ [slash] @ c_string path2 in
        if length fullpath \<noteq> fullpath_size - 1 then Inl ASTARTE_RESULT_INTERNAL_ERROR
        else (case astarte_interface_get_mapping_from_path interface fullpath of
                Inl ares \<Rightarrow> Inl ASTARTE_RESULT_MAPPING_NOT_IN_INTERFACE
              | Inr m \<Rightarrow> Inr m))"

primrec qos_of :: "astarte_mapping_reliability_t \<Rightarrow> int" where
  "qos_of ASTARTE_MAPPING_RELIABILITY_UNRELIABLE = 0"
| "qos_of ASTARTE_MAPPING_RELIABILITY_GUARANTEED = 1"
| "qos_of ASTARTE_MAPPING_RELIABILITY_UNIQUE = 2"

text \<open>\<open>None\<close>: the first mapping of an aggregated interface without mappings is read.\<close>

definition astarte_interface_get_qos ::
    "astarte_interface_t \<Rightarrow> byte list \<Rightarrow> bool \<Rightarrow> (astarte_result_t + int) option" where
  "astarte_interface_get_qos interface path qos =
     (if \<not> qos then Some (Inl ASTARTE_RESULT_INVALID_PARAM)
      else if if_aggregation interface = ASTARTE_INTERFACE_AGGREGATION_INDIVIDUAL then
        (case astarte_interface_get_mapping_from_path interface path of
           Inl ares \<Rightarrow> Some (Inl ares)
         | Inr i \<Rightarrow> Some (Inr (qos_of (mp_reliability (if_mappings interface ! i)))))
      else (case if_mappings interface of
              [] \<Rightarrow> None
            | m # _ \<Rightarrow> Some (Inr (qos_of (mp_reliability m)))))"

section \<open>Validation\<close>

record astarte_object_entry_t =
  oe_path :: "byte list"
  oe_data :: astarte_data_t

text \<open>The checks on the mapping found for one piece of data; \<open>timestamp\<close> tells if one was given.\<close>

definition astarte_validation_individual_datastream ::
    "astarte_interface_t \<Rightarrow> byte list \<Rightarrow> astarte_data_t \<Rightarrow> u64 option \<Rightarrow> astarte_result_t" where
  "astarte_validation_individual_datastream interface path d timestamp =
     (case astarte_interface_get_mapping_from_path interface path of
        Inl ares \<Rightarrow> ares
      | Inr i \<Rightarrow>
          let mapping = if_mappings interface ! i;
              ares = astarte_mapping_check_data mapping d in
          if ares \<noteq> ASTARTE_RESULT_OK then ares
          else if mp_explicit_timestamp mapping \<and> timestamp = None
          then ASTARTE_RESULT_MAPPING_EXPLICIT_TIMESTAMP_REQUIRED
          else if \<not> mp_explicit_timestamp mapping \<and> timestamp \<noteq> None
          then ASTARTE_RESULT_MAPPING_EXPLICIT_TIMESTAMP_NOT_SUPPORTED
          else ASTARTE_RESULT_OK)"

fun entries_loop ::
    "(nat \<Rightarrow> bool) \<Rightarrow> astarte_interface_t \<Rightarrow> byte list \<Rightarrow> u64 option \<Rightarrow> astarte_object_entry_t list \<Rightarrow>
     astarte_result_t" where
  "entries_loop heap interface path timestamp [] = ASTARTE_RESULT_OK"
| "entries_loop heap interface path timestamp (entry # entries) =
     (case astarte_interface_get_mapping_from_paths heap interface path (oe_path entry) of
        Inl ares \<Rightarrow> ares
      | Inr i \<Rightarrow>
          let mapping = if_mappings interface ! i;
              ares = astarte_mapping_check_data mapping (oe_data entry) in
          if ares \<noteq> ASTARTE_RESULT_OK then ares
          else if mp_explicit_timestamp mapping \<and> timestamp = None
          then ASTARTE_RESULT_MAPPING_EXPLICIT_TIMESTAMP_REQUIRED
          else if \<not> mp_explicit_timestamp mapping \<and> timestamp \<noteq> None
          then ASTARTE_RESULT_MAPPING_EXPLICIT_TIMESTAMP_NOT_SUPPORTED
          else entries_loop heap interface path timestamp entries)"

text \<open>The inner loop of the search for a required endpoint, which leaves at the first hit.\<close>

fun endpoint_loop ::
    "(nat \<Rightarrow> bool) \<Rightarrow> astarte_interface_t \<Rightarrow> byte list \<Rightarrow> nat \<Rightarrow> astarte_object_entry_t list \<Rightarrow> bool" where
  "endpoint_loop heap interface path i [] = False"
| "endpoint_loop heap interface path i (entry # entries) =
     (if astarte_interface_get_mapping_from_paths heap interface path (oe_path entry) = Inr i then True
      else endpoint_loop heap interface path i entries)"

fun required_loop ::
    "(nat \<Rightarrow> bool) \<Rightarrow> astarte_interface_t \<Rightarrow> byte list \<Rightarrow> astarte_object_entry_t list \<Rightarrow> nat list \<Rightarrow>
     astarte_result_t" where
  "required_loop heap interface path entries [] = ASTARTE_RESULT_OK"
| "required_loop heap interface path entries (i # is) =
     (if \<not> mp_required (if_mappings interface ! i) then required_loop heap interface path entries is
      else if \<not> endpoint_loop heap interface path i entries
      then ASTARTE_RESULT_INCOMPLETE_AGGREGATION_OBJECT
      else required_loop heap interface path entries is)"

definition astarte_validation_aggregated_datastream ::
    "(nat \<Rightarrow> bool) \<Rightarrow> astarte_interface_t \<Rightarrow> byte list \<Rightarrow> astarte_object_entry_t list \<Rightarrow> u64 option \<Rightarrow>
     astarte_result_t" where
  "astarte_validation_aggregated_datastream heap interface path entries timestamp =
     (let ares = entries_loop heap interface path timestamp entries in
      if ares \<noteq> ASTARTE_RESULT_OK then ares
      else required_loop heap interface path entries [0..<length (if_mappings interface)])"

definition astarte_validation_set_property ::
    "astarte_interface_t \<Rightarrow> byte list \<Rightarrow> astarte_data_t \<Rightarrow> astarte_result_t" where
  "astarte_validation_set_property interface path d =
     astarte_validation_individual_datastream interface path d None"

definition astarte_validation_unset_property ::
    "astarte_interface_t \<Rightarrow> byte list \<Rightarrow> astarte_result_t" where
  "astarte_validation_unset_property interface path =
     (case astarte_interface_get_mapping_from_path interface path of
        Inl ares \<Rightarrow> ares
      | Inr i \<Rightarrow>
          if \<not> mp_allow_unset (if_mappings interface ! i) then ASTARTE_RESULT_MAPPING_UNSET_NOT_ALLOWED
          else ASTARTE_RESULT_OK)"

section \<open>Lookup\<close>

text \<open>A path check only ever accepts or reports a mismatch.\<close>

lemma check_path_result:
  "astarte_mapping_check_path m p = ASTARTE_RESULT_OK
   \<or> astarte_mapping_check_path m p = ASTARTE_RESULT_MAPPING_PATH_MISMATCH"
proof -
  have "check_path_loop e q = ASTARTE_RESULT_OK \<or> check_path_loop e q = ASTARTE_RESULT_MAPPING_PATH_MISMATCH" for e q
    by (induction e q rule: check_path_loop.induct) (subst (1 2) check_path_loop.simps, auto)
  then show ?thesis by (simp add: astarte_mapping_check_path_def Let_def)
qed

abbreviation path_ok :: "astarte_mapping_t \<Rightarrow> byte list \<Rightarrow> bool" where
  "path_ok m p \<equiv> astarte_mapping_check_path m p = ASTARTE_RESULT_OK"

lemma mapping_loop_Inr:
  "mapping_loop ms p k = Inr j \<longleftrightarrow>
     (\<exists>i. j = k + i \<and> i < length ms \<and> path_ok (ms ! i) p \<and> (\<forall>h < i. \<not> path_ok (ms ! h) p))"
proof (induction ms arbitrary: k)
  case (Cons m ms)
  show ?case
  proof (cases "path_ok m p")
    case True
    then show ?thesis
      by (auto intro!: exI [of _ "0::nat"]) (metis gr0I nth_Cons_0)
  next
    case False
    then have "mapping_loop (m # ms) p k = mapping_loop ms p (k + 1)"
      using check_path_result [of m p] by (simp add: Let_def)
    moreover have "(\<exists>i. j = k + i \<and> i < length (m # ms) \<and> path_ok ((m # ms) ! i) p \<and>
        (\<forall>h < i. \<not> path_ok ((m # ms) ! h) p)) \<longleftrightarrow>
      (\<exists>i. j = k + 1 + i \<and> i < length ms \<and> path_ok (ms ! i) p \<and> (\<forall>h < i. \<not> path_ok (ms ! h) p))"
      (is "?L \<longleftrightarrow> ?R")
    proof
      assume ?L
      then obtain i where i: "j = k + i" "i < length (m # ms)" "path_ok ((m # ms) ! i) p"
          "\<forall>h < i. \<not> path_ok ((m # ms) ! h) p" by blast
      with False obtain i' where "i = Suc i'" by (cases i) auto
      with i show ?R by (intro exI [of _ i']) auto
    next
      assume ?R
      then obtain i where "j = k + 1 + i" "i < length ms" "path_ok (ms ! i) p"
          "\<forall>h < i. \<not> path_ok (ms ! h) p" by blast
      with False show ?L by (intro exI [of _ "Suc i"]) (auto simp: less_Suc_eq_0_disj)
    qed
    ultimately show ?thesis using Cons.IH [of "k + 1"] by simp
  qed
qed simp

lemma mapping_loop_Inl:
  "mapping_loop ms p k = Inl r \<Longrightarrow> r = ASTARTE_RESULT_MAPPING_NOT_IN_INTERFACE"
  by (induction ms arbitrary: k)
    (use check_path_result in \<open>auto simp: Let_def split: if_splits\<close>)

lemma get_mapping_Inr:
  "astarte_interface_get_mapping_from_path i p = Inr j \<longleftrightarrow>
     j < length (if_mappings i) \<and> path_ok (if_mappings i ! j) p \<and> (\<forall>h < j. \<not> path_ok (if_mappings i ! h) p)"
  by (simp add: astarte_interface_get_mapping_from_path_def mapping_loop_Inr)

lemma get_mapping_paths:
  assumes "\<And>n. 0 < n \<Longrightarrow> heap n"
  shows "astarte_interface_get_mapping_from_paths heap i p q =
    astarte_interface_get_mapping_from_path i (c_string p @ [slash] @ c_string q)"
  using assms
  by (auto simp: astarte_interface_get_mapping_from_paths_def strlen_def
      astarte_interface_get_mapping_from_path_def split: sum.splits dest!: mapping_loop_Inl)

end
