(* ===== verification/Introspection.thy ===== *)
theory Introspection
  imports Interface
begin

text \<open>
  The introspection of a device (lib/astarte\_device\_sdk/introspection.c): the list of the
  interfaces it knows, with at most one interface of a name, the rules for replacing an interface
  by a new version, and the text sent to Astarte.  The nodes of the code's doubly linked list
  (\<open>sys_dlist\<close> of the kernel: append at the tail, unlink) are the elements of a HOL list, and a
  node pointer is an index.
\<close>

section \<open>The list\<close>

type_synonym introspection_t = "astarte_interface_t list"

definition sizeof_dlist :: nat where "sizeof_dlist = 8"
definition sizeof_node :: nat where "sizeof_node = 12"

text \<open>\<open>arg\<close> tells whether the argument is not \<open>NULL\<close>.\<close>

definition introspection_init :: "(nat \<Rightarrow> bool) \<Rightarrow> bool \<Rightarrow> astarte_result_t + introspection_t" where
  "introspection_init heap arg =
     (if \<not> arg then Inl ASTARTE_RESULT_INVALID_PARAM
      else if \<not> astarte_calloc heap 1 sizeof_dlist then Inl ASTARTE_RESULT_OUT_OF_MEMORY
      else Inr [])"

fun find_node_by_name :: "introspection_t \<Rightarrow> byte list \<Rightarrow> nat option" where
  "find_node_by_name [] interface_name = None"
| "find_node_by_name (iter_node # nodes) interface_name =
     (if strncmp_eq interface_name (if_name iter_node) ASTARTE_INTERFACE_NAME_MAX_SIZE then Some 0
      else map_option Suc (find_node_by_name nodes interface_name))"

definition append_introspection_node ::
    "(nat \<Rightarrow> bool) \<Rightarrow> introspection_t \<Rightarrow> astarte_interface_t \<Rightarrow> astarte_result_t \<times> introspection_t" where
  "append_introspection_node heap introspection interface =
     (if \<not> astarte_calloc heap 1 sizeof_node then (ASTARTE_RESULT_OUT_OF_MEMORY, introspection)
      else (ASTARTE_RESULT_OK, introspection @ [interface]))"

definition introspection_add ::
    "(nat \<Rightarrow> bool) \<Rightarrow> introspection_t \<Rightarrow> astarte_interface_t option \<Rightarrow> astarte_result_t \<times> introspection_t" where
  "introspection_add heap introspection interface =
     (let ares = astarte_interface_validate interface in
      if ares \<noteq> ASTARTE_RESULT_OK then (ares, introspection)
      else case find_node_by_name introspection (if_name (the interface)) of
        Some _ \<Rightarrow> (ASTARTE_RESULT_INTERFACE_ALREADY_PRESENT, introspection)
      | None \<Rightarrow> append_introspection_node heap introspection (the interface))"

section \<open>New versions\<close>

definition check_mapping_attributes ::
    "astarte_interface_t \<Rightarrow> astarte_mapping_t \<Rightarrow> astarte_mapping_t \<Rightarrow> astarte_result_t" where
  "check_mapping_attributes interface old_mapping new_mapping =
     (if mp_type old_mapping \<noteq> mp_type new_mapping then ASTARTE_RESULT_INTERFACE_CONFLICTING
      else if if_type interface = ASTARTE_INTERFACE_TYPE_DATASTREAM then
        if mp_reliability old_mapping \<noteq> mp_reliability new_mapping
           \<or> mp_explicit_timestamp old_mapping \<noteq> mp_explicit_timestamp new_mapping
           \<or> mp_retention old_mapping \<noteq> mp_retention new_mapping
           \<or> mp_expiry old_mapping \<noteq> mp_expiry new_mapping
        then ASTARTE_RESULT_INTERFACE_CONFLICTING else ASTARTE_RESULT_OK
      else if mp_allow_unset old_mapping \<noteq> mp_allow_unset new_mapping
        then ASTARTE_RESULT_INTERFACE_CONFLICTING else ASTARTE_RESULT_OK)"

text \<open>The inner loop: the new mapping with the endpoint of the old one, if there is one.\<close>

fun new_mapping_loop ::
    "astarte_interface_t \<Rightarrow> astarte_mapping_t \<Rightarrow> astarte_mapping_t list \<Rightarrow> astarte_result_t" where
  "new_mapping_loop interface old_mapping [] = ASTARTE_RESULT_INTERFACE_CONFLICTING"
| "new_mapping_loop interface old_mapping (new_mapping # ms) =
     (if c_string (mp_endpoint old_mapping) = c_string (mp_endpoint new_mapping)
      then check_mapping_attributes interface old_mapping new_mapping
      else new_mapping_loop interface old_mapping ms)"

fun old_mapping_loop :: "astarte_interface_t \<Rightarrow> astarte_mapping_t list \<Rightarrow> astarte_result_t" where
  "old_mapping_loop interface [] = ASTARTE_RESULT_OK"
| "old_mapping_loop interface (old_mapping # ms) =
     (let ares = new_mapping_loop interface old_mapping (if_mappings interface) in
      if ares \<noteq> ASTARTE_RESULT_OK then ares else old_mapping_loop interface ms)"

definition check_interface_mappings_update ::
    "astarte_interface_t \<Rightarrow> astarte_interface_t \<Rightarrow> astarte_result_t" where
  "check_interface_mappings_update old_interface interface =
     old_mapping_loop interface (if_mappings old_interface)"

text \<open>The result and the old node.\<close>

definition check_interface_update ::
    "introspection_t \<Rightarrow> astarte_interface_t \<Rightarrow> astarte_result_t + nat option" where
  "check_interface_update introspection interface =
     (case find_node_by_name introspection (if_name interface) of
        None \<Rightarrow> Inr None
      | Some old_node \<Rightarrow>
          let old_interface = introspection ! old_node in
          if if_ownership interface \<noteq> if_ownership old_interface \<or> if_type interface \<noteq> if_type old_interface
          then Inl ASTARTE_RESULT_INTERFACE_CONFLICTING
          else if if_aggregation interface \<noteq> if_aggregation old_interface
          then Inl ASTARTE_RESULT_INTERFACE_CONFLICTING
          else if if_major interface < if_major old_interface
          then Inl ASTARTE_RESULT_INTERFACE_CONFLICTING
          else if if_major interface = if_major old_interface \<and> if_minor interface \<le> if_minor old_interface
          then Inl ASTARTE_RESULT_INTERFACE_CONFLICTING
          else
            let ares = check_interface_mappings_update old_interface interface in
            if ares \<noteq> ASTARTE_RESULT_OK then Inl ares else Inr (Some old_node))"

definition introspection_update ::
    "(nat \<Rightarrow> bool) \<Rightarrow> introspection_t \<Rightarrow> astarte_interface_t option \<Rightarrow> astarte_result_t \<times> introspection_t" where
  "introspection_update heap introspection interface =
     (let ares = astarte_interface_validate interface in
      if ares \<noteq> ASTARTE_RESULT_OK then (ares, introspection)
      else case check_interface_update introspection (the interface) of
        Inl ares \<Rightarrow> (ares, introspection)
      | Inr (Some old_node) \<Rightarrow> (ASTARTE_RESULT_OK, introspection[old_node := the interface])
      | Inr None \<Rightarrow> append_introspection_node heap introspection (the interface))"

section \<open>Access\<close>

definition introspection_get :: "introspection_t \<Rightarrow> byte list \<Rightarrow> astarte_interface_t option" where
  "introspection_get introspection interface_name =
     (case find_node_by_name introspection interface_name of
        None \<Rightarrow> None
      | Some alloc_node \<Rightarrow> Some (introspection ! alloc_node))"

text \<open>Unlink a node and free it.\<close>

definition node_free :: "introspection_t \<Rightarrow> nat \<Rightarrow> introspection_t" where
  "node_free introspection alloc_node = take alloc_node introspection @ drop (Suc alloc_node) introspection"

definition introspection_remove :: "introspection_t \<Rightarrow> byte list \<Rightarrow> astarte_result_t \<times> introspection_t" where
  "introspection_remove introspection interface_name =
     (case find_node_by_name introspection interface_name of
        None \<Rightarrow> (ASTARTE_RESULT_INTERFACE_NOT_FOUND, introspection)
      | Some alloc_node \<Rightarrow> (ASTARTE_RESULT_OK, node_free introspection alloc_node))"

definition introspection_iter :: "introspection_t \<Rightarrow> nat option" where
  "introspection_iter introspection = (if introspection = [] then None else Some 0)"

definition introspection_iter_next :: "introspection_t \<Rightarrow> nat \<Rightarrow> nat option" where
  "introspection_iter_next introspection cur =
     (if Suc cur < length introspection then Some (Suc cur) else None)"

section \<open>The introspection text\<close>

function get_digit_count :: "nat \<Rightarrow> nat \<Rightarrow> nat" where
  "get_digit_count num count = (if num > 9 then get_digit_count (num div 10) (count + 1) else count)"
  by pat_completeness auto
termination by (relation "measure fst") auto

declare get_digit_count.simps [simp del]

fun string_size_loop :: "introspection_t \<Rightarrow> nat \<Rightarrow> nat" where
  "string_size_loop [] len = len"
| "string_size_loop (iter_node # nodes) len =
     (let name_len = min (strlen (if_name iter_node)) ASTARTE_INTERFACE_NAME_MAX_SIZE;
          major_len = get_digit_count (unat (if_major iter_node)) 1;
          minor_len = get_digit_count (unat (if_minor iter_node)) 1 in
      string_size_loop nodes (len + (name_len + major_len + minor_len + 3)))"

definition introspection_get_string_size :: "introspection_t \<Rightarrow> nat" where
  "introspection_get_string_size introspection = max 1 (string_size_loop introspection 0)"

text \<open>
  \<open>snprintf(buffer + off, avail, ...)\<close> for a call that prints \<open>txt\<close>: at most \<open>avail\<close> bytes
  with the terminating zero, nothing for \<open>avail = 0\<close>.  A write behind the end of \<open>buffer\<close>, which
  is undefined behaviour, is \<open>None\<close>.
\<close>

definition snprintf_at :: "byte list \<Rightarrow> nat \<Rightarrow> nat \<Rightarrow> byte list \<Rightarrow> byte list option" where
  "snprintf_at buffer off avail txt =
     (if avail = 0 then Some buffer
      else let w = take (avail - 1) txt @ [0] in
        if off + length w \<le> length buffer then Some (patch off w buffer) else None)"

definition entry_text :: "astarte_interface_t \<Rightarrow> byte list" where
  "entry_text i =
     c_string (if_name i) @ [0x3A] @ dec_string (unat (if_major i)) @ [0x3A] @
     dec_string (unat (if_minor i)) @ [0x3B]"

text \<open>\<open>buffer_size - result_len\<close> is a difference of \<open>size_t\<close>, which wraps.\<close>

fun fill_loop :: "introspection_t \<Rightarrow> nat \<Rightarrow> nat \<Rightarrow> byte list \<Rightarrow> byte list option" where
  "fill_loop [] buffer_size result_len buffer = Some buffer"
| "fill_loop (iter_node # nodes) buffer_size result_len buffer =
     (case snprintf_at buffer result_len (unat (of_nat buffer_size - of_nat result_len :: u32))
             (entry_text iter_node) of
        None \<Rightarrow> None
      | Some buffer \<Rightarrow> fill_loop nodes buffer_size (result_len + length (entry_text iter_node)) buffer)"

definition introspection_fill_string :: "introspection_t \<Rightarrow> byte list \<Rightarrow> nat \<Rightarrow> byte list option" where
  "introspection_fill_string introspection buffer buffer_size =
     (case fill_loop introspection buffer_size 0 buffer of
        None \<Rightarrow> None
      | Some buffer \<Rightarrow>
          if 0 < buffer_size \<and> buffer_size - 1 < length buffer then Some (buffer[buffer_size - 1 := 0]) else None)"

end
