(* ===== verification/Introspection_Text.thy ===== *)
theory Introspection_Text
  imports Introspection_Spec
begin

text \<open>
  The introspection text: the computed size is the size of the text with its last separator
  replaced by the terminating zero, and the fill writes exactly that, inside the buffer, as long as
  no name is longer than the size computation assumes.
\<close>

definition text_of :: "introspection_t \<Rightarrow> byte list" where
  "text_of l = concat (map entry_text l)"

lemma text_of_simps [simp]: "text_of [] = []" "text_of (i # l) = entry_text i @ text_of l"
  by (simp_all add: text_of_def)

lemma entry_text_neq_Nil [simp]: "entry_text i \<noteq> []"
  by (simp add: entry_text_def)

lemma digit_count: "get_digit_count n c = length (dec_string n) + c - 1"
proof (induction n c rule: get_digit_count.induct)
  case (1 n c)
  then show ?case
    by (subst get_digit_count.simps, subst dec_string.simps)
      (auto simp: Suc_le_eq)
qed

definition names_fit :: "introspection_t \<Rightarrow> bool" where
  "names_fit l \<longleftrightarrow> list_all (\<lambda>i. strlen (if_name i) \<le> ASTARTE_INTERFACE_NAME_MAX_SIZE) l"

lemma string_size_loop: "names_fit l \<Longrightarrow> string_size_loop l n = n + length (text_of l)"
  by (induction l arbitrary: n)
    (simp_all add: names_fit_def digit_count entry_text_def strlen_def Let_def)

lemma string_size: "names_fit l \<Longrightarrow> introspection_get_string_size l = max 1 (length (text_of l))"
  by (simp add: introspection_get_string_size_def string_size_loop)

lemma snprintf_inside:
  assumes "off + length t < length buf"
  shows "snprintf_at buf off (length buf - off) t = Some (take off buf @ t @ [0] @ drop (off + length t + 1) buf)"
  using assms by (simp add: snprintf_at_def patch_def)

lemma snprintf_truncated:
  assumes "off + length t = length buf" "t \<noteq> []"
  shows "snprintf_at buf off (length buf - off) t = Some (take off buf @ butlast t @ [0])"
proof -
  have "length buf - off = length t" using assms by simp
  then show ?thesis
    using assms by (simp add: snprintf_at_def patch_def butlast_conv_take)
qed

lemma avail: "n < 2 ^ 32 \<Longrightarrow> off \<le> n \<Longrightarrow> unat (of_nat n - of_nat off :: u32) = n - off"
  by (simp flip: of_nat_diff add: unat_of_nat take_bit_nat_eq_self)

lemma fill_loop_spec:
  "l \<noteq> [] \<Longrightarrow> length buf = off + length (text_of l) \<Longrightarrow> length buf < 2 ^ 32 \<Longrightarrow>
   fill_loop l (length buf) off buf = Some (take off buf @ butlast (text_of l) @ [0])"
proof (induction l arbitrary: off buf)
  case (Cons i l)
  have av: "unat (of_nat (length buf) - of_nat off :: u32) = length buf - off"
    using Cons.prems by (intro avail) simp_all
  show ?case
  proof (cases "l = []")
    case True
    with Cons.prems av snprintf_truncated [of off "entry_text i" buf] show ?thesis by simp
  next
    case False
    define b where "b = take off buf @ entry_text i @ [0] @ drop (off + length (entry_text i) + 1) buf"
    have pos: "text_of l \<noteq> []" using False by (cases l) simp_all
    then have "off + length (entry_text i) < length buf" using Cons.prems by simp
    then have "snprintf_at buf off (length buf - off) (entry_text i) = Some b"
      and len: "length b = length buf"
      by (simp_all add: snprintf_inside b_def)
    then have "fill_loop (i # l) (length buf) off buf =
        fill_loop l (length b) (off + length (entry_text i)) b"
      using av by simp
    also have "\<dots> = Some (take (off + length (entry_text i)) b @ butlast (text_of l) @ [0])"
      using Cons.prems len by (intro Cons.IH [OF False]) simp_all
    also have "take (off + length (entry_text i)) b = take off buf @ entry_text i"
      using Cons.prems by (simp add: b_def)
    finally show ?thesis using pos by (simp add: butlast_append)
  qed
qed simp

lemma fill_string_spec:
  assumes fit: "names_fit l" and n: "length buf = introspection_get_string_size l" "length buf < 2 ^ 32"
  shows "introspection_fill_string l buf (length buf) = Some (butlast (text_of l) @ [0])"
proof (cases "l = []")
  case True
  with n fit obtain x where "buf = [x]" by (auto simp: string_size length_Suc_conv)
  with True show ?thesis by (simp add: introspection_fill_string_def)
next
  case False
  then have pos: "text_of l \<noteq> []" by (cases l) simp_all
  then have len: "length buf = length (text_of l)"
    using n fit by (simp add: string_size Suc_le_eq max_def)
  with fill_loop_spec [OF False, of buf 0] n(2)
  have "fill_loop l (length buf) 0 buf = Some (butlast (text_of l) @ [0])" by simp
  then show ?thesis
    using len pos by (simp add: introspection_fill_string_def list_update_append)
qed

text \<open>A name longer than the size computation assumes, by more than the entry behind it is long.\<close>

lemma long_name_fill:
  assumes j: "strlen (if_name j) < ASTARTE_INTERFACE_NAME_MAX_SIZE"
    and i: "ASTARTE_INTERFACE_NAME_MAX_SIZE + length (entry_text j) < strlen (if_name i)"
    and small: "length (entry_text i) < 2 ^ 32"
    and n: "length buf = introspection_get_string_size [i, j]"
  shows "fill_loop [i, j] (length buf) 0 buf = None"
proof -
  define r where "r = length (dec_string (unat (if_major i))) + length (dec_string (unat (if_minor i))) + 3"
  have ti: "length (entry_text i) = strlen (if_name i) + r"
    by (simp add: entry_text_def r_def strlen_def)
  have "string_size_loop [i, j] 0 = ASTARTE_INTERFACE_NAME_MAX_SIZE + r + length (entry_text j)"
    using i j string_size_loop [of "[j]" "ASTARTE_INTERFACE_NAME_MAX_SIZE + r"]
    by (simp add: names_fit_def digit_count r_def Let_def add.assoc)
  then have len: "length buf = ASTARTE_INTERFACE_NAME_MAX_SIZE + r + length (entry_text j)"
    using n by (simp add: introspection_get_string_size_def r_def)
  then have over: "length buf < length (entry_text i)" "0 < length buf"
    using i ti by (simp_all add: r_def)
  then have "snprintf_at buf 0 (length buf) (entry_text i) = Some (take (length buf - 1) (entry_text i) @ [0])"
    by (simp add: snprintf_at_def patch_def)
  moreover have "unat (of_nat (length buf) - of_nat 0 :: u32) = length buf"
    using over(1) small by (intro trans [OF avail]) simp_all
  moreover have "unat (of_nat (length buf) - of_nat (length (entry_text i)) :: u32) \<noteq> 0"
  proof
    assume "unat (of_nat (length buf) - of_nat (length (entry_text i)) :: u32) = 0"
    then have "(of_nat (length buf) :: u32) = of_nat (length (entry_text i))" by (simp add: unat_eq_0)
    then have "unat (of_nat (length buf) :: u32) = unat (of_nat (length (entry_text i)) :: u32)" by simp
    then show False using over(1) small by (simp add: unat_of_nat take_bit_nat_eq_self)
  qed
  then have "snprintf_at b (length (entry_text i)) (unat (of_nat (length buf) - of_nat (length (entry_text i)) :: u32)) t = None"
    if "length b = length buf" for b t
    using that over(1) by (simp add: snprintf_at_def)
  ultimately show ?thesis using over by simp
qed

end
