(* ===== verification/Mapping_Path.thy ===== *)
theory Mapping_Path
  imports Astarte_Mapping
begin

text \<open>
  The meaning of a path check: an endpoint and a path are lists of segments, and the path matches
  when they have as many segments and every segment of the path equals the endpoint's segment, or
  is an admissible value for its parameter.
\<close>

definition render :: "byte list list \<Rightarrow> byte list" where
  "render segs = concat (map (\<lambda>s. slash # s) segs)"

definition is_param :: "byte list \<Rightarrow> bool" where
  "is_param e \<longleftrightarrow> (\<exists>q. e = open_param @ q) \<and> last e = close_param"

definition seg_matches :: "byte list \<Rightarrow> byte list \<Rightarrow> bool" where
  "seg_matches e p \<longleftrightarrow>
     (if is_param e then p \<noteq> [] \<and> 0x23 \<notin> set p \<and> 0x2B \<notin> set p else e = p)"

text \<open>Segments without slash and zero bytes; the last one is not empty.\<close>

definition segs_ok :: "byte list list \<Rightarrow> bool" where
  "segs_ok segs \<longleftrightarrow> list_all (\<lambda>s. slash \<notin> set s \<and> nul_free s) segs \<and> (segs \<noteq> [] \<longrightarrow> last segs \<noteq> [])"

definition joined :: "byte list list \<Rightarrow> byte list" where
  "joined segs = (case segs of [] \<Rightarrow> [] | s # ss \<Rightarrow> s @ render ss)"

lemma render_simps [simp]: "render [] = []" "render (s # ss) = slash # s @ render ss"
  by (simp_all add: render_def)

lemma joined_simps [simp]: "joined [] = []" "joined (s # ss) = s @ render ss"
  by (simp_all add: joined_def)

lemma segs_ok_tl: "segs_ok (s # ss) \<Longrightarrow> segs_ok ss"
  by (auto simp: segs_ok_def split: if_splits)

lemma joined_empty: "segs_ok segs \<Longrightarrow> joined segs = [] \<longleftrightarrow> segs = []"
  by (cases segs) (auto simp: segs_ok_def render_def)

lemma takeWhile_seg: "slash \<notin> set s \<Longrightarrow> takeWhile (\<lambda>c. c \<noteq> slash) (s @ render ss) = s"
  by (cases ss) (auto simp: takeWhile_append2 takeWhile_tail)

lemma dropWhile_seg: "slash \<notin> set s \<Longrightarrow> dropWhile (\<lambda>c. c \<noteq> slash) (s @ render ss) = render ss"
  by (cases ss) (auto simp: dropWhile_append)

lemma segment_len_joined: "segs_ok (s # ss) \<Longrightarrow> segment_len (joined (s # ss)) = length s"
  by (simp add: segment_len_def takeWhile_seg segs_ok_def)

lemma dropWhile_no_slash: "slash \<notin> set s \<Longrightarrow> dropWhile (\<lambda>c. c \<noteq> slash) s = []"
  by (auto simp: dropWhile_eq_Nil_conv)

lemma next_segment_joined: "segs_ok (s # ss) \<Longrightarrow> next_segment (joined (s # ss)) = joined ss"
  by (cases ss) (simp_all add: next_segment_def segs_ok_def dropWhile_append dropWhile_no_slash)

text \<open>The first two bytes of the rest are those of the segment, or the segment is shorter.\<close>

lemma param_prefix:
  assumes "slash \<notin> set e" "take 2 (e @ render es) = open_param"
  obtains q where "e = open_param @ q"
proof -
  have "slash \<notin> set open_param" by (simp add: open_param_def slash_def)
  have "2 \<le> length e"
  proof (rule ccontr)
    assume "\<not> 2 \<le> length e"
    then have "slash \<in> set (take 2 (e @ render es)) \<or> length (take 2 (e @ render es)) < 2"
      by (cases es) (auto simp: take_Cons')
    then have "slash \<in> set open_param \<or> length open_param < 2"
      unfolding assms(2) .
    then show False using \<open>slash \<notin> set open_param\<close> by (simp add: open_param_def)
  qed
  then have "take 2 e = open_param" using assms(2) by simp
  then have "e = open_param @ drop 2 e" by (metis append_take_drop_id)
  then show thesis by (rule that)
qed

lemma check_path_segment_joined:
  assumes e: "segs_ok (e # es)" and p: "segs_ok (p # ps)"
  shows "check_path_segment (joined (e # es)) (length e) (joined (p # ps)) (length p) \<longleftrightarrow> seg_matches e p"
proof -
  have s: "slash \<notin> set e" using e by (simp add: segs_ok_def)
  have eq: "take 2 (e @ render es) = open_param \<and> (e @ render es) ! (length e - 1) = close_param \<longleftrightarrow> is_param e"
  proof
    assume a: "take 2 (e @ render es) = open_param \<and> (e @ render es) ! (length e - 1) = close_param"
    with s obtain q where q: "e = open_param @ q" by (blast elim: param_prefix)
    then have "e \<noteq> []" by (simp add: open_param_def)
    then have "(e @ render es) ! (length e - 1) = last e"
      by (simp add: last_conv_nth nth_append)
    with a q show "is_param e" by (auto simp: is_param_def)
  next
    assume a: "is_param e"
    then obtain q where q: "e = open_param @ q" "last e = close_param" by (auto simp: is_param_def)
    then have "e \<noteq> []" by (simp add: open_param_def)
    then have "(e @ render es) ! (length e - 1) = last e"
      by (simp add: last_conv_nth nth_append)
    with q show "take 2 (e @ render es) = open_param \<and> (e @ render es) ! (length e - 1) = close_param"
      by (simp add: open_param_def)
  qed
  show ?thesis
    using eq by (auto simp: check_path_segment_def seg_matches_def list_all_iff)
qed

lemma check_path_loop_joined:
  "segs_ok es \<Longrightarrow> segs_ok ps \<Longrightarrow>
   check_path_loop (joined es) (joined ps) =
     (if list_all2 seg_matches es ps then ASTARTE_RESULT_OK else ASTARTE_RESULT_MAPPING_PATH_MISMATCH)"
proof (induction es arbitrary: ps)
  case Nil
  then show ?case
    by (cases ps) (subst check_path_loop.simps, simp add: joined_empty del: joined_simps(2))+
next
  case (Cons e es)
  show ?case
  proof (cases ps)
    case Nil
    then show ?thesis using Cons.prems
      by (subst check_path_loop.simps) (simp add: joined_empty del: joined_simps(2))
  next
    case p: (Cons p qs)
    have "check_path_loop (joined (e # es)) (joined (p # qs)) =
        (if \<not> seg_matches e p then ASTARTE_RESULT_MAPPING_PATH_MISMATCH
         else check_path_loop (joined es) (joined qs))"
      using Cons.prems p
      by (subst check_path_loop.simps)
        (simp add: joined_empty segment_len_joined next_segment_joined check_path_segment_joined
          del: joined_simps(2))
    then show ?thesis
      using p Cons.IH [of qs] Cons.prems segs_ok_tl by auto
  qed
qed

lemma last_render: "segs \<noteq> [] \<Longrightarrow> last segs \<noteq> [] \<Longrightarrow> last (render segs) = last (last segs)"
  by (induction segs) (auto simp: render_def)

lemma nul_free_render: "segs_ok segs \<Longrightarrow> nul_free (render segs)"
  by (auto simp: segs_ok_def render_def nul_free_def list_all_iff slash_def)

lemma check_path_segments:
  assumes e: "segs_ok es" "es \<noteq> []" and p: "segs_ok ps" "ps \<noteq> []" and m: "mp_endpoint m = render es"
  shows "astarte_mapping_check_path m (render ps) =
     (if list_all2 seg_matches es ps then ASTARTE_RESULT_OK else ASTARTE_RESULT_MAPPING_PATH_MISMATCH)"
proof -
  obtain e es' where es: "es = e # es'" using e by (cases es) auto
  obtain p' ps' where ps: "ps = p' # ps'" using p by (cases ps) auto
  have lastseg: "last ps \<noteq> []" "slash \<notin> set (last ps)"
    using p by (auto simp: segs_ok_def list_all_iff)
  then have "last (last ps) \<noteq> slash" by (metis last_in_set)
  then have no_slash: "render ps ! (length (render ps) - 1) \<noteq> slash"
    using last_render [OF p(2) lastseg(1)] last_conv_nth [of "render ps"] ps by simp
  have "2 \<le> length (render ps)"
    using p(1) ps by (cases ps') (auto simp: segs_ok_def Suc_le_eq)
  moreover have "c_string (render es) = render es" "c_string (render ps) = render ps"
    using e p by (simp_all add: nul_free_render)
  ultimately have "astarte_mapping_check_path m (render ps) = check_path_loop (joined es) (joined ps)"
    using no_slash m es ps by (auto simp add: astarte_mapping_check_path_def Let_def)
  with check_path_loop_joined [OF e(1) p(1)] show ?thesis by simp
qed

end
