(* ===== verification/Bson_Serializer.thy ===== *)
theory Bson_Serializer
  imports Bson_Types Alloc
begin

text \<open>
  The BSON serializer (lib/astarte\_device\_sdk/bson/serializer.c): a growing byte array, the
  operations that append one element to it, and the one that closes the document.  The byte array
  is the list of the bytes written so far; \<open>heap n\<close> is the answer of the kernel heap to a
  request of \<open>n\<close> bytes.  Sizes are natural numbers: the array and the appended object are both
  in memory, so their lengths add up without wrap-around.
\<close>

section \<open>The byte array\<close>

record astarte_bson_serializer_t =
  bs_capacity :: nat
  bs_size :: nat
  bs_buf :: "byte list option"
  bs_terminated :: bool

definition zero_serializer :: astarte_bson_serializer_t where
  "zero_serializer = \<lparr>bs_capacity = 0, bs_size = 0, bs_buf = None, bs_terminated = False\<rparr>"

definition uint32_to_bytes :: "u32 \<Rightarrow> byte list" where "uint32_to_bytes input = le32 input"
definition int32_to_bytes :: "u32 \<Rightarrow> byte list" where "int32_to_bytes input = le32 input"
definition int64_to_bytes :: "u64 \<Rightarrow> byte list" where "int64_to_bytes input = le64 input"
definition double_to_bytes :: "u64 \<Rightarrow> byte list" where "double_to_bytes input = le64 input"

definition byte_array_init ::
    "(nat \<Rightarrow> bool) \<Rightarrow> astarte_bson_serializer_t \<Rightarrow> byte list \<Rightarrow> nat \<Rightarrow>
     astarte_result_t \<times> astarte_bson_serializer_t" where
  "byte_array_init heap bson bytes n =
     (let bson = bson\<lparr>bs_capacity := n, bs_size := n\<rparr> in
      if \<not> astarte_malloc heap n then (ASTARTE_RESULT_OUT_OF_MEMORY, bson\<lparr>bs_buf := None\<rparr>)
      else (ASTARTE_RESULT_OK, bson\<lparr>bs_buf := Some (take n bytes)\<rparr>))"

definition byte_array_destroy :: "astarte_bson_serializer_t \<Rightarrow> astarte_bson_serializer_t" where
  "byte_array_destroy bson = bson\<lparr>bs_capacity := 0, bs_size := 0, bs_buf := None\<rparr>"

text \<open>
  The bytes of a buffer that \<open>realloc\<close> makes from \<open>NULL\<close> are indeterminate; zeros stand for
  them.  No caller appends to a serializer whose initialisation failed.
\<close>

definition byte_array_grow ::
    "(nat \<Rightarrow> bool) \<Rightarrow> astarte_bson_serializer_t \<Rightarrow> nat \<Rightarrow>
     astarte_result_t \<times> astarte_bson_serializer_t" where
  "byte_array_grow heap bson needed_size =
     (if bs_size bson + needed_size > bs_capacity bson then
        let new_capacity = max (bs_capacity bson * 2) 64;
            new_capacity = (if new_capacity < bs_capacity bson + needed_size
                            then bs_capacity bson + needed_size else new_capacity) in
        if \<not> astarte_realloc heap (bs_buf bson \<noteq> None) new_capacity
        then (ASTARTE_RESULT_OUT_OF_MEMORY, bson)
        else (ASTARTE_RESULT_OK, bson\<lparr>bs_capacity := new_capacity,
                bs_buf := Some (case bs_buf bson of None \<Rightarrow> replicate (bs_size bson) 0 | Some b \<Rightarrow> b)\<rparr>)
      else (ASTARTE_RESULT_OK, bson))"

text \<open>\<open>memcpy(bson->buf + bson->size, bytes, count)\<close>.\<close>

definition copy_to_end :: "astarte_bson_serializer_t \<Rightarrow> byte list \<Rightarrow> astarte_bson_serializer_t" where
  "copy_to_end bson bytes =
     bson\<lparr>bs_buf := map_option (\<lambda>b. take (bs_size bson) b @ bytes) (bs_buf bson),
          bs_size := bs_size bson + length bytes\<rparr>"

definition byte_array_append_byte ::
    "(nat \<Rightarrow> bool) \<Rightarrow> astarte_bson_serializer_t \<Rightarrow> byte \<Rightarrow>
     astarte_result_t \<times> astarte_bson_serializer_t" where
  "byte_array_append_byte heap bson b =
     and_then (byte_array_grow heap bson 1) (\<lambda>bson. (ASTARTE_RESULT_OK, copy_to_end bson [b]))"

text \<open>\<open>bytes\<close> is \<open>None\<close> for a \<open>NULL\<close> source.\<close>

definition byte_array_append ::
    "(nat \<Rightarrow> bool) \<Rightarrow> astarte_bson_serializer_t \<Rightarrow> byte list option \<Rightarrow> nat \<Rightarrow>
     astarte_result_t \<times> astarte_bson_serializer_t" where
  "byte_array_append heap bson bytes count =
     and_then (byte_array_grow heap bson count)
       (\<lambda>bson. (ASTARTE_RESULT_OK,
          case bytes of
            None \<Rightarrow> bson
          | Some bs \<Rightarrow> if count > 0 then copy_to_end bson (take count bs) else bson))"

definition byte_array_replace ::
    "astarte_bson_serializer_t \<Rightarrow> nat \<Rightarrow> byte list \<Rightarrow> nat \<Rightarrow> astarte_bson_serializer_t" where
  "byte_array_replace bson pos bytes count =
     bson\<lparr>bs_buf := map_option (patch pos (take count bytes)) (bs_buf bson)\<rparr>"

section \<open>The document\<close>

definition astarte_bson_serializer_init ::
    "(nat \<Rightarrow> bool) \<Rightarrow> astarte_bson_serializer_t \<Rightarrow> astarte_result_t \<times> astarte_bson_serializer_t" where
  "astarte_bson_serializer_init heap bson =
     and_then (byte_array_init heap bson [0, 0, 0, 0] 4)
       (\<lambda>bson. (ASTARTE_RESULT_OK, bson\<lparr>bs_terminated := False\<rparr>))"

definition astarte_bson_serializer_destroy ::
    "astarte_bson_serializer_t \<Rightarrow> astarte_bson_serializer_t" where
  "astarte_bson_serializer_destroy bson = (byte_array_destroy bson)\<lparr>bs_terminated := False\<rparr>"

text \<open>The buffer and its size, or \<open>NULL\<close>.\<close>

definition astarte_bson_serializer_get_serialized ::
    "astarte_bson_serializer_t \<Rightarrow> (byte list \<times> nat) option" where
  "astarte_bson_serializer_get_serialized bson =
     (if \<not> bs_terminated bson then None
      else map_option (\<lambda>b. (b, bs_size bson)) (bs_buf bson))"

definition astarte_bson_serializer_append_end_of_document ::
    "(nat \<Rightarrow> bool) \<Rightarrow> astarte_bson_serializer_t \<Rightarrow> astarte_result_t \<times> astarte_bson_serializer_t" where
  "astarte_bson_serializer_append_end_of_document heap bson =
     (if bs_terminated bson then (ASTARTE_RESULT_BSON_SERIALIZER_ERROR, bson)
      else and_then (byte_array_append_byte heap bson 0)
        (\<lambda>bson. let size_buf = uint32_to_bytes (of_nat (bs_size bson));
                    bson = byte_array_replace bson 0 size_buf 4 in
          (ASTARTE_RESULT_OK, bson\<lparr>bs_terminated := True\<rparr>)))"

text \<open>\<open>byte_array_append(bson, name, strlen(name) + 1)\<close>.\<close>

definition append_c_string ::
    "(nat \<Rightarrow> bool) \<Rightarrow> astarte_bson_serializer_t \<Rightarrow> byte list \<Rightarrow>
     astarte_result_t \<times> astarte_bson_serializer_t" where
  "append_c_string heap bson name =
     byte_array_append heap bson (Some (c_string name @ [0])) (strlen name + 1)"

section \<open>Elements of a fixed size\<close>

definition astarte_bson_serializer_append_double where
  "astarte_bson_serializer_append_double heap bson name (v :: u64) =
     (if bs_terminated bson then (ASTARTE_RESULT_BSON_SERIALIZER_ERROR, bson)
      else and_then (byte_array_append_byte heap bson ASTARTE_BSON_TYPE_DOUBLE)
        (\<lambda>bson. and_then (append_c_string heap bson name)
        (\<lambda>bson. byte_array_append heap bson (Some (double_to_bytes v)) 8)))"

definition astarte_bson_serializer_append_int32 where
  "astarte_bson_serializer_append_int32 heap bson name (v :: u32) =
     (if bs_terminated bson then (ASTARTE_RESULT_BSON_SERIALIZER_ERROR, bson)
      else and_then (byte_array_append_byte heap bson ASTARTE_BSON_TYPE_INT32)
        (\<lambda>bson. and_then (append_c_string heap bson name)
        (\<lambda>bson. byte_array_append heap bson (Some (int32_to_bytes v)) 4)))"

definition astarte_bson_serializer_append_int64 where
  "astarte_bson_serializer_append_int64 heap bson name (v :: u64) =
     (if bs_terminated bson then (ASTARTE_RESULT_BSON_SERIALIZER_ERROR, bson)
      else and_then (byte_array_append_byte heap bson ASTARTE_BSON_TYPE_INT64)
        (\<lambda>bson. and_then (append_c_string heap bson name)
        (\<lambda>bson. byte_array_append heap bson (Some (int64_to_bytes v)) 8)))"

definition astarte_bson_serializer_append_datetime where
  "astarte_bson_serializer_append_datetime heap bson name (epoch_millis :: u64) =
     (if bs_terminated bson then (ASTARTE_RESULT_BSON_SERIALIZER_ERROR, bson)
      else and_then (byte_array_append_byte heap bson ASTARTE_BSON_TYPE_DATETIME)
        (\<lambda>bson. and_then (append_c_string heap bson name)
        (\<lambda>bson. byte_array_append heap bson (Some (int64_to_bytes epoch_millis)) 8)))"

definition astarte_bson_serializer_append_boolean where
  "astarte_bson_serializer_append_boolean heap bson name v =
     (if bs_terminated bson then (ASTARTE_RESULT_BSON_SERIALIZER_ERROR, bson)
      else and_then (byte_array_append_byte heap bson ASTARTE_BSON_TYPE_BOOLEAN)
        (\<lambda>bson. and_then (append_c_string heap bson name)
        (\<lambda>bson. byte_array_append_byte heap bson (if v then 1 else 0))))"

section \<open>Elements of a variable size\<close>

definition astarte_bson_serializer_append_binary where
  "astarte_bson_serializer_append_binary heap bson name (v :: byte list option) n =
     (if bs_terminated bson then (ASTARTE_RESULT_BSON_SERIALIZER_ERROR, bson)
      else if n > 2 ^ 31 - 1 then (ASTARTE_RESULT_INVALID_PARAM, bson)
      else and_then (byte_array_append_byte heap bson ASTARTE_BSON_TYPE_BINARY)
        (\<lambda>bson. and_then (append_c_string heap bson name)
        (\<lambda>bson. and_then (byte_array_append heap bson (Some (uint32_to_bytes (of_nat n))) 4)
        (\<lambda>bson. and_then (byte_array_append_byte heap bson ASTARTE_BSON_SUBTYPE_DEFAULT_BINARY)
        (\<lambda>bson. byte_array_append heap bson v n)))))"

definition astarte_bson_serializer_append_string where
  "astarte_bson_serializer_append_string heap bson name str =
     (if bs_terminated bson then (ASTARTE_RESULT_BSON_SERIALIZER_ERROR, bson)
      else let string_len = strlen str in
        if string_len > 2 ^ 31 - 1 then (ASTARTE_RESULT_INVALID_PARAM, bson)
        else and_then (byte_array_append_byte heap bson ASTARTE_BSON_TYPE_STRING)
          (\<lambda>bson. and_then (append_c_string heap bson name)
          (\<lambda>bson. and_then (byte_array_append heap bson (Some (uint32_to_bytes (of_nat (string_len + 1)))) 4)
          (\<lambda>bson. byte_array_append heap bson (Some (c_string str @ [0])) (string_len + 1)))))"

definition astarte_bson_serializer_append_document where
  "astarte_bson_serializer_append_document heap bson name document =
     (if bs_terminated bson then (ASTARTE_RESULT_BSON_SERIALIZER_ERROR, bson)
      else let n = unat (get_le32 document) in
        and_then (byte_array_append_byte heap bson ASTARTE_BSON_TYPE_DOCUMENT)
          (\<lambda>bson. and_then (append_c_string heap bson name)
          (\<lambda>bson. byte_array_append heap bson (Some document) n)))"

section \<open>Arrays\<close>

definition BSON_ARRAY_SIZE_STR_LEN :: nat where "BSON_ARRAY_SIZE_STR_LEN = 12"

text \<open>
  The loop over the elements: \<open>app ser key i\<close> is the call that appends \<open>arr[i]\<close> under the
  decimal index.
\<close>

function append_array_loop ::
    "(astarte_bson_serializer_t \<Rightarrow> byte list \<Rightarrow> nat \<Rightarrow> astarte_result_t \<times> astarte_bson_serializer_t) \<Rightarrow>
     nat \<Rightarrow> nat \<Rightarrow> astarte_bson_serializer_t \<Rightarrow> astarte_result_t \<times> astarte_bson_serializer_t" where
  "append_array_loop app count i array_ser =
     (if i < count then
        let key = dec_string i in
        if length key \<ge> BSON_ARRAY_SIZE_STR_LEN then (ASTARTE_RESULT_INTERNAL_ERROR, array_ser)
        else and_then (app array_ser key i) (append_array_loop app count (i + 1))
      else (ASTARTE_RESULT_OK, array_ser))"
  by pat_completeness auto
termination by (relation "measure (\<lambda>(app, count, i, s). count - i)") auto

declare append_array_loop.simps [simp del]

text \<open>The body that \<open>IMPLEMENT_ASTARTE_BSON_SERIALIZER_APPEND_TYPE_ARRAY\<close> gives every array.\<close>

definition append_array ::
    "(nat \<Rightarrow> bool) \<Rightarrow>
     (astarte_bson_serializer_t \<Rightarrow> byte list \<Rightarrow> nat \<Rightarrow> astarte_result_t \<times> astarte_bson_serializer_t) \<Rightarrow>
     astarte_bson_serializer_t \<Rightarrow> byte list \<Rightarrow> int \<Rightarrow> astarte_result_t \<times> astarte_bson_serializer_t" where
  "append_array heap app bson name count =
     (if bs_terminated bson then (ASTARTE_RESULT_BSON_SERIALIZER_ERROR, bson)
      else
        (case and_then (astarte_bson_serializer_init heap zero_serializer)
                (\<lambda>ser. and_then (append_array_loop app (nat count) 0 ser)
                  (astarte_bson_serializer_append_end_of_document heap)) of
           (ares, array_ser) \<Rightarrow>
             if ares \<noteq> ASTARTE_RESULT_OK then (ares, bson)
             else
               (case astarte_bson_serializer_get_serialized array_ser of
                  None \<Rightarrow> (ASTARTE_RESULT_INTERNAL_ERROR, bson)
                | Some (document, n) \<Rightarrow>
                    and_then (byte_array_append_byte heap bson ASTARTE_BSON_TYPE_ARRAY)
                      (\<lambda>bson. and_then (append_c_string heap bson name)
                      (\<lambda>bson. byte_array_append heap bson (Some document) n)))))"

definition astarte_bson_serializer_append_double_array where
  "astarte_bson_serializer_append_double_array heap bson name arr count =
     append_array heap
       (\<lambda>ser key i. astarte_bson_serializer_append_double heap ser key (arr ! i)) bson name count"

definition astarte_bson_serializer_append_int32_array where
  "astarte_bson_serializer_append_int32_array heap bson name arr count =
     append_array heap
       (\<lambda>ser key i. astarte_bson_serializer_append_int32 heap ser key (arr ! i)) bson name count"

definition astarte_bson_serializer_append_int64_array where
  "astarte_bson_serializer_append_int64_array heap bson name arr count =
     append_array heap
       (\<lambda>ser key i. astarte_bson_serializer_append_int64 heap ser key (arr ! i)) bson name count"

definition astarte_bson_serializer_append_string_array where
  "astarte_bson_serializer_append_string_array heap bson name arr count =
     append_array heap
       (\<lambda>ser key i. astarte_bson_serializer_append_string heap ser key (arr ! i)) bson name count"

definition astarte_bson_serializer_append_datetime_array where
  "astarte_bson_serializer_append_datetime_array heap bson name arr count =
     append_array heap
       (\<lambda>ser key i. astarte_bson_serializer_append_datetime heap ser key (arr ! i)) bson name count"

definition astarte_bson_serializer_append_boolean_array where
  "astarte_bson_serializer_append_boolean_array heap bson name arr count =
     append_array heap
       (\<lambda>ser key i. astarte_bson_serializer_append_boolean heap ser key (arr ! i)) bson name count"

definition astarte_bson_serializer_append_binary_array where
  "astarte_bson_serializer_append_binary_array heap bson name arr sizes count =
     append_array heap
       (\<lambda>ser key i. astarte_bson_serializer_append_binary heap ser key (arr ! i) (sizes ! i))
       bson name count"

end
