(* ===== verification/Bson_Deserializer.thy ===== *)
theory Bson_Deserializer
  imports Bson_Types "HOL-Library.Monad_Syntax"
begin

text \<open>
  The BSON deserializer (lib/astarte\_device\_sdk/bson/deserializer.c), which works on a received
  buffer in place.  The memory is the byte list \<open>mem\<close> and a pointer into it an offset; a pointer
  that may be \<open>NULL\<close> is an option.  A read outside \<open>mem\<close>, which is undefined behaviour in C, is
  the outcome \<open>None\<close>; so the claim that a result is \<open>Some\<close> says that all reads are in bounds.
\<close>

section \<open>Memory\<close>

definition rd8 :: "byte list \<Rightarrow> nat \<Rightarrow> byte option" where
  "rd8 mem p = (if p < length mem then Some (mem ! p) else None)"

definition rd_le32 :: "byte list \<Rightarrow> nat \<Rightarrow> u32 option" where
  "rd_le32 mem p = (if p + 4 \<le> length mem then Some (get_le32 (drop p mem)) else None)"

definition rd_le64 :: "byte list \<Rightarrow> nat \<Rightarrow> u64 option" where
  "rd_le64 mem p = (if p + 8 \<le> length mem then Some (get_le64 (drop p mem)) else None)"

primrec strnlen :: "byte list \<Rightarrow> nat \<Rightarrow> nat \<Rightarrow> nat option" where
  "strnlen mem p 0 = Some 0"
| "strnlen mem p (Suc n) =
     do { b \<leftarrow> rd8 mem p; if b = 0 then Some 0 else map_option Suc (strnlen mem (p + 1) n) }"

text \<open>\<open>strncmp(key, mem + p, n) == 0\<close>.\<close>

primrec strncmp_mem :: "byte list \<Rightarrow> byte list \<Rightarrow> nat \<Rightarrow> nat \<Rightarrow> bool option" where
  "strncmp_mem mem key p 0 = Some True"
| "strncmp_mem mem key p (Suc n) =
     do { b \<leftarrow> rd8 mem p;
          let a = (case key of [] \<Rightarrow> 0 | k # _ \<Rightarrow> k) in
          if a \<noteq> b then Some False
          else if a = 0 then Some True
          else strncmp_mem mem (tl key) (p + 1) n }"

text \<open>An operation that may read out of bounds, fail with a result code, or give a value.\<close>

type_synonym 'a outcome = "(astarte_result_t + 'a) option"

definition or_internal :: "'a outcome \<Rightarrow> ('a \<Rightarrow> 'b outcome) \<Rightarrow> 'b outcome" where
  "or_internal q f = (case q of None \<Rightarrow> None
     | Some (Inl ares) \<Rightarrow> Some (Inl ASTARTE_RESULT_INTERNAL_ERROR)
     | Some (Inr x) \<Rightarrow> f x)"

definition out_bind :: "'a outcome \<Rightarrow> ('a \<Rightarrow> 'b outcome) \<Rightarrow> 'b outcome" where
  "out_bind q f = (case q of None \<Rightarrow> None | Some (Inl ares) \<Rightarrow> Some (Inl ares) | Some (Inr x) \<Rightarrow> f x)"

section \<open>Documents\<close>

record astarte_bson_document_t =
  doc_size :: u32
  doc_list :: "nat option"
  doc_list_size :: u32

record astarte_bson_element_t =
  el_type :: u8
  el_name :: nat
  el_name_len :: nat
  el_value :: nat

definition astarte_bson_deserializer_init_doc ::
    "byte list \<Rightarrow> nat option \<Rightarrow> astarte_bson_document_t option" where
  "astarte_bson_deserializer_init_doc mem buffer =
     (case buffer of
        None \<Rightarrow> Some \<lparr>doc_size = 0, doc_list = None, doc_list_size = 0\<rparr>
      | Some p \<Rightarrow>
          do { n \<leftarrow> rd_le32 mem p;
               Some (if n \<ge> 4 + 1
                     then \<lparr>doc_size = n, doc_list = Some (p + 4), doc_list_size = n - 4 - 1\<rparr>
                     else \<lparr>doc_size = n, doc_list = None, doc_list_size = 0\<rparr>) })"

definition supported_type :: "u8 \<Rightarrow> bool" where
  "supported_type t \<longleftrightarrow>
     t = ASTARTE_BSON_TYPE_DOUBLE \<or> t = ASTARTE_BSON_TYPE_STRING \<or> t = ASTARTE_BSON_TYPE_DOCUMENT \<or>
     t = ASTARTE_BSON_TYPE_ARRAY \<or> t = ASTARTE_BSON_TYPE_BINARY \<or> t = ASTARTE_BSON_TYPE_BOOLEAN \<or>
     t = ASTARTE_BSON_TYPE_DATETIME \<or> t = ASTARTE_BSON_TYPE_INT32 \<or> t = ASTARTE_BSON_TYPE_INT64"

definition astarte_bson_deserializer_check_validity ::
    "byte list \<Rightarrow> nat option \<Rightarrow> nat \<Rightarrow> bool option" where
  "astarte_bson_deserializer_check_validity mem buffer buffer_size =
     (if buffer = None then Some False
      else if buffer_size < 4 + 1 then Some False
      else do {
        document \<leftarrow> astarte_bson_deserializer_init_doc mem buffer;
        if buffer_size < unat (doc_size document) then Some False
        else (case doc_list document of
           None \<Rightarrow> Some False
         | Some l \<Rightarrow> do {
             last \<leftarrow> rd8 mem (l + (unat (doc_size document) - 4) - 1);
             if last \<noteq> 0 then Some False
             else if doc_size document = 4 + 1 then Some True
             else if doc_size document < 4 + 3 + 1 then Some False
             else do { t \<leftarrow> rd8 mem l; Some (supported_type t) } }) })"

section \<open>Elements\<close>

definition is_within_bounds :: "astarte_bson_document_t \<Rightarrow> nat \<Rightarrow> nat \<Rightarrow> bool" where
  "is_within_bounds document p n =
     (case doc_list document of None \<Rightarrow> False
      | Some l \<Rightarrow> let e = l + unat (doc_list_size document) in
          if p < l \<or> p > e then False else n \<le> e - p)"

definition get_element_value_size ::
    "byte list \<Rightarrow> astarte_bson_document_t \<Rightarrow> u8 \<Rightarrow> nat \<Rightarrow> nat outcome" where
  "get_element_value_size mem document t p =
     (if t = ASTARTE_BSON_TYPE_DOUBLE \<or> t = ASTARTE_BSON_TYPE_DATETIME \<or> t = ASTARTE_BSON_TYPE_INT64
      then Some (Inr 8)
      else if t = ASTARTE_BSON_TYPE_INT32 then Some (Inr 4)
      else if t = ASTARTE_BSON_TYPE_BOOLEAN then Some (Inr 1)
      else if t = ASTARTE_BSON_TYPE_STRING then
        (if \<not> is_within_bounds document p 4 then Some (Inl ASTARTE_RESULT_INTERNAL_ERROR)
         else do {
           parsed_len \<leftarrow> rd_le32 mem p;
           if unat parsed_len > 2 ^ 32 - 1 - 4 then Some (Inl ASTARTE_RESULT_INTERNAL_ERROR)
           else Some (Inr (4 + unat parsed_len)) })
      else if t = ASTARTE_BSON_TYPE_ARRAY \<or> t = ASTARTE_BSON_TYPE_DOCUMENT then
        (if \<not> is_within_bounds document p 4 then Some (Inl ASTARTE_RESULT_INTERNAL_ERROR)
         else do {
           parsed_len \<leftarrow> rd_le32 mem p;
           Some (Inr (unat parsed_len)) })
      else if t = ASTARTE_BSON_TYPE_BINARY then
        (if \<not> is_within_bounds document p 4 then Some (Inl ASTARTE_RESULT_INTERNAL_ERROR)
         else do {
           parsed_len \<leftarrow> rd_le32 mem p;
           if unat parsed_len > 2 ^ 32 - 1 - (4 + 1) then Some (Inl ASTARTE_RESULT_INTERNAL_ERROR)
           else Some (Inr (4 + 1 + unat parsed_len)) })
      else Some (Inl ASTARTE_RESULT_INTERNAL_ERROR))"

text \<open>
  The part \<open>first_element\<close> and \<open>next_element\<close> share: read the element whose type byte \<open>t\<close> is at
  \<open>start\<close> and whose name has at most \<open>max_name_str_len\<close> bytes, and check that its value fits.
\<close>

definition read_element ::
    "byte list \<Rightarrow> astarte_bson_document_t \<Rightarrow> u8 \<Rightarrow> nat \<Rightarrow> nat \<Rightarrow> astarte_bson_element_t outcome" where
  "read_element mem document t start max_name_str_len =
     do {
       name_len \<leftarrow> strnlen mem (start + 1) max_name_str_len;
       if name_len + 1 > max_name_str_len then Some (Inl ASTARTE_RESULT_INTERNAL_ERROR)
       else
         let p = start + 1 + name_len + 1 in
         or_internal (get_element_value_size mem document t p) (\<lambda>val_size.
           if \<not> is_within_bounds document p val_size then Some (Inl ASTARTE_RESULT_INTERNAL_ERROR)
           else Some (Inr \<lparr>el_type = t, el_name = start + 1, el_name_len = name_len, el_value = p\<rparr>)) }"

definition astarte_bson_deserializer_first_element ::
    "byte list \<Rightarrow> astarte_bson_document_t \<Rightarrow> astarte_bson_element_t outcome" where
  "astarte_bson_deserializer_first_element mem document =
     (if doc_size document \<le> 4 + 1 then Some (Inl ASTARTE_RESULT_NOT_FOUND)
      else if doc_list_size document < 1 then Some (Inl ASTARTE_RESULT_INTERNAL_ERROR)
      else do {
        l \<leftarrow> doc_list document;
        t \<leftarrow> rd8 mem l;
        read_element mem document t l (unat (doc_list_size document) - 1) })"

definition astarte_bson_deserializer_next_element ::
    "byte list \<Rightarrow> astarte_bson_document_t \<Rightarrow> astarte_bson_element_t \<Rightarrow> astarte_bson_element_t outcome" where
  "astarte_bson_deserializer_next_element mem document curr_element =
     or_internal (get_element_value_size mem document (el_type curr_element) (el_value curr_element))
       (\<lambda>element_value_size.
         if \<not> is_within_bounds document (el_value curr_element) element_value_size
         then Some (Inl ASTARTE_RESULT_INTERNAL_ERROR)
         else do {
           l \<leftarrow> doc_list document;
           let next_element_start = el_value curr_element + element_value_size in
           if next_element_start \<ge> l + unat (doc_list_size document)
           then Some (Inl ASTARTE_RESULT_NOT_FOUND)
           else do {
             t \<leftarrow> rd8 mem next_element_start;
             if t = 0 then Some (Inl ASTARTE_RESULT_NOT_FOUND)
             else
               let offset = next_element_start - l in
               if unat (doc_list_size document) < offset + 1
               then Some (Inl ASTARTE_RESULT_INTERNAL_ERROR)
               else read_element mem document t next_element_start
                 (unat (doc_list_size document) - offset - 1) } })"

section \<open>The loops over the elements\<close>

text \<open>
  An element ends after it began, and inside the memory: the number of bytes behind the value is
  the measure of the loops.
\<close>

lemma read_element_value:
  "read_element mem d t start m = Some (Inr e) \<Longrightarrow> start < el_value e"
  by (auto simp: read_element_def or_internal_def Let_def bind_eq_Some_conv
      split: if_splits option.splits sum.splits)

lemma rd8_Some: "rd8 mem p = Some b \<longleftrightarrow> p < length mem \<and> b = mem ! p"
  by (auto simp: rd8_def)

lemma next_element_consumes:
  assumes "astarte_bson_deserializer_next_element mem d e = Some (Inr e')"
  shows "length mem - el_value e' < length mem - el_value e"
proof -
  obtain n t m where
    "rd8 mem (el_value e + n) = Some t" "read_element mem d t (el_value e + n) m = Some (Inr e')"
    using assms
    by (auto simp: astarte_bson_deserializer_next_element_def or_internal_def Let_def bind_eq_Some_conv
        split: if_splits option.splits sum.splits)
  then have "el_value e + n < length mem" "el_value e + n < el_value e'"
    by (auto simp: rd8_Some dest: read_element_value)
  then show ?thesis by linarith
qed

function count_loop ::
    "byte list \<Rightarrow> astarte_bson_document_t \<Rightarrow> astarte_bson_element_t \<Rightarrow> nat \<Rightarrow> nat outcome" where
  "count_loop mem document element document_length =
     (case astarte_bson_deserializer_next_element mem document element of
        None \<Rightarrow> None
      | Some (Inr element') \<Rightarrow> count_loop mem document element' (document_length + 1)
      | Some (Inl ares) \<Rightarrow>
          if ares \<noteq> ASTARTE_RESULT_NOT_FOUND then Some (Inl ares) else Some (Inr document_length))"
  by pat_completeness auto
termination
  by (relation "measure (\<lambda>(mem, d, e, n). length mem - el_value e)")
    (auto dest: next_element_consumes)

declare count_loop.simps [simp del]

definition astarte_bson_deserializer_doc_count_elements ::
    "byte list \<Rightarrow> astarte_bson_document_t \<Rightarrow> nat outcome" where
  "astarte_bson_deserializer_doc_count_elements mem document =
     (case astarte_bson_deserializer_first_element mem document of
        None \<Rightarrow> None
      | Some (Inl ares) \<Rightarrow>
          if ares = ASTARTE_RESULT_NOT_FOUND then Some (Inr 0) else Some (Inl ares)
      | Some (Inr element) \<Rightarrow> count_loop mem document element 1)"

function lookup_loop ::
    "byte list \<Rightarrow> astarte_bson_document_t \<Rightarrow> byte list \<Rightarrow> astarte_bson_element_t \<Rightarrow>
     astarte_bson_element_t outcome" where
  "lookup_loop mem document key candidate_element =
     (case strncmp_mem mem key (el_name candidate_element) (el_name_len candidate_element + 1) of
        None \<Rightarrow> None
      | Some True \<Rightarrow> Some (Inr candidate_element)
      | Some False \<Rightarrow>
          (case astarte_bson_deserializer_next_element mem document candidate_element of
             None \<Rightarrow> None
           | Some (Inl ares) \<Rightarrow> Some (Inl ares)
           | Some (Inr element') \<Rightarrow> lookup_loop mem document key element'))"
  by pat_completeness auto
termination
  by (relation "measure (\<lambda>(mem, d, k, e). length mem - el_value e)")
    (auto dest: next_element_consumes)

declare lookup_loop.simps [simp del]

definition astarte_bson_deserializer_element_lookup ::
    "byte list \<Rightarrow> astarte_bson_document_t \<Rightarrow> byte list \<Rightarrow> astarte_bson_element_t outcome" where
  "astarte_bson_deserializer_element_lookup mem document key =
     out_bind (astarte_bson_deserializer_first_element mem document)
       (lookup_loop mem document key)"

section \<open>Values\<close>

definition astarte_bson_deserializer_element_to_double :: "byte list \<Rightarrow> astarte_bson_element_t \<Rightarrow> u64 option" where
  "astarte_bson_deserializer_element_to_double mem element = rd_le64 mem (el_value element)"

text \<open>The pointer to the characters and the length written to \<open>len\<close>.\<close>

definition astarte_bson_deserializer_element_to_string ::
    "byte list \<Rightarrow> astarte_bson_element_t \<Rightarrow> (nat \<times> u32) option" where
  "astarte_bson_deserializer_element_to_string mem element =
     do { parsed_len \<leftarrow> rd_le32 mem (el_value element);
          Some (el_value element + 4, if parsed_len \<ge> 1 then parsed_len - 1 else 0) }"

definition astarte_bson_deserializer_element_to_document ::
    "byte list \<Rightarrow> astarte_bson_element_t \<Rightarrow> astarte_bson_document_t option" where
  "astarte_bson_deserializer_element_to_document mem element =
     astarte_bson_deserializer_init_doc mem (Some (el_value element))"

definition astarte_bson_deserializer_element_to_array ::
    "byte list \<Rightarrow> astarte_bson_element_t \<Rightarrow> astarte_bson_document_t option" where
  "astarte_bson_deserializer_element_to_array mem element =
     astarte_bson_deserializer_init_doc mem (Some (el_value element))"

definition astarte_bson_deserializer_element_to_binary ::
    "byte list \<Rightarrow> astarte_bson_element_t \<Rightarrow> (nat \<times> u32) option" where
  "astarte_bson_deserializer_element_to_binary mem element =
     do { len \<leftarrow> rd_le32 mem (el_value element); Some (el_value element + 4 + 1, len) }"

definition astarte_bson_deserializer_element_to_bool :: "byte list \<Rightarrow> astarte_bson_element_t \<Rightarrow> bool option" where
  "astarte_bson_deserializer_element_to_bool mem element =
     map_option (\<lambda>b. b \<noteq> 0) (rd8 mem (el_value element))"

definition astarte_bson_deserializer_element_to_datetime :: "byte list \<Rightarrow> astarte_bson_element_t \<Rightarrow> u64 option" where
  "astarte_bson_deserializer_element_to_datetime mem element = rd_le64 mem (el_value element)"

definition astarte_bson_deserializer_element_to_int32 :: "byte list \<Rightarrow> astarte_bson_element_t \<Rightarrow> u32 option" where
  "astarte_bson_deserializer_element_to_int32 mem element = rd_le32 mem (el_value element)"

definition astarte_bson_deserializer_element_to_int64 :: "byte list \<Rightarrow> astarte_bson_element_t \<Rightarrow> u64 option" where
  "astarte_bson_deserializer_element_to_int64 mem element = rd_le64 mem (el_value element)"

end
