(* ===== verification/Data_Codec.thy ===== *)
theory Data_Codec
  imports Astarte_Mapping Bson_Serializer Bson_Deserializer
begin

text \<open>
  Astarte data to and from BSON (lib/astarte\_device\_sdk/data: serialize.c, deserialize.c,
  deserialize\_scalar.c and deserialize\_array.c).  The deserializers copy out of the received
  buffer into freshly allocated memory; \<open>heap n\<close> is the answer of the kernel heap to a request of
  \<open>n\<close> bytes.
\<close>

section \<open>Serialization\<close>

text \<open>\<open>(int) len\<close>.\<close>

definition to_int :: "nat \<Rightarrow> int" where
  "to_int n = sint (of_nat n :: 32 word)"

definition astarte_data_serialize ::
    "(nat \<Rightarrow> bool) \<Rightarrow> astarte_bson_serializer_t \<Rightarrow> byte list \<Rightarrow> astarte_data_t \<Rightarrow>
     astarte_result_t \<times> astarte_bson_serializer_t" where
  "astarte_data_serialize heap bson key d =
     (case data d of
        Integer v \<Rightarrow> astarte_bson_serializer_append_int32 heap bson key v
      | Longinteger v \<Rightarrow> astarte_bson_serializer_append_int64 heap bson key v
      | Double v \<Rightarrow> astarte_bson_serializer_append_double heap bson key v
      | String v \<Rightarrow> astarte_bson_serializer_append_string heap bson key v
      | Binaryblob buf len \<Rightarrow> astarte_bson_serializer_append_binary heap bson key (Some buf) len
      | Boolean v \<Rightarrow> astarte_bson_serializer_append_boolean heap bson key v
      | Datetime v \<Rightarrow> astarte_bson_serializer_append_datetime heap bson key v
      | IntegerArray buf len \<Rightarrow> astarte_bson_serializer_append_int32_array heap bson key buf (to_int len)
      | LongintegerArray buf len \<Rightarrow> astarte_bson_serializer_append_int64_array heap bson key buf (to_int len)
      | DoubleArray buf len \<Rightarrow> astarte_bson_serializer_append_double_array heap bson key buf (to_int len)
      | StringArray buf len \<Rightarrow> astarte_bson_serializer_append_string_array heap bson key buf (to_int len)
      | BinaryblobArray blobs sizes count \<Rightarrow>
          astarte_bson_serializer_append_binary_array heap bson key (map Some blobs) sizes (to_int count)
      | BooleanArray buf len \<Rightarrow> astarte_bson_serializer_append_boolean_array heap bson key buf (to_int len)
      | DatetimeArray buf len \<Rightarrow> astarte_bson_serializer_append_datetime_array heap bson key buf (to_int len)
      | NoData \<Rightarrow> (ASTARTE_RESULT_INVALID_PARAM, bson))"

section \<open>Deserialization of scalars\<close>

text \<open>\<open>memcpy\<close> and \<open>strncpy\<close> out of the received buffer; \<open>strncpy\<close> stops at a zero byte.\<close>

definition rd_bytes :: "byte list \<Rightarrow> nat \<Rightarrow> nat \<Rightarrow> byte list option" where
  "rd_bytes mem p n = (if p + n \<le> length mem then Some (take n (drop p mem)) else None)"

definition rd_string :: "byte list \<Rightarrow> nat \<Rightarrow> nat \<Rightarrow> byte list option" where
  "rd_string mem p n = do { k \<leftarrow> strnlen mem p n; Some (take k (drop p mem)) }"

definition deserialize_binaryblob ::
    "(nat \<Rightarrow> bool) \<Rightarrow> byte list \<Rightarrow> astarte_bson_element_t \<Rightarrow> astarte_data_t outcome" where
  "deserialize_binaryblob heap mem bson_elem =
     do { (deserialized, deserialized_len) \<leftarrow> astarte_bson_deserializer_element_to_binary mem bson_elem;
          if \<not> astarte_calloc heap (unat deserialized_len) 1 then Some (Inl ASTARTE_RESULT_OUT_OF_MEMORY)
          else do {
            buf \<leftarrow> rd_bytes mem deserialized (unat deserialized_len);
            Some (Inr (astarte_data_from_binaryblob buf (unat deserialized_len))) } }"

definition deserialize_string ::
    "(nat \<Rightarrow> bool) \<Rightarrow> byte list \<Rightarrow> astarte_bson_element_t \<Rightarrow> astarte_data_t outcome" where
  "deserialize_string heap mem bson_elem =
     do { (deserialized, deserialized_len) \<leftarrow> astarte_bson_deserializer_element_to_string mem bson_elem;
          if \<not> astarte_calloc heap (unat (deserialized_len + 1)) 1 then Some (Inl ASTARTE_RESULT_OUT_OF_MEMORY)
          else do {
            buf \<leftarrow> rd_string mem deserialized (unat deserialized_len);
            Some (Inr (astarte_data_from_string buf)) } }"

text \<open>The value of a longinteger: an int32 on the wire is sign-extended.\<close>

definition extract_int64 :: "byte list \<Rightarrow> astarte_bson_element_t \<Rightarrow> u64 option" where
  "extract_int64 mem elem =
     (if el_type elem = ASTARTE_BSON_TYPE_INT32
      then map_option scast (astarte_bson_deserializer_element_to_int32 mem elem)
      else astarte_bson_deserializer_element_to_int64 mem elem)"

definition astarte_data_deserialize_scalar ::
    "(nat \<Rightarrow> bool) \<Rightarrow> byte list \<Rightarrow> astarte_bson_element_t \<Rightarrow> astarte_mapping_type_t \<Rightarrow>
     astarte_data_t outcome" where
  "astarte_data_deserialize_scalar heap mem bson_elem t =
     (if \<not> astarte_mapping_bson_is_compatible t (el_type bson_elem)
      then Some (Inl ASTARTE_RESULT_BSON_DESERIALIZER_TYPES_ERROR)
      else case t of
        ASTARTE_MAPPING_TYPE_BINARYBLOB \<Rightarrow> deserialize_binaryblob heap mem bson_elem
      | ASTARTE_MAPPING_TYPE_BOOLEAN \<Rightarrow>
          map_option (Inr \<circ> astarte_data_from_boolean) (astarte_bson_deserializer_element_to_bool mem bson_elem)
      | ASTARTE_MAPPING_TYPE_DATETIME \<Rightarrow>
          map_option (Inr \<circ> astarte_data_from_datetime) (astarte_bson_deserializer_element_to_datetime mem bson_elem)
      | ASTARTE_MAPPING_TYPE_DOUBLE \<Rightarrow>
          map_option (Inr \<circ> astarte_data_from_double) (astarte_bson_deserializer_element_to_double mem bson_elem)
      | ASTARTE_MAPPING_TYPE_INTEGER \<Rightarrow>
          map_option (Inr \<circ> astarte_data_from_integer) (astarte_bson_deserializer_element_to_int32 mem bson_elem)
      | ASTARTE_MAPPING_TYPE_LONGINTEGER \<Rightarrow>
          map_option (Inr \<circ> astarte_data_from_longinteger)
            (if el_type bson_elem = ASTARTE_BSON_TYPE_INT32
             then map_option scast (astarte_bson_deserializer_element_to_int32 mem bson_elem)
             else astarte_bson_deserializer_element_to_int64 mem bson_elem)
      | ASTARTE_MAPPING_TYPE_STRING \<Rightarrow> deserialize_string heap mem bson_elem
      | _ \<Rightarrow> Some (Inl ASTARTE_RESULT_INTERNAL_ERROR))"

section \<open>Deserialization of arrays\<close>

text \<open>Sizes of the C types on the 32-bit targets of the library.\<close>

definition sizeof_ptr :: nat where "sizeof_ptr = 4"

definition initialize_empty_array :: "astarte_mapping_type_t \<Rightarrow> astarte_data_t outcome" where
  "initialize_empty_array t = Some (case t of
      ASTARTE_MAPPING_TYPE_BINARYBLOBARRAY \<Rightarrow> Inr (from_union (BinaryblobArray [] [] 0))
    | ASTARTE_MAPPING_TYPE_BOOLEANARRAY \<Rightarrow> Inr (from_union (BooleanArray [] 0))
    | ASTARTE_MAPPING_TYPE_DATETIMEARRAY \<Rightarrow> Inr (from_union (DatetimeArray [] 0))
    | ASTARTE_MAPPING_TYPE_DOUBLEARRAY \<Rightarrow> Inr (from_union (DoubleArray [] 0))
    | ASTARTE_MAPPING_TYPE_INTEGERARRAY \<Rightarrow> Inr (from_union (IntegerArray [] 0))
    | ASTARTE_MAPPING_TYPE_LONGINTEGERARRAY \<Rightarrow> Inr (from_union (LongintegerArray [] 0))
    | ASTARTE_MAPPING_TYPE_STRINGARRAY \<Rightarrow> Inr (from_union (StringArray [] 0))
    | _ \<Rightarrow> Inl ASTARTE_RESULT_INTERNAL_ERROR)"

text \<open>
  The \<open>while\<close> loop of the array deserializers.  \<open>grow cap\<close> tells whether the reallocation to
  \<open>cap\<close> elements succeeds, \<open>get elem\<close> is the extraction of one value with its own failures.  The
  loop ends with the result code it left with and the values read so far.
\<close>

function array_loop ::
    "byte list \<Rightarrow> astarte_bson_document_t \<Rightarrow> astarte_mapping_type_t \<Rightarrow> (nat \<Rightarrow> bool) \<Rightarrow>
     (astarte_bson_element_t \<Rightarrow> 'a outcome) \<Rightarrow> nat \<Rightarrow> 'a list \<Rightarrow> astarte_bson_element_t \<Rightarrow>
     (astarte_result_t \<times> 'a list) option" where
  "array_loop mem bson_doc t grow get capacity arr elem =
     (if \<not> astarte_mapping_bson_is_compatible t (el_type elem)
      then Some (ASTARTE_RESULT_BSON_DESERIALIZER_TYPES_ERROR, arr)
      else if length arr \<ge> capacity \<and> \<not> grow (capacity * 2) then Some (ASTARTE_RESULT_OUT_OF_MEMORY, arr)
      else
        let capacity = (if length arr \<ge> capacity then capacity * 2 else capacity) in
        (case get elem of
           None \<Rightarrow> None
         | Some (Inl ares) \<Rightarrow> Some (ares, arr)
         | Some (Inr v) \<Rightarrow>
             (case astarte_bson_deserializer_next_element mem bson_doc elem of
                None \<Rightarrow> None
              | Some (Inl ares) \<Rightarrow> Some (ares, arr @ [v])
              | Some (Inr elem') \<Rightarrow> array_loop mem bson_doc t grow get capacity (arr @ [v]) elem')))"
  by pat_completeness auto
termination
  by (relation "measure (\<lambda>(mem, d, t, g, f, c, a, e). length mem - el_value e)")
    (auto dest: next_element_consumes)

declare array_loop.simps [simp del]

text \<open>The allocation before the loop, the first element, and the assembly of the data behind it.\<close>

definition read_array ::
    "byte list \<Rightarrow> astarte_bson_document_t \<Rightarrow> astarte_mapping_type_t \<Rightarrow> astarte_mapping_type_t \<Rightarrow> bool \<Rightarrow>
     (nat \<Rightarrow> bool) \<Rightarrow> (astarte_bson_element_t \<Rightarrow> 'a outcome) \<Rightarrow> ('a list \<Rightarrow> astarte_data_union) \<Rightarrow>
     astarte_data_t outcome" where
  "read_array mem bson_doc t array_type alloc grow get mk =
     (if \<not> alloc then Some (Inl ASTARTE_RESULT_OUT_OF_MEMORY)
      else
        (case (case astarte_bson_deserializer_first_element mem bson_doc of
                 None \<Rightarrow> None
               | Some (Inl ares) \<Rightarrow> Some (ares, [])
               | Some (Inr elem) \<Rightarrow> array_loop mem bson_doc t grow get 4 [] elem) of
           None \<Rightarrow> None
         | Some (ares, arr) \<Rightarrow>
             if ares = ASTARTE_RESULT_NOT_FOUND then
               if length arr = 0 then initialize_empty_array array_type
               else Some (Inr (from_union (mk arr)))
             else Some (Inl ares)))"

definition deserialize_array_bool where
  "deserialize_array_bool heap mem bson_doc =
     read_array mem bson_doc ASTARTE_MAPPING_TYPE_BOOLEAN ASTARTE_MAPPING_TYPE_BOOLEANARRAY
       (astarte_calloc heap 4 1) (\<lambda>cap. astarte_realloc heap True (cap * 1))
       (\<lambda>elem. map_option Inr (astarte_bson_deserializer_element_to_bool mem elem))
       (\<lambda>arr. BooleanArray arr (length arr))"

definition deserialize_array_datetime where
  "deserialize_array_datetime heap mem bson_doc =
     read_array mem bson_doc ASTARTE_MAPPING_TYPE_DATETIME ASTARTE_MAPPING_TYPE_DATETIMEARRAY
       (astarte_calloc heap 4 8) (\<lambda>cap. astarte_realloc heap True (cap * 8))
       (\<lambda>elem. map_option Inr (astarte_bson_deserializer_element_to_datetime mem elem))
       (\<lambda>arr. DatetimeArray arr (length arr))"

definition deserialize_array_double where
  "deserialize_array_double heap mem bson_doc =
     read_array mem bson_doc ASTARTE_MAPPING_TYPE_DOUBLE ASTARTE_MAPPING_TYPE_DOUBLEARRAY
       (astarte_calloc heap 4 8) (\<lambda>cap. astarte_realloc heap True (cap * 8))
       (\<lambda>elem. map_option Inr (astarte_bson_deserializer_element_to_double mem elem))
       (\<lambda>arr. DoubleArray arr (length arr))"

definition deserialize_array_int32 where
  "deserialize_array_int32 heap mem bson_doc =
     read_array mem bson_doc ASTARTE_MAPPING_TYPE_INTEGER ASTARTE_MAPPING_TYPE_INTEGERARRAY
       (astarte_calloc heap 4 4) (\<lambda>cap. astarte_realloc heap True (cap * 4))
       (\<lambda>elem. map_option Inr (astarte_bson_deserializer_element_to_int32 mem elem))
       (\<lambda>arr. IntegerArray arr (length arr))"

definition deserialize_array_int64 where
  "deserialize_array_int64 heap mem bson_doc =
     read_array mem bson_doc ASTARTE_MAPPING_TYPE_LONGINTEGER ASTARTE_MAPPING_TYPE_LONGINTEGERARRAY
       (astarte_calloc heap 4 8) (\<lambda>cap. astarte_realloc heap True (cap * 8))
       (\<lambda>elem. map_option Inr (extract_int64 mem elem))
       (\<lambda>arr. LongintegerArray arr (length arr))"

text \<open>A blob and a string of an array are copied into memory of their own.\<close>

definition get_blob where
  "get_blob heap mem elem =
     do { (blob, len) \<leftarrow> astarte_bson_deserializer_element_to_binary mem elem;
          if \<not> astarte_calloc heap (unat len) 1 then Some (Inl ASTARTE_RESULT_OUT_OF_MEMORY)
          else do { b \<leftarrow> rd_bytes mem blob (unat len); Some (Inr b) } }"

definition deserialize_array_binblob where
  "deserialize_array_binblob heap mem bson_doc =
     read_array mem bson_doc ASTARTE_MAPPING_TYPE_BINARYBLOB ASTARTE_MAPPING_TYPE_BINARYBLOBARRAY
       (astarte_calloc heap 4 sizeof_ptr \<and> astarte_calloc heap 4 4)
       (\<lambda>cap. astarte_realloc heap True (cap * sizeof_ptr) \<and> astarte_realloc heap True (cap * 4))
       (get_blob heap mem)
       (\<lambda>arr. BinaryblobArray arr (map length arr) (length arr))"

definition get_string where
  "get_string heap mem elem =
     do { (str, len) \<leftarrow> astarte_bson_deserializer_element_to_string mem elem;
          if \<not> astarte_calloc heap (unat (len + 1)) 1 then Some (Inl ASTARTE_RESULT_OUT_OF_MEMORY)
          else do { s \<leftarrow> rd_string mem str (unat len); Some (Inr s) } }"

definition deserialize_array_string where
  "deserialize_array_string heap mem bson_doc =
     read_array mem bson_doc ASTARTE_MAPPING_TYPE_STRING ASTARTE_MAPPING_TYPE_STRINGARRAY
       (astarte_calloc heap 4 sizeof_ptr) (\<lambda>cap. astarte_realloc heap True (cap * sizeof_ptr))
       (get_string heap mem)
       (\<lambda>arr. StringArray arr (length arr))"

definition astarte_data_deserialize_array ::
    "(nat \<Rightarrow> bool) \<Rightarrow> byte list \<Rightarrow> astarte_bson_element_t \<Rightarrow> astarte_mapping_type_t \<Rightarrow>
     astarte_data_t outcome" where
  "astarte_data_deserialize_array heap mem bson_elem t =
     (if el_type bson_elem \<noteq> ASTARTE_BSON_TYPE_ARRAY
      then Some (Inl ASTARTE_RESULT_BSON_DESERIALIZER_TYPES_ERROR)
      else do {
        bson_doc \<leftarrow> astarte_bson_deserializer_element_to_array mem bson_elem;
        (case astarte_mapping_array_to_scalar_type t of
           Inl ares \<Rightarrow> Some (Inl ares)
         | Inr scalar_type \<Rightarrow>
             (case scalar_type of
                ASTARTE_MAPPING_TYPE_BINARYBLOB \<Rightarrow> deserialize_array_binblob heap mem bson_doc
              | ASTARTE_MAPPING_TYPE_BOOLEAN \<Rightarrow> deserialize_array_bool heap mem bson_doc
              | ASTARTE_MAPPING_TYPE_DATETIME \<Rightarrow> deserialize_array_datetime heap mem bson_doc
              | ASTARTE_MAPPING_TYPE_DOUBLE \<Rightarrow> deserialize_array_double heap mem bson_doc
              | ASTARTE_MAPPING_TYPE_INTEGER \<Rightarrow> deserialize_array_int32 heap mem bson_doc
              | ASTARTE_MAPPING_TYPE_LONGINTEGER \<Rightarrow> deserialize_array_int64 heap mem bson_doc
              | ASTARTE_MAPPING_TYPE_STRING \<Rightarrow> deserialize_array_string heap mem bson_doc
              | _ \<Rightarrow> Some (Inl ASTARTE_RESULT_INTERNAL_ERROR))) })"

section \<open>Deserialization\<close>

definition is_scalar_type :: "astarte_mapping_type_t \<Rightarrow> bool" where
  "is_scalar_type t \<longleftrightarrow>
     t = ASTARTE_MAPPING_TYPE_BINARYBLOB \<or> t = ASTARTE_MAPPING_TYPE_BOOLEAN \<or>
     t = ASTARTE_MAPPING_TYPE_DATETIME \<or> t = ASTARTE_MAPPING_TYPE_DOUBLE \<or>
     t = ASTARTE_MAPPING_TYPE_INTEGER \<or> t = ASTARTE_MAPPING_TYPE_LONGINTEGER \<or>
     t = ASTARTE_MAPPING_TYPE_STRING"

definition astarte_data_deserialize ::
    "(nat \<Rightarrow> bool) \<Rightarrow> byte list \<Rightarrow> astarte_bson_element_t \<Rightarrow> astarte_mapping_type_t \<Rightarrow>
     astarte_data_t outcome" where
  "astarte_data_deserialize heap mem bson_elem t =
     map_option (map_sum id (\<lambda>d. d\<lparr>is_owned := True\<rparr>))
       (if is_scalar_type t then astarte_data_deserialize_scalar heap mem bson_elem t
        else if t = ASTARTE_MAPPING_TYPE_INVALID then Some (Inl ASTARTE_RESULT_INTERNAL_ERROR)
        else astarte_data_deserialize_array heap mem bson_elem t)"

text \<open>
  The blocks \<open>astarte_data_destroy_deserialized\<close> frees: for data that owns its memory, the buffer,
  and for an array of strings or blobs every element's block too.  \<open>Data_block\<close> is the buffer,
  \<open>Item_block i\<close> the block of element \<open>i\<close>, \<open>Sizes_block\<close> the array of the sizes.
\<close>

datatype data_block = Data_block | Sizes_block | Item_block nat

definition astarte_data_destroy_deserialized :: "astarte_data_t \<Rightarrow> data_block list" where
  "astarte_data_destroy_deserialized d =
     (if \<not> is_owned d then []
      else case data d of
        Binaryblob _ _ \<Rightarrow> [Data_block]
      | String _ \<Rightarrow> [Data_block]
      | IntegerArray _ _ \<Rightarrow> [Data_block]
      | LongintegerArray _ _ \<Rightarrow> [Data_block]
      | DoubleArray _ _ \<Rightarrow> [Data_block]
      | StringArray _ len \<Rightarrow> map Item_block [0..<len] @ [Data_block]
      | BinaryblobArray _ _ count \<Rightarrow> map Item_block [0..<count] @ [Sizes_block, Data_block]
      | BooleanArray _ _ \<Rightarrow> [Data_block]
      | DatetimeArray _ _ \<Rightarrow> [Data_block]
      | _ \<Rightarrow> [])"

end
