(* ===== verification/Bson_Append.thy ===== *)
theory Bson_Append
  imports Bson_Serializer
begin

text \<open>
  What the serializer writes.  \<open>appends heap op bs\<close> is the contract of an appending operation: on
  an open serializer it either appends exactly \<open>bs\<close>, or the heap refused a request and a part of
  \<open>bs\<close> was written.  The contract is closed under sequencing, so every operation is proved by
  composing the contracts of the byte array.
\<close>

section \<open>The contract\<close>

definition ser_ok :: "astarte_bson_serializer_t \<Rightarrow> bool" where
  "ser_ok s \<longleftrightarrow> (\<exists>b. bs_buf s = Some b \<and> length b = bs_size s) \<and> bs_size s \<le> bs_capacity s"

definition ser_bytes :: "astarte_bson_serializer_t \<Rightarrow> byte list" where
  "ser_bytes s = (case bs_buf s of None \<Rightarrow> [] | Some b \<Rightarrow> b)"

definition ser_open :: "astarte_bson_serializer_t \<Rightarrow> bool" where
  "ser_open s \<longleftrightarrow> ser_ok s \<and> \<not> bs_terminated s"

definition extends :: "astarte_bson_serializer_t \<Rightarrow> astarte_bson_serializer_t \<Rightarrow> byte list \<Rightarrow> bool" where
  "extends s s' bs \<longleftrightarrow> ser_open s' \<and> ser_bytes s' = ser_bytes s @ bs"

definition partly :: "astarte_bson_serializer_t \<Rightarrow> astarte_bson_serializer_t \<Rightarrow> byte list \<Rightarrow> bool" where
  "partly s s' bs \<longleftrightarrow> (\<exists>p q. bs = p @ q \<and> extends s s' p)"

definition appends ::
    "(nat \<Rightarrow> bool) \<Rightarrow> (astarte_bson_serializer_t \<Rightarrow> astarte_result_t \<times> astarte_bson_serializer_t) \<Rightarrow>
     byte list \<Rightarrow> bool" where
  "appends heap op bs \<longleftrightarrow>
     (\<forall>s. ser_open s \<longrightarrow>
        (\<exists>s'. op s = (ASTARTE_RESULT_OK, s') \<and> extends s s' bs)
      \<or> (\<exists>s'. op s = (ASTARTE_RESULT_OUT_OF_MEMORY, s') \<and> partly s s' bs \<and> (\<exists>n. \<not> heap n)))"

lemma ser_okI: "bs_buf s = Some b \<Longrightarrow> length b = bs_size s \<Longrightarrow> bs_size s \<le> bs_capacity s \<Longrightarrow> ser_ok s"
  by (simp add: ser_ok_def)

lemma extends_open: "extends s s' bs \<Longrightarrow> ser_open s'"
  by (simp add: extends_def)

lemma extends_refl [simp]: "ser_open s \<Longrightarrow> extends s s []"
  by (simp add: extends_def)

lemma extends_trans: "extends s s' a \<Longrightarrow> extends s' s'' b \<Longrightarrow> extends s s'' (a @ b)"
  by (simp add: extends_def)

lemma partly_refl: "ser_open s \<Longrightarrow> partly s s bs"
  unfolding partly_def by (rule exI [of _ "[]"]) simp

lemma partly_right: "partly s s' a \<Longrightarrow> partly s s' (a @ b)"
  unfolding partly_def by (metis append_assoc)

lemma partly_trans: "extends s s' a \<Longrightarrow> partly s' s'' b \<Longrightarrow> partly s s'' (a @ b)"
  unfolding partly_def by (metis append_assoc extends_trans)

lemma appendsI:
  assumes "\<And>s. ser_open s \<Longrightarrow>
     (\<exists>s'. op s = (ASTARTE_RESULT_OK, s') \<and> extends s s' bs)
   \<or> (\<exists>s'. op s = (ASTARTE_RESULT_OUT_OF_MEMORY, s') \<and> partly s s' bs \<and> (\<exists>n. \<not> heap n))"
  shows "appends heap op bs"
  using assms by (simp add: appends_def)

lemma appends_cases:
  assumes "appends heap op bs" "ser_open s"
  obtains (ok) s' where "op s = (ASTARTE_RESULT_OK, s')" "extends s s' bs"
    | (oom) s' n where "op s = (ASTARTE_RESULT_OUT_OF_MEMORY, s')" "partly s s' bs" "\<not> heap n"
  using assms unfolding appends_def by blast

lemma appends_nop: "appends heap (\<lambda>s. (ASTARTE_RESULT_OK, s)) []"
  by (rule appendsI) simp

lemma appends_seq:
  assumes f: "appends heap f a" and g: "appends heap g b"
  shows "appends heap (\<lambda>s. and_then (f s) g) (a @ b)"
proof (rule appendsI)
  fix s
  assume s: "ser_open s"
  show "(\<exists>s'. and_then (f s) g = (ASTARTE_RESULT_OK, s') \<and> extends s s' (a @ b))
      \<or> (\<exists>s'. and_then (f s) g = (ASTARTE_RESULT_OUT_OF_MEMORY, s') \<and> partly s s' (a @ b) \<and> (\<exists>n. \<not> heap n))"
    using f s
  proof (cases rule: appends_cases)
    case (ok s1)
    note f_ok = this
    show ?thesis
      using g extends_open [OF ok(2)]
    proof (cases rule: appends_cases)
      case (ok s2)
      with f_ok show ?thesis by (auto intro: extends_trans)
    next
      case (oom s2 n)
      with f_ok show ?thesis by (auto intro: partly_trans)
    qed
  next
    case (oom s1 n)
    then show ?thesis by (auto intro: partly_right)
  qed
qed

lemma appends_cong:
  "appends heap f bs \<Longrightarrow> (\<And>s. ser_open s \<Longrightarrow> g s = f s) \<Longrightarrow> bs = cs \<Longrightarrow> appends heap g cs"
  by (simp add: appends_def)

section \<open>The byte array\<close>

lemma copy_to_end_extends:
  assumes "ser_open s" "bs_size s + length bs \<le> bs_capacity s"
  shows "extends s (copy_to_end s bs) bs"
  using assms by (auto simp: extends_def ser_open_def ser_ok_def ser_bytes_def copy_to_end_def)

lemma grow_cases:
  assumes "ser_open s"
  obtains (ok) s' where "byte_array_grow heap s n = (ASTARTE_RESULT_OK, s')"
      "extends s s' []" "bs_size s' + n \<le> bs_capacity s'"
    | (oom) m where "byte_array_grow heap s n = (ASTARTE_RESULT_OUT_OF_MEMORY, s)" "\<not> heap m"
proof -
  define k where "k = (if max (bs_capacity s * 2) 64 < bs_capacity s + n
      then bs_capacity s + n else max (bs_capacity s * 2) 64)"
  have k: "0 < k" "bs_capacity s + n \<le> k" "bs_capacity s \<le> k"
    by (auto simp: k_def)
  obtain b where b: "bs_buf s = Some b" "length b = bs_size s" and c: "bs_size s \<le> bs_capacity s"
      and t: "\<not> bs_terminated s"
    using assms by (auto simp: ser_open_def ser_ok_def)
  show thesis
  proof (cases "bs_size s + n > bs_capacity s")
    case False
    then show thesis using assms by (intro ok [of s]) (simp_all add: byte_array_grow_def)
  next
    case True
    then have grow: "byte_array_grow heap s n =
        (if heap k then (ASTARTE_RESULT_OK, s\<lparr>bs_capacity := k, bs_buf := Some b\<rparr>)
         else (ASTARTE_RESULT_OUT_OF_MEMORY, s))"
      unfolding byte_array_grow_def Let_def k_def [symmetric] using b k by simp
    show thesis
    proof (cases "heap k")
      case True
      then show thesis using b c k t grow
        by (intro ok [of "s\<lparr>bs_capacity := k, bs_buf := Some b\<rparr>"])
          (simp_all add: extends_def ser_open_def ser_ok_def ser_bytes_def)
    next
      case False
      then show thesis using grow by (intro oom [of k]) simp_all
    qed
  qed
qed

lemma append_bytes:
  assumes "length bs = n"
  shows "appends heap (\<lambda>s. and_then (byte_array_grow heap s n)
           (\<lambda>s. (ASTARTE_RESULT_OK, copy_to_end s bs))) bs"
proof (rule appendsI)
  fix s
  assume s: "ser_open s"
  then show "(\<exists>s'. and_then (byte_array_grow heap s n) (\<lambda>s. (ASTARTE_RESULT_OK, copy_to_end s bs)) =
                (ASTARTE_RESULT_OK, s') \<and> extends s s' bs)
   \<or> (\<exists>s'. and_then (byte_array_grow heap s n) (\<lambda>s. (ASTARTE_RESULT_OK, copy_to_end s bs)) =
                (ASTARTE_RESULT_OUT_OF_MEMORY, s') \<and> partly s s' bs \<and> (\<exists>n. \<not> heap n))"
  proof (cases rule: grow_cases [where n = n and heap = heap])
    case (ok s')
    then have "extends s' (copy_to_end s' bs) bs"
      using assms by (intro copy_to_end_extends) (auto simp: extends_def)
    with ok show ?thesis by (auto dest: extends_trans)
  next
    case (oom m)
    with s show ?thesis by (auto intro: partly_refl)
  qed
qed

lemma append_byte: "appends heap (\<lambda>s. byte_array_append_byte heap s b) [b]"
  using append_bytes [of "[b]" 1 heap] by (simp add: byte_array_append_byte_def)

lemma append_array_bytes:
  assumes "n \<le> length bs"
  shows "appends heap (\<lambda>s. byte_array_append heap s (Some bs) n) (take n bs)"
proof (cases "n = 0")
  case True
  have "byte_array_append heap s (Some bs) 0 = (ASTARTE_RESULT_OK, s)" if "ser_open s" for s
    using that by (simp add: byte_array_append_def byte_array_grow_def ser_open_def ser_ok_def)
  with True show ?thesis
    by (auto intro: appends_cong [OF appends_nop])
next
  case False
  then show ?thesis
    using assms append_bytes [of "take n bs" n heap] by (simp add: byte_array_append_def)
qed

lemma append_whole:
  assumes "n = length bs"
  shows "appends heap (\<lambda>s. byte_array_append heap s (Some bs) n) bs"
  using append_array_bytes [of n bs heap] assms by simp

lemma append_empty: "appends heap (\<lambda>s. byte_array_append heap s v 0) []"
proof (rule appends_cong [OF appends_nop])
  show "byte_array_append heap s v 0 = (ASTARTE_RESULT_OK, s)" if "ser_open s" for s
    using that
    by (auto simp: byte_array_append_def byte_array_grow_def ser_open_def ser_ok_def split: option.splits)
qed simp

lemma append_name: "appends heap (\<lambda>s. append_c_string heap s name) (c_string name @ [0])"
  unfolding append_c_string_def by (rule append_whole) (simp add: strlen_def)

section \<open>Elements\<close>

text \<open>Every element is its type byte, its name and a payload.\<close>

lemma append_element:
  assumes payload: "appends heap payload bs"
    and run: "\<And>s. ser_open s \<Longrightarrow> op s = and_then (byte_array_append_byte heap s t)
        (\<lambda>s. and_then (append_c_string heap s name) payload)"
    and bytes: "t # c_string name @ [0] @ bs = cs"
  shows "appends heap op cs"
proof -
  have "appends heap (\<lambda>s. and_then (byte_array_append_byte heap s t)
        (\<lambda>s. and_then (append_c_string heap s name) payload)) ([t] @ (c_string name @ [0]) @ bs)"
    by (intro appends_seq append_byte append_name payload)
  then show ?thesis
    by (rule appends_cong) (use run bytes in simp_all)
qed

lemma open_not_terminated [simp]: "ser_open s \<Longrightarrow> \<not> bs_terminated s"
  by (simp add: ser_open_def)

lemmas to_bytes_defs = uint32_to_bytes_def int32_to_bytes_def int64_to_bytes_def double_to_bytes_def

lemma append_double:
  "appends heap (\<lambda>s. astarte_bson_serializer_append_double heap s name w)
     (enc_elem (c_string name, BDouble w))"
  by (rule append_element [OF append_whole [of 8 "le64 w"]])
    (simp_all add: astarte_bson_serializer_append_double_def to_bytes_defs enc_elem_def)

lemma append_int32:
  "appends heap (\<lambda>s. astarte_bson_serializer_append_int32 heap s name i)
     (enc_elem (c_string name, BInt32 i))"
  by (rule append_element [OF append_whole [of 4 "le32 i"]])
    (simp_all add: astarte_bson_serializer_append_int32_def to_bytes_defs enc_elem_def)

lemma append_int64:
  "appends heap (\<lambda>s. astarte_bson_serializer_append_int64 heap s name w)
     (enc_elem (c_string name, BInt64 w))"
  by (rule append_element [OF append_whole [of 8 "le64 w"]])
    (simp_all add: astarte_bson_serializer_append_int64_def to_bytes_defs enc_elem_def)

lemma append_datetime:
  "appends heap (\<lambda>s. astarte_bson_serializer_append_datetime heap s name w)
     (enc_elem (c_string name, BDatetime w))"
  by (rule append_element [OF append_whole [of 8 "le64 w"]])
    (simp_all add: astarte_bson_serializer_append_datetime_def to_bytes_defs enc_elem_def)

lemma append_boolean:
  "appends heap (\<lambda>s. astarte_bson_serializer_append_boolean heap s name b)
     (enc_elem (c_string name, BBoolean b))"
  by (rule append_element [OF append_byte [of heap "if b then 1 else 0"]])
    (simp_all add: astarte_bson_serializer_append_boolean_def enc_elem_def)

lemma append_string:
  assumes "strlen str \<le> 2 ^ 31 - 1"
  shows "appends heap (\<lambda>s. astarte_bson_serializer_append_string heap s name str)
     (enc_elem (c_string name, BString (c_string str)))"
  by (rule append_element [OF appends_seq [OF append_whole [of 4 "le32 (of_nat (strlen str + 1))"]
        append_whole [of "strlen str + 1" "c_string str @ [0]"]]])
    (use assms in \<open>simp_all add: astarte_bson_serializer_append_string_def Let_def to_bytes_defs
      enc_elem_def strlen_def\<close>)

lemma append_binary:
  assumes n: "n \<le> 2 ^ 31 - 1" and v: "case v of None \<Rightarrow> n = 0 | Some b \<Rightarrow> n \<le> length b"
  shows "appends heap (\<lambda>s. astarte_bson_serializer_append_binary heap s name v n)
     (enc_elem (c_string name, BBinary (case v of None \<Rightarrow> [] | Some b \<Rightarrow> take n b)))"
proof (rule append_element [where t = ASTARTE_BSON_TYPE_BINARY])
  let ?b = "case v of None \<Rightarrow> [] | Some b \<Rightarrow> take n b"
  have "appends heap (\<lambda>s. byte_array_append heap s v n) ?b"
    using v append_array_bytes [of n "the v" heap] append_empty [of heap v] by (auto split: option.splits)
  then show "appends heap
      (\<lambda>s. and_then (byte_array_append heap s (Some (uint32_to_bytes (of_nat n))) 4)
        (\<lambda>s. and_then (byte_array_append_byte heap s ASTARTE_BSON_SUBTYPE_DEFAULT_BINARY)
        (\<lambda>s. byte_array_append heap s v n)))
      (le32 (of_nat n) @ [ASTARTE_BSON_SUBTYPE_DEFAULT_BINARY] @ ?b)"
    unfolding uint32_to_bytes_def by (intro appends_seq append_byte append_whole) simp_all
  have "length ?b = n" using v by (auto split: option.splits)
  then show "ASTARTE_BSON_TYPE_BINARY # c_string name @ [0] @
      le32 (of_nat n) @ [ASTARTE_BSON_SUBTYPE_DEFAULT_BINARY] @ ?b = enc_elem (c_string name, BBinary ?b)"
    by (simp add: enc_elem_def)
qed (use n in \<open>simp_all add: astarte_bson_serializer_append_binary_def\<close>)

lemma append_document:
  assumes "length (enc_doc es) < 2 ^ 32"
  shows "appends heap (\<lambda>s. astarte_bson_serializer_append_document heap s name (enc_doc es))
     (enc_elem (c_string name, BDocument es))"
proof -
  have "unat (get_le32 (enc_doc es)) = length (enc_doc es)"
    using assms by (simp add: enc_doc_def frame_doc_def unat_of_nat take_bit_nat_eq_self del: of_nat_add)
  then show ?thesis
    by (intro append_element [OF append_whole [of _ "enc_doc es"]])
      (simp_all add: astarte_bson_serializer_append_document_def enc_elem_def enc_doc_def)
qed

section \<open>The document\<close>

text \<open>\<open>writing s es\<close>: the serializer is open and holds the elements \<open>es\<close>.\<close>

definition writing :: "astarte_bson_serializer_t \<Rightarrow> (byte list \<times> bson_value) list \<Rightarrow> bool" where
  "writing s es \<longleftrightarrow> ser_open s \<and> ser_bytes s = [0, 0, 0, 0] @ enc_elems es"

lemma writing_open: "writing s es \<Longrightarrow> ser_open s"
  by (simp add: writing_def)

lemma writing_extends: "writing s es \<Longrightarrow> extends s s' (enc_elems fs) \<Longrightarrow> writing s' (es @ fs)"
  by (simp add: writing_def extends_def)

lemma writing_elem: "writing s es \<Longrightarrow> extends s s' (enc_elem e) \<Longrightarrow> writing s' (es @ [e])"
  using writing_extends [of s es s' "[e]"] by (simp add: enc_elems_Cons)

lemma init_spec:
  obtains (ok) s' where "astarte_bson_serializer_init heap s = (ASTARTE_RESULT_OK, s')" "writing s' []"
    | (oom) s' where "astarte_bson_serializer_init heap s = (ASTARTE_RESULT_OUT_OF_MEMORY, s')" "\<not> heap 4"
proof (cases "heap 4")
  case True
  then show thesis
    by (intro ok [of "s\<lparr>bs_capacity := 4, bs_size := 4, bs_buf := Some [0, 0, 0, 0], bs_terminated := False\<rparr>"])
      (simp_all add: astarte_bson_serializer_init_def byte_array_init_def astarte_malloc_def writing_def
        ser_open_def ser_ok_def ser_bytes_def)
next
  case False
  then show thesis
    by (intro oom [of "s\<lparr>bs_capacity := 4, bs_size := 4, bs_buf := None\<rparr>"])
      (simp_all add: astarte_bson_serializer_init_def byte_array_init_def astarte_malloc_def)
qed

lemma end_of_document_spec:
  assumes w: "writing s es"
  obtains (ok) s' where
      "astarte_bson_serializer_append_end_of_document heap s = (ASTARTE_RESULT_OK, s')"
      "astarte_bson_serializer_get_serialized s' = Some (enc_doc es, length (enc_doc es))"
      "bs_terminated s'"
    | (oom) s' n where
      "astarte_bson_serializer_append_end_of_document heap s = (ASTARTE_RESULT_OUT_OF_MEMORY, s')"
      "\<not> heap n"
  using append_byte [of heap 0] writing_open [OF w]
proof (cases rule: appends_cases)
  case (ok s1)
  obtain b where b: "bs_buf s1 = Some b" "length b = bs_size s1"
    using ok(2) by (auto simp: extends_def ser_open_def ser_ok_def)
  have bytes: "b = [0, 0, 0, 0] @ enc_elems es @ [0]"
    using ok(2) w b by (simp add: extends_def writing_def ser_bytes_def)
  define s2 where "s2 = (byte_array_replace s1 0 (uint32_to_bytes (of_nat (bs_size s1))) 4)\<lparr>bs_terminated := True\<rparr>"
  have n: "bs_size s1 = length (enc_elems es) + 5"
    using b bytes by simp
  have buf: "bs_buf s2 = Some (enc_doc es)"
    unfolding s2_def n using b bytes by (simp add: byte_array_replace_def uint32_to_bytes_def patch_def enc_doc_def
        frame_doc_def)
  have sz: "bs_size s2 = length (enc_doc es)" "bs_terminated s2"
    using b bytes by (simp_all add: s2_def byte_array_replace_def enc_doc_def)
  show thesis
  proof (rule that(1) [of s2])
    show "astarte_bson_serializer_append_end_of_document heap s = (ASTARTE_RESULT_OK, s2)"
      using ok(1) writing_open [OF w]
      by (simp add: astarte_bson_serializer_append_end_of_document_def s2_def Let_def)
    show "astarte_bson_serializer_get_serialized s2 = Some (enc_doc es, length (enc_doc es))"
      using buf sz by (simp add: astarte_bson_serializer_get_serialized_def)
  qed (rule sz(2))
next
  case (oom s1 n)
  then show thesis using writing_open [OF w]
    by (intro that(2) [of s1 n]) (simp_all add: astarte_bson_serializer_append_end_of_document_def)
qed

section \<open>Arrays\<close>

lemma key_fits:
  assumes "n < 2 ^ 31"
  shows "length (dec_string n) < BSON_ARRAY_SIZE_STR_LEN"
proof -
  have "(2::nat) ^ 31 \<le> 10 ^ Suc 9" by simp
  with assms length_dec_string [of n 9] show ?thesis
    by (simp add: BSON_ARRAY_SIZE_STR_LEN_def)
qed

text \<open>The elements of an array: its values under their decimal indices.\<close>

definition indexed :: "(nat \<Rightarrow> bson_value) \<Rightarrow> nat \<Rightarrow> nat \<Rightarrow> (byte list \<times> bson_value) list" where
  "indexed f i n = map (\<lambda>j. (dec_string j, f j)) [i..<n]"

lemma indexed_step: "i < n \<Longrightarrow> indexed f i n = (dec_string i, f i) # indexed f (Suc i) n"
  by (simp add: indexed_def upt_conv_Cons)

lemma indexed_done [simp]: "n \<le> i \<Longrightarrow> indexed f i n = []"
  by (simp add: indexed_def)

definition array_elems :: "bson_value list \<Rightarrow> (byte list \<times> bson_value) list" where
  "array_elems vs = indexed (nth vs) 0 (length vs)"

lemma length_array_elems [simp]: "length (array_elems vs) = length vs"
  by (simp add: array_elems_def indexed_def)

lemma map_snd_array_elems [simp]: "map snd (array_elems vs) = vs"
  by (simp add: array_elems_def indexed_def comp_def map_nth)

lemma wf_array_elems [simp]: "wf_elems (array_elems vs) \<longleftrightarrow> list_all wf_value vs"
  by (auto simp: array_elems_def indexed_def wf_elems_iff list_all_iff all_set_conv_all_nth
      simp del: in_set_conv_nth)

lemma indexed_cong: "(\<And>j. i \<le> j \<Longrightarrow> j < n \<Longrightarrow> f j = g j) \<Longrightarrow> indexed f i n = indexed g i n"
  by (simp add: indexed_def)

lemma append_array_loop_spec:
  assumes "\<And>j. j < n \<Longrightarrow> appends heap (\<lambda>s. app s (dec_string j) j) (enc_elem (dec_string j, f j))"
    and n: "n < 2 ^ 31"
  shows "appends heap (append_array_loop app n i) (enc_elems (indexed f i n))"
proof (induction "n - i" arbitrary: i)
  case 0
  then show ?case
    by (intro appends_cong [OF appends_nop]) (simp_all add: append_array_loop.simps)
next
  case (Suc k)
  then have i: "i < n" by simp
  have "appends heap (\<lambda>s. and_then (app s (dec_string i) i) (append_array_loop app n (Suc i)))
          (enc_elem (dec_string i, f i) @ enc_elems (indexed f (Suc i) n))"
    using Suc i by (intro appends_seq assms) simp_all
  then show ?case
  proof (rule appends_cong)
    show "append_array_loop app n i s = and_then (app s (dec_string i) i) (append_array_loop app n (Suc i))" for s
      using i n key_fits [of i] by (simp add: append_array_loop.simps [of app n i] not_le)
  qed (simp add: i indexed_step enc_elems_Cons)
qed

lemma append_array_spec:
  assumes app: "\<And>j. j < length vs \<Longrightarrow>
      appends heap (\<lambda>s. app s (dec_string j) j) (enc_elem (dec_string j, vs ! j))"
    and n: "length vs < 2 ^ 31" "count = int (length vs)"
  shows "appends heap (\<lambda>s. append_array heap app s name count)
     (enc_elem (c_string name, BArray (array_elems vs)))"
proof -
  let ?build = "and_then (astarte_bson_serializer_init heap zero_serializer)
        (\<lambda>ser. and_then (append_array_loop app (nat count) 0 ser)
          (astarte_bson_serializer_append_end_of_document heap))"
  have loop: "appends heap (append_array_loop app (length vs) 0) (enc_elems (array_elems vs))"
    unfolding array_elems_def using app n(1) by (rule append_array_loop_spec)
  consider (built) s' where "?build = (ASTARTE_RESULT_OK, s')"
      "astarte_bson_serializer_get_serialized s' =
        Some (enc_doc (array_elems vs), length (enc_doc (array_elems vs)))"
    | (oom) s' m where "?build = (ASTARTE_RESULT_OUT_OF_MEMORY, s')" "\<not> heap m"
  proof (cases rule: init_spec [of heap zero_serializer])
    case (ok s1)
    note init = this
    show ?thesis
      using loop writing_open [OF init(2)]
    proof (cases rule: appends_cases)
      case (ok s2)
      note body = this
      have w: "writing s2 (array_elems vs)"
        using writing_extends [OF init(2) body(2)] by simp
      show ?thesis
        using w
      proof (cases rule: end_of_document_spec [where heap = heap])
        case (ok s3)
        with init body n(2) show ?thesis by (intro built [of s3]) simp_all
      next
        case (oom s3 m)
        with init body n(2) show ?thesis by (intro that(2) [of s3 m]) simp_all
      qed
    next
      case (oom s2 m)
      with init n(2) show ?thesis by (intro that(2) [of s2 m]) simp_all
    qed
  next
    case (oom s1)
    then show ?thesis by (intro that(2) [of s1 4]) simp_all
  qed
  then show ?thesis
  proof cases
    case built
    then show ?thesis
      by (intro append_element [OF append_whole [of _ "enc_doc (array_elems vs)"]])
        (simp_all add: append_array_def enc_elem_def enc_doc_def)
  next
    case (oom s' m)
    then show ?thesis
      by (intro appendsI) (auto simp: append_array_def intro: partly_refl)
  qed
qed

lemma append_double_array:
  assumes "n < 2 ^ 31" "n \<le> length ws"
  shows "appends heap (\<lambda>s. astarte_bson_serializer_append_double_array heap s name ws (int n))
     (enc_elem (c_string name, BArray (array_elems (map BDouble (take n ws)))))"
  unfolding astarte_bson_serializer_append_double_array_def
  by (rule append_array_spec) (use assms append_double [of heap "dec_string j" for j] in simp_all)

lemma append_int32_array:
  assumes "n < 2 ^ 31" "n \<le> length ws"
  shows "appends heap (\<lambda>s. astarte_bson_serializer_append_int32_array heap s name ws (int n))
     (enc_elem (c_string name, BArray (array_elems (map BInt32 (take n ws)))))"
  unfolding astarte_bson_serializer_append_int32_array_def
  by (rule append_array_spec) (use assms append_int32 [of heap "dec_string j" for j] in simp_all)

lemma append_int64_array:
  assumes "n < 2 ^ 31" "n \<le> length ws"
  shows "appends heap (\<lambda>s. astarte_bson_serializer_append_int64_array heap s name ws (int n))
     (enc_elem (c_string name, BArray (array_elems (map BInt64 (take n ws)))))"
  unfolding astarte_bson_serializer_append_int64_array_def
  by (rule append_array_spec) (use assms append_int64 [of heap "dec_string j" for j] in simp_all)

lemma append_datetime_array:
  assumes "n < 2 ^ 31" "n \<le> length ws"
  shows "appends heap (\<lambda>s. astarte_bson_serializer_append_datetime_array heap s name ws (int n))
     (enc_elem (c_string name, BArray (array_elems (map BDatetime (take n ws)))))"
  unfolding astarte_bson_serializer_append_datetime_array_def
  by (rule append_array_spec) (use assms append_datetime [of heap "dec_string j" for j] in simp_all)

lemma append_boolean_array:
  assumes "n < 2 ^ 31" "n \<le> length ws"
  shows "appends heap (\<lambda>s. astarte_bson_serializer_append_boolean_array heap s name ws (int n))
     (enc_elem (c_string name, BArray (array_elems (map BBoolean (take n ws)))))"
  unfolding astarte_bson_serializer_append_boolean_array_def
  by (rule append_array_spec) (use assms append_boolean [of heap "dec_string j" for j] in simp_all)

lemma append_string_array:
  assumes "n < 2 ^ 31" "n \<le> length ws" "\<And>str. str \<in> set (take n ws) \<Longrightarrow> strlen str \<le> 2 ^ 31 - 1"
  shows "appends heap (\<lambda>s. astarte_bson_serializer_append_string_array heap s name ws (int n))
     (enc_elem (c_string name, BArray (array_elems (map (BString \<circ> c_string) (take n ws)))))"
  unfolding astarte_bson_serializer_append_string_array_def
proof (rule append_array_spec)
  show "appends heap (\<lambda>s. astarte_bson_serializer_append_string heap s (dec_string j) (ws ! j))
      (enc_elem (dec_string j, map (BString \<circ> c_string) (take n ws) ! j))"
    if "j < length (map (BString \<circ> c_string) (take n ws))" for j
  proof -
    have "ws ! j \<in> set (take n ws)"
      using that assms(2) by (metis length_map nth_mem nth_take length_take min_less_iff_conj)
    with that assms append_string [of "ws ! j" heap "dec_string j"] show ?thesis by simp
  qed
qed (use assms in simp_all)

lemma append_binary_array:
  assumes "n < 2 ^ 31" "n \<le> length bs" "n \<le> length sizes"
    and sizes: "\<And>j. j < n \<Longrightarrow> sizes ! j \<le> 2 ^ 31 - 1 \<and> sizes ! j \<le> length (bs ! j)"
  shows "appends heap (\<lambda>s. astarte_bson_serializer_append_binary_array heap s name (map Some bs) sizes (int n))
     (enc_elem (c_string name, BArray (array_elems (map (\<lambda>j. BBinary (take (sizes ! j) (bs ! j))) [0..<n]))))"
  unfolding astarte_bson_serializer_append_binary_array_def
proof (rule append_array_spec)
  show "appends heap (\<lambda>s. astarte_bson_serializer_append_binary heap s (dec_string j) (map Some bs ! j) (sizes ! j))
      (enc_elem (dec_string j, map (\<lambda>j. BBinary (take (sizes ! j) (bs ! j))) [0..<n] ! j))"
    if "j < length (map (\<lambda>j. BBinary (take (sizes ! j) (bs ! j))) [0..<n])" for j
    using that assms(2) sizes [of j] append_binary [of "sizes ! j" "Some (bs ! j)" heap "dec_string j"] by simp
qed (use assms in simp_all)

end
