(* ===== verification/Bson_Safe.thy ===== *)
theory Bson_Safe
  imports Bson_Deserializer
begin

text \<open>
  Memory safety of the deserializer.  A document whose header lies in the memory it was read from is
  walked element by element, and into nested documents, without a read outside that memory; every
  element handed out has its name and its value inside it.
\<close>

section \<open>Documents and elements inside the memory\<close>

definition doc_in :: "byte list \<Rightarrow> astarte_bson_document_t \<Rightarrow> bool" where
  "doc_in mem d \<longleftrightarrow>
     (case doc_list d of
        None \<Rightarrow> unat (doc_size d) < 5
      | Some l \<Rightarrow> unat (doc_size d) = unat (doc_list_size d) + 5 \<and>
                  l + unat (doc_list_size d) < length mem)"

text \<open>The bytes of the value of an element, header included.\<close>

definition fixed_size :: "u8 \<Rightarrow> nat option" where
  "fixed_size t =
     (if t = ASTARTE_BSON_TYPE_DOUBLE \<or> t = ASTARTE_BSON_TYPE_DATETIME \<or> t = ASTARTE_BSON_TYPE_INT64 then Some 8
      else if t = ASTARTE_BSON_TYPE_INT32 then Some 4
      else if t = ASTARTE_BSON_TYPE_BOOLEAN then Some 1 else None)"

definition el_in :: "byte list \<Rightarrow> astarte_bson_document_t \<Rightarrow> astarte_bson_element_t \<Rightarrow> bool" where
  "el_in mem d e \<longleftrightarrow>
     doc_in mem d \<and> el_name e + el_name_len e + 1 = el_value e \<and>
     (\<exists>l n. doc_list d = Some l \<and> l < el_name e \<and>
        get_element_value_size mem d (el_type e) (el_value e) = Some (Inr n) \<and>
        el_value e + n \<le> l + unat (doc_list_size d))"

lemma within_bounds_iff:
  "is_within_bounds d p n \<longleftrightarrow>
     (\<exists>l. doc_list d = Some l \<and> l \<le> p \<and> p + n \<le> l + unat (doc_list_size d))"
  by (auto simp: is_within_bounds_def Let_def split: option.splits)

lemma rd_le32_in: "p + 4 \<le> length mem \<Longrightarrow> \<exists>w. rd_le32 mem p = Some w"
  by (simp add: rd_le32_def)

lemma rd8_in: "p < length mem \<Longrightarrow> \<exists>b. rd8 mem p = Some b"
  by (simp add: rd8_def)

lemma within_rd32:
  assumes "doc_in mem d" "is_within_bounds d p 4"
  obtains w where "rd_le32 mem p = Some w"
  using assms rd_le32_in [of p mem] by (auto simp: within_bounds_iff doc_in_def)

text \<open>The size of a value is always computed, or the element is rejected.\<close>

lemma value_size_total:
  assumes "doc_in mem d"
  shows "\<exists>r. get_element_value_size mem d t p = Some r"
proof (cases "is_within_bounds d p 4")
  case True
  then obtain w where "rd_le32 mem p = Some w"
    using assms within_rd32 by blast
  then show ?thesis by (simp add: get_element_value_size_def)
next
  case False
  then show ?thesis by (simp add: get_element_value_size_def)
qed

lemma strnlen_total: "p + n \<le> length mem \<Longrightarrow> \<exists>k. strnlen mem p n = Some k \<and> k \<le> n"
proof (induction n arbitrary: p)
  case (Suc n)
  then have p: "p < length mem" and rest: "p + 1 + n \<le> length mem" by simp_all
  obtain b where b: "rd8 mem p = Some b" using rd8_in [OF p] by blast
  from Suc.IH [OF rest] obtain k where "strnlen mem (p + 1) n = Some k" "k \<le> n" by blast
  with b show ?case by simp
qed simp

lemma read_element_safe:
  assumes d: "doc_in mem d" "doc_list d = Some l"
    and start: "l \<le> start" "start + 1 + m = l + unat (doc_list_size d)"
  obtains (bad) "read_element mem d t start m = Some (Inl ASTARTE_RESULT_INTERNAL_ERROR)"
    | (good) e where "read_element mem d t start m = Some (Inr e)" "el_in mem d e"
        "el_type e = t" "el_name e = start + 1"
proof -
  have "start + 1 + m \<le> length mem"
    using d start by (simp add: doc_in_def)
  then obtain k where k: "strnlen mem (start + 1) m = Some k"
    using strnlen_total by blast
  obtain r where r: "get_element_value_size mem d t (start + 1 + k + 1) = Some r"
    using value_size_total [OF d(1)] by blast
  show thesis
  proof (cases "k + 1 > m")
    case True
    then show thesis using k by (intro bad) (simp add: read_element_def)
  next
    case False
    show thesis
    proof (cases r)
      case (Inl a)
      then show thesis using k r False by (intro bad) (simp add: read_element_def or_internal_def)
    next
      case (Inr n)
      show thesis
      proof (cases "is_within_bounds d (start + 1 + k + 1) n")
        case False
        then show thesis using k r Inr \<open>\<not> k + 1 > m\<close>
          by (intro bad) (simp add: read_element_def or_internal_def)
      next
        case True
        define e where "e = \<lparr>el_type = t, el_name = start + 1, el_name_len = k, el_value = start + 1 + k + 1\<rparr>"
        have "read_element mem d t start m = Some (Inr e)"
          using k r Inr True \<open>\<not> k + 1 > m\<close> by (simp add: read_element_def or_internal_def e_def)
        moreover have "el_in mem d e"
          using d start r Inr True by (auto simp: el_in_def e_def within_bounds_iff)
        moreover have "el_type e = t" "el_name e = start + 1"
          unfolding e_def by simp_all
        ultimately show thesis by (rule good)
      qed
    qed
  qed
qed

section \<open>The walk\<close>

lemma first_element_safe:
  assumes "doc_in mem d"
  obtains (stop) r where "astarte_bson_deserializer_first_element mem d = Some (Inl r)"
      "r = ASTARTE_RESULT_NOT_FOUND \<or> r = ASTARTE_RESULT_INTERNAL_ERROR"
    | (elem) e where "astarte_bson_deserializer_first_element mem d = Some (Inr e)" "el_in mem d e"
proof (cases "doc_size d \<le> 5 \<or> doc_list_size d < 1")
  case True
  then show thesis
    by (intro stop [of "if doc_size d \<le> 5 then ASTARTE_RESULT_NOT_FOUND else ASTARTE_RESULT_INTERNAL_ERROR"])
      (auto simp: astarte_bson_deserializer_first_element_def)
next
  case False
  then have gt: "5 < unat (doc_size d)" and pos: "0 < unat (doc_list_size d)"
    by (simp_all add: word_le_nat_alt word_less_nat_alt)
  then obtain l where l: "doc_list d = Some l" "l + unat (doc_list_size d) < length mem"
    using assms by (auto simp: doc_in_def split: option.splits)
  then obtain t where t: "rd8 mem l = Some t"
    using rd8_in [of l mem] by auto
  have run: "astarte_bson_deserializer_first_element mem d =
      read_element mem d t l (unat (doc_list_size d) - 1)"
    using False l t by (simp add: astarte_bson_deserializer_first_element_def)
  have "l + 1 + (unat (doc_list_size d) - 1) = l + unat (doc_list_size d)"
    using pos by simp
  from read_element_safe [OF assms l(1) order_refl this, of t] show thesis
    by (cases) (auto intro: stop elem simp: run)
qed

lemma next_element_safe:
  assumes e: "el_in mem d e"
  obtains (stop) r where "astarte_bson_deserializer_next_element mem d e = Some (Inl r)"
      "r = ASTARTE_RESULT_NOT_FOUND \<or> r = ASTARTE_RESULT_INTERNAL_ERROR"
    | (elem) e' where "astarte_bson_deserializer_next_element mem d e = Some (Inr e')" "el_in mem d e'"
proof -
  obtain l n where d: "doc_in mem d" and l: "doc_list d = Some l" "l < el_value e"
      and n: "get_element_value_size mem d (el_type e) (el_value e) = Some (Inr n)"
        "el_value e + n \<le> l + unat (doc_list_size d)"
    using e by (auto simp: el_in_def)
  have inside: "is_within_bounds d (el_value e) n"
    using l n by (auto simp: within_bounds_iff)
  define q where "q = el_value e + n"
  show thesis
  proof (cases "q \<ge> l + unat (doc_list_size d)")
    case True
    then show thesis using l n inside
      by (intro stop [of ASTARTE_RESULT_NOT_FOUND])
        (simp_all add: astarte_bson_deserializer_next_element_def or_internal_def q_def)
  next
    case False
    then have "q < length mem" using d l by (simp add: doc_in_def)
    then obtain t where t: "rd8 mem q = Some t" using rd8_in by blast
    show thesis
    proof (cases "t = 0")
      case True
      then show thesis using l n inside t False
        by (intro stop [of ASTARTE_RESULT_NOT_FOUND])
          (simp_all add: astarte_bson_deserializer_next_element_def or_internal_def q_def)
    next
      case t0: False
      have off: "l \<le> q" "q + 1 + (unat (doc_list_size d) - (q - l) - 1) = l + unat (doc_list_size d)"
        using l False by (auto simp: q_def)
      have "\<not> unat (doc_list_size d) < q - l + 1"
        using l False by (auto simp: q_def)
      then have run: "astarte_bson_deserializer_next_element mem d e =
          read_element mem d t q (unat (doc_list_size d) - (q - l) - 1)"
        using l n inside t t0 False
        by (simp add: astarte_bson_deserializer_next_element_def or_internal_def Let_def flip: q_def)
      from read_element_safe [OF d l(1) off, of t] show thesis
        by (cases) (auto intro: stop elem simp: run)
    qed
  qed
qed

lemma count_loop_safe: "el_in mem d e \<Longrightarrow> \<exists>r. count_loop mem d e k = Some r"
proof (induction mem d e k rule: count_loop.induct)
  case (1 mem d e k)
  show ?case
    using "1.prems"
  proof (cases rule: next_element_safe)
    case (stop r)
    then show ?thesis by (subst count_loop.simps) auto
  next
    case (elem e')
    then show ?thesis using "1.IH" by (subst count_loop.simps) auto
  qed
qed

lemma count_safe:
  assumes "doc_in mem d"
  shows "\<exists>r. astarte_bson_deserializer_doc_count_elements mem d = Some r"
  using assms
proof (cases rule: first_element_safe)
  case (elem e)
  then show ?thesis using count_loop_safe [of mem d e 1]
    by (simp add: astarte_bson_deserializer_doc_count_elements_def)
qed (simp add: astarte_bson_deserializer_doc_count_elements_def)

lemma strncmp_mem_total: "p + n \<le> length mem \<Longrightarrow> \<exists>r. strncmp_mem mem key p n = Some r"
proof (induction n arbitrary: p key)
  case (Suc n)
  then have p: "p < length mem" and rest: "p + 1 + n \<le> length mem" by simp_all
  obtain b where b: "rd8 mem p = Some b" using rd8_in [OF p] by blast
  from Suc.IH [OF rest, of "tl key"] obtain r where "strncmp_mem mem (tl key) (p + 1) n = Some r" by blast
  with b show ?case by (auto simp: Let_def)
qed auto

lemma el_name_in: "el_in mem d e \<Longrightarrow> el_name e + (el_name_len e + 1) \<le> length mem"
  by (auto simp: el_in_def doc_in_def)

lemma lookup_loop_safe:
  "el_in mem d e \<Longrightarrow> \<exists>r. lookup_loop mem d key e = Some r \<and> (\<forall>e'. r = Inr e' \<longrightarrow> el_in mem d e')"
proof (induction mem d key e rule: lookup_loop.induct)
  case (1 mem d key e)
  obtain b where b: "strncmp_mem mem key (el_name e) (el_name_len e + 1) = Some b"
    using strncmp_mem_total el_name_in [OF "1.prems"] by blast
  show ?case
  proof (cases b)
    case True
    then show ?thesis using b "1.prems" by (subst lookup_loop.simps) simp
  next
    case False
    show ?thesis
      using "1.prems"
    proof (cases rule: next_element_safe)
      case (stop r)
      then show ?thesis using b False by (subst lookup_loop.simps) simp
    next
      case (elem e')
      then show ?thesis using b False "1.IH" [of False "Inr e'" e'] by (subst lookup_loop.simps) simp
    qed
  qed
qed

lemma lookup_safe:
  assumes "doc_in mem d"
  shows "\<exists>r. astarte_bson_deserializer_element_lookup mem d key = Some r \<and> (\<forall>e. r = Inr e \<longrightarrow> el_in mem d e)"
  using assms
proof (cases rule: first_element_safe)
  case (stop r)
  then show ?thesis by (simp add: astarte_bson_deserializer_element_lookup_def out_bind_def)
next
  case (elem e)
  then show ?thesis using lookup_loop_safe [of mem d e key]
    by (simp add: astarte_bson_deserializer_element_lookup_def out_bind_def)
qed

section \<open>Values\<close>

lemma init_doc_in:
  assumes "p + 4 \<le> length mem" "p + unat (get_le32 (drop p mem)) \<le> length mem"
  obtains d where "astarte_bson_deserializer_init_doc mem (Some p) = Some d" "doc_in mem d"
    "doc_size d = get_le32 (drop p mem)"
proof -
  define n where "n = (get_le32 (drop p mem) :: u32)"
  have rd: "rd_le32 mem p = Some n"
    using assms by (simp add: rd_le32_def n_def)
  show thesis
  proof (cases "n \<ge> 5")
    case True
    then have le: "(5::u32) \<le> n" "5 \<le> unat n" by (simp_all add: word_le_nat_alt)
    have "unat (n - 5) = unat n - 5"
      using unat_sub [OF le(1)] by simp
    moreover have "p + unat n \<le> length mem" using assms by (simp add: n_def)
    ultimately show thesis using rd le
      by (intro that [of "\<lparr>doc_size = n, doc_list = Some (p + 4), doc_list_size = n - 4 - 1\<rparr>"])
        (simp_all add: astarte_bson_deserializer_init_doc_def doc_in_def n_def)
  next
    case False
    then show thesis using rd
      by (intro that [of "\<lparr>doc_size = n, doc_list = None, doc_list_size = 0\<rparr>"])
        (simp_all add: astarte_bson_deserializer_init_doc_def doc_in_def n_def word_le_nat_alt)
  qed
qed

text \<open>The value of an element as far as the end of the memory.\<close>

lemma el_in_value:
  assumes "el_in mem d e"
  obtains n where "get_element_value_size mem d (el_type e) (el_value e) = Some (Inr n)"
    "el_value e + n \<le> length mem"
  using assms by (auto simp: el_in_def doc_in_def)

lemma value_size_counted:
  assumes "get_element_value_size mem d t p = Some (Inr n)" "doc_in mem d"
    and "t = ASTARTE_BSON_TYPE_STRING \<or> t = ASTARTE_BSON_TYPE_ARRAY \<or> t = ASTARTE_BSON_TYPE_DOCUMENT
      \<or> t = ASTARTE_BSON_TYPE_BINARY"
  shows "p + 4 \<le> length mem" "rd_le32 mem p = Some (get_le32 (drop p mem))"
    "n = unat (get_le32 (drop p mem) :: u32) +
       (if t = ASTARTE_BSON_TYPE_STRING then 4 else if t = ASTARTE_BSON_TYPE_BINARY then 5 else 0)"
proof -
  have w: "is_within_bounds d p 4"
    using assms(1,3) by (auto simp: get_element_value_size_def bson_type_bytes split: if_splits)
  then show p: "p + 4 \<le> length mem"
    using assms(2) by (auto simp: within_bounds_iff doc_in_def)
  then show rd: "rd_le32 mem p = Some (get_le32 (drop p mem))"
    by (simp add: rd_le32_def)
  show "n = unat (get_le32 (drop p mem) :: u32) +
       (if t = ASTARTE_BSON_TYPE_STRING then 4 else if t = ASTARTE_BSON_TYPE_BINARY then 5 else 0)"
    using assms(1,3) w rd by (auto simp: get_element_value_size_def bson_type_bytes split: if_splits)
qed

lemma string_in:
  assumes "el_in mem d e" "el_type e = ASTARTE_BSON_TYPE_STRING"
  obtains p len where "astarte_bson_deserializer_element_to_string mem e = Some (p, len)"
    "p + unat len \<le> length mem"
  using assms(1)
proof (rule el_in_value)
  fix n
  assume n: "get_element_value_size mem d (el_type e) (el_value e) = Some (Inr n)"
    "el_value e + n \<le> length mem"
  have d: "doc_in mem d" using assms by (simp add: el_in_def)
  note sz = value_size_counted [OF n(1) d] and t = assms(2)
  define w where "w = (get_le32 (drop (el_value e) mem) :: u32)"
  have "unat (if w \<ge> 1 then w - 1 else 0) \<le> unat w"
    by (simp add: unat_sub word_le_nat_alt)
  then show thesis
    using sz t n(2)
    by (intro that [of "el_value e + 4" "if w \<ge> 1 then w - 1 else 0"])
      (simp_all add: astarte_bson_deserializer_element_to_string_def flip: w_def)
qed

lemma binary_in:
  assumes "el_in mem d e" "el_type e = ASTARTE_BSON_TYPE_BINARY"
  obtains p len where "astarte_bson_deserializer_element_to_binary mem e = Some (p, len)"
    "p + unat len \<le> length mem"
  using assms(1)
proof (rule el_in_value)
  fix n
  assume n: "get_element_value_size mem d (el_type e) (el_value e) = Some (Inr n)"
    "el_value e + n \<le> length mem"
  have d: "doc_in mem d" using assms by (simp add: el_in_def)
  note sz = value_size_counted [OF n(1) d]
  have "el_value e + 4 + 1 + unat (get_le32 (drop (el_value e) mem) :: u32) \<le> length mem"
    using sz(3) n(2) assms(2) by (simp add: bson_type_bytes)
  then show thesis
    using sz(2) assms(2)
    by (intro that) (simp_all add: astarte_bson_deserializer_element_to_binary_def)
qed

lemma nested_in:
  assumes "el_in mem d e" "el_type e = ASTARTE_BSON_TYPE_DOCUMENT \<or> el_type e = ASTARTE_BSON_TYPE_ARRAY"
  obtains d' where "astarte_bson_deserializer_element_to_document mem e = Some d'"
    "astarte_bson_deserializer_element_to_array mem e = Some d'" "doc_in mem d'"
  using assms(1)
proof (rule el_in_value)
  fix n
  assume n: "get_element_value_size mem d (el_type e) (el_value e) = Some (Inr n)"
    "el_value e + n \<le> length mem"
  have d: "doc_in mem d" using assms by (simp add: el_in_def)
  have "el_value e + 4 \<le> length mem" "el_value e + unat (get_le32 (drop (el_value e) mem) :: u32) \<le> length mem"
    using value_size_counted [OF n(1) d] assms(2) n(2) by (auto simp: bson_type_bytes)
  then show thesis
    by (rule init_doc_in)
      (simp add: that astarte_bson_deserializer_element_to_document_def
        astarte_bson_deserializer_element_to_array_def)
qed

text \<open>\<open>value_readable mem e\<close>: the accessor for the type of \<open>e\<close> reads inside the memory.\<close>

definition value_readable :: "byte list \<Rightarrow> astarte_bson_element_t \<Rightarrow> bool" where
  "value_readable mem e \<longleftrightarrow>
     (let t = el_type e in
      (t = ASTARTE_BSON_TYPE_DOUBLE \<longrightarrow> astarte_bson_deserializer_element_to_double mem e \<noteq> None) \<and>
      (t = ASTARTE_BSON_TYPE_DATETIME \<longrightarrow> astarte_bson_deserializer_element_to_datetime mem e \<noteq> None) \<and>
      (t = ASTARTE_BSON_TYPE_INT64 \<longrightarrow> astarte_bson_deserializer_element_to_int64 mem e \<noteq> None) \<and>
      (t = ASTARTE_BSON_TYPE_INT32 \<longrightarrow> astarte_bson_deserializer_element_to_int32 mem e \<noteq> None) \<and>
      (t = ASTARTE_BSON_TYPE_BOOLEAN \<longrightarrow> astarte_bson_deserializer_element_to_bool mem e \<noteq> None) \<and>
      (t = ASTARTE_BSON_TYPE_STRING \<longrightarrow>
         (\<exists>p len. astarte_bson_deserializer_element_to_string mem e = Some (p, len) \<and>
                  p + unat len \<le> length mem)) \<and>
      (t = ASTARTE_BSON_TYPE_BINARY \<longrightarrow>
         (\<exists>p len. astarte_bson_deserializer_element_to_binary mem e = Some (p, len) \<and>
                  p + unat len \<le> length mem)) \<and>
      (t = ASTARTE_BSON_TYPE_DOCUMENT \<or> t = ASTARTE_BSON_TYPE_ARRAY \<longrightarrow>
         (\<exists>d. astarte_bson_deserializer_element_to_document mem e = Some d \<and>
              astarte_bson_deserializer_element_to_array mem e = Some d)))"

lemma value_size_fixed:
  "fixed_size t = Some k \<Longrightarrow> get_element_value_size mem d t p = Some (Inr k)"
  by (cases "t = ASTARTE_BSON_TYPE_DOUBLE \<or> t = ASTARTE_BSON_TYPE_DATETIME \<or> t = ASTARTE_BSON_TYPE_INT64";
      cases "t = ASTARTE_BSON_TYPE_INT32"; cases "t = ASTARTE_BSON_TYPE_BOOLEAN")
    (simp_all add: fixed_size_def get_element_value_size_def)

lemma fixed_in:
  assumes "el_in mem d e" "fixed_size (el_type e) = Some k"
  shows "el_value e + k \<le> length mem"
  using assms(1) by (rule el_in_value) (simp add: value_size_fixed [OF assms(2)])

lemma el_in_readable:
  assumes e: "el_in mem d e"
  shows "value_readable mem e"
  unfolding value_readable_def Let_def
proof (intro conjI impI)
  assume t: "el_type e = ASTARTE_BSON_TYPE_STRING"
  from e t show "\<exists>p len. astarte_bson_deserializer_element_to_string mem e = Some (p, len) \<and>
      p + unat len \<le> length mem"
    by (rule string_in) blast
next
  assume t: "el_type e = ASTARTE_BSON_TYPE_BINARY"
  from e t show "\<exists>p len. astarte_bson_deserializer_element_to_binary mem e = Some (p, len) \<and>
      p + unat len \<le> length mem"
    by (rule binary_in) blast
next
  assume t: "el_type e = ASTARTE_BSON_TYPE_DOCUMENT \<or> el_type e = ASTARTE_BSON_TYPE_ARRAY"
  from e t show "\<exists>d. astarte_bson_deserializer_element_to_document mem e = Some d \<and>
      astarte_bson_deserializer_element_to_array mem e = Some d"
    by (rule nested_in) blast
next
  show "el_type e = ASTARTE_BSON_TYPE_DOUBLE \<Longrightarrow> astarte_bson_deserializer_element_to_double mem e \<noteq> None"
    "el_type e = ASTARTE_BSON_TYPE_DATETIME \<Longrightarrow> astarte_bson_deserializer_element_to_datetime mem e \<noteq> None"
    "el_type e = ASTARTE_BSON_TYPE_INT64 \<Longrightarrow> astarte_bson_deserializer_element_to_int64 mem e \<noteq> None"
    using fixed_in [OF e, of 8]
    by (simp_all add: fixed_size_def rd_le64_def astarte_bson_deserializer_element_to_double_def
        astarte_bson_deserializer_element_to_datetime_def astarte_bson_deserializer_element_to_int64_def)
  show "el_type e = ASTARTE_BSON_TYPE_INT32 \<Longrightarrow> astarte_bson_deserializer_element_to_int32 mem e \<noteq> None"
    using fixed_in [OF e, of 4]
    by (simp add: fixed_size_def rd_le32_def astarte_bson_deserializer_element_to_int32_def bson_type_bytes)
  show "el_type e = ASTARTE_BSON_TYPE_BOOLEAN \<Longrightarrow> astarte_bson_deserializer_element_to_bool mem e \<noteq> None"
    using fixed_in [OF e, of 1]
    by (simp add: fixed_size_def rd8_def astarte_bson_deserializer_element_to_bool_def bson_type_bytes)
qed

section \<open>The entry check\<close>

lemma check_validity_total:
  assumes "p + n \<le> length mem"
  shows "astarte_bson_deserializer_check_validity mem (Some p) n \<noteq> None"
proof (cases "n < 5")
  case True
  then show ?thesis by (simp add: astarte_bson_deserializer_check_validity_def)
next
  case False
  define w where "w = (get_le32 (drop p mem) :: u32)"
  have rd: "rd_le32 mem p = Some w"
    using assms False by (simp add: rd_le32_def w_def)
  show ?thesis
  proof (cases "w \<ge> 5 \<and> unat w \<le> n")
    case True
    then have w: "5 \<le> unat w" "unat w \<le> n" by (simp_all add: word_le_nat_alt)
    obtain a where "rd8 mem (p + 4 + (unat w - 4) - 1) = Some a"
      using rd8_in [of "p + 4 + (unat w - 4) - 1" mem] w assms by force
    moreover obtain b where "rd8 mem (p + 4) = Some b"
      using rd8_in [of "p + 4" mem] assms False by auto
    ultimately show ?thesis
      using rd True False
      by (simp add: astarte_bson_deserializer_check_validity_def astarte_bson_deserializer_init_doc_def ex_bool_eq)
  next
    case wrong: False
    then show ?thesis
      using rd False
      by (auto simp: astarte_bson_deserializer_check_validity_def astarte_bson_deserializer_init_doc_def ex_bool_eq)
  qed
qed

lemma check_validity_doc:
  assumes "astarte_bson_deserializer_check_validity mem (Some p) n = Some True" "p + n \<le> length mem"
  obtains d where "astarte_bson_deserializer_init_doc mem (Some p) = Some d" "doc_in mem d"
    "doc_list d \<noteq> None"
proof -
  have n: "5 \<le> n"
    using assms(1) by (rule_tac ccontr) (simp add: astarte_bson_deserializer_check_validity_def)
  then obtain d where d: "astarte_bson_deserializer_init_doc mem (Some p) = Some d"
    using assms(2) by (auto simp: astarte_bson_deserializer_init_doc_def rd_le32_def)
  then have fits: "unat (doc_size d) \<le> n" and l: "doc_list d \<noteq> None"
    using assms(1) n
    by (auto simp: astarte_bson_deserializer_check_validity_def split: if_splits option.splits)
  have sz: "doc_size d = get_le32 (drop p mem)"
    using d n assms(2)
    by (auto simp: astarte_bson_deserializer_init_doc_def rd_le32_def split: if_splits)
  have "p + 4 \<le> length mem" "p + unat (get_le32 (drop p mem) :: u32) \<le> length mem"
    using fits sz n assms(2) by simp_all
  then obtain d' where "astarte_bson_deserializer_init_doc mem (Some p) = Some d'" "doc_in mem d'"
    using init_doc_in by blast
  with d l show thesis by (intro that [of d]) simp_all
qed

section \<open>Everything a traversal can reach\<close>

text \<open>
  The documents and elements a client can reach from a root document with the operations of the
  deserializer.
\<close>

inductive visits_doc :: "byte list \<Rightarrow> astarte_bson_document_t \<Rightarrow> astarte_bson_document_t \<Rightarrow> bool"
  and visits :: "byte list \<Rightarrow> astarte_bson_document_t \<Rightarrow> astarte_bson_document_t \<Rightarrow> astarte_bson_element_t \<Rightarrow> bool"
  for mem :: "byte list" and root :: astarte_bson_document_t where
  visit_root: "visits_doc mem root root"
| visit_first: "visits_doc mem root d \<Longrightarrow>
    astarte_bson_deserializer_first_element mem d = Some (Inr e) \<Longrightarrow> visits mem root d e"
| visit_next: "visits mem root d e \<Longrightarrow>
    astarte_bson_deserializer_next_element mem d e = Some (Inr e') \<Longrightarrow> visits mem root d e'"
| visit_lookup: "visits_doc mem root d \<Longrightarrow>
    astarte_bson_deserializer_element_lookup mem d key = Some (Inr e) \<Longrightarrow> visits mem root d e"
| visit_document: "visits mem root d e \<Longrightarrow> el_type e = ASTARTE_BSON_TYPE_DOCUMENT \<Longrightarrow>
    astarte_bson_deserializer_element_to_document mem e = Some d' \<Longrightarrow> visits_doc mem root d'"
| visit_array: "visits mem root d e \<Longrightarrow> el_type e = ASTARTE_BSON_TYPE_ARRAY \<Longrightarrow>
    astarte_bson_deserializer_element_to_array mem e = Some d' \<Longrightarrow> visits_doc mem root d'"

lemma visits_in:
  assumes root: "doc_in mem root"
  shows "visits_doc mem root d \<Longrightarrow> doc_in mem d"
    and "visits mem root d e \<Longrightarrow> el_in mem d e"
proof (induction rule: visits_doc_visits.inducts)
  case (visit_first d e)
  from visit_first(2) show ?case
    by (rule first_element_safe) (use visit_first in simp_all)
next
  case (visit_next d e e')
  from visit_next(2) show ?case
    by (rule next_element_safe) (use visit_next in simp_all)
next
  case (visit_lookup d key e)
  from lookup_safe [OF visit_lookup(2), of key] show ?case
    using visit_lookup by auto
next
  case (visit_document d e d')
  from visit_document(2) show ?case
    by (rule nested_in) (use visit_document in simp_all)
next
  case (visit_array d e d')
  from visit_array(2) show ?case
    by (rule nested_in) (use visit_array in simp_all)
qed (rule root)

end
