(* ===== verification/Bson_Roundtrip.thy ===== *)
theory Bson_Roundtrip
  imports Bson_Safe
begin

text \<open>
  The deserializer reads what the encoding defines: on the image of a document it yields the
  elements one after the other, with their names and values, finds an element by name, counts them,
  and stops at the end.
\<close>

section \<open>Images in memory\<close>

definition bytes_at :: "byte list \<Rightarrow> nat \<Rightarrow> byte list \<Rightarrow> bool" where
  "bytes_at mem p bs \<longleftrightarrow> p + length bs \<le> length mem \<and> take (length bs) (drop p mem) = bs"

lemma bytes_at_split: "bytes_at mem p bs \<longleftrightarrow> (\<exists>pre post. mem = pre @ bs @ post \<and> length pre = p)"
proof
  assume "bytes_at mem p bs"
  then have "mem = take p mem @ bs @ drop (length bs) (drop p mem)" "length (take p mem) = p"
    by (auto simp: bytes_at_def) (metis append_take_drop_id drop_drop)
  then show "\<exists>pre post. mem = pre @ bs @ post \<and> length pre = p" by blast
qed (auto simp: bytes_at_def)

lemma bytes_at_append [simp]:
  "bytes_at mem p (a @ b) \<longleftrightarrow> bytes_at mem p a \<and> bytes_at mem (p + length a) b"
proof
  assume "bytes_at mem p (a @ b)"
  then obtain pre post where "mem = pre @ a @ b @ post" "length pre = p"
    by (auto simp: bytes_at_split)
  then show "bytes_at mem p a \<and> bytes_at mem (p + length a) b"
    by (auto simp: bytes_at_def)
next
  assume ab: "bytes_at mem p a \<and> bytes_at mem (p + length a) b"
  then obtain pre post where mem: "mem = pre @ a @ post" "length pre = p"
    by (auto simp: bytes_at_split)
  with ab show "bytes_at mem p (a @ b)"
    by (auto simp: bytes_at_def)
qed

lemma bytes_at_Cons:
  "bytes_at mem p (b # bs) \<longleftrightarrow> p < length mem \<and> mem ! p = b \<and> bytes_at mem (Suc p) bs"
proof -
  have "bytes_at mem p [b] \<longleftrightarrow> p < length mem \<and> mem ! p = b"
    by (auto simp: bytes_at_def take_Suc hd_drop_conv_nth Cons_nth_drop_Suc [symmetric])
  then show ?thesis
    using bytes_at_append [of mem p "[b]" bs] by simp
qed

lemma bytes_at_prefix [simp]: "bytes_at (pre @ bs @ post) (length pre) bs"
  by (auto simp: bytes_at_split)

lemma bytes_at_le: "bytes_at mem p bs \<Longrightarrow> p + length bs \<le> length mem"
  by (simp add: bytes_at_def)

lemma bytes_at_rd8: "bytes_at mem p [b] \<Longrightarrow> rd8 mem p = Some b"
  by (simp add: bytes_at_Cons rd8_def)

lemma bytes_at_rd_le32: "bytes_at mem p (le32 w) \<Longrightarrow> rd_le32 mem p = Some w"
  by (auto simp: bytes_at_split rd_le32_def)

lemma bytes_at_rd_le64: "bytes_at mem p (le64 w) \<Longrightarrow> rd_le64 mem p = Some w"
  by (auto simp: bytes_at_split rd_le64_def)

lemma bytes_at_get_le32: "bytes_at mem p (le32 w) \<Longrightarrow> get_le32 (drop p mem) = w"
  by (auto simp: bytes_at_split)

lemma bytes_at_strnlen:
  "bytes_at mem p (n @ [0]) \<Longrightarrow> nul_free n \<Longrightarrow> length n < m \<Longrightarrow> strnlen mem p m = Some (length n)"
proof (induction n arbitrary: p m)
  case Nil
  then show ?case by (cases m) (simp_all add: bytes_at_rd8)
next
  case (Cons b n)
  then obtain m' where m: "m = Suc m'" "length n < m'" by (cases m) auto
  have "rd8 mem p = Some b" "b \<noteq> 0"
    using Cons.prems by (auto simp: bytes_at_Cons rd8_def nul_free_def)
  moreover have "strnlen mem (p + 1) m' = Some (length n)"
    using Cons.prems m by (intro Cons.IH) (auto simp: bytes_at_Cons nul_free_def)
  ultimately show ?case using m by simp
qed

lemma bytes_at_strncmp:
  "bytes_at mem p (n @ [0]) \<Longrightarrow> nul_free n \<Longrightarrow> nul_free key \<Longrightarrow>
   strncmp_mem mem key p (length n + 1) = Some (key = n)"
proof (induction n arbitrary: p key)
  case Nil
  then show ?case
    by (cases key) (auto simp: bytes_at_Cons rd8_def nul_free_def)
next
  case (Cons b n)
  have b: "rd8 mem p = Some b" "b \<noteq> 0"
    using Cons.prems by (auto simp: bytes_at_Cons rd8_def nul_free_def)
  have "strncmp_mem mem (tl key) (p + 1) (length n + 1) = Some (tl key = n)"
    using Cons.prems by (intro Cons.IH; cases key) (auto simp: bytes_at_Cons nul_free_def)
  with b show ?case by (cases key) auto
qed

section \<open>Elements\<close>

definition elem_is :: "byte list \<Rightarrow> astarte_bson_element_t \<Rightarrow> byte list \<times> bson_value \<Rightarrow> bool" where
  "elem_is mem e x \<longleftrightarrow>
     el_type e = type_byte (snd x) \<and> el_name_len e = length (fst x) \<and>
     bytes_at mem (el_name e) (fst x @ [0]) \<and> bytes_at mem (el_value e) (enc_value (snd x))"

definition elems_at :: "byte list \<Rightarrow> astarte_bson_document_t \<Rightarrow> nat \<Rightarrow> (byte list \<times> bson_value) list \<Rightarrow> bool" where
  "elems_at mem d p es \<longleftrightarrow> wf_elems es \<and>
     (\<exists>l. doc_list d = Some l \<and> l \<le> p \<and> p + length (enc_elems es) = l + unat (doc_list_size d) \<and>
          bytes_at mem p (enc_elems es @ [0]))"

definition doc_at :: "byte list \<Rightarrow> astarte_bson_document_t \<Rightarrow> (byte list \<times> bson_value) list \<Rightarrow> bool" where
  "doc_at mem d es \<longleftrightarrow> unat (doc_size d) = unat (doc_list_size d) + 5 \<and>
     (\<exists>l. doc_list d = Some l \<and> elems_at mem d l es)"

text \<open>\<open>e\<close> is the element \<open>x\<close> and the elements \<open>es\<close> follow it.\<close>

definition el_read where
  "el_read mem d e x es \<longleftrightarrow>
     elem_is mem e x \<and> nul_free (fst x) \<and> wf_value (snd x) \<and>
     get_element_value_size mem d (el_type e) (el_value e) = Some (Inr (length (enc_value (snd x)))) \<and>
     is_within_bounds d (el_value e) (length (enc_value (snd x))) \<and>
     elems_at mem d (el_value e + length (enc_value (snd x))) es"

lemma unat_lt_2_32: "unat (w :: u32) < 2 ^ 32"
  using unsigned_less [of w, where ?'a = nat] by simp

lemma small_unat: "n < 2 ^ 32 \<Longrightarrow> unat (of_nat n :: u32) = n"
  by (simp add: unat_of_nat take_bit_nat_eq_self)

lemma value_size_enc:
  assumes at: "bytes_at mem p (enc_value v)" and small: "length (enc_value v) < 2 ^ 32"
    and inside: "doc_list d = Some l" "l \<le> p" "p + length (enc_value v) \<le> l + unat (doc_list_size d)"
  shows "get_element_value_size mem d (type_byte v) p = Some (Inr (length (enc_value v)))"
proof -
  have w: "4 \<le> length (enc_value v) \<Longrightarrow> is_within_bounds d p 4"
    using inside by (auto simp: within_bounds_iff)
  show ?thesis
  proof (cases v)
    case (BString s)
    then have "rd_le32 mem p = Some (of_nat (length s + 1))"
      using at by (intro bytes_at_rd_le32) simp
    moreover have "unat (of_nat (length s + 1) :: u32) = length s + 1"
      using small BString by (intro small_unat) simp
    ultimately show ?thesis
      using BString w small
      by (simp add: get_element_value_size_def bson_type_bytes del: of_nat_add of_nat_Suc)
  next
    case (BDocument es)
    then have "rd_le32 mem p = Some (of_nat (length (enc_value v)))"
      using at by (intro bytes_at_rd_le32) (simp add: frame_doc_def add.commute del: of_nat_add)
    then show ?thesis
      using BDocument w small small_unat [OF small]
      by (simp add: get_element_value_size_def bson_type_bytes del: of_nat_add of_nat_Suc)
  next
    case (BArray es)
    then have "rd_le32 mem p = Some (of_nat (length (enc_value v)))"
      using at by (intro bytes_at_rd_le32) (simp add: frame_doc_def add.commute del: of_nat_add)
    then show ?thesis
      using BArray w small small_unat [OF small]
      by (simp add: get_element_value_size_def bson_type_bytes del: of_nat_add of_nat_Suc)
  next
    case (BBinary b)
    then have "rd_le32 mem p = Some (of_nat (length b))"
      using at by (intro bytes_at_rd_le32) simp
    moreover have "unat (of_nat (length b) :: u32) = length b"
      using small BBinary by (intro small_unat) simp
    ultimately show ?thesis
      using BBinary w small
      by (simp add: get_element_value_size_def bson_type_bytes)
  qed (simp_all add: get_element_value_size_def bson_type_bytes)
qed

lemma read_element_enc:
  assumes at: "elems_at mem d p (x # es)" and l: "doc_list d = Some l"
    and m: "m = l + unat (doc_list_size d) - p - 1"
  obtains e where "read_element mem d (type_byte (snd x)) p m = Some (Inr e)" "el_read mem d e x es"
proof -
  obtain n v where x: "x = (n, v)" by (cases x)
  define q where "q = p + 1 + length n + 1"
  have wf: "nul_free n" "wf_value v" "wf_elems es"
    and pl: "l \<le> p" and len: "p + length (enc_elems (x # es)) = l + unat (doc_list_size d)"
    and mem: "bytes_at mem p (enc_elems (x # es) @ [0])"
    using at l x by (auto simp: elems_at_def)
  have image: "enc_elems (x # es) @ [0] = [type_byte v] @ ((n @ [0]) @ (enc_value v @ (enc_elems es @ [0])))"
    using x by simp
  have parts: "bytes_at mem (p + 1) (n @ [0])" "bytes_at mem q (enc_value v)"
      "bytes_at mem (q + length (enc_value v)) (enc_elems es @ [0])"
    using mem unfolding image bytes_at_append by (simp_all add: q_def add.assoc)
  have q_end: "q + length (enc_value v) + length (enc_elems es) = l + unat (doc_list_size d)"
    using len x by (simp add: q_def)
  have m_len: "length n + 1 + length (enc_value v) \<le> m"
    using q_end m pl by (simp add: q_def)
  have small: "length (enc_value v) < 2 ^ 32"
    using q_end pl unat_lt_2_32 [of "doc_list_size d"] by (simp add: q_def)
  have name: "strnlen mem (p + 1) m = Some (length n)"
    using parts(1) wf(1) m_len by (intro bytes_at_strnlen) simp_all
  have size: "get_element_value_size mem d (type_byte v) q = Some (Inr (length (enc_value v)))"
    using parts(2) small l pl q_end by (intro value_size_enc [where l = l]) (simp_all add: q_def)
  have inside: "is_within_bounds d q (length (enc_value v))"
    using l pl q_end by (auto simp: within_bounds_iff q_def)
  define e where "e = \<lparr>el_type = type_byte v, el_name = p + 1, el_name_len = length n, el_value = q\<rparr>"
  have fields: "el_type e = type_byte v" "el_name e = p + 1" "el_name_len e = length n" "el_value e = q"
    unfolding e_def by simp_all
  have "read_element mem d (type_byte v) p m = Some (Inr e)"
    using name size inside m_len
    by (simp add: read_element_def or_internal_def Let_def e_def flip: q_def [simplified])
  moreover have "el_read mem d e x es"
    unfolding el_read_def elem_is_def elems_at_def fields
    using wf size inside parts l pl q_end x by (auto simp: q_def)
  ultimately show thesis using x by (intro that [of e]) simp_all
qed

lemma first_element_enc:
  assumes d: "doc_at mem d es"
  shows "case es of
      [] \<Rightarrow> astarte_bson_deserializer_first_element mem d = Some (Inl ASTARTE_RESULT_NOT_FOUND)
    | x # xs \<Rightarrow> \<exists>e. astarte_bson_deserializer_first_element mem d = Some (Inr e) \<and> el_read mem d e x xs"
proof -
  obtain l where l: "doc_list d = Some l" and sz: "unat (doc_size d) = unat (doc_list_size d) + 5"
    and at: "elems_at mem d l es"
    using d by (auto simp: doc_at_def)
  show ?thesis
  proof (cases es)
    case Nil
    then have "unat (doc_size d) \<le> 5" using at l sz by (simp add: elems_at_def)
    with Nil show ?thesis
      by (simp add: astarte_bson_deserializer_first_element_def word_le_nat_alt)
  next
    case (Cons x xs)
    obtain n v where x: "x = (n, v)" by (cases x)
    have t: "rd8 mem l = Some (type_byte v)"
      using at l Cons x by (auto simp: elems_at_def bytes_at_Cons rd8_def)
    have pos: "0 < unat (doc_list_size d)"
      using at l Cons x by (auto simp: elems_at_def)
    have run: "astarte_bson_deserializer_first_element mem d =
        read_element mem d (type_byte (snd x)) l (unat (doc_list_size d) - 1)"
      using sz pos l t x by (simp add: astarte_bson_deserializer_first_element_def word_le_nat_alt word_less_nat_alt)
    from read_element_enc [OF at [unfolded Cons] l, of "unat (doc_list_size d) - 1"] show ?thesis
      using run Cons by auto
  qed
qed

lemma next_element_enc:
  assumes e: "el_read mem d e x es"
  shows "case es of
      [] \<Rightarrow> astarte_bson_deserializer_next_element mem d e = Some (Inl ASTARTE_RESULT_NOT_FOUND)
    | y # ys \<Rightarrow> \<exists>e'. astarte_bson_deserializer_next_element mem d e = Some (Inr e') \<and> el_read mem d e' y ys"
proof -
  define q where "q = el_value e + length (enc_value (snd x))"
  have at: "elems_at mem d q es"
    and size: "get_element_value_size mem d (el_type e) (el_value e) = Some (Inr (length (enc_value (snd x))))"
    and inside: "is_within_bounds d (el_value e) (length (enc_value (snd x)))"
    using e by (simp_all add: el_read_def q_def)
  obtain l where l: "doc_list d = Some l" "l \<le> q" "q + length (enc_elems es) = l + unat (doc_list_size d)"
    using at by (auto simp: elems_at_def)
  show ?thesis
  proof (cases es)
    case Nil
    then show ?thesis
      using l size inside
      by (simp add: astarte_bson_deserializer_next_element_def or_internal_def Let_def flip: q_def)
  next
    case (Cons y ys)
    obtain n v where y: "y = (n, v)" by (cases y)
    have t: "rd8 mem q = Some (type_byte v)"
      using at l Cons y by (auto simp: elems_at_def bytes_at_Cons rd8_def)
    have q: "q + 1 \<le> l + unat (doc_list_size d)"
      using l Cons y by simp
    have "\<not> unat (doc_list_size d) < q - l + 1"
      using q l by simp
    then have run: "astarte_bson_deserializer_next_element mem d e =
        read_element mem d (type_byte (snd y)) q (unat (doc_list_size d) - (q - l) - 1)"
      using l size inside t y q
      by (simp add: astarte_bson_deserializer_next_element_def or_internal_def Let_def flip: q_def)
    have m: "unat (doc_list_size d) - (q - l) - 1 = l + unat (doc_list_size d) - q - 1"
      using l by simp
    from read_element_enc [OF at [unfolded Cons] l(1) m] show ?thesis
      using run Cons by auto
  qed
qed

section \<open>The loops\<close>

lemma count_loop_enc:
  "el_read mem d e x es \<Longrightarrow> count_loop mem d e k = Some (Inr (k + length es))"
proof (induction es arbitrary: e x k)
  case Nil
  with next_element_enc [OF Nil] show ?case
    by (subst count_loop.simps) simp
next
  case (Cons y ys)
  from next_element_enc [OF Cons.prems] obtain e' where
    "astarte_bson_deserializer_next_element mem d e = Some (Inr e')" "el_read mem d e' y ys"
    by auto
  with Cons.IH show ?case by (subst count_loop.simps) simp
qed

lemma count_enc:
  assumes "doc_at mem d es"
  shows "astarte_bson_deserializer_doc_count_elements mem d = Some (Inr (length es))"
  using first_element_enc [OF assms]
  by (auto simp: astarte_bson_deserializer_doc_count_elements_def count_loop_enc split: list.splits)

text \<open>The result of a lookup is the first element of that name.\<close>

definition found :: "byte list \<Rightarrow> astarte_bson_element_t outcome \<Rightarrow> (byte list \<times> bson_value) option \<Rightarrow> bool" where
  "found mem r x \<longleftrightarrow>
     (case x of None \<Rightarrow> r = Some (Inl ASTARTE_RESULT_NOT_FOUND)
      | Some y \<Rightarrow> \<exists>e. r = Some (Inr e) \<and> elem_is mem e y)"

lemma lookup_loop_enc:
  "el_read mem d e x es \<Longrightarrow> nul_free key \<Longrightarrow>
   found mem (lookup_loop mem d key e) (find (\<lambda>y. fst y = key) (x # es))"
proof (induction es arbitrary: e x)
  case Nil
  have "strncmp_mem mem key (el_name e) (el_name_len e + 1) = Some (key = fst x)"
    using Nil bytes_at_strncmp [of mem "el_name e" "fst x" key] by (simp add: el_read_def elem_is_def)
  with next_element_enc [OF Nil(1)] Nil(1) show ?case
    by (subst lookup_loop.simps) (auto simp: found_def el_read_def)
next
  case (Cons y ys)
  have cmp: "strncmp_mem mem key (el_name e) (el_name_len e + 1) = Some (key = fst x)"
    using Cons.prems bytes_at_strncmp [of mem "el_name e" "fst x" key]
    by (simp add: el_read_def elem_is_def)
  from next_element_enc [OF Cons.prems(1)] obtain e' where
    e': "astarte_bson_deserializer_next_element mem d e = Some (Inr e')" "el_read mem d e' y ys"
    by auto
  show ?case
  proof (cases "key = fst x")
    case True
    with cmp Cons.prems(1) show ?thesis
      by (subst lookup_loop.simps) (simp add: found_def el_read_def)
  next
    case False
    with cmp e' Cons.IH [OF e'(2) Cons.prems(2)] show ?thesis
      by (subst lookup_loop.simps) (auto simp del: find.simps simp: find.simps(2) [of _ x])
  qed
qed

lemma lookup_enc:
  assumes "doc_at mem d es" "nul_free key"
  shows "found mem (astarte_bson_deserializer_element_lookup mem d key) (find (\<lambda>y. fst y = key) es)"
proof (cases es)
  case Nil
  with first_element_enc [OF assms(1)] show ?thesis
    by (simp add: astarte_bson_deserializer_element_lookup_def out_bind_def found_def)
next
  case (Cons x xs)
  with first_element_enc [OF assms(1)] obtain e where
    "astarte_bson_deserializer_first_element mem d = Some (Inr e)" "el_read mem d e x xs"
    by auto
  with Cons lookup_loop_enc [OF this(2) assms(2)] show ?thesis
    by (simp add: astarte_bson_deserializer_element_lookup_def out_bind_def)
qed

section \<open>Documents and values\<close>

lemma init_doc_enc:
  assumes at: "bytes_at mem p (enc_doc es)" and small: "length (enc_doc es) < 2 ^ 32" and wf: "wf_elems es"
  obtains d where "astarte_bson_deserializer_init_doc mem (Some p) = Some d" "doc_at mem d es"
    "unat (doc_size d) = length (enc_doc es)" "doc_list d = Some (p + 4)"
proof -
  define w where "w = (of_nat (length (enc_elems es) + 5) :: u32)"
  have len: "length (enc_elems es) + 5 < 2 ^ 32"
    using small by (simp add: enc_doc_def)
  have w: "unat w = length (enc_elems es) + 5"
    unfolding w_def using len by (rule small_unat)
  then have w5: "(5::u32) \<le> w" by (simp add: word_le_nat_alt)
  have w': "unat (w - 5) = length (enc_elems es)"
    using w w5 by (simp add: unat_sub)
  have rd: "rd_le32 mem p = Some w" and body: "bytes_at mem (p + 4) (enc_elems es @ [0])"
    using at by (simp_all add: enc_doc_def frame_doc_def bytes_at_rd_le32 w_def del: of_nat_add)
  show thesis
  proof (rule that [of "\<lparr>doc_size = w, doc_list = Some (p + 4), doc_list_size = w - 4 - 1\<rparr>"])
    show "astarte_bson_deserializer_init_doc mem (Some p) =
        Some \<lparr>doc_size = w, doc_list = Some (p + 4), doc_list_size = w - 4 - 1\<rparr>"
      using rd w5 by (simp add: astarte_bson_deserializer_init_doc_def)
    show "doc_at mem \<lparr>doc_size = w, doc_list = Some (p + 4), doc_list_size = w - 4 - 1\<rparr> es"
      using w w' body wf by (simp add: doc_at_def elems_at_def)
    show "unat (doc_size \<lparr>doc_size = w, doc_list = Some (p + 4), doc_list_size = w - 4 - 1\<rparr>) =
        length (enc_doc es)"
      using w by (simp add: enc_doc_def)
  qed simp
qed

lemma supported_type_byte: "supported_type (type_byte v)"
  by (cases v) (simp_all add: supported_type_def)

lemma check_validity_enc:
  assumes at: "bytes_at mem p (enc_doc es)" and small: "length (enc_doc es) < 2 ^ 32" and wf: "wf_elems es"
    and n: "length (enc_doc es) \<le> n"
  shows "astarte_bson_deserializer_check_validity mem (Some p) n = Some True"
proof -
  from at small wf obtain d where d: "astarte_bson_deserializer_init_doc mem (Some p) = Some d"
      "unat (doc_size d) = length (enc_doc es)" "doc_list d = Some (p + 4)"
    by (rule init_doc_enc)
  have last: "rd8 mem (p + 4 + length (enc_elems es)) = Some 0"
    using at by (simp add: enc_doc_def frame_doc_def bytes_at_rd8)
  show ?thesis
  proof (cases es)
    case Nil
    then have "doc_size d = 5"
      using d by (simp add: enc_doc_def word_unat_eq_iff)
    moreover have "rd8 mem (4 + p) = Some 0"
      using last Nil by (simp add: add.commute)
    ultimately show ?thesis
      using Nil d n by (simp add: astarte_bson_deserializer_check_validity_def enc_doc_def)
  next
    case (Cons x xs)
    obtain nm v where x: "x = (nm, v)" by (cases x)
    have t: "rd8 mem (p + 4) = Some (type_byte v)"
      using at Cons x by (simp add: enc_doc_def frame_doc_def bytes_at_Cons rd8_def)
    have "1 \<le> length (enc_value v)" by (simp add: Suc_le_eq)
    then have "8 \<le> unat (doc_size d)"
      using d Cons x by (simp add: enc_doc_def)
    then have "\<not> doc_size d < 8" "doc_size d \<noteq> 5"
      by (auto simp: word_less_nat_alt)
    moreover have "rd8 mem (4 + (p + length (enc_elems es))) = Some 0"
      using last by (simp add: ac_simps)
    ultimately show ?thesis
      using d n t by (simp add: astarte_bson_deserializer_check_validity_def enc_doc_def supported_type_byte)
  qed
qed

text \<open>\<open>reads_as mem e v\<close>: the accessor for the type of \<open>v\<close> gives \<open>v\<close>.\<close>

fun reads_as :: "byte list \<Rightarrow> astarte_bson_element_t \<Rightarrow> bson_value \<Rightarrow> bool" where
  "reads_as mem e (BDouble w) = (astarte_bson_deserializer_element_to_double mem e = Some w)"
| "reads_as mem e (BDatetime w) = (astarte_bson_deserializer_element_to_datetime mem e = Some w)"
| "reads_as mem e (BInt64 w) = (astarte_bson_deserializer_element_to_int64 mem e = Some w)"
| "reads_as mem e (BInt32 w) = (astarte_bson_deserializer_element_to_int32 mem e = Some w)"
| "reads_as mem e (BBoolean b) = (astarte_bson_deserializer_element_to_bool mem e = Some b)"
| "reads_as mem e (BString s) =
     (\<exists>p len. astarte_bson_deserializer_element_to_string mem e = Some (p, len) \<and>
        unat len = length s \<and> bytes_at mem p (s @ [0]))"
| "reads_as mem e (BBinary b) =
     (\<exists>p len. astarte_bson_deserializer_element_to_binary mem e = Some (p, len) \<and>
        unat len = length b \<and> bytes_at mem p b)"
| "reads_as mem e (BDocument es) =
     (\<exists>d. astarte_bson_deserializer_element_to_document mem e = Some d \<and> doc_at mem d es)"
| "reads_as mem e (BArray es) =
     (\<exists>d. astarte_bson_deserializer_element_to_array mem e = Some d \<and> doc_at mem d es)"

lemma elem_reads_as:
  assumes e: "elem_is mem e (n, v)" and wf: "wf_value v" and small: "length (enc_value v) < 2 ^ 32"
  shows "reads_as mem e v"
proof -
  have at: "bytes_at mem (el_value e) (enc_value v)"
    using e by (simp add: elem_is_def)
  show ?thesis
  proof (cases v)
    case (BString s)
    have rd: "rd_le32 mem (el_value e) = Some (of_nat (length s + 1))"
      using at BString by (intro bytes_at_rd_le32) simp
    have len: "unat (of_nat (length s + 1) :: u32) = length s + 1"
      using small BString by (intro small_unat) simp
    then have ge: "(1::u32) \<le> of_nat (length s + 1)"
      by (simp add: word_le_nat_alt del: of_nat_add of_nat_Suc)
    show ?thesis
      using at BString rd len ge unat_sub [OF ge]
      by (simp add: astarte_bson_deserializer_element_to_string_def del: of_nat_add of_nat_Suc)
  next
    case (BBinary b)
    have rd: "rd_le32 mem (el_value e) = Some (of_nat (length b))"
      using at BBinary by (intro bytes_at_rd_le32) simp
    have "unat (of_nat (length b) :: u32) = length b"
      using small BBinary by (intro small_unat) simp
    with rd at BBinary show ?thesis
      by (simp add: astarte_bson_deserializer_element_to_binary_def bytes_at_Cons)
  next
    case (BDocument es)
    then have "bytes_at mem (el_value e) (enc_doc es)" "length (enc_doc es) < 2 ^ 32" "wf_elems es"
      using at small wf by (simp_all add: enc_doc_def)
    then obtain d where "astarte_bson_deserializer_init_doc mem (Some (el_value e)) = Some d" "doc_at mem d es"
      by (rule init_doc_enc)
    with BDocument show ?thesis by (simp add: astarte_bson_deserializer_element_to_document_def)
  next
    case (BArray es)
    then have "bytes_at mem (el_value e) (enc_doc es)" "length (enc_doc es) < 2 ^ 32" "wf_elems es"
      using at small wf by (simp_all add: enc_doc_def)
    then obtain d where "astarte_bson_deserializer_init_doc mem (Some (el_value e)) = Some d" "doc_at mem d es"
      by (rule init_doc_enc)
    with BArray show ?thesis by (simp add: astarte_bson_deserializer_element_to_array_def)
  qed (use at in \<open>auto simp: astarte_bson_deserializer_element_to_double_def bytes_at_rd_le64
      astarte_bson_deserializer_element_to_datetime_def astarte_bson_deserializer_element_to_int64_def
      astarte_bson_deserializer_element_to_int32_def bytes_at_rd_le32
      astarte_bson_deserializer_element_to_bool_def bytes_at_rd8\<close>)
qed

end
