(* ===== verification/Data_Spec.thy ===== *)
theory Data_Spec
  imports Data_Codec Bson_Append Bson_Roundtrip
begin

text \<open>
  What the data operations mean: \<open>bson_of\<close> is the BSON value a piece of data stands for,
  \<open>data_ok\<close> the data the serializer can represent, \<open>received\<close> the copy a deserialization makes of
  it.
\<close>

section \<open>Meaning\<close>

fun bson_of :: "astarte_data_union \<Rightarrow> bson_value" where
  "bson_of (Binaryblob b n) = BBinary (take n b)"
| "bson_of (Boolean b) = BBoolean b"
| "bson_of (Datetime w) = BDatetime w"
| "bson_of (Double w) = BDouble w"
| "bson_of (Integer w) = BInt32 w"
| "bson_of (Longinteger w) = BInt64 w"
| "bson_of (String s) = BString (c_string s)"
| "bson_of (BinaryblobArray bs sizes n) =
     BArray (array_elems (map (\<lambda>j. BBinary (take (sizes ! j) (bs ! j))) [0..<n]))"
| "bson_of (BooleanArray ws n) = BArray (array_elems (map BBoolean (take n ws)))"
| "bson_of (DatetimeArray ws n) = BArray (array_elems (map BDatetime (take n ws)))"
| "bson_of (DoubleArray ws n) = BArray (array_elems (map BDouble (take n ws)))"
| "bson_of (IntegerArray ws n) = BArray (array_elems (map BInt32 (take n ws)))"
| "bson_of (LongintegerArray ws n) = BArray (array_elems (map BInt64 (take n ws)))"
| "bson_of (StringArray ws n) = BArray (array_elems (map (BString \<circ> c_string) (take n ws)))"
| "bson_of NoData = BArray []"

definition int32_max :: nat where "int32_max = 2 ^ 31 - 1"

fun data_ok :: "astarte_data_union \<Rightarrow> bool" where
  "data_ok (Binaryblob b n) = (n \<le> length b \<and> n \<le> int32_max)"
| "data_ok (String s) = (strlen s \<le> int32_max)"
| "data_ok (BinaryblobArray bs sizes n) =
     (n \<le> int32_max \<and> n \<le> length bs \<and> n \<le> length sizes \<and>
      list_all (\<lambda>j. sizes ! j \<le> int32_max \<and> sizes ! j \<le> length (bs ! j)) [0..<n])"
| "data_ok (BooleanArray ws n) = (n \<le> length ws \<and> n \<le> int32_max)"
| "data_ok (DatetimeArray ws n) = (n \<le> length ws \<and> n \<le> int32_max)"
| "data_ok (DoubleArray ws n) = (n \<le> length ws \<and> n \<le> int32_max)"
| "data_ok (IntegerArray ws n) = (n \<le> length ws \<and> n \<le> int32_max)"
| "data_ok (LongintegerArray ws n) = (n \<le> length ws \<and> n \<le> int32_max)"
| "data_ok (StringArray ws n) =
     (n \<le> length ws \<and> n \<le> int32_max \<and> list_all (\<lambda>s. strlen s \<le> int32_max) (take n ws))"
| "data_ok NoData = False"
| "data_ok _ = True"

fun received :: "astarte_data_union \<Rightarrow> astarte_data_union" where
  "received (Binaryblob b n) = Binaryblob (take n b) n"
| "received (String s) = String (c_string s)"
| "received (BinaryblobArray bs sizes n) =
     BinaryblobArray (map (\<lambda>j. take (sizes ! j) (bs ! j)) [0..<n]) (take n sizes) n"
| "received (BooleanArray ws n) = BooleanArray (take n ws) n"
| "received (DatetimeArray ws n) = DatetimeArray (take n ws) n"
| "received (DoubleArray ws n) = DoubleArray (take n ws) n"
| "received (IntegerArray ws n) = IntegerArray (take n ws) n"
| "received (LongintegerArray ws n) = LongintegerArray (take n ws) n"
| "received (StringArray ws n) = StringArray (map c_string (take n ws)) n"
| "received u = u"

text \<open>Data without an empty blob; the deserializer cannot allocate room for one.\<close>

fun blobs_pos :: "astarte_data_union \<Rightarrow> bool" where
  "blobs_pos (Binaryblob b n) = (0 < n)"
| "blobs_pos (BinaryblobArray bs sizes n) = list_all (\<lambda>j. 0 < sizes ! j) [0..<n]"
| "blobs_pos _ = True"

lemma wf_bson_of: "wf_value (bson_of u)"
  by (cases u) (simp_all add: list_all_iff)

section \<open>Serialization\<close>

lemma to_int_small: "n \<le> int32_max \<Longrightarrow> to_int n = int n"
  by (simp add: to_int_def int32_max_def signed_of_nat signed_take_bit_int_eq_self)

lemma serialize_appends:
  assumes "data_ok (data d)"
  shows "appends heap (\<lambda>s. astarte_data_serialize heap s key d) (enc_elem (c_string key, bson_of (data d)))"
proof -
  have lt: "n \<le> int32_max \<Longrightarrow> n < 2 ^ 31" for n
    by (simp add: int32_max_def)
  show ?thesis
  proof (cases "data d")
    case (Binaryblob b n)
    with assms append_binary [of n "Some b" heap key] show ?thesis
      by (simp add: astarte_data_serialize_def int32_max_def)
  next
    case (StringArray ws n)
    with assms append_string_array [of n ws heap key] lt to_int_small show ?thesis
      by (simp add: astarte_data_serialize_def list_all_iff int32_max_def)
  next
    case (BinaryblobArray bs sizes n)
    with assms append_binary_array [of n bs sizes heap key] lt to_int_small show ?thesis
      by (simp add: astarte_data_serialize_def list_all_iff int32_max_def)
  next
    case (String s)
    with assms append_string [of s heap key] show ?thesis
      by (simp add: astarte_data_serialize_def int32_max_def)
  qed (use assms lt in \<open>simp_all add: astarte_data_serialize_def to_int_small append_boolean append_datetime
      append_double append_int32 append_int64 append_boolean_array append_datetime_array
      append_double_array append_int32_array append_int64_array\<close>)
qed

section \<open>Deserialization of encoded values\<close>

definition ample :: "(nat \<Rightarrow> bool) \<Rightarrow> bool" where
  "ample heap \<longleftrightarrow> (\<forall>n. 0 < n \<longrightarrow> heap n)"

lemma ample_heap: "ample heap \<Longrightarrow> 0 < n \<Longrightarrow> heap n"
  by (simp add: ample_def)

lemma ample_alloc [simp]:
  "ample heap \<Longrightarrow> 0 < n \<Longrightarrow> 0 < k \<Longrightarrow> astarte_calloc heap n k"
  "ample heap \<Longrightarrow> 0 < n \<Longrightarrow> astarte_realloc heap old n"
  by (simp_all add: ample_def astarte_calloc_def)

lemma bytes_at_rd_bytes: "bytes_at mem p bs \<Longrightarrow> rd_bytes mem p (length bs) = Some bs"
  by (simp add: bytes_at_def rd_bytes_def)

lemma rd_string_enc:
  assumes "bytes_at mem p (s @ [0])" "nul_free s"
  shows "rd_string mem p (length s) = Some s"
proof -
  have "strnlen mem p (length s) = Some (length s)"
    using assms
  proof (induction s arbitrary: p)
    case (Cons b s)
    then show ?case by (auto simp: bytes_at_Cons rd8_def nul_free_def)
  qed simp
  moreover have "bytes_at mem p s" using assms(1) by simp
  then have "take (length s) (drop p mem) = s" by (simp add: bytes_at_def)
  ultimately show ?thesis by (simp add: rd_string_def)
qed

lemma deserialize_string_enc:
  assumes "reads_as mem e (BString s)" "nul_free s" "length s < 2 ^ 32 - 1" "ample heap"
  shows "deserialize_string heap mem e = Some (Inr (astarte_data_from_string s))"
    and "get_string heap mem e = Some (Inr s)"
proof -
  obtain p len where rd: "astarte_bson_deserializer_element_to_string mem e = Some (p, len)"
      "unat len = length s" "bytes_at mem p (s @ [0])"
    using assms(1) by auto
  have "unat (len + 1) = length s + 1"
    using assms(3) rd(2) by (simp add: unat_word_ariths)
  with rd rd_string_enc [OF rd(3) assms(2)] assms(4)
  show "deserialize_string heap mem e = Some (Inr (astarte_data_from_string s))"
    and "get_string heap mem e = Some (Inr s)"
    by (simp_all add: deserialize_string_def get_string_def ample_heap [of heap])
qed

lemma deserialize_blob_enc:
  assumes "reads_as mem e (BBinary b)" "b \<noteq> []" "ample heap"
  shows "deserialize_binaryblob heap mem e = Some (Inr (astarte_data_from_binaryblob b (length b)))"
    and "get_blob heap mem e = Some (Inr b)"
proof -
  obtain p len where rd: "astarte_bson_deserializer_element_to_binary mem e = Some (p, len)"
      "unat len = length b" "bytes_at mem p b"
    using assms(1) by auto
  with bytes_at_rd_bytes [OF rd(3)] assms(2,3)
  show "deserialize_binaryblob heap mem e = Some (Inr (astarte_data_from_binaryblob b (length b)))"
    and "get_blob heap mem e = Some (Inr b)"
    by (simp_all add: deserialize_binaryblob_def get_blob_def ample_heap [of heap])
qed

text \<open>An empty blob cannot be received, whatever the heap answers.\<close>

lemma deserialize_empty_blob:
  assumes "reads_as mem e (BBinary [])"
  shows "deserialize_binaryblob heap mem e = Some (Inl ASTARTE_RESULT_OUT_OF_MEMORY)"
    and "get_blob heap mem e = Some (Inl ASTARTE_RESULT_OUT_OF_MEMORY)"
proof -
  obtain p len where rd: "astarte_bson_deserializer_element_to_binary mem e = Some (p, len)" "unat len = 0"
    using assms by auto
  then show "deserialize_binaryblob heap mem e = Some (Inl ASTARTE_RESULT_OUT_OF_MEMORY)"
    and "get_blob heap mem e = Some (Inl ASTARTE_RESULT_OUT_OF_MEMORY)"
    by (simp_all add: deserialize_binaryblob_def get_blob_def)
qed

section \<open>Arrays\<close>

lemma el_read_small:
  assumes "el_read mem d e x es"
  shows "length (enc_value (snd x)) < 2 ^ 32"
proof -
  have "is_within_bounds d (el_value e) (length (enc_value (snd x)))"
    using assms by (simp add: el_read_def)
  then show ?thesis
    using unat_lt_2_32 [of "doc_list_size d"] by (auto simp: within_bounds_iff)
qed

text \<open>\<open>yields_value mem t get y x\<close>: the extraction of an element with value \<open>y\<close> gives \<open>x\<close>.\<close>

definition yields_value where
  "yields_value mem t get x y \<longleftrightarrow>
     astarte_mapping_bson_is_compatible t (type_byte (snd x)) \<and>
     (\<forall>e. elem_is mem e x \<longrightarrow> reads_as mem e (snd x) \<longrightarrow> length (enc_value (snd x)) < 2 ^ 32 \<longrightarrow>
        get e = Some (Inr y))"

lemma yields_value_get:
  assumes "yields_value mem t get x y" "el_read mem d e x es"
  shows "astarte_mapping_bson_is_compatible t (el_type e)" "get e = Some (Inr y)"
proof -
  have e: "elem_is mem e x" "wf_value (snd x)" "length (enc_value (snd x)) < 2 ^ 32"
    using assms(2) el_read_small [OF assms(2)] by (simp_all add: el_read_def)
  moreover have "reads_as mem e (snd x)"
    using e by (cases x) (auto intro: elem_reads_as)
  ultimately show "get e = Some (Inr y)" "astarte_mapping_bson_is_compatible t (el_type e)"
    using assms(1) by (auto simp: yields_value_def elem_is_def)
qed

lemma array_loop_enc:
  assumes grow: "\<And>c. 0 < c \<Longrightarrow> grow c"
  shows "el_read mem d e x es \<Longrightarrow> list_all2 (yields_value mem t get) (x # es) ys \<Longrightarrow> 0 < cap \<Longrightarrow>
    array_loop mem d t grow get cap arr e = Some (ASTARTE_RESULT_NOT_FOUND, arr @ ys)"
proof (induction es arbitrary: e x ys cap arr)
  case Nil
  then obtain y where y: "ys = [y]" "yields_value mem t get x y"
    by (auto simp: list_all2_Cons1)
  from yields_value_get [OF y(2) Nil(1)] next_element_enc [OF Nil(1)] y(1) grow Nil(3) show ?case
    by (subst array_loop.simps) (simp add: Let_def)
next
  case (Cons z es)
  then obtain y zs where y: "ys = y # zs" "yields_value mem t get x y"
      "list_all2 (yields_value mem t get) (z # es) zs"
    by (auto simp: list_all2_Cons1)
  from next_element_enc [OF Cons.prems(1)] obtain e' where
    e': "astarte_bson_deserializer_next_element mem d e = Some (Inr e')" "el_read mem d e' z es"
    by auto
  show ?case
    using yields_value_get [OF y(2) Cons.prems(1)] e'(1) grow Cons.prems(3) y(1)
      Cons.IH [OF e'(2) y(3)]
    by (subst array_loop.simps) (simp add: Let_def)
qed

lemma read_array_enc:
  assumes d: "doc_at mem d es" and ys: "list_all2 (yields_value mem t get) es ys"
    and alloc "\<And>c. 0 < c \<Longrightarrow> grow c"
    and empty: "initialize_empty_array at = Some (Inr (from_union (mk [])))"
  shows "read_array mem d t at alloc grow get mk = Some (Inr (from_union (mk ys)))"
proof (cases es)
  case Nil
  then show ?thesis
    using first_element_enc [OF d] ys assms(3) empty by (simp add: read_array_def)
next
  case (Cons x xs)
  with first_element_enc [OF d] obtain e where
    e: "astarte_bson_deserializer_first_element mem d = Some (Inr e)" "el_read mem d e x xs"
    by auto
  have "ys \<noteq> []" using ys Cons by auto
  with e Cons assms(3) array_loop_enc [OF assms(4) e(2) ys [unfolded Cons], where cap = 4 and arr = "[]"] show ?thesis
    by (simp add: read_array_def)
qed

lemma array_elems_all2:
  "list_all2 P (array_elems vs) ys \<longleftrightarrow>
     length vs = length ys \<and> (\<forall>j < length vs. P (dec_string j, vs ! j) (ys ! j))"
  by (auto simp: list_all2_conv_all_nth array_elems_def indexed_def)

lemma compatible_simps [simp]:
  "astarte_mapping_bson_is_compatible ASTARTE_MAPPING_TYPE_BINARYBLOB ASTARTE_BSON_TYPE_BINARY"
  "astarte_mapping_bson_is_compatible ASTARTE_MAPPING_TYPE_BOOLEAN ASTARTE_BSON_TYPE_BOOLEAN"
  "astarte_mapping_bson_is_compatible ASTARTE_MAPPING_TYPE_DATETIME ASTARTE_BSON_TYPE_DATETIME"
  "astarte_mapping_bson_is_compatible ASTARTE_MAPPING_TYPE_DOUBLE ASTARTE_BSON_TYPE_DOUBLE"
  "astarte_mapping_bson_is_compatible ASTARTE_MAPPING_TYPE_INTEGER ASTARTE_BSON_TYPE_INT32"
  "astarte_mapping_bson_is_compatible ASTARTE_MAPPING_TYPE_LONGINTEGER ASTARTE_BSON_TYPE_INT64"
  "astarte_mapping_bson_is_compatible ASTARTE_MAPPING_TYPE_LONGINTEGER ASTARTE_BSON_TYPE_INT32"
  "astarte_mapping_bson_is_compatible ASTARTE_MAPPING_TYPE_STRING ASTARTE_BSON_TYPE_STRING"
  by (simp_all add: astarte_mapping_bson_is_compatible_def)

lemma int64_not_int32: "ASTARTE_BSON_TYPE_INT64 \<noteq> ASTARTE_BSON_TYPE_INT32"
  by (simp add: bson_type_bytes)

lemma nul_free_c_string [simp]: "nul_free (c_string s)"
  unfolding nul_free_def c_string_def by (auto dest: set_takeWhileD)

lemma array_data:
  assumes e: "elem_is mem e (n, BArray (array_elems vs))" and wf: "list_all wf_value vs"
    and small: "length (enc_value (BArray (array_elems vs))) < 2 ^ 32"
    and ys: "length vs = length ys" "\<And>j. j < length vs \<Longrightarrow> yields_value mem t get (dec_string j, vs ! j) (ys ! j)"
    and heap: alloc "\<And>c. 0 < c \<Longrightarrow> grow c"
    and empty: "initialize_empty_array at = Some (Inr (from_union (mk [])))"
  obtains d where "astarte_bson_deserializer_element_to_array mem e = Some d"
    "read_array mem d t at alloc grow get mk = Some (Inr (from_union (mk ys)))"
    "el_type e = ASTARTE_BSON_TYPE_ARRAY"
proof -
  from elem_reads_as [OF e _ small] wf obtain d where
    d: "astarte_bson_deserializer_element_to_array mem e = Some d" "doc_at mem d (array_elems vs)"
    by auto
  have "list_all2 (yields_value mem t get) (array_elems vs) ys"
    using ys by (simp add: array_elems_all2)
  from read_array_enc [where mk = mk, OF d(2) this heap empty] d(1) e show thesis
    by (intro that [of d]) (simp_all add: elem_is_def)
qed

lemma deserialize_unfold_array:
  assumes "astarte_bson_deserializer_element_to_array mem e = Some d" "el_type e = ASTARTE_BSON_TYPE_ARRAY"
  shows
    "astarte_data_deserialize heap mem e ASTARTE_MAPPING_TYPE_BINARYBLOBARRAY =
      map_option (map_sum id (\<lambda>d. d\<lparr>is_owned := True\<rparr>)) (deserialize_array_binblob heap mem d)"
    "astarte_data_deserialize heap mem e ASTARTE_MAPPING_TYPE_BOOLEANARRAY =
      map_option (map_sum id (\<lambda>d. d\<lparr>is_owned := True\<rparr>)) (deserialize_array_bool heap mem d)"
    "astarte_data_deserialize heap mem e ASTARTE_MAPPING_TYPE_DATETIMEARRAY =
      map_option (map_sum id (\<lambda>d. d\<lparr>is_owned := True\<rparr>)) (deserialize_array_datetime heap mem d)"
    "astarte_data_deserialize heap mem e ASTARTE_MAPPING_TYPE_DOUBLEARRAY =
      map_option (map_sum id (\<lambda>d. d\<lparr>is_owned := True\<rparr>)) (deserialize_array_double heap mem d)"
    "astarte_data_deserialize heap mem e ASTARTE_MAPPING_TYPE_INTEGERARRAY =
      map_option (map_sum id (\<lambda>d. d\<lparr>is_owned := True\<rparr>)) (deserialize_array_int32 heap mem d)"
    "astarte_data_deserialize heap mem e ASTARTE_MAPPING_TYPE_LONGINTEGERARRAY =
      map_option (map_sum id (\<lambda>d. d\<lparr>is_owned := True\<rparr>)) (deserialize_array_int64 heap mem d)"
    "astarte_data_deserialize heap mem e ASTARTE_MAPPING_TYPE_STRINGARRAY =
      map_option (map_sum id (\<lambda>d. d\<lparr>is_owned := True\<rparr>)) (deserialize_array_string heap mem d)"
  using assms
  by (simp_all add: astarte_data_deserialize_def is_scalar_type_def astarte_data_deserialize_array_def)

lemma owned_from_union [simp]: "(from_union u)\<lparr>is_owned := True\<rparr> = \<lparr>data = u, is_owned = True\<rparr>"
  by (simp add: from_union_def)

lemmas array_deserializer_defs =
  deserialize_array_binblob_def deserialize_array_bool_def deserialize_array_datetime_def
  deserialize_array_double_def deserialize_array_int32_def deserialize_array_int64_def
  deserialize_array_string_def sizeof_ptr_def

section \<open>What comes back\<close>

lemma deserialize_array_enc:
  assumes e: "elem_is mem e (n, bson_of u)" and ok: "data_ok u" "blobs_pos u" and heap: "ample heap"
    and small: "length (enc_value (bson_of u)) < 2 ^ 32" and scalar: "\<not> is_scalar_type (union_tag u)"
  shows "astarte_data_deserialize heap mem e (union_tag u) = Some (Inr \<lparr>data = received u, is_owned = True\<rparr>)"
proof (cases u)
  case (BooleanArray ws k)
  show ?thesis
    by (rule array_data [OF e [unfolded BooleanArray bson_of.simps], where t = ASTARTE_MAPPING_TYPE_BOOLEAN
          and get = "\<lambda>elem. map_option Inr (astarte_bson_deserializer_element_to_bool mem elem)"
          and ys = "take k ws" and mk = "\<lambda>arr. BooleanArray arr (length arr)"
          and at = ASTARTE_MAPPING_TYPE_BOOLEANARRAY and alloc = "astarte_calloc heap 4 1"
          and grow = "\<lambda>cap. astarte_realloc heap True (cap * 1)"])
      (use BooleanArray ok heap small in \<open>simp_all add: list_all_iff yields_value_def initialize_empty_array_def
        ample_heap [of heap] deserialize_unfold_array array_deserializer_defs\<close>)
next
  case (DatetimeArray ws k)
  show ?thesis
    by (rule array_data [OF e [unfolded DatetimeArray bson_of.simps], where t = ASTARTE_MAPPING_TYPE_DATETIME
          and get = "\<lambda>elem. map_option Inr (astarte_bson_deserializer_element_to_datetime mem elem)"
          and ys = "take k ws" and mk = "\<lambda>arr. DatetimeArray arr (length arr)"
          and at = ASTARTE_MAPPING_TYPE_DATETIMEARRAY and alloc = "astarte_calloc heap 4 8"
          and grow = "\<lambda>cap. astarte_realloc heap True (cap * 8)"])
      (use DatetimeArray ok heap small in \<open>simp_all add: list_all_iff yields_value_def initialize_empty_array_def
        ample_heap [of heap] deserialize_unfold_array array_deserializer_defs\<close>)
next
  case (DoubleArray ws k)
  show ?thesis
    by (rule array_data [OF e [unfolded DoubleArray bson_of.simps], where t = ASTARTE_MAPPING_TYPE_DOUBLE
          and get = "\<lambda>elem. map_option Inr (astarte_bson_deserializer_element_to_double mem elem)"
          and ys = "take k ws" and mk = "\<lambda>arr. DoubleArray arr (length arr)"
          and at = ASTARTE_MAPPING_TYPE_DOUBLEARRAY and alloc = "astarte_calloc heap 4 8"
          and grow = "\<lambda>cap. astarte_realloc heap True (cap * 8)"])
      (use DoubleArray ok heap small in \<open>simp_all add: list_all_iff yields_value_def initialize_empty_array_def
        ample_heap [of heap] deserialize_unfold_array array_deserializer_defs\<close>)
next
  case (IntegerArray ws k)
  show ?thesis
    by (rule array_data [OF e [unfolded IntegerArray bson_of.simps], where t = ASTARTE_MAPPING_TYPE_INTEGER
          and get = "\<lambda>elem. map_option Inr (astarte_bson_deserializer_element_to_int32 mem elem)"
          and ys = "take k ws" and mk = "\<lambda>arr. IntegerArray arr (length arr)"
          and at = ASTARTE_MAPPING_TYPE_INTEGERARRAY and alloc = "astarte_calloc heap 4 4"
          and grow = "\<lambda>cap. astarte_realloc heap True (cap * 4)"])
      (use IntegerArray ok heap small in \<open>simp_all add: list_all_iff yields_value_def initialize_empty_array_def
        ample_heap [of heap] deserialize_unfold_array array_deserializer_defs\<close>)
next
  case (LongintegerArray ws k)
  show ?thesis
    by (rule array_data [OF e [unfolded LongintegerArray bson_of.simps], where t = ASTARTE_MAPPING_TYPE_LONGINTEGER
          and get = "\<lambda>elem. map_option Inr (extract_int64 mem elem)"
          and ys = "take k ws" and mk = "\<lambda>arr. LongintegerArray arr (length arr)"
          and at = ASTARTE_MAPPING_TYPE_LONGINTEGERARRAY and alloc = "astarte_calloc heap 4 8"
          and grow = "\<lambda>cap. astarte_realloc heap True (cap * 8)"])
      (use LongintegerArray ok heap small in \<open>simp_all add: list_all_iff yields_value_def initialize_empty_array_def
        ample_heap [of heap] deserialize_unfold_array array_deserializer_defs extract_int64_def elem_is_def int64_not_int32\<close>)
next
  case (StringArray ws k)
  show ?thesis
    by (rule array_data [OF e [unfolded StringArray bson_of.simps], where t = ASTARTE_MAPPING_TYPE_STRING
          and get = "get_string heap mem"
          and ys = "map c_string (take k ws)" and mk = "\<lambda>arr. StringArray arr (length arr)"
          and at = ASTARTE_MAPPING_TYPE_STRINGARRAY and alloc = "astarte_calloc heap 4 sizeof_ptr"
          and grow = "\<lambda>cap. astarte_realloc heap True (cap * sizeof_ptr)"])
      (use StringArray ok heap small in \<open>simp_all add: list_all_iff yields_value_def initialize_empty_array_def
        ample_heap [of heap] deserialize_unfold_array array_deserializer_defs deserialize_string_enc del: reads_as.simps\<close>)
next
  case (BinaryblobArray bs sizes k)
  define xs where "xs = map (\<lambda>j. take (sizes ! j) (bs ! j)) [0..<k]"
  have sz: "0 < sizes ! j" "sizes ! j \<le> length (bs ! j)" if "j < k" for j
    using that ok BinaryblobArray by (auto simp: list_all_iff)
  have k: "k \<le> length sizes" using ok BinaryblobArray by simp
  have lens: "map length xs = take k sizes" "length xs = k"
    using sz k by (auto simp: xs_def intro!: nth_equalityI)
  have b: "bson_of u = BArray (array_elems (map BBinary xs))"
    using BinaryblobArray by (simp add: xs_def comp_def)
  have y: "yields_value mem ASTARTE_MAPPING_TYPE_BINARYBLOB (get_blob heap mem)
      (dec_string j, map BBinary xs ! j) (xs ! j)" if "j < k" for j
  proof -
    have "xs ! j \<noteq> []" using sz [OF that] that by (auto simp: xs_def)
    with that lens(2) heap deserialize_blob_enc(2) show ?thesis
      by (simp add: yields_value_def del: reads_as.simps)
  qed
  obtain d where d: "astarte_bson_deserializer_element_to_array mem e = Some d"
      "el_type e = ASTARTE_BSON_TYPE_ARRAY"
      "deserialize_array_binblob heap mem d = Some (Inr (from_union (BinaryblobArray xs (map length xs) (length xs))))"
  proof (rule array_data [OF e [unfolded b], where t = ASTARTE_MAPPING_TYPE_BINARYBLOB
        and get = "get_blob heap mem" and ys = xs
        and mk = "\<lambda>arr. BinaryblobArray arr (map length arr) (length arr)"
        and at = ASTARTE_MAPPING_TYPE_BINARYBLOBARRAY
        and alloc = "astarte_calloc heap 4 sizeof_ptr \<and> astarte_calloc heap 4 4"
        and grow = "\<lambda>cap. astarte_realloc heap True (cap * sizeof_ptr) \<and> astarte_realloc heap True (cap * 4)"])
    show "list_all wf_value (map BBinary xs)" by (simp add: list_all_iff)
    show "length (enc_value (BArray (array_elems (map BBinary xs)))) < 2 ^ 32"
      using small unfolding b .
    show "yields_value mem ASTARTE_MAPPING_TYPE_BINARYBLOB (get_blob heap mem)
        (dec_string j, map BBinary xs ! j) (xs ! j)" if "j < length (map BBinary xs)" for j
      using that y lens(2) by simp
  qed (use heap that in \<open>simp_all add: initialize_empty_array_def sizeof_ptr_def deserialize_array_binblob_def
      ample_heap [of heap]\<close>)
  then show ?thesis
    using BinaryblobArray lens by (simp add: deserialize_unfold_array flip: xs_def)
qed (use scalar ok in \<open>simp_all add: is_scalar_type_def\<close>)

lemma deserialize_scalar_enc:
  assumes e: "elem_is mem e (n, bson_of u)" and ok: "data_ok u" "blobs_pos u" and heap: "ample heap"
    and small: "length (enc_value (bson_of u)) < 2 ^ 32" and scalar: "is_scalar_type (union_tag u)"
  shows "astarte_data_deserialize heap mem e (union_tag u) = Some (Inr \<lparr>data = received u, is_owned = True\<rparr>)"
proof -
  have rd: "reads_as mem e (bson_of u)"
    using e wf_bson_of small by (rule elem_reads_as)
  have t: "el_type e = type_byte (bson_of u)"
    using e by (simp add: elem_is_def)
  show ?thesis
  proof (cases u)
    case (Binaryblob b k)
    then have "take k b \<noteq> []" using ok by auto
    with rd t Binaryblob heap ok deserialize_blob_enc(1) [of mem e "take k b" heap] show ?thesis
      by (simp add: astarte_data_deserialize_def is_scalar_type_def astarte_data_deserialize_scalar_def
          astarte_data_from_binaryblob_def del: reads_as.simps)
  next
    case (String s)
    have "length (c_string s) < 2 ^ 32 - 1" using small String by simp
    with rd t String heap deserialize_string_enc(1) [of mem e "c_string s" heap] show ?thesis
      by (simp add: astarte_data_deserialize_def is_scalar_type_def astarte_data_deserialize_scalar_def
          astarte_data_from_string_def del: reads_as.simps)
  qed (use rd t scalar in \<open>simp_all add: astarte_data_deserialize_def is_scalar_type_def
      astarte_data_deserialize_scalar_def astarte_data_from_boolean_def astarte_data_from_datetime_def
      astarte_data_from_double_def astarte_data_from_integer_def astarte_data_from_longinteger_def
      int64_not_int32\<close>)
qed

lemma deserialize_enc:
  assumes "elem_is mem e (n, bson_of u)" "data_ok u" "blobs_pos u" "ample heap"
    "length (enc_value (bson_of u)) < 2 ^ 32"
  shows "astarte_data_deserialize heap mem e (union_tag u) = Some (Inr \<lparr>data = received u, is_owned = True\<rparr>)"
  using assms deserialize_scalar_enc deserialize_array_enc by blast

end
