(* ===== verification/Object.thy ===== *)
theory Object
  imports Interface Data_Spec
begin

text \<open>
  Aggregated objects (lib/astarte\_device\_sdk/object.c): an object is a list of paths with their
  data; it travels as a BSON document with one element per entry.
\<close>

section \<open>Entries\<close>

definition astarte_object_entry_new :: "byte list \<Rightarrow> astarte_data_t \<Rightarrow> astarte_object_entry_t" where
  "astarte_object_entry_new path d = \<lparr>oe_path = path, oe_data = d\<rparr>"

definition astarte_object_entry_to_path_and_data ::
    "astarte_object_entry_t \<Rightarrow> bool \<Rightarrow> bool \<Rightarrow> astarte_result_t + byte list \<times> astarte_data_t" where
  "astarte_object_entry_to_path_and_data entry path d =
     (if \<not> path \<or> \<not> d then Inl ASTARTE_RESULT_INVALID_PARAM else Inr (oe_path entry, oe_data entry))"

fun astarte_object_entries_serialize ::
    "(nat \<Rightarrow> bool) \<Rightarrow> astarte_bson_serializer_t \<Rightarrow> astarte_object_entry_t list \<Rightarrow>
     astarte_result_t \<times> astarte_bson_serializer_t" where
  "astarte_object_entries_serialize heap bson [] = (ASTARTE_RESULT_OK, bson)"
| "astarte_object_entries_serialize heap bson (entry # entries) =
     (case astarte_data_serialize heap bson (oe_path entry) (oe_data entry) of (ares, bson) \<Rightarrow>
        if ares \<noteq> ASTARTE_RESULT_OK then (ares, bson)
        else astarte_object_entries_serialize heap bson entries)"

section \<open>Deserialization\<close>

text \<open>A name in the received buffer is read up to its zero byte.\<close>

definition rd_cstring :: "byte list \<Rightarrow> nat \<Rightarrow> byte list option" where
  "rd_cstring mem p =
     do { k \<leftarrow> strnlen mem p (length mem - p);
          if p + k < length mem then Some (take k (drop p mem)) else None }"

function object_loop ::
    "(nat \<Rightarrow> bool) \<Rightarrow> byte list \<Rightarrow> astarte_interface_t \<Rightarrow> byte list \<Rightarrow> astarte_bson_document_t \<Rightarrow> nat \<Rightarrow>
     astarte_object_entry_t list \<Rightarrow> astarte_bson_element_t \<Rightarrow> astarte_object_entry_t list outcome" where
  "object_loop heap mem interface path bson_doc bson_doc_length entries inner_elem =
     do {
       name \<leftarrow> rd_cstring mem (el_name inner_elem);
       (case astarte_interface_get_mapping_from_paths heap interface path name of
          Inl ares \<Rightarrow> Some (Inl ares)
        | Inr i \<Rightarrow>
            (case astarte_data_deserialize heap mem inner_elem (mp_type (if_mappings interface ! i)) of
               None \<Rightarrow> None
             | Some (Inl ares) \<Rightarrow> Some (Inl ares)
             | Some (Inr d) \<Rightarrow>
                 let entries = entries @ [\<lparr>oe_path = name, oe_data = d\<rparr>] in
                 (case astarte_bson_deserializer_next_element mem bson_doc inner_elem of
                    None \<Rightarrow> None
                  | Some (Inl ares) \<Rightarrow>
                      if ares \<noteq> ASTARTE_RESULT_NOT_FOUND then Some (Inl ares) else Some (Inr entries)
                  | Some (Inr inner_elem') \<Rightarrow>
                      if length entries < bson_doc_length
                      then object_loop heap mem interface path bson_doc bson_doc_length entries inner_elem'
                      else Some (Inr entries)))) }"
  by pat_completeness auto
termination
  by (relation "measure (\<lambda>(h, mem, i, p, d, n, es, e). length mem - el_value e)")
    (auto dest: next_element_consumes)

declare object_loop.simps [simp del]

fun endpoint_found :: "(nat \<Rightarrow> bool) \<Rightarrow> astarte_interface_t \<Rightarrow> byte list \<Rightarrow> nat \<Rightarrow> astarte_object_entry_t list \<Rightarrow> bool" where
  "endpoint_found heap interface path i [] = False"
| "endpoint_found heap interface path i (entry # entries) =
     (if astarte_interface_get_mapping_from_paths heap interface path (oe_path entry) = Inr i then True
      else endpoint_found heap interface path i entries)"

fun verify_endpoints ::
    "(nat \<Rightarrow> bool) \<Rightarrow> astarte_interface_t \<Rightarrow> byte list \<Rightarrow> astarte_object_entry_t list \<Rightarrow> nat list \<Rightarrow>
     astarte_result_t" where
  "verify_endpoints heap interface path entries [] = ASTARTE_RESULT_OK"
| "verify_endpoints heap interface path entries (i # is) =
     (if \<not> mp_required (if_mappings interface ! i) then verify_endpoints heap interface path entries is
      else if \<not> endpoint_found heap interface path i entries
      then ASTARTE_RESULT_INCOMPLETE_AGGREGATION_OBJECT
      else verify_endpoints heap interface path entries is)"

definition verify_required_endpoints_present ::
    "(nat \<Rightarrow> bool) \<Rightarrow> astarte_interface_t \<Rightarrow> byte list \<Rightarrow> astarte_object_entry_t list \<Rightarrow> astarte_result_t" where
  "verify_required_endpoints_present heap interface path entries =
     verify_endpoints heap interface path entries [0..<length (if_mappings interface)]"

text \<open>The size of an entry on a 32-bit target: the path, padding, the union, its tag and its flag.\<close>

definition sizeof_entry :: nat where "sizeof_entry = 32"

definition astarte_object_entries_deserialize ::
    "(nat \<Rightarrow> bool) \<Rightarrow> byte list \<Rightarrow> astarte_bson_element_t \<Rightarrow> astarte_interface_t \<Rightarrow> byte list \<Rightarrow>
     astarte_object_entry_t list outcome" where
  "astarte_object_entries_deserialize heap mem bson_elem interface path =
     (if el_type bson_elem \<noteq> ASTARTE_BSON_TYPE_DOCUMENT
      then Some (Inl ASTARTE_RESULT_BSON_DESERIALIZER_ERROR)
      else do {
        bson_doc \<leftarrow> astarte_bson_deserializer_element_to_document mem bson_elem;
        out_bind (astarte_bson_deserializer_doc_count_elements mem bson_doc) (\<lambda>bson_doc_length.
          if bson_doc_length = 0 then Some (Inl ASTARTE_RESULT_BSON_EMPTY_DOCUMENT_ERROR)
          else if \<not> astarte_calloc heap bson_doc_length sizeof_entry
          then Some (Inl ASTARTE_RESULT_OUT_OF_MEMORY)
          else out_bind (astarte_bson_deserializer_first_element mem bson_doc) (\<lambda>inner_elem.
            out_bind (object_loop heap mem interface path bson_doc bson_doc_length [] inner_elem) (\<lambda>entries.
              let ares = verify_required_endpoints_present heap interface path entries in
              if ares \<noteq> ASTARTE_RESULT_OK then Some (Inl ares) else Some (Inr entries)))) })"

text \<open>The blocks freed: those of every entry's data, with the index of the entry, and the array.\<close>

definition astarte_object_entries_destroy_deserialized ::
    "astarte_object_entry_t list \<Rightarrow> (nat \<times> data_block) list \<times> bool" where
  "astarte_object_entries_destroy_deserialized entries =
     (concat (map (\<lambda>i. map (Pair i) (astarte_data_destroy_deserialized (oe_data (entries ! i))))
        [0..<length entries]), True)"

section \<open>The document of an object\<close>

definition fields :: "astarte_object_entry_t list \<Rightarrow> (byte list \<times> bson_value) list" where
  "fields es = map (\<lambda>e. (c_string (oe_path e), bson_of (data (oe_data e)))) es"

definition entries_ok :: "astarte_object_entry_t list \<Rightarrow> bool" where
  "entries_ok es = list_all (\<lambda>e. data_ok (data (oe_data e))) es"

lemma fields_simps [simp]:
  "fields [] = []"
  "fields (e # es) = (c_string (oe_path e), bson_of (data (oe_data e))) # fields es"
  by (simp_all add: fields_def)

lemma length_fields [simp]: "length (fields es) = length es"
  by (simp add: fields_def)

lemma wf_fields: "wf_elems (fields es)"
  by (induction es) (simp_all add: wf_bson_of)

lemma entries_serialize_step:
  "astarte_object_entries_serialize heap bson (e # es) =
     and_then (astarte_data_serialize heap bson (oe_path e) (oe_data e))
       (\<lambda>bson. astarte_object_entries_serialize heap bson es)"
  by (simp add: and_then_def split: prod.splits)

lemma entries_serialize_appends:
  "entries_ok es \<Longrightarrow>
   appends heap (\<lambda>s. astarte_object_entries_serialize heap s es) (enc_elems (fields es))"
proof (induction es)
  case Nil
  then show ?case using appends_nop by simp
next
  case (Cons e es)
  then have "appends heap
      (\<lambda>s. and_then (astarte_data_serialize heap s (oe_path e) (oe_data e))
        (\<lambda>s. astarte_object_entries_serialize heap s es))
      (enc_elem (c_string (oe_path e), bson_of (data (oe_data e))) @ enc_elems (fields es))"
    by (intro appends_seq serialize_appends) (simp_all add: entries_ok_def)
  then show ?case
    by (rule appends_cong) (simp_all add: entries_serialize_step enc_elem_def
        del: astarte_object_entries_serialize.simps)
qed

section \<open>Reading an object back\<close>

text \<open>The entry the deserializer makes of an entry that was serialized.\<close>

definition received_entry :: "astarte_object_entry_t \<Rightarrow> astarte_object_entry_t" where
  "received_entry e =
     \<lparr>oe_path = c_string (oe_path e), oe_data = \<lparr>data = received (data (oe_data e)), is_owned = True\<rparr>\<rparr>"

text \<open>The interface has a mapping of the right type for the entry.\<close>

definition typed_entry :: "(nat \<Rightarrow> bool) \<Rightarrow> astarte_interface_t \<Rightarrow> byte list \<Rightarrow> astarte_object_entry_t \<Rightarrow> bool" where
  "typed_entry heap interface path e \<longleftrightarrow>
     (case astarte_interface_get_mapping_from_paths heap interface path (c_string (oe_path e)) of
        Inl _ \<Rightarrow> False
      | Inr i \<Rightarrow> mp_type (if_mappings interface ! i) = tag (oe_data e))"

lemma rd_cstring_enc:
  assumes "bytes_at mem p (n @ [0])" "nul_free n"
  shows "rd_cstring mem p = Some n"
proof -
  have len: "p + length n < length mem" using bytes_at_le [OF assms(1)] by simp
  then have "strnlen mem p (length mem - p) = Some (length n)"
    using assms by (intro bytes_at_strnlen) simp_all
  moreover have "bytes_at mem p n" using assms(1) by simp
  then have "take (length n) (drop p mem) = n" by (simp add: bytes_at_def)
  ultimately show ?thesis using len by (simp add: rd_cstring_def)
qed

lemma object_loop_enc:
  assumes heap: "ample heap"
  shows "el_read mem d e x xs \<Longrightarrow> x # xs = fields es \<Longrightarrow> entries_ok es \<Longrightarrow>
    list_all (\<lambda>e. blobs_pos (data (oe_data e)) \<and> typed_entry heap interface path e) es \<Longrightarrow>
    n = length acc + length es \<Longrightarrow>
    object_loop heap mem interface path d n acc e = Some (Inr (acc @ map received_entry es))"
proof (induction es arbitrary: e x xs acc)
  case (Cons f es)
  let ?u = "data (oe_data f)"
  have x: "x = (c_string (oe_path f), bson_of ?u)" and xs: "xs = fields es"
    using Cons.prems(2) by simp_all
  have is_x: "elem_is mem e (c_string (oe_path f), bson_of ?u)"
    using Cons.prems(1) x by (simp add: el_read_def)
  then have name: "rd_cstring mem (el_name e) = Some (c_string (oe_path f))"
    by (intro rd_cstring_enc) (simp_all add: elem_is_def)
  obtain i where i: "astarte_interface_get_mapping_from_paths heap interface path (c_string (oe_path f)) = Inr i"
      "mp_type (if_mappings interface ! i) = union_tag ?u"
    using Cons.prems(4) by (auto simp: typed_entry_def split: sum.splits)
  have vl: "astarte_data_deserialize heap mem e (union_tag ?u) = Some (Inr \<lparr>data = received ?u, is_owned = True\<rparr>)"
    using is_x Cons.prems(3,4) heap el_read_small [OF Cons.prems(1)] x
    by (intro deserialize_enc) (simp_all add: entries_ok_def)
  show ?case
  proof (cases es)
    case Nil
    with next_element_enc [OF Cons.prems(1)] xs
    have "astarte_bson_deserializer_next_element mem d e = Some (Inl ASTARTE_RESULT_NOT_FOUND)" by simp
    with name i vl Nil show ?thesis
      by (subst object_loop.simps) (simp add: received_entry_def)
  next
    case (Cons g gs)
    then obtain y ys where y: "xs = y # ys" using xs by simp
    with next_element_enc [OF Cons.prems(1)] obtain e' where
      e': "astarte_bson_deserializer_next_element mem d e = Some (Inr e')" "el_read mem d e' y ys" by auto
    have "object_loop heap mem interface path d n (acc @ [received_entry f]) e' =
        Some (Inr ((acc @ [received_entry f]) @ map received_entry es))"
      using Cons.IH [OF e'(2)] Cons.prems y xs by (simp add: entries_ok_def)
    with name i vl e' Cons Cons.prems(5) show ?thesis
      by (subst object_loop.simps) (simp add: received_entry_def)
  qed
qed simp

lemma entries_deserialize_enc:
  assumes e: "elem_is mem e (k, BDocument (fields es))" and small: "length (enc_doc (fields es)) < 2 ^ 32"
    and es: "es \<noteq> []" "entries_ok es" and heap: "ample heap"
    and typed: "list_all (\<lambda>e. blobs_pos (data (oe_data e)) \<and> typed_entry heap interface path e) es"
  shows "astarte_object_entries_deserialize heap mem e interface path =
    (let ares = verify_required_endpoints_present heap interface path (map received_entry es) in
     if ares \<noteq> ASTARTE_RESULT_OK then Some (Inl ares) else Some (Inr (map received_entry es)))"
proof -
  have "reads_as mem e (BDocument (fields es))"
    using elem_reads_as [OF e] small by (simp add: wf_fields enc_doc_def)
  then obtain d where d: "astarte_bson_deserializer_element_to_document mem e = Some d"
      "doc_at mem d (fields es)" by auto
  obtain x xs where x: "x # xs = fields es" using es(1) by (cases es) auto
  from first_element_enc [OF d(2)] obtain e1 where
    e1: "astarte_bson_deserializer_first_element mem d = Some (Inr e1)" "el_read mem d e1 x xs"
    by (auto simp flip: x)
  have "object_loop heap mem interface path d (length es) [] e1 = Some (Inr ([] @ map received_entry es))"
    using e1(2) x es(2) typed by (intro object_loop_enc [OF heap]) simp_all
  with d e1 es count_enc [OF d(2)] e heap show ?thesis
    by (simp add: astarte_object_entries_deserialize_def elem_is_def out_bind_def sizeof_entry_def)
qed

end
