(* ===== verification/Object_Spec.thy ===== *)
theory Object_Spec
  imports Object
begin

text \<open>
  When an object is complete: every endpoint its interface requires is the mapping of one of its entries,
  under the path joined from the path of the object and the path of the entry.  Both the validation of the
  sender (validation.c) and the deserialization of the receiver (object.c) decide this.
\<close>

section \<open>Joined paths\<close>

definition full_path :: "byte list \<Rightarrow> byte list \<Rightarrow> byte list" where
  "full_path p q = c_string p @ [slash] @ c_string q"

lemma paths_Inr:
  "astarte_interface_get_mapping_from_paths heap i p q = Inr j \<Longrightarrow>
   astarte_interface_get_mapping_from_path i (full_path p q) = Inr j"
  by (simp add: astarte_interface_get_mapping_from_paths_def full_path_def Let_def
      split: if_splits sum.splits)

lemma paths_ample:
  "ample heap \<Longrightarrow> astarte_interface_get_mapping_from_paths heap i p q =
     astarte_interface_get_mapping_from_path i (full_path p q)"
  using get_mapping_paths [of heap i p q] by (simp add: ample_def full_path_def)

section \<open>Completeness\<close>

lemma endpoint_loop_iff:
  "endpoint_loop heap i p j es \<longleftrightarrow>
     list_ex (\<lambda>e. astarte_interface_get_mapping_from_paths heap i p (oe_path e) = Inr j) es"
  "endpoint_found heap i p j es \<longleftrightarrow>
     list_ex (\<lambda>e. astarte_interface_get_mapping_from_paths heap i p (oe_path e) = Inr j) es"
  by (induction es) auto

lemma required_loop_iff:
  "required_loop heap i p es js = ASTARTE_RESULT_OK \<longleftrightarrow>
     list_all (\<lambda>j. mp_required (if_mappings i ! j) \<longrightarrow> endpoint_loop heap i p j es) js"
  "verify_endpoints heap i p es js = ASTARTE_RESULT_OK \<longleftrightarrow>
     list_all (\<lambda>j. mp_required (if_mappings i ! j) \<longrightarrow> endpoint_found heap i p j es) js"
  by (induction js) auto

definition complete :: "astarte_interface_t \<Rightarrow> byte list \<Rightarrow> astarte_object_entry_t list \<Rightarrow> bool" where
  "complete i p es \<longleftrightarrow>
     list_all (\<lambda>j. mp_required (if_mappings i ! j) \<longrightarrow>
         list_ex (\<lambda>e. astarte_interface_get_mapping_from_path i (full_path p (oe_path e)) = Inr j) es)
       [0..<length (if_mappings i)]"

lemma required_endpoints:
  assumes "ample heap"
  shows "verify_required_endpoints_present heap i p es =
    (if complete i p es then ASTARTE_RESULT_OK else ASTARTE_RESULT_INCOMPLETE_AGGREGATION_OBJECT)"
proof -
  have "verify_endpoints heap i p es js =
      (if list_all (\<lambda>j. mp_required (if_mappings i ! j) \<longrightarrow> endpoint_found heap i p j es) js then ASTARTE_RESULT_OK
       else ASTARTE_RESULT_INCOMPLETE_AGGREGATION_OBJECT)" for js
    by (induction js) auto
  then show ?thesis
    by (simp add: verify_required_endpoints_present_def complete_def endpoint_loop_iff paths_ample [OF assms])
qed

text \<open>The paths of the entries that are read back are cut at their zero byte, which changes no joined path.\<close>

lemma complete_received [simp]: "complete i p (map received_entry es) = complete i p es"
  by (simp add: complete_def received_entry_def full_path_def list_ex_iff)

end
