(* ===== verification/Data_Safe.thy ===== *)
theory Data_Safe
  imports Data_Codec Bson_Safe
begin

text \<open>
  The deserialization of data stays inside the received buffer: for an element a traversal of the
  document hands out, whatever its type byte and its declared lengths are, reading it as any
  Astarte type ends with a value or a result code.
\<close>

lemma compatible_type:
  "astarte_mapping_bson_is_compatible t b \<Longrightarrow> expected_bson_type t = Some c \<Longrightarrow>
   c \<noteq> ASTARTE_BSON_TYPE_INT64 \<Longrightarrow> b = c"
  by (simp add: astarte_mapping_bson_is_compatible_def split: if_splits)

lemma compatible_int64:
  "astarte_mapping_bson_is_compatible ASTARTE_MAPPING_TYPE_LONGINTEGER b \<Longrightarrow>
   b = ASTARTE_BSON_TYPE_INT64 \<or> b = ASTARTE_BSON_TYPE_INT32"
  by (simp add: astarte_mapping_bson_is_compatible_def split: if_splits)

lemma rd_bytes_total: "p + n \<le> length mem \<Longrightarrow> rd_bytes mem p n \<noteq> None"
  by (simp add: rd_bytes_def)

lemma rd_string_total: "p + n \<le> length mem \<Longrightarrow> rd_string mem p n \<noteq> None"
  using strnlen_total by (fastforce simp: rd_string_def)

lemma blob_total:
  assumes "el_in mem d e" "el_type e = ASTARTE_BSON_TYPE_BINARY"
  shows "deserialize_binaryblob heap mem e \<noteq> None" "get_blob heap mem e \<noteq> None"
proof -
  from assms obtain p len where b: "astarte_bson_deserializer_element_to_binary mem e = Some (p, len)"
      "p + unat len \<le> length mem"
    by (rule binary_in)
  then obtain bs where "rd_bytes mem p (unat len) = Some bs"
    using rd_bytes_total by blast
  with b show "deserialize_binaryblob heap mem e \<noteq> None" "get_blob heap mem e \<noteq> None"
    by (simp_all add: deserialize_binaryblob_def get_blob_def)
qed

lemma string_total:
  assumes "el_in mem d e" "el_type e = ASTARTE_BSON_TYPE_STRING"
  shows "deserialize_string heap mem e \<noteq> None" "get_string heap mem e \<noteq> None"
proof -
  from assms obtain p len where s: "astarte_bson_deserializer_element_to_string mem e = Some (p, len)"
      "p + unat len \<le> length mem"
    by (rule string_in)
  then obtain b where "rd_string mem p (unat len) = Some b"
    using rd_string_total by blast
  with s show "deserialize_string heap mem e \<noteq> None" "get_string heap mem e \<noteq> None"
    by (simp_all add: deserialize_string_def get_string_def)
qed

section \<open>Arrays\<close>

definition gets_in :: "byte list \<Rightarrow> astarte_mapping_type_t \<Rightarrow> (astarte_bson_element_t \<Rightarrow> 'a outcome) \<Rightarrow> bool" where
  "gets_in mem t get \<longleftrightarrow>
     (\<forall>d e. el_in mem d e \<longrightarrow> astarte_mapping_bson_is_compatible t (el_type e) \<longrightarrow> get e \<noteq> None)"

lemma array_loop_total:
  "gets_in mem t get \<Longrightarrow> el_in mem d e \<Longrightarrow> array_loop mem d t grow get cap arr e \<noteq> None"
proof (induction mem d t grow get cap arr e rule: array_loop.induct)
  case (1 mem d t grow get cap arr e)
  show ?case
  proof (cases "astarte_mapping_bson_is_compatible t (el_type e) \<and> \<not> (length arr \<ge> cap \<and> \<not> grow (cap * 2))")
    case False
    then show ?thesis by (subst array_loop.simps) auto
  next
    case True
    then obtain r where r: "get e = Some r"
      using "1.prems" by (auto simp: gets_in_def)
    show ?thesis
    proof (cases r)
      case (Inl a)
      with True r show ?thesis by (subst array_loop.simps) (simp add: Let_def)
    next
      case (Inr v)
      show ?thesis
        using "1.prems"(2)
      proof (cases rule: next_element_safe)
        case (stop a)
        with True r Inr show ?thesis by (subst array_loop.simps) (simp add: Let_def)
      next
        case (elem e')
        with True r Inr "1.IH" [OF _ _ refl r Inr elem(1) refl "1.prems"(1) elem(2)] show ?thesis
          by (subst array_loop.simps) (simp add: Let_def)
      qed
    qed
  qed
qed

lemma read_array_total:
  assumes get: "gets_in mem t get" and d: "doc_in mem d"
  shows "read_array mem d t at alloc grow get mk \<noteq> None"
  using d
proof (cases rule: first_element_safe)
  case (stop r)
  then show ?thesis by (simp add: read_array_def initialize_empty_array_def)
next
  case (elem e)
  with array_loop_total [OF get elem(2)] obtain r xs where
    "array_loop mem d t grow get 4 [] e = Some (r, xs)" by fastforce
  with elem show ?thesis by (simp add: read_array_def initialize_empty_array_def)
qed

lemma el_accessors_in:
  assumes "el_in mem d e"
  shows "el_type e = ASTARTE_BSON_TYPE_BOOLEAN \<Longrightarrow> astarte_bson_deserializer_element_to_bool mem e \<noteq> None"
    "el_type e = ASTARTE_BSON_TYPE_DATETIME \<Longrightarrow> astarte_bson_deserializer_element_to_datetime mem e \<noteq> None"
    "el_type e = ASTARTE_BSON_TYPE_DOUBLE \<Longrightarrow> astarte_bson_deserializer_element_to_double mem e \<noteq> None"
    "el_type e = ASTARTE_BSON_TYPE_INT32 \<Longrightarrow> astarte_bson_deserializer_element_to_int32 mem e \<noteq> None"
    "el_type e = ASTARTE_BSON_TYPE_INT64 \<Longrightarrow> astarte_bson_deserializer_element_to_int64 mem e \<noteq> None"
  using el_in_readable [OF assms] unfolding value_readable_def Let_def by blast+

lemma not_int64:
  "ASTARTE_BSON_TYPE_BOOLEAN \<noteq> ASTARTE_BSON_TYPE_INT64" "ASTARTE_BSON_TYPE_DATETIME \<noteq> ASTARTE_BSON_TYPE_INT64"
  "ASTARTE_BSON_TYPE_DOUBLE \<noteq> ASTARTE_BSON_TYPE_INT64" "ASTARTE_BSON_TYPE_INT32 \<noteq> ASTARTE_BSON_TYPE_INT64"
  "ASTARTE_BSON_TYPE_STRING \<noteq> ASTARTE_BSON_TYPE_INT64" "ASTARTE_BSON_TYPE_BINARY \<noteq> ASTARTE_BSON_TYPE_INT64"
  by (simp_all add: bson_type_bytes)

lemma scalar_types:
  "astarte_mapping_bson_is_compatible ASTARTE_MAPPING_TYPE_BOOLEAN b \<Longrightarrow> b = ASTARTE_BSON_TYPE_BOOLEAN"
  "astarte_mapping_bson_is_compatible ASTARTE_MAPPING_TYPE_DATETIME b \<Longrightarrow> b = ASTARTE_BSON_TYPE_DATETIME"
  "astarte_mapping_bson_is_compatible ASTARTE_MAPPING_TYPE_DOUBLE b \<Longrightarrow> b = ASTARTE_BSON_TYPE_DOUBLE"
  "astarte_mapping_bson_is_compatible ASTARTE_MAPPING_TYPE_INTEGER b \<Longrightarrow> b = ASTARTE_BSON_TYPE_INT32"
  "astarte_mapping_bson_is_compatible ASTARTE_MAPPING_TYPE_STRING b \<Longrightarrow> b = ASTARTE_BSON_TYPE_STRING"
  "astarte_mapping_bson_is_compatible ASTARTE_MAPPING_TYPE_BINARYBLOB b \<Longrightarrow> b = ASTARTE_BSON_TYPE_BINARY"
  using compatible_type not_int64 by force+

lemma extract_int64_total:
  assumes "el_in mem d e" "el_type e = ASTARTE_BSON_TYPE_INT64 \<or> el_type e = ASTARTE_BSON_TYPE_INT32"
  shows "extract_int64 mem e \<noteq> None"
  using assms el_accessors_in(4,5) [OF assms(1)] by (auto simp: extract_int64_def)

lemma array_deserializers_total:
  assumes "doc_in mem d"
  shows "deserialize_array_bool heap mem d \<noteq> None" "deserialize_array_datetime heap mem d \<noteq> None"
    "deserialize_array_double heap mem d \<noteq> None" "deserialize_array_int32 heap mem d \<noteq> None"
    "deserialize_array_int64 heap mem d \<noteq> None" "deserialize_array_binblob heap mem d \<noteq> None"
    "deserialize_array_string heap mem d \<noteq> None"
  unfolding deserialize_array_bool_def deserialize_array_datetime_def deserialize_array_double_def
    deserialize_array_int32_def deserialize_array_int64_def deserialize_array_binblob_def
    deserialize_array_string_def
  by (rule read_array_total [OF _ assms];
      simp add: gets_in_def del: not_None_eq;
      blast dest: scalar_types compatible_int64 el_accessors_in blob_total string_total extract_int64_total)+

section \<open>Any type\<close>

lemma deserialize_total:
  assumes e: "el_in mem d e"
  shows "astarte_data_deserialize heap mem e t \<noteq> None"
proof (cases "is_scalar_type t")
  case True
  have "astarte_data_deserialize_scalar heap mem e t \<noteq> None"
  proof (cases "astarte_mapping_bson_is_compatible t (el_type e)")
    case compat: True
    note acc = el_accessors_in [OF e] blob_total(1) [OF e] string_total(1) [OF e]
    show ?thesis
      using compat True acc
      by (cases t)
        (auto simp: astarte_data_deserialize_scalar_def is_scalar_type_def
          dest!: scalar_types compatible_int64)
  qed (simp add: astarte_data_deserialize_scalar_def)
  then show ?thesis using True by (simp add: astarte_data_deserialize_def)
next
  case False
  have "astarte_data_deserialize_array heap mem e t \<noteq> None"
  proof (cases "el_type e = ASTARTE_BSON_TYPE_ARRAY")
    case True
    with nested_in [OF e] obtain d' where
      d': "astarte_bson_deserializer_element_to_array mem e = Some d'" "doc_in mem d'"
      by blast
    show ?thesis
      using True d'(1) array_deserializers_total [OF d'(2), of heap]
      by (cases t) (simp_all add: astarte_data_deserialize_array_def)
  qed (simp add: astarte_data_deserialize_array_def)
  then show ?thesis using False by (simp add: astarte_data_deserialize_def)
qed

end
