(* ===== verification/Bson_Claims.thy ===== *)
theory Bson_Claims
  imports Object_Spec Data_Safe
begin

text \<open>
  The properties of the BSON and data layer, each with a concrete instance: memory safety of
  everything a received document lets the library do, the bytes the serializer writes, and the
  round trips of data and objects.
\<close>

section \<open>Instances\<close>

text \<open>\<open>{"a": 1}\<close> and \<open>{"a": 1, "b": "hi"}\<close>.\<close>

definition demo_doc :: "byte list" where
  "demo_doc = [0x0C, 0, 0, 0, 0x10, 0x61, 0, 1, 0, 0, 0, 0]"

definition demo_entries :: "astarte_object_entry_t list" where
  "demo_entries = [\<lparr>oe_path = [0x61], oe_data = from_union (Integer 1)\<rparr>,
                   \<lparr>oe_path = [0x62], oe_data = from_union (String [0x68, 0x69])\<rparr>]"

definition demo_mapping :: "byte list \<Rightarrow> astarte_mapping_type_t \<Rightarrow> astarte_mapping_t" where
  "demo_mapping endpoint t =
     \<lparr>mp_endpoint = endpoint, mp_type = t, mp_reliability = ASTARTE_MAPPING_RELIABILITY_UNIQUE,
      mp_explicit_timestamp = False, mp_required = True, mp_retention = ASTARTE_MAPPING_RETENTION_DISCARD,
      mp_expiry = 0, mp_allow_unset = False\<rparr>"

text \<open>An aggregated interface with the endpoints \<open>/%{s}/a\<close> and \<open>/%{s}/b\<close>.\<close>

definition demo_interface :: astarte_interface_t where
  "demo_interface =
     \<lparr>if_name = [0x6F], if_major = 0, if_minor = 1, if_ownership = ASTARTE_INTERFACE_OWNERSHIP_SERVER,
      if_type = ASTARTE_INTERFACE_TYPE_DATASTREAM, if_aggregation = ASTARTE_INTERFACE_AGGREGATION_OBJECT,
      if_mappings = [demo_mapping [0x2F, 0x25, 0x7B, 0x73, 0x7D, 0x2F, 0x61] ASTARTE_MAPPING_TYPE_INTEGER,
                     demo_mapping [0x2F, 0x25, 0x7B, 0x73, 0x7D, 0x2F, 0x62] ASTARTE_MAPPING_TYPE_STRING]\<rparr>"

lemma ample_all [simp]: "ample (\<lambda>_. True)"
  by (simp add: ample_def)

section \<open>Received documents\<close>

text \<open>The entry check of the deserializer never reads outside the buffer it is given, whatever
  the buffer holds and whatever length it declares.\<close>

theorem check_validity_in_bounds:
  assumes "p + n \<le> length mem"
  shows "astarte_bson_deserializer_check_validity mem (Some p) n \<noteq> None"
  using assms by (rule check_validity_total)

theorem check_validity_in_bounds_witness:
  "astarte_bson_deserializer_check_validity [0xFF, 0xFF, 0xFF, 0xFF, 0] (Some 0) 5 \<noteq> None"
  by (rule check_validity_in_bounds) simp

text \<open>C9: Once the entry check accepted a buffer, everything a client can do with it stays inside the
  buffer and ends: stepping through the elements of any document reached, counting them, looking
  one up, entering nested documents and arrays, reading the values with the accessor of their type,
  and deserializing an element as data of any Astarte type.\<close>

theorem deserializer_memory_safe:
  assumes "p + n \<le> length mem"
    and "astarte_bson_deserializer_check_validity mem (Some p) n = Some True"
    and "astarte_bson_deserializer_init_doc mem (Some p) = Some root"
  shows "(\<forall>d. visits_doc mem root d \<longrightarrow>
            astarte_bson_deserializer_first_element mem d \<noteq> None \<and>
            astarte_bson_deserializer_doc_count_elements mem d \<noteq> None \<and>
            (\<forall>key. astarte_bson_deserializer_element_lookup mem d key \<noteq> None)) \<and>
         (\<forall>d e. visits mem root d e \<longrightarrow>
            astarte_bson_deserializer_next_element mem d e \<noteq> None \<and> value_readable mem e \<and>
            (\<forall>heap t. astarte_data_deserialize heap mem e t \<noteq> None))"
proof (intro conjI allI impI)
  obtain d0 where "astarte_bson_deserializer_init_doc mem (Some p) = Some d0" "doc_in mem d0"
    using assms(2,1) by (rule check_validity_doc)
  with assms(3) have root: "doc_in mem root" by simp
  fix d
  {
    assume "visits_doc mem root d"
    then have d: "doc_in mem d" by (rule visits_in(1) [OF root])
    then show "astarte_bson_deserializer_first_element mem d \<noteq> None"
      by (rule first_element_safe) simp_all
    show "astarte_bson_deserializer_doc_count_elements mem d \<noteq> None"
      using count_safe [OF d] by auto
    show "astarte_bson_deserializer_element_lookup mem d key \<noteq> None" for key
      using lookup_safe [OF d, of key] by auto
  next
    fix e
    assume "visits mem root d e"
    then have e: "el_in mem d e" by (rule visits_in(2) [OF root])
    then show "astarte_bson_deserializer_next_element mem d e \<noteq> None"
      by (rule next_element_safe) simp_all
    show "value_readable mem e" using e by (rule el_in_readable)
    show "astarte_data_deserialize heap mem e t \<noteq> None" for heap t
      using e by (rule deserialize_total)
  }
qed

theorem deserializer_memory_safe_witness:
  "\<exists>root e. visits demo_doc root root e \<and> astarte_bson_deserializer_next_element demo_doc root e \<noteq> None"
proof -
  have check: "astarte_bson_deserializer_check_validity demo_doc (Some 0) 12 = Some True" by code_simp
  define root where "root = \<lparr>doc_size = 12, doc_list = Some 4, doc_list_size = 7\<rparr>"
  have init: "astarte_bson_deserializer_init_doc demo_doc (Some 0) = Some root"
    unfolding root_def by code_simp
  define e where "e = \<lparr>el_type = 0x10, el_name = 5, el_name_len = 1, el_value = 7\<rparr>"
  have "astarte_bson_deserializer_first_element demo_doc root = Some (Inr e)"
    unfolding root_def e_def by code_simp
  then have v: "visits demo_doc root root e" by (rule visit_first [OF visit_root])
  have "0 + 12 \<le> length demo_doc" by (simp add: demo_doc_def)
  from deserializer_memory_safe [OF this check init] v show ?thesis by blast
qed

section \<open>What the serializer writes\<close>

text \<open>C23: Serializing a piece of data under a key into an open document appends exactly the BSON
  element of that name and value.  The only other outcome is that the heap refused to grow the
  buffer; then the result is \<open>OUT_OF_MEMORY\<close> and a part of the element may have been written.\<close>

theorem data_serialize_appends_element:
  assumes "data_ok (data d)" and "ser_open s"
  shows "case astarte_data_serialize heap s key d of (r, s') \<Rightarrow>
      ser_open s' \<and>
      (r = ASTARTE_RESULT_OK \<and> ser_bytes s' = ser_bytes s @ enc_elem (c_string key, bson_of (data d))
       \<or> r = ASTARTE_RESULT_OUT_OF_MEMORY \<and> (\<exists>n. \<not> heap n) \<and>
         (\<exists>p q. enc_elem (c_string key, bson_of (data d)) = p @ q \<and> ser_bytes s' = ser_bytes s @ p))"
  using serialize_appends [OF assms(1), of heap key] assms(2)
proof (cases rule: appends_cases)
  case (ok s')
  then show ?thesis by (simp add: extends_def)
next
  case (oom s' n)
  then show ?thesis by (auto simp: partly_def extends_def)
qed

definition demo_serializer :: astarte_bson_serializer_t where
  "demo_serializer = \<lparr>bs_capacity = 4, bs_size = 4, bs_buf = Some [0, 0, 0, 0], bs_terminated = False\<rparr>"

theorem data_serialize_appends_element_witness:
  "ser_open (snd (astarte_data_serialize (\<lambda>n. n < 64) demo_serializer [0x61] (from_union (Integer 1))))"
proof -
  have "ser_open demo_serializer"
    by (simp add: demo_serializer_def ser_open_def ser_ok_def)
  moreover have "data_ok (data (from_union (Integer 1)))" by (simp add: from_union_def)
  ultimately show ?thesis
    using data_serialize_appends_element [where d = "from_union (Integer 1)" and s = demo_serializer
        and heap = "\<lambda>n. n < 64" and key = "[0x61]"]
    by (simp add: case_prod_beta)
qed

text \<open>The document of an object: initialise, serialize the entries, close.\<close>

definition object_document ::
    "(nat \<Rightarrow> bool) \<Rightarrow> astarte_object_entry_t list \<Rightarrow> astarte_result_t \<times> astarte_bson_serializer_t" where
  "object_document heap es =
     and_then (astarte_bson_serializer_init heap zero_serializer)
       (\<lambda>s. and_then (astarte_object_entries_serialize heap s es)
         (astarte_bson_serializer_append_end_of_document heap))"

lemma object_document_cases:
  assumes "entries_ok es"
  obtains (ok) s where "object_document heap es = (ASTARTE_RESULT_OK, s)"
      "astarte_bson_serializer_get_serialized s = Some (enc_doc (fields es), length (enc_doc (fields es)))"
      "bs_terminated s"
    | (oom) s n where "object_document heap es = (ASTARTE_RESULT_OUT_OF_MEMORY, s)" "\<not> heap n"
proof (cases rule: init_spec [of heap zero_serializer])
  case (ok s1)
  note init = this
  show thesis
    using entries_serialize_appends [OF assms, of heap] writing_open [OF init(2)]
  proof (cases rule: appends_cases)
    case (ok s2)
    note body = this
    have "writing s2 (fields es)" using writing_extends [OF init(2) body(2)] by simp
    then show thesis
    proof (cases rule: end_of_document_spec [where heap = heap])
      case (ok s3)
      with init body show thesis by (intro that(1) [of s3]) (simp_all add: object_document_def)
    next
      case (oom s3 n)
      with init body show thesis by (intro that(2) [of s3 n]) (simp_all add: object_document_def)
    qed
  next
    case (oom s2 n)
    with init show thesis by (intro that(2) [of s2 n]) (simp_all add: object_document_def)
  qed
next
  case (oom s1)
  then show thesis by (intro that(2) [of s1 4]) (simp_all add: object_document_def)
qed

lemma object_document_ok:
  assumes "object_document heap es = (ASTARTE_RESULT_OK, s)"
    "astarte_bson_serializer_get_serialized s = Some (doc, n)" "entries_ok es"
  shows "doc = enc_doc (fields es) \<and> n = length (enc_doc (fields es))"
  using assms(3) by (cases rule: object_document_cases [where heap = heap]) (use assms(1,2) in auto)

text \<open>Building the document of an object (initialise a serializer, serialize the entries, close
  it) either fails because the heap refused a request, or gives exactly the BSON document of the
  entries, with its length in front and its terminator behind.\<close>

theorem object_document_bytes:
  assumes "entries_ok es"
  shows "case object_document heap es of (r, s) \<Rightarrow>
      r = ASTARTE_RESULT_OK \<and>
        astarte_bson_serializer_get_serialized s = Some (enc_doc (fields es), length (enc_doc (fields es)))
      \<or> r = ASTARTE_RESULT_OUT_OF_MEMORY \<and> (\<exists>n. \<not> heap n)"
  using assms by (cases rule: object_document_cases [where heap = heap]) auto

theorem object_document_bytes_witness:
  "astarte_bson_serializer_get_serialized (snd (object_document (\<lambda>_. True) demo_entries)) =
    Some ([0x16, 0, 0, 0, 0x10, 0x61, 0, 1, 0, 0, 0, 0x02, 0x62, 0, 3, 0, 0, 0, 0x68, 0x69, 0, 0], 22)"
proof -
  have "entries_ok demo_entries" by (simp add: demo_entries_def entries_ok_def from_union_def int32_max_def
      strlen_def c_string_def)
  moreover have "enc_doc (fields demo_entries) =
      [0x16, 0, 0, 0, 0x10, 0x61, 0, 1, 0, 0, 0, 0x02, 0x62, 0, 3, 0, 0, 0, 0x68, 0x69, 0, 0]"
    by code_simp
  ultimately show ?thesis
    using object_document_bytes [of demo_entries "\<lambda>_. True"] by (auto simp: case_prod_beta)
qed

text \<open>C32: A closed document stays as it is: every further serialization into it and a second closing
  are refused with \<open>BSON_SERIALIZER_ERROR\<close> and change nothing.\<close>

theorem closed_document_is_final:
  assumes "bs_terminated s" and "tag d \<noteq> ASTARTE_MAPPING_TYPE_INVALID"
  shows "astarte_data_serialize heap s key d = (ASTARTE_RESULT_BSON_SERIALIZER_ERROR, s) \<and>
    astarte_bson_serializer_append_document heap s key doc = (ASTARTE_RESULT_BSON_SERIALIZER_ERROR, s) \<and>
    astarte_bson_serializer_append_end_of_document heap s = (ASTARTE_RESULT_BSON_SERIALIZER_ERROR, s)"
  using assms
  by (cases "data d")
    (simp_all add: astarte_data_serialize_def astarte_bson_serializer_append_document_def
      astarte_bson_serializer_append_end_of_document_def astarte_bson_serializer_append_int32_def
      astarte_bson_serializer_append_int64_def astarte_bson_serializer_append_double_def
      astarte_bson_serializer_append_string_def astarte_bson_serializer_append_binary_def
      astarte_bson_serializer_append_boolean_def astarte_bson_serializer_append_datetime_def
      astarte_bson_serializer_append_int32_array_def astarte_bson_serializer_append_int64_array_def
      astarte_bson_serializer_append_double_array_def astarte_bson_serializer_append_string_array_def
      astarte_bson_serializer_append_binary_array_def astarte_bson_serializer_append_boolean_array_def
      astarte_bson_serializer_append_datetime_array_def append_array_def)

theorem closed_document_is_final_witness:
  "astarte_data_serialize (\<lambda>_. True) (demo_serializer\<lparr>bs_terminated := True\<rparr>) [0x61] (from_union (Boolean True))
    = (ASTARTE_RESULT_BSON_SERIALIZER_ERROR, demo_serializer\<lparr>bs_terminated := True\<rparr>)"
  using closed_document_is_final [where s = "demo_serializer\<lparr>bs_terminated := True\<rparr>"
      and d = "from_union (Boolean True)" and heap = "\<lambda>_. True" and key = "[0x61]"] by (simp add: from_union_def)

text \<open>C33: A string or a blob longer than \<open>INT32_MAX\<close> is refused with \<open>INVALID_PARAM\<close> before
  anything is written.\<close>

theorem oversized_data_refused:
  assumes "\<not> bs_terminated s"
    and "case data d of String str \<Rightarrow> strlen str > int32_max | Binaryblob b n \<Rightarrow> n > int32_max | _ \<Rightarrow> False"
  shows "astarte_data_serialize heap s key d = (ASTARTE_RESULT_INVALID_PARAM, s)"
  using assms
  by (cases "data d")
    (simp_all add: astarte_data_serialize_def astarte_bson_serializer_append_string_def
      astarte_bson_serializer_append_binary_def int32_max_def)

theorem oversized_data_refused_witness:
  "astarte_data_serialize (\<lambda>_. True) demo_serializer [0x61] (from_union (Binaryblob [] (2 ^ 31))) =
    (ASTARTE_RESULT_INVALID_PARAM, demo_serializer)"
  by (rule oversized_data_refused) (simp_all add: demo_serializer_def from_union_def int32_max_def)

section \<open>Round trips\<close>

lemma enc_doc_at_zero [simp]: "bytes_at (enc_doc es) 0 (enc_doc es)"
  by (simp add: bytes_at_def)

lemma find_field:
  assumes "distinct (map (c_string \<circ> oe_path) es)" "f \<in> set es"
  shows "find (\<lambda>y. fst y = c_string (oe_path f)) (fields es) =
    Some (c_string (oe_path f), bson_of (data (oe_data f)))"
  using assms by (induction es) auto

text \<open>The element of a small document that a lookup found is small.\<close>

lemma field_small:
  assumes "f \<in> set es" "length (enc_doc (fields es)) < 2 ^ 32"
  shows "length (enc_value (bson_of (data (oe_data f)))) < 2 ^ 32"
proof -
  have "length (enc_value (bson_of (data (oe_data f)))) \<le> length (enc_elems (fields es))"
    using assms(1) by (induction es) auto
  with assms(2) show ?thesis by (simp add: enc_doc_def)
qed

text \<open>C7: Data survives the wire.  When the document of some entries with distinct paths was built, the
  receiving side accepts it, counts as many elements as there were entries, finds every entry under
  its path, and reads from it the data that was put in: the same value of the same type, in memory
  of its own.\<close>

theorem data_roundtrip:
  assumes "object_document heap es = (ASTARTE_RESULT_OK, s)"
    and "astarte_bson_serializer_get_serialized s = Some (doc, n)" and "n < 2 ^ 32"
    and "entries_ok es" and "distinct (map (c_string \<circ> oe_path) es)"
    and "f \<in> set es" and "blobs_pos (data (oe_data f))" and "ample heap'"
  shows "\<exists>d el. astarte_bson_deserializer_check_validity doc (Some 0) n = Some True \<and>
      astarte_bson_deserializer_init_doc doc (Some 0) = Some d \<and>
      astarte_bson_deserializer_doc_count_elements doc d = Some (Inr (length es)) \<and>
      astarte_bson_deserializer_element_lookup doc d (c_string (oe_path f)) = Some (Inr el) \<and>
      astarte_data_deserialize heap' doc el (tag (oe_data f)) =
        Some (Inr \<lparr>data = received (data (oe_data f)), is_owned = True\<rparr>)"
proof -
  have doc: "doc = enc_doc (fields es)" "n = length (enc_doc (fields es))"
    using object_document_ok [OF assms(1,2,4)] by simp_all
  then have small: "length (enc_doc (fields es)) < 2 ^ 32" using assms(3) by simp
  obtain d where d: "astarte_bson_deserializer_init_doc doc (Some 0) = Some d" "doc_at doc d (fields es)"
    using enc_doc_at_zero [of "fields es"] small wf_fields unfolding doc by (rule init_doc_enc)
  have "astarte_bson_deserializer_check_validity doc (Some 0) n = Some True"
    unfolding doc by (rule check_validity_enc [where es = "fields es"])
      (use small in \<open>simp_all add: wf_fields\<close>)
  moreover have "astarte_bson_deserializer_doc_count_elements doc d = Some (Inr (length es))"
    using count_enc [OF d(2)] by simp
  moreover obtain el where
    "astarte_bson_deserializer_element_lookup doc d (c_string (oe_path f)) = Some (Inr el)"
    "elem_is doc el (c_string (oe_path f), bson_of (data (oe_data f)))"
    using lookup_enc [OF d(2), of "c_string (oe_path f)"] find_field [OF assms(5,6)]
    by (auto simp: found_def)
  moreover from this(2) have "astarte_data_deserialize heap' doc el (tag (oe_data f)) =
      Some (Inr \<lparr>data = received (data (oe_data f)), is_owned = True\<rparr>)"
    using assms(4,6,7,8) field_small [OF assms(6) small]
    by (intro deserialize_enc) (auto simp: entries_ok_def list_all_iff)
  ultimately show ?thesis using d(1) by blast
qed

lemma demo_entries_ok: "entries_ok demo_entries"
  by (simp add: demo_entries_def entries_ok_def from_union_def int32_max_def strlen_def c_string_def)

lemma demo_document:
  obtains s where "object_document (\<lambda>_. True) demo_entries = (ASTARTE_RESULT_OK, s)"
    "astarte_bson_serializer_get_serialized s =
      Some (enc_doc (fields demo_entries), length (enc_doc (fields demo_entries)))"
  using demo_entries_ok by (cases rule: object_document_cases [where heap = "\<lambda>_. True"]) auto

lemma demo_document_length: "length (enc_doc (fields demo_entries)) = 22"
  by (simp add: enc_doc_def demo_entries_def from_union_def c_string_def)

theorem data_roundtrip_witness:
  "\<exists>d el. astarte_bson_deserializer_element_lookup (enc_doc (fields demo_entries)) d [0x62] = Some (Inr el) \<and>
     astarte_data_deserialize (\<lambda>_. True) (enc_doc (fields demo_entries)) el ASTARTE_MAPPING_TYPE_STRING =
       Some (Inr \<lparr>data = String [0x68, 0x69], is_owned = True\<rparr>)"
proof -
  define f where "f = \<lparr>oe_path = [0x62], oe_data = from_union (String [0x68, 0x69])\<rparr>"
  obtain s where s: "object_document (\<lambda>_. True) demo_entries = (ASTARTE_RESULT_OK, s)"
    "astarte_bson_serializer_get_serialized s =
      Some (enc_doc (fields demo_entries), length (enc_doc (fields demo_entries)))"
    by (rule demo_document)
  have "length (enc_doc (fields demo_entries)) < 2 ^ 32" by (simp add: demo_document_length)
  moreover have "distinct (map (c_string \<circ> oe_path) demo_entries)" "f \<in> set demo_entries"
    "blobs_pos (data (oe_data f))" "c_string (oe_path f) = [0x62]" "tag (oe_data f) = ASTARTE_MAPPING_TYPE_STRING"
    "received (data (oe_data f)) = String [0x68, 0x69]"
    by (simp_all add: f_def demo_entries_def from_union_def c_string_def)
  ultimately show ?thesis
    using data_roundtrip [OF s _ demo_entries_ok, of f "\<lambda>_. True"] by auto
qed

text \<open>C8: An aggregated object survives the wire.  Its document, sent as the value of a key of an outer
  document, is found there by the receiver and read back entry by entry with the types of the
  interface, as long as the interface has a mapping of the right type for every entry; the object
  is refused, as incomplete, exactly if some endpoint that the interface requires is the mapping of no
  entry (\<open>complete\<close>).\<close>

theorem object_roundtrip:
  assumes "object_document heap es = (ASTARTE_RESULT_OK, s)"
    and "astarte_bson_serializer_get_serialized s = Some (doc, n)"
    and "astarte_bson_serializer_init heap zero_serializer = (ASTARTE_RESULT_OK, s0)"
    and "astarte_bson_serializer_append_document heap s0 key doc = (ASTARTE_RESULT_OK, s1)"
    and "astarte_bson_serializer_append_end_of_document heap s1 = (ASTARTE_RESULT_OK, s2)"
    and "astarte_bson_serializer_get_serialized s2 = Some (outer, m)" and "m < 2 ^ 32"
    and "es \<noteq> []" and "entries_ok es" and "ample heap'"
    and "list_all (\<lambda>e. blobs_pos (data (oe_data e)) \<and> typed_entry heap' interface path e) es"
    and "n < 2 ^ 32"
  shows "\<exists>d el. astarte_bson_deserializer_init_doc outer (Some 0) = Some d \<and>
      astarte_bson_deserializer_element_lookup outer d (c_string key) = Some (Inr el) \<and>
      astarte_object_entries_deserialize heap' outer el interface path =
        Some (if complete interface path es then Inr (map received_entry es)
              else Inl ASTARTE_RESULT_INCOMPLETE_AGGREGATION_OBJECT)"
proof -
  have doc: "doc = enc_doc (fields es)"
    using object_document_ok [OF assms(1,2,9)] by simp
  have s0: "writing s0 []"
    by (cases rule: init_spec [of heap zero_serializer]) (use assms(3) in auto)
  define out where "out = [(c_string key, BDocument (fields es))]"
  have inner: "length (enc_doc (fields es)) < 2 ^ 32"
    using object_document_ok [OF assms(1,2,9)] assms(12) by simp
  have s1: "writing s1 out"
    using append_document [OF inner, of heap key] writing_open [OF s0]
  proof (cases rule: appends_cases)
    case (ok s')
    with assms(4) doc writing_elem [OF s0] show ?thesis by (simp add: out_def)
  next
    case (oom s' k)
    with assms(4) doc show ?thesis by simp
  qed
  then have outer: "outer = enc_doc out" and small: "length (enc_doc out) < 2 ^ 32"
    using assms(7) by (cases rule: end_of_document_spec [where heap = heap], use assms(5,6) in auto)+
  have wf: "wf_elems out" by (simp add: out_def wf_fields)
  obtain d where d: "astarte_bson_deserializer_init_doc outer (Some 0) = Some d" "doc_at outer d out"
    using enc_doc_at_zero [of out] small wf unfolding outer by (rule init_doc_enc)
  obtain el where el: "astarte_bson_deserializer_element_lookup outer d (c_string key) = Some (Inr el)"
      "elem_is outer el (c_string key, BDocument (fields es))"
    using lookup_enc [OF d(2), of "c_string key"] by (auto simp: found_def out_def)
  from entries_deserialize_enc [OF el(2) inner assms(8,9,10,11)] d(1) el(1) show ?thesis
    by (simp add: required_endpoints [OF assms(10)])
qed

lemma demo_typed:
  "list_all (\<lambda>e. blobs_pos (data (oe_data e)) \<and> typed_entry (\<lambda>_. True) demo_interface [0x2F, 0x78] e) demo_entries"
  by code_simp

lemma demo_complete: "complete demo_interface [0x2F, 0x78] demo_entries"
  by code_simp

theorem object_roundtrip_witness:
  "\<exists>outer d el. astarte_object_entries_deserialize (\<lambda>_. True) outer el demo_interface [0x2F, 0x78] =
      Some (Inr (map received_entry demo_entries)) \<and>
    astarte_bson_deserializer_element_lookup outer d [0x76] = Some (Inr el)"
proof -
  obtain s where s: "object_document (\<lambda>_. True) demo_entries = (ASTARTE_RESULT_OK, s)"
    "astarte_bson_serializer_get_serialized s =
      Some (enc_doc (fields demo_entries), length (enc_doc (fields demo_entries)))"
    by (rule demo_document)
  obtain s0 where s0: "astarte_bson_serializer_init (\<lambda>_. True) zero_serializer = (ASTARTE_RESULT_OK, s0)"
      "writing s0 []"
    by (cases rule: init_spec [of "\<lambda>_. True" zero_serializer]) auto
  have small: "length (enc_doc (fields demo_entries)) < 2 ^ 32" by (simp add: demo_document_length)
  obtain s1 where s1:
      "astarte_bson_serializer_append_document (\<lambda>_. True) s0 [0x76] (enc_doc (fields demo_entries)) = (ASTARTE_RESULT_OK, s1)"
      "writing s1 [([0x76], BDocument (fields demo_entries))]"
    using append_document [OF small, of "\<lambda>_. True" "[0x76]"] writing_open [OF s0(2)]
  proof (cases rule: appends_cases)
    case (ok s')
    moreover have "c_string [0x76] = [0x76]" by (simp add: c_string_def)
    ultimately show ?thesis
      using writing_elem [OF s0(2)] by (intro that [of s']) simp_all
  qed simp
  define out where "out = [([0x76] :: byte list, BDocument (fields demo_entries))]"
  obtain s2 where s2: "astarte_bson_serializer_append_end_of_document (\<lambda>_. True) s1 = (ASTARTE_RESULT_OK, s2)"
      "astarte_bson_serializer_get_serialized s2 = Some (enc_doc out, length (enc_doc out))"
    using s1(2) by (cases rule: end_of_document_spec [where heap = "\<lambda>_. True"]) (auto simp: out_def)
  have "length (enc_doc out) < 2 ^ 32"
    using demo_document_length by (simp add: enc_doc_def out_def)
  moreover have "demo_entries \<noteq> []" "c_string [0x76] = [0x76]"
    by (simp_all add: demo_entries_def c_string_def)
  ultimately show ?thesis
    using object_roundtrip [OF s s0(1) s1(1) s2 _ _ demo_entries_ok _ demo_typed] small demo_complete by auto
qed

section \<open>Types\<close>

text \<open>The BSON type that carries a mapping type, as the protocol of Astarte has it.\<close>

fun wire_type :: "astarte_mapping_type_t \<Rightarrow> u8" where
  "wire_type ASTARTE_MAPPING_TYPE_BINARYBLOB = 0x05"
| "wire_type ASTARTE_MAPPING_TYPE_BOOLEAN = 0x08"
| "wire_type ASTARTE_MAPPING_TYPE_DATETIME = 0x09"
| "wire_type ASTARTE_MAPPING_TYPE_DOUBLE = 0x01"
| "wire_type ASTARTE_MAPPING_TYPE_INTEGER = 0x10"
| "wire_type ASTARTE_MAPPING_TYPE_LONGINTEGER = 0x12"
| "wire_type ASTARTE_MAPPING_TYPE_STRING = 0x02"
| "wire_type _ = 0x04"

text \<open>C40: A longinteger accepts both integer widths of the wire: an int64 as it is, an int32
  sign-extended.  Every other value whose BSON type is not the one of the mapping, scalar or array, is
  refused as a type error, whatever the heap.\<close>

theorem longinteger_widens:
  assumes "elem_is mem e (k, v)"
  shows "(\<forall>w. v = BInt64 w \<longrightarrow> astarte_data_deserialize heap mem e ASTARTE_MAPPING_TYPE_LONGINTEGER =
            Some (Inr \<lparr>data = Longinteger w, is_owned = True\<rparr>)) \<and>
         (\<forall>w. v = BInt32 w \<longrightarrow> astarte_data_deserialize heap mem e ASTARTE_MAPPING_TYPE_LONGINTEGER =
            Some (Inr \<lparr>data = Longinteger (scast w), is_owned = True\<rparr>)) \<and>
         (\<forall>t. t \<noteq> ASTARTE_MAPPING_TYPE_INVALID \<longrightarrow> wire_type t \<noteq> type_byte v \<longrightarrow>
            \<not> (t = ASTARTE_MAPPING_TYPE_LONGINTEGER \<and> type_byte v = ASTARTE_BSON_TYPE_INT32) \<longrightarrow>
            astarte_data_deserialize heap mem e t = Some (Inl ASTARTE_RESULT_BSON_DESERIALIZER_TYPES_ERROR))"
proof (intro conjI allI impI)
  have type: "el_type e = type_byte v" using assms by (simp add: elem_is_def)
  note long = astarte_data_deserialize_def is_scalar_type_def astarte_data_deserialize_scalar_def
    astarte_data_from_longinteger_def
  fix w assume v: "v = BInt64 w"
  then have "astarte_bson_deserializer_element_to_int64 mem e = Some w" "el_type e = ASTARTE_BSON_TYPE_INT64"
    using assms elem_reads_as [of mem e k v] type by simp_all
  then show "astarte_data_deserialize heap mem e ASTARTE_MAPPING_TYPE_LONGINTEGER =
      Some (Inr \<lparr>data = Longinteger w, is_owned = True\<rparr>)"
    by (simp add: long bson_type_bytes astarte_mapping_bson_is_compatible_def)
next
  fix w assume v: "v = BInt32 w"
  then have "astarte_bson_deserializer_element_to_int32 mem e = Some w" "el_type e = ASTARTE_BSON_TYPE_INT32"
    using assms elem_reads_as [of mem e k v] by (simp_all add: elem_is_def)
  then show "astarte_data_deserialize heap mem e ASTARTE_MAPPING_TYPE_LONGINTEGER =
      Some (Inr \<lparr>data = Longinteger (scast w), is_owned = True\<rparr>)"
    by (simp add: astarte_data_deserialize_def is_scalar_type_def astarte_data_deserialize_scalar_def
        astarte_data_from_longinteger_def)
next
  fix t
  assume t: "t \<noteq> ASTARTE_MAPPING_TYPE_INVALID" "wire_type t \<noteq> type_byte v"
    "\<not> (t = ASTARTE_MAPPING_TYPE_LONGINTEGER \<and> type_byte v = ASTARTE_BSON_TYPE_INT32)"
  have type: "el_type e = type_byte v" using assms by (simp add: elem_is_def)
  show "astarte_data_deserialize heap mem e t = Some (Inl ASTARTE_RESULT_BSON_DESERIALIZER_TYPES_ERROR)"
  proof (cases "is_scalar_type t")
    case True
    then have "\<not> astarte_mapping_bson_is_compatible t (el_type e)"
      using t type by (cases t) (auto simp: astarte_mapping_bson_is_compatible_def is_scalar_type_def bson_type_bytes)
    then show ?thesis using True by (simp add: astarte_data_deserialize_def astarte_data_deserialize_scalar_def)
  next
    case False
    then have "el_type e \<noteq> ASTARTE_BSON_TYPE_ARRAY"
      using t type by (cases t) (auto simp: is_scalar_type_def bson_type_bytes)
    then show ?thesis using False t(1) by (simp add: astarte_data_deserialize_def astarte_data_deserialize_array_def)
  qed
qed

definition minus_one_doc :: "byte list" where
  "minus_one_doc = [0x0C, 0, 0, 0, 0x10, 0x61, 0, 0xFF, 0xFF, 0xFF, 0xFF, 0]"

definition minus_one_elem :: astarte_bson_element_t where
  "minus_one_elem = \<lparr>el_type = 0x10, el_name = 5, el_name_len = 1, el_value = 7\<rparr>"

theorem longinteger_widens_witness:
  "astarte_data_deserialize (\<lambda>_. False) minus_one_doc minus_one_elem ASTARTE_MAPPING_TYPE_LONGINTEGER =
     Some (Inr \<lparr>data = Longinteger (- 1), is_owned = True\<rparr>) \<and>
   astarte_data_deserialize (\<lambda>_. False) minus_one_doc minus_one_elem ASTARTE_MAPPING_TYPE_INTEGERARRAY =
     Some (Inl ASTARTE_RESULT_BSON_DESERIALIZER_TYPES_ERROR)"
proof -
  have "elem_is minus_one_doc minus_one_elem ([0x61], BInt32 (- 1))"
    by code_simp
  note t = longinteger_widens [OF this, of "\<lambda>_. False"]
  have "astarte_data_deserialize (\<lambda>_. False) minus_one_doc minus_one_elem ASTARTE_MAPPING_TYPE_LONGINTEGER =
      Some (Inr \<lparr>data = Longinteger (- 1), is_owned = True\<rparr>)"
    using t by simp
  moreover have "wire_type ASTARTE_MAPPING_TYPE_INTEGERARRAY \<noteq> type_byte (BInt32 (- 1))" by (simp add: bson_type_bytes)
  ultimately show ?thesis using t by simp
qed

text \<open>C27: An empty blob can be sent and never be received.  Serialized data of an empty blob is
  well-formed BSON, but its deserialization ends with \<open>OUT_OF_MEMORY\<close> on every heap, since the
  allocator of the library refuses a request of zero bytes.\<close>

theorem empty_blob_lost:
  assumes "elem_is mem e (k, bson_of (Binaryblob b 0))"
  shows "data_ok (Binaryblob b 0) \<and>
    astarte_data_deserialize heap mem e ASTARTE_MAPPING_TYPE_BINARYBLOB = Some (Inl ASTARTE_RESULT_OUT_OF_MEMORY)"
proof
  have "reads_as mem e (BBinary [])" "el_type e = ASTARTE_BSON_TYPE_BINARY"
    using assms elem_reads_as [of mem e k "BBinary []"] by (simp_all add: elem_is_def del: reads_as.simps)
  then show "astarte_data_deserialize heap mem e ASTARTE_MAPPING_TYPE_BINARYBLOB =
      Some (Inl ASTARTE_RESULT_OUT_OF_MEMORY)"
    using deserialize_empty_blob(1) [of mem e heap]
    by (simp add: astarte_data_deserialize_def is_scalar_type_def astarte_data_deserialize_scalar_def
        del: reads_as.simps)
qed (simp add: int32_max_def)

theorem empty_blob_lost_witness:
  "astarte_data_deserialize (\<lambda>_. True) [0x0D, 0, 0, 0, 0x05, 0x61, 0, 0, 0, 0, 0, 0, 0]
     \<lparr>el_type = 0x05, el_name = 5, el_name_len = 1, el_value = 7\<rparr> ASTARTE_MAPPING_TYPE_BINARYBLOB =
   Some (Inl ASTARTE_RESULT_OUT_OF_MEMORY)"
proof -
  have "elem_is [0x0D, 0, 0, 0, 0x05, 0x61, 0, 0, 0, 0, 0, 0, 0]
      \<lparr>el_type = 0x05, el_name = 5, el_name_len = 1, el_value = 7\<rparr> ([0x61], bson_of (Binaryblob [] 0))"
    by code_simp
  from empty_blob_lost [OF this, of "\<lambda>_. True"] show ?thesis by simp
qed

end
