(* ===== verification/Interface_Claims.thy ===== *)
theory Interface_Claims
  imports Introspection_Text Mapping_Path Bson_Claims
begin

text \<open>
  The properties of mappings, interfaces, validation and introspection.
\<close>

section \<open>Paths\<close>

text \<open>C17: A path matches an endpoint exactly if it has the same number of segments and each of its
  segments equals the endpoint's or, where the endpoint has a parameter, is not empty and free of
  the MQTT wildcards.\<close>

theorem path_matches_endpoint:
  assumes "segs_ok es" and "es \<noteq> []" and "segs_ok ps" and "ps \<noteq> []" and "mp_endpoint m = render es"
  shows "astarte_mapping_check_path m (render ps) =
     (if list_all2 seg_matches es ps then ASTARTE_RESULT_OK else ASTARTE_RESULT_MAPPING_PATH_MISMATCH)"
  using assms by (rule check_path_segments)

theorem path_matches_endpoint_witness:
  "astarte_mapping_check_path (demo_mapping [0x2F, 0x25, 0x7B, 0x73, 0x7D, 0x2F, 0x61] ASTARTE_MAPPING_TYPE_INTEGER)
     [0x2F, 0x78, 0x2F, 0x61] = ASTARTE_RESULT_OK"
proof -
  define es :: "byte list list" where "es = [[0x25, 0x7B, 0x73, 0x7D], [0x61]]"
  define ps :: "byte list list" where "ps = [[0x78], [0x61]]"
  have "segs_ok es" "es \<noteq> []" "segs_ok ps" "ps \<noteq> []"
    by (simp_all add: es_def ps_def segs_ok_def slash_def nul_free_def)
  moreover have "mp_endpoint (demo_mapping [0x2F, 0x25, 0x7B, 0x73, 0x7D, 0x2F, 0x61] ASTARTE_MAPPING_TYPE_INTEGER)
      = render es" "[0x2F, 0x78, 0x2F, 0x61] = render ps"
    by (simp_all add: es_def ps_def demo_mapping_def slash_def)
  moreover have "list_all2 seg_matches es ps"
    by (simp add: es_def ps_def seg_matches_def is_param_def open_param_def close_param_def)
  ultimately show ?thesis
    using path_matches_endpoint [of es ps] by simp
qed

section \<open>Validation\<close>

fun finite_data :: "astarte_data_union \<Rightarrow> bool" where
  "finite_data (Double v) = isfinite v"
| "finite_data (DoubleArray buf len) = list_all (\<lambda>i. isfinite (buf ! i)) [0..<len]"
| "finite_data _ = True"

lemma check_data_iff:
  "astarte_mapping_check_data m d = ASTARTE_RESULT_OK \<longleftrightarrow> mp_type m = tag d \<and> finite_data (data d)"
  by (cases "data d") (auto simp: astarte_mapping_check_data_def list_all_iff list_ex_iff)

text \<open>\<open>acceptable m d ts\<close>: data of the mapping's type and finite, with a timestamp exactly if the
  mapping asks for one.\<close>

definition acceptable :: "astarte_mapping_t \<Rightarrow> astarte_data_t \<Rightarrow> u64 option \<Rightarrow> bool" where
  "acceptable m d ts \<longleftrightarrow>
     mp_type m = tag d \<and> finite_data (data d) \<and> mp_explicit_timestamp m = (ts \<noteq> None)"

lemma individual_iff:
  "astarte_validation_individual_datastream i p d ts = ASTARTE_RESULT_OK \<longleftrightarrow>
     (\<exists>j. astarte_interface_get_mapping_from_path i p = Inr j \<and> acceptable (if_mappings i ! j) d ts)"
  by (auto simp: astarte_validation_individual_datastream_def acceptable_def Let_def check_data_iff
      astarte_interface_get_mapping_from_path_def dest: mapping_loop_Inl split: sum.splits)

text \<open>C16: Individual data passes validation exactly if the interface has a mapping for its path, the
  data has the type of the first such mapping, holds no infinite or undefined number, and comes
  with a timestamp just when the mapping demands an explicit one.\<close>

theorem individual_validation_iff:
  "astarte_validation_individual_datastream i p d ts = ASTARTE_RESULT_OK \<longleftrightarrow>
     (\<exists>j. astarte_interface_get_mapping_from_path i p = Inr j \<and> acceptable (if_mappings i ! j) d ts)"
  by (rule individual_iff)

lemma entries_loop_iff:
  "entries_loop heap i p ts es = ASTARTE_RESULT_OK \<longleftrightarrow>
     list_all (\<lambda>e. \<exists>j. astarte_interface_get_mapping_from_paths heap i p (oe_path e) = Inr j \<and>
        acceptable (if_mappings i ! j) (oe_data e) ts) es"
proof (induction es)
  case (Cons e es)
  have "ares \<noteq> ASTARTE_RESULT_OK"
    if "astarte_interface_get_mapping_from_paths heap i p (oe_path e) = Inl ares" for ares
    using that by (auto simp: astarte_interface_get_mapping_from_paths_def Let_def split: if_splits sum.splits)
  with Cons show ?case
    by (auto simp: Let_def acceptable_def check_data_iff split: sum.splits)
qed simp

lemma aggregated_iff:
  "astarte_validation_aggregated_datastream heap i p es ts = ASTARTE_RESULT_OK \<longleftrightarrow>
     entries_loop heap i p ts es = ASTARTE_RESULT_OK \<and>
     required_loop heap i p es [0..<length (if_mappings i)] = ASTARTE_RESULT_OK"
  by (simp add: astarte_validation_aggregated_datastream_def Let_def)

text \<open>C15: With enough memory for the full paths, an aggregated object passes validation exactly if
  every entry on its own would pass as individual data under the joined path and every endpoint
  that the interface requires is the mapping of some entry.\<close>

theorem aggregated_validation_iff:
  assumes "ample heap"
  shows "astarte_validation_aggregated_datastream heap i p es ts = ASTARTE_RESULT_OK \<longleftrightarrow>
     list_all (\<lambda>e. astarte_validation_individual_datastream i (full_path p (oe_path e)) (oe_data e) ts
        = ASTARTE_RESULT_OK) es \<and> complete i p es"
  unfolding aggregated_iff entries_loop_iff required_loop_iff endpoint_loop_iff complete_def
    paths_ample [OF assms] individual_iff ..

theorem aggregated_validation_iff_witness:
  "astarte_validation_aggregated_datastream (\<lambda>_. True) demo_interface [0x2F, 0x78] demo_entries None
     = ASTARTE_RESULT_OK"
proof -
  have "list_all (\<lambda>e. astarte_validation_individual_datastream demo_interface
      (full_path [0x2F, 0x78] (oe_path e)) (oe_data e) None = ASTARTE_RESULT_OK) demo_entries"
    "complete demo_interface [0x2F, 0x78] demo_entries"
    by code_simp+
  then show ?thesis
    by (simp add: aggregated_validation_iff [of "\<lambda>_. True"])
qed

text \<open>C30: An object the sender's validation accepted is accepted by a receiver with the same interface:
  the document of its entries is read back completely, entry by entry, with nothing refused for its
  type, its path or a missing endpoint.\<close>

theorem validated_object_received:
  assumes "astarte_validation_aggregated_datastream heap interface path es ts = ASTARTE_RESULT_OK"
    and "es \<noteq> []" and "entries_ok es" and "list_all (\<lambda>e. blobs_pos (data (oe_data e))) es"
    and "ample heap'" and "elem_is mem el (key, BDocument (fields es))"
    and "length (enc_doc (fields es)) < 2 ^ 32"
  shows "astarte_object_entries_deserialize heap' mem el interface path = Some (Inr (map received_entry es))"
proof -
  have entry: "\<exists>j. astarte_interface_get_mapping_from_paths heap interface path (oe_path e) = Inr j \<and>
      acceptable (if_mappings interface ! j) (oe_data e) ts" if "e \<in> set es" for e
    using assms(1) that by (auto simp: aggregated_iff entries_loop_iff list_all_iff)
  have typed: "typed_entry heap' interface path e" if "e \<in> set es" for e
    using entry [OF that] paths_Inr
    by (auto simp: typed_entry_def paths_ample [OF assms(5)] acceptable_def full_path_def
        split: sum.splits)
  have "verify_required_endpoints_present heap' interface path (map received_entry es) = ASTARTE_RESULT_OK"
    unfolding verify_required_endpoints_present_def required_loop_iff list_all_iff
  proof (intro ballI impI)
    fix j
    assume j: "j \<in> set [0..<length (if_mappings interface)]" "mp_required (if_mappings interface ! j)"
    then have "endpoint_loop heap interface path j es"
      using assms(1) by (simp add: aggregated_iff required_loop_iff list_all_iff)
    then obtain e where e: "e \<in> set es"
      "astarte_interface_get_mapping_from_paths heap interface path (oe_path e) = Inr j"
      by (auto simp: endpoint_loop_iff list_ex_iff)
    then have "astarte_interface_get_mapping_from_paths heap' interface path (oe_path (received_entry e)) = Inr j"
      using paths_Inr [OF e(2)] by (simp add: paths_ample [OF assms(5)] full_path_def received_entry_def)
    with e(1) show "endpoint_found heap' interface path j (map received_entry es)"
      by (auto simp: endpoint_loop_iff list_ex_iff)
  qed
  with entries_deserialize_enc [OF assms(6,7,2,3,5)] typed assms(4) show ?thesis
    by (simp add: list_all_iff)
qed

theorem validated_object_received_witness:
  "astarte_object_entries_deserialize (\<lambda>_. True)
     ([0x1E, 0, 0, 0, 0x03, 0x76, 0] @ enc_doc (fields demo_entries) @ [0])
     \<lparr>el_type = 0x03, el_name = 5, el_name_len = 1, el_value = 7\<rparr> demo_interface [0x2F, 0x78] =
   Some (Inr (map received_entry demo_entries))"
proof (rule validated_object_received [where heap = "\<lambda>_. True" and ts = None and key = "[0x76]"])
  show "astarte_validation_aggregated_datastream (\<lambda>_. True) demo_interface [0x2F, 0x78] demo_entries None
      = ASTARTE_RESULT_OK" by code_simp
  show "list_all (\<lambda>e. blobs_pos (data (oe_data e))) demo_entries" by code_simp
  show "elem_is ([0x1E, 0, 0, 0, 0x03, 0x76, 0] @ enc_doc (fields demo_entries) @ [0])
      \<lparr>el_type = 0x03, el_name = 5, el_name_len = 1, el_value = 7\<rparr> ([0x76], BDocument (fields demo_entries))"
    by code_simp
  show "length (enc_doc (fields demo_entries)) < 2 ^ 32" by (simp add: demo_document_length)
qed (simp_all add: demo_entries_ok, simp add: demo_entries_def)

section \<open>Introspection\<close>

text \<open>C14: The introspection is a map from interface names to interfaces.  Every sequence of additions,
  updates, look-ups and removals, with any answers of the heap, starting from the empty
  introspection, is answered as by that map: an addition is refused for a name already present, an
  update is accepted exactly for an allowed successor of the interface present or for a new name, a
  look-up gives the interface last put under the name, and a failed operation changes nothing.\<close>

theorem introspection_refines_map:
  "\<exists>l. run_steps intro_step xs [] = Some (fst (run_spec intro_spec xs Map.empty), l) \<and>
     intro_ok l \<and> intro_map l = snd (run_spec intro_spec xs Map.empty)"
proof -
  have "intro_rel [] Map.empty"
    by (simp add: intro_rel_def intro_ok_def intro_map_def)
  from interface_map.run_refines [OF this TrueI, of xs] show ?thesis
    by (auto simp: intro_rel_def)
qed

lemma newer_trans: "newer a b \<Longrightarrow> newer b c \<Longrightarrow> newer a c"
  by (auto simp: newer_def)

lemma find_same_endpoint:
  assumes "find (\<lambda>n. c_string (mp_endpoint m) = c_string (mp_endpoint n)) ns = Some n"
  shows "n \<in> set ns" "c_string (mp_endpoint m) = c_string (mp_endpoint n)"
  using assms by (auto simp: find_Some_iff)

lemma mappings_kept_trans:
  assumes ab: "mappings_kept a b" and bc: "mappings_kept b c" and t: "if_type b = if_type c"
  shows "mappings_kept a c"
  unfolding mappings_kept_def
proof
  fix m
  assume "m \<in> set (if_mappings a)"
  with ab obtain n where n: "find (\<lambda>n. c_string (mp_endpoint m) = c_string (mp_endpoint n)) (if_mappings b) = Some n"
      "mapping_kept b m n"
    by (fastforce simp: mappings_kept_def split: option.splits)
  with find_same_endpoint [OF n(1)] bc obtain k where
    k: "find (\<lambda>k. c_string (mp_endpoint n) = c_string (mp_endpoint k)) (if_mappings c) = Some k"
      "mapping_kept c n k"
    by (fastforce simp: mappings_kept_def split: option.splits)
  moreover have "mapping_kept c m k"
    using n(2) k(2) t by (cases "if_type c") (auto simp: mapping_kept_def)
  ultimately show "case find (\<lambda>n. c_string (mp_endpoint m) = c_string (mp_endpoint n)) (if_mappings c) of
      None \<Rightarrow> False | Some n \<Rightarrow> mapping_kept c m n"
    using find_same_endpoint(2) [OF n(1)] by simp
qed

lemma allowed_update_trans: "allowed_update a b \<Longrightarrow> allowed_update b c \<Longrightarrow> allowed_update a c"
  by (auto simp: allowed_update_def intro: newer_trans mappings_kept_trans)

fun is_removal :: "intro_op \<Rightarrow> bool" where
  "is_removal (Remove nm) = True"
| "is_removal _ = False"

definition keyed :: "intro_abs \<Rightarrow> bool" where
  "keyed m \<longleftrightarrow> (\<forall>k i. m k = Some i \<longrightarrow> key_of i = k)"

lemma keyedD: "keyed m \<Longrightarrow> m k = Some i \<Longrightarrow> key_of i = k"
  by (simp add: keyed_def)

lemma keyed_upd: "keyed m \<Longrightarrow> keyed (m(key_of i \<mapsto> i))" "keyed m \<Longrightarrow> keyed (m(k := None))"
  by (auto simp: keyed_def)

lemma keyed_step: "keyed m \<Longrightarrow> keyed (snd (intro_spec x m))"
  by (cases x) (auto simp: Let_def put_new_def keyed_upd split: option.splits)

lemma spec_step_keeps:
  assumes "\<not> is_removal x" "m k = Some old" "keyed m"
  shows "\<exists>new. snd (intro_spec x m) k = Some new \<and> (new = old \<or> allowed_update old new)"
  using assms by (cases x) (auto simp: Let_def put_new_def split: option.splits dest: keyedD)

lemma spec_run_keeps:
  "list_all (\<lambda>x. \<not> is_removal x) xs \<Longrightarrow> m k = Some old \<Longrightarrow> keyed m \<Longrightarrow>
   \<exists>new. snd (run_spec intro_spec xs m) k = Some new \<and> (new = old \<or> allowed_update old new)"
proof (induction xs arbitrary: m old)
  case (Cons x xs)
  then obtain new where
    new: "snd (intro_spec x m) k = Some new" "new = old \<or> allowed_update old new"
    using spec_step_keeps [of x m k old] by auto
  from Cons.IH [OF _ new(1) keyed_step [OF Cons.prems(3)]] Cons.prems(1) obtain new' where
    "snd (run_spec intro_spec xs (snd (intro_spec x m))) k = Some new'"
    "new' = new \<or> allowed_update new new'" by auto
  with new(2) show ?case by (auto simp: case_prod_beta dest: allowed_update_trans)
qed simp

lemma keyed_intro_map: "keyed (intro_map l)"
  by (auto simp: keyed_def intro_map_def dest!: map_of_SomeD)

text \<open>C31: An interface is never downgraded or changed incompatibly.  After any sequence of operations
  without a removal, the interface found under a name is the one that was there before or an
  allowed successor of it: of the same ownership, type and aggregation, of a higher version, and
  with every mapping of the old one kept.\<close>

theorem introspection_never_downgrades:
  assumes "intro_ok l" and "list_all (\<lambda>x. \<not> is_removal x) xs"
    and "introspection_get l nm = Some old" and "run_steps intro_step xs l = Some (rs, l')"
  shows "\<exists>new. introspection_get l' nm = Some new \<and> (new = old \<or> allowed_update old new)"
proof -
  have "intro_rel l (intro_map l)" using assms(1) by (simp add: intro_rel_def)
  from interface_map.run_refines [OF this TrueI, of xs] assms(4) have
    "intro_map l' = snd (run_spec intro_spec xs (intro_map l))" by (auto simp: intro_rel_def)
  with spec_run_keeps [OF assms(2) _ keyed_intro_map, of l "name_key nm" old] assms(3) show ?thesis
    by (simp add: get_spec)
qed

definition demo_next :: astarte_interface_t where
  "demo_next = demo_interface\<lparr>if_minor := 2\<rparr>"

theorem introspection_never_downgrades_witness:
  "\<exists>new. introspection_get [demo_next] [0x6F] = Some new \<and>
     (new = demo_interface \<or> allowed_update demo_interface new)"
proof (rule introspection_never_downgrades)
  show "intro_ok [demo_interface]" by (simp add: intro_ok_def)
  show "list_all (\<lambda>x. \<not> is_removal x) [Update True (Some demo_next), Update True (Some demo_interface)]" by simp
  show "introspection_get [demo_interface] [0x6F] = Some demo_interface" by code_simp
  show "run_steps intro_step [Update True (Some demo_next), Update True (Some demo_interface)] [demo_interface] =
      Some ([(ASTARTE_RESULT_OK, None), (ASTARTE_RESULT_INTERFACE_CONFLICTING, None)], [demo_next])"
    by code_simp
qed

text \<open>C29: As long as no name is longer than the maximum, filling a buffer of the computed size stays
  inside the buffer and leaves in it exactly the introspection text: name, major and minor version
  of every interface in order, separated by semicolons and closed by the terminating zero.\<close>

theorem introspection_fills_text:
  assumes "names_fit l" and "length buf = introspection_get_string_size l" and "length buf < 2 ^ 32"
  shows "introspection_fill_string l buf (length buf) = Some (butlast (text_of l) @ [0])"
  using assms by (rule fill_string_spec)

theorem introspection_fills_text_witness:
  "introspection_fill_string [demo_interface, demo_next\<lparr>if_name := [0x70]\<rparr>] (replicate 12 7) 12 =
     Some [0x6F, 0x3A, 0x30, 0x3A, 0x31, 0x3B, 0x70, 0x3A, 0x30, 0x3A, 0x32, 0]"
proof -
  let ?l = "[demo_interface, demo_next\<lparr>if_name := [0x70]\<rparr>]"
  have "names_fit ?l" by code_simp
  moreover have "length (replicate 12 (7::byte)) = introspection_get_string_size ?l" by code_simp
  moreover have "length (replicate 12 (7::byte)) < 2 ^ 32" by simp
  moreover have "butlast (text_of ?l) @ [0] =
      [0x6F, 0x3A, 0x30, 0x3A, 0x31, 0x3B, 0x70, 0x3A, 0x30, 0x3A, 0x32, 0]" by code_simp
  ultimately show ?thesis
    using introspection_fills_text [of ?l "replicate 12 7"] by simp
qed

text \<open>C39: Nothing enforces the maximum length of a name.  Any interface with a valid version is added to the
  introspection, however long its name is; and when another one is added behind it and the name exceeds
  the maximum by more than the other entry is long, the size computed for the introspection text is too
  small: filling any buffer of that size writes behind its end.\<close>

theorem long_name_overflows:
  assumes "astarte_interface_validate (Some i) = ASTARTE_RESULT_OK" "astarte_interface_validate (Some j) = ASTARTE_RESULT_OK"
    and "strlen (if_name j) < ASTARTE_INTERFACE_NAME_MAX_SIZE"
    and "ASTARTE_INTERFACE_NAME_MAX_SIZE + length (entry_text j) < strlen (if_name i)"
    and "length (entry_text i) < 2 ^ 32" and "heap sizeof_node"
    and "length buf = introspection_get_string_size [i, j]"
  shows "introspection_add heap [] (Some i) = (ASTARTE_RESULT_OK, [i])
    \<and> introspection_add heap [i] (Some j) = (ASTARTE_RESULT_OK, [i, j])
    \<and> introspection_fill_string [i, j] buf (length buf) = None"
proof (intro conjI)
  show "introspection_add heap [] (Some i) = (ASTARTE_RESULT_OK, [i])"
    using assms(1,6) by (simp add: introspection_add_def append_introspection_node_def astarte_calloc_def sizeof_node_def)
  have "length (name_key (if_name j)) \<noteq> length (key_of i)"
    using assms(3,4) by (simp add: name_key_def strlen_def)
  then have "name_key (if_name j) \<noteq> key_of i" by auto
  then have "find_node_by_name [i] (if_name j) = None"
    by (simp add: find_node_step del: find_node_by_name.simps(2))
  then show "introspection_add heap [i] (Some j) = (ASTARTE_RESULT_OK, [i, j])"
    using assms(2,6) by (simp add: introspection_add_def append_introspection_node_def astarte_calloc_def sizeof_node_def
        del: find_node_by_name.simps)
  show "introspection_fill_string [i, j] buf (length buf) = None"
    using long_name_fill [OF assms(3-5,7)] by (simp add: introspection_fill_string_def)
qed

theorem long_name_overflows_witness:
  "introspection_add (\<lambda>_. True) [] (Some (demo_interface\<lparr>if_name := replicate 144 0x61\<rparr>))
      = (ASTARTE_RESULT_OK, [demo_interface\<lparr>if_name := replicate 144 0x61\<rparr>]) \<and>
   introspection_get_string_size [demo_interface\<lparr>if_name := replicate 144 0x61\<rparr>, demo_interface] = 139 \<and>
   introspection_fill_string [demo_interface\<lparr>if_name := replicate 144 0x61\<rparr>, demo_interface] (replicate 139 0) 139 = None"
proof -
  let ?i = "demo_interface\<lparr>if_name := replicate 144 0x61\<rparr>"
  have n: "introspection_get_string_size [?i, demo_interface] = 139"
    by (simp add: introspection_get_string_size_def demo_interface_def strlen_def c_string_def get_digit_count.simps
        ASTARTE_INTERFACE_NAME_MAX_SIZE_def)
  have "astarte_interface_validate (Some ?i) = ASTARTE_RESULT_OK"
    "astarte_interface_validate (Some demo_interface) = ASTARTE_RESULT_OK"
    "strlen (if_name demo_interface) < ASTARTE_INTERFACE_NAME_MAX_SIZE"
    "ASTARTE_INTERFACE_NAME_MAX_SIZE + length (entry_text demo_interface) < strlen (if_name ?i)"
    "length (entry_text ?i) < 2 ^ 32"
    by (simp_all add: astarte_interface_validate_def demo_interface_def strlen_def c_string_def entry_text_def
        dec_string.simps ASTARTE_INTERFACE_NAME_MAX_SIZE_def)
  from long_name_overflows [OF this, of "\<lambda>_. True" "replicate 139 0"] show ?thesis by (simp add: n)
qed

end
