(* ===== verification/Storage_Core.thy ===== *)
theory Storage_Core
  imports KV_Contract Bson_Deserializer
begin

text \<open>
  The permanent storage of a device (lib/astarte\_device\_sdk/storage/core.c, sync.c, introsp.c):
  one file system that holds the namespaces of the synchronisation flag, the introspection, the
  properties and the transmission queue, with a quota for the last two.

  A \<open>NULL\<close> storage handle and one that is not initialised get the same answer from every
  operation, so a handle is the record \<open>storage_data\<close> with its flag \<open>sd_initialized\<close>.  The other
  pointer arguments are addresses of the caller's objects.  Results are in the option monad of the
  key-value store: \<open>None\<close> is a call that does not return, or reads outside a buffer.
\<close>

section \<open>core.c\<close>

record storage_data =
  sd_sync :: kv_storage
  sd_intro :: kv_storage
  sd_prop :: kv_storage
  sd_trans :: kv_storage
  sd_initialized :: bool

definition empty_kv :: kv_storage where
  "empty_kv = \<lparr>kv_namespace = [], kv_max_quota_bytes = 0, kv_current_usage_bytes = 0\<rparr>"

definition zero_storage :: storage_data where
  "zero_storage = \<lparr>sd_sync = empty_kv, sd_intro = empty_kv, sd_prop = empty_kv, sd_trans = empty_kv,
     sd_initialized = False\<rparr>"

text \<open>The names of the namespaces, as the bytes of the C strings.\<close>

definition chars :: "string \<Rightarrow> byte list" where "chars cs = map of_char cs"

definition SYNCHRONIZATION_NAMESPACE :: "byte list" where
  "SYNCHRONIZATION_NAMESPACE = chars ''synchronization_namespace''"
definition INTROSPECTION_NAMESPACE :: "byte list" where
  "INTROSPECTION_NAMESPACE = chars ''introspection_namespace''"
definition PROPERTIES_NAMESPACE :: "byte list" where
  "PROPERTIES_NAMESPACE = chars ''properties_namespace''"
definition TRANSMISSION_NAMESPACE :: "byte list" where
  "TRANSMISSION_NAMESPACE = chars ''transmission_namespace''"

definition key_value_destroy :: "kv_storage \<Rightarrow> kv_storage" where
  "key_value_destroy kv = kv\<lparr>kv_namespace := []\<rparr>"

text \<open>
  What the platform answers to the opening of the partition: whether the flash device is ready, the
  result of the query of its pages, the mount, the erasure of the partition, and the geometry of
  the mounted file system.  \<open>pf_bound\<close> is the configured share of the partition.
\<close>

record 's platform =
  pf_ready :: bool
  pf_pages_rc :: int
  pf_mount :: "'s \<Rightarrow> int \<times> 's"
  pf_erase :: "'s \<Rightarrow> int \<times> 's"
  pf_sector_size :: u32
  pf_sector_count :: u32
  pf_bound :: u8

definition open_storage :: "'s kv_env \<Rightarrow> 's platform \<Rightarrow> 's \<Rightarrow> (astarte_result_t \<times> 's) option" where
  "open_storage Z P s = key_value_open Z (pf_ready P) (pf_pages_rc P) (pf_mount P s) s"

definition erase_storage :: "'s kv_env \<Rightarrow> 's platform \<Rightarrow> 's \<Rightarrow> (astarte_result_t \<times> 's) option" where
  "erase_storage Z P s =
     (case pf_erase P s of (flash_rc, s) \<Rightarrow>
        if flash_rc \<noteq> 0 then Some (ASTARTE_RESULT_INTERNAL_ERROR, s) else open_storage Z P s)"

definition new_namespace ::
    "'s kv_env \<Rightarrow> 's platform \<Rightarrow> byte list \<Rightarrow> u8 \<Rightarrow> 's \<Rightarrow> ((astarte_result_t + kv_storage) \<times> 's) option" where
  "new_namespace Z P ns pct s = key_value_new Z (pf_sector_size P) (pf_sector_count P) ns pct s"

definition astarte_storage_init ::
    "'s kv_env \<Rightarrow> 's platform \<Rightarrow> 's \<Rightarrow> (astarte_result_t \<times> storage_data \<times> 's) option" where
  "astarte_storage_init Z P s =
     do {
       let handle = zero_storage;
       (ares, s) \<leftarrow> open_storage Z P s;
       (ares, s) \<leftarrow>
         (if ares = ASTARTE_RESULT_KEY_VALUE_INCOMPATIBLE_VERSION \<or> ares = ASTARTE_RESULT_KEY_VALUE_RECOVERY_FAILED
          then erase_storage Z P s else Some (ares, s));
       if ares \<noteq> ASTARTE_RESULT_OK then Some (ares, handle, s)
       else do {
         (r, s) \<leftarrow> new_namespace Z P SYNCHRONIZATION_NAMESPACE 0 s;
         case r of Inl ares \<Rightarrow> Some (ares, handle, s)
         | Inr kv \<Rightarrow> do {
             let handle = handle\<lparr>sd_sync := kv\<rparr>;
             (r, s) \<leftarrow> new_namespace Z P INTROSPECTION_NAMESPACE 0 s;
             case r of
               Inl ares \<Rightarrow> Some (ares, handle\<lparr>sd_sync := key_value_destroy (sd_sync handle)\<rparr>, s)
             | Inr kv \<Rightarrow> do {
                 let handle = handle\<lparr>sd_intro := kv\<rparr>;
                 (r, s) \<leftarrow> new_namespace Z P PROPERTIES_NAMESPACE (pf_bound P) s;
                 case r of
                   Inl ares \<Rightarrow> Some (ares, handle\<lparr>sd_sync := key_value_destroy (sd_sync handle),
                       sd_intro := key_value_destroy (sd_intro handle)\<rparr>, s)
                 | Inr kv \<Rightarrow> do {
                     let handle = handle\<lparr>sd_prop := kv\<rparr>;
                     (r, s) \<leftarrow> new_namespace Z P TRANSMISSION_NAMESPACE (pf_bound P) s;
                     case r of
                       Inl ares \<Rightarrow> Some (ares, handle\<lparr>sd_sync := key_value_destroy (sd_sync handle),
                           sd_intro := key_value_destroy (sd_intro handle),
                           sd_prop := key_value_destroy (sd_prop handle)\<rparr>, s)
                     | Inr kv \<Rightarrow> Some (ASTARTE_RESULT_OK, handle\<lparr>sd_trans := kv, sd_initialized := True\<rparr>, s)
                   }
               }
           }
       }
     }"

definition astarte_storage_destroy :: "storage_data \<Rightarrow> storage_data" where
  "astarte_storage_destroy handle =
     (if \<not> sd_initialized handle then handle
      else handle\<lparr>sd_sync := key_value_destroy (sd_sync handle), sd_intro := key_value_destroy (sd_intro handle),
        sd_prop := key_value_destroy (sd_prop handle), sd_trans := key_value_destroy (sd_trans handle),
        sd_initialized := False\<rparr>)"

section \<open>sync.c\<close>

definition SYNCHRONIZATION_KEY :: "byte list" where
  "SYNCHRONIZATION_KEY = chars ''synchronization_status''"

text \<open>A \<open>bool\<close> of C is one byte.  The result carries the flag read.\<close>

definition astarte_storage_synchronization_get ::
    "'s kv_env \<Rightarrow> storage_data \<Rightarrow> 's \<Rightarrow> ((astarte_result_t + bool) \<times> 's) option" where
  "astarte_storage_synchronization_get Z handle s =
     (if \<not> sd_initialized handle then Some (Inl ASTARTE_RESULT_INVALID_PARAM, s)
      else do {
        (r, s) \<leftarrow> key_value_find Z (sd_sync handle) SYNCHRONIZATION_KEY (Some 1) s;
        case r of Inl ares \<Rightarrow> Some (Inl ares, s)
        | Inr (n, read_sync) \<Rightarrow> Some (Inr (fill_buf 1 read_sync \<noteq> [0]), s)
      })"

definition astarte_storage_synchronization_set ::
    "'s kv_env \<Rightarrow> storage_data \<Rightarrow> bool \<Rightarrow> 's \<Rightarrow> (astarte_result_t \<times> storage_data \<times> 's) option" where
  "astarte_storage_synchronization_set Z handle sync s =
     (if \<not> sd_initialized handle then Some (ASTARTE_RESULT_INVALID_PARAM, handle, s)
      else do {
        (ares, kv, s) \<leftarrow> key_value_insert Z (sd_sync handle) SYNCHRONIZATION_KEY [of_bool sync] s;
        Some (ares, handle\<lparr>sd_sync := kv\<rparr>, s)
      })"

section \<open>introsp.c\<close>

definition INTROSPECTION_KEY :: "byte list" where
  "INTROSPECTION_KEY = chars ''introspection_string''"

text \<open>\<open>intr\<close> is the buffer of \<open>intr_size\<close> bytes handed in.\<close>

definition astarte_storage_introspection_store ::
    "'s kv_env \<Rightarrow> storage_data \<Rightarrow> byte list \<Rightarrow> 's \<Rightarrow> (astarte_result_t \<times> storage_data \<times> 's) option" where
  "astarte_storage_introspection_store Z handle intr s =
     (if \<not> sd_initialized handle then Some (ASTARTE_RESULT_INVALID_PARAM, handle, s)
      else do {
        (ares, kv, s) \<leftarrow> key_value_insert Z (sd_intro handle) INTROSPECTION_KEY intr s;
        Some (ares, handle\<lparr>sd_intro := kv\<rparr>, s)
      })"

definition astarte_storage_introspection_check ::
    "'s kv_env \<Rightarrow> storage_data \<Rightarrow> byte list \<Rightarrow> 's \<Rightarrow> (astarte_result_t \<times> 's) option" where
  "astarte_storage_introspection_check Z handle intr s =
     (if \<not> sd_initialized handle then Some (ASTARTE_RESULT_INVALID_PARAM, s)
      else do {
        (r, s) \<leftarrow> key_value_find Z (sd_intro handle) INTROSPECTION_KEY None s;
        case r of
          Inl ares \<Rightarrow> Some (if ares = ASTARTE_RESULT_NOT_FOUND
              then ASTARTE_RESULT_DEVICE_CACHING_OUTDATED_INTROSPECTION else ares, s)
        | Inr (read_intr_size, _) \<Rightarrow>
            if read_intr_size \<noteq> length intr
            then Some (ASTARTE_RESULT_DEVICE_CACHING_OUTDATED_INTROSPECTION, s)
            else if \<not> astarte_calloc (k_heap Z s) read_intr_size 1 then Some (ASTARTE_RESULT_OUT_OF_MEMORY, s)
            else do {
              (r, s) \<leftarrow> key_value_find Z (sd_intro handle) INTROSPECTION_KEY (Some read_intr_size) s;
              case r of Inl ares \<Rightarrow> Some (ares, s)
              | Inr (n, read_intr) \<Rightarrow>
                  if take (min n (length intr)) intr \<noteq> take (min n (length intr)) read_intr
                  then Some (ASTARTE_RESULT_DEVICE_CACHING_OUTDATED_INTROSPECTION, s)
                  else Some (ASTARTE_RESULT_OK, s)
            }
      })"

section \<open>Finding a value by its size first\<close>

text \<open>
  The pattern the storages share: ask for the size of the value, allocate a buffer of that size,
  read the value into it.
\<close>

definition find_alloc ::
    "'s kv_env \<Rightarrow> kv_storage \<Rightarrow> byte list \<Rightarrow> 's \<Rightarrow> ((astarte_result_t + byte list) \<times> 's) option" where
  "find_alloc Z kv key s =
     do {
       (r, s) \<leftarrow> key_value_find Z kv key None s;
       case r of Inl ares \<Rightarrow> Some (Inl ares, s)
       | Inr (value_size, _) \<Rightarrow>
           if \<not> astarte_calloc (k_heap Z s) value_size 1 then Some (Inl ASTARTE_RESULT_OUT_OF_MEMORY, s)
           else do {
             (r, s) \<leftarrow> key_value_find Z kv key (Some value_size) s;
             case r of Inl ares \<Rightarrow> Some (Inl ares, s)
             | Inr (n, raw) \<Rightarrow> Some (Inr (fill_buf value_size raw), s)
           }
     }"

context reliable_store begin

lemma find_alloc_ok:
  assumes "kv_rep Z C R s al" and "valid_name (kv_namespace kv)" "valid_name key" and "length al < ring_size"
  shows "find_alloc Z kv key s = Some (case map_of al (kv_namespace kv, key) of
      None \<Rightarrow> Inl ASTARTE_RESULT_NOT_FOUND
    | Some v \<Rightarrow> if v = [] then Inl ASTARTE_RESULT_OUT_OF_MEMORY else Inr v, s)"
  using find_ok [OF assms] heap_ok
  by (cases "map_of al (kv_namespace kv, key)") (auto simp: find_alloc_def found_result_def)

lemma introspection_check_ok:
  assumes "kv_rep Z C R s al" and "sd_initialized h" and "valid_name (kv_namespace (sd_intro h))"
    and "length al < ring_size" and "intr \<noteq> []"
  shows "astarte_storage_introspection_check Z h intr s
    = Some (if map_of al (kv_namespace (sd_intro h), INTROSPECTION_KEY) = Some intr then ASTARTE_RESULT_OK
            else ASTARTE_RESULT_DEVICE_CACHING_OUTDATED_INTROSPECTION, s)"
proof -
  have k: "valid_name INTROSPECTION_KEY"
    by (simp add: INTROSPECTION_KEY_def chars_def valid_name_def nul_free_def of_char_def)
  show ?thesis
    using find_ok [OF assms(1,3) k assms(4)] heap_ok assms(2,5)
    by (cases "map_of al (kv_namespace (sd_intro h), INTROSPECTION_KEY)")
      (auto simp: astarte_storage_introspection_check_def found_result_def)
qed

end

end
