(* ===== verification/Storage_Trans.thy ===== *)
theory Storage_Trans
  imports Storage_Core
begin

text \<open>
  The persistent transmission queue (lib/astarte\_device\_sdk/storage/trans.c): messages are the
  values of the transmission namespace, under keys that count up, zero-padded to ten digits.  The
  head and the tail of the queue are kept in memory only and computed from the keys after a
  restart; both are \<open>uint32_t\<close> and wrap around.
\<close>

section \<open>Data\<close>

text \<open>
  An \<open>int\<close> is a word, read with \<open>sint\<close>.  A pointer is \<open>None\<close> for \<open>NULL\<close>, else the string or
  the block it points to.
\<close>

record trans_msg =
  tm_interface_name :: "byte list option"
  tm_path :: "byte list option"
  tm_payload :: "byte list option"
  tm_payload_len :: u32
  tm_qos :: u32
  tm_timestamp :: u64
  tm_sequence_number :: u64

record trans_indexes =
  ti_head :: u32
  ti_tail :: u32

definition MAX_UINT32_STR_LEN :: nat where "MAX_UINT32_STR_LEN = 11"

text \<open>\<open>snprintf\<close> of \<open>"%010u"\<close>; the key, or \<open>None\<close> when the count of characters is not ten.\<close>

definition zero_padded :: "nat \<Rightarrow> nat \<Rightarrow> byte list" where
  "zero_padded n k = replicate (n - length (dec_string k)) 0x30 @ dec_string k"

definition trans_key :: "u32 \<Rightarrow> byte list option" where
  "trans_key i = (let txt = zero_padded 10 (unat i) in
     if length txt \<noteq> MAX_UINT32_STR_LEN - 1 then None else Some txt)"

text \<open>\<open>strtoul\<close> in base ten, with an \<open>unsigned long\<close> of 32 bits.\<close>

definition is_digit :: "byte \<Rightarrow> bool" where "is_digit c \<longleftrightarrow> 0x30 \<le> c \<and> c \<le> 0x39"
definition is_space :: "byte \<Rightarrow> bool" where "is_space c \<longleftrightarrow> c = 0x20 \<or> 0x09 \<le> c \<and> c \<le> 0x0D"

fun digits_value :: "nat \<Rightarrow> byte list \<Rightarrow> nat" where
  "digits_value acc [] = acc"
| "digits_value acc (c # cs) = (if is_digit c then digits_value (10 * acc + (unat c - 48)) cs else acc)"

definition strtoul :: "byte list \<Rightarrow> u32" where
  "strtoul txt =
     (let txt = dropWhile is_space (c_string txt);
          neg = (take 1 txt = [0x2D]);
          v = digits_value 0 (if neg \<or> take 1 txt = [0x2B] then drop 1 txt else txt) in
      if v > 2 ^ 32 - 1 then - 1 else if neg then - of_nat v else of_nat v)"

section \<open>Indexes after a restart\<close>

text \<open>The running minimum, maximum, sum and count of the keys.\<close>

type_synonym key_stats = "u32 \<times> u32 \<times> u64 \<times> u32"

definition add_key :: "key_stats \<Rightarrow> u32 \<Rightarrow> key_stats" where
  "add_key st current_id = (case st of (min_id, max_id, sum_id, element_count) \<Rightarrow>
     (if current_id < min_id then current_id else min_id,
      if current_id > max_id then current_id else max_id,
      sum_id + ucast current_id, element_count + 1))"

text \<open>The part behind the loop, for a namespace in which some key was found.\<close>

definition compute_indexes :: "key_stats \<Rightarrow> trans_indexes" where
  "compute_indexes st = (case st of (min_id, max_id, sum_id, element_count) \<Rightarrow>
     if (ucast max_id :: u64) - ucast min_id + 1 = ucast element_count
     then \<lparr>ti_head = min_id, ti_tail = max_id\<rparr>
     else
       let sum_total = (0xFFFFFFFF * (0xFFFFFFFF + 1)) div (2 :: u64);
           sum_missing = sum_total - sum_id;
           missing = 0xFFFFFFFF + 1 - (ucast element_count :: u64);
           sum_ht = (2 * sum_missing) div missing;
           diff_ht = missing + 1 in
       \<lparr>ti_head = ucast ((sum_ht + diff_ht) div 2), ti_tail = ucast ((sum_ht - diff_ht) div 2)\<rparr>)"

partial_function (option) indexes_loop ::
    "'s kv_env \<Rightarrow> kv_storage \<Rightarrow> u32 \<Rightarrow> key_stats \<Rightarrow> 's \<Rightarrow> ((astarte_result_t + key_stats) \<times> 's) option" where
  "indexes_loop Z kv iter st s =
     do {
       (r, s) \<leftarrow> iterator_get Z iter (Some MAX_UINT32_STR_LEN) s;
       case r of Inl ares \<Rightarrow> Some (Inl ares, s)
       | Inr (key_size, key) \<Rightarrow>
           let st = add_key st (strtoul key) in
           do {
             (r, s) \<leftarrow> iterator_next Z kv iter s;
             case r of
               Inl ares \<Rightarrow> Some (if ares \<noteq> ASTARTE_RESULT_NOT_FOUND then Inl ares else Inr st, s)
             | Inr iter \<Rightarrow> indexes_loop Z kv iter st s
           }
     }"

declare indexes_loop.simps [code]

definition astarte_storage_transmission_get_indexes ::
    "'s kv_env \<Rightarrow> storage_data \<Rightarrow> 's \<Rightarrow> ((astarte_result_t + trans_indexes) \<times> 's) option" where
  "astarte_storage_transmission_get_indexes Z handle s =
     (if \<not> sd_initialized handle then Some (Inl ASTARTE_RESULT_INVALID_PARAM, s)
      else do {
        (r, s) \<leftarrow> iterator_init Z (sd_trans handle) s;
        case r of
          Inl ares \<Rightarrow>
            Some (if ares \<noteq> ASTARTE_RESULT_NOT_FOUND then Inl ares else Inr \<lparr>ti_head = 1, ti_tail = 0\<rparr>, s)
        | Inr iter \<Rightarrow> do {
            (r, s) \<leftarrow> indexes_loop Z (sd_trans handle) iter (0xFFFFFFFF, 0, 0, 0) s;
            Some (map_sum id compute_indexes r, s)
          }
      })"

section \<open>Messages\<close>

definition sizeof_static :: nat where "sizeof_static = 4 + 8 + 8 + 4 + 4 + 4"

text \<open>The bytes of a message in the storage.\<close>

definition trans_image :: "trans_msg \<Rightarrow> byte list" where
  "trans_image msg =
     (let interface_name = c_string (the (tm_interface_name msg));
          path = c_string (the (tm_path msg)) in
      le32 (tm_qos msg) @ le64 (tm_timestamp msg) @ le64 (tm_sequence_number msg) @
      le32 (of_nat (length interface_name)) @ le32 (of_nat (length path)) @ le32 (tm_payload_len msg) @
      interface_name @ path @
      (if sint (tm_payload_len msg) > 0 then take (unat (tm_payload_len msg)) (the (tm_payload msg)) else []))"

definition trans_buffer_size :: "trans_msg \<Rightarrow> nat" where
  "trans_buffer_size msg = sizeof_static + strlen (the (tm_interface_name msg)) + strlen (the (tm_path msg))
     + unat (tm_payload_len msg)"

definition astarte_storage_transmission_push ::
    "'s kv_env \<Rightarrow> storage_data \<Rightarrow> trans_indexes \<Rightarrow> trans_msg \<Rightarrow> 's
      \<Rightarrow> (astarte_result_t \<times> storage_data \<times> trans_indexes \<times> 's) option" where
  "astarte_storage_transmission_push Z handle indexes msg s =
     (if \<not> sd_initialized handle \<or> tm_interface_name msg = None \<or> tm_path msg = None
      then Some (ASTARTE_RESULT_INVALID_PARAM, handle, indexes, s)
      else if sint (tm_payload_len msg) < 0 \<or> sint (tm_payload_len msg) > 0 \<and> tm_payload msg = None
      then Some (ASTARTE_RESULT_INVALID_PARAM, handle, indexes, s)
      else if \<not> astarte_calloc (k_heap Z s) (trans_buffer_size msg) 1
      then Some (ASTARTE_RESULT_OUT_OF_MEMORY, handle, indexes, s)
      else case trans_key (ti_tail indexes + 1) of
        None \<Rightarrow> Some (ASTARTE_RESULT_INTERNAL_ERROR, handle, indexes, s)
      | Some key \<Rightarrow> do {
          (ares, kv, s) \<leftarrow> key_value_insert Z (sd_trans handle) key (trans_image msg) s;
          let handle = handle\<lparr>sd_trans := kv\<rparr>;
          if ares \<noteq> ASTARTE_RESULT_OK then Some (ares, handle, indexes, s)
          else Some (ASTARTE_RESULT_OK, handle, indexes\<lparr>ti_tail := ti_tail indexes + 1\<rparr>, s)
        })"

text \<open>
  Reading back.  The buffer holds \<open>length buffer\<close> bytes; \<open>offset\<close> and the lengths read from it are
  \<open>size_t\<close>, so their sums wrap.  \<open>read_buf\<close> is \<open>memcpy\<close> from the buffer: \<open>None\<close> when it reads
  behind the end.
\<close>

definition read_buf :: "byte list \<Rightarrow> u32 \<Rightarrow> nat \<Rightarrow> byte list option" where
  "read_buf buffer offset n =
     (if unat offset + n \<le> length buffer then Some (take n (drop (unat offset) buffer)) else None)"

definition extract_string ::
    "(nat \<Rightarrow> bool) \<Rightarrow> byte list \<Rightarrow> u32 \<Rightarrow> u32 \<Rightarrow> (byte list \<times> u32) outcome" where
  "extract_string heap buffer offset str_len =
     (if offset + str_len > of_nat (length buffer) then Some (Inl ASTARTE_RESULT_INTERNAL_ERROR)
      else if \<not> astarte_calloc heap (unat (str_len + 1)) 1 then Some (Inl ASTARTE_RESULT_OUT_OF_MEMORY)
      else do {
        out \<leftarrow> read_buf buffer offset (unat str_len);
        Some (Inr (out, offset + str_len))
      })"

definition extract_payload ::
    "(nat \<Rightarrow> bool) \<Rightarrow> byte list \<Rightarrow> u32 \<Rightarrow> u32 \<Rightarrow> (byte list option \<times> u32) outcome" where
  "extract_payload heap buffer offset payload_len =
     (if sint payload_len < 0 then Some (Inl ASTARTE_RESULT_INTERNAL_ERROR)
      else if payload_len = 0 then Some (Inr (None, offset))
      else if offset + payload_len > of_nat (length buffer) then Some (Inl ASTARTE_RESULT_INTERNAL_ERROR)
      else if \<not> astarte_malloc heap (unat payload_len) then Some (Inl ASTARTE_RESULT_OUT_OF_MEMORY)
      else do {
        out \<leftarrow> read_buf buffer offset (unat payload_len);
        Some (Inr (Some out, offset + payload_len))
      })"

definition parse_trans :: "(nat \<Rightarrow> bool) \<Rightarrow> byte list \<Rightarrow> trans_msg outcome" where
  "parse_trans heap buffer =
     (if sizeof_static > length buffer then Some (Inl ASTARTE_RESULT_INTERNAL_ERROR)
      else
        let interface_name_len = get_le32 (drop 20 buffer);
            path_len = get_le32 (drop 24 buffer);
            payload_len = get_le32 (drop 28 buffer) in
        out_bind (extract_string heap buffer (of_nat sizeof_static) interface_name_len) (\<lambda>(interface_name, offset).
        out_bind (extract_string heap buffer offset path_len) (\<lambda>(path, offset).
        out_bind (extract_payload heap buffer offset payload_len) (\<lambda>(payload, offset).
          Some (Inr \<lparr>tm_interface_name = Some interface_name, tm_path = Some path, tm_payload = payload,
            tm_payload_len = payload_len, tm_qos = get_le32 buffer, tm_timestamp = get_le64 (drop 4 buffer),
            tm_sequence_number = get_le64 (drop 12 buffer)\<rparr>)))))"

definition astarte_storage_transmission_peek ::
    "'s kv_env \<Rightarrow> storage_data \<Rightarrow> trans_indexes \<Rightarrow> 's \<Rightarrow> ((astarte_result_t + trans_msg) \<times> 's) option" where
  "astarte_storage_transmission_peek Z handle indexes s =
     (if \<not> sd_initialized handle then Some (Inl ASTARTE_RESULT_INVALID_PARAM, s)
      else case trans_key (ti_head indexes) of
        None \<Rightarrow> Some (Inl ASTARTE_RESULT_INTERNAL_ERROR, s)
      | Some key \<Rightarrow> do {
          (r, s) \<leftarrow> find_alloc Z (sd_trans handle) key s;
          case r of Inl ares \<Rightarrow> Some (Inl ares, s)
          | Inr buffer \<Rightarrow> do {
              r \<leftarrow> parse_trans (k_heap Z s) buffer;
              Some (r, s)
            }
        })"

definition astarte_storage_transmission_get_last_sequence_number ::
    "'s kv_env \<Rightarrow> storage_data \<Rightarrow> trans_indexes \<Rightarrow> 's \<Rightarrow> ((astarte_result_t + u64) \<times> 's) option" where
  "astarte_storage_transmission_get_last_sequence_number Z handle indexes s =
     (if \<not> sd_initialized handle then Some (Inl ASTARTE_RESULT_INVALID_PARAM, s)
      else if ti_head indexes = ti_tail indexes + 1 then Some (Inl ASTARTE_RESULT_NOT_FOUND, s)
      else case trans_key (ti_tail indexes) of
        None \<Rightarrow> Some (Inl ASTARTE_RESULT_INTERNAL_ERROR, s)
      | Some key \<Rightarrow> do {
          (r, s) \<leftarrow> find_alloc Z (sd_trans handle) key s;
          case r of Inl ares \<Rightarrow> Some (Inl ares, s)
          | Inr buffer \<Rightarrow>
              if 12 + 8 \<le> length buffer then Some (Inr (get_le64 (drop 12 buffer)), s)
              else Some (Inl ASTARTE_RESULT_INTERNAL_ERROR, s)
        })"

text \<open>Deleting the entry at the head.\<close>

definition astarte_storage_transmission_discard ::
    "'s kv_env \<Rightarrow> storage_data \<Rightarrow> trans_indexes \<Rightarrow> 's
      \<Rightarrow> (astarte_result_t \<times> storage_data \<times> trans_indexes \<times> 's) option" where
  "astarte_storage_transmission_discard Z handle indexes s =
     (if \<not> sd_initialized handle then Some (ASTARTE_RESULT_INVALID_PARAM, handle, indexes, s)
      else case trans_key (ti_head indexes) of
        None \<Rightarrow> Some (ASTARTE_RESULT_INTERNAL_ERROR, handle, indexes, s)
      | Some key \<Rightarrow> do {
          (ares, kv, s) \<leftarrow> key_value_delete Z (sd_trans handle) key s;
          let handle = handle\<lparr>sd_trans := kv\<rparr>;
          Some (ares, handle,
            (if ares = ASTARTE_RESULT_OK then indexes\<lparr>ti_head := ti_head indexes + 1\<rparr> else indexes), s)
        })"

definition astarte_storage_transmission_get ::
    "'s kv_env \<Rightarrow> storage_data \<Rightarrow> trans_indexes \<Rightarrow> 's
      \<Rightarrow> ((astarte_result_t + trans_msg) \<times> storage_data \<times> trans_indexes \<times> 's) option" where
  "astarte_storage_transmission_get Z handle indexes s =
     (if \<not> sd_initialized handle then Some (Inl ASTARTE_RESULT_INVALID_PARAM, handle, indexes, s)
      else do {
        (r, s) \<leftarrow> astarte_storage_transmission_peek Z handle indexes s;
        case r of Inl ares \<Rightarrow> Some (Inl ares, handle, indexes, s)
        | Inr local_msg \<Rightarrow> (case trans_key (ti_head indexes) of
              None \<Rightarrow> Some (Inl ASTARTE_RESULT_INTERNAL_ERROR, handle, indexes, s)
            | Some key \<Rightarrow> do {
                (ares, kv, s) \<leftarrow> key_value_delete Z (sd_trans handle) key s;
                let handle = handle\<lparr>sd_trans := kv\<rparr>;
                if ares \<noteq> ASTARTE_RESULT_OK then Some (Inl ares, handle, indexes, s)
                else Some (Inr local_msg, handle, indexes\<lparr>ti_head := ti_head indexes + 1\<rparr>, s)
              })
      })"

end
