(* ===== verification/Trans_Index.thy ===== *)
theory Trans_Index
  imports Storage_Trans
begin

text \<open>
  The keys of the persistent transmission queue and the computation of its head and tail: a key is
  read back as its number, and the statistics of a range of consecutive numbers, taken around the
  end of \<open>uint32_t\<close> or not, determine where the range starts and ends.
\<close>

section \<open>Keys\<close>

lemma length_zero_padded: "n < 10 ^ 10 \<Longrightarrow> length (zero_padded 10 n) = 10"
proof -
  assume "n < 10 ^ 10"
  then have "length (dec_string n) \<le> 10" using length_dec_string [of n 9] by simp
  then show ?thesis by (simp add: zero_padded_def)
qed

lemma unat_u32_less: "unat (i :: u32) < 2 ^ 32"
  using unsigned_less [of i] by simp

lemma trans_key_padded: "trans_key i = Some (zero_padded 10 (unat i))"
  using length_zero_padded [of "unat i"] unat_u32_less [of i]
  by (simp add: trans_key_def MAX_UINT32_STR_LEN_def)

lemma digit_unat: "k < 10 \<Longrightarrow> unat (of_nat (48 + k) :: byte) = 48 + k"
  by (simp add: unat_of_nat take_bit_nat_eq_self del: of_nat_add)

lemma is_digit_of_nat: "k < 10 \<Longrightarrow> is_digit (of_nat (48 + k))"
  using digit_unat [of k] by (simp add: is_digit_def word_le_nat_alt del: of_nat_add)

lemma digits_value_append:
  "list_all is_digit xs \<Longrightarrow> digits_value acc (xs @ ys) = digits_value (digits_value acc xs) ys"
  by (induction acc xs rule: digits_value.induct) simp_all

lemma dec_string_digits: "list_all is_digit (dec_string n)"
proof (induction n rule: dec_string.induct)
  case (1 n)
  then show ?case
    using is_digit_of_nat [of n] is_digit_of_nat [of "n mod 10"]
    by (subst dec_string.simps) (simp del: of_nat_add)
qed

lemma digits_value_dec: "digits_value 0 (dec_string n) = n"
proof (induction n rule: dec_string.induct)
  case (1 n)
  have k: "n mod 10 < 10" by simp
  show ?case
  proof (cases "n < 10")
    case True
    then show ?thesis
      using is_digit_of_nat [of n] digit_unat [of n] by (subst dec_string.simps) (simp del: of_nat_add)
  next
    case False
    then show ?thesis
      using 1 is_digit_of_nat [OF k] digit_unat [OF k] dec_string_digits [of "n div 10"]
      by (subst dec_string.simps) (simp add: digits_value_append del: of_nat_add)
  qed
qed

lemma digits_value_zeros: "digits_value 0 (replicate n 0x30 @ xs) = digits_value 0 xs"
  by (induction n) (simp_all add: is_digit_def)

lemma zero_padded_digits: "list_all is_digit (zero_padded k n)"
  using dec_string_digits [of n] by (auto simp: zero_padded_def list_all_iff is_digit_def)

lemma zero_padded_nul_free: "nul_free (zero_padded k n)"
  using zero_padded_digits [of k n] by (auto simp: nul_free_def list_all_iff is_digit_def)

lemma digit_no_sign: "is_digit c \<Longrightarrow> c \<noteq> 0x2D \<and> c \<noteq> 0x2B \<and> \<not> is_space c"
  by (auto simp: is_digit_def is_space_def word_le_nat_alt)

lemma strtoul_zero_padded: "strtoul (zero_padded 10 (unat i) @ 0 # bs) = i"
proof -
  let ?t = "zero_padded 10 (unat i)"
  obtain c cs where t: "?t = c # cs"
    using length_zero_padded [of "unat i"] unat_u32_less [of i] by (cases ?t) auto
  have "c_string (?t @ 0 # bs) = ?t"
    using zero_padded_nul_free [of 10 "unat i"] by (auto simp: c_string_def nul_free_def takeWhile_append)
  moreover have "is_digit c" using zero_padded_digits [of 10 "unat i"] t by simp
  moreover have "digits_value 0 ?t = unat i"
    by (simp add: zero_padded_def digits_value_zeros digits_value_dec)
  ultimately show ?thesis
    using digit_no_sign [of c] unat_u32_less [of i] t by (simp add: strtoul_def Let_def)
qed

definition trans_name :: "u32 \<Rightarrow> byte list" where "trans_name i = zero_padded 10 (unat i)"

lemma length_trans_name [simp]: "length (trans_name i) = 10"
  using length_zero_padded [of "unat i"] unat_u32_less [of i] by (simp add: trans_name_def)

lemma strtoul_trans_name [simp]: "strtoul (trans_name i @ 0 # bs) = i"
  by (simp add: trans_name_def strtoul_zero_padded)

lemma trans_name_inj [simp]: "trans_name i = trans_name j \<longleftrightarrow> i = j"
  using strtoul_zero_padded [of _ "[]"] unfolding trans_name_def by metis

lemma valid_trans_name [simp]: "valid_name (trans_name i)"
  using zero_padded_nul_free [of 10 "unat i"] length_zero_padded [of "unat i"] unat_u32_less [of i]
  by (auto simp: valid_name_def trans_name_def)

lemma trans_key_eq [simp]: "trans_key i = Some (trans_name i)"
  by (simp add: trans_key_padded trans_name_def)

section \<open>Statistics of a list of keys\<close>

lemma add_key_eq: "add_key (m, x, t, c) i = (min m i, max x i, t + ucast i, c + 1)"
  by (auto simp: add_key_def min_def max_def)

lemma foldl_add_key:
  "foldl add_key (m, x, t, c) ids =
     (foldl min m ids, foldl max x ids, t + sum_list (map ucast ids), c + of_nat (length ids))"
  by (induction ids arbitrary: m x t c)
    (simp_all add: add_key_eq algebra_simps)

lemma foldl_min:
  "x \<in> set ids \<Longrightarrow> \<forall>y\<in>set ids. x \<le> y \<Longrightarrow> x \<le> m \<Longrightarrow> foldl min m ids = (x :: 'a::linorder)"
proof (induction ids arbitrary: m)
  case (Cons i ids)
  show ?case
  proof (cases "x \<in> set ids")
    case True
    then show ?thesis using Cons by simp
  next
    case False
    then have "i = x" using Cons.prems(1) by simp
    then have "min m i = x" using Cons.prems(3) by simp
    moreover have "foldl min x ids = x" using Cons.prems(2) by (induction ids) (auto simp: min_def)
    ultimately show ?thesis by simp
  qed
qed simp

lemma foldl_max:
  "x \<in> set ids \<Longrightarrow> \<forall>y\<in>set ids. y \<le> x \<Longrightarrow> m \<le> x \<Longrightarrow> foldl max m ids = (x :: 'a::linorder)"
proof (induction ids arbitrary: m)
  case (Cons i ids)
  show ?case
  proof (cases "x \<in> set ids")
    case True
    then show ?thesis using Cons by simp
  next
    case False
    then have "i = x" using Cons.prems(1) by simp
    then have "max m i = x" using Cons.prems(3) by simp
    moreover have "foldl max x ids = x" using Cons.prems(2) by (induction ids) (auto simp: max_def)
    ultimately show ?thesis by simp
  qed
qed simp

section \<open>Ranges\<close>

text \<open>\<open>n\<close> consecutive identifiers from \<open>h\<close> on, wrapping around.\<close>

definition id_range :: "u32 \<Rightarrow> nat \<Rightarrow> u32 list" where
  "id_range h n = map (\<lambda>i. h + of_nat i) [0..<n]"

lemma length_id_range [simp]: "length (id_range h n) = n"
  by (simp add: id_range_def)

lemma id_range_Suc: "id_range h (Suc n) = h # id_range (h + 1) n"
  by (simp add: id_range_def upt_conv_Cons map_Suc_upt [symmetric] algebra_simps del: upt_Suc)

lemma unat_add_of_nat:
  "i < 2 ^ 32 \<Longrightarrow> unat ((h :: u32) + of_nat i) = (if unat h + i < 2 ^ 32 then unat h + i else unat h + i - 2 ^ 32)"
proof -
  assume i: "i < 2 ^ 32"
  have "unat (h + of_nat i) = (unat h + i) mod 2 ^ 32"
    using i by (simp add: unat_word_ariths unat_of_nat_u32 take_bit_eq_mod)
  moreover have "unat h + i < 2 * 2 ^ 32" using i unat_u32_less [of h] by simp
  ultimately show ?thesis by (auto simp: mod_if)
qed

lemma unat_id_range:
  assumes "n \<le> 2 ^ 32"
  shows "map unat (id_range h n) =
     (if unat h + n \<le> 2 ^ 32 then [unat h..<unat h + n]
      else [unat h..<2 ^ 32] @ [0..<unat h + n - 2 ^ 32])" (is "?l = ?r")
proof (rule nth_equalityI)
  have h: "unat h < 2 ^ 32" by (rule unat_u32_less)
  show "length ?l = length ?r" using h assms by (simp del: upt_Suc)
  fix i assume "i < length ?l"
  then have i: "i < n" by simp
  have l: "?l ! i = (if unat h + i < 2 ^ 32 then unat h + i else unat h + i - 2 ^ 32)"
    using assms unat_add_of_nat [of i h] i by (simp add: id_range_def)
  show "?l ! i = ?r ! i"
  proof (cases "unat h + i < 2 ^ 32")
    case True
    then have "i < 2 ^ 32 - unat h" by simp
    then show ?thesis using l i h True assms by (simp add: nth_append del: upt_Suc)
  next
    case False
    then have "\<not> i < 2 ^ 32 - unat h" "\<not> unat h + n \<le> 2 ^ 32" using i by simp_all
    moreover have "i - (2 ^ 32 - unat h) < unat h + n - 2 ^ 32" using i False h by simp
    moreover have "i - (2 ^ 32 - unat h) = unat h + i - 2 ^ 32" using False h by simp
    ultimately show ?thesis using l False by (simp add: nth_append del: upt_Suc)
  qed
qed

lemma sum_upt: "a \<le> b \<Longrightarrow> 2 * int (sum_list [a..<b]) = int b * (int b - 1) - int a * (int a - 1)"
proof (induction b)
  case (Suc b)
  then show ?case
    by (cases "a = Suc b") (simp_all add: algebra_simps)
qed simp

lemma sum_ucast: "sum_list (map (ucast :: u32 \<Rightarrow> u64) ids) = of_nat (sum_list (map unat ids))"
  by (induction ids) simp_all

lemma set_unat: "x \<in> set ids \<longleftrightarrow> unat x \<in> set (map unat ids)" for x :: u32
  by (simp add: inj_image_mem_iff inj_def word_unat_eq_iff)

text \<open>Without wrap-around the minimum and the maximum are the ends of the range.\<close>

lemma stats_straight:
  assumes "0 < n" and "unat h + n \<le> 2 ^ 32"
  shows "foldl min 0xFFFFFFFF (id_range h n) = h" and "foldl max 0 (id_range h n) = h + of_nat n - 1"
    and "unat (h + of_nat n - 1) = unat h + n - 1"
proof -
  have e: "h + of_nat n - 1 = h + of_nat (n - 1)" using assms(1) by (simp add: of_nat_diff)
  then show l: "unat (h + of_nat n - 1) = unat h + n - 1"
    unfolding e using assms unat_u32_less [of h] by (subst unat_add_of_nat) auto
  have s: "set (map unat (id_range h n)) = {unat h..<unat h + n}"
    using assms unat_id_range [of n h] by (simp del: upt_Suc)
  have el: "unat y \<in> {unat h..<unat h + n}" if "y \<in> set (id_range h n)" for y
    using that s by auto
  have hi: "h \<in> set (id_range h n)" "h + of_nat n - 1 \<in> set (id_range h n)"
    unfolding set_unat s l using assms by auto
  have top: "h \<le> 0xFFFFFFFF" using unat_u32_less [of h] by (simp add: word_le_nat_alt)
  show "foldl min 0xFFFFFFFF (id_range h n) = h"
    using hi(1) el top by (intro foldl_min) (auto simp: word_le_nat_alt)
  show "foldl max 0 (id_range h n) = h + of_nat n - 1"
    using hi(2) el by (intro foldl_max) (fastforce simp: word_le_nat_alt l)+
qed

text \<open>With wrap-around they are the ends of \<open>uint32_t\<close>.\<close>

lemma stats_wrapped:
  assumes "n < 2 ^ 32" and "unat h + n > 2 ^ 32"
  shows "foldl min 0xFFFFFFFF (id_range h n) = 0" and "foldl max 0 (id_range h n) = 0xFFFFFFFF"
proof -
  have h: "unat h < 2 ^ 32" by (rule unat_u32_less)
  have s: "set (map unat (id_range h n)) = {unat h..<2 ^ 32} \<union> {0..<unat h + n - 2 ^ 32}"
    using assms unat_id_range [of n h] by (simp del: upt_Suc)
  have "0 \<in> set (id_range h n)" "0xFFFFFFFF \<in> set (id_range h n)"
    unfolding set_unat s using assms h by auto
  moreover have "y \<le> 0xFFFFFFFF" for y :: u32 using unat_u32_less [of y] by (simp add: word_le_nat_alt)
  ultimately show "foldl min 0xFFFFFFFF (id_range h n) = 0" "foldl max 0 (id_range h n) = 0xFFFFFFFF"
    by (auto intro!: foldl_min foldl_max)
qed

lemma sum_wrapped:
  assumes "n < 2 ^ 32" and "unat h + n > 2 ^ 32" and T: "T = unat h + n - 2 ^ 32 - 1"
  shows "2 * int (sum_list (map unat (id_range h n)))
    = 2 ^ 32 * (2 ^ 32 - 1) - (int (unat h) - int T - 1) * (int (unat h) + int T)"
proof -
  have h: "unat h < 2 ^ 32" by (rule unat_u32_less)
  have T1: "unat h + n - 2 ^ 32 = T + 1" using assms by simp
  have "map unat (id_range h n) = [unat h..<2 ^ 32] @ [0..<T + 1]"
    using assms(1,2) unat_id_range [of n h] T1 by (simp del: upt_Suc)
  then have "2 * int (sum_list (map unat (id_range h n)))
      = 2 * int (sum_list [unat h..<2 ^ 32]) + 2 * int (sum_list [0..<T + 1])"
    by (simp del: upt_Suc)
  also have "\<dots> = int (2 ^ 32) * (int (2 ^ 32) - 1) - int (unat h) * (int (unat h) - 1)
      + int (T + 1) * (int (T + 1) - 1)"
    using sum_upt [of "unat h" "2 ^ 32"] sum_upt [of 0 "T + 1"] h by (simp del: upt_Suc)
  finally show ?thesis by (simp add: algebra_simps)
qed

section \<open>The ends of a range\<close>

lemma unat_of_nat_u64: "n < 2 ^ 64 \<Longrightarrow> unat (of_nat n :: u64) = n"
  by (simp add: unsigned_of_nat take_bit_eq_mod)

lemma of_nat_div_u64: "a < 2 ^ 64 \<Longrightarrow> b < 2 ^ 64 \<Longrightarrow> (of_nat a :: u64) div of_nat b = of_nat (a div b)"
  using unat_of_nat_u64 [of "a div b"] div_le_dividend [of a b]
  by (simp add: word_unat_eq_iff unat_div_distrib unat_of_nat_u64 del: div_le_dividend)

text \<open>
  \<open>m\<close> consecutive numbers from \<open>b\<close> on are missing, with the sum \<open>q\<close>; the 64-bit computation of
  the code finds the numbers before and behind them without overflow.
\<close>

lemma missing_ends:
  fixes q m b :: nat
  assumes q: "2 * q = m * (2 * b + m - 1)" and m: "0 < m" and b: "0 < b" and bm: "b + m \<le> 2 ^ 32"
  shows "((2 * of_nat q) div of_nat m + (of_nat m + 1)) div 2 = (of_nat (b + m) :: u64)"
    and "((2 * of_nat q) div of_nat m - (of_nat m + 1)) div 2 = (of_nat (b - 1) :: u64)"
proof -
  have "2 * q < (b + m) * (b + m)"
    unfolding q using b m by (cases b) (simp_all add: algebra_simps)
  also have "\<dots> \<le> 2 ^ 32 * 2 ^ 32" using bm by (rule mult_le_mono [OF _ bm])
  finally have q64: "2 * q < 2 ^ 64" by simp
  have "(of_nat (2 * q) :: u64) div of_nat m = of_nat (2 * q div m)"
    using q64 bm by (intro of_nat_div_u64) simp_all
  also have "2 * q div m = 2 * b + m - 1" using q m by simp
  finally have d: "(2 * of_nat q :: u64) div of_nat m = of_nat (2 * b + m - 1)" by simp
  have "2 * (b + m) = 2 * b + m - 1 + (m + 1)" using b by simp
  then have s: "of_nat (2 * b + m - 1) + (of_nat m + 1) = (of_nat (2 * (b + m)) :: u64)" by (simp only: of_nat_add of_nat_1)
  have "(of_nat (2 * (b + m)) :: u64) div of_nat 2 = of_nat (2 * (b + m) div 2)"
    using bm by (intro of_nat_div_u64) simp_all
  then show "((2 * of_nat q) div of_nat m + (of_nat m + 1)) div 2 = (of_nat (b + m) :: u64)"
    unfolding d s by simp
  have "2 * b + m - 1 = 2 * (b - 1) + (m + 1)" using b by simp
  then have s: "of_nat (2 * b + m - 1) - (of_nat m + 1) = (of_nat (2 * (b - 1)) :: u64)"
    by (simp only: of_nat_add of_nat_1 add_diff_cancel_right')
  have "(of_nat (2 * (b - 1)) :: u64) div of_nat 2 = of_nat (2 * (b - 1) div 2)"
    using bm by (intro of_nat_div_u64) simp_all
  then show "((2 * of_nat q) div of_nat m - (of_nat m + 1)) div 2 = (of_nat (b - 1) :: u64)"
    unfolding d s by simp
qed

text \<open>The statistics of a range give its ends.\<close>

lemma compute_indexes_range:
  assumes n: "0 < n" "n < 2 ^ 32"
  shows "compute_indexes (foldl add_key (0xFFFFFFFF, 0, 0, 0) (id_range h n))
    = \<lparr>ti_head = h, ti_tail = h + of_nat n - 1\<rparr>"
proof (cases "unat h + n \<le> 2 ^ 32")
  case True
  note st = stats_straight [OF n(1) True]
  have u: "(ucast x :: u64) = of_nat (unat x)" for x :: u32 by simp
  have "unat h + n - 1 = unat h + (n - 1)" "n = n - 1 + 1" using n(1) by simp_all
  then have "(of_nat (unat h + n - 1) :: u64) - of_nat (unat h) + 1 = of_nat n"
    by (metis add_diff_cancel_left' of_nat_1 of_nat_add)
  then have "(ucast (h + of_nat n - 1) :: u64) - ucast h + 1 = ucast (of_nat n :: u32)"
    using n(2) unfolding u st(3) by (simp only: unat_of_nat_u32)
  then show ?thesis
    unfolding foldl_add_key st(1,2) compute_indexes_def by simp
next
  case False
  let ?S = "sum_list (map unat (id_range h n))"
  define T where "T = unat h + n - 2 ^ 32 - 1"
  define m where "m = 2 ^ 32 - n"
  define q where "q = 9223372034707292160 - ?S"
  have h: "unat h < 2 ^ 32" by (rule unat_u32_less)
  have m: "0 < m" "m + n = 2 ^ 32" and bm: "T + 1 + m = unat h" using n(2) False by (simp_all add: m_def T_def)
  have "2 * int ?S = 2 ^ 32 * (2 ^ 32 - 1) - (int (unat h) - int T - 1) * (int (unat h) + int T)"
    using False n(2) T_def by (intro sum_wrapped) simp_all
  also have "int (unat h) = int T + 1 + int m" unfolding bm [symmetric] by simp
  finally have sq: "2 * int ?S = 2 * 9223372034707292160 - int m * (2 * int T + 1 + int m)" by (simp add: algebra_simps)
  have "0 \<le> int m * (2 * int T + 1 + int m)" by simp
  with sq have "2 * int ?S \<le> 2 * 9223372034707292160" by linarith
  then have S: "?S \<le> 9223372034707292160" by simp
  have "int (2 * q) = int (m * (2 * (T + 1) + m - 1))"
    using sq S by (simp add: q_def of_nat_diff algebra_simps)
  then have q: "2 * q = m * (2 * (T + 1) + m - 1)" by (simp only: of_nat_eq_iff)
  have sm: "(9223372034707292160 :: u64) - of_nat ?S = of_nat q"
    using S by (simp add: q_def of_nat_diff)
  have mm: "0xFFFFFFFF + 1 - (of_nat n :: u64) = of_nat m"
    using n(2) by (simp add: m_def of_nat_diff)
  have cn: "(ucast (of_nat n :: u32) :: u64) = of_nat n"
  proof -
    have "(ucast x :: u64) = of_nat (unat x)" for x :: u32 by simp
    then show ?thesis using n(2) by (simp only: unat_of_nat_u32)
  qed
  have ne: "(ucast (0xFFFFFFFF :: u32) :: u64) - ucast (0 :: u32) + 1 \<noteq> of_nat n"
  proof
    assume "(ucast (0xFFFFFFFF :: u32) :: u64) - ucast (0 :: u32) + 1 = of_nat n"
    then have "(4294967296 :: u64) = of_nat n" by simp
    then have "unat (4294967296 :: u64) = unat (of_nat n :: u64)" by (rule arg_cong)
    then show False using n(2) unat_of_nat_u64 [of n] by simp
  qed
  have "T + 1 + m \<le> 2 ^ 32" using bm h by simp
  note e = missing_ends [OF q m(1) _ this, unfolded bm]
  have t: "h + of_nat n - 1 = of_nat T"
  proof -
    have "h + of_nat n = of_nat (unat h + n)" by simp
    also have "unat h + n = T + 1 + 2 ^ 32" using bm m(2) by simp
    also have "(of_nat (T + 1 + 2 ^ 32) :: u32) = of_nat T + 1" by simp
    finally show ?thesis by simp
  qed
  have st: "(0xFFFFFFFF * (0xFFFFFFFF + 1)) div (2 :: u64) = 9223372034707292160" by simp
  have T0: "0 < T + 1" "T + 1 - 1 = T" by simp_all
  have c: "ucast (of_nat k :: u64) = (of_nat k :: u32)" for k
    by (rule word_unat_eq_iff [THEN iffD2])
      (simp add: unsigned_ucast_eq unsigned_of_nat take_bit_take_bit)
  have ends: "ucast (of_nat (unat h) :: u64) = h" "ucast (of_nat T :: u64) = (of_nat T :: u32)"
    unfolding c by simp_all
  have "compute_indexes (0, 0xFFFFFFFF, of_nat ?S, of_nat n) = \<lparr>ti_head = h, ti_tail = of_nat T\<rparr>"
    unfolding compute_indexes_def prod.case Let_def cn if_not_P [OF ne] st sm mm e(1) [OF T0(1)]
      e(2) [OF T0(1), unfolded T0(2)] ends ..
  then show ?thesis
    unfolding foldl_add_key stats_wrapped [OF n(2) False [unfolded not_le]] t sum_ucast by simp
qed

end
