(* ===== verification/Trans_Queue.thy ===== *)
theory Trans_Queue
  imports Trans_Index Refine
begin

text \<open>
  What the persistent transmission queue promises: it is a first-in first-out queue of messages,
  bounded by the quota of its namespace, across restarts.  The pairs of the namespace are the
  messages in order, under consecutive keys.
\<close>

section \<open>Messages\<close>

definition valid_msg :: "trans_msg \<Rightarrow> bool" where
  "valid_msg m \<longleftrightarrow> (case (tm_interface_name m, tm_path m) of (Some n, Some p) \<Rightarrow>
       0 \<le> sint (tm_payload_len m)
       \<and> (tm_payload_len m \<noteq> 0 \<longrightarrow> (case tm_payload m of None \<Rightarrow> False | Some b \<Rightarrow> unat (tm_payload_len m) \<le> length b))
       \<and> sizeof_static + strlen n + strlen p + unat (tm_payload_len m) < 2 ^ 32
     | _ \<Rightarrow> False)"

text \<open>The message that comes back: strings up to their zero byte, the payload cut to its length.\<close>

definition stored_msg :: "trans_msg \<Rightarrow> trans_msg" where
  "stored_msg m = m\<lparr>tm_interface_name := map_option c_string (tm_interface_name m),
     tm_path := map_option c_string (tm_path m),
     tm_payload := (if tm_payload_len m = 0 then None
       else map_option (take (unat (tm_payload_len m))) (tm_payload m))\<rparr>"

lemma sint_pos: "0 \<le> sint (w :: u32) \<Longrightarrow> (0 < sint w) = (w \<noteq> 0)"
  by (metis order_less_le signed_eq_0_iff)

lemma length_trans_image:
  assumes "valid_msg m"
  shows "length (trans_image m) = trans_buffer_size m"
  using assms sint_pos [of "tm_payload_len m"]
  by (auto simp: valid_msg_def trans_image_def trans_buffer_size_def sizeof_static_def strlen_def Let_def
      split: option.splits)

lemma extract_string_mid:
  assumes "heap (length str + 1)" and "length (pre @ str @ post) < 2 ^ 32" and "pre \<noteq> []"
  shows "extract_string heap (pre @ str @ post) (of_nat (length pre)) (of_nat (length str))
    = Some (Inr (str, of_nat (length (pre @ str))))"
proof -
  have u: "unat (of_nat k :: u32) = k" if "k \<le> length (pre @ str @ post)" for k
    using that assms(2) by (intro unat_of_nat_u32) simp
  have s: "of_nat (length pre) + of_nat (length str) = (of_nat (length (pre @ str)) :: u32)" by simp
  have "of_nat (length str) + 1 = (of_nat (length str + 1) :: u32)" by simp
  moreover have "length str + 1 \<le> length (pre @ str @ post)" using assms(3) by (cases pre) simp_all
  ultimately have "unat (of_nat (length str) + 1 :: u32) = length str + 1" using u by metis
  then show ?thesis
    using assms u [of "length pre"] u [of "length str"] u [of "length (pre @ str)"] u [of "length (pre @ str @ post)"]
    unfolding extract_string_def s
    by (simp add: read_buf_def word_less_nat_alt astarte_calloc_def del: of_nat_add)
qed

lemma extract_payload_mid:
  assumes "heap (length p)" and "length (pre @ p @ post) < 2 ^ 32" and "unat n = length p" and "0 \<le> sint n"
  shows "extract_payload heap (pre @ p @ post) (of_nat (length pre)) n
    = Some (Inr (if n = 0 then None else Some p, of_nat (length (pre @ p))))"
proof -
  have u: "unat (of_nat k :: u32) = k" if "k \<le> length (pre @ p @ post)" for k
    using that assms(2) by (intro unat_of_nat_u32) simp
  have n: "n = of_nat (length p)" using assms(3) by (simp flip: assms(3))
  have s: "of_nat (length pre) + n = (of_nat (length (pre @ p)) :: u32)" by (simp add: n)
  show ?thesis
  proof (cases "n = 0")
    case True
    then show ?thesis using assms(3) by (simp add: extract_payload_def)
  next
    case False
    then have "0 < length p" using assms(3) by (auto simp flip: unat_0_iff)
    then show ?thesis
      using assms u [of "length pre"] u [of "length (pre @ p)"] u [of "length (pre @ p @ post)"] False
      unfolding extract_payload_def s
      by (simp add: read_buf_def word_less_nat_alt astarte_malloc_def del: of_nat_add)
  qed
qed

lemma parse_trans_image:
  assumes v: "valid_msg m" and heap: "\<And>n. heap n"
  shows "parse_trans heap (trans_image m) = Some (Inr (stored_msg m))"
proof -
  obtain n p where np: "tm_interface_name m = Some n" "tm_path m = Some p"
    and len: "sizeof_static + strlen n + strlen p + unat (tm_payload_len m) < 2 ^ 32"
    and sg: "0 \<le> sint (tm_payload_len m)"
    and pl: "tm_payload_len m \<noteq> 0 \<Longrightarrow> \<exists>b. tm_payload m = Some b \<and> unat (tm_payload_len m) \<le> length b"
    using v by (auto simp: valid_msg_def split: option.splits)
  define d where "d = (if tm_payload_len m = 0 then [] else take (unat (tm_payload_len m)) (the (tm_payload m)))"
  define hd where "hd = le32 (tm_qos m) @ le64 (tm_timestamp m) @ le64 (tm_sequence_number m) @
    le32 (of_nat (length (c_string n))) @ le32 (of_nat (length (c_string p))) @ le32 (tm_payload_len m)"
  have dl: "unat (tm_payload_len m) = length d" using pl by (auto simp: d_def)
  have hl: "length hd = 32" by (simp add: hd_def)
  then have "hd \<noteq> []" by auto
  note hl = hl this
  have im: "trans_image m = hd @ c_string n @ c_string p @ d"
    using np sint_pos [OF sg] by (simp add: trans_image_def Let_def hd_def d_def)
  have tot: "length (hd @ c_string n @ c_string p @ d) < 2 ^ 32"
    using len dl hl by (simp add: sizeof_static_def strlen_def)
  have fields: "get_le32 (drop 20 (trans_image m)) = of_nat (length (c_string n))"
    "get_le32 (drop 24 (trans_image m)) = of_nat (length (c_string p))"
    "get_le32 (drop 28 (trans_image m)) = tm_payload_len m" "get_le32 (trans_image m) = tm_qos m"
    "get_le64 (drop 4 (trans_image m)) = tm_timestamp m" "get_le64 (drop 12 (trans_image m)) = tm_sequence_number m"
    unfolding im hd_def by simp_all
  have e1: "extract_string heap (trans_image m) (of_nat sizeof_static) (of_nat (length (c_string n)))
      = Some (Inr (c_string n, of_nat (length (hd @ c_string n))))"
    using extract_string_mid [of heap "c_string n" hd "c_string p @ d"] tot heap hl
    by (auto simp: im sizeof_static_def)
  have e2: "extract_string heap (trans_image m) (of_nat (length (hd @ c_string n))) (of_nat (length (c_string p)))
      = Some (Inr (c_string p, of_nat (length (hd @ c_string n @ c_string p))))"
    using extract_string_mid [of heap "c_string p" "hd @ c_string n" d] tot heap hl by (auto simp: im)
  have e3: "extract_payload heap (trans_image m) (of_nat (length (hd @ c_string n @ c_string p))) (tm_payload_len m)
      = Some (Inr (if tm_payload_len m = 0 then None else Some d, of_nat (length (hd @ c_string n @ c_string p @ d))))"
    using extract_payload_mid [of heap d "hd @ c_string n @ c_string p" "[]" "tm_payload_len m"] tot heap dl sg
    by (simp add: im)
  have "sizeof_static \<le> length (trans_image m)" by (simp add: im hl sizeof_static_def)
  moreover have "(if tm_payload_len m = 0 then None else Some d) = tm_payload (stored_msg m)"
    using pl by (auto simp: stored_msg_def d_def)
  ultimately show ?thesis
    unfolding parse_trans_def Let_def fields e1
    using e2 e3 np by (simp add: out_bind_def stored_msg_def)
qed

section \<open>Indexes\<close>

lemma indexes_loop_cursor:
  "key_cursor Z kv s r ks \<Longrightarrow> r = Inr i \<Longrightarrow> \<forall>k\<in>set ks. length k < MAX_UINT32_STR_LEN \<Longrightarrow>
   indexes_loop Z kv i stats s
     = Some (Inr (foldl add_key stats (map (\<lambda>k. strtoul (k @ [0])) ks)), s)"
proof (induction arbitrary: i stats rule: key_cursor.induct)
  case none
  then show ?case by simp
next
  case (key j k r ks)
  then show ?case
    by (cases rule: key_cursor.cases [OF key(5)]) (subst indexes_loop.simps, simp)+
qed

context reliable_store begin

text \<open>The indexes computed for a namespace that holds a range of keys.\<close>

lemma get_indexes_ok:
  assumes kr: "kv_rep Z C R s al" and init: "sd_initialized h" and v: "valid_name (kv_namespace (sd_trans h))"
    and keys: "ns_keys (kv_namespace (sd_trans h)) al = map trans_name (id_range first n)" and n: "n < 2 ^ 32"
  shows "astarte_storage_transmission_get_indexes Z h s = Some (Inr
    (if n = 0 then \<lparr>ti_head = 1, ti_tail = 0\<rparr> else \<lparr>ti_head = first, ti_tail = first + of_nat n - 1\<rparr>), s)"
proof -
  from iterator_lists [OF kr v] obtain r where it: "iterator_init Z (sd_trans h) s = Some (r, s)"
    and c: "key_cursor Z (sd_trans h) s r (map trans_name (id_range first n))" unfolding keys by blast
  show ?thesis
  proof (cases "n = 0")
    case True
    then have "id_range first n = []" by (simp add: id_range_def)
    then have "r = Inl ASTARTE_RESULT_NOT_FOUND" using c by (auto elim: key_cursor.cases)
    then show ?thesis using it init True by (simp add: astarte_storage_transmission_get_indexes_def)
  next
    case False
    then have "id_range first n \<noteq> []" by (simp flip: length_greater_0_conv)
    then obtain i where r: "r = Inr i" using c by (auto elim: key_cursor.cases)
    have "indexes_loop Z (sd_trans h) i (0xFFFFFFFF, 0, 0, 0) s
        = Some (Inr (foldl add_key (0xFFFFFFFF, 0, 0, 0) (id_range first n)), s)"
      using indexes_loop_cursor [OF c r] by (simp add: MAX_UINT32_STR_LEN_def comp_def)
    then show ?thesis
      using it r init compute_indexes_range [OF _ n] False
      by (simp add: astarte_storage_transmission_get_indexes_def)
  qed
qed

end

section \<open>The pairs of the namespace\<close>

fun queue_pairs :: "byte list \<Rightarrow> u32 \<Rightarrow> trans_msg list \<Rightarrow> (kv_key \<times> byte list) list" where
  "queue_pairs ns h [] = []"
| "queue_pairs ns h (m # ms) = ((ns, trans_name h), trans_image m) # queue_pairs ns (h + 1) ms"

definition in_namespace :: "byte list \<Rightarrow> (kv_key \<times> byte list) list \<Rightarrow> (kv_key \<times> byte list) list" where
  "in_namespace ns al = filter (\<lambda>((n, k), v). n = ns) al"

definition queue_size :: "trans_msg list \<Rightarrow> nat" where
  "queue_size ms = sum_list (map (\<lambda>m. length (trans_image m)) ms)"

lemma queue_size_simps [simp]:
  "queue_size [] = 0" "queue_size (m # ms) = length (trans_image m) + queue_size ms"
  "queue_size (xs @ ys) = queue_size xs + queue_size ys"
  by (simp_all add: queue_size_def)

lemma queue_pairs_append:
  "queue_pairs ns h (xs @ ys) = queue_pairs ns h xs @ queue_pairs ns (h + of_nat (length xs)) ys"
  by (induction xs arbitrary: h) (simp_all add: algebra_simps)

lemma queue_keys: "map fst (queue_pairs ns h ms) = map (\<lambda>i. (ns, trans_name i)) (id_range h (length ms))"
  by (induction ms arbitrary: h) (simp_all add: id_range_Suc, simp add: id_range_def)

lemma map_of_in_namespace: "map_of al (ns, k) = map_of (in_namespace ns al) (ns, k)"
  unfolding in_namespace_def by (induction al) auto

lemma ns_keys_in_namespace: "ns_keys ns al = ns_keys ns (in_namespace ns al)"
  unfolding in_namespace_def by (induction al) auto

lemma ns_size_in_namespace: "ns_size ns al = ns_size ns (in_namespace ns al)"
  unfolding in_namespace_def by (induction al) auto

lemma ns_keys_queue: "ns_keys ns (queue_pairs ns h ms) = map trans_name (id_range h (length ms))"
  by (induction ms arbitrary: h) (simp_all add: id_range_Suc, simp add: id_range_def)

lemma ns_size_queue: "ns_size ns (queue_pairs ns h ms) = queue_size ms"
  by (induction ms arbitrary: h) simp_all

lemma in_namespace_update:
  "map_of al (ns, k) = None \<Longrightarrow> in_namespace ns (AList.update (ns, k) v al) = in_namespace ns al @ [((ns, k), v)]"
  unfolding in_namespace_def by (induction al) (auto split: if_splits)

lemma in_namespace_delete:
  "in_namespace ns (AList.delete k al) = AList.delete k (in_namespace ns al)"
  unfolding in_namespace_def AList.delete_eq filter_filter by (rule filter_cong) auto

lemma length_update_new: "map_of al k = None \<Longrightarrow> length (AList.update k v al) = Suc (length al)"
  by (induction al) (auto split: if_splits)

lemma length_delete_old:
  "distinct (map fst al) \<Longrightarrow> map_of al k = Some v \<Longrightarrow> Suc (length (AList.delete k al)) = length al"
proof (induction al)
  case (Cons p al)
  show ?case
  proof (cases "fst p = k")
    case True
    then have "AList.delete k al = al" using Cons.prems(1) by (auto simp: AList.delete_idem)
    then show ?thesis using True by simp
  next
    case False
    then show ?thesis using Cons by (cases p) simp
  qed
qed simp

lemma id_range_fresh: "n < 2 ^ 32 \<Longrightarrow> h + of_nat n \<notin> set (id_range h n)"
proof
  assume n: "n < 2 ^ 32" and "h + of_nat n \<in> set (id_range h n)"
  then obtain i where i: "i < n" "(of_nat n :: u32) = of_nat i" by (auto simp: id_range_def)
  then show False using n unat_of_nat_u32 [of n] unat_of_nat_u32 [of i] by simp
qed

text \<open>The next key is free, the first one holds the first message.\<close>

lemma queue_next_free:
  "length ms < 2 ^ 32 \<Longrightarrow> map_of (queue_pairs ns h ms) (ns, trans_name (h + of_nat (length ms))) = None"
  using id_range_fresh [of "length ms" h]
  unfolding map_of_eq_None_iff set_map [symmetric] queue_keys by auto

lemma queue_delete_head:
  assumes "length ms < 2 ^ 32"
  shows "AList.delete (ns, trans_name h) (queue_pairs ns (h + 1) ms) = queue_pairs ns (h + 1) ms"
proof -
  have "h \<notin> set (id_range (h + 1) (length ms))"
  proof
    assume "h \<in> set (id_range (h + 1) (length ms))"
    then obtain i where i: "i < length ms" "(of_nat (i + 1) :: u32) = 0"
      by (auto simp: id_range_def)
    then show False using assms unat_of_nat_u32 [of "i + 1"] by simp
  qed
  then have "(ns, trans_name h) \<notin> set (map fst (queue_pairs ns (h + 1) ms))" by (auto simp: queue_keys)
  then show ?thesis by (simp add: AList.delete_idem)
qed

section \<open>The queue\<close>

datatype trans_op = TPush trans_msg | TPeek | TGet | TDiscard | TRestart

text \<open>
  One operation of the code on the handle, the indexes and the file system.  \<open>TRestart\<close> is what a
  start of the device does for the queue: a new handle of the namespace, with the indexes computed.
\<close>

type_synonym 's trans_state = "storage_data \<times> trans_indexes \<times> 's"

definition trans_step ::
    "'s kv_env \<Rightarrow> 's platform \<Rightarrow> trans_op \<Rightarrow> 's trans_state \<Rightarrow> ((astarte_result_t \<times> trans_msg option) \<times> 's trans_state) option" where
  "trans_step Z P x = (\<lambda>(h, i, s). case x of
       TPush m \<Rightarrow> do {
         (r, h, i, s) \<leftarrow> astarte_storage_transmission_push Z h i m s;
         Some ((r, None), (h, i, s)) }
     | TPeek \<Rightarrow> do {
         (r, s) \<leftarrow> astarte_storage_transmission_peek Z h i s;
         Some (case r of Inl e \<Rightarrow> (e, None) | Inr m \<Rightarrow> (ASTARTE_RESULT_OK, Some m), (h, i, s)) }
     | TGet \<Rightarrow> do {
         (r, h, i, s) \<leftarrow> astarte_storage_transmission_get Z h i s;
         Some (case r of Inl e \<Rightarrow> (e, None) | Inr m \<Rightarrow> (ASTARTE_RESULT_OK, Some m), (h, i, s)) }
     | TDiscard \<Rightarrow> do {
         (r, h, i, s) \<leftarrow> astarte_storage_transmission_discard Z h i s;
         Some ((r, None), (h, i, s)) }
     | TRestart \<Rightarrow> do {
         (r, s) \<leftarrow> new_namespace Z P TRANSMISSION_NAMESPACE (pf_bound P) s;
         case r of Inl e \<Rightarrow> Some ((e, None), (h, i, s))
         | Inr kv \<Rightarrow> do {
             let h = h\<lparr>sd_trans := kv\<rparr>;
             (r, s) \<leftarrow> astarte_storage_transmission_get_indexes Z h s;
             Some (case r of Inl e \<Rightarrow> ((e, None), (h, i, s)) | Inr i \<Rightarrow> ((ASTARTE_RESULT_OK, None), (h, i, s))) } })"

text \<open>The bounded queue; \<open>quota\<close> is in bytes, zero for none.\<close>

definition fits :: "nat \<Rightarrow> trans_msg list \<Rightarrow> trans_msg \<Rightarrow> bool" where
  "fits quota ms m \<longleftrightarrow> quota = 0 \<or> queue_size ms + length (trans_image m) \<le> quota"

definition trans_spec ::
    "nat \<Rightarrow> trans_op \<Rightarrow> trans_msg list \<Rightarrow> (astarte_result_t \<times> trans_msg option) \<times> trans_msg list" where
  "trans_spec quota x ms = (case x of
       TPush m \<Rightarrow> if fits quota ms m then ((ASTARTE_RESULT_OK, None), ms @ [m])
                   else ((ASTARTE_RESULT_OUT_OF_SPACE, None), ms)
     | TPeek \<Rightarrow> (case ms of [] \<Rightarrow> ((ASTARTE_RESULT_NOT_FOUND, None), [])
         | m # _ \<Rightarrow> ((ASTARTE_RESULT_OK, Some (stored_msg m)), ms))
     | TGet \<Rightarrow> (case ms of [] \<Rightarrow> ((ASTARTE_RESULT_NOT_FOUND, None), [])
         | m # ms \<Rightarrow> ((ASTARTE_RESULT_OK, Some (stored_msg m)), ms))
     | TDiscard \<Rightarrow> (case ms of [] \<Rightarrow> ((ASTARTE_RESULT_NOT_FOUND, None), [])
         | m # ms \<Rightarrow> ((ASTARTE_RESULT_OK, None), ms))
     | TRestart \<Rightarrow> ((ASTARTE_RESULT_OK, None), ms))"

definition platform_quota :: "'s platform \<Rightarrow> u32" where
  "platform_quota P = quota_bytes (pf_sector_size P) (pf_sector_count P) (pf_bound P)"

text \<open>\<open>others\<close> is the number of pairs of the other namespaces.\<close>

definition trans_rel ::
    "'s kv_env \<Rightarrow> ('s \<Rightarrow> u32 \<rightharpoonup> byte list) \<Rightarrow> 's platform \<Rightarrow> nat \<Rightarrow> 's trans_state \<Rightarrow> trans_msg list \<Rightarrow> bool" where
  "trans_rel Z C P others = (\<lambda>(h, i, s) ms. reliable_store Z C \<and> sd_initialized h
     \<and> kv_namespace (sd_trans h) = TRANSMISSION_NAMESPACE \<and> kv_max_quota_bytes (sd_trans h) = platform_quota P
     \<and> (0 < platform_quota P \<longrightarrow> unat (kv_current_usage_bytes (sd_trans h)) = queue_size ms)
     \<and> list_all valid_msg ms \<and> ti_tail i + 1 = ti_head i + of_nat (length ms)
     \<and> (\<exists>al. kv_stores Z C s al \<and> length al = others + length ms
          \<and> in_namespace TRANSMISSION_NAMESPACE al = queue_pairs TRANSMISSION_NAMESPACE (ti_head i) ms))"

text \<open>
  The capacity: room in the file system for an entry per operation, and messages so short that the
  32-bit counter of the quota does not wrap.
\<close>

definition trans_may :: "'s platform \<Rightarrow> nat \<Rightarrow> trans_msg list \<Rightarrow> trans_op list \<Rightarrow> bool" where
  "trans_may P others ms xs \<longleftrightarrow> others + length ms + length xs < ring_size
     \<and> (0 < platform_quota P \<longrightarrow> queue_size ms \<le> unat (platform_quota P))
     \<and> list_all (\<lambda>x. case x of TPush m \<Rightarrow> valid_msg m
           \<and> unat (platform_quota P) + length (trans_image m) < 2 ^ 32 | _ \<Rightarrow> True) xs"

lemma trans_may_tl:
  "trans_may P others ms (x # xs) \<Longrightarrow> trans_may P others (snd (trans_spec (unat (platform_quota P)) x ms)) xs"
  by (auto simp: trans_may_def trans_spec_def fits_def word_gt_0 unat_eq_0 split: trans_op.splits list.splits)

section \<open>Refinement\<close>

lemma valid_namespaces:
  "valid_name TRANSMISSION_NAMESPACE" "valid_name PROPERTIES_NAMESPACE"
  "valid_name SYNCHRONIZATION_NAMESPACE" "valid_name INTROSPECTION_NAMESPACE"
  by (simp_all add: TRANSMISSION_NAMESPACE_def PROPERTIES_NAMESPACE_def SYNCHRONIZATION_NAMESPACE_def
      INTROSPECTION_NAMESPACE_def chars_def valid_name_def nul_free_def of_char_def)

lemma ring_size_32: "ring_size < 2 ^ 32"
  by (simp add: ring_size_def)

text \<open>What the relation gives for a proof about one operation.\<close>

lemma trans_relE:
  assumes "trans_rel Z C P others (h, i, s) ms" and "trans_may P others ms xs"
  obtains R al where "reliable_store Z C" "kv_rep Z C R s al" "length al < ring_size"
    "length al = others + length ms" "sd_initialized h"
    "valid_name (kv_namespace (sd_trans h))" "kv_namespace (sd_trans h) = TRANSMISSION_NAMESPACE"
    "kv_max_quota_bytes (sd_trans h) = platform_quota P"
    "0 < platform_quota P \<Longrightarrow> unat (kv_current_usage_bytes (sd_trans h)) = queue_size ms"
    "list_all valid_msg ms" "length ms < 2 ^ 32" "ti_tail i + 1 = ti_head i + of_nat (length ms)"
    "in_namespace TRANSMISSION_NAMESPACE al = queue_pairs TRANSMISSION_NAMESPACE (ti_head i) ms"
    "\<And>k. map_of al (TRANSMISSION_NAMESPACE, k) = map_of (queue_pairs TRANSMISSION_NAMESPACE (ti_head i) ms) (TRANSMISSION_NAMESPACE, k)"
proof -
  from assms(1) obtain al where *: "kv_stores Z C s al" "length al = others + length ms"
    "in_namespace TRANSMISSION_NAMESPACE al = queue_pairs TRANSMISSION_NAMESPACE (ti_head i) ms"
    by (auto simp: trans_rel_def)
  have "others + length ms < ring_size" using assms(2) by (auto simp: trans_may_def)
  moreover from *(1) obtain R where "kv_rep Z C R s al" by (auto simp: kv_stores_def)
  ultimately show thesis
    using assms(1) * valid_namespaces(1) ring_size_32
    by (intro that [of R al]) (auto simp: trans_rel_def map_of_in_namespace [of al])
qed

lemma trans_image_nonempty: "valid_msg m \<Longrightarrow> trans_image m \<noteq> []"
  using length_trans_image [of m] by (auto simp: trans_buffer_size_def sizeof_static_def)

text \<open>The head of the queue, with and without a message there.\<close>

lemma head_lookup:
  "map_of (queue_pairs ns h ms) (ns, trans_name h) = (case ms of [] \<Rightarrow> None | m # _ \<Rightarrow> Some (trans_image m))"
  by (cases ms) simp_all

lemma peek_ok:
  assumes r: "trans_rel Z C P others (h, i, s) ms" and m: "trans_may P others ms xs"
  shows "astarte_storage_transmission_peek Z h i s = Some (case ms of [] \<Rightarrow> Inl ASTARTE_RESULT_NOT_FOUND
    | m # _ \<Rightarrow> Inr (stored_msg m), s)"
proof -
  from r m obtain R al where f: "reliable_store Z C" "kv_rep Z C R s al" "length al < ring_size"
    "valid_name (kv_namespace (sd_trans h))" "kv_namespace (sd_trans h) = TRANSMISSION_NAMESPACE"
    and i: "sd_initialized h" and v: "list_all valid_msg ms"
    and mo: "\<And>k. map_of al (TRANSMISSION_NAMESPACE, k) = map_of (queue_pairs TRANSMISSION_NAMESPACE (ti_head i) ms) (TRANSMISSION_NAMESPACE, k)"
    by (rule trans_relE) blast
  have fa: "find_alloc Z (sd_trans h) (trans_name (ti_head i)) s = Some (case ms of
      [] \<Rightarrow> Inl ASTARTE_RESULT_NOT_FOUND
    | m # _ \<Rightarrow> if trans_image m = [] then Inl ASTARTE_RESULT_OUT_OF_MEMORY else Inr (trans_image m), s)"
    using reliable_store.find_alloc_ok [OF f(1,2,4) valid_trans_name f(3), of "ti_head i"] f(5)
    by (cases ms) (simp_all add: mo head_lookup)
  show ?thesis
    using fa i v trans_image_nonempty parse_trans_image reliable_store.heap_ok [OF f(1)]
    by (cases ms) (simp_all add: astarte_storage_transmission_peek_def)
qed

text \<open>The sequence number of the newest message, read back from its image.\<close>

lemma trans_image_sequence:
  assumes "valid_msg m"
  shows "get_le64 (drop 12 (trans_image m)) = tm_sequence_number m" and "20 \<le> length (trans_image m)"
proof -
  obtain n p where "tm_interface_name m = Some n" "tm_path m = Some p"
    using assms by (auto simp: valid_msg_def split: option.splits)
  then show "get_le64 (drop 12 (trans_image m)) = tm_sequence_number m"
    by (simp add: trans_image_def Let_def)
  show "20 \<le> length (trans_image m)"
    using length_trans_image [OF assms] by (simp add: trans_buffer_size_def sizeof_static_def split: option.splits)
qed

lemma tail_lookup:
  assumes "ms \<noteq> []" and "length ms < 2 ^ 32"
  shows "map_of (queue_pairs ns h ms) (ns, trans_name (h + of_nat (length ms) - 1)) = Some (trans_image (last ms))"
proof -
  obtain ps p where ms: "ms = ps @ [p]" using assms(1) by (cases ms rule: rev_cases) auto
  have "map_of (queue_pairs ns h ps) (ns, trans_name (h + of_nat (length ps))) = None"
    using assms(2) ms by (intro queue_next_free) simp
  then show ?thesis by (simp add: ms queue_pairs_append map_add_def)
qed

lemma last_sequence_ok:
  assumes r: "trans_rel Z C P others (h, i, s) ms" and m: "trans_may P others ms xs"
  shows "astarte_storage_transmission_get_last_sequence_number Z h i s = Some (if ms = []
    then Inl ASTARTE_RESULT_NOT_FOUND else Inr (tm_sequence_number (last ms)), s)"
proof -
  from r m obtain R al where f: "reliable_store Z C" "kv_rep Z C R s al" "length al < ring_size"
    "valid_name (kv_namespace (sd_trans h))" "kv_namespace (sd_trans h) = TRANSMISSION_NAMESPACE"
    and i: "sd_initialized h" and v: "list_all valid_msg ms" and l: "length ms < 2 ^ 32"
    and tl: "ti_tail i + 1 = ti_head i + of_nat (length ms)"
    and mo: "\<And>k. map_of al (TRANSMISSION_NAMESPACE, k) = map_of (queue_pairs TRANSMISSION_NAMESPACE (ti_head i) ms) (TRANSMISSION_NAMESPACE, k)"
    by (rule trans_relE) blast
  have e: "ti_head i = ti_tail i + 1 \<longleftrightarrow> ms = []"
    using unat_of_nat_u32 [OF l] by (auto simp: tl simp flip: unat_0_iff)
  show ?thesis
  proof (cases "ms = []")
    case True
    then show ?thesis using i e by (simp add: astarte_storage_transmission_get_last_sequence_number_def)
  next
    case False
    have t: "ti_tail i = ti_head i + of_nat (length ms) - 1" by (metis tl add_diff_cancel_right')
    have vl: "valid_msg (last ms)" using v False by (simp add: list_all_iff)
    have "find_alloc Z (sd_trans h) (trans_name (ti_tail i)) s = Some (Inr (trans_image (last ms)), s)"
      using reliable_store.find_alloc_ok [OF f(1,2,4) valid_trans_name f(3), of "ti_tail i"] f(5)
        tail_lookup [OF False l] trans_image_nonempty [OF vl] by (simp add: mo t)
    then show ?thesis
      using False i e trans_image_sequence [OF vl]
      by (simp add: astarte_storage_transmission_get_last_sequence_number_def)
  qed
qed

text \<open>Deleting the entry at the head, for a queue that is not empty.\<close>

lemma delete_head_ok:
  assumes r: "trans_rel Z C P others (h, i, s) (m # ms)" and may: "trans_may P others (m # ms) xs"
  obtains kv s' where "key_value_delete Z (sd_trans h) (trans_name (ti_head i)) s = Some (ASTARTE_RESULT_OK, kv, s')"
    "trans_rel Z C P others (h\<lparr>sd_trans := kv\<rparr>, i\<lparr>ti_head := ti_head i + 1\<rparr>, s') ms"
proof -
  let ?kv = "discharged (sd_trans h) (length (trans_image m))"
  let ?k = "(TRANSMISSION_NAMESPACE, trans_name (ti_head i))"
  from r may obtain R al where f: "reliable_store Z C" "kv_rep Z C R s al" "length al < ring_size"
    "length al = others + length (m # ms)" and i: "sd_initialized h"
    and n: "valid_name (kv_namespace (sd_trans h))" "kv_namespace (sd_trans h) = TRANSMISSION_NAMESPACE"
    and q: "kv_max_quota_bytes (sd_trans h) = platform_quota P"
    and us: "0 < platform_quota P \<Longrightarrow> unat (kv_current_usage_bytes (sd_trans h)) = queue_size (m # ms)"
    and v: "list_all valid_msg (m # ms)" and l: "length (m # ms) < 2 ^ 32"
    and tl: "ti_tail i + 1 = ti_head i + of_nat (length (m # ms))"
    and ns: "in_namespace TRANSMISSION_NAMESPACE al = queue_pairs TRANSMISSION_NAMESPACE (ti_head i) (m # ms)"
    and mo: "\<And>k. map_of al (TRANSMISSION_NAMESPACE, k) = map_of (queue_pairs TRANSMISSION_NAMESPACE (ti_head i) (m # ms)) (TRANSMISSION_NAMESPACE, k)"
    by (rule trans_relE) blast
  have some: "map_of al (kv_namespace (sd_trans h), trans_name (ti_head i)) = Some (trans_image m)"
    using mo [of "trans_name (ti_head i)"] n(2) by simp
  from reliable_store.delete_ok' [OF f(1,2) n(1) valid_trans_name f(3), of "ti_head i"] obtain w s' where
    d: "map_of al (kv_namespace (sd_trans h), trans_name (ti_head i)) = Some w"
      "key_value_delete Z (sd_trans h) (trans_name (ti_head i)) s = Some (ASTARTE_RESULT_OK, discharged (sd_trans h) (length w), s')"
      "kv_rep Z C R s' (AList.delete (kv_namespace (sd_trans h), trans_name (ti_head i)) al)"
    using some by (metis option.distinct(1))
  have w: "w = trans_image m" using d(1) some by simp
  have del: "in_namespace TRANSMISSION_NAMESPACE (AList.delete ?k al) = queue_pairs TRANSMISSION_NAMESPACE (ti_head i + 1) ms"
    using l by (simp add: in_namespace_delete ns queue_delete_head)
  have len: "length (AList.delete ?k al) = others + length ms"
    using length_delete_old [OF kv_rep_distinct [OF f(2)] some] n(2) f(4) by simp
  have kv: "kv_namespace ?kv = TRANSMISSION_NAMESPACE" "kv_max_quota_bytes ?kv = platform_quota P"
    using n(2) q by (simp_all add: discharged_def account_deletion_def)
  have "unat (kv_current_usage_bytes ?kv) = queue_size ms" if "0 < platform_quota P"
    using account_exact [OF us [OF that], of "length (trans_image m)"] that q by (simp add: discharged_def)
  then have "trans_rel Z C P others (h\<lparr>sd_trans := ?kv\<rparr>, i\<lparr>ti_head := ti_head i + 1\<rparr>, s') ms"
    using f(1) i kv v tl del len d(3) n(2) by (auto simp: trans_rel_def kv_stores_def algebra_simps)
  then show thesis using d(2) w by (intro that) simp_all
qed

lemma push_ok:
  assumes r: "trans_rel Z C P others (h, i, s) ms" and may: "trans_may P others ms (TPush m # xs)"
  shows "\<exists>h' i' s'. astarte_storage_transmission_push Z h i m s
      = Some (fst (fst (trans_spec (unat (platform_quota P)) (TPush m) ms)), h', i', s')
    \<and> trans_rel Z C P others (h', i', s') (snd (trans_spec (unat (platform_quota P)) (TPush m) ms))"
proof -
  let ?kv = "sd_trans h" and ?key = "trans_name (ti_tail i + 1)"
  let ?n = "length (trans_image m)"
  from r may obtain R al where f: "reliable_store Z C" "kv_rep Z C R s al" "length al < ring_size"
    "length al = others + length ms" and i: "sd_initialized h"
    and n: "valid_name (kv_namespace ?kv)" "kv_namespace ?kv = TRANSMISSION_NAMESPACE"
    and q: "kv_max_quota_bytes ?kv = platform_quota P"
    and us: "0 < platform_quota P \<Longrightarrow> unat (kv_current_usage_bytes ?kv) = queue_size ms"
    and v: "list_all valid_msg ms" and l: "length ms < 2 ^ 32"
    and tl: "ti_tail i + 1 = ti_head i + of_nat (length ms)"
    and ns: "in_namespace TRANSMISSION_NAMESPACE al = queue_pairs TRANSMISSION_NAMESPACE (ti_head i) ms"
    and mo: "\<And>k. map_of al (TRANSMISSION_NAMESPACE, k) = map_of (queue_pairs TRANSMISSION_NAMESPACE (ti_head i) ms) (TRANSMISSION_NAMESPACE, k)"
    by (rule trans_relE) blast
  have vm: "valid_msg m" and qm: "unat (platform_quota P) + ?n < 2 ^ 32"
    and qs: "0 < platform_quota P \<Longrightarrow> queue_size ms \<le> unat (platform_quota P)"
    using may by (auto simp: trans_may_def)
  have none: "map_of al (kv_namespace ?kv, ?key) = None"
    using mo [of ?key] queue_next_free [OF l] n(2) tl by simp
  then have old: "val_size al (kv_namespace ?kv, ?key) = 0" by (simp add: val_size_def)
  have pos: "0 < trans_buffer_size m" by (simp add: trans_buffer_size_def sizeof_static_def)
  have push: "astarte_storage_transmission_push Z h i m s = do {
      (ares, kv, s) \<leftarrow> key_value_insert Z ?kv ?key (trans_image m) s;
      Some (ares, h\<lparr>sd_trans := kv\<rparr>,
        if ares \<noteq> ASTARTE_RESULT_OK then i else i\<lparr>ti_tail := ti_tail i + 1\<rparr>, s) }"
    using vm pos i reliable_store.heap_ok [OF f(1)] sint_pos [of "tm_payload_len m"]
    by (cases "key_value_insert Z ?kv ?key (trans_image m) s")
      (auto simp: astarte_storage_transmission_push_def valid_msg_def Let_def split: option.splits if_splits)
  have proj: "unat (projected ?kv 0 ?n) = queue_size ms + ?n" if "0 < platform_quota P"
    using projected_exact [OF us [OF that], of 0 ?n] qs [OF that] qm by simp
  have over: "over_quota ?kv 0 ?n \<longleftrightarrow> \<not> fits (unat (platform_quota P)) ms m"
    using proj by (cases "platform_quota P = 0")
      (auto simp: over_quota_def fits_def q word_gt_0 word_less_nat_alt [of "platform_quota P"] unat_eq_0)
  show ?thesis
  proof (cases "fits (unat (platform_quota P)) ms m")
    case True
    let ?kv' = "charged ?kv 0 ?n"
    from reliable_store.insert_ok [OF f(1,2) n(1) valid_trans_name f(3), of "ti_tail i + 1" "trans_image m"]
    obtain s' where ins: "key_value_insert Z ?kv ?key (trans_image m) s = Some (ASTARTE_RESULT_OK, ?kv', s')"
      and kr': "kv_rep Z C R s' (AList.update (kv_namespace ?kv, ?key) (trans_image m) al)"
      using over True old by auto
    have ns': "in_namespace TRANSMISSION_NAMESPACE (AList.update (kv_namespace ?kv, ?key) (trans_image m) al)
        = queue_pairs TRANSMISSION_NAMESPACE (ti_head i) (ms @ [m])"
      using in_namespace_update [of al TRANSMISSION_NAMESPACE ?key] none n(2) ns tl
      by (simp add: queue_pairs_append)
    have kv': "kv_namespace ?kv' = TRANSMISSION_NAMESPACE" "kv_max_quota_bytes ?kv' = platform_quota P"
      "0 < platform_quota P \<Longrightarrow> unat (kv_current_usage_bytes ?kv') = queue_size (ms @ [m])"
      using n(2) q proj by (simp_all add: charged_def)
    have "trans_rel Z C P others (h\<lparr>sd_trans := ?kv'\<rparr>, i\<lparr>ti_tail := ti_tail i + 1\<rparr>, s') (ms @ [m])"
      using f(1,4) i kv' v vm tl ns' kr' length_update_new [OF none, of "trans_image m"]
      by (auto simp: trans_rel_def kv_stores_def algebra_simps)
    then show ?thesis using push ins True by (simp add: trans_spec_def)
  next
    case False
    then have "key_value_insert Z ?kv ?key (trans_image m) s = Some (ASTARTE_RESULT_OUT_OF_SPACE, healed ?kv 0, s)"
      using reliable_store.insert_over_quota [OF f(1,2) n(1) valid_trans_name f(3), of "ti_tail i + 1" "trans_image m"]
        over old by simp
    moreover have "healed ?kv 0 = ?kv" by (simp add: healed_def)
    ultimately show ?thesis using push False r by (simp add: trans_spec_def)
  qed
qed

lemma restart_ok:
  assumes r: "trans_rel Z C P others (h, i, s) ms" and may: "trans_may P others ms (TRestart # xs)"
  obtains kv i' where "new_namespace Z P TRANSMISSION_NAMESPACE (pf_bound P) s = Some (Inr kv, s)"
    "astarte_storage_transmission_get_indexes Z (h\<lparr>sd_trans := kv\<rparr>) s = Some (Inr i', s)"
    "trans_rel Z C P others (h\<lparr>sd_trans := kv\<rparr>, i', s) ms"
proof -
  from r may obtain R al where f: "reliable_store Z C" "kv_rep Z C R s al" "length al < ring_size"
    "length al = others + length ms" and i: "sd_initialized h"
    and n: "valid_name (kv_namespace (sd_trans h))" "kv_namespace (sd_trans h) = TRANSMISSION_NAMESPACE"
    and us: "0 < platform_quota P \<Longrightarrow> unat (kv_current_usage_bytes (sd_trans h)) = queue_size ms"
    and v: "list_all valid_msg ms" and l: "length ms < 2 ^ 32"
    and tl: "ti_tail i + 1 = ti_head i + of_nat (length ms)"
    and ns: "in_namespace TRANSMISSION_NAMESPACE al = queue_pairs TRANSMISSION_NAMESPACE (ti_head i) ms"
    by (rule trans_relE) blast
  let ?kv = "\<lparr>kv_namespace = TRANSMISSION_NAMESPACE, kv_max_quota_bytes = platform_quota P,
    kv_current_usage_bytes = (if platform_quota P > 0 then of_nat (queue_size ms) else 0)\<rparr>"
  let ?i = "if length ms = 0 then \<lparr>ti_head = 1, ti_tail = 0\<rparr> else i"
  have new: "new_namespace Z P TRANSMISSION_NAMESPACE (pf_bound P) s = Some (Inr ?kv, s)"
    using reliable_store.key_value_new_ok [OF f(1,2) valid_namespaces(1)]
    by (simp add: new_namespace_def platform_quota_def ns_size_in_namespace [of _ al] ns ns_size_queue)
  have "ns_keys TRANSMISSION_NAMESPACE al = map trans_name (id_range (ti_head i) (length ms))"
    by (simp add: ns_keys_in_namespace [of _ al] ns ns_keys_queue)
  then have "astarte_storage_transmission_get_indexes Z (h\<lparr>sd_trans := ?kv\<rparr>) s = Some (Inr
      (if length ms = 0 then \<lparr>ti_head = 1, ti_tail = 0\<rparr>
       else \<lparr>ti_head = ti_head i, ti_tail = ti_head i + of_nat (length ms) - 1\<rparr>), s)"
    using reliable_store.get_indexes_ok [OF f(1,2), of "h\<lparr>sd_trans := ?kv\<rparr>" "ti_head i" "length ms"]
      i l valid_namespaces(1) by simp
  moreover have "ti_head i + of_nat (length ms) - 1 = ti_tail i" by (metis tl add_diff_cancel_right')
  then have "\<lparr>ti_head = ti_head i, ti_tail = ti_head i + of_nat (length ms) - 1\<rparr> = i" by simp
  ultimately have ix: "astarte_storage_transmission_get_indexes Z (h\<lparr>sd_trans := ?kv\<rparr>) s = Some (Inr ?i, s)" by simp
  have "unat (of_nat (queue_size ms) :: u32) = queue_size ms" if "0 < platform_quota P"
    using us [OF that] by (metis unat_of_nat_u32 unat_u32_less)
  then have "trans_rel Z C P others (h\<lparr>sd_trans := ?kv\<rparr>, ?i, s) ms"
    using f i v tl ns by (auto simp: trans_rel_def kv_stores_def)
  with new ix show thesis by (rule that)
qed

lemma trans_restart_step:
  "new_namespace Z P TRANSMISSION_NAMESPACE (pf_bound P) s = Some (Inr kv, s) \<Longrightarrow>
   astarte_storage_transmission_get_indexes Z (h\<lparr>sd_trans := kv\<rparr>) s = Some (Inr i', s) \<Longrightarrow>
   trans_step Z P TRestart (h, i, s) = Some (fst (trans_spec q TRestart ms), (h\<lparr>sd_trans := kv\<rparr>, i', s))
     \<and> snd (trans_spec q TRestart ms) = ms"
  by (simp add: trans_step_def trans_spec_def)

lemma trans_step_refines:
  assumes r: "trans_rel Z C P others st ms" and may: "trans_may P others ms (x # xs)"
  shows "\<exists>st'. trans_step Z P x st = Some (fst (trans_spec (unat (platform_quota P)) x ms), st')
    \<and> trans_rel Z C P others st' (snd (trans_spec (unat (platform_quota P)) x ms))"
proof -
  obtain h i s where st: "st = (h, i, s)" by (rule prod_cases3)
  note r = r [unfolded st]
  have init: "sd_initialized h" using r by (simp add: trans_rel_def)
  note pk = peek_ok [OF r may]
  have dl: ?thesis if d: "x = TGet \<or> x = TDiscard"
  proof (cases ms)
    case Nil
    from r may obtain R al where f: "reliable_store Z C" "kv_rep Z C R s al" "length al < ring_size"
      "valid_name (kv_namespace (sd_trans h))" "kv_namespace (sd_trans h) = TRANSMISSION_NAMESPACE"
      "\<And>k. map_of al (TRANSMISSION_NAMESPACE, k) = map_of (queue_pairs TRANSMISSION_NAMESPACE (ti_head i) ms) (TRANSMISSION_NAMESPACE, k)"
      by (rule trans_relE) blast
    then have none: "map_of al (kv_namespace (sd_trans h), trans_name (ti_head i)) = None"
      using Nil by simp
    have "key_value_delete Z (sd_trans h) (trans_name (ti_head i)) s = Some (ASTARTE_RESULT_NOT_FOUND, sd_trans h, s)"
      using reliable_store.delete_ok' [OF f(1,2,4) valid_trans_name f(3), of "ti_head i"] none
      by (metis option.distinct(1))
    then show ?thesis
      using d pk Nil init r st
      by (auto simp: trans_step_def trans_spec_def astarte_storage_transmission_get_def
          astarte_storage_transmission_discard_def)
  next
    case (Cons m ms')
    from delete_head_ok [OF r [unfolded Cons] may [unfolded Cons]] obtain kv s' where
      "key_value_delete Z (sd_trans h) (trans_name (ti_head i)) s = Some (ASTARTE_RESULT_OK, kv, s')"
      "trans_rel Z C P others (h\<lparr>sd_trans := kv\<rparr>, i\<lparr>ti_head := ti_head i + 1\<rparr>, s') ms'" by auto
    then show ?thesis
      using d pk Cons init st
      by (auto simp: trans_step_def trans_spec_def astarte_storage_transmission_get_def
          astarte_storage_transmission_discard_def)
  qed
  show ?thesis
  proof (cases x)
    case (TPush m)
    then show ?thesis
      using push_ok [OF r may [unfolded TPush]] st by (auto simp: trans_step_def) (auto simp: trans_spec_def)
  next
    case TPeek
    then show ?thesis
      using pk r st by (cases ms) (auto simp: trans_step_def trans_spec_def)
  next
    case TRestart
    then show ?thesis
      using restart_ok [OF r may [unfolded TRestart]] st by (metis trans_restart_step)
  qed (use dl in simp_all)
qed

lemma discard_ok:
  assumes "trans_rel Z C P others (h, i, s) ms" and "trans_may P others ms (TDiscard # xs)"
  shows "\<exists>h' i' s'. astarte_storage_transmission_discard Z h i s
      = Some (if ms = [] then ASTARTE_RESULT_NOT_FOUND else ASTARTE_RESULT_OK, h', i', s')
    \<and> trans_rel Z C P others (h', i', s') (tl ms)"
  using trans_step_refines [OF assms] by (cases ms) (auto simp: trans_step_def trans_spec_def bind_eq_Some_conv)

interpretation trans: refinement "trans_step Z P" "trans_spec (unat (platform_quota P))"
    "trans_rel Z C P others" "trans_may P others"
  for Z :: "'s kv_env" and C P others
  by (unfold_locales) (auto dest: trans_step_refines trans_may_tl)

end
