(* ===== verification/Transmission.thy ===== *)
theory Transmission
  imports Trans_Queue Interface
begin

text \<open>
  The transmission queue of a device (lib/astarte\_device\_sdk/device/transmission\_queue.c and
  transmission\_queue\_msg.c): three message queues of the kernel for interface operations and for
  data that is volatile or to be discarded, and the persistent queue for data to be stored.  Every
  message carries a sequence number, and the oldest message of the four queues is the next one.

  The message queue of the kernel (\<open>k_msgq\<close>) is not part of the repository: it is a record of its
  operations, and the locale \<open>k_msgq\<close> states what the kernel documents of them.  Operations are
  called with \<open>K_NO_WAIT\<close>; one that fails is \<open>None\<close>.  The configuration is the one with permanent
  storage, and \<open>now\<close> is the answer of \<open>sys_clock_gettime\<close>.
\<close>

section \<open>Message queues of the kernel\<close>

record ('q, 'm) msgq_ops =
  mq_put :: "'q \<Rightarrow> 'm \<Rightarrow> 'q option"
  mq_get :: "'q \<Rightarrow> ('m \<times> 'q) option"
  mq_peek :: "'q \<Rightarrow> 'm option"
  mq_purge :: "'q \<Rightarrow> 'q"
  mq_init :: "'q"

locale k_msgq =
  fixes Q :: "('q, 'm) msgq_ops" and contents :: "'q \<Rightarrow> 'm list" and capacity :: nat
  assumes put_full: "capacity \<le> length (contents q) \<Longrightarrow> mq_put Q q m = None"
    and put_room: "length (contents q) < capacity \<Longrightarrow> \<exists>q'. mq_put Q q m = Some q' \<and> contents q' = contents q @ [m]"
    and get_empty: "contents q = [] \<Longrightarrow> mq_get Q q = None"
    and get_first: "contents q = m # ms \<Longrightarrow> \<exists>q'. mq_get Q q = Some (m, q') \<and> contents q' = ms"
    and peek_empty: "contents q = [] \<Longrightarrow> mq_peek Q q = None"
    and peek_first: "contents q = m # ms \<Longrightarrow> mq_peek Q q = Some m"
    and purge_empty: "contents (mq_purge Q q) = []"
    and init_empty: "contents (mq_init Q) = []"

text \<open>A bounded list is one.\<close>

definition list_msgq :: "nat \<Rightarrow> ('m list, 'm) msgq_ops" where
  "list_msgq n = \<lparr>mq_put = (\<lambda>q m. if length q < n then Some (q @ [m]) else None),
     mq_get = (\<lambda>q. case q of [] \<Rightarrow> None | m # ms \<Rightarrow> Some (m, ms)),
     mq_peek = (\<lambda>q. case q of [] \<Rightarrow> None | m # _ \<Rightarrow> Some m), mq_purge = (\<lambda>q. []), mq_init = []\<rparr>"

interpretation list_msgq: k_msgq "list_msgq n" "\<lambda>q. q" n for n
  by unfold_locales (simp_all add: list_msgq_def)

section \<open>Data\<close>

datatype transmission_operation =
    ASTARTE_TRANSMISSION_OP_DATA
  | ASTARTE_TRANSMISSION_OP_ADD_INTERFACE
  | ASTARTE_TRANSMISSION_OP_REMOVE_INTERFACE

record queue_msg =
  qm_operation :: transmission_operation
  qm_interface :: "astarte_interface_t option"
  qm_interface_name :: "byte list option"
  qm_path :: "byte list option"
  qm_payload :: "byte list option"
  qm_payload_len :: u32
  qm_qos :: u32
  qm_retention :: astarte_mapping_retention_t

text \<open>A structure of zero bytes.\<close>

definition zero_queue_msg :: queue_msg where
  "zero_queue_msg = \<lparr>qm_operation = ASTARTE_TRANSMISSION_OP_DATA, qm_interface = None,
     qm_interface_name = None, qm_path = None, qm_payload = None, qm_payload_len = 0, qm_qos = 0,
     qm_retention = ASTARTE_MAPPING_RETENTION_DISCARD\<rparr>"

record interface_msg =
  im_operation :: transmission_operation
  im_interface :: "astarte_interface_t option"
  im_timestamp :: u64
  im_sequence_number :: u64

record volatile_msg =
  vm_interface_name :: "byte list"
  vm_path :: "byte list"
  vm_payload :: "byte list option"
  vm_payload_len :: u32
  vm_qos :: u32
  vm_timestamp :: u64
  vm_sequence_number :: u64

record ('v, 'i) transmission_queue =
  tq_discard :: 'v
  tq_interface :: 'i
  tq_volatile :: 'v
  tq_time_valid :: bool
  tq_storage :: storage_data
  tq_indexes :: trans_indexes
  tq_next_seq :: u64

text \<open>The two kinds of message queues, under the names of their messages.\<close>

record ('v, 'i) queue_env =
  qe_vol :: "('v, volatile_msg) msgq_ops"
  qe_iface :: "('i, interface_msg) msgq_ops"

section \<open>transmission\_queue\_msg.c\<close>

definition copy_payload :: "u32 \<Rightarrow> byte list option \<Rightarrow> byte list option" where
  "copy_payload len payload =
     (if sint len > 0 \<and> payload \<noteq> None then Some (take (unat len) (the payload)) else None)"

text \<open>The three allocations both functions make, in their order.\<close>

definition copy_fields ::
    "(nat \<Rightarrow> bool) \<Rightarrow> byte list \<Rightarrow> byte list \<Rightarrow> u32 \<Rightarrow> byte list option
      \<Rightarrow> astarte_result_t + byte list \<times> byte list \<times> byte list option" where
  "copy_fields heap interface_name path payload_len payload =
     (if \<not> astarte_calloc heap (strlen interface_name + 1) 1 then Inl ASTARTE_RESULT_OUT_OF_MEMORY
      else if \<not> astarte_calloc heap (strlen path + 1) 1 then Inl ASTARTE_RESULT_OUT_OF_MEMORY
      else if sint payload_len > 0 \<and> payload \<noteq> None \<and> \<not> astarte_malloc heap (unat payload_len)
      then Inl ASTARTE_RESULT_OUT_OF_MEMORY
      else Inr (c_string interface_name, c_string path, copy_payload payload_len payload))"

definition astarte_transmission_queue_volatile_msg_init ::
    "(nat \<Rightarrow> bool) \<Rightarrow> queue_msg \<Rightarrow> u64 \<Rightarrow> u64 \<Rightarrow> astarte_result_t + volatile_msg" where
  "astarte_transmission_queue_volatile_msg_init heap msg timestamp sequence_number =
     (case copy_fields heap (the (qm_interface_name msg)) (the (qm_path msg)) (qm_payload_len msg) (qm_payload msg) of
        Inl ares \<Rightarrow> Inl ares
      | Inr (interface_name, path, payload) \<Rightarrow>
          Inr \<lparr>vm_interface_name = interface_name, vm_path = path, vm_payload = payload,
            vm_payload_len = qm_payload_len msg, vm_qos = qm_qos msg, vm_timestamp = timestamp,
            vm_sequence_number = sequence_number\<rparr>)"

definition astarte_transmission_queue_msg_from_volatile_msg_deep_cpy ::
    "(nat \<Rightarrow> bool) \<Rightarrow> volatile_msg \<Rightarrow> astarte_result_t + queue_msg" where
  "astarte_transmission_queue_msg_from_volatile_msg_deep_cpy heap vm =
     (case copy_fields heap (vm_interface_name vm) (vm_path vm) (vm_payload_len vm) (vm_payload vm) of
        Inl ares \<Rightarrow> Inl ares
      | Inr (interface_name, path, payload) \<Rightarrow>
          Inr (zero_queue_msg\<lparr>qm_interface_name := Some interface_name, qm_path := Some path,
            qm_payload := payload, qm_payload_len := vm_payload_len vm, qm_qos := vm_qos vm,
            qm_retention := ASTARTE_MAPPING_RETENTION_VOLATILE\<rparr>))"

section \<open>Time\<close>

definition MIN_VALID_TIME_SEC :: int where "MIN_VALID_TIME_SEC = 1767225600"

text \<open>\<open>now\<close> is the time in seconds and nanoseconds, or \<open>None\<close> when it cannot be read.\<close>

definition is_system_time_valid :: "(int \<times> int) option \<Rightarrow> bool" where
  "is_system_time_valid now = (case now of Some (tv_sec, tv_nsec) \<Rightarrow> tv_sec > MIN_VALID_TIME_SEC | None \<Rightarrow> False)"

definition get_system_timestamp :: "bool \<Rightarrow> (int \<times> int) option \<Rightarrow> u64" where
  "get_system_timestamp time_valid now =
     (if \<not> time_valid then 0
      else case now of Some (tv_sec, tv_nsec) \<Rightarrow> of_int tv_sec * 1000 + of_int tv_nsec div 1000000 | None \<Rightarrow> 0)"

section \<open>Initialisation\<close>

definition astarte_transmission_queue_init ::
    "'s kv_env \<Rightarrow> ('v, 'i) queue_env \<Rightarrow> (int \<times> int) option \<Rightarrow> storage_data \<Rightarrow> 's
      \<Rightarrow> ((astarte_result_t + ('v, 'i) transmission_queue) \<times> 's) option" where
  "astarte_transmission_queue_init Z E now storage s =
     do {
       (r, s) \<leftarrow> astarte_storage_transmission_get_indexes Z storage s;
       case r of Inl ares \<Rightarrow> Some (Inl ASTARTE_RESULT_INTERNAL_ERROR, s)
       | Inr indexes \<Rightarrow> do {
           (r, s) \<leftarrow> astarte_storage_transmission_get_last_sequence_number Z storage indexes s;
           Some (Inr \<lparr>tq_discard = mq_init (qe_vol E), tq_interface = mq_init (qe_iface E),
             tq_volatile = mq_init (qe_vol E), tq_time_valid = is_system_time_valid now,
             tq_storage = storage, tq_indexes = indexes,
             tq_next_seq = (case r of Inr last_seq \<Rightarrow> last_seq + 1 | Inl ares \<Rightarrow> 0)\<rparr>, s)
         }
     }"

section \<open>Insertion\<close>

text \<open>Put, and when the queue is full get the oldest message and put again.\<close>

definition put_evicting :: "('q, 'm) msgq_ops \<Rightarrow> 'q \<Rightarrow> 'm \<Rightarrow> astarte_result_t \<times> 'q" where
  "put_evicting Q q m =
     (case mq_put Q q m of Some q \<Rightarrow> (ASTARTE_RESULT_OK, q)
      | None \<Rightarrow>
          (case mq_get Q q of None \<Rightarrow> (ASTARTE_RESULT_MQTT_ERROR, q)
           | Some (oldest, q) \<Rightarrow>
               (case mq_put Q q m of Some q \<Rightarrow> (ASTARTE_RESULT_OK, q)
                | None \<Rightarrow> (ASTARTE_RESULT_MQTT_ERROR, q))))"

definition insert_volatile_msg ::
    "(nat \<Rightarrow> bool) \<Rightarrow> ('v, volatile_msg) msgq_ops \<Rightarrow> 'v \<Rightarrow> queue_msg \<Rightarrow> u64 \<Rightarrow> u64 \<Rightarrow> astarte_result_t \<times> 'v" where
  "insert_volatile_msg heap Q msgq msg timestamp_ms sequence_number =
     (case astarte_transmission_queue_volatile_msg_init heap msg timestamp_ms sequence_number of
        Inl ares \<Rightarrow> (ares, msgq)
      | Inr vm \<Rightarrow> put_evicting Q msgq vm)"

definition insert_interface_msg ::
    "('i, interface_msg) msgq_ops \<Rightarrow> 'i \<Rightarrow> queue_msg \<Rightarrow> u64 \<Rightarrow> u64 \<Rightarrow> astarte_result_t \<times> 'i" where
  "insert_interface_msg Q msgq msg timestamp_ms sequence_number =
     put_evicting Q msgq \<lparr>im_operation = qm_operation msg, im_interface = qm_interface msg,
       im_timestamp = timestamp_ms, im_sequence_number = sequence_number\<rparr>"

definition trans_msg_of :: "queue_msg \<Rightarrow> u64 \<Rightarrow> u64 \<Rightarrow> trans_msg" where
  "trans_msg_of msg timestamp_ms sequence_number =
     \<lparr>tm_interface_name = qm_interface_name msg, tm_path = qm_path msg, tm_payload = qm_payload msg,
      tm_payload_len = qm_payload_len msg, tm_qos = qm_qos msg, tm_timestamp = timestamp_ms,
      tm_sequence_number = sequence_number\<rparr>"

definition insert_stored_msg ::
    "'s kv_env \<Rightarrow> storage_data \<Rightarrow> trans_indexes \<Rightarrow> queue_msg \<Rightarrow> u64 \<Rightarrow> u64 \<Rightarrow> 's
      \<Rightarrow> (astarte_result_t \<times> storage_data \<times> trans_indexes \<times> 's) option" where
  "insert_stored_msg Z storage indexes msg timestamp_ms sequence_number s =
     do {
       let storage_msg = trans_msg_of msg timestamp_ms sequence_number;
       (ares, storage, indexes, s) \<leftarrow> astarte_storage_transmission_push Z storage indexes storage_msg s;
       if ares = ASTARTE_RESULT_OK then Some (ASTARTE_RESULT_OK, storage, indexes, s)
       else do {
         (discard_ares, storage, indexes, s) \<leftarrow> astarte_storage_transmission_discard Z storage indexes s;
         (ares, storage, indexes, s) \<leftarrow>
           (if discard_ares = ASTARTE_RESULT_OK
            then astarte_storage_transmission_push Z storage indexes storage_msg s
            else Some (ares, storage, indexes, s));
         Some (if ares \<noteq> ASTARTE_RESULT_OK then ASTARTE_RESULT_MQTT_ERROR else ASTARTE_RESULT_OK,
           storage, indexes, s)
       }
     }"

definition is_interface_op :: "transmission_operation \<Rightarrow> bool" where
  "is_interface_op x \<longleftrightarrow> x = ASTARTE_TRANSMISSION_OP_ADD_INTERFACE \<or> x = ASTARTE_TRANSMISSION_OP_REMOVE_INTERFACE"

definition valid_params :: "queue_msg \<Rightarrow> bool" where
  "valid_params msg =
     (if is_interface_op (qm_operation msg) then qm_interface msg \<noteq> None
      else qm_interface_name msg \<noteq> None \<and> qm_path msg \<noteq> None
        \<and> \<not> (sint (qm_payload_len msg) < 0 \<or> sint (qm_payload_len msg) > 0 \<and> qm_payload msg = None))"

definition astarte_transmission_queue_insert ::
    "'s kv_env \<Rightarrow> ('v, 'i) queue_env \<Rightarrow> (int \<times> int) option \<Rightarrow> ('v, 'i) transmission_queue \<Rightarrow> queue_msg \<Rightarrow> 's
      \<Rightarrow> (astarte_result_t \<times> ('v, 'i) transmission_queue \<times> 's) option" where
  "astarte_transmission_queue_insert Z E now handle msg s =
     (if \<not> valid_params msg then Some (ASTARTE_RESULT_INVALID_PARAM, handle, s)
      else
        let timestamp_ms = get_system_timestamp (tq_time_valid handle) now;
            seq_num = tq_next_seq handle;
            handle = handle\<lparr>tq_next_seq := seq_num + 1\<rparr> in
        if is_interface_op (qm_operation msg) then
          (case insert_interface_msg (qe_iface E) (tq_interface handle) msg timestamp_ms seq_num of
             (ares, q) \<Rightarrow> Some (ares, handle\<lparr>tq_interface := q\<rparr>, s))
        else case qm_retention msg of
          ASTARTE_MAPPING_RETENTION_DISCARD \<Rightarrow>
            (case insert_volatile_msg (k_heap Z s) (qe_vol E) (tq_discard handle) msg timestamp_ms seq_num of
               (ares, q) \<Rightarrow> Some (ares, handle\<lparr>tq_discard := q\<rparr>, s))
        | ASTARTE_MAPPING_RETENTION_VOLATILE \<Rightarrow>
            (case insert_volatile_msg (k_heap Z s) (qe_vol E) (tq_volatile handle) msg timestamp_ms seq_num of
               (ares, q) \<Rightarrow> Some (ares, handle\<lparr>tq_volatile := q\<rparr>, s))
        | ASTARTE_MAPPING_RETENTION_STORED \<Rightarrow> do {
            (ares, storage, indexes, s) \<leftarrow>
              insert_stored_msg Z (tq_storage handle) (tq_indexes handle) msg timestamp_ms seq_num s;
            Some (ares, handle\<lparr>tq_storage := storage, tq_indexes := indexes\<rparr>, s)
          })"

section \<open>The next message\<close>

definition UINT64_MAX :: u64 where "UINT64_MAX = 0xFFFFFFFFFFFFFFFF"

definition seq_or_max :: "('m \<Rightarrow> u64) \<Rightarrow> 'm option \<Rightarrow> u64" where
  "seq_or_max seq m = (case m of Some m \<Rightarrow> seq m | None \<Rightarrow> UINT64_MAX)"

text \<open>
  The part of \<open>astarte_transmission_queue_peek\<close> behind the four peeks.  \<open>msg\<close> is the structure of the
  caller, which a stored message fills only in part.
\<close>

definition select_oldest ::
    "(nat \<Rightarrow> bool) \<Rightarrow> queue_msg \<Rightarrow> interface_msg option \<Rightarrow> volatile_msg option \<Rightarrow> volatile_msg option
      \<Rightarrow> trans_msg option \<Rightarrow> astarte_result_t + queue_msg" where
  "select_oldest heap msg interface_msg volatile_msg discard_msg storage_msg =
     (let volatile_seq = seq_or_max vm_sequence_number volatile_msg;
          discard_seq = seq_or_max vm_sequence_number discard_msg;
          interface_seq = seq_or_max im_sequence_number interface_msg;
          storage_seq = seq_or_max tm_sequence_number storage_msg;
          min_seq = interface_seq;
          min_seq = (if volatile_seq < min_seq then volatile_seq else min_seq);
          min_seq = (if discard_seq < min_seq then discard_seq else min_seq);
          min_seq = (if storage_seq < min_seq then storage_seq else min_seq) in
      if min_seq = UINT64_MAX then Inl ASTARTE_RESULT_NOT_FOUND
      else if min_seq = interface_seq then
        Inr (zero_queue_msg\<lparr>qm_operation := im_operation (the interface_msg),
          qm_interface := im_interface (the interface_msg)\<rparr>)
      else if min_seq = volatile_seq then
        astarte_transmission_queue_msg_from_volatile_msg_deep_cpy heap (the volatile_msg)
      else if min_seq = discard_seq then
        map_sum id (\<lambda>m. m\<lparr>qm_retention := ASTARTE_MAPPING_RETENTION_DISCARD\<rparr>)
          (astarte_transmission_queue_msg_from_volatile_msg_deep_cpy heap (the discard_msg))
      else
        (let sm = the storage_msg in
         Inr (msg\<lparr>qm_interface_name := tm_interface_name sm, qm_path := tm_path sm, qm_payload := tm_payload sm,
           qm_payload_len := tm_payload_len sm, qm_qos := tm_qos sm,
           qm_retention := ASTARTE_MAPPING_RETENTION_STORED\<rparr>)))"

definition astarte_transmission_queue_peek ::
    "'s kv_env \<Rightarrow> ('v, 'i) queue_env \<Rightarrow> ('v, 'i) transmission_queue \<Rightarrow> queue_msg \<Rightarrow> 's
      \<Rightarrow> ((astarte_result_t + queue_msg) \<times> 's) option" where
  "astarte_transmission_queue_peek Z E handle msg s =
     do {
       let interface_msg = mq_peek (qe_iface E) (tq_interface handle);
       let discard_msg = mq_peek (qe_vol E) (tq_discard handle);
       let volatile_msg = mq_peek (qe_vol E) (tq_volatile handle);
       (storage_res, s) \<leftarrow> astarte_storage_transmission_peek Z (tq_storage handle) (tq_indexes handle) s;
       case storage_res of
         Inl ares \<Rightarrow>
           if ares \<noteq> ASTARTE_RESULT_NOT_FOUND then Some (Inl ares, s)
           else Some (select_oldest (k_heap Z s) msg interface_msg volatile_msg discard_msg None, s)
       | Inr storage_msg \<Rightarrow>
           Some (select_oldest (k_heap Z s) msg interface_msg volatile_msg discard_msg (Some storage_msg), s)
     }"

section \<open>Removal\<close>

definition astarte_transmission_queue_discard_by_retention ::
    "'s kv_env \<Rightarrow> ('v, 'i) queue_env \<Rightarrow> ('v, 'i) transmission_queue \<Rightarrow> astarte_mapping_retention_t \<Rightarrow> 's
      \<Rightarrow> (astarte_result_t \<times> ('v, 'i) transmission_queue \<times> 's) option" where
  "astarte_transmission_queue_discard_by_retention Z E handle retention s =
     (case retention of
        ASTARTE_MAPPING_RETENTION_VOLATILE \<Rightarrow>
          (case mq_get (qe_vol E) (tq_volatile handle) of
             Some (vm, q) \<Rightarrow> Some (ASTARTE_RESULT_OK, handle\<lparr>tq_volatile := q\<rparr>, s)
           | None \<Rightarrow> Some (ASTARTE_RESULT_NOT_FOUND, handle, s))
      | ASTARTE_MAPPING_RETENTION_DISCARD \<Rightarrow>
          (case mq_get (qe_vol E) (tq_discard handle) of
             Some (vm, q) \<Rightarrow> Some (ASTARTE_RESULT_OK, handle\<lparr>tq_discard := q\<rparr>, s)
           | None \<Rightarrow> Some (ASTARTE_RESULT_NOT_FOUND, handle, s))
      | ASTARTE_MAPPING_RETENTION_STORED \<Rightarrow> do {
          (ares, storage, indexes, s) \<leftarrow>
            astarte_storage_transmission_discard Z (tq_storage handle) (tq_indexes handle) s;
          Some (ares, handle\<lparr>tq_storage := storage, tq_indexes := indexes\<rparr>, s)
        })"

definition astarte_transmission_queue_discard_interface ::
    "('v, 'i) queue_env \<Rightarrow> ('v, 'i) transmission_queue \<Rightarrow> astarte_result_t \<times> ('v, 'i) transmission_queue" where
  "astarte_transmission_queue_discard_interface E handle =
     (case mq_get (qe_iface E) (tq_interface handle) of
        Some (im, q) \<Rightarrow> (ASTARTE_RESULT_OK, handle\<lparr>tq_interface := q\<rparr>)
      | None \<Rightarrow> (ASTARTE_RESULT_NOT_FOUND, handle))"

text \<open>\<open>while (k_msgq_get(...) == 0)\<close> and \<open>do ... while (ares == ASTARTE_RESULT_OK)\<close>.\<close>

partial_function (option) drain :: "('q, 'm) msgq_ops \<Rightarrow> 'q \<Rightarrow> 'q option" where
  "drain Q q = (case mq_get Q q of None \<Rightarrow> Some q | Some (m, q) \<Rightarrow> drain Q q)"

partial_function (option) discard_all ::
    "'s kv_env \<Rightarrow> storage_data \<Rightarrow> trans_indexes \<Rightarrow> 's \<Rightarrow> (storage_data \<times> trans_indexes \<times> 's) option" where
  "discard_all Z storage indexes s =
     do {
       (ares, storage, indexes, s) \<leftarrow> astarte_storage_transmission_discard Z storage indexes s;
       if ares = ASTARTE_RESULT_OK then discard_all Z storage indexes s else Some (storage, indexes, s)
     }"

declare drain.simps [code] discard_all.simps [code]

definition astarte_transmission_queue_purge_discard ::
    "('v, 'i) queue_env \<Rightarrow> ('v, 'i) transmission_queue \<Rightarrow> ('v, 'i) transmission_queue option" where
  "astarte_transmission_queue_purge_discard E handle =
     do {
       q \<leftarrow> drain (qe_vol E) (tq_discard handle);
       Some (handle\<lparr>tq_discard := q\<rparr>)
     }"

definition astarte_transmission_queue_clear ::
    "'s kv_env \<Rightarrow> ('v, 'i) queue_env \<Rightarrow> ('v, 'i) transmission_queue \<Rightarrow> 's
      \<Rightarrow> (('v, 'i) transmission_queue \<times> 's) option" where
  "astarte_transmission_queue_clear Z E handle s =
     do {
       d \<leftarrow> drain (qe_vol E) (tq_discard handle);
       v \<leftarrow> drain (qe_vol E) (tq_volatile handle);
       let i = mq_purge (qe_iface E) (tq_interface handle);
       (storage, indexes, s) \<leftarrow> discard_all Z (tq_storage handle) (tq_indexes handle) s;
       Some (handle\<lparr>tq_discard := d, tq_volatile := v, tq_interface := i, tq_storage := storage,
         tq_indexes := indexes\<rparr>, s)
     }"

section \<open>The contract of the message queues in use\<close>

context k_msgq begin

lemma put_evicting_ok:
  assumes "length (contents q) \<le> capacity" and "0 < capacity"
  shows "\<exists>q'. put_evicting Q q m = (ASTARTE_RESULT_OK, q')
    \<and> contents q' = (if length (contents q) < capacity then contents q else tl (contents q)) @ [m]"
proof (cases "length (contents q) < capacity")
  case True
  then show ?thesis using put_room [of q m] by (auto simp: put_evicting_def)
next
  case False
  then obtain o_msg ms where c: "contents q = o_msg # ms" using assms(2) by (cases "contents q") auto
  then obtain q1 where "mq_get Q q = Some (o_msg, q1)" "contents q1 = ms" using get_first by blast
  moreover from this(2) have "length (contents q1) < capacity" using assms(1) c by simp
  ultimately show ?thesis
    using False put_full [of q m] put_room [of q1 m] c by (auto simp: put_evicting_def)
qed

lemma get_cases:
  obtains (empty) "contents q = []" "mq_get Q q = None"
    | (first) q' where "contents q \<noteq> []" "mq_get Q q = Some (hd (contents q), q')" "contents q' = tl (contents q)"
  using get_empty [of q] get_first [of q] by (cases "contents q") auto

lemma peek_head: "mq_peek Q q = (case contents q of [] \<Rightarrow> None | m # _ \<Rightarrow> Some m)"
  using peek_empty [of q] peek_first [of q] by (cases "contents q") auto

lemma drain_ok: "\<exists>q'. drain Q q = Some q' \<and> contents q' = []"
proof (induction "length (contents q)" arbitrary: q)
  case 0
  then show ?case using get_empty [of q] by (subst drain.simps) simp
next
  case (Suc n)
  from Suc.hyps(2) have "contents q \<noteq> []" by auto
  then obtain q' where "mq_get Q q = Some (hd (contents q), q')" "contents q' = tl (contents q)"
    by (cases rule: get_cases [of q]) auto
  moreover have "\<exists>q''. drain Q q' = Some q'' \<and> contents q'' = []"
    using Suc.hyps(1) [of q'] Suc.hyps(2) calculation(2) by simp
  ultimately show ?case by (subst drain.simps) simp
qed

end

end
