(* ===== verification/Transmission_Spec.thy ===== *)
theory Transmission_Spec
  imports Transmission
begin

text \<open>
  What the transmission queue promises: it behaves as one list of messages in the order of their
  insertion, whatever queue a message is in.  A full queue loses its oldest message, and a restart
  loses every message that is not stored.
\<close>

section \<open>One list\<close>

datatype queued =
    QInterface interface_msg
  | QVolatile volatile_msg
  | QDiscard volatile_msg
  | QStored trans_msg

primrec seq_of :: "queued \<Rightarrow> u64" where
  "seq_of (QInterface m) = im_sequence_number m"
| "seq_of (QVolatile m) = vm_sequence_number m"
| "seq_of (QDiscard m) = vm_sequence_number m"
| "seq_of (QStored m) = tm_sequence_number m"

datatype kind = KInterface | KVolatile | KDiscard | KStored

primrec kind_of :: "queued \<Rightarrow> kind" where
  "kind_of (QInterface m) = KInterface"
| "kind_of (QVolatile m) = KVolatile"
| "kind_of (QDiscard m) = KDiscard"
| "kind_of (QStored m) = KStored"

definition of_kind :: "kind \<Rightarrow> queued list \<Rightarrow> queued list" where
  "of_kind k qs = filter (\<lambda>q. kind_of q = k) qs"

text \<open>The list without its first message of a kind.\<close>

fun drop_first :: "kind \<Rightarrow> queued list \<Rightarrow> queued list" where
  "drop_first k [] = []"
| "drop_first k (q # qs) = (if kind_of q = k then qs else q # drop_first k qs)"

lemma of_kind_simps [simp]:
  "of_kind k [] = []" "of_kind k (q # qs) = (if kind_of q = k then q # of_kind k qs else of_kind k qs)"
  "of_kind k (xs @ ys) = of_kind k xs @ of_kind k ys"
  by (simp_all add: of_kind_def)

lemma of_kind_drop_first:
  "of_kind j (drop_first k qs) = (if j = k then tl (of_kind j qs) else of_kind j qs)"
  by (induction qs) auto

lemma set_drop_first: "set (drop_first k qs) \<subseteq> set qs"
  by (induction qs) auto

lemma of_kind_of_kind: "of_kind j (of_kind k qs) = (if j = k then of_kind k qs else [])"
  by (induction qs) auto

lemma set_of_kind: "set (of_kind k qs) = {q \<in> set qs. kind_of q = k}"
  by (simp add: of_kind_def)

section \<open>Operations on the list\<close>

datatype queue_op =
    OpInsert "(int \<times> int) option" queue_msg
  | OpPeek
  | OpDiscard astarte_mapping_retention_t
  | OpDiscardInterface
  | OpPurgeDiscard
  | OpRestart "(int \<times> int) option"

text \<open>The state: the flag of the clock, the next sequence number, and the list.\<close>

type_synonym queue_abs = "bool \<times> u64 \<times> queued list"

definition vol_of :: "queue_msg \<Rightarrow> u64 \<Rightarrow> u64 \<Rightarrow> volatile_msg" where
  "vol_of m ts seq = \<lparr>vm_interface_name = c_string (the (qm_interface_name m)), vm_path = c_string (the (qm_path m)),
     vm_payload = copy_payload (qm_payload_len m) (qm_payload m), vm_payload_len = qm_payload_len m,
     vm_qos = qm_qos m, vm_timestamp = ts, vm_sequence_number = seq\<rparr>"

text \<open>The message handed out for a message in the queue.\<close>

definition vol_out :: "astarte_mapping_retention_t \<Rightarrow> volatile_msg \<Rightarrow> queue_msg" where
  "vol_out r vm = zero_queue_msg\<lparr>qm_interface_name := Some (c_string (vm_interface_name vm)),
     qm_path := Some (c_string (vm_path vm)), qm_payload := copy_payload (vm_payload_len vm) (vm_payload vm),
     qm_payload_len := vm_payload_len vm, qm_qos := vm_qos vm, qm_retention := r\<rparr>"

primrec out_of :: "queued \<Rightarrow> queue_msg" where
  "out_of (QInterface m) = zero_queue_msg\<lparr>qm_operation := im_operation m, qm_interface := im_interface m\<rparr>"
| "out_of (QVolatile m) = vol_out ASTARTE_MAPPING_RETENTION_VOLATILE m"
| "out_of (QDiscard m) = vol_out ASTARTE_MAPPING_RETENTION_DISCARD m"
| "out_of (QStored m) = zero_queue_msg\<lparr>qm_interface_name := tm_interface_name (stored_msg m),
     qm_path := tm_path (stored_msg m), qm_payload := tm_payload (stored_msg m),
     qm_payload_len := tm_payload_len m, qm_qos := tm_qos m, qm_retention := ASTARTE_MAPPING_RETENTION_STORED\<rparr>"

definition stored_of :: "queued list \<Rightarrow> trans_msg list" where
  "stored_of qs = map (\<lambda>q. case q of QStored m \<Rightarrow> m | _ \<Rightarrow> undefined) (of_kind KStored qs)"

primrec kind_of_retention :: "astarte_mapping_retention_t \<Rightarrow> kind" where
  "kind_of_retention ASTARTE_MAPPING_RETENTION_DISCARD = KDiscard"
| "kind_of_retention ASTARTE_MAPPING_RETENTION_VOLATILE = KVolatile"
| "kind_of_retention ASTARTE_MAPPING_RETENTION_STORED = KStored"

definition insert_bounded :: "nat \<Rightarrow> queued \<Rightarrow> queued list \<Rightarrow> queued list" where
  "insert_bounded cap q qs =
     (if length (of_kind (kind_of q) qs) < cap then qs else drop_first (kind_of q) qs) @ [q]"

text \<open>A stored message replaces at most one older one.\<close>

definition insert_stored :: "nat \<Rightarrow> trans_msg \<Rightarrow> queued list \<Rightarrow> astarte_result_t \<times> queued list" where
  "insert_stored quota m qs =
     (if fits quota (stored_of qs) m then (ASTARTE_RESULT_OK, qs @ [QStored m])
      else if stored_of qs = [] then (ASTARTE_RESULT_MQTT_ERROR, qs)
      else
        let qs = drop_first KStored qs in
        if fits quota (stored_of qs) m then (ASTARTE_RESULT_OK, qs @ [QStored m])
        else (ASTARTE_RESULT_MQTT_ERROR, qs))"

definition insert_spec :: "nat \<Rightarrow> nat \<Rightarrow> queue_msg \<Rightarrow> u64 \<Rightarrow> u64 \<Rightarrow> queued list \<Rightarrow> astarte_result_t \<times> queued list" where
  "insert_spec cap quota m ts n qs =
     (if is_interface_op (qm_operation m) then
        (ASTARTE_RESULT_OK, insert_bounded cap (QInterface \<lparr>im_operation = qm_operation m,
           im_interface = qm_interface m, im_timestamp = ts, im_sequence_number = n\<rparr>) qs)
      else case qm_retention m of
        ASTARTE_MAPPING_RETENTION_DISCARD \<Rightarrow> (ASTARTE_RESULT_OK, insert_bounded cap (QDiscard (vol_of m ts n)) qs)
      | ASTARTE_MAPPING_RETENTION_VOLATILE \<Rightarrow> (ASTARTE_RESULT_OK, insert_bounded cap (QVolatile (vol_of m ts n)) qs)
      | ASTARTE_MAPPING_RETENTION_STORED \<Rightarrow> insert_stored quota (trans_msg_of m ts n) qs)"

definition removal :: "kind \<Rightarrow> queued list \<Rightarrow> astarte_result_t" where
  "removal k qs = (if of_kind k qs = [] then ASTARTE_RESULT_NOT_FOUND else ASTARTE_RESULT_OK)"

definition queue_spec ::
    "nat \<Rightarrow> nat \<Rightarrow> queue_op \<Rightarrow> queue_abs \<Rightarrow> (astarte_result_t \<times> queue_msg option) \<times> queue_abs" where
  "queue_spec cap quota x = (\<lambda>(tv, n, qs). case x of
       OpInsert now m \<Rightarrow> (case insert_spec cap quota m (get_system_timestamp tv now) n qs of
         (r, qs) \<Rightarrow> ((r, None), (tv, n + 1, qs)))
     | OpPeek \<Rightarrow> ((case qs of [] \<Rightarrow> (ASTARTE_RESULT_NOT_FOUND, None) | q # _ \<Rightarrow> (ASTARTE_RESULT_OK, Some (out_of q))),
         (tv, n, qs))
     | OpDiscard r \<Rightarrow> ((removal (kind_of_retention r) qs, None), (tv, n, drop_first (kind_of_retention r) qs))
     | OpDiscardInterface \<Rightarrow> ((removal KInterface qs, None), (tv, n, drop_first KInterface qs))
     | OpPurgeDiscard \<Rightarrow> ((ASTARTE_RESULT_OK, None), (tv, n, filter (\<lambda>q. kind_of q \<noteq> KDiscard) qs))
     | OpRestart now \<Rightarrow> ((ASTARTE_RESULT_OK, None),
         (is_system_time_valid now, if stored_of qs = [] then 0 else tm_sequence_number (last (stored_of qs)) + 1,
          of_kind KStored qs)))"

section \<open>Operations of the code\<close>

type_synonym ('v, 'i, 's) queue_state = "('v, 'i) transmission_queue \<times> 's"

text \<open>
  The caller of \<open>peek\<close> hands in a structure of zero bytes.  A restart opens the namespace anew and
  initialises the queue.
\<close>

definition queue_step ::
    "'s kv_env \<Rightarrow> 's platform \<Rightarrow> ('v, 'i) queue_env \<Rightarrow> queue_op \<Rightarrow> ('v, 'i, 's) queue_state
      \<Rightarrow> ((astarte_result_t \<times> queue_msg option) \<times> ('v, 'i, 's) queue_state) option" where
  "queue_step Z P E x = (\<lambda>(h, s). case x of
       OpInsert now m \<Rightarrow> do {
         (r, h, s) \<leftarrow> astarte_transmission_queue_insert Z E now h m s;
         Some ((r, None), (h, s)) }
     | OpPeek \<Rightarrow> do {
         (r, s) \<leftarrow> astarte_transmission_queue_peek Z E h zero_queue_msg s;
         Some (case r of Inl e \<Rightarrow> (e, None) | Inr m \<Rightarrow> (ASTARTE_RESULT_OK, Some m), (h, s)) }
     | OpDiscard retention \<Rightarrow> do {
         (r, h, s) \<leftarrow> astarte_transmission_queue_discard_by_retention Z E h retention s;
         Some ((r, None), (h, s)) }
     | OpDiscardInterface \<Rightarrow> (case astarte_transmission_queue_discard_interface E h of
         (r, h) \<Rightarrow> Some ((r, None), (h, s)))
     | OpPurgeDiscard \<Rightarrow> do {
         h \<leftarrow> astarte_transmission_queue_purge_discard E h;
         Some ((ASTARTE_RESULT_OK, None), (h, s)) }
     | OpRestart now \<Rightarrow> do {
         (r, s) \<leftarrow> new_namespace Z P TRANSMISSION_NAMESPACE (pf_bound P) s;
         case r of Inl e \<Rightarrow> Some ((e, None), (h, s))
         | Inr kv \<Rightarrow> do {
             (r, s) \<leftarrow> astarte_transmission_queue_init Z E now ((tq_storage h)\<lparr>sd_trans := kv\<rparr>) s;
             Some (case r of Inl e \<Rightarrow> ((e, None), (h, s)) | Inr h \<Rightarrow> ((ASTARTE_RESULT_OK, None), (h, s))) } })"

section \<open>Order\<close>

text \<open>The sequence numbers increase along the list and are below the next one.\<close>

definition ordered :: "u64 \<Rightarrow> queued list \<Rightarrow> bool" where
  "ordered n qs \<longleftrightarrow> sorted_wrt (\<lambda>p q. seq_of p < seq_of q) qs \<and> (\<forall>q\<in>set qs. seq_of q < n)"

lemma ordered_Nil [simp]: "ordered n []"
  by (simp add: ordered_def)

lemma ordered_drop_first: "ordered n qs \<Longrightarrow> ordered n (drop_first k qs)"
proof -
  have "sorted_wrt P qs \<Longrightarrow> sorted_wrt P (drop_first k qs)" for P
    using set_drop_first [of k] by (induction qs) auto
  then show "ordered n qs \<Longrightarrow> ordered n (drop_first k qs)"
    using set_drop_first [of k qs] by (auto simp: ordered_def)
qed

lemma ordered_filter: "ordered n qs \<Longrightarrow> ordered n (filter P qs)"
  by (auto simp: ordered_def sorted_wrt_filter)

lemma ordered_snoc: "ordered n qs \<Longrightarrow> seq_of q = n \<Longrightarrow> n < n + 1 \<Longrightarrow> ordered (n + 1) (qs @ [q])"
  by (auto simp: ordered_def sorted_wrt_append dest: less_trans)

lemma ordered_mono: "ordered n qs \<Longrightarrow> n < n + 1 \<Longrightarrow> ordered (n + 1) qs"
  by (auto simp: ordered_def dest: less_trans)

lemma word_less_Suc: "unat (n :: u64) + 1 < 2 ^ 64 \<Longrightarrow> n < n + 1"
  by (simp add: word_less_nat_alt unat_word_ariths)

section \<open>The relation\<close>

definition vols :: "kind \<Rightarrow> queued list \<Rightarrow> volatile_msg list" where
  "vols k qs = map (\<lambda>q. case q of QVolatile m \<Rightarrow> m | QDiscard m \<Rightarrow> m | _ \<Rightarrow> undefined) (of_kind k qs)"

definition ifaces :: "queued list \<Rightarrow> interface_msg list" where
  "ifaces qs = map (\<lambda>q. case q of QInterface m \<Rightarrow> m | _ \<Rightarrow> undefined) (of_kind KInterface qs)"

lemmas parts_def = vols_def ifaces_def stored_of_def

lemma parts_append [simp]:
  "vols k (xs @ ys) = vols k xs @ vols k ys" "ifaces (xs @ ys) = ifaces xs @ ifaces ys"
  "stored_of (xs @ ys) = stored_of xs @ stored_of ys"
  by (simp_all add: parts_def)

lemma parts_drop_first [simp]:
  "vols k (drop_first j qs) = (if k = j then tl (vols k qs) else vols k qs)"
  "ifaces (drop_first j qs) = (if j = KInterface then tl (ifaces qs) else ifaces qs)"
  "stored_of (drop_first j qs) = (if j = KStored then tl (stored_of qs) else stored_of qs)"
  by (simp_all add: parts_def of_kind_drop_first map_tl)

lemma parts_Nil [simp]: "vols k [] = []" "ifaces [] = []" "stored_of [] = []"
  by (simp_all add: parts_def)

lemma parts_length [simp]:
  "length (vols k qs) = length (of_kind k qs)" "length (ifaces qs) = length (of_kind KInterface qs)"
  "length (stored_of qs) = length (of_kind KStored qs)"
  by (simp_all add: parts_def)

lemma parts_one [simp]:
  "vols k [q] = (if kind_of q = k then [case q of QVolatile m \<Rightarrow> m | QDiscard m \<Rightarrow> m | _ \<Rightarrow> undefined] else [])"
  "ifaces [q] = (case q of QInterface m \<Rightarrow> [m] | _ \<Rightarrow> [])"
  "stored_of [q] = (case q of QStored m \<Rightarrow> [m] | _ \<Rightarrow> [])"
  by (simp_all add: parts_def split: queued.split)

definition msgqs_rel ::
    "('v, 'i) queue_env \<Rightarrow> ('v \<Rightarrow> volatile_msg list) \<Rightarrow> ('i \<Rightarrow> interface_msg list) \<Rightarrow> nat
      \<Rightarrow> ('v, 'i) transmission_queue \<Rightarrow> queued list \<Rightarrow> bool" where
  "msgqs_rel E cv ci cap h qs \<longleftrightarrow> k_msgq (qe_vol E) cv cap \<and> k_msgq (qe_iface E) ci cap \<and> 0 < cap
     \<and> cv (tq_volatile h) = vols KVolatile qs \<and> cv (tq_discard h) = vols KDiscard qs \<and> ci (tq_interface h) = ifaces qs
     \<and> (\<forall>k. k \<noteq> KStored \<longrightarrow> length (of_kind k qs) \<le> cap)"

definition queue_rel ::
    "'s kv_env \<Rightarrow> ('s \<Rightarrow> u32 \<rightharpoonup> byte list) \<Rightarrow> 's platform \<Rightarrow> nat \<Rightarrow> ('v, 'i) queue_env \<Rightarrow> ('v \<Rightarrow> volatile_msg list)
      \<Rightarrow> ('i \<Rightarrow> interface_msg list) \<Rightarrow> nat \<Rightarrow> ('v, 'i, 's) queue_state \<Rightarrow> queue_abs \<Rightarrow> bool" where
  "queue_rel Z C P others E cv ci cap = (\<lambda>(h, s) (tv, n, qs). tq_time_valid h = tv \<and> tq_next_seq h = n \<and> ordered n qs
     \<and> msgqs_rel E cv ci cap h qs \<and> trans_rel Z C P others (tq_storage h, tq_indexes h, s) (stored_of qs))"

text \<open>What a message that is inserted must satisfy.\<close>

definition valid_insert :: "'s platform \<Rightarrow> queue_msg \<Rightarrow> bool" where
  "valid_insert P m \<longleftrightarrow> valid_params m
     \<and> (\<not> is_interface_op (qm_operation m) \<and> qm_retention m = ASTARTE_MAPPING_RETENTION_STORED \<longrightarrow>
          valid_msg (trans_msg_of m 0 0) \<and> unat (platform_quota P) + trans_buffer_size (trans_msg_of m 0 0) < 2 ^ 32)"

definition queue_may :: "'s platform \<Rightarrow> nat \<Rightarrow> queue_abs \<Rightarrow> queue_op list \<Rightarrow> bool" where
  "queue_may P others = (\<lambda>(tv, n, qs) xs. others + length (stored_of qs) + length xs < ring_size
     \<and> (0 < platform_quota P \<longrightarrow> queue_size (stored_of qs) \<le> unat (platform_quota P))
     \<and> unat n + length xs < 2 ^ 64 - 1
     \<and> (\<forall>m\<in>set (stored_of qs). unat (tm_sequence_number m) + length xs < 2 ^ 64 - 1)
     \<and> list_all (\<lambda>x. case x of OpInsert now m \<Rightarrow> valid_insert P m | _ \<Rightarrow> True) xs)"

section \<open>Peek\<close>

lemma copy_fields_ok: "(\<And>n. heap n) \<Longrightarrow> copy_fields heap a b l p = Inr (c_string a, c_string b, copy_payload l p)"
  by (auto simp: copy_fields_def astarte_malloc_def unat_eq_0)

lemma deep_cpy_ok:
  "(\<And>n. heap n) \<Longrightarrow> astarte_transmission_queue_msg_from_volatile_msg_deep_cpy heap vm
    = Inr (vol_out ASTARTE_MAPPING_RETENTION_VOLATILE vm)"
  by (simp add: astarte_transmission_queue_msg_from_volatile_msg_deep_cpy_def copy_fields_ok vol_out_def)

definition head_opt :: "'a list \<Rightarrow> 'a option" where
  "head_opt xs = (case xs of [] \<Rightarrow> None | x # _ \<Rightarrow> Some x)"

lemma head_opt_simps [simp]: "head_opt [] = None" "head_opt (x # xs) = Some x"
  by (simp_all add: head_opt_def)

lemma seq_or_max_Some [simp]: "seq_or_max seq (Some m) = seq m"
  by (simp add: seq_or_max_def)

lemma unat_u64_less: "unat (n :: u64) < 2 ^ 64"
  using unsigned_less [of n] by simp

text \<open>The head of a queue that does not hold the oldest message is younger.\<close>

lemma seq_or_max_later:
  assumes "ordered n (q # qs)" and "\<forall>x\<in>set xs. \<exists>p\<in>set qs. seq x = seq_of p"
  shows "seq_of q < seq_or_max seq (head_opt xs)"
proof (cases xs)
  case Nil
  have "seq_of q < n" using assms(1) by (simp add: ordered_def)
  also have "n \<le> UINT64_MAX" using unat_u64_less [of n] by (simp add: UINT64_MAX_def word_le_nat_alt)
  finally show ?thesis by (simp add: Nil seq_or_max_def)
next
  case (Cons x xs')
  then obtain p where "p \<in> set qs" "seq x = seq_of p" using assms(2) by auto
  then show ?thesis using assms(1) Cons by (simp add: seq_or_max_def ordered_def)
qed

lemma parts_seq:
  "\<forall>x\<in>set (vols k qs). k = KVolatile \<or> k = KDiscard \<longrightarrow> (\<exists>p\<in>set qs. vm_sequence_number x = seq_of p)"
  "\<forall>x\<in>set (ifaces qs). \<exists>p\<in>set qs. im_sequence_number x = seq_of p"
  "\<forall>x\<in>set (stored_of qs). \<exists>p\<in>set qs. tm_sequence_number x = seq_of p"
  by (auto simp: parts_def set_of_kind split: queued.splits) (metis seq_of.simps kind_of.simps kind.distinct)+

text \<open>The heads of the four queues, seen from the list.\<close>

definition heads_select :: "(nat \<Rightarrow> bool) \<Rightarrow> queued list \<Rightarrow> astarte_result_t + queue_msg" where
  "heads_select heap qs = select_oldest heap zero_queue_msg (head_opt (ifaces qs)) (head_opt (vols KVolatile qs))
     (head_opt (vols KDiscard qs)) (map_option stored_msg (head_opt (stored_of qs)))"

lemma parts_Cons [simp]:
  "vols k (QVolatile m # qs) = (if k = KVolatile then m # vols k qs else vols k qs)"
  "vols k (QDiscard m # qs) = (if k = KDiscard then m # vols k qs else vols k qs)"
  "k = KVolatile \<or> k = KDiscard \<Longrightarrow> vols k (QInterface i # qs) = vols k qs"
  "k = KVolatile \<or> k = KDiscard \<Longrightarrow> vols k (QStored s # qs) = vols k qs"
  "ifaces (q # qs) = (case q of QInterface m \<Rightarrow> m # ifaces qs | _ \<Rightarrow> ifaces qs)"
  "stored_of (q # qs) = (case q of QStored m \<Rightarrow> m # stored_of qs | _ \<Rightarrow> stored_of qs)"
  by (auto simp: parts_def split: queued.split)

lemma seq_stored_msg [simp]: "tm_sequence_number (stored_msg m) = tm_sequence_number m"
  "tm_payload_len (stored_msg m) = tm_payload_len m" "tm_qos (stored_msg m) = tm_qos m"
  by (simp_all add: stored_msg_def)

lemma seq_or_max_map:
  "seq_or_max tm_sequence_number (map_option stored_msg x) = seq_or_max tm_sequence_number x"
  by (cases x) (simp_all add: seq_or_max_def)

lemma select_oldest_min:
  "select_oldest heap msg interface_msg volatile_msg discard_msg storage_msg =
     (let volatile_seq = seq_or_max vm_sequence_number volatile_msg;
          discard_seq = seq_or_max vm_sequence_number discard_msg;
          interface_seq = seq_or_max im_sequence_number interface_msg;
          storage_seq = seq_or_max tm_sequence_number storage_msg;
          min_seq = min storage_seq (min discard_seq (min volatile_seq interface_seq)) in
      if min_seq = UINT64_MAX then Inl ASTARTE_RESULT_NOT_FOUND
      else if min_seq = interface_seq then
        Inr (zero_queue_msg\<lparr>qm_operation := im_operation (the interface_msg),
          qm_interface := im_interface (the interface_msg)\<rparr>)
      else if min_seq = volatile_seq then
        astarte_transmission_queue_msg_from_volatile_msg_deep_cpy heap (the volatile_msg)
      else if min_seq = discard_seq then
        map_sum id (\<lambda>m. m\<lparr>qm_retention := ASTARTE_MAPPING_RETENTION_DISCARD\<rparr>)
          (astarte_transmission_queue_msg_from_volatile_msg_deep_cpy heap (the discard_msg))
      else
        (let sm = the storage_msg in
         Inr (msg\<lparr>qm_interface_name := tm_interface_name sm, qm_path := tm_path sm, qm_payload := tm_payload sm,
           qm_payload_len := tm_payload_len sm, qm_qos := tm_qos sm,
           qm_retention := ASTARTE_MAPPING_RETENTION_STORED\<rparr>)))"
proof -
  have m: "(if a < b then a else b) = min a b" for a b :: u64 by (auto simp: min_def not_less)
  show ?thesis unfolding select_oldest_def m Let_def ..
qed

lemma select_head:
  assumes heap: "\<And>n. heap n" and ord: "ordered n qs"
  shows "heads_select heap qs = (case qs of [] \<Rightarrow> Inl ASTARTE_RESULT_NOT_FOUND | q # _ \<Rightarrow> Inr (out_of q))"
proof (cases qs)
  case Nil
  then show ?thesis by (simp add: heads_select_def select_oldest_def seq_or_max_def Let_def)
next
  case (Cons q qs')
  note o = ord [unfolded Cons]
  have nm: "seq_of q \<noteq> UINT64_MAX"
    using seq_or_max_later [OF o, of "[]" seq_of] by (simp add: seq_or_max_def)
  have v: "seq_of q < seq_or_max vm_sequence_number (head_opt (vols KVolatile qs'))"
    and d: "seq_of q < seq_or_max vm_sequence_number (head_opt (vols KDiscard qs'))"
    and i: "seq_of q < seq_or_max im_sequence_number (head_opt (ifaces qs'))"
    and s: "seq_of q < seq_or_max tm_sequence_number (head_opt (stored_of qs'))"
    using parts_seq(1) [where k = KVolatile and qs = qs'] parts_seq(1) [where k = KDiscard and qs = qs']
      parts_seq(2,3) [where qs = qs'] by (auto intro!: seq_or_max_later [OF o])
  note mins = less_imp_le [OF v] less_imp_le [OF d] less_imp_le [OF i] less_imp_le [OF s]
  note neq = less_imp_neq [OF v] less_imp_neq [OF d] less_imp_neq [OF i] less_imp_neq [OF s]
  show ?thesis
  proof (cases q)
    case (QInterface m)
    then show ?thesis
      using mins neq nm by (simp add: Cons heads_select_def select_oldest_min Let_def seq_or_max_map min_absorb2)
  next
    case (QVolatile m)
    then show ?thesis
      using mins neq nm
      by (simp add: Cons heads_select_def select_oldest_min Let_def seq_or_max_map min_absorb1 min_absorb2
          deep_cpy_ok heap)
  next
    case (QDiscard m)
    then show ?thesis
      using mins neq nm
      by (simp add: Cons heads_select_def select_oldest_min Let_def seq_or_max_map min_absorb1 min_absorb2
          deep_cpy_ok heap vol_out_def)
  next
    case (QStored m)
    then show ?thesis
      using mins neq nm
      by (simp add: Cons heads_select_def select_oldest_min Let_def seq_or_max_map min_absorb1 min_absorb2)
  qed
qed

section \<open>The steps\<close>

text \<open>What the capacity gives for the persistent queue alone.\<close>

lemma queue_may_trans:
  "queue_may P others (tv, n, qs) (x # xs) \<Longrightarrow> y = TPeek \<or> y = TGet \<or> y = TDiscard \<or> y = TRestart \<Longrightarrow>
   trans_may P others (stored_of qs) [y]"
  by (auto simp: queue_may_def trans_may_def)

lemma trans_msg_of_valid:
  "valid_msg (trans_msg_of m ts n) = valid_msg (trans_msg_of m 0 0)"
  "trans_buffer_size (trans_msg_of m ts n) = trans_buffer_size (trans_msg_of m 0 0)"
  by (simp_all add: valid_msg_def trans_msg_of_def trans_buffer_size_def split: option.split)

lemma stored_valid_insert:
  assumes "valid_insert P m" "\<not> is_interface_op (qm_operation m)" "qm_retention m = ASTARTE_MAPPING_RETENTION_STORED"
  shows "valid_msg (trans_msg_of m ts n)"
    and "unat (platform_quota P) + length (trans_image (trans_msg_of m ts n)) < 2 ^ 32"
  using assms length_trans_image [of "trans_msg_of m ts n"] trans_msg_of_valid [of m ts n]
  by (simp_all add: valid_insert_def)

text \<open>
  Storing a message.  The two pushes and the discard are operations of the persistent queue; a push
  that fails leaves it alone.
\<close>

lemma insert_stored_ok:
  assumes r: "trans_rel Z C P others (h, i, s) (stored_of qs)"
    and may: "trans_may P others (stored_of qs) [TPush (trans_msg_of m ts n)]"
  defines "quota \<equiv> unat (platform_quota P)"
  shows "\<exists>h' i' s'. insert_stored_msg Z h i m ts n s
      = Some (fst (insert_stored quota (trans_msg_of m ts n) qs), h', i', s')
    \<and> trans_rel Z C P others (h', i', s') (stored_of (snd (insert_stored quota (trans_msg_of m ts n) qs)))"
proof -
  let ?m = "trans_msg_of m ts n" and ?ms = "stored_of qs"
  from push_ok [OF r may] obtain h1 i1 s1 where
    p1: "astarte_storage_transmission_push Z h i ?m s
      = Some (if fits quota ?ms ?m then ASTARTE_RESULT_OK else ASTARTE_RESULT_OUT_OF_SPACE, h1, i1, s1)"
    and r1: "trans_rel Z C P others (h1, i1, s1) (if fits quota ?ms ?m then ?ms @ [?m] else ?ms)"
    by (auto simp: trans_spec_def quota_def split: if_splits)
  show ?thesis
  proof (cases "fits quota ?ms ?m")
    case True
    then show ?thesis using p1 r1 by (simp add: insert_stored_msg_def insert_stored_def)
  next
    case False
    then have r1: "trans_rel Z C P others (h1, i1, s1) ?ms" using r1 by simp
    have "trans_may P others ?ms [TDiscard]" using may by (auto simp: trans_may_def)
    from discard_ok [OF r1 this] obtain h2 i2 s2 where
      d: "astarte_storage_transmission_discard Z h1 i1 s1
        = Some (if ?ms = [] then ASTARTE_RESULT_NOT_FOUND else ASTARTE_RESULT_OK, h2, i2, s2)"
      and r2: "trans_rel Z C P others (h2, i2, s2) (tl ?ms)" by blast
    show ?thesis
    proof (cases "?ms = []")
      case True
      then show ?thesis using p1 d r2 False by (simp add: insert_stored_msg_def insert_stored_def)
    next
      case ne: False
      have "queue_size (tl ?ms) \<le> queue_size ?ms" by (cases ?ms) simp_all
      then have "trans_may P others (tl ?ms) [TPush ?m]" using may by (auto simp: trans_may_def)
      from push_ok [OF r2 this] obtain h3 i3 s3 where
        "astarte_storage_transmission_push Z h2 i2 ?m s2
          = Some (if fits quota (tl ?ms) ?m then ASTARTE_RESULT_OK else ASTARTE_RESULT_OUT_OF_SPACE, h3, i3, s3)"
        "trans_rel Z C P others (h3, i3, s3) (if fits quota (tl ?ms) ?m then tl ?ms @ [?m] else tl ?ms)"
        by (auto simp: trans_spec_def quota_def split: if_splits)
      then show ?thesis
        using p1 d False ne by (auto simp: insert_stored_msg_def insert_stored_def Let_def)
    qed
  qed
qed

text \<open>Putting a message into one of the other queues.\<close>

lemma bounded_parts:
  assumes "kind_of q \<noteq> KStored"
  shows "stored_of (insert_bounded cap q qs) = stored_of qs"
    and "k \<noteq> kind_of q \<Longrightarrow> of_kind k (insert_bounded cap q qs) = of_kind k qs"
    and "of_kind (kind_of q) (insert_bounded cap q qs)
      = (if length (of_kind (kind_of q) qs) < cap then of_kind (kind_of q) qs else tl (of_kind (kind_of q) qs)) @ [q]"
  using assms by (cases q; simp add: insert_bounded_def of_kind_drop_first)+

lemma ordered_bounded:
  "ordered n qs \<Longrightarrow> seq_of q = n \<Longrightarrow> n < n + 1 \<Longrightarrow> ordered (n + 1) (insert_bounded cap q qs)"
  unfolding insert_bounded_def by (intro ordered_snoc) (auto simp: ordered_drop_first)

lemma vol_init_ok:
  "(\<And>k. heap k) \<Longrightarrow> astarte_transmission_queue_volatile_msg_init heap m ts n = Inr (vol_of m ts n)"
  by (simp add: astarte_transmission_queue_volatile_msg_init_def copy_fields_ok vol_of_def)

lemma msgqs_relD:
  assumes "msgqs_rel E cv ci cap h qs"
  shows "k_msgq (qe_vol E) cv cap" "k_msgq (qe_iface E) ci cap" "0 < cap"
    "cv (tq_volatile h) = vols KVolatile qs" "cv (tq_discard h) = vols KDiscard qs" "ci (tq_interface h) = ifaces qs"
    "\<And>k. k \<noteq> KStored \<Longrightarrow> length (of_kind k qs) \<le> cap"
  using assms by (simp_all add: msgqs_rel_def)

text \<open>The bounded list as the three queues see it.\<close>

lemma bounded_vols:
  assumes "kind_of q \<noteq> KStored" and "k = KVolatile \<or> k = KDiscard"
  shows "vols k (insert_bounded cap q qs) = (if kind_of q = k
      then (if length (vols k qs) < cap then vols k qs else tl (vols k qs))
        @ [case q of QVolatile m \<Rightarrow> m | QDiscard m \<Rightarrow> m | _ \<Rightarrow> undefined]
      else vols k qs)"
  using assms by (auto simp: insert_bounded_def)

lemma bounded_ifaces:
  assumes "kind_of q \<noteq> KStored"
  shows "ifaces (insert_bounded cap q qs) = (case q of
      QInterface m \<Rightarrow> (if length (ifaces qs) < cap then ifaces qs else tl (ifaces qs)) @ [m] | _ \<Rightarrow> ifaces qs)"
  using assms by (cases q) (auto simp: insert_bounded_def)

lemma bounded_length:
  assumes "\<And>k. k \<noteq> KStored \<Longrightarrow> length (of_kind k qs) \<le> cap" and "0 < cap" and "k \<noteq> KStored"
  shows "length (of_kind k (insert_bounded cap q qs)) \<le> cap"
  using assms(1) [OF assms(3)] assms(2) by (auto simp: insert_bounded_def of_kind_drop_first)

lemma insert_spec_ordered:
  "ordered n qs \<Longrightarrow> n < n + 1 \<Longrightarrow> ordered (n + 1) (snd (insert_spec cap quota m ts n qs))"
  by (auto simp: insert_spec_def insert_stored_def vol_of_def trans_msg_of_def Let_def
      intro!: ordered_bounded ordered_snoc ordered_drop_first intro: ordered_mono
      split: astarte_mapping_retention_t.splits)

lemma queue_insert_ok:
  fixes h :: "('v, 'i) transmission_queue" and now :: "(int \<times> int) option"
  assumes rel: "msgqs_rel E cv ci cap h qs" "trans_rel Z C P others (tq_storage h, tq_indexes h, s) (stored_of qs)"
    and may: "queue_may P others (tv, n, qs) (OpInsert now m # xs)"
  defines "out \<equiv> insert_spec cap (unat (platform_quota P)) m (get_system_timestamp (tq_time_valid h) now) (tq_next_seq h) qs"
  shows "\<exists>h' s'. astarte_transmission_queue_insert Z E now h m s = Some (fst out, h', s')
    \<and> tq_time_valid h' = tq_time_valid h \<and> tq_next_seq h' = tq_next_seq h + 1
    \<and> msgqs_rel E cv ci cap h' (snd out) \<and> trans_rel Z C P others (tq_storage h', tq_indexes h', s') (stored_of (snd out))"
proof -
  let ?ts = "get_system_timestamp (tq_time_valid h) now" and ?n = "tq_next_seq h"
  note r = msgqs_relD [OF rel(1)]
  have v: "valid_insert P m" using may by (simp add: queue_may_def)
  then have vp: "valid_params m" by (simp add: valid_insert_def)
  have heap: "k_heap Z s k" for k using rel(2) reliable_store.heap_ok by (auto simp: trans_rel_def)
  show ?thesis
  proof (cases "is_interface_op (qm_operation m)")
    case True
    let ?im = "\<lparr>im_operation = qm_operation m, im_interface = qm_interface m, im_timestamp = ?ts, im_sequence_number = ?n\<rparr>"
    obtain q where "put_evicting (qe_iface E) (tq_interface h) ?im = (ASTARTE_RESULT_OK, q)"
      "ci q = (if length (ifaces qs) < cap then ifaces qs else tl (ifaces qs)) @ [?im]"
      using k_msgq.put_evicting_ok [OF r(2), of "tq_interface h" ?im] r(3,6) r(7) [of KInterface] by auto
    then show ?thesis
      using True vp rel r
      by (auto simp: out_def insert_spec_def astarte_transmission_queue_insert_def insert_interface_msg_def Let_def
          msgqs_rel_def bounded_vols bounded_ifaces bounded_parts bounded_length)
  next
    case nif: False
    let ?vm = "vol_of m ?ts ?n"
    have put: "\<exists>q'. put_evicting (qe_vol E) q ?vm = (ASTARTE_RESULT_OK, q')
        \<and> cv q' = (if length (vols k qs) < cap then vols k qs else tl (vols k qs)) @ [?vm]"
      if "cv q = vols k qs" "k \<noteq> KStored" for q k
      using k_msgq.put_evicting_ok [OF r(1), of q ?vm] r(3) r(7) [OF that(2)] that(1) by auto
    show ?thesis
    proof (cases "qm_retention m")
      case ASTARTE_MAPPING_RETENTION_DISCARD
      then show ?thesis
        using put [OF r(5)] nif vp rel r heap
        by (auto simp: out_def insert_spec_def astarte_transmission_queue_insert_def insert_volatile_msg_def Let_def
            vol_init_ok msgqs_rel_def bounded_vols bounded_ifaces bounded_parts bounded_length)
    next
      case ASTARTE_MAPPING_RETENTION_VOLATILE
      then show ?thesis
        using put [OF r(4)] nif vp rel r heap
        by (auto simp: out_def insert_spec_def astarte_transmission_queue_insert_def insert_volatile_msg_def Let_def
            vol_init_ok msgqs_rel_def bounded_vols bounded_ifaces bounded_parts bounded_length)
    next
      case ASTARTE_MAPPING_RETENTION_STORED
      have "trans_may P others (stored_of qs) [TPush (trans_msg_of m ?ts ?n)]"
        using may stored_valid_insert [OF v nif ASTARTE_MAPPING_RETENTION_STORED]
        by (simp add: queue_may_def trans_may_def)
      from insert_stored_ok [OF rel(2) this] obtain st i s' where
        "insert_stored_msg Z (tq_storage h) (tq_indexes h) m ?ts ?n s = Some (fst out, st, i, s')"
        "trans_rel Z C P others (st, i, s') (stored_of (snd out))"
        using nif ASTARTE_MAPPING_RETENTION_STORED by (auto simp: out_def insert_spec_def)
      moreover have same: "of_kind k (snd out) = of_kind k qs" if "k \<noteq> KStored" for k
        using nif ASTARTE_MAPPING_RETENTION_STORED that
        by (auto simp: out_def insert_spec_def insert_stored_def Let_def of_kind_drop_first)
      moreover have "vols KVolatile (snd out) = vols KVolatile qs" "vols KDiscard (snd out) = vols KDiscard qs"
        "ifaces (snd out) = ifaces qs"
        by (simp_all add: vols_def ifaces_def same)
      ultimately show ?thesis
        using nif ASTARTE_MAPPING_RETENTION_STORED vp r
        by (auto simp: astarte_transmission_queue_insert_def Let_def msgqs_rel_def)
    qed
  qed
qed

lemma queue_may_peek:
  assumes "queue_rel Z C P others E cv ci cap (h, s) (tv, n, qs)" and "queue_may P others (tv, n, qs) (x # xs)"
  shows "astarte_transmission_queue_peek Z E h zero_queue_msg s = Some (case qs of
      [] \<Rightarrow> Inl ASTARTE_RESULT_NOT_FOUND | q # _ \<Rightarrow> Inr (out_of q), s)"
proof -
  from assms(1) have rel: "msgqs_rel E cv ci cap h qs" "ordered n qs"
    "trans_rel Z C P others (tq_storage h, tq_indexes h, s) (stored_of qs)" by (simp_all add: queue_rel_def)
  note r = msgqs_relD [OF rel(1)]
  have heap: "k_heap Z s k" for k using rel(3) reliable_store.heap_ok by (auto simp: trans_rel_def)
  have p: "mq_peek (qe_iface E) (tq_interface h) = head_opt (ifaces qs)"
    "mq_peek (qe_vol E) (tq_volatile h) = head_opt (vols KVolatile qs)"
    "mq_peek (qe_vol E) (tq_discard h) = head_opt (vols KDiscard qs)"
    by (simp_all add: k_msgq.peek_head [OF r(1)] k_msgq.peek_head [OF r(2)] r(4-6) head_opt_def)
  have "trans_may P others (stored_of qs) [TPeek]" using queue_may_trans [OF assms(2)] by blast
  note sp = peek_ok [OF rel(3) this]
  have "astarte_transmission_queue_peek Z E h zero_queue_msg s = Some (heads_select (k_heap Z s) qs, s)"
    by (cases "stored_of qs") (simp_all add: astarte_transmission_queue_peek_def Let_def sp p heads_select_def)
  then show ?thesis using select_head [OF heap rel(2)] by simp
qed

text \<open>Removing the first message of a kind.\<close>

lemma drop_first_none: "of_kind k qs = [] \<Longrightarrow> drop_first k qs = qs"
  by (induction qs) (auto split: if_splits)

lemma msgqs_drop_stored: "msgqs_rel E cv ci cap h qs \<Longrightarrow>
    msgqs_rel E cv ci cap (h\<lparr>tq_storage := st, tq_indexes := i\<rparr>) (drop_first KStored qs)"
  by (auto simp: msgqs_rel_def of_kind_drop_first)

lemma drop_length: "length (of_kind k qs) \<le> cap \<Longrightarrow> length (of_kind k (drop_first j qs)) \<le> cap"
  by (auto simp: of_kind_drop_first)

lemma removal_vols:
  "vols k qs = [] \<longleftrightarrow> of_kind k qs = []" "ifaces qs = [] \<longleftrightarrow> of_kind KInterface qs = []"
  "stored_of qs = [] \<longleftrightarrow> of_kind KStored qs = []"
  "[] = vols k qs \<longleftrightarrow> of_kind k qs = []" "[] = ifaces qs \<longleftrightarrow> of_kind KInterface qs = []"
  by (auto simp: parts_def)

lemma discard_volatile_ok:
  assumes "msgqs_rel E cv ci cap h qs"
  shows "\<exists>h'. astarte_transmission_queue_discard_by_retention Z E h ASTARTE_MAPPING_RETENTION_VOLATILE s
      = Some (removal KVolatile qs, h', s)
    \<and> msgqs_rel E cv ci cap h' (drop_first KVolatile qs) \<and> tq_time_valid h' = tq_time_valid h
    \<and> tq_next_seq h' = tq_next_seq h \<and> tq_storage h' = tq_storage h \<and> tq_indexes h' = tq_indexes h"
  using assms msgqs_relD [OF assms]
  by (cases rule: k_msgq.get_cases [OF msgqs_relD(1) [OF assms], of "tq_volatile h"])
    (auto simp: astarte_transmission_queue_discard_by_retention_def removal_def removal_vols drop_first_none
      msgqs_rel_def drop_length)

lemma discard_discard_ok:
  assumes "msgqs_rel E cv ci cap h qs"
  shows "\<exists>h'. astarte_transmission_queue_discard_by_retention Z E h ASTARTE_MAPPING_RETENTION_DISCARD s
      = Some (removal KDiscard qs, h', s)
    \<and> msgqs_rel E cv ci cap h' (drop_first KDiscard qs) \<and> tq_time_valid h' = tq_time_valid h
    \<and> tq_next_seq h' = tq_next_seq h \<and> tq_storage h' = tq_storage h \<and> tq_indexes h' = tq_indexes h"
  using assms msgqs_relD [OF assms]
  by (cases rule: k_msgq.get_cases [OF msgqs_relD(1) [OF assms], of "tq_discard h"])
    (auto simp: astarte_transmission_queue_discard_by_retention_def removal_def removal_vols drop_first_none
      msgqs_rel_def drop_length)

lemma discard_interface_ok:
  assumes "msgqs_rel E cv ci cap h qs"
  shows "\<exists>h'. astarte_transmission_queue_discard_interface E h = (removal KInterface qs, h')
    \<and> msgqs_rel E cv ci cap h' (drop_first KInterface qs) \<and> tq_time_valid h' = tq_time_valid h
    \<and> tq_next_seq h' = tq_next_seq h \<and> tq_storage h' = tq_storage h \<and> tq_indexes h' = tq_indexes h"
  using assms msgqs_relD [OF assms]
  by (cases rule: k_msgq.get_cases [OF msgqs_relD(2) [OF assms], of "tq_interface h"])
    (auto simp: astarte_transmission_queue_discard_interface_def removal_def removal_vols drop_first_none
      msgqs_rel_def drop_length)

text \<open>Emptying the queue of data to be discarded.\<close>

lemma of_kind_filter:
  "of_kind j (filter (\<lambda>q. kind_of q \<noteq> k) qs) = (if j = k then [] else of_kind j qs)"
  by (induction qs) auto

lemma parts_filter [simp]:
  "vols j (filter (\<lambda>q. kind_of q \<noteq> KDiscard) qs) = (if j = KDiscard then [] else vols j qs)"
  "ifaces (filter (\<lambda>q. kind_of q \<noteq> KDiscard) qs) = ifaces qs"
  "stored_of (filter (\<lambda>q. kind_of q \<noteq> KDiscard) qs) = stored_of qs"
  by (simp_all add: parts_def of_kind_filter)

lemma purge_ok:
  assumes "msgqs_rel E cv ci cap h qs"
  shows "\<exists>h'. astarte_transmission_queue_purge_discard E h = Some h'
    \<and> msgqs_rel E cv ci cap h' (filter (\<lambda>q. kind_of q \<noteq> KDiscard) qs) \<and> tq_time_valid h' = tq_time_valid h
    \<and> tq_next_seq h' = tq_next_seq h \<and> tq_storage h' = tq_storage h \<and> tq_indexes h' = tq_indexes h"
  using assms k_msgq.drain_ok [OF msgqs_relD(1) [OF assms], of "tq_discard h"]
  by (auto simp: astarte_transmission_queue_purge_discard_def msgqs_rel_def of_kind_filter)

text \<open>A restart keeps the stored messages.\<close>

lemma parts_stored [simp]:
  "k \<noteq> KStored \<Longrightarrow> vols k (of_kind KStored qs) = []" "ifaces (of_kind KStored qs) = []"
  "stored_of (of_kind KStored qs) = stored_of qs"
  by (simp_all add: parts_def of_kind_of_kind)

lemma restart_queue_ok:
  assumes rel: "msgqs_rel E cv ci cap h qs" "trans_rel Z C P others (tq_storage h, tq_indexes h, s) (stored_of qs)"
    and may: "trans_may P others (stored_of qs) [TRestart]"
  shows "\<exists>h' s'. queue_step Z P E (OpRestart now) (h, s) = Some ((ASTARTE_RESULT_OK, None), (h', s'))
    \<and> tq_time_valid h' = is_system_time_valid now
    \<and> tq_next_seq h' = (if stored_of qs = [] then 0 else tm_sequence_number (last (stored_of qs)) + 1)
    \<and> msgqs_rel E cv ci cap h' (of_kind KStored qs)
    \<and> trans_rel Z C P others (tq_storage h', tq_indexes h', s') (stored_of qs)"
proof -
  from restart_ok [OF rel(2) may] obtain kv i where
    new: "new_namespace Z P TRANSMISSION_NAMESPACE (pf_bound P) s = Some (Inr kv, s)"
    and ix: "astarte_storage_transmission_get_indexes Z ((tq_storage h)\<lparr>sd_trans := kv\<rparr>) s = Some (Inr i, s)"
    and r': "trans_rel Z C P others ((tq_storage h)\<lparr>sd_trans := kv\<rparr>, i, s) (stored_of qs)" .
  have "trans_may P others (stored_of qs) [TPeek]" using may by (simp add: trans_may_def)
  note ls = last_sequence_ok [OF r' this]
  show ?thesis
    using new ix ls r' msgqs_relD [OF rel(1)]
    by (cases "stored_of qs = []")
      (auto simp: queue_step_def astarte_transmission_queue_init_def Let_def msgqs_rel_def of_kind_of_kind
        k_msgq.init_empty)
qed

section \<open>Refinement\<close>

text \<open>What an insertion does to the stored messages, for the capacity.\<close>

lemma insert_stored_bounds:
  fixes m :: queue_msg and ts n :: u64
  defines "sm \<equiv> trans_msg_of m ts n"
  assumes "0 < quota \<longrightarrow> queue_size (stored_of qs) \<le> quota"
  shows "0 < quota \<longrightarrow> queue_size (stored_of (snd (insert_stored quota sm qs))) \<le> quota"
    and "length (stored_of (snd (insert_stored quota sm qs))) \<le> Suc (length (stored_of qs))"
    and "set (stored_of (snd (insert_stored quota sm qs))) \<subseteq> insert sm (set (stored_of qs))"
  using assms(2)
  by (cases "stored_of qs"; auto simp: insert_stored_def fits_def Let_def simp del: parts_length)+

lemma insert_bounds:
  fixes m :: queue_msg and ts n :: u64 and cap :: nat
  assumes "0 < quota \<longrightarrow> queue_size (stored_of qs) \<le> quota"
  defines "qs' \<equiv> snd (insert_spec cap quota m ts n qs)"
  shows "0 < quota \<longrightarrow> queue_size (stored_of qs') \<le> quota"
    and "length (stored_of qs') \<le> Suc (length (stored_of qs))"
    and "set (stored_of qs') \<subseteq> insert (trans_msg_of m ts n) (set (stored_of qs))"
  using assms(1) insert_stored_bounds [of quota qs m ts n]
  by (auto simp: qs'_def insert_spec_def bounded_parts simp del: parts_length split: astarte_mapping_retention_t.splits)

lemma queue_may_tl:
  assumes "queue_may P others a (x # xs)"
  shows "queue_may P others (snd (queue_spec cap (unat (platform_quota P)) x a)) xs"
proof -
  obtain tv n qs where a: "a = (tv, n, qs)" by (rule prod_cases3)
  let ?Q = "unat (platform_quota P)"
  have q: "0 < platform_quota P \<longleftrightarrow> 0 < ?Q" by (simp add: word_gt_0 unat_gt_0)
  note m = assms [unfolded a queue_may_def q prod.case list.size]
  have suc: "unat (k + 1) \<le> Suc (unat k)" for k :: u64 by (simp add: unat_word_ariths)
  show ?thesis
  proof (cases x)
    case (OpInsert now msg)
    let ?qs = "snd (insert_spec cap ?Q msg (get_system_timestamp tv now) n qs)"
    note b = insert_bounds [of ?Q qs cap msg "get_system_timestamp tv now" n]
    have "unat (tm_sequence_number (trans_msg_of msg (get_system_timestamp tv now) n)) = unat n"
      by (simp add: trans_msg_of_def)
    then have "queue_may P others (tv, n + 1, ?qs) xs"
      using m b suc [of n] by (fastforce simp: queue_may_def q simp del: parts_length)
    then show ?thesis by (simp add: a OpInsert queue_spec_def case_prod_beta)
  next
    case OpPeek
    then show ?thesis using m by (auto simp: a queue_spec_def queue_may_def q)
  next
    case (OpDiscard r)
    then show ?thesis
      using m by (cases "stored_of qs") (auto simp: a queue_spec_def queue_may_def q simp del: parts_length)
  next
    case OpDiscardInterface
    then show ?thesis using m by (auto simp: a queue_spec_def queue_may_def q simp del: parts_length)
  next
    case OpPurgeDiscard
    then show ?thesis using m by (auto simp: a queue_spec_def queue_may_def q simp del: parts_length)
  next
    case (OpRestart now)
    have "unat (tm_sequence_number (last (stored_of qs)) + 1) + length xs < 2 ^ 64 - 1" if "stored_of qs \<noteq> []"
      using m last_in_set [OF that] suc [of "tm_sequence_number (last (stored_of qs))"] by fastforce
    then show ?thesis
      using m by (auto simp: a OpRestart queue_spec_def queue_may_def q simp del: parts_length)
  qed
qed

lemma ordered_restart:
  assumes "ordered n qs"
  shows "ordered (if stored_of qs = [] then 0 else tm_sequence_number (last (stored_of qs)) + 1) (of_kind KStored qs)"
proof (cases "of_kind KStored qs" rule: rev_cases)
  case Nil
  then show ?thesis by simp
next
  case (snoc ps p)
  have o: "ordered n (of_kind KStored qs)" using ordered_filter [OF assms] by (simp add: of_kind_def)
  have "p \<in> set (of_kind KStored qs)" by (simp add: snoc)
  then have "kind_of p = KStored" by (simp add: set_of_kind)
  then obtain m where p: "p = QStored m" by (cases p) auto
  have l: "stored_of qs = stored_of ps @ [m]"
    using snoc p parts_stored(3) [of qs] by simp
  have "tm_sequence_number m < n" using o snoc p by (simp add: ordered_def)
  then have "tm_sequence_number m < tm_sequence_number m + 1"
    using unat_u64_less [of n] by (intro word_less_Suc) (simp add: word_less_nat_alt)
  then show ?thesis
    using o l p by (auto simp: ordered_def snoc sorted_wrt_append dest: less_trans)
qed

lemma queue_step_refines:
  assumes rel: "queue_rel Z C P others E cv ci cap st a" and may: "queue_may P others a (x # xs)"
  shows "\<exists>st'. queue_step Z P E x st = Some (fst (queue_spec cap (unat (platform_quota P)) x a), st')
    \<and> queue_rel Z C P others E cv ci cap st' (snd (queue_spec cap (unat (platform_quota P)) x a))"
proof -
  obtain tv n qs where a: "a = (tv, n, qs)" by (rule prod_cases3)
  obtain h s where st: "st = (h, s)" by (rule prod.exhaust)
  note rel = rel [unfolded st a] and may = may [unfolded a]
  have r: "tq_time_valid h = tv" "tq_next_seq h = n" "ordered n qs" "msgqs_rel E cv ci cap h qs"
    "trans_rel Z C P others (tq_storage h, tq_indexes h, s) (stored_of qs)"
    using rel by (simp_all add: queue_rel_def)
  show ?thesis
  proof (cases x)
    case (OpInsert now m)
    have "n < n + 1" using may by (intro word_less_Suc) (simp add: queue_may_def)
    then show ?thesis
      using queue_insert_ok [OF r(4,5) may [unfolded OpInsert]] insert_spec_ordered [OF r(3)] r(1,2)
      by (auto simp: a st OpInsert queue_step_def queue_spec_def queue_rel_def case_prod_beta)
  next
    case OpPeek
    then show ?thesis
      using queue_may_peek [OF rel may] rel by (auto simp: a st queue_step_def queue_spec_def split: list.splits)
  next
    case (OpDiscard rt)
    show ?thesis
    proof (cases rt)
      case ASTARTE_MAPPING_RETENTION_DISCARD
      then show ?thesis
        using discard_discard_ok [OF r(4), of Z s] r ordered_drop_first
        by (auto simp: a st OpDiscard queue_step_def queue_spec_def queue_rel_def)
    next
      case ASTARTE_MAPPING_RETENTION_VOLATILE
      then show ?thesis
        using discard_volatile_ok [OF r(4), of Z s] r ordered_drop_first
        by (auto simp: a st OpDiscard queue_step_def queue_spec_def queue_rel_def)
    next
      case ASTARTE_MAPPING_RETENTION_STORED
      have "trans_may P others (stored_of qs) [TDiscard]" using queue_may_trans [OF may] by blast
      from discard_ok [OF r(5) this] obtain st' i s' where
        "astarte_storage_transmission_discard Z (tq_storage h) (tq_indexes h) s
          = Some (removal KStored qs, st', i, s')"
        "trans_rel Z C P others (st', i, s') (tl (stored_of qs))"
        by (auto simp: removal_def removal_vols simp del: parts_length)
      then show ?thesis
        using ASTARTE_MAPPING_RETENTION_STORED r ordered_drop_first msgqs_drop_stored [OF r(4)]
        by (auto simp: a st OpDiscard queue_step_def queue_spec_def queue_rel_def
            astarte_transmission_queue_discard_by_retention_def)
    qed
  next
    case OpDiscardInterface
    then show ?thesis
      using discard_interface_ok [OF r(4)] r ordered_drop_first
      by (auto simp: a st queue_step_def queue_spec_def queue_rel_def)
  next
    case OpPurgeDiscard
    then show ?thesis
      using purge_ok [OF r(4)] r ordered_filter
      by (auto simp: a st queue_step_def queue_spec_def queue_rel_def)
  next
    case (OpRestart now)
    have "trans_may P others (stored_of qs) [TRestart]" using queue_may_trans [OF may] by blast
    then show ?thesis
      using restart_queue_ok [OF r(4,5), of now] ordered_restart [OF r(3)]
      by (auto simp: a st OpRestart queue_spec_def queue_rel_def simp del: parts_length)
  qed
qed

interpretation tq: refinement "queue_step Z P E" "queue_spec cap (unat (platform_quota P))"
    "queue_rel Z C P others E cv ci cap" "queue_may P others"
  for Z :: "'s kv_env" and C P others and E :: "('v, 'i) queue_env" and cv ci cap
  by (unfold_locales) (auto dest: queue_step_refines queue_may_tl)

end
