(* ===== verification/Storage_Claims.thy ===== *)
theory Storage_Claims
  imports Transmission_Spec KV_Claims
begin

text \<open>
  The properties of the permanent storage and of the transmission queue.
\<close>

section \<open>A concrete device\<close>

text \<open>A partition of 128 bytes, of which 102 may be used.\<close>

definition disk_platform :: "(u32 \<rightharpoonup> byte list) platform" where
  "disk_platform = \<lparr>pf_ready = True, pf_pages_rc = 0, pf_mount = (\<lambda>s. (0, s)), pf_erase = (\<lambda>s. (0, Map.empty)),
     pf_sector_size = 64, pf_sector_count = 2, pf_bound = 80\<rparr>"

definition disk_storage :: storage_data where
  "disk_storage = \<lparr>sd_sync = empty_kv\<lparr>kv_namespace := SYNCHRONIZATION_NAMESPACE\<rparr>,
     sd_intro = empty_kv\<lparr>kv_namespace := INTROSPECTION_NAMESPACE\<rparr>,
     sd_prop = empty_kv\<lparr>kv_namespace := PROPERTIES_NAMESPACE, kv_max_quota_bytes := 102\<rparr>,
     sd_trans = empty_kv\<lparr>kv_namespace := TRANSMISSION_NAMESPACE, kv_max_quota_bytes := 102\<rparr>,
     sd_initialized = True\<rparr>"

lemma disk_quota: "platform_quota disk_platform = 102"
  by (simp add: platform_quota_def disk_platform_def quota_bytes_def)

lemma disk_trans: "trans_rel (disk_env f) (\<lambda>m. m) disk_platform 0 (disk_storage, \<lparr>ti_head = 1, ti_tail = 0\<rparr>, Map.empty) []"
  using disk.reliable_store_axioms disk_empty
  by (auto simp: trans_rel_def disk_quota disk_storage_def empty_kv_def in_namespace_def)

definition demo_msg :: "nat \<Rightarrow> trans_msg" where
  "demo_msg n = \<lparr>tm_interface_name = Some [105, 0], tm_path = Some [47, 112, 0], tm_payload = Some [1, 2, 3],
     tm_payload_len = 3, tm_qos = 1, tm_timestamp = 7, tm_sequence_number = of_nat n\<rparr>"

lemma demo_msg_valid: "valid_msg (demo_msg n)" and demo_msg_size: "length (trans_image (demo_msg n)) = 38"
proof -
  show v: "valid_msg (demo_msg n)"
    by (simp add: valid_msg_def demo_msg_def sizeof_static_def strlen_def c_string_def)
  show "length (trans_image (demo_msg n)) = 38"
    unfolding length_trans_image [OF v]
    by (simp add: trans_buffer_size_def demo_msg_def sizeof_static_def strlen_def c_string_def)
qed

section \<open>The persistent queue\<close>

text \<open>C31: The indexes of the transmission queue are recovered from the keys alone, in one pass:
  when the keys of the namespace are consecutive 32-bit numbers, also across the wrap at \<open>2 ^ 32\<close>, the
  head is the first and the tail the last; with no key the queue starts at 1.\<close>

theorem transmission_indexes_recovered:
  assumes "reliable_store Z C" and "kv_stores Z C s al" and "sd_initialized h"
    and "valid_name (kv_namespace (sd_trans h))"
    and "ns_keys (kv_namespace (sd_trans h)) al = map trans_name (id_range first n)" and "n < 2 ^ 32"
  shows "astarte_storage_transmission_get_indexes Z h s = Some (Inr
    (if n = 0 then \<lparr>ti_head = 1, ti_tail = 0\<rparr> else \<lparr>ti_head = first, ti_tail = first + of_nat n - 1\<rparr>), s)"
  using assms reliable_store.get_indexes_ok [OF assms(1) _ assms(3-6)] by (auto simp: kv_stores_def)

lemma transmission_indexes_recovered_witness:
  "\<exists>m. astarte_storage_transmission_get_indexes (disk_env (\<lambda>_. 0)) disk_storage m
    = Some (Inr \<lparr>ti_head = 0xFFFFFFFF, ti_tail = 1\<rparr>, m)"
proof -
  let ?ks = "map trans_name [0xFFFFFFFF, 0, 1]"
  let ?al = "map (\<lambda>k. ((TRANSMISSION_NAMESPACE, k), [9])) ?ks"
  obtain m where m: "kv_stores (disk_env (\<lambda>_. 0)) (\<lambda>m. m) m ?al"
    by (rule disk_pairs [of TRANSMISSION_NAMESPACE "map (\<lambda>k. (k, [9])) ?ks"])
      (use valid_namespaces in \<open>auto simp: ring_size_def\<close>)
  have "ns_keys (kv_namespace (sd_trans disk_storage)) ?al = map trans_name (id_range 0xFFFFFFFF 3)"
    by (simp add: disk_storage_def id_range_def numeral_3_eq_3)
  note transmission_indexes_recovered [OF disk.reliable_store_axioms m _ _ this]
  moreover have "sd_initialized disk_storage" "valid_name (kv_namespace (sd_trans disk_storage))"
    using valid_namespaces by (simp_all add: disk_storage_def)
  moreover have "0xFFFFFFFF + of_nat 3 - 1 = (1 :: u32)" by (rule word_uint_eqI) simp
  ultimately have "astarte_storage_transmission_get_indexes (disk_env (\<lambda>_. 0)) disk_storage m
      = Some (Inr \<lparr>ti_head = 0xFFFFFFFF, ti_tail = 1\<rparr>, m)" by simp
  then show ?thesis by (rule exI [of _ m])
qed

text \<open>C18: The persistent queue is a first-in first-out queue of messages bounded by its quota: any
  sequence of pushes, peeks, gets, discards and restarts gives the results of a list, where a push
  that does not fit is refused, a message comes back with its strings up to their zero byte and its
  payload cut to its length, and a restart, which computes the indexes anew, loses nothing.\<close>

theorem persistent_queue_fifo:
  assumes "trans_rel Z C P others st ms" and "trans_may P others ms xs"
  shows "\<exists>st'. run_steps (trans_step Z P) xs st = Some (fst (run_spec (trans_spec (unat (platform_quota P))) xs ms), st')
    \<and> trans_rel Z C P others st' (snd (run_spec (trans_spec (unat (platform_quota P))) xs ms))"
  using assms by (rule trans.run_refines)

lemma persistent_queue_fifo_witness:
  "\<exists>st'. run_steps (trans_step (disk_env (\<lambda>_. 0)) disk_platform)
      [TPush (demo_msg 0), TPush (demo_msg 1), TRestart, TGet, TDiscard, TPeek]
      (disk_storage, \<lparr>ti_head = 1, ti_tail = 0\<rparr>, Map.empty)
    = Some ([(ASTARTE_RESULT_OK, None), (ASTARTE_RESULT_OK, None), (ASTARTE_RESULT_OK, None),
        (ASTARTE_RESULT_OK, Some (stored_msg (demo_msg 0))), (ASTARTE_RESULT_OK, None),
        (ASTARTE_RESULT_NOT_FOUND, None)], st')
    \<and> trans_rel (disk_env (\<lambda>_. 0)) (\<lambda>m. m) disk_platform 0 st' []"
proof -
  let ?xs = "[TPush (demo_msg 0), TPush (demo_msg 1), TRestart, TGet, TDiscard, TPeek]"
  have "trans_may disk_platform 0 [] ?xs"
    by (simp add: trans_may_def disk_quota demo_msg_valid demo_msg_size ring_size_def)
  from persistent_queue_fifo [OF disk_trans this, of "\<lambda>_. 0"] show ?thesis
    by (simp add: trans_spec_def fits_def disk_quota demo_msg_size)
qed

section \<open>The transmission queue\<close>

text \<open>C2: The four queues of a device behave as one list: any sequence of insertions, peeks, removals,
  purges and restarts gives the results of a list in the order of insertion, whose head is the
  message handed out.  An insertion into a full queue loses the oldest message of its kind, one that
  does not fit the quota makes room for itself by at most one older stored message, and a restart
  keeps exactly the stored messages, in order, and numbers the following ones after them.\<close>

theorem transmission_queue_is_one_list:
  assumes "queue_rel Z C P others E cv ci cap st a" and "queue_may P others a xs"
  shows "\<exists>st'. run_steps (queue_step Z P E) xs st
      = Some (fst (run_spec (queue_spec cap (unat (platform_quota P))) xs a), st')
    \<and> queue_rel Z C P others E cv ci cap st' (snd (run_spec (queue_spec cap (unat (platform_quota P))) xs a))"
  using assms by (rule tq.run_refines)

definition demo_env :: "(volatile_msg list, interface_msg list) queue_env" where
  "demo_env = \<lparr>qe_vol = list_msgq 1, qe_iface = list_msgq 1\<rparr>"

definition demo_queue :: "(volatile_msg list, interface_msg list) transmission_queue" where
  "demo_queue = \<lparr>tq_discard = [], tq_interface = [], tq_volatile = [], tq_time_valid = False,
     tq_storage = disk_storage, tq_indexes = \<lparr>ti_head = 1, ti_tail = 0\<rparr>, tq_next_seq = 0\<rparr>"

definition demo_data :: "astarte_mapping_retention_t \<Rightarrow> byte \<Rightarrow> queue_msg" where
  "demo_data r b = zero_queue_msg\<lparr>qm_interface_name := Some [105, 0], qm_path := Some [47, 112, 0],
     qm_payload := Some [b], qm_payload_len := 1, qm_qos := 1, qm_retention := r\<rparr>"

definition demo_out :: "astarte_mapping_retention_t \<Rightarrow> byte \<Rightarrow> queue_msg" where
  "demo_out r b = zero_queue_msg\<lparr>qm_interface_name := Some [105], qm_path := Some [47, 112],
     qm_payload := Some [b], qm_payload_len := 1, qm_qos := 1, qm_retention := r\<rparr>"

lemma demo_queue_rel:
  "queue_rel (disk_env (\<lambda>_. 0)) (\<lambda>m. m) disk_platform 0 demo_env (\<lambda>q. q) (\<lambda>q. q) 1
     (demo_queue, Map.empty) (False, 0, [])"
  using disk_trans [of "\<lambda>_. 0"]
  by (simp add: queue_rel_def msgqs_rel_def demo_queue_def demo_env_def list_msgq.k_msgq_axioms [of "Suc 0"])

text \<open>Each queue has room for one message: the second volatile one replaces the first.\<close>

definition demo_ops :: "queue_op list" where
  "demo_ops = [OpInsert None (demo_data ASTARTE_MAPPING_RETENTION_VOLATILE 1),
     OpInsert None (demo_data ASTARTE_MAPPING_RETENTION_STORED 2),
     OpInsert None (demo_data ASTARTE_MAPPING_RETENTION_VOLATILE 3),
     OpPeek, OpDiscard ASTARTE_MAPPING_RETENTION_STORED, OpPeek,
     OpInsert None (demo_data ASTARTE_MAPPING_RETENTION_STORED 4), OpRestart None, OpPeek]"

lemma transmission_queue_is_one_list_witness:
  "\<exists>st'. run_steps (queue_step (disk_env (\<lambda>_. 0)) disk_platform demo_env) demo_ops (demo_queue, Map.empty)
    = Some ([(ASTARTE_RESULT_OK, None), (ASTARTE_RESULT_OK, None), (ASTARTE_RESULT_OK, None),
        (ASTARTE_RESULT_OK, Some (demo_out ASTARTE_MAPPING_RETENTION_STORED 2)), (ASTARTE_RESULT_OK, None),
        (ASTARTE_RESULT_OK, Some (demo_out ASTARTE_MAPPING_RETENTION_VOLATILE 3)), (ASTARTE_RESULT_OK, None),
        (ASTARTE_RESULT_OK, None), (ASTARTE_RESULT_OK, Some (demo_out ASTARTE_MAPPING_RETENTION_STORED 4))], st')"
proof -
  have "valid_insert disk_platform (demo_data r b)" for r b
    by (simp add: valid_insert_def valid_params_def demo_data_def zero_queue_msg_def trans_msg_of_def
        valid_msg_def trans_buffer_size_def sizeof_static_def strlen_def c_string_def disk_quota is_interface_op_def)
  then have may: "queue_may disk_platform 0 (False, 0, []) demo_ops"
    by (simp add: queue_may_def demo_ops_def ring_size_def)
  have "fst (run_spec (queue_spec 1 102) demo_ops (False, 0, []))
      = [(ASTARTE_RESULT_OK, None), (ASTARTE_RESULT_OK, None), (ASTARTE_RESULT_OK, None),
        (ASTARTE_RESULT_OK, Some (demo_out ASTARTE_MAPPING_RETENTION_STORED 2)), (ASTARTE_RESULT_OK, None),
        (ASTARTE_RESULT_OK, Some (demo_out ASTARTE_MAPPING_RETENTION_VOLATILE 3)), (ASTARTE_RESULT_OK, None),
        (ASTARTE_RESULT_OK, None), (ASTARTE_RESULT_OK, Some (demo_out ASTARTE_MAPPING_RETENTION_STORED 4))]" (is "_ = ?rs")
    by code_simp
  then have r: "fst (run_spec (queue_spec 1 (unat (platform_quota disk_platform))) demo_ops (False, 0, [])) = ?rs"
    by (simp add: disk_quota)
  show ?thesis using transmission_queue_is_one_list [OF demo_queue_rel may] unfolding r by blast
qed

end
