(* ===== verification/Storage_Prop.thy ===== *)
theory Storage_Prop
  imports Storage_Core Object Introspection
begin

text \<open>
  The storage of properties (lib/astarte\_device\_sdk/storage/prop.c).  The value of a property is a
  BSON document with its major version, its type and its data, under the key
  \<open>interface_name;path\<close>.  An iterator is the ID of the entry it stands at; its handle is the one of
  the properties in the storage handle.
\<close>

section \<open>Storing and loading\<close>

definition property_key :: "byte list \<Rightarrow> byte list \<Rightarrow> byte list" where
  "property_key interface_name path = c_string interface_name @ [0x3B] @ c_string path"

definition property_key_len :: "byte list \<Rightarrow> byte list \<Rightarrow> nat" where
  "property_key_len interface_name path = strlen interface_name + 1 + strlen path + 1"

text \<open>The values of the enumeration of the types, and the conversion of an \<open>int64_t\<close> to it.\<close>

primrec type_code :: "astarte_mapping_type_t \<Rightarrow> u32" where
  "type_code ASTARTE_MAPPING_TYPE_BINARYBLOB = 1"
| "type_code ASTARTE_MAPPING_TYPE_BOOLEAN = 2"
| "type_code ASTARTE_MAPPING_TYPE_DATETIME = 3"
| "type_code ASTARTE_MAPPING_TYPE_DOUBLE = 4"
| "type_code ASTARTE_MAPPING_TYPE_INTEGER = 5"
| "type_code ASTARTE_MAPPING_TYPE_LONGINTEGER = 6"
| "type_code ASTARTE_MAPPING_TYPE_STRING = 7"
| "type_code ASTARTE_MAPPING_TYPE_BINARYBLOBARRAY = 8"
| "type_code ASTARTE_MAPPING_TYPE_BOOLEANARRAY = 9"
| "type_code ASTARTE_MAPPING_TYPE_DATETIMEARRAY = 10"
| "type_code ASTARTE_MAPPING_TYPE_DOUBLEARRAY = 11"
| "type_code ASTARTE_MAPPING_TYPE_INTEGERARRAY = 12"
| "type_code ASTARTE_MAPPING_TYPE_LONGINTEGERARRAY = 13"
| "type_code ASTARTE_MAPPING_TYPE_STRINGARRAY = 14"
| "type_code ASTARTE_MAPPING_TYPE_INVALID = 0"

definition mapping_types :: "astarte_mapping_type_t list" where
  "mapping_types = [ASTARTE_MAPPING_TYPE_BINARYBLOB, ASTARTE_MAPPING_TYPE_BOOLEAN,
     ASTARTE_MAPPING_TYPE_DATETIME, ASTARTE_MAPPING_TYPE_DOUBLE, ASTARTE_MAPPING_TYPE_INTEGER,
     ASTARTE_MAPPING_TYPE_LONGINTEGER, ASTARTE_MAPPING_TYPE_STRING, ASTARTE_MAPPING_TYPE_BINARYBLOBARRAY,
     ASTARTE_MAPPING_TYPE_BOOLEANARRAY, ASTARTE_MAPPING_TYPE_DATETIMEARRAY, ASTARTE_MAPPING_TYPE_DOUBLEARRAY,
     ASTARTE_MAPPING_TYPE_INTEGERARRAY, ASTARTE_MAPPING_TYPE_LONGINTEGERARRAY, ASTARTE_MAPPING_TYPE_STRINGARRAY]"

definition type_of_code :: "u64 \<Rightarrow> astarte_mapping_type_t" where
  "type_of_code w = (case find (\<lambda>t. type_code t = ucast w) mapping_types of
     Some t \<Rightarrow> t | None \<Rightarrow> ASTARTE_MAPPING_TYPE_INVALID)"

definition MAJOR_NAME :: "byte list" where "MAJOR_NAME = chars ''major''"
definition TYPE_NAME :: "byte list" where "TYPE_NAME = chars ''type''"
definition DATA_NAME :: "byte list" where "DATA_NAME = chars ''data''"

definition property_bson ::
    "(nat \<Rightarrow> bool) \<Rightarrow> u32 \<Rightarrow> astarte_data_t \<Rightarrow> astarte_result_t \<times> astarte_bson_serializer_t" where
  "property_bson heap major d =
     and_then (astarte_bson_serializer_init heap zero_serializer)
       (\<lambda>bson. and_then (astarte_bson_serializer_append_int32 heap bson MAJOR_NAME major)
       (\<lambda>bson. and_then (astarte_bson_serializer_append_int64 heap bson TYPE_NAME (ucast (type_code (tag d))))
       (\<lambda>bson. and_then (astarte_data_serialize heap bson DATA_NAME d)
       (\<lambda>bson. astarte_bson_serializer_append_end_of_document heap bson))))"

definition astarte_storage_property_store ::
    "'s kv_env \<Rightarrow> storage_data \<Rightarrow> byte list \<Rightarrow> byte list \<Rightarrow> u32 \<Rightarrow> astarte_data_t \<Rightarrow> 's
      \<Rightarrow> (astarte_result_t \<times> storage_data \<times> 's) option" where
  "astarte_storage_property_store Z handle interface_name path major d s =
     (if \<not> sd_initialized handle then Some (ASTARTE_RESULT_INVALID_PARAM, handle, s)
      else if \<not> astarte_calloc (k_heap Z s) (property_key_len interface_name path) 1
      then Some (ASTARTE_RESULT_OUT_OF_MEMORY, handle, s)
      else case property_bson (k_heap Z s) major d of (ares, bson) \<Rightarrow>
        if ares \<noteq> ASTARTE_RESULT_OK then Some (ares, handle, s)
        else case astarte_bson_serializer_get_serialized bson of
          None \<Rightarrow> Some (ASTARTE_RESULT_BSON_SERIALIZER_ERROR, handle, s)
        | Some (data_ser, data_ser_len) \<Rightarrow>
            if to_int data_ser_len < 0 then Some (ASTARTE_RESULT_BSON_SERIALIZER_ERROR, handle, s)
            else do {
              (ares, kv, s) \<leftarrow> key_value_insert Z (sd_prop handle) (property_key interface_name path)
                (take data_ser_len data_ser) s;
              Some (ares, handle\<lparr>sd_prop := kv\<rparr>, s)
            })"

text \<open>
  \<open>out_major\<close> and \<open>data\<close> tell whether the pointers for the results are not \<open>NULL\<close>; the result
  holds what was written through them.
\<close>

definition parse_property_bson ::
    "(nat \<Rightarrow> bool) \<Rightarrow> byte list \<Rightarrow> bool \<Rightarrow> bool \<Rightarrow> (u32 option \<times> astarte_data_t option) outcome" where
  "parse_property_bson heap val out_major out_data =
     do {
       full_document \<leftarrow> astarte_bson_deserializer_init_doc val (Some 0);
       out_bind
         (if out_major then
            out_bind (astarte_bson_deserializer_element_lookup val full_document MAJOR_NAME) (\<lambda>major_elem.
              do { major \<leftarrow> astarte_bson_deserializer_element_to_int32 val major_elem;
                   Some (Inr (Some major)) })
          else Some (Inr None)) (\<lambda>major.
         if out_data then
           out_bind (astarte_bson_deserializer_element_lookup val full_document TYPE_NAME) (\<lambda>type_elem.
             do { t \<leftarrow> astarte_bson_deserializer_element_to_int64 val type_elem;
                  out_bind (astarte_bson_deserializer_element_lookup val full_document DATA_NAME) (\<lambda>data_elem.
                    out_bind (astarte_data_deserialize heap val data_elem (type_of_code t)) (\<lambda>d.
                      Some (Inr (major, Some d)))) })
         else Some (Inr (major, None)))
     }"

definition astarte_storage_property_load ::
    "'s kv_env \<Rightarrow> storage_data \<Rightarrow> byte list \<Rightarrow> byte list \<Rightarrow> bool \<Rightarrow> bool \<Rightarrow> 's
      \<Rightarrow> ((astarte_result_t + u32 option \<times> astarte_data_t option) \<times> 's) option" where
  "astarte_storage_property_load Z handle interface_name path out_major out_data s =
     (if \<not> sd_initialized handle then Some (Inl ASTARTE_RESULT_INVALID_PARAM, s)
      else if \<not> astarte_calloc (k_heap Z s) (property_key_len interface_name path) 1
      then Some (Inl ASTARTE_RESULT_OUT_OF_MEMORY, s)
      else do {
        (r, s) \<leftarrow> find_alloc Z (sd_prop handle) (property_key interface_name path) s;
        case r of Inl ares \<Rightarrow> Some (Inl ares, s)
        | Inr val \<Rightarrow> do {
            r \<leftarrow> parse_property_bson (k_heap Z s) val out_major out_data;
            Some (r, s)
          }
      })"

definition astarte_storage_property_delete ::
    "'s kv_env \<Rightarrow> storage_data \<Rightarrow> byte list \<Rightarrow> byte list \<Rightarrow> 's
      \<Rightarrow> (astarte_result_t \<times> storage_data \<times> 's) option" where
  "astarte_storage_property_delete Z handle interface_name path s =
     (if \<not> sd_initialized handle then Some (ASTARTE_RESULT_INVALID_PARAM, handle, s)
      else if \<not> astarte_calloc (k_heap Z s) (property_key_len interface_name path) 1
      then Some (ASTARTE_RESULT_OUT_OF_MEMORY, handle, s)
      else do {
        (ares, kv, s) \<leftarrow> key_value_delete Z (sd_prop handle) (property_key interface_name path) s;
        Some (ares, handle\<lparr>sd_prop := kv\<rparr>, s)
      })"

section \<open>The iterator\<close>

definition astarte_storage_property_iterator_new ::
    "'s kv_env \<Rightarrow> storage_data \<Rightarrow> 's \<Rightarrow> ((astarte_result_t + u32) \<times> 's) option" where
  "astarte_storage_property_iterator_new Z handle s =
     (if \<not> sd_initialized handle then Some (Inl ASTARTE_RESULT_INVALID_PARAM, s)
      else iterator_init Z (sd_prop handle) s)"

definition astarte_storage_property_iterator_next ::
    "'s kv_env \<Rightarrow> storage_data \<Rightarrow> u32 \<Rightarrow> 's \<Rightarrow> ((astarte_result_t + u32) \<times> 's) option" where
  "astarte_storage_property_iterator_next Z handle iter s = iterator_next Z (sd_prop handle) iter s"

text \<open>The key of an entry, read by its size first, and its two parts.\<close>

definition iterator_key :: "'s kv_env \<Rightarrow> u32 \<Rightarrow> 's \<Rightarrow> ((astarte_result_t + byte list) \<times> 's) option" where
  "iterator_key Z iter s =
     do {
       (r, s) \<leftarrow> iterator_get Z iter None s;
       case r of Inl ares \<Rightarrow> Some (Inl ares, s)
       | Inr (key_size, _) \<Rightarrow>
           if \<not> astarte_calloc (k_heap Z s) key_size 1 then Some (Inl ASTARTE_RESULT_OUT_OF_MEMORY, s)
           else do {
             (r, s) \<leftarrow> iterator_get Z iter (Some key_size) s;
             case r of Inl ares \<Rightarrow> Some (Inl ares, s)
             | Inr (n, key) \<Rightarrow> Some (Inr (c_string key), s)
           }
     }"

definition split_key :: "byte list \<Rightarrow> (byte list \<times> byte list) option" where
  "split_key key = (if 0x3B \<notin> set key then None
     else Some (takeWhile (\<lambda>c. c \<noteq> 0x3B) key, tl (dropWhile (\<lambda>c. c \<noteq> 0x3B) key)))"

text \<open>
  \<open>interface_name\<close> and \<open>path\<close> are the sizes of the buffers, \<open>None\<close> for \<open>NULL\<close>.  The result is the
  two sizes and, with buffers, the two strings written to them.
\<close>

definition astarte_storage_property_iterator_get ::
    "'s kv_env \<Rightarrow> u32 \<Rightarrow> nat option \<Rightarrow> nat option \<Rightarrow> 's
      \<Rightarrow> ((astarte_result_t + (nat \<times> nat) \<times> (byte list \<times> byte list) option) \<times> 's) option" where
  "astarte_storage_property_iterator_get Z iter interface_name path s =
     (if (interface_name = None) \<noteq> (path = None) then Some (Inl ASTARTE_RESULT_INVALID_PARAM, s)
      else do {
        (r, s) \<leftarrow> iterator_key Z iter s;
        case r of Inl ares \<Rightarrow> Some (Inl ares, s)
        | Inr key \<Rightarrow>
            Some (case split_key key of
                None \<Rightarrow> Inl ASTARTE_RESULT_INTERNAL_ERROR
              | Some (read_interface_name, read_path) \<Rightarrow>
                  let sizes = (length read_interface_name + 1, length read_path + 1) in
                  (case (interface_name, path) of
                     (Some n, Some p) \<Rightarrow>
                       if n < fst sizes \<or> p < snd sizes then Inl ASTARTE_RESULT_INVALID_PARAM
                       else Inr (sizes, Some (read_interface_name, read_path))
                   | _ \<Rightarrow> Inr (sizes, None)), s)
      })"

definition astarte_storage_property_iterator_delete ::
    "'s kv_env \<Rightarrow> storage_data \<Rightarrow> u32 \<Rightarrow> 's \<Rightarrow> (astarte_result_t \<times> storage_data \<times> u32 \<times> 's) option" where
  "astarte_storage_property_iterator_delete Z handle iter s =
     do {
       (ares, kv, iter, s) \<leftarrow> iterator_delete Z (sd_prop handle) iter s;
       Some (ares, handle\<lparr>sd_prop := kv\<rparr>, iter, s)
     }"

text \<open>What every client does: ask for the sizes, allocate, get the strings.\<close>

definition iterator_strings ::
    "'s kv_env \<Rightarrow> u32 \<Rightarrow> 's \<Rightarrow> ((astarte_result_t + byte list \<times> byte list) \<times> 's) option" where
  "iterator_strings Z iter s =
     do {
       (r, s) \<leftarrow> astarte_storage_property_iterator_get Z iter None None s;
       case r of Inl ares \<Rightarrow> Some (Inl ares, s)
       | Inr ((n, p), _) \<Rightarrow>
           if \<not> astarte_calloc (k_heap Z s) n 1 \<or> \<not> astarte_calloc (k_heap Z s) p 1
           then Some (Inl ASTARTE_RESULT_OUT_OF_MEMORY, s)
           else do {
             (r, s) \<leftarrow> astarte_storage_property_iterator_get Z iter (Some n) (Some p) s;
             Some (case r of Inl ares \<Rightarrow> Inl ares
               | Inr (_, strs) \<Rightarrow> (case strs of Some x \<Rightarrow> Inr x | None \<Rightarrow> Inl ASTARTE_RESULT_INTERNAL_ERROR), s)
           }
     }"

section \<open>The string of the properties of the device\<close>

text \<open>\<open>snprintf\<close> into the last \<open>avail\<close> bytes of a buffer: what is written, without its zero byte.\<close>

definition printed :: "nat \<Rightarrow> byte list \<Rightarrow> byte list" where
  "printed avail txt = take (avail - 1) txt"

text \<open>
  \<open>str_buff\<close> is the string in the buffer of the caller, \<open>None\<close> for no buffer.  The result holds the
  size of the string and the string.
\<close>

definition append_property_to_string ::
    "'s kv_env \<Rightarrow> storage_data \<Rightarrow> introspection_t \<Rightarrow> byte list \<Rightarrow> byte list \<Rightarrow> nat \<Rightarrow> byte list option \<Rightarrow> nat \<Rightarrow> 's
      \<Rightarrow> (astarte_result_t \<times> storage_data \<times> nat \<times> byte list option \<times> 's) option" where
  "append_property_to_string Z handle introspection interface_name path str_size str_buff str_buff_size s =
     (case introspection_get introspection interface_name of
        None \<Rightarrow> do {
          (ares, handle, s) \<leftarrow> astarte_storage_property_delete Z handle interface_name path s;
          Some (ASTARTE_RESULT_NOT_FOUND, handle, str_size, str_buff, s)
        }
      | Some interface \<Rightarrow>
          if if_ownership interface \<noteq> ASTARTE_INTERFACE_OWNERSHIP_DEVICE
          then Some (ASTARTE_RESULT_OK, handle, str_size, str_buff, s)
          else
            let str_size = str_size + length interface_name + length path + 1 in
            (case str_buff of
               None \<Rightarrow> Some (ASTARTE_RESULT_OK, handle, str_size, None, s)
             | Some str \<Rightarrow>
                 if str_buff_size < str_size
                 then Some (ASTARTE_RESULT_INVALID_PARAM, handle, str_size, Some str, s)
                 else
                   let str = (if str \<noteq> [] then str @ printed (str_buff_size - length str) [0x3B] else str);
                       str = str @ printed (str_buff_size - length str) (interface_name @ path) in
                   Some (ASTARTE_RESULT_OK, handle, str_size, Some str, s)))"

partial_function (option) device_string_loop ::
    "'s kv_env \<Rightarrow> storage_data \<Rightarrow> introspection_t \<Rightarrow> u32 \<Rightarrow> nat \<Rightarrow> byte list option \<Rightarrow> nat \<Rightarrow> 's
      \<Rightarrow> ((astarte_result_t + nat \<times> byte list option) \<times> storage_data \<times> 's) option" where
  "device_string_loop Z handle introspection iter string_size output output_size s =
     do {
       (r, s) \<leftarrow> iterator_strings Z iter s;
       case r of Inl ares \<Rightarrow> Some (Inl ares, handle, s)
       | Inr (interface_name, path) \<Rightarrow> do {
           (ares, handle, string_size, output, s) \<leftarrow>
             append_property_to_string Z handle introspection interface_name path string_size output output_size s;
           if ares \<noteq> ASTARTE_RESULT_OK \<and> ares \<noteq> ASTARTE_RESULT_NOT_FOUND then Some (Inl ares, handle, s)
           else do {
             (r, s) \<leftarrow> astarte_storage_property_iterator_next Z handle iter s;
             case r of
               Inl ares \<Rightarrow> Some (if ares = ASTARTE_RESULT_NOT_FOUND then Inr (string_size, output) else Inl ares,
                 handle, s)
             | Inr iter \<Rightarrow> device_string_loop Z handle introspection iter string_size output output_size s
           }
         }
     }"

declare device_string_loop.simps [code]

text \<open>
  \<open>output_size\<close> is the size of the buffer, \<open>output\<close> whether there is one.  The result is the size of
  the string and the string.
\<close>

definition astarte_storage_property_get_device_string ::
    "'s kv_env \<Rightarrow> storage_data \<Rightarrow> introspection_t \<Rightarrow> bool \<Rightarrow> nat \<Rightarrow> 's
      \<Rightarrow> ((astarte_result_t + nat \<times> byte list option) \<times> storage_data \<times> 's) option" where
  "astarte_storage_property_get_device_string Z handle introspection output output_size s =
     do {
       (r, s) \<leftarrow> astarte_storage_property_iterator_new Z handle s;
       let str = (if output then Some [] else None);
       case r of
         Inl ares \<Rightarrow> Some (if ares = ASTARTE_RESULT_NOT_FOUND then Inr (0, str) else Inl ares, handle, s)
       | Inr iter \<Rightarrow> device_string_loop Z handle introspection iter 0 str output_size s
     }"

end
