(* ===== verification/Prop_Spec.thy ===== *)
theory Prop_Spec
  imports Storage_Prop KV_Iter
begin

text \<open>
  What the storage of properties promises: a property that was stored is loaded with its version and
  its data, and the string of the properties of the device lists them.
\<close>

section \<open>The document of a property\<close>

definition property_fields :: "u32 \<Rightarrow> astarte_data_t \<Rightarrow> (byte list \<times> bson_value) list" where
  "property_fields major d = [(MAJOR_NAME, BInt32 major), (TYPE_NAME, BInt64 (ucast (type_code (tag d)))),
     (DATA_NAME, bson_of (data d))]"

lemma names [simp]:
  "c_string MAJOR_NAME = MAJOR_NAME" "c_string TYPE_NAME = TYPE_NAME" "c_string DATA_NAME = DATA_NAME"
  "nul_free MAJOR_NAME" "nul_free TYPE_NAME" "nul_free DATA_NAME"
  "MAJOR_NAME \<noteq> TYPE_NAME" "MAJOR_NAME \<noteq> DATA_NAME" "TYPE_NAME \<noteq> DATA_NAME"
  "TYPE_NAME \<noteq> MAJOR_NAME" "DATA_NAME \<noteq> MAJOR_NAME" "DATA_NAME \<noteq> TYPE_NAME"
  by (simp_all add: MAJOR_NAME_def TYPE_NAME_def DATA_NAME_def chars_def c_string_def nul_free_def of_char_def)

lemma wf_property: "wf_elems (property_fields major d)"
  by (simp add: property_fields_def wf_bson_of)

lemma type_of_type_code: "type_of_code (ucast (type_code t)) = t"
  by (cases t) (simp_all add: type_of_code_def mapping_types_def)

lemma property_bson_cases:
  assumes "data_ok (data d)"
  obtains (ok) s where "property_bson heap major d = (ASTARTE_RESULT_OK, s)"
      "astarte_bson_serializer_get_serialized s
        = Some (enc_doc (property_fields major d), length (enc_doc (property_fields major d)))"
    | (oom) s n where "property_bson heap major d = (ASTARTE_RESULT_OUT_OF_MEMORY, s)" "\<not> heap n"
proof (cases rule: init_spec [of heap zero_serializer])
  case (ok s1)
  note init = this
  have "appends heap (\<lambda>bson. and_then (astarte_bson_serializer_append_int32 heap bson MAJOR_NAME major)
      (\<lambda>bson. and_then (astarte_bson_serializer_append_int64 heap bson TYPE_NAME (ucast (type_code (tag d))))
      (\<lambda>bson. astarte_data_serialize heap bson DATA_NAME d))) (enc_elems (property_fields major d))"
    (is "appends heap ?f _")
    using appends_seq [OF append_int32 appends_seq [OF append_int64 serialize_appends [OF assms]],
        of heap MAJOR_NAME major TYPE_NAME "ucast (type_code (tag d))" DATA_NAME]
    by (simp add: property_fields_def enc_elems_Cons)
  from this writing_open [OF init(2)] show thesis
  proof (cases rule: appends_cases)
    case (ok s2)
    note body = this
    have "writing s2 (property_fields major d)" using writing_extends [OF init(2) body(2)] by simp
    then show thesis
    proof (cases rule: end_of_document_spec [where heap = heap])
      case (ok s3)
      with init body show thesis
        by (intro that(1) [of s3]) (auto simp: property_bson_def and_then_def split: prod.splits if_splits)
    next
      case (oom s3 n)
      with init body show thesis
        by (intro that(2) [of s3 n]) (auto simp: property_bson_def and_then_def split: prod.splits if_splits)
    qed
  next
    case (oom s2 n)
    with init show thesis
      by (intro that(2) [of s2 n]) (auto simp: property_bson_def and_then_def split: prod.splits if_splits)
  qed
next
  case (oom s1)
  then show thesis by (intro that(2) [of s1 4]) (simp_all add: property_bson_def)
qed

lemma parse_property_enc:
  assumes small: "length (enc_doc (property_fields major d)) < 2 ^ 32"
    and d: "data_ok (data d)" "blobs_pos (data d)" and heap: "ample heap"
  shows "parse_property_bson heap (enc_doc (property_fields major d)) True True
    = Some (Inr (Some major, Some \<lparr>data = received (data d), is_owned = True\<rparr>))"
proof -
  let ?es = "property_fields major d"
  let ?v = "enc_doc ?es"
  have "bytes_at ?v 0 ?v" by (simp add: bytes_at_def)
  from init_doc_enc [OF this small wf_property] obtain doc where
    doc: "astarte_bson_deserializer_init_doc ?v (Some 0) = Some doc" "doc_at ?v doc ?es" by auto
  have f: "found ?v (astarte_bson_deserializer_element_lookup ?v doc key) (find (\<lambda>y. fst y = key) ?es)"
    if "nul_free key" for key
    using lookup_enc [OF doc(2) that] .
  obtain e1 where e1: "astarte_bson_deserializer_element_lookup ?v doc MAJOR_NAME = Some (Inr e1)"
    "elem_is ?v e1 (MAJOR_NAME, BInt32 major)"
    using f [of MAJOR_NAME] by (auto simp: found_def property_fields_def)
  obtain e2 where e2: "astarte_bson_deserializer_element_lookup ?v doc TYPE_NAME = Some (Inr e2)"
    "elem_is ?v e2 (TYPE_NAME, BInt64 (ucast (type_code (tag d))))"
    using f [of TYPE_NAME] by (auto simp: found_def property_fields_def)
  obtain e3 where e3: "astarte_bson_deserializer_element_lookup ?v doc DATA_NAME = Some (Inr e3)"
    "elem_is ?v e3 (DATA_NAME, bson_of (data d))"
    using f [of DATA_NAME] by (auto simp: found_def property_fields_def)
  have "length (enc_value (bson_of (data d))) < 2 ^ 32"
    using small by (simp add: enc_doc_def property_fields_def)
  note des = deserialize_enc [OF e3(2) d heap this]
  have "astarte_bson_deserializer_element_to_int32 ?v e1 = Some major"
    "astarte_bson_deserializer_element_to_int64 ?v e2 = Some (ucast (type_code (tag d)))"
    using elem_reads_as [OF e1(2)] elem_reads_as [OF e2(2)] by simp_all
  then show ?thesis
    using doc(1) e1(1) e2(1) e3(1) des by (simp add: parse_property_bson_def type_of_type_code out_bind_def)
qed

section \<open>Store and load\<close>

definition property_value :: "u32 \<Rightarrow> astarte_data_t \<Rightarrow> byte list" where
  "property_value major d = enc_doc (property_fields major d)"

lemma property_value_nonempty [simp]: "property_value major d \<noteq> []"
  by (simp add: property_value_def enc_doc_def frame_doc_def)

lemma property_key_len_pos [simp]: "0 < property_key_len n p"
  by (simp add: property_key_len_def)

context reliable_store begin

lemma ample_kernel: "ample (k_heap Z s)"
  using heap_ok by (simp add: ample_def)

lemma heap_calloc [simp]: "0 < n \<Longrightarrow> 0 < k \<Longrightarrow> astarte_calloc (k_heap Z s) n k"
  using ample_kernel [of s] by simp

text \<open>Storing is one insertion of the document.\<close>

lemma property_store_eq:
  assumes "sd_initialized h" and "data_ok (data d)" and "length (property_value major d) < 2 ^ 31"
  shows "astarte_storage_property_store Z h n p major d s = do {
      (ares, kv, s) \<leftarrow> key_value_insert Z (sd_prop h) (property_key n p) (property_value major d) s;
      Some (ares, h\<lparr>sd_prop := kv\<rparr>, s) }"
proof -
  have "\<not> to_int (length (property_value major d)) < 0"
    using assms(3) by (subst to_int_small) (simp_all add: int32_max_def)
  with assms(2) show ?thesis
    by (cases rule: property_bson_cases [where heap = "k_heap Z s" and major = major])
      (use assms(1) heap_ok in \<open>simp_all add: astarte_storage_property_store_def property_value_def\<close>)
qed

lemma property_load_ok:
  assumes kr: "kv_rep Z C R s al" and "sd_initialized h" and "valid_name (kv_namespace (sd_prop h))"
    and "valid_name (property_key n p)" and "length al < ring_size"
    and "data_ok (data d)" "blobs_pos (data d)" and "length (property_value major d) < 2 ^ 32"
    and "map_of al (kv_namespace (sd_prop h), property_key n p) = Some (property_value major d)"
  shows "astarte_storage_property_load Z h n p True True s
    = Some (Inr (Some major, Some \<lparr>data = received (data d), is_owned = True\<rparr>), s)"
  using find_alloc_ok [OF assms(1,3,4,5)] parse_property_enc [OF _ assms(6,7) ample_kernel] assms(2,8,9) heap_ok
  by (simp add: astarte_storage_property_load_def property_value_def [symmetric])

lemma property_store_load:
  assumes kr: "kv_rep Z C R s al" and h: "sd_initialized h" and v: "valid_name (kv_namespace (sd_prop h))"
    and k: "valid_name (property_key n p)" and l: "Suc (length al) < ring_size"
    and d: "data_ok (data d)" "blobs_pos (data d)" and small: "length (property_value major d) < 2 ^ 31"
    and st: "astarte_storage_property_store Z h n p major d s = Some (ASTARTE_RESULT_OK, h', s')"
  shows "kv_rep Z C R s' (AList.update (kv_namespace (sd_prop h), property_key n p) (property_value major d) al)"
    and "astarte_storage_property_load Z h' n p True True s'
      = Some (Inr (Some major, Some \<lparr>data = received (data d), is_owned = True\<rparr>), s')"
proof -
  let ?kv = "sd_prop h" and ?val = "property_value major d"
  let ?k = "(kv_namespace ?kv, property_key n p)"
  have l': "length al < ring_size" using l by simp
  note e = property_store_eq [OF h d(1) small, of n p s]
  have "\<not> over_quota ?kv (val_size al ?k) (length ?val)"
    using st insert_over_quota [OF kr v k l', of ?val] by (auto simp: e)
  from insert_ok [OF kr v k l' this] obtain s1 where
    "key_value_insert Z ?kv (property_key n p) ?val s
      = Some (ASTARTE_RESULT_OK, charged ?kv (val_size al ?k) (length ?val), s1)"
    "kv_rep Z C R s1 (AList.update ?k ?val al)" by blast
  with st e have h': "h' = h\<lparr>sd_prop := charged ?kv (val_size al ?k) (length ?val)\<rparr>"
    and kr': "kv_rep Z C R s' (AList.update ?k ?val al)" by simp_all
  show "kv_rep Z C R s' (AList.update ?k ?val al)" by (rule kr')
  have "length (AList.update ?k ?val al) < ring_size"
    using alist_update_length [of ?k ?val al] l by simp
  from property_load_ok [OF kr' _ _ _ this d] show "astarte_storage_property_load Z h' n p True True s'
      = Some (Inr (Some major, Some \<lparr>data = received (data d), is_owned = True\<rparr>), s')"
    using h v k small h' by (simp add: charged_def healed_def update_conv)
qed

end

section \<open>The strings at an iterator\<close>

lemma iterator_key_ok:
  assumes "key_cursor Z kv s (Inr i) (k # ks)" and "\<And>n. k_heap Z s n"
  shows "iterator_key Z i s = Some (Inr k, s)"
  using assms(1)
proof (cases rule: key_cursor.cases)
  case (key r)
  then show ?thesis
    using assms(2) c_string_snoc [of k] by (simp add: iterator_key_def astarte_calloc_def valid_name_def)
qed

lemma iterator_strings_ok:
  assumes "key_cursor Z kv s (Inr i) (k # ks)" and "\<And>n. k_heap Z s n"
  shows "iterator_strings Z i s = Some (case split_key k of None \<Rightarrow> Inl ASTARTE_RESULT_INTERNAL_ERROR
    | Some x \<Rightarrow> Inr x, s)"
  using iterator_key_ok [OF assms] assms(2)
  by (auto simp: iterator_strings_def astarte_storage_property_iterator_get_def astarte_calloc_def Let_def
      split: option.splits)

lemma split_property_key:
  assumes "0x3B \<notin> set n"
  shows "split_key (n @ [0x3B] @ p) = Some (n, p)"
proof -
  have n: "\<And>c. c \<in> set n \<Longrightarrow> c \<noteq> 0x3B" using assms by blast
  then show ?thesis
    using takeWhile_append2 [of n "\<lambda>c. c \<noteq> 0x3B" "[0x3B] @ p"] dropWhile_append2 [of n "\<lambda>c. c \<noteq> 0x3B" "[0x3B] @ p"]
    by (simp add: split_key_def)
qed

section \<open>The string of the properties of the device\<close>

text \<open>The entry of the string a key gives, and the string of some entries.\<close>

definition device_entry :: "introspection_t \<Rightarrow> byte list \<Rightarrow> byte list list" where
  "device_entry introspection k = (case split_key k of None \<Rightarrow> [] | Some (n, p) \<Rightarrow>
     (case introspection_get introspection n of None \<Rightarrow> [] | Some interface \<Rightarrow>
        if if_ownership interface = ASTARTE_INTERFACE_OWNERSHIP_DEVICE then [n @ p] else []))"

definition device_entries :: "introspection_t \<Rightarrow> byte list list \<Rightarrow> byte list list" where
  "device_entries introspection ks = concat (map (device_entry introspection) ks)"

fun join :: "byte list list \<Rightarrow> byte list" where
  "join [] = []"
| "join [e] = e"
| "join (e # es) = e @ [0x3B] @ join es"

definition entries_size :: "byte list list \<Rightarrow> nat" where
  "entries_size es = sum_list (map (\<lambda>e. length e + 1) es)"

definition known_key :: "introspection_t \<Rightarrow> byte list \<Rightarrow> bool" where
  "known_key introspection k \<longleftrightarrow> (case split_key k of None \<Rightarrow> False
     | Some (n, p) \<Rightarrow> n \<noteq> [] \<and> introspection_get introspection n \<noteq> None)"

definition add_entry :: "byte list \<Rightarrow> byte list \<Rightarrow> byte list" where
  "add_entry str e = (if str = [] then e else str @ [0x3B] @ e)"

lemma foldl_add_entry: "str \<noteq> [] \<Longrightarrow> foldl add_entry str es = join (str # es)"
proof (induction es arbitrary: str)
  case (Cons e es)
  have "foldl add_entry (add_entry str e) es = join (add_entry str e # es)"
    using Cons.prems by (intro Cons.IH) (simp add: add_entry_def)
  also have "\<dots> = join (str # e # es)" using Cons.prems by (cases es) (simp_all add: add_entry_def)
  finally show ?case by simp
qed simp

lemma foldl_join: "\<forall>e\<in>set es. e \<noteq> [] \<Longrightarrow> foldl add_entry [] es = join es"
  by (cases es) (simp_all add: add_entry_def foldl_add_entry)

lemma append_property_ok:
  assumes "split_key k = Some (n, p)" and "known_key introspection k"
    and "\<And>str. out = Some str \<Longrightarrow> sz = (if str = [] then 0 else length str + 1) \<and> sz \<le> cap"
  shows "append_property_to_string Z h introspection n p sz out cap s = (let es = device_entry introspection k in
     Some (if out \<noteq> None \<and> cap < sz + entries_size es then ASTARTE_RESULT_INVALID_PARAM else ASTARTE_RESULT_OK,
       h, sz + entries_size es,
       if cap < sz + entries_size es then out else map_option (\<lambda>str. foldl add_entry str es) out, s))"
proof -
  obtain interface where i: "introspection_get introspection n = Some interface"
    using assms(1,2) by (auto simp: known_key_def)
  show ?thesis
    using assms i
    by (cases out)
      (auto simp: append_property_to_string_def device_entry_def entries_size_def Let_def add_entry_def printed_def)
qed

text \<open>The loop, for a store that is left alone: every interface is known.\<close>

lemma device_entry_nonempty: "known_key introspection k \<Longrightarrow> \<forall>e\<in>set (device_entry introspection k). e \<noteq> []"
  by (auto simp: known_key_def device_entry_def split: option.splits)

lemma device_entry_size: "length (device_entry introspection k) \<le> 1"
  by (simp add: device_entry_def split: option.splits)

lemma entries_size_append [simp]: "entries_size (es @ fs) = entries_size es + entries_size fs"
  by (simp add: entries_size_def)

lemma add_entry_length:
  "es = [] \<or> (\<exists>e. es = [e] \<and> e \<noteq> []) \<Longrightarrow> sz = (if str = [] then 0 else length str + 1) \<Longrightarrow>
   sz + entries_size es = (if foldl add_entry str es = [] then 0 else length (foldl add_entry str es) + 1)"
  by (auto simp: add_entry_def entries_size_def)

lemma device_string_loop_ok:
  assumes heap: "\<And>n. k_heap Z s n"
  shows "key_cursor Z (sd_prop h) s r ks \<Longrightarrow> r = Inr i \<Longrightarrow> \<forall>k\<in>set ks. known_key introspection k \<Longrightarrow>
    (\<And>str. out = Some str \<Longrightarrow> sz = (if str = [] then 0 else length str + 1) \<and> sz \<le> cap) \<Longrightarrow>
    device_string_loop Z h introspection i sz out cap s = Some (let es = device_entries introspection ks in
      if out \<noteq> None \<and> cap < sz + entries_size es then Inl ASTARTE_RESULT_INVALID_PARAM
      else Inr (sz + entries_size es, map_option (\<lambda>str. foldl add_entry str es) out), h, s)"
proof (induction arbitrary: i sz out rule: key_cursor.induct)
  case none
  then show ?case by simp
next
  case (key k j r ks)
  let ?e = "device_entry introspection k"
  have known: "known_key introspection k" "\<forall>k\<in>set ks. known_key introspection k" using key.prems(2) by simp_all
  obtain n p where np: "split_key k = Some (n, p)" using known(1) by (auto simp: known_key_def split: option.splits)
  have "key_cursor Z (sd_prop h) s (Inr j) (k # ks)" using key.hyps by (rule key_cursor.key)
  note strs = iterator_strings_ok [OF this heap]
  note app = append_property_ok [OF np known(1), where out = out and sz = sz and cap = cap and Z = Z and h = h and s = s,
      OF key.prems(3)]
  have es: "device_entries introspection (k # ks) = ?e @ device_entries introspection ks"
    by (simp add: device_entries_def)
  have j: "j = i" using key.prems(1) by simp
  show ?case
  proof (cases "out \<noteq> None \<and> cap < sz + entries_size ?e")
    case True
    then show ?thesis
      using strs app np by (subst device_string_loop.simps) (auto simp: j es Let_def)
  next
    case False
    let ?out = "map_option (\<lambda>str. foldl add_entry str ?e) out"
    have "?e = [] \<or> (\<exists>e. ?e = [e] \<and> e \<noteq> [])"
      using device_entry_size [of introspection k] device_entry_nonempty [OF known(1)] by (cases ?e) auto
    then have inv: "sz + entries_size ?e = (if x = [] then 0 else length x + 1) \<and> sz + entries_size ?e \<le> cap"
      if "?out = Some x" for x
      using that False key.prems(3) add_entry_length [of ?e sz] by (cases out) auto
    have app': "append_property_to_string Z h introspection n p sz out cap s
        = Some (ASTARTE_RESULT_OK, h, sz + entries_size ?e, ?out, s)"
      using app False by (cases out) (simp_all add: Let_def)
    have nx: "iterator_next Z (sd_prop h) i s = Some (r, s)" using key.hyps(4) by (simp add: j)
    have step: "device_string_loop Z h introspection i sz out cap s = (case r of
        Inl ares \<Rightarrow> Some (if ares = ASTARTE_RESULT_NOT_FOUND then Inr (sz + entries_size ?e, ?out) else Inl ares, h, s)
      | Inr i \<Rightarrow> device_string_loop Z h introspection i (sz + entries_size ?e) ?out cap s)"
      using strs np app' nx
      by (subst device_string_loop.simps) (simp add: j astarte_storage_property_iterator_next_def)
    show ?thesis
    proof (cases r)
      case (Inl e)
      then have "ks = []" "e = ASTARTE_RESULT_NOT_FOUND" using key.hyps(5) by (auto elim: key_cursor.cases)
      then show ?thesis using False by (simp add: step Inl es device_entries_def Let_def)
    next
      case (Inr i')
      have "device_string_loop Z h introspection i' (sz + entries_size ?e) ?out cap s = Some (let es = device_entries introspection ks in
          if ?out \<noteq> None \<and> cap < sz + entries_size ?e + entries_size es then Inl ASTARTE_RESULT_INVALID_PARAM
          else Inr (sz + entries_size ?e + entries_size es, map_option (\<lambda>str. foldl add_entry str es) ?out), h, s)"
        by (rule key.IH [OF Inr known(2)]) (rule inv)
      then show ?thesis using step Inr False by (cases out) (simp_all add: es Let_def j add.assoc)
    qed
  qed
qed

lemma device_entries_nonempty:
  "\<forall>k\<in>set ks. known_key introspection k \<Longrightarrow> \<forall>e\<in>set (device_entries introspection ks). e \<noteq> []"
  using device_entry_nonempty by (fastforce simp: device_entries_def)

context reliable_store begin

lemma device_string_ok:
  assumes kr: "kv_rep Z C R s al" and h: "sd_initialized h" and v: "valid_name (kv_namespace (sd_prop h))"
    and known: "\<forall>k\<in>set (ns_keys (kv_namespace (sd_prop h)) al). known_key introspection k"
  shows "astarte_storage_property_get_device_string Z h introspection output cap s = Some (
    let es = device_entries introspection (ns_keys (kv_namespace (sd_prop h)) al) in
    if output \<and> cap < entries_size es then Inl ASTARTE_RESULT_INVALID_PARAM
    else Inr (entries_size es, if output then Some (join es) else None), h, s)"
proof -
  let ?ks = "ns_keys (kv_namespace (sd_prop h)) al"
  let ?out = "if output then Some [] else None"
  from iterator_lists [OF kr v] obtain r where it: "iterator_init Z (sd_prop h) s = Some (r, s)"
    and c: "key_cursor Z (sd_prop h) s r ?ks" .
  note fj = foldl_join [OF device_entries_nonempty [OF known]]
  show ?thesis
  proof (cases r)
    case (Inl e)
    then have "?ks = []" "e = ASTARTE_RESULT_NOT_FOUND" using c by (auto elim: key_cursor.cases)
    then show ?thesis
      using it Inl h by (simp add: astarte_storage_property_get_device_string_def device_entries_def entries_size_def
        astarte_storage_property_iterator_new_def)
  next
    case (Inr i)
    have "device_string_loop Z h introspection i 0 ?out cap s = Some (let es = device_entries introspection ?ks in
      if ?out \<noteq> None \<and> cap < 0 + entries_size es then Inl ASTARTE_RESULT_INVALID_PARAM
      else Inr (0 + entries_size es, map_option (\<lambda>str. foldl add_entry str es) ?out), h, s)"
      using device_string_loop_ok [OF heap_ok c Inr known, where out = ?out and sz = 0 and cap = cap]
      by (auto split: if_splits)
    then show ?thesis
      using it Inr h fj
      by (cases "output")
        (simp_all add: astarte_storage_property_get_device_string_def astarte_storage_property_iterator_new_def Let_def)
  qed
qed

end

end
