(* ===== verification/Properties_Purge.thy ===== *)
theory Properties_Purge
  imports Prop_Spec KV_Contract
begin

text \<open>
  The purge of properties (device/properties\_storage.c): the message with which the device announces
  its own properties, and the message with which the server announces its properties, which removes
  every other property of the server from the storage.

  The part of the device these functions use is its introspection and its storage handle.  The list of
  the allowed properties is a list of strings; the nodes that hold it are one allocation each.
\<close>

section \<open>Sending\<close>

text \<open>The payload of the message, a buffer of zeros the string is written into.\<close>

definition EMPTY_PURGE_SIZE :: nat where "EMPTY_PURGE_SIZE = 4"

definition astarte_device_properties_send_purge ::
    "'s kv_env \<Rightarrow> storage_data \<Rightarrow> introspection_t \<Rightarrow> 's
      \<Rightarrow> ((astarte_result_t + byte list) \<times> storage_data \<times> 's) option" where
  "astarte_device_properties_send_purge Z caching introspection s =
     do {
       (r, caching, s) \<leftarrow> astarte_storage_property_get_device_string Z caching introspection False 0 s;
       case r of Inl ares \<Rightarrow> Some (Inl ares, caching, s)
       | Inr (intr_str_size, _) \<Rightarrow>
           let payload_size = (if intr_str_size \<noteq> 0 then intr_str_size else EMPTY_PURGE_SIZE) in
           if \<not> astarte_calloc (k_heap Z s) payload_size 1 then Some (Inl ASTARTE_RESULT_OUT_OF_MEMORY, caching, s)
           else if intr_str_size = 0 then Some (Inr (replicate payload_size 0), caching, s)
           else do {
             (r, caching, s) \<leftarrow>
               astarte_storage_property_get_device_string Z caching introspection True intr_str_size s;
             Some (case r of Inl ares \<Rightarrow> Inl ares
               | Inr (_, str) \<Rightarrow> Inr (case str of None \<Rightarrow> replicate payload_size 0
                   | Some str \<Rightarrow> str @ replicate (payload_size - length str) 0), caching, s)
           }
     }"

section \<open>Receiving\<close>

text \<open>\<open>strtok_r\<close> with the delimiter \<open>;\<close>: the token and the rest of the string.\<close>

definition strtok :: "byte list \<Rightarrow> (byte list \<times> byte list) option" where
  "strtok str = (let str = dropWhile (\<lambda>c. c = 0x3B) str in
     if str = [] then None
     else Some (takeWhile (\<lambda>c. c \<noteq> 0x3B) str, tl (dropWhile (\<lambda>c. c \<noteq> 0x3B) str)))"

lemma strtok_shorter: "strtok str = Some (t, rest) \<Longrightarrow> length rest < length str"
  using length_dropWhile_le [of "\<lambda>c. c = 0x3B" str] length_dropWhile_le [of "\<lambda>c. c \<noteq> 0x3B" "dropWhile (\<lambda>c. c = 0x3B) str"]
  by (cases "dropWhile (\<lambda>c. c = 0x3B) str") (auto simp: strtok_def Let_def split: if_splits)

function tokens :: "byte list \<Rightarrow> byte list list" where
  "tokens str = (case strtok str of None \<Rightarrow> [] | Some (property, saveptr) \<Rightarrow> property # tokens saveptr)"
  by pat_completeness auto
termination by (relation "measure length") (auto simp: strtok_shorter)

declare tokens.simps [simp del]

definition sizeof_allow_node :: nat where "sizeof_allow_node = 8"

text \<open>The allowed properties of a message, \<open>None\<close> when the function gives up.\<close>

definition allow_list :: "(nat \<Rightarrow> bool) \<Rightarrow> byte list \<Rightarrow> byte list list option" where
  "allow_list heap bytes =
     (if bytes = [] then Some []
      else let property = tokens (c_string bytes) in
        if property = [] then None
        else if \<not> astarte_calloc heap 1 sizeof_allow_node then None
        else Some property)"

definition purge_server_property ::
    "'s kv_env \<Rightarrow> introspection_t \<Rightarrow> storage_data \<Rightarrow> u32 \<Rightarrow> byte list \<Rightarrow> byte list \<Rightarrow> byte list list \<Rightarrow> 's
      \<Rightarrow> (storage_data \<times> u32 \<times> 's) option" where
  "purge_server_property Z introspection caching iter interface_name path allow s =
     (let delete = do { (ares, caching, iter, s) \<leftarrow> astarte_storage_property_iterator_delete Z caching iter s;
            Some (caching, iter, s) } in
      case introspection_get introspection interface_name of
        None \<Rightarrow> delete
      | Some interface \<Rightarrow>
          if if_ownership interface \<noteq> ASTARTE_INTERFACE_OWNERSHIP_SERVER then Some (caching, iter, s)
          else if \<not> astarte_calloc (k_heap Z s) (length interface_name + length path + 1) 1
          then Some (caching, iter, s)
          else if interface_name @ path \<in> set allow then Some (caching, iter, s)
          else delete)"

partial_function (option) purge_loop ::
    "'s kv_env \<Rightarrow> introspection_t \<Rightarrow> byte list list \<Rightarrow> storage_data \<Rightarrow> u32 \<Rightarrow> 's \<Rightarrow> (storage_data \<times> 's) option" where
  "purge_loop Z introspection allow caching iter s =
     do {
       (r, s) \<leftarrow> iterator_strings Z iter s;
       case r of Inl ares \<Rightarrow> Some (caching, s)
       | Inr (interface_name, path) \<Rightarrow> do {
           (caching, iter, s) \<leftarrow> purge_server_property Z introspection caching iter interface_name path allow s;
           (r, s) \<leftarrow> astarte_storage_property_iterator_next Z caching iter s;
           case r of Inl ares \<Rightarrow> Some (caching, s)
           | Inr iter \<Rightarrow> purge_loop Z introspection allow caching iter s
         }
     }"

declare purge_loop.simps [code]

definition purge_server_properties ::
    "'s kv_env \<Rightarrow> introspection_t \<Rightarrow> byte list list \<Rightarrow> storage_data \<Rightarrow> 's \<Rightarrow> (storage_data \<times> 's) option" where
  "purge_server_properties Z introspection allow caching s =
     do {
       (r, s) \<leftarrow> astarte_storage_property_iterator_new Z caching s;
       case r of Inl ares \<Rightarrow> Some (caching, s)
       | Inr iter \<Rightarrow> purge_loop Z introspection allow caching iter s
     }"

definition astarte_device_properties_handle_purge ::
    "'s kv_env \<Rightarrow> introspection_t \<Rightarrow> storage_data \<Rightarrow> byte list \<Rightarrow> 's \<Rightarrow> (storage_data \<times> 's) option" where
  "astarte_device_properties_handle_purge Z introspection caching bytes s =
     (if \<not> astarte_calloc (k_heap Z s) (length bytes + 1) 1 then Some (caching, s)
      else case allow_list (k_heap Z s) bytes of None \<Rightarrow> Some (caching, s)
        | Some allow \<Rightarrow> purge_server_properties Z introspection allow caching s)"

section \<open>What the purge leaves\<close>

definition purge_keeps :: "introspection_t \<Rightarrow> byte list list \<Rightarrow> byte list \<Rightarrow> bool" where
  "purge_keeps introspection allow k \<longleftrightarrow> (case split_key k of None \<Rightarrow> True | Some (n, p) \<Rightarrow>
     (case introspection_get introspection n of None \<Rightarrow> False | Some interface \<Rightarrow>
        if_ownership interface = ASTARTE_INTERFACE_OWNERSHIP_SERVER \<longrightarrow> n @ p \<in> set allow))"

definition purged ::
    "introspection_t \<Rightarrow> byte list list \<Rightarrow> byte list \<Rightarrow> (kv_key \<times> byte list) list \<Rightarrow> (kv_key \<times> byte list) list" where
  "purged introspection allow ns al = filter (\<lambda>((n, k), v). n = ns \<longrightarrow> purge_keeps introspection allow k) al"

lemma purged_simps [simp]:
  "purged i a ns [] = []" "purged i a ns (xs @ ys) = purged i a ns xs @ purged i a ns ys"
  "purged i a ns (((n, k), v) # al) = (if n = ns \<longrightarrow> purge_keeps i a k then ((n, k), v) # purged i a ns al else purged i a ns al)"
  by (simp_all add: purged_def)

lemma purged_none: "ns_keys ns al = [] \<Longrightarrow> purged i a ns al = al"
  by (induction al) (auto split: if_splits)

lemma purged_delete:
  assumes "distinct (map fst (xs @ ((ns, k), v) # ys))"
  shows "AList.delete (ns, k) (xs @ ((ns, k), v) # ys) = xs @ ys"
  using assms by (intro alist_delete_present) auto

lemma namespace_discharged [simp]: "kv_namespace (discharged kv n) = kv_namespace kv"
  by (simp add: discharged_def account_deletion_def)

lemma length_join: "es \<noteq> [] \<Longrightarrow> entries_size es = Suc (length (join es))"
  by (induction es rule: join.induct) (simp_all add: entries_size_def)

lemma entries_size_Nil [simp]: "entries_size [] = 0"
  by (simp add: entries_size_def)

lemma entries_size_0: "entries_size es = 0 \<longleftrightarrow> es = []"
  by (cases es) (simp_all add: entries_size_def)

lemma shrinks:
  assumes "length (xs @ ys) < length (us @ vs) \<or> xs @ ys = us @ vs \<and> length ys < length vs"
  shows "length (xs @ ys) * length (xs @ ys) + length ys < length (us @ vs) * length (us @ vs) + length vs"
  using assms
proof
  assume l: "length (xs @ ys) < length (us @ vs)"
  then have "Suc (length (xs @ ys)) * Suc (length (xs @ ys)) \<le> length (us @ vs) * length (us @ vs)"
    by (intro mult_le_mono) simp_all
  moreover have "length ys \<le> length (xs @ ys)" by simp
  ultimately show ?thesis by simp
qed auto

lemma same_handle: "\<exists>kv. h = h\<lparr>sd_prop := kv\<rparr> \<and> kv_namespace kv = kv_namespace (sd_prop h)"
  by (rule exI [of _ "sd_prop h"]) simp

context reliable_store begin

text \<open>One step at the key \<open>k\<close>: the property stays and the iterator with it, or it is deleted.\<close>

lemma purge_property_ok:
  assumes "split_key k = Some (n, p)"
  shows "purge_server_property Z introspection h i n p allow s
    = (if purge_keeps introspection allow k then Some (h, i, s)
       else do { (ares, kv, i, s) \<leftarrow> iterator_delete Z (sd_prop h) i s; Some (h\<lparr>sd_prop := kv\<rparr>, i, s) })"
  using assms heap_ok
  by (auto simp: purge_server_property_def purge_keeps_def astarte_storage_property_iterator_delete_def
      astarte_calloc_def Option.bind_assoc split: option.splits prod.splits intro!: Option.bind_cong)

text \<open>
  One turn of the loop.  The properties before the iterator have been looked at, and the turn takes
  one away or moves the iterator: after the deletion of the last one it is back at the start.
\<close>

definition purge_at ::
    "introspection_t \<Rightarrow> byte list list \<Rightarrow> (u32 \<rightharpoonup> byte list) \<Rightarrow> byte list
      \<Rightarrow> (kv_key \<times> byte list) list \<Rightarrow> 's \<Rightarrow> storage_data \<Rightarrow> astarte_result_t + u32
      \<Rightarrow> (kv_key \<times> byte list) list \<Rightarrow> (kv_key \<times> byte list) list \<Rightarrow> bool" where
  "purge_at introspection allow R ns al s h r pre post \<longleftrightarrow> kv_rep Z C R s (pre @ post)
     \<and> kv_namespace (sd_prop h) = ns \<and> purged introspection allow ns pre = pre
     \<and> yields C s ns (ns_keys ns post) r
     \<and> purged introspection allow ns (pre @ post) = purged introspection allow ns al
     \<and> (\<forall>k\<in>set (ns_keys ns (pre @ post)). split_key k \<noteq> None)"

lemma purge_turn:
  assumes at: "purge_at introspection allow R ns al s h (Inr i) pre post" and v: "valid_name ns"
  obtains kv1 s1 r1 pre1 post1 where
    "purge_at introspection allow R ns al s1 (h\<lparr>sd_prop := kv1\<rparr>) r1 pre1 post1"
    "length (pre1 @ post1) < length (pre @ post) \<or> pre1 @ post1 = pre @ post \<and> length post1 < length post"
    "purge_loop Z introspection allow h i s = (case r1 of Inl ares \<Rightarrow> Some (h\<lparr>sd_prop := kv1\<rparr>, s1)
       | Inr j \<Rightarrow> purge_loop Z introspection allow (h\<lparr>sd_prop := kv1\<rparr>) j s1)"
proof -
  from at have kr: "kv_rep Z C R s (pre @ post)" and ns: "kv_namespace (sd_prop h) = ns"
    and pre: "purged introspection allow ns pre = pre" and y: "yields C s ns (ns_keys ns post) (Inr i)"
    and pal: "purged introspection allow ns (pre @ post) = purged introspection allow ns al"
    and sp: "\<forall>k\<in>set (ns_keys ns (pre @ post)). split_key k \<noteq> None"
    by (simp_all add: purge_at_def del: ns_keys_simps purged_simps)
  have v': "valid_name (kv_namespace (sd_prop h))" using v ns by simp
  from next_yields [OF kr v' refl, unfolded ns, OF y] obtain us x vs r where
    post: "post = us @ ((ns, hd (ns_keys ns post)), x) # vs" and us: "ns_keys ns us = []"
    and nx: "iterator_next Z (sd_prop h) i s = Some (r, s)" "yields C s ns (ns_keys ns vs) r" .
  define k where "k = hd (ns_keys ns post)"
  note post = post [folded k_def]
  have ks: "ns_keys ns post = k # ns_keys ns vs" using us by (simp add: post)
  obtain n p where np: "split_key k = Some (n, p)" using sp ks by auto
  have strs: "iterator_strings Z i s = Some (Inr (n, p), s)"
    using iterator_strings_ok [OF cursor_from [OF kr v' refl, unfolded ns, OF y, unfolded ks] heap_ok] np by simp
  note del = purge_property_ok [OF np, of introspection h i allow s]
  note done_us = purged_none [OF us]
  note turn = that
  show thesis
  proof (cases "purge_keeps introspection allow k")
    case True
    have "purge_at introspection allow R ns al s (h\<lparr>sd_prop := sd_prop h\<rparr>) r (pre @ us @ [((ns, k), x)]) vs"
      using kr ns pre pal sp nx(2) True done_us by (simp add: purge_at_def post)
    moreover have "purge_loop Z introspection allow h i s = (case r of
        Inl ares \<Rightarrow> Some (h\<lparr>sd_prop := sd_prop h\<rparr>, s)
      | Inr j \<Rightarrow> purge_loop Z introspection allow (h\<lparr>sd_prop := sd_prop h\<rparr>) j s)"
      using strs del True nx(1)
      by (cases r) (simp_all add: purge_loop.simps [of Z introspection allow h i] astarte_storage_property_iterator_next_def)
    moreover have "length vs < length post" "(pre @ us @ [((ns, k), x)]) @ vs = pre @ post" by (simp_all add: post)
    ultimately show thesis by (intro turn) blast+
  next
    case False
    let ?al = "(pre @ us) @ vs" and ?kv = "discharged (sd_prop h) (length x)"
    have eq: "pre @ post = (pre @ us) @ ((ns, k), x) # vs" by (simp add: post)
    have ea: "entry_at C s i (ns, k)" using y ks by (simp add: yields_def)
    from iterator_delete_ok [OF kr v' ea eq, unfolded ns] obtain cur s1 where
      d: "iterator_delete Z (sd_prop h) i s = Some (ASTARTE_RESULT_OK, ?kv, cur, s1)"
      and kr1: "kv_rep Z C R s1 ?al"
      and cur: "if ns_keys ns vs = [] then cur = NULL_ID
       else \<exists>r. iterator_next Z (sd_prop h) cur s1 = Some (r, s1) \<and> yields C s1 ns (ns_keys ns vs) r"
      using purged_delete [of "pre @ us" ns k x vs] kv_rep_distinct [OF kr] unfolding eq by auto
    have step: thesis
      if "iterator_next Z ?kv cur s1 = Some (r1, s1)" "yields C s1 ns (ns_keys ns post1) r1"
        "?al = pre1 @ post1" "purged introspection allow ns pre1 = pre1" for r1 pre1 post1
    proof -
      have ok: "\<forall>k\<in>set (ns_keys ns ?al). split_key k \<noteq> None" using sp unfolding eq by auto
      have pl: "purged introspection allow ns ?al = purged introspection allow ns al"
        using pal False by (simp add: eq)
      have "purge_at introspection allow R ns al s1 (h\<lparr>sd_prop := ?kv\<rparr>) r1 pre1 post1"
        using that(2,4) kr1 [unfolded that(3)] ok [unfolded that(3)] pl [unfolded that(3)] ns
        by (simp add: purge_at_def del: ns_keys_simps purged_simps)
      moreover have "length (pre1 @ post1) < length (pre @ post)" unfolding that(3) [symmetric] by (simp add: eq)
      moreover have "purge_loop Z introspection allow h i s = (case r1 of Inl ares \<Rightarrow> Some (h\<lparr>sd_prop := ?kv\<rparr>, s1)
         | Inr j \<Rightarrow> purge_loop Z introspection allow (h\<lparr>sd_prop := ?kv\<rparr>) j s1)"
        using strs del False d that(1)
        by (simp add: purge_loop.simps [of Z introspection allow h i] astarte_storage_property_iterator_next_def)
      ultimately show thesis by (intro turn) blast+
    qed
    show thesis
    proof (cases "ns_keys ns vs = []")
      case True
      from restart_yields [OF kr1, of ?kv] v ns obtain r1 where
        "iterator_next Z ?kv NULL_ID s1 = Some (r1, s1)" "yields C s1 ns (ns_keys ns ?al) r1" by auto
      then show thesis using cur True by (intro step [of r1 ?al "[]"]) simp_all
    next
      case F: False
      have "iterator_next Z ?kv cur s1 = iterator_next Z (sd_prop h) cur s1"
        by (simp only: iterator_next_def namespace_discharged)
      then show thesis using F cur pre done_us by (auto intro!: step [of _ vs "pre @ us"])
    qed
  qed
qed

lemma purge_loop_ok:
  assumes "purge_at introspection allow R ns al s h (Inr i) pre post" and v: "valid_name ns"
  shows "\<exists>kv s'. purge_loop Z introspection allow h i s = Some (h\<lparr>sd_prop := kv\<rparr>, s')
    \<and> kv_namespace kv = ns \<and> kv_rep Z C R s' (purged introspection allow ns al)"
  using assms(1)
proof (induction "length (pre @ post) * length (pre @ post) + length post" arbitrary: s h i pre post
    rule: less_induct)
  case less
  from purge_turn [OF less.prems v] obtain kv1 s1 r1 pre1 post1 where
    at: "purge_at introspection allow R ns al s1 (h\<lparr>sd_prop := kv1\<rparr>) r1 pre1 post1"
    and dec: "length (pre1 @ post1) < length (pre @ post) \<or> pre1 @ post1 = pre @ post \<and> length post1 < length post"
    and eq: "purge_loop Z introspection allow h i s = (case r1 of Inl ares \<Rightarrow> Some (h\<lparr>sd_prop := kv1\<rparr>, s1)
       | Inr j \<Rightarrow> purge_loop Z introspection allow (h\<lparr>sd_prop := kv1\<rparr>) j s1)" .
  show ?case
  proof (cases r1)
    case (Inl e)
    then have "ns_keys ns post1 = []" using at by (auto simp: purge_at_def yields_def split: list.splits)
    then have "purged introspection allow ns post1 = post1" by (rule purged_none)
    then show ?thesis using at eq Inl by (auto simp: purge_at_def)
  next
    case (Inr j)
    have "length (pre1 @ post1) * length (pre1 @ post1) + length post1
        < length (pre @ post) * length (pre @ post) + length post" using dec by (rule shrinks)
    from less.hyps [OF this at [unfolded Inr]] show ?thesis using eq Inr by simp
  qed
qed

lemma handle_purge_ok:
  assumes kr: "kv_rep Z C R s al" and h: "sd_initialized h" and v: "valid_name (kv_namespace (sd_prop h))"
    and sp: "\<forall>k\<in>set (ns_keys (kv_namespace (sd_prop h)) al). split_key k \<noteq> None"
  shows "\<exists>kv s'. astarte_device_properties_handle_purge Z introspection h bytes s = Some (h\<lparr>sd_prop := kv\<rparr>, s')
    \<and> kv_namespace kv = kv_namespace (sd_prop h)
    \<and> kv_rep Z C R s' (if bytes \<noteq> [] \<and> tokens (c_string bytes) = [] then al
        else purged introspection (tokens (c_string bytes)) (kv_namespace (sd_prop h)) al)"
proof -
  let ?ns = "kv_namespace (sd_prop h)"
  have all: "\<exists>kv s'. purge_server_properties Z introspection allow h s = Some (h\<lparr>sd_prop := kv\<rparr>, s')
    \<and> kv_namespace kv = ?ns \<and> kv_rep Z C R s' (purged introspection allow ?ns al)" for allow
  proof -
    from restart_yields [OF kr v] obtain r where
      r: "iterator_next Z (sd_prop h) NULL_ID s = Some (r, s)" "yields C s ?ns (ns_keys ?ns al) r" .
    show ?thesis
    proof (cases r)
      case (Inl e)
      then have "ns_keys ?ns al = []" using r(2) by (auto simp: yields_def split: list.splits)
      then show ?thesis
        using r(1) Inl h kr purged_none [of ?ns al] same_handle [of h]
        by (auto simp: purge_server_properties_def astarte_storage_property_iterator_new_def iterator_init_def)
    next
      case (Inr i)
      have "purge_at introspection allow R ?ns al s h (Inr i) [] al"
        using kr r(2) Inr sp by (simp add: purge_at_def)
      from purge_loop_ok [OF this v] show ?thesis
        using r(1) Inr h
        by (auto simp: purge_server_properties_def astarte_storage_property_iterator_new_def iterator_init_def)
    qed
  qed
  show ?thesis
    using same_handle [of h] all [of "tokens (c_string bytes)"] heap_ok kr
    by (auto simp: astarte_device_properties_handle_purge_def allow_list_def astarte_calloc_def Let_def
        c_string_def tokens.simps [of "[]"] strtok_def sizeof_allow_node_def)
qed

text \<open>The message of the device: its properties and the zero byte that ends the string.\<close>

lemma send_purge_ok:
  assumes kr: "kv_rep Z C R s al" and h: "sd_initialized h" and v: "valid_name (kv_namespace (sd_prop h))"
    and known: "\<forall>k\<in>set (ns_keys (kv_namespace (sd_prop h)) al). known_key introspection k"
  shows "astarte_device_properties_send_purge Z h introspection s = Some (Inr (
    let es = device_entries introspection (ns_keys (kv_namespace (sd_prop h)) al) in
    if es = [] then [0, 0, 0, 0] else join es @ [0]), h, s)"
proof -
  note str = device_string_ok [OF kr h v known]
  show ?thesis
    using str heap_ok
    by (simp add: astarte_device_properties_send_purge_def Let_def entries_size_0 length_join
        EMPTY_PURGE_SIZE_def astarte_calloc_def numeral_eq_Suc)
qed

end

end
