(* ===== verification/Purge_Loss.thy ===== *)
theory Purge_Loss
  imports Properties_Purge
begin

text \<open>
  The string of the properties of the device when a stored property belongs to an interface the
  device no longer has: the code deletes the property while it iterates, which leaves the iterator at
  a free ID, and the iteration ends there.
\<close>

lemma property_key_split:
  assumes "split_key k = Some (n, p)" and "nul_free k"
  shows "property_key n p = k"
proof -
  have k: "0x3B \<in> set k" and n: "n = takeWhile (\<lambda>c. c \<noteq> 0x3B) k" and p: "p = tl (dropWhile (\<lambda>c. c \<noteq> 0x3B) k)"
    using assms(1) by (auto simp: split_key_def split: if_splits)
  obtain c cs where d: "dropWhile (\<lambda>c. c \<noteq> 0x3B) k = c # cs"
    using k by (cases "dropWhile (\<lambda>c. c \<noteq> 0x3B) k") (auto simp: dropWhile_eq_Nil_conv)
  then have "c = 0x3B" using hd_dropWhile [of "\<lambda>c. c \<noteq> 0x3B" k] by simp
  then have eq: "n @ [0x3B] @ p = k"
    using takeWhile_dropWhile_id [of "\<lambda>c. c \<noteq> 0x3B" k] d n p by simp
  then have "nul_free n" "nul_free p" using assms(2) by (auto simp: nul_free_def)
  then show ?thesis using eq by (simp add: property_key_def)
qed

context reliable_store begin

section \<open>A deletion at the end of a cluster\<close>

lemma entry_delete_free:
  assumes rep: "rep C s A" and st: "stored Z A ids" and e: "ka_ent A i = Some e"
    and free: "ka_ent A (next_slot i) = None"
  obtains s' where "entry_delete Z i s = Some (ASTARTE_RESULT_OK, s')" "C s' i = None"
proof -
  let ?D = "(unlinked A i e)\<lparr>ka_int := Some (intent_of INTENT_SHIFTING i NULL_ID NULL_ID)\<rparr>"
  have u: "usable i" using rep e by (rule repD)
  have "runs Z C (delete_and_unlink_single_entry Z i s) (\<lambda>_. True) (\<lambda>B. B = unlinked A i e)"
    using runs_unlink [OF rep st e] by (rule runs_weaken) simp_all
  then obtain s1 B where d: "delete_and_unlink_single_entry Z i s = (ASTARTE_RESULT_OK, s1)"
    and r1: "rep C s1 B" "B = unlinked A i e" by (rule runs_succeeds)
  have "runs Z C (entry_intent_write Z INTENT_SHIFTING i NULL_ID NULL_ID s1) (\<lambda>_. True) (\<lambda>D. D = ?D)"
    using r1(2) by (intro runs_intent [OF r1(1)]) (simp_all add: intent_of_def)
  then obtain s2 D where w: "entry_intent_write Z INTENT_SHIFTING i NULL_ID NULL_ID s1 = (ASTARTE_RESULT_OK, s2)"
    and r2: "rep C s2 D" "D = ?D" by (rule runs_succeeds)
  have "ka_ent D (next_slot i) = None"
    using free relink_kv [of "e_prev e" "e_next e" "e_next e" "e_prev e" "ka_ent A" "next_slot i"]
    by (simp add: r2(2) delete_state_defs)
  then have "entry_delete_resume_shift Z i s2 = Some (ASTARTE_RESULT_OK, s2)"
    unfolding entry_delete_resume_shift_def
    using shift_back_None [OF r2(1) usable_next_slot [OF u]] next_slot_neq [OF u]
    by (subst resume_shift_loop.simps) simp
  moreover from r2(1) obtain s3 where c: "entry_intent_clear Z s2 = (ASTARTE_RESULT_OK, s3)"
    and r3: "rep C s3 (cleared D)" by (rule clear_ok)
  moreover have "C s3 i = None"
    using repD(1) [OF r3 u] by (simp add: cleared_def r2(2) delete_state_defs)
  ultimately show thesis using d w by (intro that) (simp_all add: entry_delete_def)
qed

lemma key_value_delete_free:
  assumes kr: "kv_rep Z C R s al" and v: "valid_name (kv_namespace kv)"
    and at: "entry_at C s i (kv_namespace kv, key)" and free: "C s (next_slot i) = None"
  obtains kv' s' where "key_value_delete Z kv key s = Some (ASTARTE_RESULT_OK, kv', s')"
    "kv_rep Z C R s' (AList.delete (kv_namespace kv, key) al)" "kv_namespace kv' = kv_namespace kv" "C s' i = None"
proof -
  let ?k = "(kv_namespace kv, key)"
  from kr obtain A ids where rep: "rep C s A" and st: "stored Z A ids"
    and al: "pairs_of (ka_ent A) ids = al" and id: "idle A" by (rule kv_repE)
  from rep at obtain e where e: "ka_ent A i = Some e" "?k = (e_ns e, e_key e)" by (rule entry_at_rep)
  have vk: "valid_name key" using repD(3) [OF rep e(1)] e(2) by (simp add: valid_entry_def)
  have u: "usable i" using rep e(1) by (rule repD)
  have "ka_ent A (next_slot i) = None"
    using repD(1) [OF rep usable_next_slot [OF u]] free by simp
  from entry_delete_free [OF rep st e(1) this] obtain s1 where
    d: "entry_delete Z i s = Some (ASTARTE_RESULT_OK, s1)" "C s1 i = None" .
  have m: "map_of al ?k \<noteq> None" using stored_lookup [OF st e(1)] e(2) al by simp
  from find_slot [OF rep st v vk al] obtain r
    where slot: "entry_find_or_alloc Z s (kv_namespace kv) key False = Some r"
      and sr: "slot_kv Z C s A al ?k r" by blast
  then obtain j f where r: "r = Inr j" and f: "ka_ent A j = Some f" "(e_ns f, e_key f) = ?k"
    using m reliable_store_axioms unfolding slot_kv_def by auto
  have "keys_of (ka_ent A) j = Some ?k" "keys_of (ka_ent A) i = Some ?k"
    using e f by (simp_all add: keys_of_def)
  then have "j = i" by (rule unique_keysD [OF storedD(2) [OF st]])
  then have del: "key_value_delete Z kv key s
      = Some (ASTARTE_RESULT_OK, account_deletion kv (deleted_size Z kv i s), s1)"
    using resolve_ok [OF rep id] slot r d(1) by (simp add: key_value_delete_def Let_def)
  from key_value_delete_spec [OF kr v vk] del have "kv_rep Z C R s1 (AList.delete ?k al)"
    by (simp add: delete_outcome_def Let_def)
  moreover have "kv_namespace (account_deletion kv n) = kv_namespace kv" for n
    by (simp add: account_deletion_def)
  ultimately show thesis using del d(2) by (intro that)
qed

lemma iterator_next_free:
  assumes kr: "kv_rep Z C R s al" and "usable i" and "C s i = None"
  shows "iterator_next Z kv i s = Some (Inl ASTARTE_RESULT_NOT_FOUND, s)"
proof -
  from kr obtain A ids where rep: "rep C s A" and id: "idle A" by (rule kv_repE)
  have "i \<noteq> NULL_ID" using assms(2) by auto
  then have "entry_get_next_id Z s i = Inl ASTARTE_RESULT_NOT_FOUND"
    using read_fixed_None [OF assms(3)] by (simp add: entry_get_next_id_def)
  then show ?thesis
    using resolve_ok [OF rep id] by (simp add: iterator_next_def iterator_next_loop.simps)
qed

section \<open>The loop over the properties\<close>

text \<open>Up to the property \<open>k\<close> no property has an entry in the string.\<close>

lemma device_string_loop_skips:
  assumes kr: "kv_rep Z C R s al" and v: "valid_name (kv_namespace (sd_prop h))"
  defines "ns \<equiv> kv_namespace (sd_prop h)"
  shows "al = pre @ post \<Longrightarrow> ns_keys ns post = ms @ k # ks \<Longrightarrow> yields C s ns (ms @ k # ks) (Inr i) \<Longrightarrow>
    \<forall>l\<in>set ms. known_key introspection l \<and> device_entry introspection l = [] \<Longrightarrow>
    \<exists>j. entry_at C s j (ns, k) \<and> key_cursor Z (sd_prop h) s (Inr j) (k # ks)
      \<and> device_string_loop Z h introspection i 0 None cap s = device_string_loop Z h introspection j 0 None cap s"
proof (induction ms arbitrary: i pre post)
  case Nil
  then have "key_cursor Z (sd_prop h) s (Inr i) (k # ks)"
    using cursor_from [OF kr v, of pre post i] by (simp add: ns_def)
  then show ?case using Nil.prems(3) by (auto simp: yields_def)
next
  case (Cons l ms)
  have y: "yields C s ns (ns_keys ns post) (Inr i)" using Cons.prems(2,3) by simp
  from next_yields [OF kr v Cons.prems(1) y [unfolded ns_def], folded ns_def] obtain us x vs r where
    post: "post = us @ ((ns, hd (ns_keys ns post)), x) # vs" and us: "ns_keys ns us = []"
    and nx: "iterator_next Z (sd_prop h) i s = Some (r, s)" and yr: "yields C s ns (ns_keys ns vs) r" .
  have "ns_keys ns post = hd (ns_keys ns post) # ns_keys ns vs"
    by (subst post) (simp add: us)
  then have vs: "ns_keys ns vs = ms @ k # ks" using Cons.prems(2) by simp
  then obtain j where r: "r = Inr j" using yr by (auto simp: yields_def split: list.splits)
  have "al = (pre @ us @ [((ns, hd (ns_keys ns post)), x)]) @ vs" using Cons.prems(1) post by simp
  from Cons.IH [OF this vs] Cons.prems(4) yr [unfolded vs r] obtain j' where
    j': "entry_at C s j' (ns, k)" "key_cursor Z (sd_prop h) s (Inr j') (k # ks)"
      "device_string_loop Z h introspection j 0 None cap s = device_string_loop Z h introspection j' 0 None cap s"
    by auto
  have "key_cursor Z (sd_prop h) s (Inr i) (l # ms @ k # ks)"
    using cursor_from [OF kr v Cons.prems(1) y [unfolded ns_def]] Cons.prems(2) by (simp add: ns_def)
  note strs = iterator_strings_ok [OF this heap_ok]
  have known: "known_key introspection l" and none: "device_entry introspection l = []"
    using Cons.prems(4) by simp_all
  obtain n p where np: "split_key l = Some (n, p)" using known by (auto simp: known_key_def split: option.splits)
  have "append_property_to_string Z h introspection n p 0 None cap s = Some (ASTARTE_RESULT_OK, h, 0, None, s)"
    using append_property_ok [OF np known, of None 0 cap Z h s] none by simp
  then have "device_string_loop Z h introspection i 0 None cap s = device_string_loop Z h introspection j 0 None cap s"
    using strs np nx r
    by (subst device_string_loop.simps) (simp add: astarte_storage_property_iterator_next_def)
  then show ?case using j' by auto
qed

lemma device_string_loop_stops:
  assumes kr: "kv_rep Z C R s al" and h: "sd_initialized h" and v: "valid_name (kv_namespace (sd_prop h))"
    and at: "entry_at C s j (kv_namespace (sd_prop h), k)" and free: "C s (next_slot j) = None"
    and cur: "key_cursor Z (sd_prop h) s (Inr j) (k # ks)"
    and k: "split_key k = Some (n, p)" "introspection_get introspection n = None"
  obtains h' s' where "device_string_loop Z h introspection j sz out cap s = Some (Inr (sz, out), h', s')"
    "kv_rep Z C R s' (AList.delete (kv_namespace (sd_prop h), k) al)"
proof -
  from key_value_delete_free [OF kr v at free] obtain kv' s' where
    d: "key_value_delete Z (sd_prop h) k s = Some (ASTARTE_RESULT_OK, kv', s')"
    and kr': "kv_rep Z C R s' (AList.delete (kv_namespace (sd_prop h), k) al)" and fr: "C s' j = None" .
  have "nul_free k" using cur by (auto elim: key_cursor.cases simp: valid_name_def)
  then have "astarte_storage_property_delete Z h n p s = Some (ASTARTE_RESULT_OK, h\<lparr>sd_prop := kv'\<rparr>, s')"
    using d h heap_ok property_key_split [OF k(1)]
    by (simp add: astarte_storage_property_delete_def astarte_calloc_def)
  moreover have "usable j" using at by (simp add: entry_at_def)
  ultimately have "device_string_loop Z h introspection j sz out cap s = Some (Inr (sz, out), h\<lparr>sd_prop := kv'\<rparr>, s')"
    using iterator_strings_ok [OF cur heap_ok] k iterator_next_free [OF kr' _ fr]
    by (subst device_string_loop.simps)
      (simp add: append_property_to_string_def astarte_storage_property_iterator_next_def)
  then show thesis using kr' by (rule that)
qed

lemma send_purge_stops:
  assumes kr: "kv_rep Z C R s al" and h: "sd_initialized h" and v: "valid_name (kv_namespace (sd_prop h))"
    and keys: "ns_keys (kv_namespace (sd_prop h)) al = ms @ k # ks"
    and ms: "\<forall>l\<in>set ms. known_key introspection l \<and> device_entry introspection l = []"
    and k: "split_key k = Some (n, p)" "introspection_get introspection n = None"
    and at: "entry_at C s i (kv_namespace (sd_prop h), k)" and free: "C s (next_slot i) = None"
  shows "\<exists>h' s'. astarte_device_properties_send_purge Z h introspection s = Some (Inr [0, 0, 0, 0], h', s')
    \<and> kv_rep Z C R s' (AList.delete (kv_namespace (sd_prop h), k) al)"
proof -
  let ?ns = "kv_namespace (sd_prop h)"
  from restart_yields [OF kr v] obtain r where
    r: "iterator_next Z (sd_prop h) NULL_ID s = Some (r, s)" "yields C s ?ns (ns_keys ?ns al) r" .
  obtain i0 where i0: "r = Inr i0" using r(2) keys by (auto simp: yields_def split: list.splits)
  from device_string_loop_skips [OF kr v, of "[]" al ms k ks i0 introspection 0] keys r(2) i0 ms obtain j where
    j: "entry_at C s j (?ns, k)" "key_cursor Z (sd_prop h) s (Inr j) (k # ks)"
      "device_string_loop Z h introspection i0 0 None 0 s = device_string_loop Z h introspection j 0 None 0 s"
    by auto
  have "j = i"
  proof -
    from kr obtain A ids where rep: "rep C s A" and st: "stored Z A ids" by (rule kv_repE)
    have "keys_of (ka_ent A) l = Some (?ns, k)" if at: "entry_at C s l (?ns, k)" for l
      using rep at by (rule entry_at_rep) (simp add: keys_of_def)
    then show ?thesis using unique_keysD [OF storedD(2) [OF st]] at j(1) by metis
  qed
  with free have fr: "C s (next_slot j) = None" by simp
  from device_string_loop_stops [OF kr h v j(1) fr j(2) k, of 0 None 0] obtain h' s' where
    l: "device_string_loop Z h introspection j 0 None 0 s = Some (Inr (0, None), h', s')"
    and kr': "kv_rep Z C R s' (AList.delete (?ns, k) al)" .
  have "astarte_storage_property_get_device_string Z h introspection False 0 s = Some (Inr (0, None), h', s')"
    using r(1) i0 j(3) l h
    by (simp add: astarte_storage_property_get_device_string_def astarte_storage_property_iterator_new_def
        iterator_init_def)
  then show ?thesis
    using kr' heap_ok
    by (auto simp: astarte_device_properties_send_purge_def EMPTY_PURGE_SIZE_def astarte_calloc_def numeral_eq_Suc)
qed

end

end
