(* ===== verification/Prop_Claims.thy ===== *)
theory Prop_Claims
  imports Purge_Loss KV_Claims
begin

text \<open>
  The properties of the storage of properties, and what becomes of the string of the properties of the
  device when one belongs to an interface the device no longer has.
\<close>

section \<open>A concrete device\<close>

definition prop_storage :: storage_data where
  "prop_storage = zero_storage\<lparr>sd_prop := empty_kv\<lparr>kv_namespace := PROPERTIES_NAMESPACE\<rparr>, sd_initialized := True\<rparr>"

lemma prop_storage_simps [simp]:
  "sd_initialized prop_storage" "kv_namespace (sd_prop prop_storage) = PROPERTIES_NAMESPACE"
  "kv_max_quota_bytes (sd_prop prop_storage) = 0"
  by (simp_all add: prop_storage_def empty_kv_def)

lemma valid_properties_namespace [simp]: "valid_name PROPERTIES_NAMESPACE"
  by (simp add: PROPERTIES_NAMESPACE_def chars_def valid_name_def nul_free_def of_char_def)

definition prop_interface :: "byte list \<Rightarrow> astarte_interface_ownership_t \<Rightarrow> astarte_interface_t" where
  "prop_interface n own = \<lparr>if_name = n, if_major = 0, if_minor = 1, if_ownership = own,
     if_type = ASTARTE_INTERFACE_TYPE_PROPERTIES, if_aggregation = ASTARTE_INTERFACE_AGGREGATION_INDIVIDUAL,
     if_mappings = []\<rparr>"

text \<open>The interfaces \<open>d\<close>, owned by the device, and \<open>s\<close>, owned by the server.\<close>

definition prop_introspection :: introspection_t where
  "prop_introspection = [prop_interface [100] ASTARTE_INTERFACE_OWNERSHIP_DEVICE,
     prop_interface [115] ASTARTE_INTERFACE_OWNERSHIP_SERVER]"

section \<open>Round trip\<close>

text \<open>C19: A property that was stored is loaded again: when the store reports success, a load with the
  same interface name and path gives the same major version and the same data, in memory of its own,
  and every other pair of the file system is untouched.\<close>

theorem property_roundtrip:
  assumes "reliable_store Z C" and "kv_stores Z C s al" and "Suc (length al) < ring_size"
    and "sd_initialized h" and "valid_name (kv_namespace (sd_prop h))" and "valid_name (property_key n p)"
    and "data_ok (data d)" and "blobs_pos (data d)" and "length (property_value major d) < 2 ^ 31"
    and "astarte_storage_property_store Z h n p major d s = Some (ASTARTE_RESULT_OK, h', s')"
  shows "astarte_storage_property_load Z h' n p True True s'
      = Some (Inr (Some major, Some \<lparr>data = received (data d), is_owned = True\<rparr>), s')
    \<and> kv_stores Z C s' (AList.update (kv_namespace (sd_prop h), property_key n p) (property_value major d) al)"
proof -
  obtain R where kr: "kv_rep Z C R s al" using assms(2) by (auto simp: kv_stores_def)
  show ?thesis
    using reliable_store.property_store_load [OF assms(1) kr assms(4-6,3,7-10)] by (auto simp: kv_stores_def)
qed

lemma property_roundtrip_witness:
  "\<exists>h' s'. astarte_storage_property_store (disk_env (\<lambda>_. 0)) prop_storage [100] [47, 97] 3 (from_union (Boolean True)) Map.empty
      = Some (ASTARTE_RESULT_OK, h', s')
    \<and> astarte_storage_property_load (disk_env (\<lambda>_. 0)) h' [100] [47, 97] True True s'
      = Some (Inr (Some 3, Some \<lparr>data = Boolean True, is_owned = True\<rparr>), s')"
proof -
  let ?d = "from_union (Boolean True)"
  have l: "length (property_value 3 ?d) < 2 ^ 31"
    by (simp add: property_value_def enc_doc_def property_fields_def from_union_def MAJOR_NAME_def TYPE_NAME_def
        DATA_NAME_def chars_def)
  have k: "valid_name (property_key [100] [47, 97])"
    by (simp add: property_key_def c_string_def valid_name_def nul_free_def)
  have "map_option fst (astarte_storage_property_store (disk_env (\<lambda>_. 0)) prop_storage [100] [47, 97] 3 ?d Map.empty)
      = Some ASTARTE_RESULT_OK" by code_simp
  then obtain h' s' where
    "astarte_storage_property_store (disk_env (\<lambda>_. 0)) prop_storage [100] [47, 97] 3 ?d Map.empty
      = Some (ASTARTE_RESULT_OK, h', s')" by auto
  from property_roundtrip [OF disk.reliable_store_axioms disk_empty _ _ _ k _ _ l this] this
  show ?thesis by (auto simp: ring_size_def from_union_def)
qed

section \<open>The message with the properties of the device\<close>

text \<open>C21: When every stored property belongs to an interface of the introspection, the message that
  announces the properties of the device lists the interface names and paths of those the device owns,
  in the order of the store, separated by semicolons and ended by a zero byte; without any, it is four
  zero bytes.  Nothing is deleted.\<close>

theorem purge_message_lists_properties:
  assumes "reliable_store Z C" and "kv_stores Z C s al"
    and "sd_initialized h" and "valid_name (kv_namespace (sd_prop h))"
    and "\<forall>k\<in>set (ns_keys (kv_namespace (sd_prop h)) al). known_key introspection k"
  shows "astarte_device_properties_send_purge Z h introspection s = Some (Inr (
    let es = device_entries introspection (ns_keys (kv_namespace (sd_prop h)) al) in
    if es = [] then [0, 0, 0, 0] else join es @ [0]), h, s)"
proof -
  obtain R where "kv_rep Z C R s al" using assms(2) by (auto simp: kv_stores_def)
  from reliable_store.send_purge_ok [OF assms(1) this assms(3-5)] show ?thesis .
qed

text \<open>Three properties: two of the device and one of the server.\<close>

definition demo_keys :: "byte list list" where
  "demo_keys = [[100, 0x3B, 47, 97], [115, 0x3B, 47, 120], [100, 0x3B, 47, 98, 99, 100]]"

definition demo_pairs :: "(kv_key \<times> byte list) list" where
  "demo_pairs = map (\<lambda>k. ((PROPERTIES_NAMESPACE, k), [1])) demo_keys"

lemma demo_stored:
  obtains m where "kv_stores (disk_env (\<lambda>_. 0)) (\<lambda>m. m) m demo_pairs"
  by (rule disk_pairs [of PROPERTIES_NAMESPACE "map (\<lambda>k. (k, [1])) demo_keys"])
    (rule valid_properties_namespace, auto simp: ring_size_def valid_name_def nul_free_def demo_keys_def demo_pairs_def)

lemma demo_ns_keys: "ns_keys (kv_namespace (sd_prop prop_storage)) demo_pairs = demo_keys"
  by (simp add: demo_pairs_def demo_keys_def)

lemma purge_message_lists_properties_witness:
  "\<exists>m. astarte_device_properties_send_purge (disk_env (\<lambda>_. 0)) prop_storage prop_introspection m
    = Some (Inr [100, 47, 97, 0x3B, 100, 47, 98, 99, 100, 0], prop_storage, m)"
proof -
  obtain m where m: "kv_stores (disk_env (\<lambda>_. 0)) (\<lambda>m. m) m demo_pairs" by (rule demo_stored)
  have e: "device_entries prop_introspection demo_keys = [[100, 47, 97], [100, 47, 98, 99, 100]]"
    "list_all (known_key prop_introspection) demo_keys"
    by code_simp+
  then have "\<forall>k\<in>set (ns_keys (kv_namespace (sd_prop prop_storage)) demo_pairs). known_key prop_introspection k"
    unfolding demo_ns_keys by (simp add: list_all_iff)
  from purge_message_lists_properties [OF disk.reliable_store_axioms m _ _ this] e(1)
  show ?thesis unfolding demo_ns_keys by (auto simp: Let_def)
qed

text \<open>C38: When a stored property belongs to an interface the device no longer has and no property before
  it has an entry in the message, the properties behind it are lost to the message: the function that
  builds the list deletes the property under the iterator, the iteration ends there (its ID ends a
  cluster, so nothing is moved into it), and the device announces that it has no properties at all, while
  every other property, those behind it included, is still stored.\<close>

theorem purge_message_loses_properties:
  assumes "reliable_store Z C" and "kv_stores Z C s al"
    and "sd_initialized h" and "valid_name (kv_namespace (sd_prop h))"
    and "ns_keys (kv_namespace (sd_prop h)) al = ms @ k # ks"
    and "\<forall>l\<in>set ms. known_key introspection l" and "device_entries introspection ms = []"
    and "split_key k = Some (n, p)" and "introspection_get introspection n = None"
    and "entry_at C s i (kv_namespace (sd_prop h), k)" and "C s (next_slot i) = None"
  shows "\<exists>h' s'. astarte_device_properties_send_purge Z h introspection s = Some (Inr [0, 0, 0, 0], h', s')
    \<and> kv_stores Z C s' (AList.delete (kv_namespace (sd_prop h), k) al)"
proof -
  obtain R where kr: "kv_rep Z C R s al" using assms(2) by (auto simp: kv_stores_def)
  have "\<forall>l\<in>set ms. known_key introspection l \<and> device_entry introspection l = []"
    using assms(6,7) by (auto simp: device_entries_def)
  from reliable_store.send_purge_stops [OF assms(1) kr assms(3-5) this assms(8-11)] show ?thesis
    unfolding kv_stores_def by blast
qed

text \<open>The property \<open>x\<close> of the server, the property of the interface \<open>u\<close>, which the device does not have,
  and behind it the property \<open>b\<close> of the device.\<close>

definition lost_keys :: "byte list list" where
  "lost_keys = [[115, 0x3B, 47, 120], [117, 0x3B, 47, 97], [100, 0x3B, 47, 98]]"

definition spread_hash :: "byte list \<Rightarrow> u32" where
  "spread_hash bs = (if hd bs = 115 then 0x10000000 else if hd bs = 100 then 0x20000000 else 0)"

definition lost_run :: "((astarte_result_t \<times> byte list) list \<times> (u32 \<rightharpoonup> byte list)) option" where
  "lost_run = run_steps (kv_step (disk_env spread_hash) (sd_prop prop_storage)) (map (\<lambda>k. Insert k [1]) lost_keys) Map.empty"

definition lost_id :: u32 where
  "lost_id = entry_hash_generate (disk_env spread_hash) PROPERTIES_NAMESPACE [117, 0x3B, 47, 97]"

definition lost_entry :: kv_entry where
  "lost_entry = \<lparr>e_ns = PROPERTIES_NAMESPACE, e_key = [117, 0x3B, 47, 97], e_val = [1],
     e_next = 0xBE37FD47, e_prev = 0xAE381D47\<rparr>"

lemma lost_record:
  "map_option (\<lambda>(r, m). (m lost_id, m (next_slot lost_id))) lost_run = Some (Some (kv_image lost_entry), None)"
  "usable lost_id"
  by code_simp+

lemma lost_stored:
  obtains m where "lost_run = Some (replicate 3 (ASTARTE_RESULT_OK, []), m)"
    "kv_stores (disk_env spread_hash) (\<lambda>m. m) m (map (\<lambda>k. ((PROPERTIES_NAMESPACE, k), [1])) lost_keys)"
proof -
  let ?xs = "map (\<lambda>k. Insert k [1]) lost_keys"
  have "kv_rel (disk_env spread_hash) (\<lambda>m. m) (sd_prop prop_storage) Map.empty []" "kv_may [] ?xs"
    using disk.reliable_store_axioms
    by (simp_all add: kv_rel_def kv_may_def op_key_def lost_keys_def ring_size_def)
      (simp_all add: valid_name_def nul_free_def)
  from kv.run_refines [OF this] show thesis
    by (auto simp: kv_rel_def kv_spec_def lost_run_def lost_keys_def numeral_3_eq_3 intro: that)
qed

lemma purge_message_loses_properties_witness:
  "\<exists>m h m'. lost_run = Some (replicate 3 (ASTARTE_RESULT_OK, []), m)
    \<and> astarte_device_properties_send_purge (disk_env spread_hash) prop_storage prop_introspection m
      = Some (Inr [0, 0, 0, 0], h, m')
    \<and> kv_stores (disk_env spread_hash) (\<lambda>m. m) m'
        [((PROPERTIES_NAMESPACE, [115, 0x3B, 47, 120]), [1]), ((PROPERTIES_NAMESPACE, [100, 0x3B, 47, 98]), [1])]"
proof -
  obtain m where m: "lost_run = Some (replicate 3 (ASTARTE_RESULT_OK, []), m)"
    "kv_stores (disk_env spread_hash) (\<lambda>m. m) m (map (\<lambda>k. ((PROPERTIES_NAMESPACE, k), [1])) lost_keys)"
    by (rule lost_stored)
  have rec: "m lost_id = Some (kv_image lost_entry)" "m (next_slot lost_id) = None"
    using lost_record(1) [unfolded m(1)] by simp_all
  have "valid_entry lost_entry"
    using valid_properties_namespace unfolding valid_entry_def
    by (auto simp: lost_entry_def) (simp add: valid_name_def nul_free_def)
  then have at: "entry_at (\<lambda>m. m) m lost_id (kv_namespace (sd_prop prop_storage), [117, 0x3B, 47, 97])"
    unfolding entry_at_def using lost_record(2) rec(1)
    by (intro conjI exI [of _ lost_entry]) (simp_all add: lost_entry_def)
  have e: "\<forall>l\<in>set [[115, 0x3B, 47, 120]]. known_key prop_introspection l"
    "device_entries prop_introspection [[115, 0x3B, 47, 120]] = []"
    "split_key [117, 0x3B, 47, 97] = Some ([117], [47, 97])" "introspection_get prop_introspection [117] = None"
    by code_simp+
  have "ns_keys (kv_namespace (sd_prop prop_storage)) (map (\<lambda>k. ((PROPERTIES_NAMESPACE, k), [1])) lost_keys)
      = [[115, 0x3B, 47, 120]] @ [117, 0x3B, 47, 97] # [[100, 0x3B, 47, 98]]"
    by (simp add: lost_keys_def)
  from purge_message_loses_properties [where C = "\<lambda>m. m" and h = prop_storage and ks = "[[100, 0x3B, 47, 98]]",
      OF disk.reliable_store_axioms m(2) _ _ this e at rec(2)] m(1)
  show ?thesis by (auto simp: lost_keys_def)
qed

section \<open>The message with the properties of the server\<close>

text \<open>C20: Handling the purge message of the server ends, whatever the message and the store hold, and
  leaves exactly the stored properties that have a place: those of the device, and those of the server
  the message lists.  A property of the server that is not listed, or of an interface the device does
  not have, is gone, and the pairs of the other namespaces are untouched.  Only a message of
  delimiters alone is ignored.\<close>

theorem purge_terminates:
  assumes "reliable_store Z C" and "kv_stores Z C s al"
    and "sd_initialized h" and "valid_name (kv_namespace (sd_prop h))"
    and "\<forall>k\<in>set (ns_keys (kv_namespace (sd_prop h)) al). split_key k \<noteq> None"
  shows "\<exists>h' s'. astarte_device_properties_handle_purge Z introspection h bytes s = Some (h', s')
    \<and> kv_stores Z C s' (if bytes \<noteq> [] \<and> tokens (c_string bytes) = [] then al
        else purged introspection (tokens (c_string bytes)) (kv_namespace (sd_prop h)) al)"
proof -
  obtain R where "kv_rep Z C R s al" using assms(2) by (auto simp: kv_stores_def)
  from reliable_store.handle_purge_ok [OF assms(1) this assms(3-5)] show ?thesis
    unfolding kv_stores_def by blast
qed

lemma purge_terminates_witness:
  "\<exists>m h' m'. astarte_device_properties_handle_purge (disk_env (\<lambda>_. 0)) prop_introspection prop_storage [120, 0x3B] m = Some (h', m')
    \<and> kv_stores (disk_env (\<lambda>_. 0)) (\<lambda>m. m) m'
        [((PROPERTIES_NAMESPACE, [100, 0x3B, 47, 97]), [1]), ((PROPERTIES_NAMESPACE, [100, 0x3B, 47, 98, 99, 100]), [1])]"
proof -
  obtain m where m: "kv_stores (disk_env (\<lambda>_. 0)) (\<lambda>m. m) m demo_pairs" by (rule demo_stored)
  have e: "tokens (c_string [120, 0x3B]) = [[120]]" "list_all (\<lambda>k. split_key k \<noteq> None) demo_keys"
    "purged prop_introspection [[120]] PROPERTIES_NAMESPACE demo_pairs =
      [((PROPERTIES_NAMESPACE, [100, 0x3B, 47, 97]), [1]), ((PROPERTIES_NAMESPACE, [100, 0x3B, 47, 98, 99, 100]), [1])]"
    by code_simp+
  then have "\<forall>k\<in>set (ns_keys (kv_namespace (sd_prop prop_storage)) demo_pairs). split_key k \<noteq> None"
    unfolding demo_ns_keys by (simp add: list_all_iff)
  from purge_terminates [OF disk.reliable_store_axioms m _ _ this, of prop_introspection "[120, 0x3B]"] e
  show ?thesis by auto
qed

end
