(* ===== verification/Mqtt_Storage.thy ===== *)
theory Mqtt_Storage
  imports Storage_Trans KV_Direct
begin

text \<open>
  The storage of MQTT messages (storage/mqtt.c): one image per message under its 16-bit packet
  identifier, outgoing and incoming messages in the two name spaces of the direct storage.  The image
  is copied out without a look at its size: a read behind the end of the buffer is the outcome \<open>None\<close>.
\<close>

section \<open>Messages\<close>

datatype astarte_storage_mqtt_message_direction = STORAGE_MQTT_MSG_OUTGOING | STORAGE_MQTT_MSG_INCOMING

text \<open>The enumeration of the types, with every other value a stored image may hold.\<close>

datatype astarte_storage_mqtt_message_type =
    STORAGE_MQTT_SUBSCRIPTION_ENTRY
  | STORAGE_MQTT_PUBLISH_ENTRY
  | STORAGE_MQTT_PUBREC_ENTRY
  | STORAGE_MQTT_OTHER_ENTRY u32

fun mqtt_type_code :: "astarte_storage_mqtt_message_type \<Rightarrow> u32" where
  "mqtt_type_code STORAGE_MQTT_SUBSCRIPTION_ENTRY = 0"
| "mqtt_type_code STORAGE_MQTT_PUBLISH_ENTRY = 1"
| "mqtt_type_code STORAGE_MQTT_PUBREC_ENTRY = 2"
| "mqtt_type_code (STORAGE_MQTT_OTHER_ENTRY w) = w"

definition mqtt_type_of_code :: "u32 \<Rightarrow> astarte_storage_mqtt_message_type" where
  "mqtt_type_of_code w = (if w = 0 then STORAGE_MQTT_SUBSCRIPTION_ENTRY
     else if w = 1 then STORAGE_MQTT_PUBLISH_ENTRY
     else if w = 2 then STORAGE_MQTT_PUBREC_ENTRY else STORAGE_MQTT_OTHER_ENTRY w)"

text \<open>\<open>topic\<close> and \<open>data\<close> are \<open>None\<close> for \<open>NULL\<close>; \<open>data\<close> is the memory behind the pointer.\<close>

record mqtt_message =
  mm_type :: astarte_storage_mqtt_message_type
  mm_topic :: "byte list option"
  mm_data :: "byte list option"
  mm_data_size :: u32
  mm_qos :: u32

definition direction_to_alternate :: "astarte_storage_mqtt_message_direction \<Rightarrow> bool" where
  "direction_to_alternate direction \<longleftrightarrow> direction = STORAGE_MQTT_MSG_INCOMING"

definition mqtt_topic_len :: "mqtt_message \<Rightarrow> u32" where
  "mqtt_topic_len msg = (case mm_topic msg of None \<Rightarrow> 0 | Some topic \<Rightarrow> of_nat (strlen topic))"

text \<open>The four fields of fixed size, of four bytes each.\<close>

definition MQTT_FIXED_SIZE :: u32 where "MQTT_FIXED_SIZE = 16"

definition mqtt_total_size :: "mqtt_message \<Rightarrow> u32" where
  "mqtt_total_size msg = MQTT_FIXED_SIZE + mqtt_topic_len msg + mm_data_size msg"

text \<open>The bytes of the payload; a buffer of zeros stays as it is without data.\<close>

definition mqtt_payload :: "mqtt_message \<Rightarrow> byte list option" where
  "mqtt_payload msg = (case mm_data msg of
       None \<Rightarrow> Some (replicate (unat (mm_data_size msg)) 0)
     | Some d \<Rightarrow> if length d < unat (mm_data_size msg) then None else Some (take (unat (mm_data_size msg)) d))"

definition mqtt_image :: "mqtt_message \<Rightarrow> byte list option" where
  "mqtt_image msg = do {
     payload \<leftarrow> mqtt_payload msg;
     let buffer = le32 (mqtt_type_code (mm_type msg)) @ le32 (mm_qos msg) @ le32 (mqtt_topic_len msg)
       @ le32 (mm_data_size msg) @ (case mm_topic msg of None \<Rightarrow> [] | Some topic \<Rightarrow> c_string topic) @ payload;
     if length buffer > unat (mqtt_total_size msg) then None else Some buffer
   }"

definition astarte_storage_mqtt_insert ::
    "'s kv_env \<Rightarrow> astarte_storage_mqtt_message_direction \<Rightarrow> u16 \<Rightarrow> mqtt_message \<Rightarrow> 's
      \<Rightarrow> (astarte_result_t \<times> 's) option" where
  "astarte_storage_mqtt_insert Z direction identifier msg s =
     (if \<not> astarte_calloc (k_heap Z s) (unat (mqtt_total_size msg)) 1
      then Some (ASTARTE_RESULT_OUT_OF_MEMORY, s)
      else do {
        buffer \<leftarrow> mqtt_image msg;
        Some (direct_insert Z (direction_to_alternate direction) identifier (Some buffer) s)
      })"

section \<open>Reading back\<close>

text \<open>A field of \<open>n\<close> bytes that is allocated and copied when \<open>n\<close> is not zero.\<close>

definition read_field :: "(nat \<Rightarrow> bool) \<Rightarrow> byte list \<Rightarrow> u32 \<Rightarrow> u32 \<Rightarrow> u32 \<Rightarrow> byte list option outcome" where
  "read_field heap buffer offset n alloc =
     (if n = 0 then Some (Inr None)
      else if \<not> astarte_calloc heap (unat alloc) 1 then Some (Inl ASTARTE_RESULT_OUT_OF_MEMORY)
      else do { out \<leftarrow> read_buf buffer offset (unat n); Some (Inr (Some out)) })"

definition parse_mqtt :: "(nat \<Rightarrow> bool) \<Rightarrow> byte list \<Rightarrow> mqtt_message outcome" where
  "parse_mqtt heap buffer = do {
     t \<leftarrow> read_buf buffer 0 4;
     qos \<leftarrow> read_buf buffer 4 4;
     topic_len \<leftarrow> read_buf buffer 8 4;
     data_size \<leftarrow> read_buf buffer 12 4;
     let topic_len = get_le32 topic_len; data_size = get_le32 data_size in
     out_bind (read_field heap buffer MQTT_FIXED_SIZE topic_len (topic_len + 1)) (\<lambda>topic.
     out_bind (read_field heap buffer (MQTT_FIXED_SIZE + topic_len) data_size data_size) (\<lambda>bytes.
       Some (Inr \<lparr>mm_type = mqtt_type_of_code (get_le32 t), mm_topic = topic, mm_data = bytes,
         mm_data_size = data_size, mm_qos = get_le32 qos\<rparr>)))
   }"

definition astarte_storage_mqtt_find_alloc ::
    "'s kv_env \<Rightarrow> astarte_storage_mqtt_message_direction \<Rightarrow> u16 \<Rightarrow> 's \<Rightarrow> mqtt_message outcome" where
  "astarte_storage_mqtt_find_alloc Z direction identifier s =
     (case direct_find Z (direction_to_alternate direction) identifier None s of (ares, value_size, _) \<Rightarrow>
        if ares \<noteq> ASTARTE_RESULT_OK then Some (Inl ares)
        else if \<not> astarte_calloc (k_heap Z s) (the value_size) 1 then Some (Inl ASTARTE_RESULT_OUT_OF_MEMORY)
        else case direct_find Z (direction_to_alternate direction) identifier value_size s of (ares, _, buffer) \<Rightarrow>
          if ares \<noteq> ASTARTE_RESULT_OK then Some (Inl ares)
          else parse_mqtt (k_heap Z s) (fill_buf (the value_size) buffer))"

definition astarte_storage_mqtt_delete ::
    "'s kv_env \<Rightarrow> astarte_storage_mqtt_message_direction \<Rightarrow> u16 \<Rightarrow> 's \<Rightarrow> astarte_result_t \<times> 's" where
  "astarte_storage_mqtt_delete Z direction identifier s =
     direct_delete Z (direction_to_alternate direction) identifier s"

section \<open>Round trip\<close>

text \<open>The messages the client caches: strings without zero bytes, data of the stated size.\<close>

definition mqtt_valid :: "mqtt_message \<Rightarrow> bool" where
  "mqtt_valid msg \<longleftrightarrow> (\<forall>t. mm_topic msg = Some t \<longrightarrow> nul_free t \<and> t \<noteq> [])
     \<and> (case mm_data msg of None \<Rightarrow> mm_data_size msg = 0
        | Some d \<Rightarrow> length d = unat (mm_data_size msg))
     \<and> 17 + (case mm_topic msg of None \<Rightarrow> 0 | Some t \<Rightarrow> length t) + unat (mm_data_size msg) < 2 ^ 32
     \<and> (\<forall>w. mm_type msg \<noteq> STORAGE_MQTT_OTHER_ENTRY w)"

text \<open>What is read back: an empty payload is \<open>NULL\<close>.\<close>

definition mqtt_kept :: "mqtt_message \<Rightarrow> mqtt_message" where
  "mqtt_kept msg = (if mm_data_size msg = 0 then msg\<lparr>mm_data := None\<rparr> else msg)"

lemma mqtt_type_roundtrip: "mqtt_valid msg \<Longrightarrow> mqtt_type_of_code (mqtt_type_code (mm_type msg)) = mm_type msg"
  by (cases "mm_type msg") (auto simp: mqtt_type_of_code_def mqtt_valid_def)

lemma read_buf_mid:
  assumes "unat offset = length pre" and "n = length p"
  shows "read_buf (pre @ p @ post) offset n = Some p"
  using assms by (simp add: read_buf_def)

lemma read_field_mid:
  assumes "\<And>n. heap n" and "unat offset = length pre" and "unat n = length p" and "n \<noteq> 0 \<Longrightarrow> alloc \<noteq> 0"
  shows "read_field heap (pre @ p @ post) offset n alloc = Some (Inr (if n = 0 then None else Some p))"
  using assms read_buf_mid [of offset pre "length p" p post]
  by (auto simp: read_field_def astarte_calloc_def unat_eq_zero)

text \<open>The image of a valid message.\<close>

definition mqtt_topic :: "mqtt_message \<Rightarrow> byte list" where
  "mqtt_topic msg = (case mm_topic msg of None \<Rightarrow> [] | Some topic \<Rightarrow> topic)"

definition mqtt_bytes :: "mqtt_message \<Rightarrow> byte list" where
  "mqtt_bytes msg = (case mm_data msg of None \<Rightarrow> [] | Some d \<Rightarrow> d)"

definition mqtt_header :: "mqtt_message \<Rightarrow> byte list" where
  "mqtt_header msg = le32 (mqtt_type_code (mm_type msg)) @ le32 (mm_qos msg) @ le32 (mqtt_topic_len msg)
     @ le32 (mm_data_size msg)"

definition mqtt_record :: "mqtt_message \<Rightarrow> byte list" where
  "mqtt_record msg = mqtt_header msg @ mqtt_topic msg @ mqtt_bytes msg"

lemma length_mqtt_header [simp]: "length (mqtt_header msg) = 16"
  by (simp add: mqtt_header_def)

lemma mqtt_validD:
  assumes "mqtt_valid msg"
  shows "unat (mqtt_topic_len msg) = length (mqtt_topic msg)"
    and "unat (mm_data_size msg) = length (mqtt_bytes msg)"
    and "17 + length (mqtt_topic msg) + length (mqtt_bytes msg) < 2 ^ 32"
    and "mqtt_topic_len msg = 0 \<longleftrightarrow> mm_topic msg = None"
proof -
  show b: "unat (mm_data_size msg) = length (mqtt_bytes msg)"
    using assms by (auto simp: mqtt_valid_def mqtt_bytes_def split: option.splits)
  show l: "17 + length (mqtt_topic msg) + length (mqtt_bytes msg) < 2 ^ 32"
    using assms b by (auto simp: mqtt_valid_def mqtt_topic_def split: option.splits)
  show t: "unat (mqtt_topic_len msg) = length (mqtt_topic msg)"
  proof (cases "mm_topic msg")
    case (Some t)
    then have "length t < 2 ^ 32" using l by (simp add: mqtt_topic_def)
    then show ?thesis
      using assms Some unat_of_nat_u32 [of "length t"]
      by (simp add: mqtt_valid_def mqtt_topic_len_def mqtt_topic_def strlen_nul_free)
  qed (simp add: mqtt_topic_len_def mqtt_topic_def)
  show "mqtt_topic_len msg = 0 \<longleftrightarrow> mm_topic msg = None"
    using t assms unat_eq_zero [of "mqtt_topic_len msg"]
    by (auto simp: mqtt_valid_def mqtt_topic_def split: option.splits)
qed

lemma mqtt_total_valid:
  assumes "mqtt_valid msg"
  shows "unat (mqtt_total_size msg) = length (mqtt_record msg)"
proof -
  note v = mqtt_validD [OF assms]
  have "MQTT_FIXED_SIZE = of_nat 16" by (simp add: MQTT_FIXED_SIZE_def)
  moreover have "mqtt_topic_len msg = of_nat (length (mqtt_topic msg))" "mm_data_size msg = of_nat (length (mqtt_bytes msg))"
    using v(1,2) by (simp_all flip: v(1,2))
  ultimately have "mqtt_total_size msg = of_nat (16 + length (mqtt_topic msg) + length (mqtt_bytes msg))"
    by (simp add: mqtt_total_size_def)
  then show ?thesis
    using v(3) unat_of_nat_u32 [of "16 + length (mqtt_topic msg) + length (mqtt_bytes msg)"]
    by (simp add: mqtt_record_def del: of_nat_add)
qed

lemma mqtt_image_valid:
  assumes "mqtt_valid msg"
  shows "mqtt_image msg = Some (mqtt_record msg)"
proof -
  have "mqtt_payload msg = Some (mqtt_bytes msg)"
    using assms mqtt_validD(2) [OF assms] by (auto simp: mqtt_payload_def mqtt_valid_def mqtt_bytes_def split: option.splits)
  moreover have "(case mm_topic msg of None \<Rightarrow> [] | Some topic \<Rightarrow> c_string topic) = mqtt_topic msg"
    using assms by (auto simp: mqtt_valid_def mqtt_topic_def c_string_nul_free split: option.splits)
  ultimately show ?thesis
    using mqtt_total_valid [OF assms] by (simp add: mqtt_image_def mqtt_record_def mqtt_header_def)
qed

lemma parse_mqtt_record:
  assumes v: "mqtt_valid msg" and heap: "\<And>n. heap n"
  shows "parse_mqtt heap (mqtt_record msg) = Some (Inr (mqtt_kept msg))"
proof -
  note d = mqtt_validD [OF v]
  let ?t = "mqtt_topic msg" and ?d = "mqtt_bytes msg"
  have fields: "read_buf (mqtt_record msg) 0 4 = Some (le32 (mqtt_type_code (mm_type msg)))"
    "read_buf (mqtt_record msg) 4 4 = Some (le32 (mm_qos msg))"
    "read_buf (mqtt_record msg) 8 4 = Some (le32 (mqtt_topic_len msg))"
    "read_buf (mqtt_record msg) 12 4 = Some (le32 (mm_data_size msg))"
    by (simp_all add: read_buf_def mqtt_record_def mqtt_header_def)
  have t1: "mqtt_topic_len msg + 1 \<noteq> 0"
  proof
    assume "mqtt_topic_len msg + 1 = 0"
    then have "mqtt_topic_len msg = - 1" by (simp add: eq_neg_iff_add_eq_0)
    moreover have "unat (- 1 :: u32) = 4294967295" by (simp add: unsigned_minus_1_eq_mask mask_eq_exp_minus_1)
    ultimately show False using d(1,3) by simp
  qed
  have f1: "read_field heap (mqtt_record msg) MQTT_FIXED_SIZE (mqtt_topic_len msg) (mqtt_topic_len msg + 1)
      = Some (Inr (mm_topic msg))"
    using read_field_mid [where heap = heap and offset = MQTT_FIXED_SIZE and pre = "mqtt_header msg" and n = "mqtt_topic_len msg"
        and p = ?t and alloc = "mqtt_topic_len msg + 1" and post = ?d, OF heap]
      d(1,4) t1
    by (auto simp: mqtt_record_def MQTT_FIXED_SIZE_def mqtt_topic_def split: option.splits)
  have o: "unat (MQTT_FIXED_SIZE + mqtt_topic_len msg) = length (mqtt_header msg @ ?t)"
    using d(1,3) by (simp add: MQTT_FIXED_SIZE_def unat_word_ariths)
  have f2: "read_field heap (mqtt_record msg) (MQTT_FIXED_SIZE + mqtt_topic_len msg) (mm_data_size msg) (mm_data_size msg)
      = Some (Inr (if mm_data_size msg = 0 then None else Some ?d))"
    using read_field_mid [where heap = heap and p = ?d and post = "[]" and alloc = "mm_data_size msg", OF heap o d(2)] by (simp add: mqtt_record_def)
  have "(if mm_data_size msg = 0 then None else Some ?d) = mm_data (mqtt_kept msg)"
    using v by (auto simp: mqtt_valid_def mqtt_kept_def mqtt_bytes_def split: option.splits)
  then show ?thesis
    using fields f1 f2 mqtt_type_roundtrip [OF v] by (simp add: parse_mqtt_def Let_def out_bind_def mqtt_kept_def)
qed

context reliable_store begin

lemma mqtt_insert_ok:
  assumes kr: "kv_rep Z C R s al" and v: "mqtt_valid msg"
  obtains s' where "astarte_storage_mqtt_insert Z direction i msg s = Some (ASTARTE_RESULT_OK, s')"
    "kv_rep Z C (R(full_key (direction_to_alternate direction) i \<mapsto> mqtt_record msg)) s' al"
proof -
  have "mqtt_record msg \<noteq> []" by (simp add: mqtt_record_def mqtt_header_def)
  from direct_insert_ok [OF kr this] obtain s' where
    "direct_insert Z (direction_to_alternate direction) i (Some (mqtt_record msg)) s = (ASTARTE_RESULT_OK, s')"
    "kv_rep Z C (R(full_key (direction_to_alternate direction) i \<mapsto> mqtt_record msg)) s' al" .
  then show thesis
    using that mqtt_image_valid [OF v] mqtt_total_valid [OF v] heap_ok
    by (simp add: astarte_storage_mqtt_insert_def astarte_calloc_def mqtt_record_def)
qed

lemma mqtt_find_ok:
  assumes kr: "kv_rep Z C R s al"
  shows "astarte_storage_mqtt_find_alloc Z direction i s = (case R (full_key (direction_to_alternate direction) i) of
      None \<Rightarrow> Some (Inl ASTARTE_RESULT_NOT_FOUND)
    | Some v \<Rightarrow> if v = [] then Some (Inl ASTARTE_RESULT_OUT_OF_MEMORY) else parse_mqtt (k_heap Z s) v)"
  using direct_size_ok [OF kr, of "direction_to_alternate direction" i]
    direct_find_ok [OF kr, of "direction_to_alternate direction" i] heap_ok
  by (auto simp: astarte_storage_mqtt_find_alloc_def astarte_calloc_def split: option.splits)

lemma mqtt_delete_ok:
  assumes kr: "kv_rep Z C R s al"
  obtains s' where "astarte_storage_mqtt_delete Z direction i s = (ASTARTE_RESULT_OK, s')"
    "kv_rep Z C (R(full_key (direction_to_alternate direction) i := None)) s' al"
  using direct_delete_ok [OF kr] that by (auto simp: astarte_storage_mqtt_delete_def)

end

end
