(* ===== verification/Mqtt_Caching.thy ===== *)
theory Mqtt_Caching
  imports Mqtt_Storage
begin

text \<open>
  The cache of the MQTT messages in flight (mqtt/caching.c): a hash map from packet identifiers to
  messages with the end of their validity, and a copy of every message in the permanent storage.

  The hash map of the kernel is a map.  What the kernel leaves open is in the environment: whether there
  is room for a further key, and the order of an iteration.  The entries belong to the map alone, so a
  write through the pointer to an entry is an update of the map.  A timepoint is a time in
  milliseconds, and one that is not in the future has expired.
\<close>

section \<open>The cache\<close>

record 's mqtt_env =
  mq_kv :: "'s kv_env"
  mq_room :: "u16 set \<Rightarrow> bool"
  mq_order :: "u16 set \<Rightarrow> u16 list"
  mq_now :: "'s \<Rightarrow> nat"
  mq_keepalive :: nat

record map_entry =
  me_end_of_validity :: nat
  me_message :: mqtt_message

record mqtt_caching =
  mc_map :: "u16 \<rightharpoonup> map_entry"
  mc_direction :: astarte_storage_mqtt_message_direction

definition sizeof_map_entry :: nat where "sizeof_map_entry = 32"

text \<open>\<open>sys_timepoint_calc(K_SECONDS(...))\<close> and \<open>sys_timepoint_calc(K_NO_WAIT)\<close>.\<close>

definition validity_end :: "'s mqtt_env \<Rightarrow> 's \<Rightarrow> nat" where
  "validity_end E s = mq_now E s + 1000 * mq_keepalive E"

definition no_wait :: nat where "no_wait = 0"

section \<open>Identifiers\<close>

text \<open>\<open>last_message_id\<close> is a static variable: the argument is its value, the result its new one.\<close>

definition next_message_id :: "u16 \<Rightarrow> u16" where
  "next_message_id last_message_id = (if last_message_id = 0xFFFF then 0 else last_message_id) + 1"

partial_function (option) message_id_loop :: "(u16 \<rightharpoonup> map_entry) \<Rightarrow> u16 \<Rightarrow> u16 option" where
  "message_id_loop m last_message_id =
     (let last_message_id = next_message_id last_message_id in
      if m last_message_id \<noteq> None then message_id_loop m last_message_id else Some last_message_id)"

definition astarte_mqtt_caching_get_available_message_id :: "mqtt_caching \<Rightarrow> u16 \<Rightarrow> u16 option" where
  "astarte_mqtt_caching_get_available_message_id caching last_message_id =
     message_id_loop (mc_map caching) last_message_id"

section \<open>Operations\<close>

text \<open>The copy of a message: \<open>None\<close> when the data is shorter than its size says.\<close>

definition copy_message :: "(nat \<Rightarrow> bool) \<Rightarrow> mqtt_message \<Rightarrow> mqtt_message outcome" where
  "copy_message heap message =
     (if (case mm_topic message of None \<Rightarrow> False | Some topic \<Rightarrow> \<not> astarte_calloc heap (strlen topic + 1) 1)
      then Some (Inl ASTARTE_RESULT_OUT_OF_MEMORY)
      else
        let msg = message\<lparr>mm_topic := map_option c_string (mm_topic message), mm_data := None\<rparr> in
        (case mm_data message of
           None \<Rightarrow> Some (Inr msg)
         | Some d \<Rightarrow>
             if mm_data_size message = 0 then Some (Inr msg)
             else if \<not> astarte_calloc heap (unat (mm_data_size message)) 1
             then Some (Inl ASTARTE_RESULT_OUT_OF_MEMORY)
             else if length d < unat (mm_data_size message) then None
             else Some (Inr (msg\<lparr>mm_data := Some (take (unat (mm_data_size message)) d)\<rparr>))))"

definition astarte_mqtt_caching_insert_message ::
    "'s mqtt_env \<Rightarrow> mqtt_caching \<Rightarrow> u16 \<Rightarrow> mqtt_message \<Rightarrow> 's \<Rightarrow> (mqtt_caching \<times> 's) option" where
  "astarte_mqtt_caching_insert_message E caching identifier message s =
     (if mc_map caching identifier \<noteq> None then Some (caching, s)
      else if \<not> astarte_calloc (k_heap (mq_kv E) s) 1 sizeof_map_entry then Some (caching, s)
      else do {
        r \<leftarrow> copy_message (k_heap (mq_kv E) s) message;
        case r of Inl ares \<Rightarrow> Some (caching, s)
        | Inr msg \<Rightarrow>
            if \<not> mq_room E (dom (mc_map caching)) then Some (caching, s)
            else do {
              (ares, s') \<leftarrow> astarte_storage_mqtt_insert (mq_kv E) (mc_direction caching) identifier message s;
              Some (caching\<lparr>mc_map := (mc_map caching)
                (identifier \<mapsto> \<lparr>me_end_of_validity = validity_end E s, me_message = msg\<rparr>)\<rparr>, s')
            }
      })"

definition astarte_mqtt_caching_find_message :: "mqtt_caching \<Rightarrow> u16 \<Rightarrow> bool" where
  "astarte_mqtt_caching_find_message caching message_id \<longleftrightarrow> mc_map caching message_id \<noteq> None"

text \<open>The result holds the calls of the retransmission callback, in their order.\<close>

primrec expiry_loop ::
    "'s mqtt_env \<Rightarrow> 's \<Rightarrow> u16 list \<Rightarrow> (u16 \<rightharpoonup> map_entry) \<Rightarrow> (u16 \<rightharpoonup> map_entry) \<times> (u16 \<times> mqtt_message) list" where
  "expiry_loop E s [] m = (m, [])"
| "expiry_loop E s (message_id # iter) m =
     (case m message_id of
        None \<Rightarrow> expiry_loop E s iter m
      | Some map_entry \<Rightarrow>
          if me_end_of_validity map_entry \<le> mq_now E s then
            (case expiry_loop E s iter (m(message_id \<mapsto> map_entry\<lparr>me_end_of_validity := validity_end E s\<rparr>)) of
               (m, resent) \<Rightarrow> (m, (message_id, me_message map_entry) # resent))
          else expiry_loop E s iter m)"

definition astarte_mqtt_caching_check_message_expiry ::
    "'s mqtt_env \<Rightarrow> mqtt_caching \<Rightarrow> 's \<Rightarrow> mqtt_caching \<times> (u16 \<times> mqtt_message) list" where
  "astarte_mqtt_caching_check_message_expiry E caching s =
     (case expiry_loop E s (mq_order E (dom (mc_map caching))) (mc_map caching) of (m, resent) \<Rightarrow>
        (caching\<lparr>mc_map := m\<rparr>, resent))"

definition astarte_mqtt_caching_update_message_expiry ::
    "'s mqtt_env \<Rightarrow> mqtt_caching \<Rightarrow> u16 \<Rightarrow> 's \<Rightarrow> mqtt_caching" where
  "astarte_mqtt_caching_update_message_expiry E caching message_id s =
     (case mc_map caching message_id of
        None \<Rightarrow> caching
      | Some map_entry \<Rightarrow> caching\<lparr>mc_map := (mc_map caching)
          (message_id \<mapsto> map_entry\<lparr>me_end_of_validity := validity_end E s\<rparr>)\<rparr>)"

definition astarte_mqtt_caching_remove_message ::
    "'s mqtt_env \<Rightarrow> mqtt_caching \<Rightarrow> u16 \<Rightarrow> 's \<Rightarrow> mqtt_caching \<times> 's" where
  "astarte_mqtt_caching_remove_message E caching message_id s =
     (if mc_map caching message_id = None then (caching, s)
      else case astarte_storage_mqtt_delete (mq_kv E) (mc_direction caching) message_id s of (ares, s) \<Rightarrow>
        (caching\<lparr>mc_map := (mc_map caching)(message_id := None)\<rparr>, s))"

primrec clear_loop :: "'s mqtt_env \<Rightarrow> mqtt_caching \<Rightarrow> u16 list \<Rightarrow> 's \<Rightarrow> 's" where
  "clear_loop E caching [] s = s"
| "clear_loop E caching (message_id # iter) s =
     (case astarte_storage_mqtt_delete (mq_kv E) (mc_direction caching) message_id s of (ares, s) \<Rightarrow>
        clear_loop E caching iter s)"

definition astarte_mqtt_caching_clear_messages :: "'s mqtt_env \<Rightarrow> mqtt_caching \<Rightarrow> 's \<Rightarrow> mqtt_caching \<times> 's" where
  "astarte_mqtt_caching_clear_messages E caching s =
     (let s = clear_loop E caching (mq_order E (dom (mc_map caching))) s in
      (caching\<lparr>mc_map := Map.empty\<rparr>, s))"

text \<open>
  One turn of the restoration.  For an identifier that is already in the map, the hash map replaces the
  entry and the function frees the new one: the map is left with a dangling pointer, \<open>None\<close>.
\<close>

definition restore_message :: "'s mqtt_env \<Rightarrow> u16 \<Rightarrow> 's \<Rightarrow> mqtt_caching \<Rightarrow> mqtt_caching option" where
  "restore_message E message_id s caching = do {
     r \<leftarrow> astarte_storage_mqtt_find_alloc (mq_kv E) (mc_direction caching) message_id s;
     case r of Inl ares \<Rightarrow> Some caching
     | Inr message \<Rightarrow>
         if \<not> astarte_calloc (k_heap (mq_kv E) s) 1 sizeof_map_entry then Some caching
         else if mc_map caching message_id \<noteq> None then None
         else if \<not> mq_room E (dom (mc_map caching)) then Some caching
         else Some (caching\<lparr>mc_map := (mc_map caching)
           (message_id \<mapsto> \<lparr>me_end_of_validity = no_wait, me_message = message\<rparr>)\<rparr>)
   }"

primrec restore_loop :: "'s mqtt_env \<Rightarrow> u16 list \<Rightarrow> 's \<Rightarrow> mqtt_caching \<Rightarrow> mqtt_caching option" where
  "restore_loop E [] s caching = Some caching"
| "restore_loop E (i # is) s caching = do { caching \<leftarrow> restore_message E i s caching; restore_loop E is s caching }"

definition message_ids :: "u16 list" where
  "message_ids = map of_nat [1..<65536]"

definition astarte_mqtt_caching_restore_from_flash :: "'s mqtt_env \<Rightarrow> 's \<Rightarrow> mqtt_caching \<Rightarrow> mqtt_caching option" where
  "astarte_mqtt_caching_restore_from_flash E s caching = restore_loop E message_ids s caching"

definition astarte_mqtt_caching_init ::
    "'s mqtt_env \<Rightarrow> astarte_storage_mqtt_message_direction \<Rightarrow> 's \<Rightarrow> mqtt_caching option" where
  "astarte_mqtt_caching_init E direction s =
     astarte_mqtt_caching_restore_from_flash E s \<lparr>mc_map = Map.empty, mc_direction = direction\<rparr>"

section \<open>Identifiers are found\<close>

lemma next_message_id_nonzero: "next_message_id i \<noteq> 0"
proof
  assume n: "next_message_id i = 0"
  then have i: "i \<noteq> 0xFFFF" by (auto simp: next_message_id_def)
  with n have "i = - 1" by (simp add: next_message_id_def eq_neg_iff_add_eq_0)
  with i show False by simp
qed

lemma unat_next_message_id:
  "unat (next_message_id i) = (if unat i = 65535 then 1 else Suc (unat i))"
proof (cases "i = 0xFFFF")
  case False
  then have "unat i \<noteq> unat (0xFFFF :: u16)" using word_unat_eq_iff [of i "0xFFFF"] by blast
  moreover have "unat i < 65536" using unsigned_less [of i] by simp
  ultimately show ?thesis using False by (simp add: next_message_id_def unat_word_ariths)
qed (simp add: next_message_id_def)

text \<open>The number of turns from \<open>i\<close> to \<open>j\<close>.\<close>

definition id_distance :: "u16 \<Rightarrow> u16 \<Rightarrow> nat" where
  "id_distance i j = (if unat i < unat j then unat j - unat i else 65535 - unat i + unat j)"

lemma id_distance_next:
  assumes "j \<noteq> 0" and "next_message_id i \<noteq> j"
  shows "id_distance (next_message_id i) j < id_distance i j"
proof -
  have "unat j \<noteq> 0" using assms(1) by (simp add: unat_eq_zero)
  moreover have "unat (next_message_id i) \<noteq> unat j" using assms(2) by (simp add: word_unat_eq_iff)
  moreover have "unat i < 65536" "unat j < 65536" using unsigned_less [of i] unsigned_less [of j] by simp_all
  ultimately show ?thesis
    unfolding id_distance_def unat_next_message_id by (auto split: if_splits)
qed

lemma message_id_found:
  assumes "j \<noteq> 0" and "m j = None"
  shows "\<exists>i. message_id_loop m l = Some i"
proof (induction "id_distance l j" arbitrary: l rule: less_induct)
  case less
  show ?case
  proof (cases "m (next_message_id l) = None")
    case True
    then show ?thesis by (subst message_id_loop.simps) (simp add: Let_def)
  next
    case False
    then have "next_message_id l \<noteq> j" using assms(2) by auto
    from less [OF id_distance_next [OF assms(1) this]] show ?thesis
      using False by (subst message_id_loop.simps) (simp add: Let_def)
  qed
qed

lemma message_id_free:
  assumes "message_id_loop m l = Some i"
  shows "i \<noteq> 0 \<and> m i = None"
proof (rule message_id_loop.raw_induct [where P = "\<lambda>m l i. i \<noteq> 0 \<and> m i = None", OF _ assms])
  fix loop m l i
  assume "\<And>m l i. loop m l = Some i \<Longrightarrow> i \<noteq> 0 \<and> m i = None"
    and "(let last_message_id = next_message_id l in
      if m last_message_id \<noteq> None then loop m last_message_id else Some last_message_id) = Some i"
  then show "i \<noteq> 0 \<and> m i = None"
    using next_message_id_nonzero [of l] by (cases "m (next_message_id l) = None") (auto simp: Let_def)
qed

lemma message_id_iff: "(\<exists>i. message_id_loop m l = Some i) \<longleftrightarrow> (\<exists>j. j \<noteq> 0 \<and> m j = None)"
  using message_id_free message_id_found by blast

end
