(* ===== verification/Backoff.thy ===== *)
theory Backoff
  imports Prelude
begin

text \<open>
  The delays between two attempts to connect (backoff.c): an exponential curve with a cut-off and a
  jitter.  The random number of a call, \<open>sys_rand32_get()\<close>, is an argument.
\<close>

record backoff_context =
  mul_coeff :: u32
  cutoff_coeff :: u32
  prev_delay :: u32

definition EINVAL :: int where "EINVAL = 22"

definition backoff_init :: "backoff_context \<Rightarrow> u32 \<Rightarrow> u32 \<Rightarrow> int \<times> backoff_context" where
  "backoff_init backoff mul cutoff =
     (if mul = 0 \<or> cutoff = 0 \<or> cutoff < mul then (- EINVAL, backoff)
      else (0, \<lparr>mul_coeff = mul, cutoff_coeff = cutoff, prev_delay = 0\<rparr>))"

text \<open>The curve, before the jitter.\<close>

definition max_allowed_final_delay :: "backoff_context \<Rightarrow> u32" where
  "max_allowed_final_delay backoff = 0xFFFFFFFF - mul_coeff backoff"

definition bounded_delay :: "backoff_context \<Rightarrow> u32" where
  "bounded_delay backoff =
     (let delay = (if prev_delay backoff = 0 then mul_coeff backoff
        else if prev_delay backoff \<le> max_allowed_final_delay backoff div 2 then 2 * prev_delay backoff
        else max_allowed_final_delay backoff) in
      min delay (cutoff_coeff backoff))"

definition backoff_get_next_delay :: "backoff_context \<Rightarrow> u32 \<Rightarrow> u32 \<times> backoff_context" where
  "backoff_get_next_delay backoff random =
     (let bounded = bounded_delay backoff;
          lower_bound = (if bounded > mul_coeff backoff then bounded - mul_coeff backoff else 0);
          upper_bound = (if bounded < max_allowed_final_delay backoff then bounded + mul_coeff backoff
            else 0xFFFFFFFF);
          jitter_range = upper_bound - lower_bound;
          final_delay = (if jitter_range = 0xFFFFFFFF then random
            else if jitter_range > 0 then lower_bound + random mod (jitter_range + 1)
            else bounded) in
      (final_delay, backoff\<lparr>prev_delay := bounded\<rparr>))"

definition backoff_reset :: "backoff_context \<Rightarrow> backoff_context" where
  "backoff_reset backoff = backoff\<lparr>prev_delay := 0\<rparr>"

text \<open>The delays of a series of calls with these random numbers.\<close>

primrec backoff_delays :: "backoff_context \<Rightarrow> u32 list \<Rightarrow> u32 list" where
  "backoff_delays backoff [] = []"
| "backoff_delays backoff (random # randoms) = (case backoff_get_next_delay backoff random of (d, backoff) \<Rightarrow>
     d # backoff_delays backoff randoms)"

section \<open>The documented formula\<close>

definition curve :: "nat \<Rightarrow> nat \<Rightarrow> nat \<Rightarrow> nat" where
  "curve mul cutoff k = min (mul * 2 ^ k) cutoff"

text \<open>Before call number \<open>k\<close>.\<close>

definition backoff_at :: "nat \<Rightarrow> backoff_context \<Rightarrow> bool" where
  "backoff_at k b \<longleftrightarrow> 0 < unat (mul_coeff b) \<and> unat (mul_coeff b) \<le> unat (cutoff_coeff b)
     \<and> unat (cutoff_coeff b) + unat (mul_coeff b) < 2 ^ 32
     \<and> unat (prev_delay b) = (case k of 0 \<Rightarrow> 0 | Suc j \<Rightarrow> curve (unat (mul_coeff b)) (unat (cutoff_coeff b)) j)"

lemma curve_Suc: "curve mul cutoff (Suc k) = min (2 * curve mul cutoff k) cutoff"
  by (simp add: curve_def min_def)

lemma curve_pos: "0 < mul \<Longrightarrow> mul \<le> cutoff \<Longrightarrow> 0 < curve mul cutoff k"
  by (simp add: curve_def)

lemma curve_0: "mul \<le> cutoff \<Longrightarrow> curve mul cutoff 0 = mul"
  by (simp add: curve_def)

lemma curve_le: "curve mul cutoff k \<le> cutoff"
  by (simp add: curve_def)

lemma curve_ge: "mul \<le> cutoff \<Longrightarrow> mul \<le> curve mul cutoff k"
  by (simp add: curve_def)

lemma unat_u32_bound: "unat (w :: u32) < 4294967296"
  using unsigned_less [of w] by simp

lemma unat_max_allowed: "unat (max_allowed_final_delay b) = 4294967295 - unat (mul_coeff b)"
proof -
  have "mul_coeff b \<le> 0xFFFFFFFF" using unat_u32_bound [of "mul_coeff b"] by (simp add: word_le_nat_alt)
  then show ?thesis by (simp add: max_allowed_final_delay_def unat_sub)
qed

lemma unat_min: "unat (min a b :: u32) = min (unat a) (unat b)"
  by (simp add: min_def word_le_nat_alt)

lemma unat_bounded_delay:
  assumes "backoff_at k b"
  shows "unat (bounded_delay b) = curve (unat (mul_coeff b)) (unat (cutoff_coeff b)) k"
proof -
  let ?m = "unat (mul_coeff b)" and ?c = "unat (cutoff_coeff b)"
  have mc: "0 < ?m" "?m \<le> ?c" "?c + ?m < 4294967296" using assms by (simp_all add: backoff_at_def)
  show ?thesis
  proof (cases k)
    case 0
    then have "prev_delay b = 0" using assms by (simp add: backoff_at_def unat_eq_zero)
    then show ?thesis using mc 0 by (simp add: bounded_delay_def unat_min curve_0)
  next
    case (Suc j)
    let ?p = "unat (prev_delay b)"
    have p: "?p = curve ?m ?c j" using assms Suc by (simp add: backoff_at_def)
    then have "prev_delay b \<noteq> 0" using curve_pos [OF mc(1,2), of j] by auto
    moreover have "prev_delay b \<le> max_allowed_final_delay b div 2 \<longleftrightarrow> ?p \<le> (4294967295 - ?m) div 2"
      by (simp add: word_le_nat_alt unat_div unat_max_allowed)
    moreover have "unat (2 * prev_delay b) = 2 * ?p" if "?p \<le> (4294967295 - ?m) div 2"
      using that by (simp add: unat_word_ariths)
    ultimately show ?thesis
      using mc by (auto simp: bounded_delay_def unat_min unat_max_allowed Suc curve_Suc p [symmetric])
  qed
qed

lemma next_delay_ok:
  assumes at: "backoff_at k b" and d: "backoff_get_next_delay b random = (d, b')"
  shows "backoff_at (Suc k) b'" "mul_coeff b' = mul_coeff b" "cutoff_coeff b' = cutoff_coeff b"
    and "curve (unat (mul_coeff b)) (unat (cutoff_coeff b)) k - unat (mul_coeff b) \<le> unat d"
    and "unat d \<le> curve (unat (mul_coeff b)) (unat (cutoff_coeff b)) k + unat (mul_coeff b)"
proof -
  let ?m = "unat (mul_coeff b)" and ?c = "unat (cutoff_coeff b)" and ?b = "bounded_delay b"
  let ?k = "curve ?m ?c k"
  have mc: "0 < ?m" "?m \<le> ?c" "?c + ?m < 4294967296" using at by (simp_all add: backoff_at_def)
  note bd = unat_bounded_delay [OF at]
  have k: "?m \<le> ?k" "?k \<le> ?c" using curve_ge [OF mc(2)] curve_le by auto
  show "backoff_at (Suc k) b'" "mul_coeff b' = mul_coeff b" "cutoff_coeff b' = cutoff_coeff b"
    using at d bd by (auto simp: backoff_get_next_delay_def backoff_at_def Let_def)
  define l where "l = (if ?b > mul_coeff b then ?b - mul_coeff b else 0)"
  define u where "u = (if ?b < max_allowed_final_delay b then ?b + mul_coeff b else 0xFFFFFFFF)"
  have l: "unat l = ?k - ?m" using k bd by (auto simp: l_def unat_sub word_less_nat_alt word_le_nat_alt)
  have u: "unat u = ?k + ?m"
    using k mc bd by (auto simp: u_def word_less_nat_alt unat_max_allowed unat_word_ariths)
  have lu: "l \<le> u" using l u by (simp add: word_le_nat_alt)
  have r: "unat (u - l) = 2 * ?m" using l u k by (simp add: unat_sub [OF lu])
  have "2 * ?m < 4294967295"
  proof -
    have "2 * ?m \<noteq> 4294967295" by presburger
    then show ?thesis using mc by simp
  qed
  then have r1: "unat (u - l + 1) = 2 * ?m + 1" using r by (simp add: unat_word_ariths)
  have "u - l \<noteq> 0xFFFFFFFF"
  proof
    assume "u - l = 0xFFFFFFFF"
    then have "2 * ?m = 4294967295" using r by simp
    then show False by presburger
  qed
  moreover have "u - l > 0" using r mc by (simp add: word_less_nat_alt)
  ultimately have d': "d = l + random mod (u - l + 1)"
    using d by (simp add: backoff_get_next_delay_def Let_def l_def [symmetric] u_def [symmetric])
  have "unat (random mod (u - l + 1)) \<le> 2 * ?m" using r1 by (simp add: unat_mod less_Suc_eq_le [symmetric])
  then show "?k - ?m \<le> unat d" "unat d \<le> ?k + ?m"
    using l k mc by (simp_all add: d' unat_word_ariths)
qed

lemma delays_ok:
  assumes "backoff_at k b" and "j < length randoms"
  shows "curve (unat (mul_coeff b)) (unat (cutoff_coeff b)) (k + j) - unat (mul_coeff b) \<le> unat (backoff_delays b randoms ! j)
    \<and> unat (backoff_delays b randoms ! j) \<le> curve (unat (mul_coeff b)) (unat (cutoff_coeff b)) (k + j) + unat (mul_coeff b)"
  using assms
proof (induction randoms arbitrary: k j b)
  case (Cons r randoms)
  obtain d b' where d: "backoff_get_next_delay b r = (d, b')" by force
  note n = next_delay_ok [OF Cons.prems(1) d]
  show ?case
  proof (cases j)
    case 0
    then show ?thesis using n(4,5) d by simp
  next
    case (Suc i)
    then show ?thesis using Cons.IH [OF n(1), of i] Cons.prems(2) n(2,3) d by simp
  qed
qed simp

text \<open>C32: Every delay is within one multiplier of the exponential curve that doubles from the
  multiplier and stops at the cut-off, whatever the random numbers, as long as the sum of the two
  coefficients is a 32-bit number.\<close>

theorem backoff_within_formula:
  assumes "backoff_init b mul cutoff = (0, b')" and "unat cutoff + unat mul < 2 ^ 32" and "k < length randoms"
  shows "min (unat mul * 2 ^ k) (unat cutoff) - unat mul \<le> unat (backoff_delays b' randoms ! k)
    \<and> unat (backoff_delays b' randoms ! k) \<le> min (unat mul * 2 ^ k) (unat cutoff) + unat mul"
proof -
  have "backoff_at 0 b'" "mul_coeff b' = mul" "cutoff_coeff b' = cutoff"
    using assms(1,2) by (auto simp: backoff_init_def backoff_at_def EINVAL_def word_less_nat_alt unat_gt_0 split: if_splits)
  from delays_ok [OF this(1) assms(3)] this(2,3) show ?thesis by (simp add: curve_def)
qed

lemma backoff_within_formula_witness:
  "\<exists>b'. backoff_init \<lparr>mul_coeff = 0, cutoff_coeff = 0, prev_delay = 0\<rparr> 1000 60000 = (0, b')
    \<and> unat (backoff_delays b' [5, 7, 9] ! 2) \<le> 5000"
proof -
  define b' :: backoff_context where "b' = \<lparr>mul_coeff = 1000, cutoff_coeff = 60000, prev_delay = 0\<rparr>"
  have "backoff_init \<lparr>mul_coeff = 0, cutoff_coeff = 0, prev_delay = 0\<rparr> 1000 60000 = (0, b')"
    by (simp add: backoff_init_def b'_def)
  moreover from backoff_within_formula [OF this, of 2 "[5, 7, 9]"]
  have "unat (backoff_delays b' [5, 7, 9] ! 2) \<le> 5000" by simp
  ultimately show ?thesis by blast
qed

end
