(* ===== verification/Mqtt_Client.thy ===== *)
theory Mqtt_Client
  imports Mqtt_Caching Backoff
begin

text \<open>
  The MQTT client of the SDK (mqtt/core.c, mqtt/events.c, mqtt/pubsub.c) on top of the MQTT library of
  Zephyr.  The calls that transmit a packet are recorded in \<open>am_packets\<close>: their return codes are only
  logged.  What the library, the resolver and the socket answer is an argument of the operation that
  asks, with the events the library raises during the call.

  The callbacks of the client are one function \<open>cb\<close> on the state \<open>'d\<close> of the device and on the state of
  the system, called with a notice; each is the last thing its handler does.
\<close>

section \<open>State\<close>

datatype astarte_mqtt_connection_states_t =
    ASTARTE_MQTT_DISCONNECTED
  | ASTARTE_MQTT_CONNECTING
  | ASTARTE_MQTT_CONNECTED
  | ASTARTE_MQTT_DISCONNECTING
  | ASTARTE_MQTT_CONNECTION_ERROR

text \<open>The packets: topic, data, its size, quality of service, identifier, duplicate flag.\<close>

datatype mqtt_packet =
    PktPublish "byte list" "byte list option" u32 u32 u16 bool
  | PktSubscribe "byte list" u32 u16
  | PktPuback u16
  | PktPubrec u16
  | PktPubrel u16
  | PktPubcomp u16

text \<open>A timepoint that may be infinitely far, \<open>None\<close>.  \<open>am_last_message_id\<close> is the static variable.\<close>

record astarte_mqtt =
  am_connection_timepoint :: "nat option"
  am_reconnection_timepoint :: nat
  am_backoff :: backoff_context
  am_connection_state :: astarte_mqtt_connection_states_t
  am_out_msgs :: mqtt_caching
  am_in_msgs :: mqtt_caching
  am_last_message_id :: u16
  am_packets :: "mqtt_packet list"

definition send_packet :: "mqtt_packet \<Rightarrow> astarte_mqtt \<Rightarrow> astarte_mqtt" where
  "send_packet p m = m\<lparr>am_packets := am_packets m @ [p]\<rparr>"

text \<open>The configuration of the client.\<close>

record mqtt_config =
  mf_connection_timeout_ms :: nat
  mf_backoff_mult :: u32
  mf_backoff_cutoff :: u32
  mf_max_msg_size :: nat

definition expired :: "'s mqtt_env \<Rightarrow> 's \<Rightarrow> nat option \<Rightarrow> bool" where
  "expired E s timepoint \<longleftrightarrow> (case timepoint of None \<Rightarrow> False | Some t \<Rightarrow> t \<le> mq_now E s)"

definition reset_backoff :: "mqtt_config \<Rightarrow> backoff_context \<Rightarrow> backoff_context" where
  "reset_backoff cfg b = snd (backoff_init b (mf_backoff_mult cfg) (mf_backoff_cutoff cfg))"

definition zero_backoff :: backoff_context where
  "zero_backoff = \<lparr>mul_coeff = 0, cutoff_coeff = 0, prev_delay = 0\<rparr>"

definition astarte_mqtt_init :: "'s mqtt_env \<Rightarrow> mqtt_config \<Rightarrow> u16 \<Rightarrow> 's \<Rightarrow> astarte_mqtt option" where
  "astarte_mqtt_init E cfg last_message_id s = do {
     out_msgs \<leftarrow> astarte_mqtt_caching_init E STORAGE_MQTT_MSG_OUTGOING s;
     in_msgs \<leftarrow> astarte_mqtt_caching_init E STORAGE_MQTT_MSG_INCOMING s;
     Some \<lparr>am_connection_timepoint = None, am_reconnection_timepoint = no_wait,
       am_backoff = reset_backoff cfg zero_backoff, am_connection_state = ASTARTE_MQTT_DISCONNECTED,
       am_out_msgs = out_msgs, am_in_msgs = in_msgs, am_last_message_id = last_message_id, am_packets = []\<rparr>
   }"

section \<open>pubsub.c\<close>

definition allocate_id :: "astarte_mqtt \<Rightarrow> (u16 \<times> astarte_mqtt) option" where
  "allocate_id m = do {
     i \<leftarrow> astarte_mqtt_caching_get_available_message_id (am_out_msgs m) (am_last_message_id m);
     Some (i, m\<lparr>am_last_message_id := i\<rparr>)
   }"

definition cache_outgoing :: "'s mqtt_env \<Rightarrow> u16 \<Rightarrow> mqtt_message \<Rightarrow> astarte_mqtt \<Rightarrow> 's \<Rightarrow> (astarte_mqtt \<times> 's) option" where
  "cache_outgoing E message_id message m s = do {
     (out_msgs, s) \<leftarrow> astarte_mqtt_caching_insert_message E (am_out_msgs m) message_id message s;
     Some (m\<lparr>am_out_msgs := out_msgs\<rparr>, s)
   }"

definition astarte_mqtt_subscribe ::
    "'s mqtt_env \<Rightarrow> astarte_mqtt \<Rightarrow> byte list \<Rightarrow> u32 \<Rightarrow> 's \<Rightarrow> (astarte_mqtt \<times> 's) option" where
  "astarte_mqtt_subscribe E m topic max_qos s = do {
     (message_id, m) \<leftarrow> allocate_id m;
     (m, s) \<leftarrow> cache_outgoing E message_id \<lparr>mm_type = STORAGE_MQTT_SUBSCRIPTION_ENTRY, mm_topic = Some topic,
       mm_data = None, mm_data_size = 0, mm_qos = max_qos\<rparr> m s;
     Some (send_packet (PktSubscribe (c_string topic) max_qos message_id) m, s)
   }"

definition astarte_mqtt_publish ::
    "'s mqtt_env \<Rightarrow> astarte_mqtt \<Rightarrow> byte list \<Rightarrow> byte list option \<Rightarrow> u32 \<Rightarrow> u32 \<Rightarrow> 's \<Rightarrow> (astarte_mqtt \<times> 's) option" where
  "astarte_mqtt_publish E m topic data data_size qos s = do {
     (message_id, m, s) \<leftarrow>
       (if sint qos > 0 then do {
          (message_id, m) \<leftarrow> allocate_id m;
          (m, s) \<leftarrow> cache_outgoing E message_id \<lparr>mm_type = STORAGE_MQTT_PUBLISH_ENTRY, mm_topic = Some topic,
            mm_data = data, mm_data_size = data_size, mm_qos = qos\<rparr> m s;
          Some (message_id, m, s)
        }
        else Some (0, m, s));
     Some (send_packet (PktPublish (c_string topic) data data_size qos message_id False) m, s)
   }"

definition astarte_mqtt_has_pending_outgoing :: "astarte_mqtt \<Rightarrow> bool" where
  "astarte_mqtt_has_pending_outgoing m \<longleftrightarrow> dom (mc_map (am_out_msgs m)) \<noteq> {}"

definition astarte_mqtt_clear_all_pending :: "'s mqtt_env \<Rightarrow> astarte_mqtt \<Rightarrow> 's \<Rightarrow> astarte_mqtt \<times> 's" where
  "astarte_mqtt_clear_all_pending E m s =
     (case astarte_mqtt_caching_clear_messages E (am_in_msgs m) s of (in_msgs, s) \<Rightarrow>
      case astarte_mqtt_caching_clear_messages E (am_out_msgs m) s of (out_msgs, s) \<Rightarrow>
        (m\<lparr>am_in_msgs := in_msgs, am_out_msgs := out_msgs\<rparr>, s))"

section \<open>events.c\<close>

text \<open>The calls of the callbacks.\<close>

datatype mqtt_notice =
    OnConnected u8
  | OnDisconnected
  | OnIncoming "byte list" "byte list"
  | OnSubscribed u16 u8
  | OnDelivered u16

type_synonym ('d, 's) mqtt_cb = "mqtt_notice \<Rightarrow> 'd \<Rightarrow> 's \<Rightarrow> ('d \<times> 's) option"

definition notify ::
    "('d, 's) mqtt_cb \<Rightarrow> mqtt_notice \<Rightarrow> astarte_mqtt \<Rightarrow> 'd \<Rightarrow> 's \<Rightarrow> (astarte_mqtt \<times> 'd \<times> 's) option" where
  "notify cb notice m d s = do { (d, s) \<leftarrow> cb notice d s; Some (m, d, s) }"

definition astarte_mqtt_handle_connack_event ::
    "'s mqtt_env \<Rightarrow> mqtt_config \<Rightarrow> ('d, 's) mqtt_cb \<Rightarrow> u8 \<Rightarrow> astarte_mqtt \<Rightarrow> 'd \<Rightarrow> 's
      \<Rightarrow> (astarte_mqtt \<times> 'd \<times> 's) option" where
  "astarte_mqtt_handle_connack_event E cfg cb session_present_flag m d s =
     (let m = m\<lparr>am_backoff := reset_backoff cfg (am_backoff m)\<rparr>;
          m = (if am_connection_state m = ASTARTE_MQTT_CONNECTING
            then m\<lparr>am_connection_state := ASTARTE_MQTT_CONNECTED\<rparr> else m) in
      case (if session_present_flag = 0 then astarte_mqtt_clear_all_pending E m s else (m, s)) of (m, s) \<Rightarrow>
        notify cb (OnConnected session_present_flag) m d s)"

definition astarte_mqtt_handle_disconnection_event ::
    "('d, 's) mqtt_cb \<Rightarrow> astarte_mqtt \<Rightarrow> 'd \<Rightarrow> 's \<Rightarrow> (astarte_mqtt \<times> 'd \<times> 's) option" where
  "astarte_mqtt_handle_disconnection_event cb m d s =
     notify cb OnDisconnected
       (m\<lparr>am_connection_state := (case am_connection_state m of
          ASTARTE_MQTT_CONNECTING \<Rightarrow> ASTARTE_MQTT_CONNECTION_ERROR
        | ASTARTE_MQTT_CONNECTED \<Rightarrow> ASTARTE_MQTT_CONNECTION_ERROR
        | ASTARTE_MQTT_DISCONNECTING \<Rightarrow> ASTARTE_MQTT_DISCONNECTED
        | st \<Rightarrow> st)\<rparr>) d s"

text \<open>
  The loop that reads the payload.  \<open>reads\<close> are the answers of the library to the calls, an error or
  some bytes, of which it writes no more than there is room for; a call that is never answered does
  not return, \<open>None\<close>.  The result holds the bytes in the buffer.
\<close>

fun read_payload_loop ::
    "(int + byte list) list \<Rightarrow> nat \<Rightarrow> nat \<Rightarrow> bool \<Rightarrow> nat \<Rightarrow> byte list \<Rightarrow> (int \<times> nat \<times> byte list) option" where
  "read_payload_loop reads alloc_size message_size discarded received msg_buffer =
     (if \<not> received < message_size then Some (0, received, msg_buffer)
      else case reads of
        [] \<Rightarrow> None
      | Inl err # reads \<Rightarrow> Some (- 1, received, msg_buffer)
      | Inr bs # reads \<Rightarrow>
          let capacity = (if discarded then alloc_size else alloc_size - received);
              pkt = take capacity bs in
          read_payload_loop reads alloc_size message_size discarded (received + length pkt)
            (if discarded then pkt else take received msg_buffer @ pkt))"

definition read_publish_payload ::
    "(int + byte list) list \<Rightarrow> nat \<Rightarrow> nat \<Rightarrow> bool \<Rightarrow> (int \<times> byte list) option" where
  "read_publish_payload reads alloc_size message_size discarded = do {
     (rc, received, msg_buffer) \<leftarrow> read_payload_loop reads alloc_size message_size discarded 0 [];
     Some (if rc < 0 \<or> received \<noteq> message_size \<or> discarded then (- 1, msg_buffer) else (0, msg_buffer))
   }"

definition acknowledge_qos ::
    "'s mqtt_env \<Rightarrow> u16 \<Rightarrow> u8 \<Rightarrow> astarte_mqtt \<Rightarrow> 's \<Rightarrow> (int \<times> astarte_mqtt \<times> 's) option" where
  "acknowledge_qos E message_id qos m s =
     (if qos = 1 then Some (0, send_packet (PktPuback message_id) m, s)
      else if qos = 2 then
        let m = send_packet (PktPubrec message_id) m in
        if astarte_mqtt_caching_find_message (am_in_msgs m) message_id then Some (- 1, m, s)
        else do {
          (in_msgs, s) \<leftarrow> astarte_mqtt_caching_insert_message E (am_in_msgs m) message_id
            \<lparr>mm_type = STORAGE_MQTT_PUBREC_ENTRY, mm_topic = None, mm_data = None, mm_data_size = 0, mm_qos = 2\<rparr> s;
          Some (0, m\<lparr>am_in_msgs := in_msgs\<rparr>, s)
        }
      else Some (0, m, s))"

text \<open>A PUBLISH of the broker: the topic, the identifier, the quality of service, the announced size.\<close>

record publish_param =
  pp_topic :: "byte list"
  pp_message_id :: u16
  pp_qos :: u8
  pp_size :: u32

definition astarte_mqtt_handle_publish_event ::
    "'s mqtt_env \<Rightarrow> mqtt_config \<Rightarrow> ('d, 's) mqtt_cb \<Rightarrow> publish_param \<Rightarrow> (int + byte list) list
      \<Rightarrow> astarte_mqtt \<Rightarrow> 'd \<Rightarrow> 's \<Rightarrow> (astarte_mqtt \<times> 'd \<times> 's) option" where
  "astarte_mqtt_handle_publish_event E cfg cb publish reads m d s =
     (let message_size = unat (pp_size publish);
          discarded = (message_size > mf_max_msg_size cfg);
          alloc_size = (if discarded then mf_max_msg_size cfg else message_size) in
      if alloc_size \<noteq> 0 \<and> \<not> astarte_calloc (k_heap (mq_kv E) s) alloc_size 1 then Some (m, d, s)
      else do {
        (rc, msg_buffer) \<leftarrow> read_publish_payload reads alloc_size message_size discarded;
        if rc < 0 then Some (m, d, s)
        else do {
          (rc, m, s) \<leftarrow> acknowledge_qos E (pp_message_id publish) (pp_qos publish) m s;
          if rc < 0 then Some (m, d, s)
          else if \<not> astarte_calloc (k_heap (mq_kv E) s) (length (pp_topic publish) + 1) 1 then Some (m, d, s)
          else notify cb (OnIncoming (pp_topic publish) msg_buffer) m d s
        }
      })"

definition astarte_mqtt_handle_pubrel_event :: "'s mqtt_env \<Rightarrow> u16 \<Rightarrow> astarte_mqtt \<Rightarrow> 's \<Rightarrow> astarte_mqtt \<times> 's" where
  "astarte_mqtt_handle_pubrel_event E message_id m s =
     (case astarte_mqtt_caching_remove_message E (am_in_msgs m) message_id s of (in_msgs, s) \<Rightarrow>
        (send_packet (PktPubcomp message_id) (m\<lparr>am_in_msgs := in_msgs\<rparr>), s))"

definition remove_outgoing :: "'s mqtt_env \<Rightarrow> u16 \<Rightarrow> astarte_mqtt \<Rightarrow> 's \<Rightarrow> astarte_mqtt \<times> 's" where
  "remove_outgoing E message_id m s =
     (case astarte_mqtt_caching_remove_message E (am_out_msgs m) message_id s of (out_msgs, s) \<Rightarrow>
        (m\<lparr>am_out_msgs := out_msgs\<rparr>, s))"

definition astarte_mqtt_handle_puback_event ::
    "'s mqtt_env \<Rightarrow> ('d, 's) mqtt_cb \<Rightarrow> u16 \<Rightarrow> astarte_mqtt \<Rightarrow> 'd \<Rightarrow> 's \<Rightarrow> (astarte_mqtt \<times> 'd \<times> 's) option" where
  "astarte_mqtt_handle_puback_event E cb message_id m d s =
     (case remove_outgoing E message_id m s of (m, s) \<Rightarrow> notify cb (OnDelivered message_id) m d s)"

definition astarte_mqtt_handle_pubrec_event :: "'s mqtt_env \<Rightarrow> u16 \<Rightarrow> astarte_mqtt \<Rightarrow> 's \<Rightarrow> astarte_mqtt" where
  "astarte_mqtt_handle_pubrec_event E message_id m s =
     send_packet (PktPubrel message_id)
       (m\<lparr>am_out_msgs := astarte_mqtt_caching_update_message_expiry E (am_out_msgs m) message_id s\<rparr>)"

definition astarte_mqtt_handle_pubcomp_event ::
    "'s mqtt_env \<Rightarrow> ('d, 's) mqtt_cb \<Rightarrow> u16 \<Rightarrow> astarte_mqtt \<Rightarrow> 'd \<Rightarrow> 's \<Rightarrow> (astarte_mqtt \<times> 'd \<times> 's) option" where
  "astarte_mqtt_handle_pubcomp_event E cb message_id m d s =
     (case remove_outgoing E message_id m s of (m, s) \<Rightarrow> notify cb (OnDelivered message_id) m d s)"

definition MQTT_SUBACK_FAILURE :: u8 where "MQTT_SUBACK_FAILURE = 0x80"

definition astarte_mqtt_handle_suback_event ::
    "'s mqtt_env \<Rightarrow> ('d, 's) mqtt_cb \<Rightarrow> u16 \<Rightarrow> byte list \<Rightarrow> astarte_mqtt \<Rightarrow> 'd \<Rightarrow> 's
      \<Rightarrow> (astarte_mqtt \<times> 'd \<times> 's) option" where
  "astarte_mqtt_handle_suback_event E cb message_id return_codes m d s =
     (case remove_outgoing E message_id m s of (m, s) \<Rightarrow>
        notify cb (OnSubscribed message_id (case return_codes of [] \<Rightarrow> MQTT_SUBACK_FAILURE | c # _ \<Rightarrow> c)) m d s)"

section \<open>core.c\<close>

text \<open>The events of the library, and their result.\<close>

datatype mqtt_evt_type =
    MQTT_EVT_CONNACK u8
  | MQTT_EVT_DISCONNECT
  | MQTT_EVT_PUBLISH publish_param "(int + byte list) list"
  | MQTT_EVT_PUBREL u16
  | MQTT_EVT_PUBACK u16
  | MQTT_EVT_PUBREC u16
  | MQTT_EVT_PUBCOMP u16
  | MQTT_EVT_SUBACK u16 "byte list"
  | MQTT_EVT_OTHER

type_synonym mqtt_evt = "mqtt_evt_type \<times> int"

definition is_connack :: "mqtt_evt_type \<Rightarrow> bool" where
  "is_connack t \<longleftrightarrow> (case t of MQTT_EVT_CONNACK _ \<Rightarrow> True | _ \<Rightarrow> False)"

definition mqtt_evt_handler ::
    "'s mqtt_env \<Rightarrow> mqtt_config \<Rightarrow> ('d, 's) mqtt_cb \<Rightarrow> mqtt_evt \<Rightarrow> astarte_mqtt \<Rightarrow> 'd \<Rightarrow> 's
      \<Rightarrow> (astarte_mqtt \<times> 'd \<times> 's) option" where
  "mqtt_evt_handler E cfg cb evt m d s = (case evt of (t, result) \<Rightarrow>
     if am_connection_state m = ASTARTE_MQTT_CONNECTING \<and> \<not> is_connack t \<and> t \<noteq> MQTT_EVT_DISCONNECT
     then Some (m, d, s)
     else if am_connection_state m = ASTARTE_MQTT_DISCONNECTING \<and> t \<noteq> MQTT_EVT_DISCONNECT
     then Some (m, d, s)
     else if result \<noteq> 0 \<and> t \<noteq> MQTT_EVT_DISCONNECT then Some (m, d, s)
     else case t of
       MQTT_EVT_CONNACK session_present_flag \<Rightarrow> astarte_mqtt_handle_connack_event E cfg cb session_present_flag m d s
     | MQTT_EVT_DISCONNECT \<Rightarrow> astarte_mqtt_handle_disconnection_event cb m d s
     | MQTT_EVT_PUBLISH publish reads \<Rightarrow> astarte_mqtt_handle_publish_event E cfg cb publish reads m d s
     | MQTT_EVT_PUBREL message_id \<Rightarrow>
         (case astarte_mqtt_handle_pubrel_event E message_id m s of (m, s) \<Rightarrow> Some (m, d, s))
     | MQTT_EVT_PUBACK message_id \<Rightarrow> astarte_mqtt_handle_puback_event E cb message_id m d s
     | MQTT_EVT_PUBREC message_id \<Rightarrow> Some (astarte_mqtt_handle_pubrec_event E message_id m s, d, s)
     | MQTT_EVT_PUBCOMP message_id \<Rightarrow> astarte_mqtt_handle_pubcomp_event E cb message_id m d s
     | MQTT_EVT_SUBACK message_id return_codes \<Rightarrow> astarte_mqtt_handle_suback_event E cb message_id return_codes m d s
     | MQTT_EVT_OTHER \<Rightarrow> Some (m, d, s))"

primrec mqtt_events ::
    "'s mqtt_env \<Rightarrow> mqtt_config \<Rightarrow> ('d, 's) mqtt_cb \<Rightarrow> mqtt_evt list \<Rightarrow> astarte_mqtt \<Rightarrow> 'd \<Rightarrow> 's
      \<Rightarrow> (astarte_mqtt \<times> 'd \<times> 's) option" where
  "mqtt_events E cfg cb [] m d s = Some (m, d, s)"
| "mqtt_events E cfg cb (evt # evts) m d s = do {
     (m, d, s) \<leftarrow> mqtt_evt_handler E cfg cb evt m d s;
     mqtt_events E cfg cb evts m d s
   }"

text \<open>What is retransmitted.  A topic that is \<open>NULL\<close> is passed to \<open>strlen\<close>: \<open>None\<close>.\<close>

definition mqtt_caching_retransmit_out_msg_handler :: "u16 \<times> mqtt_message \<Rightarrow> mqtt_packet list option" where
  "mqtt_caching_retransmit_out_msg_handler idm = (case idm of (message_id, message) \<Rightarrow>
     (case mm_type message of
        STORAGE_MQTT_PUBLISH_ENTRY \<Rightarrow> do {
          topic \<leftarrow> mm_topic message;
          Some [PktPublish (c_string topic) (mm_data message) (mm_data_size message) (mm_qos message) message_id True] }
      | STORAGE_MQTT_SUBSCRIPTION_ENTRY \<Rightarrow> do {
          topic \<leftarrow> mm_topic message;
          Some [PktSubscribe (c_string topic) (mm_qos message) message_id] }
      | _ \<Rightarrow> Some []))"

primrec retransmit_out :: "(u16 \<times> mqtt_message) list \<Rightarrow> mqtt_packet list option" where
  "retransmit_out [] = Some []"
| "retransmit_out (x # xs) = do {
     ps \<leftarrow> mqtt_caching_retransmit_out_msg_handler x; qs \<leftarrow> retransmit_out xs; Some (ps @ qs) }"

definition mqtt_caching_retransmit_in_msg_handler :: "u16 \<times> mqtt_message \<Rightarrow> mqtt_packet" where
  "mqtt_caching_retransmit_in_msg_handler idm = PktPubrec (fst idm)"

definition retransmit_expired :: "'s mqtt_env \<Rightarrow> astarte_mqtt \<Rightarrow> 's \<Rightarrow> astarte_mqtt option" where
  "retransmit_expired E m s =
     (case astarte_mqtt_caching_check_message_expiry E (am_out_msgs m) s of (out_msgs, out_resent) \<Rightarrow>
      case astarte_mqtt_caching_check_message_expiry E (am_in_msgs m) s of (in_msgs, in_resent) \<Rightarrow> do {
        ps \<leftarrow> retransmit_out out_resent;
        Some (m\<lparr>am_out_msgs := out_msgs, am_in_msgs := in_msgs,
          am_packets := am_packets m @ ps @ map mqtt_caching_retransmit_in_msg_handler in_resent\<rparr>)
      })"

text \<open>
  The answers to an attempt to connect: of the certificate callback, of the resolver (its return code
  and whether it found an address) and of \<open>mqtt_connect\<close>.
\<close>

record connect_world =
  cw_refresh :: astarte_result_t
  cw_dns_rc :: int
  cw_addr_found :: bool
  cw_connect_rc :: int

definition astarte_mqtt_connect ::
    "'s mqtt_env \<Rightarrow> mqtt_config \<Rightarrow> connect_world \<Rightarrow> astarte_mqtt \<Rightarrow> 's \<Rightarrow> astarte_result_t \<times> astarte_mqtt" where
  "astarte_mqtt_connect E cfg W m s =
     (if am_connection_state m \<noteq> ASTARTE_MQTT_DISCONNECTED \<and> am_connection_state m \<noteq> ASTARTE_MQTT_CONNECTION_ERROR
      then (ASTARTE_RESULT_MQTT_CLIENT_NOT_READY, m)
      else if cw_refresh W \<noteq> ASTARTE_RESULT_OK then (cw_refresh W, m)
      else if cw_dns_rc W \<noteq> 0 then (ASTARTE_RESULT_SOCKET_ERROR, m)
      else if \<not> cw_addr_found W then (ASTARTE_RESULT_SOCKET_ERROR, m)
      else if cw_connect_rc W \<noteq> 0 then (ASTARTE_RESULT_MQTT_ERROR, m)
      else (ASTARTE_RESULT_OK, m\<lparr>am_connection_timepoint := Some (mq_now E s + mf_connection_timeout_ms cfg),
        am_connection_state := ASTARTE_MQTT_CONNECTING\<rparr>))"

definition astarte_mqtt_is_connected :: "astarte_mqtt \<Rightarrow> bool" where
  "astarte_mqtt_is_connected m \<longleftrightarrow> am_connection_state m = ASTARTE_MQTT_CONNECTED"

text \<open>\<open>mqtt_disconnect\<close> answers a code, after it has raised some events.\<close>

definition astarte_mqtt_disconnect ::
    "'s mqtt_env \<Rightarrow> mqtt_config \<Rightarrow> ('d, 's) mqtt_cb \<Rightarrow> int \<times> mqtt_evt list \<Rightarrow> astarte_mqtt \<Rightarrow> 'd \<Rightarrow> 's
      \<Rightarrow> (astarte_result_t \<times> astarte_mqtt \<times> 'd \<times> 's) option" where
  "astarte_mqtt_disconnect E cfg cb W m d s =
     (case am_connection_state m of
        ASTARTE_MQTT_CONNECTION_ERROR \<Rightarrow>
          Some (ASTARTE_RESULT_OK, m\<lparr>am_connection_state := ASTARTE_MQTT_DISCONNECTED\<rparr>, d, s)
      | ASTARTE_MQTT_DISCONNECTED \<Rightarrow> Some (ASTARTE_RESULT_MQTT_CLIENT_NOT_READY, m, d, s)
      | ASTARTE_MQTT_DISCONNECTING \<Rightarrow> Some (ASTARTE_RESULT_MQTT_CLIENT_NOT_READY, m, d, s)
      | _ \<Rightarrow> do {
          (m, d, s) \<leftarrow> mqtt_events E cfg cb (snd W) (m\<lparr>am_connection_state := ASTARTE_MQTT_DISCONNECTING\<rparr>) d s;
          Some (if fst W < 0
            then (ASTARTE_RESULT_MQTT_ERROR, m\<lparr>am_connection_state := ASTARTE_MQTT_CONNECTION_ERROR\<rparr>, d, s)
            else (ASTARTE_RESULT_OK, m, d, s))
        })"

text \<open>What happens outside during a poll.\<close>

record poll_world =
  pw_random :: u32
  pw_connect :: connect_world
  pw_disconnect_events :: "mqtt_evt list"
  pw_live_events :: "mqtt_evt list"
  pw_poll_rc :: int
  pw_input_rc :: int
  pw_input_events :: "mqtt_evt list"

definition ENOTCONN :: int where "ENOTCONN = 128"

text \<open>The second critical section, with the socket polled.\<close>

definition poll_input ::
    "'s mqtt_env \<Rightarrow> mqtt_config \<Rightarrow> ('d, 's) mqtt_cb \<Rightarrow> poll_world \<Rightarrow> astarte_mqtt \<Rightarrow> 'd \<Rightarrow> 's
      \<Rightarrow> (astarte_result_t \<times> astarte_mqtt \<times> 'd \<times> 's) option" where
  "poll_input E cfg cb W m d s =
     (if pw_poll_rc W < 0
      then Some (ASTARTE_RESULT_SOCKET_ERROR, m\<lparr>am_connection_state := ASTARTE_MQTT_CONNECTION_ERROR\<rparr>, d, s)
      else if pw_poll_rc W \<noteq> 0 then do {
        (m, d, s) \<leftarrow> mqtt_events E cfg cb (pw_input_events W) m d s;
        Some (if pw_input_rc W \<noteq> 0 \<and> pw_input_rc W \<noteq> - ENOTCONN then ASTARTE_RESULT_MQTT_ERROR
          else ASTARTE_RESULT_OK, m, d, s)
      }
      else Some (ASTARTE_RESULT_OK, m, d, s))"

definition astarte_mqtt_poll ::
    "'s mqtt_env \<Rightarrow> mqtt_config \<Rightarrow> ('d, 's) mqtt_cb \<Rightarrow> poll_world \<Rightarrow> astarte_mqtt \<Rightarrow> 'd \<Rightarrow> 's
      \<Rightarrow> (astarte_result_t \<times> astarte_mqtt \<times> 'd \<times> 's) option" where
  "astarte_mqtt_poll E cfg cb W m d s =
     (if am_connection_state m = ASTARTE_MQTT_CONNECTING \<and> expired E s (am_connection_timepoint m) then do {
        (m, d, s) \<leftarrow> mqtt_events E cfg cb (pw_disconnect_events W)
          (m\<lparr>am_connection_state := ASTARTE_MQTT_CONNECTION_ERROR\<rparr>) d s;
        Some (ASTARTE_RESULT_OK, m, d, s)
      }
      else
        let (ares, m) =
          (if am_connection_state m = ASTARTE_MQTT_CONNECTION_ERROR \<and> am_reconnection_timepoint m \<le> mq_now E s
           then (case backoff_get_next_delay (am_backoff m) (pw_random W) of (next_backoff_ms, b) \<Rightarrow>
             astarte_mqtt_connect E cfg (pw_connect W)
               (m\<lparr>am_backoff := b, am_reconnection_timepoint := mq_now E s + unat next_backoff_ms\<rparr>) s)
           else (ASTARTE_RESULT_OK, m)) in
        if ares \<noteq> ASTARTE_RESULT_OK then Some (ASTARTE_RESULT_OK, m, d, s)
        else if am_connection_state m \<noteq> ASTARTE_MQTT_CONNECTION_ERROR \<and> am_connection_state m \<noteq> ASTARTE_MQTT_DISCONNECTED
        then do {
          m \<leftarrow> (if am_connection_state m = ASTARTE_MQTT_CONNECTED then retransmit_expired E m s else Some m);
          (m, d, s) \<leftarrow> mqtt_events E cfg cb (pw_live_events W) m d s;
          poll_input E cfg cb W m d s
        }
        else Some (ASTARTE_RESULT_OK, m, d, s))"

end
