(* ===== verification/Mqtt_Cache_Spec.thy ===== *)
theory Mqtt_Cache_Spec
  imports Mqtt_Caching Refine
begin

text \<open>
  What the cache of MQTT messages promises: it is a map from identifiers to messages, the same in
  memory and in the storage, so it survives a restart.
\<close>

section \<open>The cache is one map\<close>

text \<open>The operations, and what they do to the messages in flight.\<close>

datatype cache_op =
    CacheInsert u16 mqtt_message
  | CacheFind u16
  | CacheTouch u16
  | CacheExpire
  | CacheRemove u16
  | CacheClear
  | CacheRestart

datatype cache_answer = CacheDone | CacheFound bool

primrec cache_step :: "'s mqtt_env \<Rightarrow> cache_op \<Rightarrow> mqtt_caching \<times> 's \<Rightarrow> (cache_answer \<times> mqtt_caching \<times> 's) option" where
  "cache_step E (CacheInsert i msg) cs = (case cs of (caching, s) \<Rightarrow>
     map_option (Pair CacheDone) (astarte_mqtt_caching_insert_message E caching i msg s))"
| "cache_step E (CacheFind i) cs = (case cs of (caching, s) \<Rightarrow>
     Some (CacheFound (astarte_mqtt_caching_find_message caching i), caching, s))"
| "cache_step E (CacheTouch i) cs = (case cs of (caching, s) \<Rightarrow>
     Some (CacheDone, astarte_mqtt_caching_update_message_expiry E caching i s, s))"
| "cache_step E CacheExpire cs = (case cs of (caching, s) \<Rightarrow>
     Some (CacheDone, fst (astarte_mqtt_caching_check_message_expiry E caching s), s))"
| "cache_step E (CacheRemove i) cs = (case cs of (caching, s) \<Rightarrow>
     Some (CacheDone, astarte_mqtt_caching_remove_message E caching i s))"
| "cache_step E CacheClear cs = (case cs of (caching, s) \<Rightarrow>
     Some (CacheDone, astarte_mqtt_caching_clear_messages E caching s))"
| "cache_step E CacheRestart cs = (case cs of (caching, s) \<Rightarrow>
     map_option (\<lambda>c. (CacheDone, c, s)) (astarte_mqtt_caching_init E (mc_direction caching) s))"

primrec cache_spec :: "cache_op \<Rightarrow> (u16 \<rightharpoonup> mqtt_message) \<Rightarrow> cache_answer \<times> (u16 \<rightharpoonup> mqtt_message)" where
  "cache_spec (CacheInsert i msg) m = (CacheDone, if m i = None then m(i \<mapsto> mqtt_kept msg) else m)"
| "cache_spec (CacheFind i) m = (CacheFound (m i \<noteq> None), m)"
| "cache_spec (CacheTouch i) m = (CacheDone, m)"
| "cache_spec CacheExpire m = (CacheDone, m)"
| "cache_spec (CacheRemove i) m = (CacheDone, m(i := None))"
| "cache_spec CacheClear m = (CacheDone, Map.empty)"
| "cache_spec CacheRestart m = (CacheDone, m)"

primrec cache_op_ok :: "cache_op \<Rightarrow> bool" where
  "cache_op_ok (CacheInsert i msg) \<longleftrightarrow> i \<noteq> 0 \<and> mqtt_valid msg"
| "cache_op_ok (CacheFind i) \<longleftrightarrow> True"
| "cache_op_ok (CacheTouch i) \<longleftrightarrow> True"
| "cache_op_ok CacheExpire \<longleftrightarrow> True"
| "cache_op_ok (CacheRemove i) \<longleftrightarrow> True"
| "cache_op_ok CacheClear \<longleftrightarrow> True"
| "cache_op_ok CacheRestart \<longleftrightarrow> True"

text \<open>
  The relation: the map in memory holds the messages, and the storage holds their images under the
  identifiers of the direction, next to the pairs \<open>al\<close> of the namespaces and the records \<open>others\<close>.
\<close>

definition cache_at ::
    "'s mqtt_env \<Rightarrow> ('s \<Rightarrow> u32 \<rightharpoonup> byte list) \<Rightarrow> astarte_storage_mqtt_message_direction \<Rightarrow> (kv_key \<times> byte list) list
      \<Rightarrow> (u32 \<rightharpoonup> byte list) \<Rightarrow> (u32 \<rightharpoonup> byte list) \<Rightarrow> mqtt_caching \<Rightarrow> 's \<Rightarrow> (u16 \<rightharpoonup> mqtt_message) \<Rightarrow> bool" where
  "cache_at E C dir al others R c s m \<longleftrightarrow> reliable_store (mq_kv E) C
     \<and> (\<forall>S. mq_room E S) \<and> (\<forall>S. set (mq_order E S) = S) \<and> mc_direction c = dir
     \<and> (\<forall>i. map_option me_message (mc_map c i) = m i)
     \<and> m 0 = None \<and> (\<forall>i msg. m i = Some msg \<longrightarrow> mqtt_valid msg \<and> mqtt_kept msg = msg)
     \<and> kv_rep (mq_kv E) C R s al
     \<and> (\<forall>i. R (full_key (direction_to_alternate dir) i) = map_option mqtt_record (m i))
     \<and> (\<forall>i. R (full_key (\<not> direction_to_alternate dir) i) = others (full_key (\<not> direction_to_alternate dir) i))"

definition cache_rel ::
    "'s mqtt_env \<Rightarrow> ('s \<Rightarrow> u32 \<rightharpoonup> byte list) \<Rightarrow> astarte_storage_mqtt_message_direction \<Rightarrow> (kv_key \<times> byte list) list
      \<Rightarrow> (u32 \<rightharpoonup> byte list) \<Rightarrow> mqtt_caching \<times> 's \<Rightarrow> (u16 \<rightharpoonup> mqtt_message) \<Rightarrow> bool" where
  "cache_rel E C dir al others cs m \<longleftrightarrow> (\<exists>R. cache_at E C dir al others R (fst cs) (snd cs) m)"

section \<open>Single operations\<close>

lemma mqtt_kept_simps [simp]:
  "mqtt_valid msg \<Longrightarrow> mqtt_valid (mqtt_kept msg)" "mqtt_kept (mqtt_kept msg) = mqtt_kept msg"
  "mqtt_valid msg \<Longrightarrow> mqtt_record (mqtt_kept msg) = mqtt_record msg"
  by (auto simp: mqtt_kept_def mqtt_valid_def mqtt_record_def mqtt_header_def mqtt_topic_len_def mqtt_topic_def
      mqtt_bytes_def split: option.splits)

lemma copy_message_ok:
  assumes v: "mqtt_valid msg" and heap: "\<And>n. heap n"
  shows "copy_message heap msg = Some (Inr (mqtt_kept msg))"
proof -
  have t: "map_option c_string (mm_topic msg) = mm_topic msg"
    using v by (auto simp: mqtt_valid_def c_string_nul_free split: option.splits intro!: option.map_ident_strong)
  show ?thesis
    using v heap mqtt_validD(2) [OF v]
    by (auto simp: copy_message_def t mqtt_kept_def mqtt_valid_def astarte_calloc_def Let_def unat_eq_zero
        split: option.splits)
qed

lemma expiry_loop_messages:
  "map_option me_message (fst (expiry_loop E s ids m) i) = map_option me_message (m i)"
proof (induction ids arbitrary: m)
  case (Cons j ids)
  then show ?case by (cases "m j") (auto simp: case_prod_beta)
qed simp

lemma message_ids: "distinct message_ids" "set message_ids = - {0}"
proof -
  have u: "unat (of_nat n :: u16) = n" if "n < 65536" for n
    using that by (simp add: unsigned_of_nat take_bit_nat_eq_self)
  show "distinct message_ids"
    using u by (auto simp: message_ids_def distinct_map inj_on_def) metis
  have "i \<in> set message_ids" if "i \<noteq> 0" for i :: u16
  proof -
    have "unat i < 65536" "unat i \<noteq> 0" using unsigned_less [of i] that by (simp_all add: unat_eq_zero)
    then have "of_nat (unat i) \<in> set message_ids" unfolding message_ids_def by (simp only: set_map) (rule imageI, simp)
    then show ?thesis by simp
  qed
  moreover have "(0 :: u16) \<notin> set message_ids"
  proof
    assume "(0 :: u16) \<in> set message_ids"
    then obtain n where "n < 65536" "1 \<le> n" "(of_nat n :: u16) = 0" by (auto simp: message_ids_def)
    then show False using u [of n] by simp
  qed
  ultimately show "set message_ids = - {0}" by blast
qed

section \<open>The operations meet the specification\<close>

lemma cache_atD:
  assumes "cache_at E C dir al others R c s m"
  shows "reliable_store (mq_kv E) C" "mq_room E S" "set (mq_order E S) = S" "mc_direction c = dir"
    "map_option me_message (mc_map c i) = m i" "m 0 = None" "m i = Some msg \<Longrightarrow> mqtt_valid msg"
    "m i = Some msg \<Longrightarrow> mqtt_kept msg = msg" "kv_rep (mq_kv E) C R s al"
    "R (full_key (direction_to_alternate dir) i) = map_option mqtt_record (m i)"
    "k_heap (mq_kv E) t n"
  using assms reliable_store.heap_ok by (auto simp: cache_at_def)

lemma cache_at_None:
  assumes "cache_at E C dir al others R c s m"
  shows "mc_map c i = None \<longleftrightarrow> m i = None"
  using cache_atD(5) [OF assms, of i] by (metis option.map_disc_iff)

text \<open>Writing or removing one message on both sides.\<close>

lemma cache_at_upd:
  assumes "cache_at E C dir al others R c s m" and "i \<noteq> 0" and "map_option me_message x = y"
    and "\<And>msg. y = Some msg \<Longrightarrow> mqtt_valid msg \<and> mqtt_kept msg = msg"
    and "kv_rep (mq_kv E) C (R(full_key (direction_to_alternate dir) i := map_option mqtt_record y)) s' al"
  shows "cache_at E C dir al others (R(full_key (direction_to_alternate dir) i := map_option mqtt_record y))
    (c\<lparr>mc_map := (mc_map c)(i := x)\<rparr>) s' (m(i := y))"
proof -
  have "mqtt_valid msg \<and> mqtt_kept msg = msg" if "(m(i := y)) j = Some msg" for j msg
    using that assms(4) cache_atD(7,8) [OF assms(1), of j msg] by (cases "j = i") auto
  moreover have "map_option me_message (((mc_map c)(i := x)) j) = (m(i := y)) j" for j
    using cache_atD(5) [OF assms(1), of j] assms(3) by (cases "j = i") auto
  moreover have "(R(full_key (direction_to_alternate dir) i := map_option mqtt_record y)) (full_key (direction_to_alternate dir) j)
      = map_option mqtt_record ((m(i := y)) j)" for j
    using cache_atD(10) [OF assms(1), of j] by (simp add: full_key_inj)
  moreover have "(R(full_key (direction_to_alternate dir) i := v)) (full_key (\<not> direction_to_alternate dir) j)
      = others (full_key (\<not> direction_to_alternate dir) j)" for j v
    using assms(1) by (simp add: cache_at_def full_key_inj)
  moreover have "(m(i := y)) 0 = None" using cache_atD(6) [OF assms(1)] assms(2) by simp
  moreover have "mc_direction (c\<lparr>mc_map := f\<rparr>) = mc_direction c" "mc_map (c\<lparr>mc_map := f\<rparr>) = f" for f
    by simp_all
  ultimately show ?thesis
    unfolding cache_at_def using cache_atD(1-4) [OF assms(1)] assms(5)
    by (intro conjI allI impI) (simp_all only:)
qed

lemma cache_insert_ok:
  assumes r: "cache_at E C dir al others R c s m" and i: "i \<noteq> 0" and v: "mqtt_valid msg"
  shows "\<exists>c' s' R'. astarte_mqtt_caching_insert_message E c i msg s = Some (c', s')
    \<and> cache_at E C dir al others R' c' s' (if m i = None then m(i \<mapsto> mqtt_kept msg) else m)"
proof (cases "m i = None")
  case True
  note d = cache_atD [OF r]
  let ?e = "\<lparr>me_end_of_validity = validity_end E s, me_message = mqtt_kept msg\<rparr>"
  from reliable_store.mqtt_insert_ok [OF d(1,9) v] obtain s' where
    ins: "astarte_storage_mqtt_insert (mq_kv E) dir i msg s = Some (ASTARTE_RESULT_OK, s')"
    and kr: "kv_rep (mq_kv E) C (R(full_key (direction_to_alternate dir) i \<mapsto> mqtt_record msg)) s' al" .
  have "copy_message (k_heap (mq_kv E) s) msg = Some (Inr (mqtt_kept msg))"
    by (rule copy_message_ok [OF v d(11)])
  then have "astarte_mqtt_caching_insert_message E c i msg s = Some (c\<lparr>mc_map := (mc_map c)(i \<mapsto> ?e)\<rparr>, s')"
    using ins True d(2,4,11) cache_at_None [OF r, of i]
    by (simp add: astarte_mqtt_caching_insert_message_def astarte_calloc_def sizeof_map_entry_def)
  moreover have "cache_at E C dir al others (R(full_key (direction_to_alternate dir) i := map_option mqtt_record (Some (mqtt_kept msg))))
      (c\<lparr>mc_map := (mc_map c)(i \<mapsto> ?e)\<rparr>) s' (m(i \<mapsto> mqtt_kept msg))"
    by (rule cache_at_upd [OF r i]) (use kr v in simp_all)
  ultimately show ?thesis unfolding if_P [OF True] by blast
next
  case False
  then show ?thesis using r cache_at_None [OF r, of i] by (auto simp: astarte_mqtt_caching_insert_message_def)
qed

lemma cache_remove_ok:
  assumes r: "cache_at E C dir al others R c s m"
  shows "\<exists>c' s' R'. astarte_mqtt_caching_remove_message E c i s = (c', s')
    \<and> cache_at E C dir al others R' c' s' (m(i := None))"
proof (cases "m i = None")
  case True
  then show ?thesis
    using r cache_at_None [OF r, of i] by (auto simp: astarte_mqtt_caching_remove_message_def fun_upd_idem)
next
  case False
  note d = cache_atD [OF r]
  have i: "i \<noteq> 0" using False d(6) by auto
  from reliable_store.mqtt_delete_ok [OF d(1,9)] obtain s' where
    "astarte_storage_mqtt_delete (mq_kv E) dir i s = (ASTARTE_RESULT_OK, s')"
    "kv_rep (mq_kv E) C (R(full_key (direction_to_alternate dir) i := None)) s' al" .
  then show ?thesis
    using cache_at_upd [OF r i, of None None s'] False d(4) cache_at_None [OF r, of i]
    by (auto simp: astarte_mqtt_caching_remove_message_def)
qed

lemma clear_loop_ok:
  assumes "reliable_store (mq_kv E) C" and "mc_direction c = dir" and "kv_rep (mq_kv E) C R s al"
  shows "\<exists>R'. kv_rep (mq_kv E) C R' (clear_loop E c ids s) al
    \<and> (\<forall>i. R' (full_key (direction_to_alternate dir) i)
        = (if i \<in> set ids then None else R (full_key (direction_to_alternate dir) i)))
    \<and> (\<forall>i. R' (full_key (\<not> direction_to_alternate dir) i) = R (full_key (\<not> direction_to_alternate dir) i))"
  using assms(3)
proof (induction ids arbitrary: R s)
  case (Cons j ids)
  from reliable_store.mqtt_delete_ok [OF assms(1) Cons.prems] obtain s' where
    d: "astarte_storage_mqtt_delete (mq_kv E) dir j s = (ASTARTE_RESULT_OK, s')"
    and kr: "kv_rep (mq_kv E) C (R(full_key (direction_to_alternate dir) j := None)) s' al" .
  from Cons.IH [OF kr] obtain R' where R': "kv_rep (mq_kv E) C R' (clear_loop E c ids s') al"
    "\<And>i. R' (full_key (direction_to_alternate dir) i) = (if i \<in> set ids then None
        else (R(full_key (direction_to_alternate dir) j := None)) (full_key (direction_to_alternate dir) i))"
    "\<And>i. R' (full_key (\<not> direction_to_alternate dir) i)
      = (R(full_key (direction_to_alternate dir) j := None)) (full_key (\<not> direction_to_alternate dir) i)" by blast
  then show ?case using d assms(2) by (intro exI [of _ R']) (simp add: full_key_inj)
qed auto

lemma cache_clear_ok:
  assumes r: "cache_at E C dir al others R c s m"
  shows "\<exists>c' s' R'. astarte_mqtt_caching_clear_messages E c s = (c', s') \<and> cache_at E C dir al others R' c' s' Map.empty"
proof -
  note d = cache_atD [OF r]
  from clear_loop_ok [OF d(1,4,9), of "mq_order E (dom (mc_map c))"] obtain R' where
    R': "kv_rep (mq_kv E) C R' (clear_loop E c (mq_order E (dom (mc_map c))) s) al"
    "\<And>i. R' (full_key (direction_to_alternate dir) i)
        = (if i \<in> dom (mc_map c) then None else R (full_key (direction_to_alternate dir) i))"
    "\<And>i. R' (full_key (\<not> direction_to_alternate dir) i) = R (full_key (\<not> direction_to_alternate dir) i)"
    by (auto simp: d(3))
  have "R' (full_key (direction_to_alternate dir) i) = None" for i
    using R'(2) [of i] d(10) [of i] cache_at_None [OF r, of i] by (cases "m i") auto
  then show ?thesis
    using r R'(1,3) by (auto simp: astarte_mqtt_caching_clear_messages_def Let_def cache_at_def)
qed

lemma restore_loop_ok:
  assumes "cache_at E C dir al others R c s m" and "distinct ids" and "\<forall>i\<in>set ids. M i = None"
  shows "\<exists>M'. restore_loop E ids s \<lparr>mc_map = M, mc_direction = dir\<rparr> = Some \<lparr>mc_map = M', mc_direction = dir\<rparr>
    \<and> (\<forall>i. map_option me_message (M' i) = (if i \<in> set ids then m i else map_option me_message (M i)))"
  using assms(2,3)
proof (induction ids arbitrary: M)
  case (Cons j ids)
  note d = cache_atD [OF assms(1)]
  let ?M = "case m j of None \<Rightarrow> M | Some msg \<Rightarrow> M(j \<mapsto> \<lparr>me_end_of_validity = no_wait, me_message = msg\<rparr>)"
  have "restore_message E j s \<lparr>mc_map = M, mc_direction = dir\<rparr> = Some \<lparr>mc_map = ?M, mc_direction = dir\<rparr>"
  proof (cases "m j")
    case None
    then show ?thesis
      using reliable_store.mqtt_find_ok [OF d(1,9), of dir j] d(10) [of j] by (simp add: restore_message_def)
  next
    case (Some msg)
    have "parse_mqtt (k_heap (mq_kv E) s) (mqtt_record msg) = Some (Inr (mqtt_kept msg))"
      by (rule parse_mqtt_record [OF d(7) [OF Some] d(11)])
    moreover have "mqtt_record msg \<noteq> []" by (simp add: mqtt_record_def mqtt_header_def)
    ultimately show ?thesis
      using reliable_store.mqtt_find_ok [OF d(1,9), of dir j] d(10) [of j] d(8) [OF Some] d(2,11) Some Cons.prems(2)
      by (simp add: restore_message_def astarte_calloc_def sizeof_map_entry_def)
  qed
  moreover have "\<forall>i\<in>set ids. ?M i = None" using Cons.prems by (auto split: option.splits)
  from Cons.IH [OF _ this] obtain M' where
    "restore_loop E ids s \<lparr>mc_map = ?M, mc_direction = dir\<rparr> = Some \<lparr>mc_map = M', mc_direction = dir\<rparr>"
    "\<And>i. map_option me_message (M' i) = (if i \<in> set ids then m i else map_option me_message (?M i))"
    using Cons.prems(1) by auto
  ultimately show ?case using Cons.prems by (cases "m j") auto
qed simp

lemma cache_restart_ok:
  assumes r: "cache_at E C dir al others R c s m"
  shows "\<exists>c'. astarte_mqtt_caching_init E dir s = Some c' \<and> cache_at E C dir al others R c' s m"
proof -
  from restore_loop_ok [OF r message_ids(1), of Map.empty] obtain M where
    M: "restore_loop E message_ids s \<lparr>mc_map = Map.empty, mc_direction = dir\<rparr> = Some \<lparr>mc_map = M, mc_direction = dir\<rparr>"
    "\<And>i. map_option me_message (M i) = (if i \<noteq> 0 then m i else None)" by (auto simp: message_ids(2))
  have "map_option me_message (M i) = m i" for i using M(2) [of i] cache_atD(6) [OF r] by auto
  then show ?thesis
    using r M(1) by (auto simp: astarte_mqtt_caching_init_def astarte_mqtt_caching_restore_from_flash_def cache_at_def)
qed

section \<open>Runs\<close>

definition cache_may :: "(u16 \<rightharpoonup> mqtt_message) \<Rightarrow> cache_op list \<Rightarrow> bool" where
  "cache_may m ops \<longleftrightarrow> list_all cache_op_ok ops"

lemma cache_at_same:
  assumes "cache_at E C dir al others R c s m" and "\<And>i. map_option me_message (M i) = map_option me_message (mc_map c i)"
  shows "cache_at E C dir al others R (c\<lparr>mc_map := M\<rparr>) s m"
  using assms by (auto simp: cache_at_def)

lemma cache_step_refines:
  assumes r: "cache_rel E C dir al others cs m" and "cache_may m (x # xs)"
  shows "\<exists>cs'. cache_step E x cs = Some (fst (cache_spec x m), cs') \<and> cache_rel E C dir al others cs' (snd (cache_spec x m))"
proof -
  obtain c s where cs: "cs = (c, s)" by (cases cs)
  from r obtain R where R: "cache_at E C dir al others R c s m" by (auto simp: cache_rel_def cs)
  have ok: "cache_op_ok x" using assms(2) by (simp add: cache_may_def)
  show ?thesis
  proof (cases x)
    case (CacheInsert i msg)
    then show ?thesis using cache_insert_ok [OF R, of i msg] ok by (fastforce simp: cs cache_rel_def)
  next
    case (CacheFind i)
    then show ?thesis
      using r cache_at_None [OF R, of i] by (auto simp: cs astarte_mqtt_caching_find_message_def)
  next
    case (CacheTouch i)
    have "cache_at E C dir al others R (astarte_mqtt_caching_update_message_expiry E c i s) s m"
      using R cache_at_same [OF R, of "(mc_map c)(i \<mapsto> x)" for x]
      by (auto simp: astarte_mqtt_caching_update_message_expiry_def split: option.splits)
    then show ?thesis using CacheTouch by (auto simp: cs cache_rel_def)
  next
    case CacheExpire
    have "cache_at E C dir al others R (fst (astarte_mqtt_caching_check_message_expiry E c s)) s m"
      by (simp add: astarte_mqtt_caching_check_message_expiry_def case_prod_beta)
        (intro cache_at_same [OF R] expiry_loop_messages)
    then show ?thesis using CacheExpire by (auto simp: cs cache_rel_def)
  next
    case (CacheRemove i)
    then show ?thesis using cache_remove_ok [OF R, of i] by (auto simp: cs cache_rel_def)
  next
    case CacheClear
    then show ?thesis using cache_clear_ok [OF R] by (auto simp: cs cache_rel_def)
  next
    case CacheRestart
    then show ?thesis using cache_restart_ok [OF R] cache_atD(4) [OF R] by (auto simp: cs cache_rel_def)
  qed
qed

interpretation mc: refinement "cache_step E" cache_spec "cache_rel E C dir al others" cache_may
  for E C dir al others
  by unfold_locales (blast intro: cache_step_refines, simp add: cache_may_def)

end
