(* ===== verification/Mqtt_Spec.thy ===== *)
theory Mqtt_Spec
  imports Mqtt_Client Mqtt_Cache_Spec
begin

text \<open>
  What the MQTT client promises, operation by operation: the messages in flight in both directions are
  two maps, which survive a restart of the device, and every event is answered by the packets and the
  callbacks of the protocol.

  The callback of the device is \<open>record_cb\<close>, which writes down the notices it gets.
\<close>

section \<open>Identifiers in order\<close>

lemma id_distance_pos: "j \<noteq> 0 \<Longrightarrow> 0 < id_distance i j"
  using unsigned_less [of i] by (auto simp: id_distance_def unat_eq_zero)

lemma id_distance_Suc:
  assumes "j \<noteq> 0" and "next_message_id i \<noteq> j"
  shows "id_distance i j = Suc (id_distance (next_message_id i) j)"
proof -
  have "unat j \<noteq> 0" using assms(1) by (simp add: unat_eq_zero)
  moreover have "unat (next_message_id i) \<noteq> unat j" using assms(2) by (simp add: word_unat_eq_iff)
  moreover have "unat i < 65536" "unat j < 65536" using unsigned_less [of i] unsigned_less [of j] by simp_all
  ultimately show ?thesis
    unfolding id_distance_def unat_next_message_id by (auto split: if_splits)
qed

lemma id_distance_next_1: "id_distance i (next_message_id i) = 1"
  using unsigned_less [of i] by (auto simp: id_distance_def unat_next_message_id)

lemma message_id_first:
  assumes "message_id_loop m l = Some i"
  shows "\<forall>j. j \<noteq> 0 \<and> m j = None \<longrightarrow> id_distance l i \<le> id_distance l j"
proof (rule message_id_loop.raw_induct [where
      P = "\<lambda>m l i. (i \<noteq> 0 \<and> m i = None) \<and> (\<forall>j. j \<noteq> 0 \<and> m j = None \<longrightarrow> id_distance l i \<le> id_distance l j)",
      OF _ assms, THEN conjunct2])
  fix loop m l i
  assume IH: "\<And>m l i. loop m l = Some i \<Longrightarrow> (i \<noteq> 0 \<and> m i = None)
      \<and> (\<forall>j. j \<noteq> 0 \<and> m j = None \<longrightarrow> id_distance l i \<le> id_distance l j)"
    and e: "(let last_message_id = next_message_id l in
      if m last_message_id \<noteq> None then loop m last_message_id else Some last_message_id) = Some i"
  show "(i \<noteq> 0 \<and> m i = None) \<and> (\<forall>j. j \<noteq> 0 \<and> m j = None \<longrightarrow> id_distance l i \<le> id_distance l j)"
  proof (cases "m (next_message_id l) = None")
    case True
    then have "i = next_message_id l" using e by (simp add: Let_def)
    then show ?thesis
      using True next_message_id_nonzero [of l] id_distance_pos [of _ l]
      by (auto simp: id_distance_next_1 Suc_le_eq)
  next
    case False
    then have "loop m (next_message_id l) = Some i" using e by (simp add: Let_def)
    note ih = IH [OF this]
    have n: "next_message_id l \<noteq> j" if "m j = None" for j using that False by auto
    show ?thesis
    proof (intro conjI allI impI)
      show "i \<noteq> 0" "m i = None" using ih by blast+
      fix j assume j: "j \<noteq> 0 \<and> m j = None"
      then have "id_distance (next_message_id l) i \<le> id_distance (next_message_id l) j" using ih by blast
      then show "id_distance l i \<le> id_distance l j"
        using id_distance_Suc [OF _ n] ih j by auto
    qed
  qed
qed

lemma message_id_cong:
  assumes "message_id_loop m l = Some i" and "\<And>j. m j = None \<longleftrightarrow> m' j = None"
  shows "message_id_loop m' l = Some i"
proof -
  have "(\<forall>j. m j = None \<longleftrightarrow> m' j = None) \<longrightarrow> message_id_loop m' l = Some i"
  proof (rule message_id_loop.raw_induct [where
        P = "\<lambda>m l i. (\<forall>j. m j = None \<longleftrightarrow> m' j = None) \<longrightarrow> message_id_loop m' l = Some i", OF _ assms(1)])
    fix loop m l i
    assume IH: "\<And>m l i. loop m l = Some i \<Longrightarrow> (\<forall>j. m j = None \<longleftrightarrow> m' j = None) \<longrightarrow> message_id_loop m' l = Some i"
      and e: "(let last_message_id = next_message_id l in
        if m last_message_id \<noteq> None then loop m last_message_id else Some last_message_id) = Some i"
    show "(\<forall>j. m j = None \<longleftrightarrow> m' j = None) \<longrightarrow> message_id_loop m' l = Some i"
    proof
      assume same: "\<forall>j. m j = None \<longleftrightarrow> m' j = None"
      then have "m (next_message_id l) = None \<longleftrightarrow> m' (next_message_id l) = None" by (rule spec)
      then show "message_id_loop m' l = Some i"
        using e same IH [of m "next_message_id l" i]
        by (subst message_id_loop.simps) (auto simp: Let_def split: if_splits)
    qed
  qed
  then show ?thesis using assms(2) by blast
qed

section \<open>The specification\<close>

datatype mqtt_op =
    Event mqtt_evt
  | PublishMsg "byte list" "byte list option" u32 u32
  | SubscribeTo "byte list" u32
  | Restart

text \<open>Every operation is answered by packets and by notices to the device.\<close>

type_synonym mqtt_answer = "mqtt_packet list \<times> mqtt_notice list"

definition record_cb :: "(mqtt_notice list, 's) mqtt_cb" where
  "record_cb notice d s = Some (d @ [notice], s)"

primrec mqtt_step ::
    "'s mqtt_env \<Rightarrow> mqtt_config \<Rightarrow> mqtt_op \<Rightarrow> astarte_mqtt \<times> 's \<Rightarrow> (mqtt_answer \<times> astarte_mqtt \<times> 's) option" where
  "mqtt_step E cfg (Event evt) ms = do {
     (m, d, s) \<leftarrow> mqtt_evt_handler E cfg record_cb evt ((fst ms)\<lparr>am_packets := []\<rparr>) [] (snd ms);
     Some ((am_packets m, d), m, s) }"
| "mqtt_step E cfg (PublishMsg topic bytes data_size qos) ms = do {
     (m, s) \<leftarrow> astarte_mqtt_publish E ((fst ms)\<lparr>am_packets := []\<rparr>) topic bytes data_size qos (snd ms);
     Some ((am_packets m, []), m, s) }"
| "mqtt_step E cfg (SubscribeTo topic max_qos) ms = do {
     (m, s) \<leftarrow> astarte_mqtt_subscribe E ((fst ms)\<lparr>am_packets := []\<rparr>) topic max_qos (snd ms);
     Some ((am_packets m, []), m, s) }"
| "mqtt_step E cfg Restart ms = do {
     m \<leftarrow> astarte_mqtt_init E cfg (am_last_message_id (fst ms)) (snd ms);
     Some ((am_packets m, []), m, snd ms) }"

record mqtt_view =
  mv_state :: astarte_mqtt_connection_states_t
  mv_out :: "u16 \<rightharpoonup> mqtt_message"
  mv_in :: "u16 \<rightharpoonup> mqtt_message"
  mv_last :: u16

definition next_id :: "mqtt_view \<Rightarrow> u16" where
  "next_id a = the (message_id_loop (\<lambda>i. map_option (\<lambda>msg. \<lparr>me_end_of_validity = 0, me_message = msg\<rparr>) (mv_out a i)) (mv_last a))"

definition send_msg :: "mqtt_message \<Rightarrow> mqtt_view \<Rightarrow> mqtt_view" where
  "send_msg msg a = a\<lparr>mv_out := (mv_out a)(next_id a \<mapsto> mqtt_kept msg), mv_last := next_id a\<rparr>"

definition publish_msg :: "byte list \<Rightarrow> byte list option \<Rightarrow> u32 \<Rightarrow> u32 \<Rightarrow> mqtt_message" where
  "publish_msg topic bytes data_size qos = \<lparr>mm_type = STORAGE_MQTT_PUBLISH_ENTRY, mm_topic = Some topic,
     mm_data = bytes, mm_data_size = data_size, mm_qos = qos\<rparr>"

definition subscribe_msg :: "byte list \<Rightarrow> u32 \<Rightarrow> mqtt_message" where
  "subscribe_msg topic max_qos = \<lparr>mm_type = STORAGE_MQTT_SUBSCRIPTION_ENTRY, mm_topic = Some topic,
     mm_data = None, mm_data_size = 0, mm_qos = max_qos\<rparr>"

definition pubrec_msg :: mqtt_message where
  "pubrec_msg = \<lparr>mm_type = STORAGE_MQTT_PUBREC_ENTRY, mm_topic = None, mm_data = None, mm_data_size = 0, mm_qos = 2\<rparr>"

text \<open>The payload of a PUBLISH, when there is one.\<close>

definition publish_read :: "nat \<Rightarrow> publish_param \<Rightarrow> (int + byte list) list \<Rightarrow> (int \<times> byte list) option" where
  "publish_read max_size p reads = (let n = unat (pp_size p) in
     read_publish_payload reads (if max_size < n then max_size else n) n (max_size < n))"

definition blocked :: "mqtt_evt \<Rightarrow> mqtt_view \<Rightarrow> bool" where
  "blocked evt a \<longleftrightarrow> fst evt \<noteq> MQTT_EVT_DISCONNECT \<and>
     (mv_state a = ASTARTE_MQTT_CONNECTING \<and> \<not> is_connack (fst evt)
      \<or> mv_state a = ASTARTE_MQTT_DISCONNECTING \<or> snd evt \<noteq> 0)"

fun answer_event :: "nat \<Rightarrow> mqtt_evt_type \<Rightarrow> mqtt_view \<Rightarrow> mqtt_answer \<times> mqtt_view" where
  "answer_event max_size (MQTT_EVT_CONNACK flag) a =
     (([], [OnConnected flag]),
      (let a = (if mv_state a = ASTARTE_MQTT_CONNECTING then a\<lparr>mv_state := ASTARTE_MQTT_CONNECTED\<rparr> else a) in
       if flag = 0 then a\<lparr>mv_out := Map.empty, mv_in := Map.empty\<rparr> else a))"
| "answer_event max_size MQTT_EVT_DISCONNECT a =
     (([], [OnDisconnected]), a\<lparr>mv_state := (case mv_state a of
          ASTARTE_MQTT_CONNECTING \<Rightarrow> ASTARTE_MQTT_CONNECTION_ERROR
        | ASTARTE_MQTT_CONNECTED \<Rightarrow> ASTARTE_MQTT_CONNECTION_ERROR
        | ASTARTE_MQTT_DISCONNECTING \<Rightarrow> ASTARTE_MQTT_DISCONNECTED
        | st \<Rightarrow> st)\<rparr>)"
| "answer_event max_size (MQTT_EVT_PUBLISH p reads) a =
     (if fst (the (publish_read max_size p reads)) < 0 then (([], []), a)
      else
        let incoming = OnIncoming (pp_topic p) (snd (the (publish_read max_size p reads))); i = pp_message_id p in
        if pp_qos p = 1 then (([PktPuback i], [incoming]), a)
        else if pp_qos p = 2 then
          (if mv_in a i \<noteq> None then (([PktPubrec i], []), a)
           else (([PktPubrec i], [incoming]), a\<lparr>mv_in := (mv_in a)(i \<mapsto> pubrec_msg)\<rparr>))
        else (([], [incoming]), a))"
| "answer_event max_size (MQTT_EVT_PUBREL i) a = (([PktPubcomp i], []), a\<lparr>mv_in := (mv_in a)(i := None)\<rparr>)"
| "answer_event max_size (MQTT_EVT_PUBACK i) a = (([], [OnDelivered i]), a\<lparr>mv_out := (mv_out a)(i := None)\<rparr>)"
| "answer_event max_size (MQTT_EVT_PUBREC i) a = (([PktPubrel i], []), a)"
| "answer_event max_size (MQTT_EVT_PUBCOMP i) a = (([], [OnDelivered i]), a\<lparr>mv_out := (mv_out a)(i := None)\<rparr>)"
| "answer_event max_size (MQTT_EVT_SUBACK i codes) a =
     (([], [OnSubscribed i (case codes of [] \<Rightarrow> MQTT_SUBACK_FAILURE | c # _ \<Rightarrow> c)]), a\<lparr>mv_out := (mv_out a)(i := None)\<rparr>)"
| "answer_event max_size MQTT_EVT_OTHER a = (([], []), a)"

primrec mqtt_spec :: "nat \<Rightarrow> mqtt_op \<Rightarrow> mqtt_view \<Rightarrow> mqtt_answer \<times> mqtt_view" where
  "mqtt_spec max_size (Event evt) a = (if blocked evt a then (([], []), a) else answer_event max_size (fst evt) a)"
| "mqtt_spec max_size (PublishMsg topic bytes data_size qos) a =
     (if sint qos > 0
      then (([PktPublish topic bytes data_size qos (next_id a) False], []), send_msg (publish_msg topic bytes data_size qos) a)
      else (([PktPublish topic bytes data_size qos 0 False], []), a))"
| "mqtt_spec max_size (SubscribeTo topic max_qos) a =
     (([PktSubscribe topic max_qos (next_id a)], []), send_msg (subscribe_msg topic max_qos) a)"
| "mqtt_spec max_size Restart a = (([], []), a\<lparr>mv_state := ASTARTE_MQTT_DISCONNECTED\<rparr>)"

text \<open>What an operation needs: an answer of the library to every read, and a free identifier.\<close>

definition free_id :: "mqtt_view \<Rightarrow> bool" where
  "free_id a \<longleftrightarrow> (\<exists>j. j \<noteq> 0 \<and> mv_out a j = None)"

definition read_ok :: "nat \<Rightarrow> mqtt_evt_type \<Rightarrow> bool" where
  "read_ok max_size t \<longleftrightarrow> (case t of
     MQTT_EVT_PUBLISH p reads \<Rightarrow> publish_read max_size p reads \<noteq> None \<and> (pp_qos p = 2 \<longrightarrow> pp_message_id p \<noteq> 0)
   | _ \<Rightarrow> True)"

definition op_ok :: "nat \<Rightarrow> mqtt_op \<Rightarrow> mqtt_view \<Rightarrow> bool" where
  "op_ok max_size x a \<longleftrightarrow> (case x of
     Event evt \<Rightarrow> read_ok max_size (fst evt)
   | PublishMsg topic bytes data_size qos \<Rightarrow> mqtt_valid (publish_msg topic bytes data_size qos) \<and> free_id a
   | SubscribeTo topic max_qos \<Rightarrow> mqtt_valid (subscribe_msg topic max_qos) \<and> free_id a
   | Restart \<Rightarrow> True)"

primrec ops_ok :: "nat \<Rightarrow> mqtt_op list \<Rightarrow> mqtt_view \<Rightarrow> bool" where
  "ops_ok max_size [] a \<longleftrightarrow> True"
| "ops_ok max_size (x # xs) a \<longleftrightarrow> op_ok max_size x a \<and> ops_ok max_size xs (snd (mqtt_spec max_size x a))"

section \<open>The relation\<close>

text \<open>Both caches are in the same storage, at identifiers of their own.\<close>

definition sendable :: "(u16 \<rightharpoonup> mqtt_message) \<Rightarrow> bool" where
  "sendable out \<longleftrightarrow> (\<forall>i msg. out i = Some msg \<longrightarrow> mm_topic msg \<noteq> None
     \<and> (mm_type msg = STORAGE_MQTT_PUBLISH_ENTRY \<or> mm_type msg = STORAGE_MQTT_SUBSCRIPTION_ENTRY))"

definition in_flight ::
    "'s mqtt_env \<Rightarrow> ('s \<Rightarrow> u32 \<rightharpoonup> byte list) \<Rightarrow> (kv_key \<times> byte list) list \<Rightarrow> mqtt_caching \<Rightarrow> mqtt_caching \<Rightarrow> 's
      \<Rightarrow> (u16 \<rightharpoonup> mqtt_message) \<Rightarrow> (u16 \<rightharpoonup> mqtt_message) \<Rightarrow> bool" where
  "in_flight E C al out_msgs in_msgs s mo mi \<longleftrightarrow> (\<exists>R. cache_at E C STORAGE_MQTT_MSG_OUTGOING al R R out_msgs s mo
     \<and> cache_at E C STORAGE_MQTT_MSG_INCOMING al R R in_msgs s mi) \<and> sendable mo"

definition mqtt_rel ::
    "'s mqtt_env \<Rightarrow> ('s \<Rightarrow> u32 \<rightharpoonup> byte list) \<Rightarrow> (kv_key \<times> byte list) list \<Rightarrow> astarte_mqtt \<times> 's \<Rightarrow> mqtt_view \<Rightarrow> bool" where
  "mqtt_rel E C al ms a \<longleftrightarrow> in_flight E C al (am_out_msgs (fst ms)) (am_in_msgs (fst ms)) (snd ms) (mv_out a) (mv_in a)
     \<and> am_connection_state (fst ms) = mv_state a \<and> am_last_message_id (fst ms) = mv_last a"

lemma cache_at_other_side:
  assumes "cache_at E C dir al R R c s m" and "cache_at E C dir' al R R' c' s' m'" and "dir \<noteq> dir'"
  shows "cache_at E C dir al R' R' c s' m" and "cache_at E C dir' al R' R' c' s' m'"
proof -
  have "direction_to_alternate dir' = (\<not> direction_to_alternate dir)"
    using assms(3) by (cases dir; cases dir') (simp_all add: direction_to_alternate_def)
  then have "R' (full_key (direction_to_alternate dir) i) = R (full_key (direction_to_alternate dir) i)" for i
    using assms(2) by (simp add: cache_at_def)
  then show "cache_at E C dir al R' R' c s' m" using assms(1,2) by (simp add: cache_at_def)
  show "cache_at E C dir' al R' R' c' s' m'" using assms(2) by (simp add: cache_at_def)
qed

lemma in_flight_in:
  assumes "in_flight E C al out_msgs in_msgs s mo mi"
    and "\<And>R. cache_at E C STORAGE_MQTT_MSG_INCOMING al R R in_msgs s mi
      \<Longrightarrow> \<exists>R'. cache_at E C STORAGE_MQTT_MSG_INCOMING al R R' in_msgs' s' mi'"
  shows "in_flight E C al out_msgs in_msgs' s' mo mi'"
proof -
  from assms(1) obtain R where o: "cache_at E C STORAGE_MQTT_MSG_OUTGOING al R R out_msgs s mo"
    and i: "cache_at E C STORAGE_MQTT_MSG_INCOMING al R R in_msgs s mi" and so: "sendable mo"
    by (auto simp: in_flight_def)
  from assms(2) [OF i] obtain R' where "cache_at E C STORAGE_MQTT_MSG_INCOMING al R R' in_msgs' s' mi'" by blast
  from cache_at_other_side [OF o this] so show ?thesis unfolding in_flight_def by blast
qed

lemma in_flight_out:
  assumes "in_flight E C al out_msgs in_msgs s mo mi"
    and "\<And>R. cache_at E C STORAGE_MQTT_MSG_OUTGOING al R R out_msgs s mo
      \<Longrightarrow> \<exists>R'. cache_at E C STORAGE_MQTT_MSG_OUTGOING al R R' out_msgs' s' mo'"
    and "sendable mo \<Longrightarrow> sendable mo'"
  shows "in_flight E C al out_msgs' in_msgs s' mo' mi"
proof -
  from assms(1) obtain R where o: "cache_at E C STORAGE_MQTT_MSG_OUTGOING al R R out_msgs s mo"
    and i: "cache_at E C STORAGE_MQTT_MSG_INCOMING al R R in_msgs s mi" and so: "sendable mo"
    by (auto simp: in_flight_def)
  from assms(2) [OF o] obtain R' where "cache_at E C STORAGE_MQTT_MSG_OUTGOING al R R' out_msgs' s' mo'" by blast
  from cache_at_other_side [OF i this] so assms(3) show ?thesis unfolding in_flight_def by blast
qed

lemma in_flightE:
  assumes "in_flight E C al out_msgs in_msgs s mo mi"
  obtains R where "cache_at E C STORAGE_MQTT_MSG_OUTGOING al R R out_msgs s mo"
    "cache_at E C STORAGE_MQTT_MSG_INCOMING al R R in_msgs s mi" "sendable mo"
  using assms by (auto simp: in_flight_def)

section \<open>Operations on the caches\<close>

lemma in_flight_heap: "in_flight E C al out_msgs in_msgs s mo mi \<Longrightarrow> k_heap (mq_kv E) t n"
  by (elim in_flightE) (rule cache_atD(11))

lemma sendable_remove: "sendable mo \<Longrightarrow> sendable (mo(i := None))"
  by (simp add: sendable_def)

lemma remove_outgoing_ok:
  assumes "in_flight E C al (am_out_msgs m) (am_in_msgs m) s mo mi"
  obtains out_msgs s' where "remove_outgoing E i m s = (m\<lparr>am_out_msgs := out_msgs\<rparr>, s')"
    "in_flight E C al out_msgs (am_in_msgs m) s' (mo(i := None)) mi"
proof -
  obtain c s' where r: "astarte_mqtt_caching_remove_message E (am_out_msgs m) i s = (c, s')" by (meson surj_pair)
  have "in_flight E C al c (am_in_msgs m) s' (mo(i := None)) mi"
    by (rule in_flight_out [OF assms, OF _ sendable_remove]) (drule cache_remove_ok [where i = i], simp add: r)
  then show thesis using that r by (simp add: remove_outgoing_def)
qed

lemma remove_incoming_ok:
  assumes "in_flight E C al (am_out_msgs m) (am_in_msgs m) s mo mi"
  obtains in_msgs s' where "astarte_mqtt_caching_remove_message E (am_in_msgs m) i s = (in_msgs, s')"
    "in_flight E C al (am_out_msgs m) in_msgs s' mo (mi(i := None))"
proof -
  obtain c s' where r: "astarte_mqtt_caching_remove_message E (am_in_msgs m) i s = (c, s')" by (meson surj_pair)
  have "in_flight E C al (am_out_msgs m) c s' mo (mi(i := None))"
    by (rule in_flight_in [OF assms]) (drule cache_remove_ok [where i = i], simp add: r)
  then show thesis using that r by blast
qed

lemma insert_incoming_ok:
  assumes "in_flight E C al out_msgs in_msgs s mo mi" and "i \<noteq> 0" and "mqtt_valid msg"
  obtains in_msgs' s' where "astarte_mqtt_caching_insert_message E in_msgs i msg s = Some (in_msgs', s')"
    "in_flight E C al out_msgs in_msgs' s' mo (if mi i = None then mi(i \<mapsto> mqtt_kept msg) else mi)"
proof -
  from in_flightE [OF assms(1)] obtain R where "cache_at E C STORAGE_MQTT_MSG_INCOMING al R R in_msgs s mi" by blast
  from cache_insert_ok [OF this assms(2,3)] obtain c s' where
    r: "astarte_mqtt_caching_insert_message E in_msgs i msg s = Some (c, s')" by blast
  have "in_flight E C al out_msgs c s' mo (if mi i = None then mi(i \<mapsto> mqtt_kept msg) else mi)"
    by (rule in_flight_in [OF assms(1)]) (drule cache_insert_ok [OF _ assms(2,3)], simp add: r)
  then show thesis using that r by blast
qed

lemma insert_outgoing_ok:
  assumes "in_flight E C al out_msgs in_msgs s mo mi" and "i \<noteq> 0" and "mo i = None" and "mqtt_valid msg"
    and "mm_topic msg \<noteq> None" and "mm_type msg = STORAGE_MQTT_PUBLISH_ENTRY \<or> mm_type msg = STORAGE_MQTT_SUBSCRIPTION_ENTRY"
  obtains out_msgs' s' where "astarte_mqtt_caching_insert_message E out_msgs i msg s = Some (out_msgs', s')"
    "in_flight E C al out_msgs' in_msgs s' (mo(i \<mapsto> mqtt_kept msg)) mi"
proof -
  from in_flightE [OF assms(1)] obtain R where "cache_at E C STORAGE_MQTT_MSG_OUTGOING al R R out_msgs s mo" by blast
  from cache_insert_ok [OF this assms(2,4)] obtain c s' where
    r: "astarte_mqtt_caching_insert_message E out_msgs i msg s = Some (c, s')" by blast
  have "in_flight E C al c in_msgs s' (mo(i \<mapsto> mqtt_kept msg)) mi"
  proof (rule in_flight_out [OF assms(1)])
    fix R assume "cache_at E C STORAGE_MQTT_MSG_OUTGOING al R R out_msgs s mo"
    from cache_insert_ok [OF this assms(2,4)] r assms(3)
    show "\<exists>R'. cache_at E C STORAGE_MQTT_MSG_OUTGOING al R R' c s' (mo(i \<mapsto> mqtt_kept msg))" by auto
  next
    show "sendable mo \<Longrightarrow> sendable (mo(i \<mapsto> mqtt_kept msg))"
      using assms(5,6) by (auto simp: sendable_def mqtt_kept_def)
  qed
  then show thesis using that r by blast
qed

lemma clear_pending_ok:
  assumes "in_flight E C al (am_out_msgs m) (am_in_msgs m) s mo mi"
  obtains in_msgs out_msgs s' where
    "astarte_mqtt_clear_all_pending E m s = (m\<lparr>am_in_msgs := in_msgs, am_out_msgs := out_msgs\<rparr>, s')"
    "in_flight E C al out_msgs in_msgs s' Map.empty Map.empty"
proof -
  obtain ci s1 where i: "astarte_mqtt_caching_clear_messages E (am_in_msgs m) s = (ci, s1)" by (meson surj_pair)
  obtain co s2 where o: "astarte_mqtt_caching_clear_messages E (am_out_msgs m) s1 = (co, s2)" by (meson surj_pair)
  have "in_flight E C al (am_out_msgs m) ci s1 mo Map.empty"
    by (rule in_flight_in [OF assms]) (drule cache_clear_ok, simp add: i)
  then have "in_flight E C al co ci s2 Map.empty Map.empty"
    by (rule in_flight_out) (drule cache_clear_ok, simp_all add: o sendable_def)
  then show thesis using that i o by (simp add: astarte_mqtt_clear_all_pending_def)
qed

end
