(* ===== verification/Mqtt_Refine.thy ===== *)
theory Mqtt_Refine
  imports Mqtt_Spec
begin

text \<open>
  The MQTT client meets its specification: every event handler, the two ways to send a message, and
  the restart.
\<close>

definition meets ::
    "'s mqtt_env \<Rightarrow> ('s \<Rightarrow> u32 \<rightharpoonup> byte list) \<Rightarrow> (kv_key \<times> byte list) list
      \<Rightarrow> (astarte_mqtt \<times> mqtt_notice list \<times> 's) option \<Rightarrow> mqtt_answer \<times> mqtt_view \<Rightarrow> bool" where
  "meets E C al r spec \<longleftrightarrow> (\<exists>m' s'. r = Some (m', snd (fst spec), s') \<and> am_packets m' = fst (fst spec)
     \<and> mqtt_rel E C al (m', s') (snd spec))"

lemma meetsI:
  assumes "r = Some (m', d, s')" and "am_packets m' = ps"
    and "in_flight E C al (am_out_msgs m') (am_in_msgs m') s' (mv_out a) (mv_in a)"
    and "am_connection_state m' = mv_state a" and "am_last_message_id m' = mv_last a"
  shows "meets E C al r ((ps, d), a)"
  using assms by (simp add: meets_def mqtt_rel_def)

lemma reset_view [simp]:
  "mqtt_rel E C al (m\<lparr>am_packets := ps\<rparr>, s) a = mqtt_rel E C al (m, s) a"
  by (simp add: mqtt_rel_def)

section \<open>Events\<close>

lemma relD:
  assumes "mqtt_rel E C al (m, s) a"
  shows "in_flight E C al (am_out_msgs m) (am_in_msgs m) s (mv_out a) (mv_in a)"
    and "am_connection_state m = mv_state a" and "am_last_message_id m = mv_last a"
  using assms by (simp_all add: mqtt_rel_def)

lemma nothing_ok:
  assumes rel: "mqtt_rel E C al (m, s) a" and fresh: "am_packets m = []"
  shows "meets E C al (Some (m, [], s)) (([], []), a)"
  using relD [OF rel] by (intro meetsI [OF refl fresh]) simp_all

lemma connack_ok:
  assumes rel: "mqtt_rel E C al (m, s) a" and fresh: "am_packets m = []"
  shows "meets E C al (astarte_mqtt_handle_connack_event E cfg record_cb flag m [] s) (answer_event n (MQTT_EVT_CONNACK flag) a)"
proof -
  note flight = relD(1) [OF rel] and same_state = relD(2) [OF rel] and same_last = relD(3) [OF rel]
  let ?m = "(if am_connection_state m = ASTARTE_MQTT_CONNECTING
      then m\<lparr>am_backoff := reset_backoff cfg (am_backoff m), am_connection_state := ASTARTE_MQTT_CONNECTED\<rparr>
      else m\<lparr>am_backoff := reset_backoff cfg (am_backoff m)\<rparr>)"
  have f: "in_flight E C al (am_out_msgs ?m) (am_in_msgs ?m) s (mv_out a) (mv_in a)" using flight by simp
  from clear_pending_ok [OF f] obtain ci co s' where c: "astarte_mqtt_clear_all_pending E ?m s
      = (?m\<lparr>am_in_msgs := ci, am_out_msgs := co\<rparr>, s')" "in_flight E C al co ci s' Map.empty Map.empty" .
  show ?thesis
    using c f fresh same_state same_last
    by (cases "am_connection_state m = ASTARTE_MQTT_CONNECTING"; cases "flag = 0")
      (auto simp: astarte_mqtt_handle_connack_event_def notify_def record_cb_def Let_def intro!: meetsI)
qed

lemma disconnect_ok:
  assumes rel: "mqtt_rel E C al (m, s) a" and fresh: "am_packets m = []"
  shows "meets E C al (astarte_mqtt_handle_disconnection_event record_cb m [] s) (answer_event n MQTT_EVT_DISCONNECT a)"
  using relD [OF rel] fresh
  by (auto simp: astarte_mqtt_handle_disconnection_event_def notify_def record_cb_def intro!: meetsI)

lemma pubrel_ok:
  assumes rel: "mqtt_rel E C al (m, s) a" and fresh: "am_packets m = []"
  shows "meets E C al (case astarte_mqtt_handle_pubrel_event E i m s of (m, s) \<Rightarrow> Some (m, [], s))
     (answer_event n (MQTT_EVT_PUBREL i) a)"
proof -
  note flight = relD(1) [OF rel] and same_state = relD(2) [OF rel] and same_last = relD(3) [OF rel]
  from remove_incoming_ok [OF flight] obtain ci s' where
    "astarte_mqtt_caching_remove_message E (am_in_msgs m) i s = (ci, s')"
    "in_flight E C al (am_out_msgs m) ci s' (mv_out a) ((mv_in a)(i := None))" .
  then show ?thesis
    using fresh same_state same_last
    by (auto simp: astarte_mqtt_handle_pubrel_event_def send_packet_def intro!: meetsI)
qed

lemma delivered_ok:
  assumes rel: "mqtt_rel E C al (m, s) a" and fresh: "am_packets m = []"
  shows "meets E C al (case remove_outgoing E i m s of (m, s) \<Rightarrow> notify record_cb notice m [] s)
     (([], [notice]), a\<lparr>mv_out := (mv_out a)(i := None)\<rparr>)"
proof -
  note flight = relD(1) [OF rel] and same_state = relD(2) [OF rel] and same_last = relD(3) [OF rel]
  from remove_outgoing_ok [OF flight] obtain co s' where
    "remove_outgoing E i m s = (m\<lparr>am_out_msgs := co\<rparr>, s')"
    "in_flight E C al co (am_in_msgs m) s' ((mv_out a)(i := None)) (mv_in a)" .
  then show ?thesis
    using fresh same_state same_last by (auto simp: notify_def record_cb_def intro!: meetsI)
qed

lemma update_expiry_messages:
  "map_option me_message (mc_map (astarte_mqtt_caching_update_message_expiry E c i s) j) = map_option me_message (mc_map c j)"
  "\<exists>M. astarte_mqtt_caching_update_message_expiry E c i s = c\<lparr>mc_map := M\<rparr>"
  by (cases "mc_map c i"; force simp: astarte_mqtt_caching_update_message_expiry_def intro: exI [of _ "mc_map c"])+

lemma pubrec_ok:
  assumes rel: "mqtt_rel E C al (m, s) a" and fresh: "am_packets m = []"
  shows "meets E C al (Some (astarte_mqtt_handle_pubrec_event E i m s, [], s)) (answer_event n (MQTT_EVT_PUBREC i) a)"
proof -
  note flight = relD(1) [OF rel] and same_state = relD(2) [OF rel] and same_last = relD(3) [OF rel]
  have "in_flight E C al (astarte_mqtt_caching_update_message_expiry E (am_out_msgs m) i s) (am_in_msgs m) s (mv_out a) (mv_in a)"
  proof (rule in_flight_out [OF flight])
    fix R assume c: "cache_at E C STORAGE_MQTT_MSG_OUTGOING al R R (am_out_msgs m) s (mv_out a)"
    from update_expiry_messages(2) obtain M where
      M: "astarte_mqtt_caching_update_message_expiry E (am_out_msgs m) i s = am_out_msgs m\<lparr>mc_map := M\<rparr>" ..
    have "map_option me_message (M j) = map_option me_message (mc_map (am_out_msgs m) j)" for j
      using update_expiry_messages(1) [of E "am_out_msgs m" i s j] by (simp add: M)
    from cache_at_same [OF c this] show "\<exists>R'. cache_at E C STORAGE_MQTT_MSG_OUTGOING al R R'
        (astarte_mqtt_caching_update_message_expiry E (am_out_msgs m) i s) s (mv_out a)" unfolding M by blast
  qed
  then show ?thesis
    using fresh same_state same_last
    by (auto simp: astarte_mqtt_handle_pubrec_event_def send_packet_def intro!: meetsI)
qed

lemma pubrec_valid: "mqtt_valid pubrec_msg" "mqtt_kept pubrec_msg = pubrec_msg"
  by (simp_all add: mqtt_valid_def pubrec_msg_def mqtt_kept_def)

lemma found_incoming:
  assumes rel: "mqtt_rel E C al (m, s) a"
  shows "astarte_mqtt_caching_find_message (am_in_msgs m) i \<longleftrightarrow> mv_in a i \<noteq> None"
  using in_flightE [OF relD(1) [OF rel]] cache_at_None unfolding astarte_mqtt_caching_find_message_def by metis

lemma publish_ok:
  assumes rel: "mqtt_rel E C al (m, s) a" and fresh: "am_packets m = []"
    and "read_ok (mf_max_msg_size cfg) (MQTT_EVT_PUBLISH p reads)"
  shows "meets E C al (astarte_mqtt_handle_publish_event E cfg record_cb p reads m [] s)
    (answer_event (mf_max_msg_size cfg) (MQTT_EVT_PUBLISH p reads) a)"
proof -
  note flight = relD(1) [OF rel] and same_state = relD(2) [OF rel] and same_last = relD(3) [OF rel]
  let ?n = "mf_max_msg_size cfg" and ?i = "pp_message_id p"
  obtain rc bytes where r: "publish_read ?n p reads = Some (rc, bytes)"
    using assms(3) by (auto simp: read_ok_def)
  have heap: "k_heap (mq_kv E) t k" for t k by (rule in_flight_heap [OF flight])
  have e: "astarte_mqtt_handle_publish_event E cfg record_cb p reads m [] s =
    (if rc < 0 then Some (m, [], s)
     else do {
       (rc, m, s) \<leftarrow> acknowledge_qos E ?i (pp_qos p) m s;
       if rc < 0 then Some (m, [], s) else Some (m, [OnIncoming (pp_topic p) bytes], s) })"
    using r heap
    by (auto simp: astarte_mqtt_handle_publish_event_def publish_read_def Let_def astarte_calloc_def notify_def record_cb_def
        intro!: Option.bind_cong)
  consider (refused) "rc < 0" | (once) "\<not> rc < 0" "pp_qos p = 1"
    | (again) "\<not> rc < 0" "pp_qos p = 2" "mv_in a ?i \<noteq> None" | (first) "\<not> rc < 0" "pp_qos p = 2" "mv_in a ?i = None"
    | (other) "\<not> rc < 0" "pp_qos p \<noteq> 1" "pp_qos p \<noteq> 2" by blast
  then show ?thesis
  proof cases
    case refused
    then show ?thesis using nothing_ok [OF rel fresh] r e by simp
  next
    case once
    then show ?thesis
      using r e fresh flight same_state same_last
      by (auto simp: acknowledge_qos_def send_packet_def Let_def intro!: meetsI)
  next
    case again
    then show ?thesis
      using r e fresh flight same_state same_last found_incoming [OF rel, of ?i]
      by (auto simp: acknowledge_qos_def send_packet_def Let_def intro!: meetsI)
  next
    case first
    then have "?i \<noteq> 0" using assms(3) by (simp add: read_ok_def)
    from insert_incoming_ok [OF flight this pubrec_valid(1)] obtain ci s' where
      "astarte_mqtt_caching_insert_message E (am_in_msgs m) ?i pubrec_msg s = Some (ci, s')"
      "in_flight E C al (am_out_msgs m) ci s' (mv_out a) ((mv_in a)(?i \<mapsto> pubrec_msg))"
      unfolding if_P [OF first(3)] pubrec_valid(2) .
    then show ?thesis
      using first r e fresh same_state same_last found_incoming [OF rel, of ?i]
      by (auto simp: acknowledge_qos_def send_packet_def Let_def pubrec_msg_def intro!: meetsI)
  next
    case other
    then show ?thesis
      using r e fresh flight same_state same_last
      by (auto simp: acknowledge_qos_def Let_def intro!: meetsI)
  qed
qed

lemma event_ok:
  assumes rel: "mqtt_rel E C al (m, s) a" and fresh: "am_packets m = []"
    and "read_ok (mf_max_msg_size cfg) (fst evt)"
  shows "meets E C al (mqtt_evt_handler E cfg record_cb evt m [] s) (mqtt_spec (mf_max_msg_size cfg) (Event evt) a)"
proof (cases "blocked evt a")
  case True
  note same_state = relD(2) [OF rel]
  from True have "mqtt_evt_handler E cfg record_cb evt m [] s = Some (m, [], s)"
    using same_state by (cases evt) (auto simp: mqtt_evt_handler_def blocked_def)
  then show ?thesis using True nothing_ok [OF rel fresh] by simp
next
  case False
  note same_state = relD(2) [OF rel]
  obtain t res where evt: "evt = (t, res)" by (cases evt)
  have "mqtt_evt_handler E cfg record_cb evt m [] s = (case t of
       MQTT_EVT_CONNACK flag \<Rightarrow> astarte_mqtt_handle_connack_event E cfg record_cb flag m [] s
     | MQTT_EVT_DISCONNECT \<Rightarrow> astarte_mqtt_handle_disconnection_event record_cb m [] s
     | MQTT_EVT_PUBLISH publish reads \<Rightarrow> astarte_mqtt_handle_publish_event E cfg record_cb publish reads m [] s
     | MQTT_EVT_PUBREL i \<Rightarrow> (case astarte_mqtt_handle_pubrel_event E i m s of (m, s) \<Rightarrow> Some (m, [], s))
     | MQTT_EVT_PUBACK i \<Rightarrow> astarte_mqtt_handle_puback_event E record_cb i m [] s
     | MQTT_EVT_PUBREC i \<Rightarrow> Some (astarte_mqtt_handle_pubrec_event E i m s, [], s)
     | MQTT_EVT_PUBCOMP i \<Rightarrow> astarte_mqtt_handle_pubcomp_event E record_cb i m [] s
     | MQTT_EVT_SUBACK i codes \<Rightarrow> astarte_mqtt_handle_suback_event E record_cb i codes m [] s
     | MQTT_EVT_OTHER \<Rightarrow> Some (m, [], s))"
    using False same_state by (auto simp: mqtt_evt_handler_def blocked_def evt)
  moreover have "mqtt_spec (mf_max_msg_size cfg) (Event evt) a = answer_event (mf_max_msg_size cfg) t a"
    using False by (simp add: evt)
  ultimately show ?thesis
    using connack_ok [OF rel fresh] disconnect_ok [OF rel fresh] publish_ok [OF rel fresh] assms(3)
      pubrel_ok [OF rel fresh] pubrec_ok [OF rel fresh] delivered_ok [OF rel fresh] nothing_ok [OF rel fresh]
    by (cases t) (auto simp: evt astarte_mqtt_handle_puback_event_def astarte_mqtt_handle_pubcomp_event_def
        astarte_mqtt_handle_suback_event_def simp del: answer_event.simps(1,2,3,4,6))
qed

section \<open>Sending and restarting\<close>

lemma allocated:
  assumes rel: "mqtt_rel E C al (m, s) a" and free: "free_id a"
  shows "allocate_id m = Some (next_id a, m\<lparr>am_last_message_id := next_id a\<rparr>)"
    and "next_id a \<noteq> 0" and "mv_out a (next_id a) = None"
proof -
  let ?view = "\<lambda>i. map_option (\<lambda>msg. \<lparr>me_end_of_validity = 0, me_message = msg\<rparr>) (mv_out a i)"
  have same: "mc_map (am_out_msgs m) i = None \<longleftrightarrow> ?view i = None" for i
    using in_flightE [OF relD(1) [OF rel]] cache_at_None option.map_disc_iff by metis
  obtain i where i: "message_id_loop (mc_map (am_out_msgs m)) (am_last_message_id m) = Some i"
    using message_id_found free same unfolding free_id_def option.map_disc_iff by metis
  from message_id_cong [OF i same] have "message_id_loop ?view (mv_last a) = Some i"
    using relD(3) [OF rel] by simp
  then have "i = next_id a" by (simp add: next_id_def)
  then show "allocate_id m = Some (next_id a, m\<lparr>am_last_message_id := next_id a\<rparr>)"
    and "next_id a \<noteq> 0" and "mv_out a (next_id a) = None"
    using i message_id_free [OF i] same
    by (auto simp: allocate_id_def astarte_mqtt_caching_get_available_message_id_def)
qed

lemma sent_ok:
  assumes rel: "mqtt_rel E C al (m, s) a" and free: "free_id a" and v: "mqtt_valid msg"
    and t: "mm_topic msg \<noteq> None" "mm_type msg = STORAGE_MQTT_PUBLISH_ENTRY \<or> mm_type msg = STORAGE_MQTT_SUBSCRIPTION_ENTRY"
  obtains m' s' where "cache_outgoing E (next_id a) msg (m\<lparr>am_last_message_id := next_id a\<rparr>) s = Some (m', s')"
    "mqtt_rel E C al (m', s') (send_msg msg a)" "am_packets m' = am_packets m"
proof -
  from insert_outgoing_ok [OF relD(1) [OF rel] allocated(2,3) [OF rel free] v t] obtain co s' where
    "astarte_mqtt_caching_insert_message E (am_out_msgs m) (next_id a) msg s = Some (co, s')"
    "in_flight E C al co (am_in_msgs m) s' ((mv_out a)(next_id a \<mapsto> mqtt_kept msg)) (mv_in a)" .
  then show thesis
    using relD(2) [OF rel]
    by (intro that [of "m\<lparr>am_last_message_id := next_id a, am_out_msgs := co\<rparr>" s'])
      (simp_all add: cache_outgoing_def mqtt_rel_def send_msg_def)
qed

lemma valid_topic: "mqtt_valid msg \<Longrightarrow> mm_topic msg = Some topic \<Longrightarrow> c_string topic = topic"
  by (simp add: mqtt_valid_def c_string_nul_free)

lemma publish_msg_simps [simp]:
  "mm_topic (publish_msg t d n q) = Some t" "mm_type (publish_msg t d n q) = STORAGE_MQTT_PUBLISH_ENTRY"
  "mm_topic (subscribe_msg t q) = Some t" "mm_type (subscribe_msg t q) = STORAGE_MQTT_SUBSCRIPTION_ENTRY"
  by (simp_all add: publish_msg_def subscribe_msg_def)

lemma send_packet_simps [simp]:
  "mqtt_rel E C al (send_packet p m, s) a = mqtt_rel E C al (m, s) a"
  "am_packets (send_packet p m) = am_packets m @ [p]"
  by (simp_all add: send_packet_def)

lemma publish_step_ok:
  assumes rel: "mqtt_rel E C al (m, s) a" and fresh: "am_packets m = []" and free: "free_id a"
    and v: "mqtt_valid (publish_msg topic bytes n qos)"
  obtains m' s' where "astarte_mqtt_publish E m topic bytes n qos s = Some (m', s')"
    "mqtt_rel E C al (m', s') (snd (mqtt_spec k (PublishMsg topic bytes n qos) a))"
    "(am_packets m', []) = fst (mqtt_spec k (PublishMsg topic bytes n qos) a)"
proof (cases "sint qos > 0")
  case True
  from sent_ok [OF rel free v] obtain m' s' where
    "cache_outgoing E (next_id a) (publish_msg topic bytes n qos) (m\<lparr>am_last_message_id := next_id a\<rparr>) s = Some (m', s')"
    "mqtt_rel E C al (m', s') (send_msg (publish_msg topic bytes n qos) a)" "am_packets m' = am_packets m" by auto
  then show thesis
    using True fresh allocated(1) [OF rel free] valid_topic [OF v]
    by (intro that [of "send_packet (PktPublish topic bytes n qos (next_id a) False) m'" s'])
      (auto simp: astarte_mqtt_publish_def publish_msg_def)
next
  case False
  then show thesis
    using rel fresh valid_topic [OF v]
    by (intro that [of "send_packet (PktPublish topic bytes n qos 0 False) m" s]) (auto simp: astarte_mqtt_publish_def)
qed

lemma subscribe_step_ok:
  assumes rel: "mqtt_rel E C al (m, s) a" and fresh: "am_packets m = []" and free: "free_id a"
    and v: "mqtt_valid (subscribe_msg topic qos)"
  obtains m' s' where "astarte_mqtt_subscribe E m topic qos s = Some (m', s')"
    "mqtt_rel E C al (m', s') (snd (mqtt_spec k (SubscribeTo topic qos) a))"
    "(am_packets m', []) = fst (mqtt_spec k (SubscribeTo topic qos) a)"
proof -
  from sent_ok [OF rel free v] obtain m' s' where
    "cache_outgoing E (next_id a) (subscribe_msg topic qos) (m\<lparr>am_last_message_id := next_id a\<rparr>) s = Some (m', s')"
    "mqtt_rel E C al (m', s') (send_msg (subscribe_msg topic qos) a)" "am_packets m' = am_packets m" by auto
  then show thesis
    using fresh allocated(1) [OF rel free] valid_topic [OF v]
    by (intro that [of "send_packet (PktSubscribe topic qos (next_id a)) m'" s'])
      (auto simp: astarte_mqtt_subscribe_def subscribe_msg_def)
qed

lemma restart_step_ok:
  assumes rel: "mqtt_rel E C al (m, s) a"
  obtains m' where "astarte_mqtt_init E cfg (am_last_message_id m) s = Some m'"
    "mqtt_rel E C al (m', s) (a\<lparr>mv_state := ASTARTE_MQTT_DISCONNECTED\<rparr>)" "am_packets m' = []"
    "astarte_mqtt_caching_init E STORAGE_MQTT_MSG_OUTGOING s = Some (am_out_msgs m')"
    "astarte_mqtt_caching_init E STORAGE_MQTT_MSG_INCOMING s = Some (am_in_msgs m')"
proof -
  from in_flightE [OF relD(1) [OF rel]] obtain R where
    o: "cache_at E C STORAGE_MQTT_MSG_OUTGOING al R R (am_out_msgs m) s (mv_out a)" and
    i: "cache_at E C STORAGE_MQTT_MSG_INCOMING al R R (am_in_msgs m) s (mv_in a)" and so: "sendable (mv_out a)" .
  from cache_restart_ok [OF o] obtain co where
    co: "astarte_mqtt_caching_init E STORAGE_MQTT_MSG_OUTGOING s = Some co"
    "cache_at E C STORAGE_MQTT_MSG_OUTGOING al R R co s (mv_out a)" by blast
  from cache_restart_ok [OF i] obtain ci where
    ci: "astarte_mqtt_caching_init E STORAGE_MQTT_MSG_INCOMING s = Some ci"
    "cache_at E C STORAGE_MQTT_MSG_INCOMING al R R ci s (mv_in a)" by blast
  have "in_flight E C al co ci s (mv_out a) (mv_in a)" using co(2) ci(2) so by (auto simp: in_flight_def)
  then show thesis
    using co(1) ci(1) relD(3) [OF rel]
    by (intro that [of "the (astarte_mqtt_init E cfg (am_last_message_id m) s)"]) (simp_all add: astarte_mqtt_init_def mqtt_rel_def)
qed

lemma mqtt_step_refines:
  assumes r: "mqtt_rel E C al ms a" and ok: "ops_ok (mf_max_msg_size cfg) (x # xs) a"
  shows "\<exists>ms'. mqtt_step E cfg x ms = Some (fst (mqtt_spec (mf_max_msg_size cfg) x a), ms')
    \<and> mqtt_rel E C al ms' (snd (mqtt_spec (mf_max_msg_size cfg) x a))"
proof -
  let ?m = "(fst ms)\<lparr>am_packets := []\<rparr>"
  have rel: "mqtt_rel E C al (?m, snd ms) a" using r by simp
  have x: "op_ok (mf_max_msg_size cfg) x a" using ok by simp
  show ?thesis
  proof (cases x)
    case (Event evt)
    have "read_ok (mf_max_msg_size cfg) (fst evt)" using x Event by (simp add: op_ok_def)
    from event_ok [OF rel _ this] show ?thesis
      unfolding meets_def Event by (auto simp del: mqtt_spec.simps)
  next
    case (PublishMsg topic bytes n qos)
    have "free_id a" "mqtt_valid (publish_msg topic bytes n qos)" using x PublishMsg by (simp_all add: op_ok_def)
    from publish_step_ok [OF rel _ this] obtain m' s' where
      "astarte_mqtt_publish E ?m topic bytes n qos (snd ms) = Some (m', s')"
      "mqtt_rel E C al (m', s') (snd (mqtt_spec (mf_max_msg_size cfg) (PublishMsg topic bytes n qos) a))"
      "(am_packets m', []) = fst (mqtt_spec (mf_max_msg_size cfg) (PublishMsg topic bytes n qos) a)" by auto
    then show ?thesis unfolding PublishMsg by (simp del: mqtt_spec.simps)
  next
    case (SubscribeTo topic qos)
    have "free_id a" "mqtt_valid (subscribe_msg topic qos)" using x SubscribeTo by (simp_all add: op_ok_def)
    from subscribe_step_ok [OF rel _ this] obtain m' s' where
      "astarte_mqtt_subscribe E ?m topic qos (snd ms) = Some (m', s')"
      "mqtt_rel E C al (m', s') (snd (mqtt_spec (mf_max_msg_size cfg) (SubscribeTo topic qos) a))"
      "(am_packets m', []) = fst (mqtt_spec (mf_max_msg_size cfg) (SubscribeTo topic qos) a)" by auto
    then show ?thesis unfolding SubscribeTo by (simp del: mqtt_spec.simps)
  next
    case Restart
    have "mqtt_rel E C al (fst ms, snd ms) a" using r by simp
    from restart_step_ok [OF this] obtain m' where
      "astarte_mqtt_init E cfg (am_last_message_id (fst ms)) (snd ms) = Some m'"
      "mqtt_rel E C al (m', snd ms) (a\<lparr>mv_state := ASTARTE_MQTT_DISCONNECTED\<rparr>)" "am_packets m' = []" by blast
    then show ?thesis unfolding Restart by simp
  qed
qed

interpretation mq: refinement "mqtt_step E cfg" "mqtt_spec (mf_max_msg_size cfg)" "mqtt_rel E C al"
    "\<lambda>a xs. ops_ok (mf_max_msg_size cfg) xs a"
  for E cfg C al
  by unfold_locales (blast intro: mqtt_step_refines, simp)

section \<open>Retransmission\<close>

lemma expiry_all:
  assumes "distinct ids" and "\<And>i. i \<in> set ids \<Longrightarrow> \<exists>e. m i = Some e \<and> me_end_of_validity e \<le> mq_now E s"
  shows "snd (expiry_loop E s ids m) = map (\<lambda>i. (i, me_message (the (m i)))) ids"
  using assms
proof (induction ids arbitrary: m)
  case (Cons i ids)
  from Cons.prems obtain e where e: "m i = Some e" "me_end_of_validity e \<le> mq_now E s" by auto
  let ?m = "m(i \<mapsto> e\<lparr>me_end_of_validity := validity_end E s\<rparr>)"
  have "snd (expiry_loop E s ids ?m) = map (\<lambda>i. (i, me_message (the (?m i)))) ids"
  proof (rule Cons.IH)
    show "distinct ids" using Cons.prems(1) by simp
    fix k assume "k \<in> set ids"
    moreover from this have "k \<noteq> i" using Cons.prems(1) by auto
    ultimately show "\<exists>e. ?m k = Some e \<and> me_end_of_validity e \<le> mq_now E s" using Cons.prems(2) [of k] by auto
  qed
  also have "\<dots> = map (\<lambda>i. (i, me_message (the (m i)))) ids" using Cons.prems(1) by auto
  finally show ?case using e by (simp add: case_prod_beta)
qed simp

text \<open>After a restart every entry has expired.\<close>

lemma restored_expired:
  assumes "restore_loop E ids s c = Some c'" and "\<And>i e. mc_map c i = Some e \<Longrightarrow> me_end_of_validity e = 0"
    and "mc_map c' i = Some e"
  shows "me_end_of_validity e = 0"
  using assms
proof (induction ids arbitrary: c)
  case (Cons j ids)
  from Cons.prems(1) obtain c1 where c1: "restore_message E j s c = Some c1" "restore_loop E ids s c1 = Some c'"
    by (auto split: bind_splits)
  have "me_end_of_validity e = 0" if "mc_map c1 i = Some e" for i e
    using c1(1) that Cons.prems(2)
    by (auto simp: restore_message_def no_wait_def split: bind_splits sum.splits if_splits)
  then show ?case using Cons.IH [OF c1(2)] Cons.prems(3) by blast
qed simp

definition resent_packet :: "u16 \<times> mqtt_message \<Rightarrow> mqtt_packet" where
  "resent_packet im = (case im of (i, msg) \<Rightarrow>
     if mm_type msg = STORAGE_MQTT_PUBLISH_ENTRY
     then PktPublish (the (mm_topic msg)) (mm_data msg) (mm_data_size msg) (mm_qos msg) i True
     else PktSubscribe (the (mm_topic msg)) (mm_qos msg) i)"

lemma retransmit_out_ok:
  assumes "\<And>i msg. (i, msg) \<in> set xs \<Longrightarrow> mqtt_valid msg \<and> mm_topic msg \<noteq> None
    \<and> (mm_type msg = STORAGE_MQTT_PUBLISH_ENTRY \<or> mm_type msg = STORAGE_MQTT_SUBSCRIPTION_ENTRY)"
  shows "retransmit_out xs = Some (map resent_packet xs)"
  using assms
proof (induction xs)
  case (Cons x xs)
  obtain i msg where x: "x = (i, msg)" by (cases x)
  have "mqtt_valid msg" and t: "mm_topic msg \<noteq> None"
      "mm_type msg = STORAGE_MQTT_PUBLISH_ENTRY \<or> mm_type msg = STORAGE_MQTT_SUBSCRIPTION_ENTRY"
    using Cons.prems [of i msg] by (simp_all add: x)
  then have "mqtt_caching_retransmit_out_msg_handler x = Some [resent_packet x]"
    using valid_topic by (auto simp: mqtt_caching_retransmit_out_msg_handler_def resent_packet_def x)
  moreover have "retransmit_out xs = Some (map resent_packet xs)"
    by (rule Cons.IH) (rule Cons.prems, rule list.set_intros(2))
  ultimately show ?case by simp
qed simp

lemma restarted_expired:
  assumes "astarte_mqtt_caching_init E dir s = Some c" and "mc_map c k = Some e"
  shows "me_end_of_validity e = 0"
  using restored_expired [OF assms(1) [unfolded astarte_mqtt_caching_init_def astarte_mqtt_caching_restore_from_flash_def] _ assms(2)]
  by simp

lemma check_all_expired:
  assumes c: "cache_at E C dir al others R c s mo" and i: "astarte_mqtt_caching_init E dir s = Some c"
    and d: "\<And>S. distinct (mq_order E S)"
  shows "snd (astarte_mqtt_caching_check_message_expiry E c s) = map (\<lambda>i. (i, the (mo i))) (mq_order E (dom mo))"
proof -
  note q = cache_atD [OF c]
  have dom: "dom (mc_map c) = dom mo" using cache_at_None [OF c] by (simp add: dom_def)
  have "snd (expiry_loop E s (mq_order E (dom mo)) (mc_map c)) = map (\<lambda>i. (i, me_message (the (mc_map c i)))) (mq_order E (dom mo))"
  proof (rule expiry_all [OF d])
    fix k assume "k \<in> set (mq_order E (dom mo))"
    then have "k \<in> dom (mc_map c)" using q(3) dom by simp
    then obtain e where "mc_map c k = Some e" by blast
    then show "\<exists>e. mc_map c k = Some e \<and> me_end_of_validity e \<le> mq_now E s" using restarted_expired [OF i] by simp
  qed
  also have "\<dots> = map (\<lambda>i. (i, the (mo i))) (mq_order E (dom mo))"
  proof (rule map_cong [OF refl])
    fix k assume "k \<in> set (mq_order E (dom mo))"
    then have "k \<in> dom mo" using q(3) by simp
    then show "(k, me_message (the (mc_map c k))) = (k, the (mo k))" using q(5) [of k] by auto
  qed
  finally show ?thesis by (simp add: astarte_mqtt_caching_check_message_expiry_def dom case_prod_beta)
qed

lemma sendable_resent:
  assumes c: "cache_at E C dir al others R c s mo" and so: "sendable mo"
  shows "retransmit_out (map (\<lambda>i. (i, the (mo i))) (mq_order E (dom mo)))
    = Some (map resent_packet (map (\<lambda>i. (i, the (mo i))) (mq_order E (dom mo))))"
proof (rule retransmit_out_ok)
  fix k msg assume "(k, msg) \<in> set (map (\<lambda>i. (i, the (mo i))) (mq_order E (dom mo)))"
  then have "mo k = Some msg" using cache_atD(3) [OF c] by auto
  then show "mqtt_valid msg \<and> mm_topic msg \<noteq> None
      \<and> (mm_type msg = STORAGE_MQTT_PUBLISH_ENTRY \<or> mm_type msg = STORAGE_MQTT_SUBSCRIPTION_ENTRY)"
    using cache_atD(7) [OF c] so by (auto simp: sendable_def)
qed

text \<open>The first retransmission after a restart sends every message in flight.\<close>

lemma restart_retransmits:
  assumes rel: "mqtt_rel E C al (m, s) a" and d: "\<And>S. distinct (mq_order E S)"
  obtains m' m'' where "astarte_mqtt_init E cfg (am_last_message_id m) s = Some m'" "retransmit_expired E m' s = Some m''"
    "am_packets m'' = map resent_packet (map (\<lambda>i. (i, the (mv_out a i))) (mq_order E (dom (mv_out a))))
      @ map PktPubrec (mq_order E (dom (mv_in a)))"
proof -
  obtain m' where i: "astarte_mqtt_init E cfg (am_last_message_id m) s = Some m'"
    and r: "mqtt_rel E C al (m', s) (a\<lparr>mv_state := ASTARTE_MQTT_DISCONNECTED\<rparr>)" and p: "am_packets m' = []"
    and o: "astarte_mqtt_caching_init E STORAGE_MQTT_MSG_OUTGOING s = Some (am_out_msgs m')"
    and j: "astarte_mqtt_caching_init E STORAGE_MQTT_MSG_INCOMING s = Some (am_in_msgs m')"
    by (rule restart_step_ok [OF rel])
  from in_flightE [OF relD(1) [OF r]] obtain R where
    co: "cache_at E C STORAGE_MQTT_MSG_OUTGOING al R R (am_out_msgs m') s (mv_out a)" and
    ci: "cache_at E C STORAGE_MQTT_MSG_INCOMING al R R (am_in_msgs m') s (mv_in a)" and so: "sendable (mv_out a)" by auto
  have "\<exists>m''. retransmit_expired E m' s = Some m'' \<and> am_packets m'' =
      map resent_packet (map (\<lambda>i. (i, the (mv_out a i))) (mq_order E (dom (mv_out a)))) @ map PktPubrec (mq_order E (dom (mv_in a)))"
    using check_all_expired [OF co o d] check_all_expired [OF ci j d] sendable_resent [OF co so] p
    by (auto simp: retransmit_expired_def case_prod_beta mqtt_caching_retransmit_in_msg_handler_def o_def)
  with i that show thesis by blast
qed

section \<open>Messages in flight\<close>

lemma next_id_free:
  assumes "free_id a"
  shows "next_id a \<noteq> 0" and "mv_out a (next_id a) = None"
proof -
  let ?view = "\<lambda>i. map_option (\<lambda>msg. \<lparr>me_end_of_validity = 0, me_message = msg\<rparr>) (mv_out a i)"
  obtain i where i: "message_id_loop ?view (mv_last a) = Some i"
    using assms message_id_found [of _ ?view "mv_last a"] by (auto simp: free_id_def)
  then have "next_id a = i" by (simp add: next_id_def)
  then show "next_id a \<noteq> 0" and "mv_out a (next_id a) = None" using message_id_free [OF i] by auto
qed

text \<open>The operations that end an exchange.\<close>

definition settles :: "u16 \<Rightarrow> mqtt_op \<Rightarrow> bool" where
  "settles i x \<longleftrightarrow> (case x of Event (t, result) \<Rightarrow> (case t of
       MQTT_EVT_PUBACK j \<Rightarrow> i = j | MQTT_EVT_PUBCOMP j \<Rightarrow> i = j | MQTT_EVT_SUBACK j codes \<Rightarrow> i = j
     | MQTT_EVT_CONNACK flag \<Rightarrow> flag = 0 | _ \<Rightarrow> False) | _ \<Rightarrow> False)"

definition releases :: "u16 \<Rightarrow> mqtt_op \<Rightarrow> bool" where
  "releases i x \<longleftrightarrow> (case x of Event (t, result) \<Rightarrow> (case t of
       MQTT_EVT_PUBREL j \<Rightarrow> i = j | MQTT_EVT_CONNACK flag \<Rightarrow> flag = 0 | _ \<Rightarrow> False) | _ \<Rightarrow> False)"

definition delivers :: "u16 \<Rightarrow> mqtt_op \<Rightarrow> bool" where
  "delivers i x \<longleftrightarrow> (case x of Event (MQTT_EVT_PUBLISH p reads, result) \<Rightarrow> pp_message_id p = i \<and> pp_qos p = 2 | _ \<Rightarrow> False)"

lemma out_stays:
  assumes "\<not> settles i x" and "op_ok n x a" and "mv_out a i = Some msg"
  shows "mv_out (snd (mqtt_spec n x a)) i = Some msg"
proof (cases x)
  case (Event evt)
  then show ?thesis using assms by (cases evt; cases "fst evt") (auto simp: settles_def Let_def)
next
  case (PublishMsg topic bytes k qos)
  then show ?thesis using assms next_id_free [of a] by (auto simp: op_ok_def send_msg_def)
next
  case (SubscribeTo topic qos)
  then show ?thesis using assms next_id_free [of a] by (auto simp: op_ok_def send_msg_def)
qed (use assms in simp)

lemma out_stays_run:
  assumes "\<forall>x\<in>set xs. \<not> settles i x" and "ops_ok n xs a" and "mv_out a i = Some msg"
  shows "mv_out (snd (run_spec (mqtt_spec n) xs a)) i = Some msg"
  using assms by (induction xs arbitrary: a) (auto simp: case_prod_beta out_stays)

lemma in_stays:
  assumes "\<not> releases i x" and "mv_in a i \<noteq> None"
  shows "mv_in (snd (mqtt_spec n x a)) i \<noteq> None"
proof (cases x)
  case (Event evt)
  then show ?thesis using assms by (cases evt; cases "fst evt") (auto simp: releases_def Let_def)
qed (use assms in \<open>auto simp: send_msg_def\<close>)

lemma not_delivered_again:
  assumes "delivers i x" and "mv_in a i \<noteq> None"
  shows "snd (fst (mqtt_spec n x a)) = []"
  using assms by (cases x) (auto simp: delivers_def Let_def split: prod.splits mqtt_evt_type.splits)

lemma not_delivered_run:
  assumes "\<forall>x\<in>set xs. \<not> releases i x" and "mv_in a i \<noteq> None"
  shows "list_all2 (\<lambda>x answer. delivers i x \<longrightarrow> snd answer = []) xs (fst (run_spec (mqtt_spec n) xs a))"
  using assms
proof (induction xs arbitrary: a)
  case (Cons x xs)
  have "mv_in (snd (mqtt_spec n x a)) i \<noteq> None" using in_stays Cons.prems by simp
  with Cons show ?case using not_delivered_again [of i x a n] by (simp add: case_prod_beta)
qed simp

end
