(* ===== verification/Mqtt_Claims.thy ===== *)
theory Mqtt_Claims
  imports Mqtt_Refine KV_Claims
begin

text \<open>
  The properties of the MQTT client: identifiers, the messages in flight across restarts, delivery
  at most once of what the broker sends with quality of service 2, and retransmission of what the
  broker has not acknowledged.
\<close>

section \<open>A concrete client\<close>

definition demo_mq :: "(u32 \<rightharpoonup> byte list) mqtt_env" where
  "demo_mq = \<lparr>mq_kv = disk_env (\<lambda>_. 0), mq_room = (\<lambda>_. True), mq_order = sorted_list_of_set,
     mq_now = (\<lambda>_. 0), mq_keepalive = 60\<rparr>"

definition demo_config :: mqtt_config where
  "demo_config = \<lparr>mf_connection_timeout_ms = 15000, mf_backoff_mult = 1000, mf_backoff_cutoff = 60000,
     mf_max_msg_size = 1024\<rparr>"

definition demo_client :: astarte_mqtt where
  "demo_client = \<lparr>am_connection_timepoint = None, am_reconnection_timepoint = 0, am_backoff = zero_backoff,
     am_connection_state = ASTARTE_MQTT_CONNECTED,
     am_out_msgs = \<lparr>mc_map = Map.empty, mc_direction = STORAGE_MQTT_MSG_OUTGOING\<rparr>,
     am_in_msgs = \<lparr>mc_map = Map.empty, mc_direction = STORAGE_MQTT_MSG_INCOMING\<rparr>,
     am_last_message_id = 0, am_packets = []\<rparr>"

definition demo_view :: mqtt_view where
  "demo_view = \<lparr>mv_state = ASTARTE_MQTT_CONNECTED, mv_out = Map.empty, mv_in = Map.empty, mv_last = 0\<rparr>"

lemma demo_mqtt_rel: "mqtt_rel demo_mq (\<lambda>m. m) [] (demo_client, Map.empty) demo_view"
proof -
  have "kv_rep (disk_env (\<lambda>_. 0)) (\<lambda>m. m) (\<lambda>_. None) Map.empty []"
    by (rule kv_rep_empty [where C = "\<lambda>m. m", of "\<lambda>_. None"]) simp
  then have "cache_at demo_mq (\<lambda>m. m) dir [] Map.empty Map.empty \<lparr>mc_map = Map.empty, mc_direction = dir\<rparr> Map.empty Map.empty" for dir
    using disk.reliable_store_axioms by (auto simp: cache_at_def demo_mq_def)
  then show ?thesis
    by (auto simp: mqtt_rel_def in_flight_def demo_client_def demo_view_def sendable_def)
qed

section \<open>Identifiers\<close>

text \<open>C33: The search for a packet identifier returns exactly when some identifier other than zero is
  not in flight; then it returns the first such identifier after the last one handed out, in the
  cyclic order that skips zero.\<close>

theorem message_id_search:
  "case astarte_mqtt_caching_get_available_message_id caching last_message_id of
     None \<Rightarrow> - {0} \<subseteq> dom (mc_map caching)
   | Some i \<Rightarrow> i \<in> - {0} - dom (mc_map caching)
       \<and> (\<forall>j \<in> - {0} - dom (mc_map caching). id_distance last_message_id i \<le> id_distance last_message_id j)"
proof (cases "message_id_loop (mc_map caching) last_message_id")
  case None
  then have "mc_map caching j \<noteq> None" if "j \<noteq> 0" for j
    using message_id_found [OF that, of "mc_map caching" last_message_id] by auto
  with None show ?thesis by (auto simp: astarte_mqtt_caching_get_available_message_id_def)
next
  case (Some i)
  then show ?thesis
    using message_id_free [OF Some] message_id_first [OF Some]
    by (auto simp: astarte_mqtt_caching_get_available_message_id_def domIff)
qed

lemma message_id_search_witness:
  "astarte_mqtt_caching_get_available_message_id
     \<lparr>mc_map = [1 \<mapsto> \<lparr>me_end_of_validity = 0, me_message = pubrec_msg\<rparr>], mc_direction = STORAGE_MQTT_MSG_OUTGOING\<rparr> 0xFFFF = Some 2
   \<and> id_distance 0xFFFF 2 \<le> id_distance 0xFFFF 7"
proof -
  let ?c = "\<lparr>mc_map = [1 \<mapsto> \<lparr>me_end_of_validity = 0, me_message = pubrec_msg\<rparr>], mc_direction = STORAGE_MQTT_MSG_OUTGOING\<rparr>"
  have r: "astarte_mqtt_caching_get_available_message_id ?c 0xFFFF = Some 2"
    by (simp add: astarte_mqtt_caching_get_available_message_id_def message_id_loop.simps next_message_id_def Let_def)
  have "(7 :: u16) \<in> - {0} - dom (mc_map ?c)" by (simp add: domIff)
  then show ?thesis using message_id_search [of ?c "0xFFFF"] unfolding r by auto
qed

section \<open>The client\<close>

text \<open>C3: Any sequence of events of the MQTT library, publications, subscriptions and restarts of the
  device is answered as the protocol says: each with its packets and its callbacks, on two maps of
  messages in flight that a restart, which rebuilds both from the permanent storage, leaves as they
  are.\<close>

theorem mqtt_client_refines:
  assumes "mqtt_rel E C al ms a" and "ops_ok (mf_max_msg_size cfg) xs a"
  shows "\<exists>ms'. run_steps (mqtt_step E cfg) xs ms = Some (fst (run_spec (mqtt_spec (mf_max_msg_size cfg)) xs a), ms')
    \<and> mqtt_rel E C al ms' (snd (run_spec (mqtt_spec (mf_max_msg_size cfg)) xs a))"
  using assms by (rule mq.run_refines)

definition demo_publish :: "u8 \<Rightarrow> u16 \<Rightarrow> mqtt_op" where
  "demo_publish qos i = Event (MQTT_EVT_PUBLISH \<lparr>pp_topic = [116], pp_message_id = i, pp_qos = qos, pp_size = 2\<rparr> [Inr [8], Inr [9]], 0)"

lemma demo_read: "publish_read 1024 \<lparr>pp_topic = [116], pp_message_id = i, pp_qos = q, pp_size = 2\<rparr> [Inr [8], Inr [9]] = Some (0, [8, 9])"
  by (simp add: publish_read_def read_publish_payload_def)

lemma mqtt_client_refines_witness:
  "\<exists>ms'. run_steps (mqtt_step demo_mq demo_config)
      [PublishMsg [116] (Some [5]) 1 1, demo_publish 2 4, Restart, demo_publish 2 4, Event (MQTT_EVT_PUBREL 4, 0),
       Event (MQTT_EVT_PUBACK 1, 0)] (demo_client, Map.empty)
    = Some ([([PktPublish [116] (Some [5]) 1 1 1 False], []), ([PktPubrec 4], [OnIncoming [116] [8, 9]]), ([], []),
        ([PktPubrec 4], []), ([PktPubcomp 4], []), ([], [OnDelivered 1])], ms')"
proof -
  let ?xs = "[PublishMsg [116] (Some [5]) 1 1, demo_publish 2 4, Restart, demo_publish 2 4, Event (MQTT_EVT_PUBREL 4, 0),
       Event (MQTT_EVT_PUBACK 1, 0)]"
  have id: "next_id demo_view = 1"
    by (simp add: next_id_def demo_view_def message_id_loop.simps next_message_id_def Let_def)
  have v: "mqtt_valid (publish_msg [116] (Some [5]) 1 1)"
    by (simp add: mqtt_valid_def publish_msg_def nul_free_def)
  have "free_id demo_view" unfolding free_id_def by (rule exI [of _ 1]) (simp add: demo_view_def)
  then have ok: "ops_ok (mf_max_msg_size demo_config) ?xs demo_view"
    using v by (simp add: op_ok_def demo_config_def demo_publish_def read_ok_def demo_read)
  have "fst (run_spec (mqtt_spec 1024) ?xs demo_view)
    = [([PktPublish [116] (Some [5]) 1 1 1 False], []), ([PktPubrec 4], [OnIncoming [116] [8, 9]]), ([], []),
        ([PktPubrec 4], []), ([PktPubcomp 4], []), ([], [OnDelivered 1])]"
    by (simp add: demo_publish_def blocked_def demo_read id)
      (simp add: demo_view_def send_msg_def)
  then show ?thesis
    using mqtt_client_refines [OF demo_mqtt_rel ok] by (auto simp: demo_config_def)
qed

section \<open>Delivery\<close>

text \<open>C5: A message of the broker with quality of service 2 is handed to the device at most once.
  After the first PUBLISH of an identifier, which is delivered and acknowledged, every further
  PUBLISH of it is not delivered until the broker releases the identifier or starts a new session,
  whatever else happens in between, restarts of the device included.\<close>

theorem qos2_delivered_once:
  assumes "mqtt_rel E C al ms a" and "ops_ok (mf_max_msg_size cfg) (Event (MQTT_EVT_PUBLISH p reads, 0) # xs) a"
    and "mv_state a = ASTARTE_MQTT_CONNECTED" and "pp_qos p = 2"
    and "publish_read (mf_max_msg_size cfg) p reads = Some (0, bytes)" and "mv_in a (pp_message_id p) = None"
    and "\<forall>x\<in>set xs. \<not> releases (pp_message_id p) x"
  shows "\<exists>answers ms'. run_steps (mqtt_step E cfg) (Event (MQTT_EVT_PUBLISH p reads, 0) # xs) ms
      = Some (([PktPubrec (pp_message_id p)], [OnIncoming (pp_topic p) bytes]) # answers, ms')
    \<and> list_all2 (\<lambda>x answer. delivers (pp_message_id p) x \<longrightarrow> snd answer = []) xs answers"
proof -
  let ?n = "mf_max_msg_size cfg" and ?x = "Event (MQTT_EVT_PUBLISH p reads, 0)"
  have "fst (mqtt_spec ?n ?x a) = ([PktPubrec (pp_message_id p)], [OnIncoming (pp_topic p) bytes])"
    and i: "mv_in (snd (mqtt_spec ?n ?x a)) (pp_message_id p) \<noteq> None"
    using assms(3-6) by (auto simp: blocked_def Let_def)
  moreover note not_delivered_run [OF assms(7) i, of ?n] mq.run_refines [OF assms(1,2)]
  ultimately show ?thesis by (auto simp: case_prod_beta simp del: mqtt_step.simps mqtt_spec.simps)
qed

lemma qos2_delivered_once_witness:
  "\<exists>answers ms'. run_steps (mqtt_step demo_mq demo_config) [demo_publish 2 4, Restart, demo_publish 2 4] (demo_client, Map.empty)
      = Some (([PktPubrec 4], [OnIncoming [116] [8, 9]]) # answers, ms')
    \<and> list_all2 (\<lambda>x answer. delivers 4 x \<longrightarrow> snd answer = []) [Restart, demo_publish 2 4] answers"
proof -
  have n: "mf_max_msg_size demo_config = 1024" by (simp add: demo_config_def)
  let ?p = "\<lparr>pp_topic = [116], pp_message_id = 4, pp_qos = 2, pp_size = 2\<rparr>"
  have ok: "ops_ok (mf_max_msg_size demo_config) (Event (MQTT_EVT_PUBLISH ?p [Inr [8], Inr [9]], 0) # [Restart, demo_publish 2 4]) demo_view"
    by (simp add: op_ok_def n demo_publish_def read_ok_def demo_read)
  have r: "publish_read (mf_max_msg_size demo_config) ?p [Inr [8], Inr [9]] = Some (0, [8, 9])" by (simp add: n demo_read)
  have "mv_state demo_view = ASTARTE_MQTT_CONNECTED" "pp_qos ?p = 2" "mv_in demo_view (pp_message_id ?p) = None"
    "\<forall>x\<in>set [Restart, demo_publish 2 4]. \<not> releases (pp_message_id ?p) x"
    by (simp_all add: demo_view_def releases_def demo_publish_def)
  from qos2_delivered_once [OF demo_mqtt_rel ok this(1,2) r this(3,4)]
  have "\<exists>answers ms'. run_steps (mqtt_step demo_mq demo_config) (Event (MQTT_EVT_PUBLISH ?p [Inr [8], Inr [9]], 0) # [Restart, demo_publish 2 4])
      (demo_client, Map.empty) = Some (([PktPubrec (pp_message_id ?p)], [OnIncoming (pp_topic ?p) [8, 9]]) # answers, ms')
    \<and> list_all2 (\<lambda>x answer. delivers (pp_message_id ?p) x \<longrightarrow> snd answer = []) [Restart, demo_publish 2 4] answers" .
  moreover have "demo_publish 2 4 = Event (MQTT_EVT_PUBLISH ?p [Inr [8], Inr [9]], 0)" by (simp add: demo_publish_def)
  ultimately show ?thesis by (simp only: publish_param.simps)
qed

text \<open>C6: A message published with a quality of service above 0 is not forgotten: as long as the
  broker has not acknowledged its identifier or started a new session, the first retransmission
  after a restart sends it again under the same identifier, whatever happened in between.\<close>

theorem unacknowledged_message_resent:
  assumes "mqtt_rel E C al ms a" and "ops_ok (mf_max_msg_size cfg) (PublishMsg topic bytes n qos # xs) a"
    and "sint qos > 0" and "\<forall>x\<in>set xs. \<not> settles (next_id a) x" and "\<forall>S. distinct (mq_order E S)"
  shows "\<exists>answers m s m' m''. run_steps (mqtt_step E cfg) (PublishMsg topic bytes n qos # xs) ms = Some (answers, m, s)
    \<and> astarte_mqtt_init E cfg (am_last_message_id m) s = Some m' \<and> retransmit_expired E m' s = Some m''
    \<and> PktPublish topic (if n = 0 then None else bytes) n qos (next_id a) True \<in> set (am_packets m'')"
proof -
  let ?k = "mf_max_msg_size cfg" and ?x = "PublishMsg topic bytes n qos" and ?msg = "mqtt_kept (publish_msg topic bytes n qos)"
  let ?a = "snd (run_spec (mqtt_spec ?k) (?x # xs) a)"
  from mq.run_refines [OF assms(1,2)] obtain m s where
    run: "run_steps (mqtt_step E cfg) (?x # xs) ms = Some (fst (run_spec (mqtt_spec ?k) (?x # xs) a), m, s)"
    and rel: "mqtt_rel E C al (m, s) ?a" by auto
  have "mv_out (snd (mqtt_spec ?k ?x a)) (next_id a) = Some ?msg" using assms(3) by (simp add: send_msg_def)
  from out_stays_run [OF assms(4) _ this, of ?k] assms(2)
  have out: "mv_out ?a (next_id a) = Some ?msg" by (simp add: case_prod_beta del: mqtt_spec.simps)
  obtain m' m'' where m': "astarte_mqtt_init E cfg (am_last_message_id m) s = Some m'" and m'': "retransmit_expired E m' s = Some m''"
    and p: "am_packets m'' = map resent_packet (map (\<lambda>i. (i, the (mv_out ?a i))) (mq_order E (dom (mv_out ?a))))
      @ map PktPubrec (mq_order E (dom (mv_in ?a)))"
    by (rule restart_retransmits [OF rel spec [OF assms(5)]])
  have "next_id a \<in> set (mq_order E (dom (mv_out ?a)))"
    using out in_flightE [OF relD(1) [OF rel]] cache_atD(3) by (metis domI)
  then have "resent_packet (next_id a, ?msg) \<in> set (am_packets m'')" unfolding p using out by force
  then show ?thesis
    using run m' m'' by (auto simp: resent_packet_def publish_msg_def mqtt_kept_def split: if_splits)
qed

lemma unacknowledged_message_resent_witness:
  "\<exists>answers m s m' m''. run_steps (mqtt_step demo_mq demo_config)
      [PublishMsg [116] (Some [5]) 1 1, Event (MQTT_EVT_PUBREC 1, 0), Restart] (demo_client, Map.empty) = Some (answers, m, s)
    \<and> astarte_mqtt_init demo_mq demo_config (am_last_message_id m) s = Some m' \<and> retransmit_expired demo_mq m' s = Some m''
    \<and> PktPublish [116] (Some [5]) 1 1 1 True \<in> set (am_packets m'')"
proof -
  have id: "next_id demo_view = 1"
    by (simp add: next_id_def demo_view_def message_id_loop.simps next_message_id_def Let_def)
  have v: "mqtt_valid (publish_msg [116] (Some [5]) 1 1)"
    by (simp add: mqtt_valid_def publish_msg_def nul_free_def)
  have "free_id demo_view" unfolding free_id_def by (rule exI [of _ 1]) (simp add: demo_view_def)
  then have ok: "ops_ok (mf_max_msg_size demo_config) [PublishMsg [116] (Some [5]) 1 1, Event (MQTT_EVT_PUBREC 1, 0), Restart] demo_view"
    using v by (simp add: op_ok_def read_ok_def)
  have "\<forall>x\<in>set [Event (MQTT_EVT_PUBREC 1, 0), Restart]. \<not> settles (next_id demo_view) x" "\<forall>S. distinct (mq_order demo_mq S)"
    by (simp_all add: settles_def demo_mq_def)
  from unacknowledged_message_resent [OF demo_mqtt_rel ok _ this] show ?thesis by (simp add: id)
qed

section \<open>Damaged records\<close>

text \<open>The lengths in the image of a stored message are trusted: a record that is too short, or whose
  topic length is wrong, is read outside its buffer.\<close>

lemma short_image_read_outside:
  "parse_mqtt (\<lambda>_. True) [0, 0, 0, 0, 0, 0, 0, 0] = None"
  "parse_mqtt (\<lambda>_. True) (le32 1 @ le32 2 @ le32 200 @ le32 0 @ [116]) = None"
  by code_simp+

end
