(* ===== verification/Http.thy ===== *)
theory Http
  imports Alloc "HOL-Library.Monad_Syntax"
begin

text \<open>
  HTTP requests (lib/astarte\_device\_sdk/http.c): the collection of a response in the buffer of the
  caller, the resolution of the host name, and the connection to one of its addresses.

  The HTTP client, the resolver and the sockets are not part of the repository: what they answer is an
  argument.  \<open>sockets\<close> is the set of the open sockets.  The configuration is the one with TLS.
\<close>

section \<open>The response\<close>

record http_response =
  hr_status_code :: nat
  hr_body_frag :: "byte list option"
  hr_final :: bool

record http_req_ctx =
  hx_request_ok :: bool
  hx_resp_buf :: "byte list option"
  hx_resp_buf_size :: nat
  hx_bytes_written :: nat

text \<open>\<open>memcpy\<close> into a buffer; \<open>None\<close> is a write outside it.\<close>

definition copy_at :: "byte list \<Rightarrow> nat \<Rightarrow> byte list \<Rightarrow> byte list option" where
  "copy_at buf off bs =
     (if off + length bs \<le> length buf then Some (take off buf @ bs @ drop (off + length bs) buf) else None)"

definition http_response_cb :: "http_response \<Rightarrow> http_req_ctx \<Rightarrow> (int \<times> http_req_ctx) option" where
  "http_response_cb rsp ctx =
     (let ctx = (if hr_status_code rsp < 200 \<or> hr_status_code rsp \<ge> 300 then ctx\<lparr>hx_request_ok := False\<rparr> else ctx);
          body = (case hr_body_frag rsp of None \<Rightarrow> [] | Some frag \<Rightarrow> frag) in
      if body \<noteq> [] \<and> hx_resp_buf ctx \<noteq> None \<and> \<not> hx_bytes_written ctx + length body < hx_resp_buf_size ctx
      then Some (- 1, ctx\<lparr>hx_request_ok := False\<rparr>)
      else do {
        ctx \<leftarrow> (case hx_resp_buf ctx of
          None \<Rightarrow> Some ctx
        | Some buf \<Rightarrow>
            if body = [] then Some ctx
            else do {
              buf \<leftarrow> copy_at buf (hx_bytes_written ctx) body;
              Some (ctx\<lparr>hx_resp_buf := Some buf, hx_bytes_written := hx_bytes_written ctx + length body\<rparr>)
            });
        ctx \<leftarrow> (case hx_resp_buf ctx of
          None \<Rightarrow> Some ctx
        | Some buf \<Rightarrow>
            if hr_final rsp \<and> hx_resp_buf_size ctx > 0 then do {
              buf \<leftarrow> copy_at buf (hx_bytes_written ctx) [0];
              Some (ctx\<lparr>hx_resp_buf := Some buf\<rparr>)
            }
            else Some ctx);
        Some (0, ctx)
      })"

text \<open>The calls of the callback during a request.\<close>

primrec http_responses :: "http_response list \<Rightarrow> http_req_ctx \<Rightarrow> http_req_ctx option" where
  "http_responses [] ctx = Some ctx"
| "http_responses (rsp # rsps) ctx = do { (res, ctx) \<leftarrow> http_response_cb rsp ctx; http_responses rsps ctx }"

section \<open>Connection\<close>

datatype dns_resolve_status = DNS_EAI_ALLDONE | DNS_EAI_CANCELED | DNS_EAI_INPROGRESS | DNS_EAI_OTHER

definition MAX_DNS_RESOLVED_ADDRESSES :: nat where "MAX_DNS_RESOLVED_ADDRESSES = 8"

text \<open>
  The second part of a call of the callback tells, if it has an address, whether it is one of IPv4; the
  third is the address.  The state is the semaphore and the addresses.
\<close>

type_synonym 'a dns_event = "dns_resolve_status \<times> bool option \<times> 'a"

definition dns_resolve_cb :: "'a dns_event \<Rightarrow> bool \<times> 'a list \<Rightarrow> bool \<times> 'a list" where
  "dns_resolve_cb e ctx = (case e of (status, info, ai_addr) \<Rightarrow> case ctx of (given, resolved_addrs) \<Rightarrow>
     if status = DNS_EAI_ALLDONE \<or> status = DNS_EAI_CANCELED then (True, resolved_addrs)
     else if status = DNS_EAI_INPROGRESS \<and> info = Some True \<and> length resolved_addrs < MAX_DNS_RESOLVED_ADDRESSES
     then (given, resolved_addrs @ [ai_addr])
     else (given, resolved_addrs))"

text \<open>The answers for one address: of \<open>zsock_socket\<close>, of the two options, and of \<open>zsock_connect\<close>.\<close>

record socket_answers =
  sa_socket :: int
  sa_sec_tag_list :: int
  sa_hostname :: int
  sa_connect :: int

primrec connect_loop :: "socket_answers list \<Rightarrow> int set \<Rightarrow> int \<times> int set" where
  "connect_loop [] sockets = (- 1, sockets)"
| "connect_loop (a # as) sockets =
     (let sock = sa_socket a in
      if sock = - 1 then connect_loop as sockets
      else
        let sockets = insert sock sockets in
        if sa_sec_tag_list a = - 1 then connect_loop as (sockets - {sock})
        else if sa_hostname a = - 1 then connect_loop as (sockets - {sock})
        else if sa_connect a = 0 then (sock, sockets)
        else connect_loop as (sockets - {sock}))"

record http_world =
  hw_resolve_rc :: int
  hw_dns_events :: "socket_answers dns_event list"
  hw_responses :: "http_response list"
  hw_http_rc :: int

text \<open>\<open>None\<close> is a semaphore that is never given.\<close>

definition create_and_connect_socket :: "http_world \<Rightarrow> int set \<Rightarrow> (int \<times> int set) option" where
  "create_and_connect_socket W sockets =
     (if hw_resolve_rc W \<noteq> 0 then Some (- 1, sockets)
      else case fold dns_resolve_cb (hw_dns_events W) (False, []) of
        (given, resolved_addrs) \<Rightarrow>
          if \<not> given then None
          else if resolved_addrs = [] then Some (- 1, sockets)
          else Some (connect_loop resolved_addrs sockets))"

section \<open>Requests\<close>

definition astarte_http_do_request ::
    "(nat \<Rightarrow> bool) \<Rightarrow> nat \<Rightarrow> http_world \<Rightarrow> http_req_ctx \<Rightarrow> int set
      \<Rightarrow> (astarte_result_t \<times> http_req_ctx \<times> int set) option" where
  "astarte_http_do_request heap rcv_buffer_size W ctx sockets = do {
     (sock, sockets) \<leftarrow> create_and_connect_socket W sockets;
     if sock < 0 then Some (ASTARTE_RESULT_SOCKET_ERROR, ctx, sockets)
     else if \<not> astarte_calloc heap rcv_buffer_size 1 then Some (ASTARTE_RESULT_OUT_OF_MEMORY, ctx, sockets - {sock})
     else do {
       ctx \<leftarrow> http_responses (hw_responses W) ctx;
       if hw_http_rc W < 0 \<or> \<not> hx_request_ok ctx
       then Some (ASTARTE_RESULT_HTTP_REQUEST_ERROR, ctx, sockets - {sock})
       else Some (ASTARTE_RESULT_OK, ctx, sockets - {sock})
     }
   }"

definition request_ctx :: "byte list \<Rightarrow> http_req_ctx" where
  "request_ctx resp_buf = \<lparr>hx_request_ok = True, hx_resp_buf = Some resp_buf, hx_resp_buf_size = length resp_buf,
     hx_bytes_written = 0\<rparr>"

text \<open>
  The result of a request: the response buffer, which the callers hand in filled with zeros.  The
  answer \<open>W\<close> is given to the method, the URL, the header fields and the payload.
\<close>

datatype http_method = HTTP_GET | HTTP_POST

type_synonym http_server = "http_method \<Rightarrow> byte list \<Rightarrow> byte list list \<Rightarrow> byte list option \<Rightarrow> http_world"

record http_env =
  he_heap :: "nat \<Rightarrow> bool"
  he_rcv_buffer_size :: nat
  he_server :: http_server

definition http_request ::
    "http_env \<Rightarrow> http_method \<Rightarrow> byte list \<Rightarrow> byte list list \<Rightarrow> byte list option \<Rightarrow> nat \<Rightarrow> int set
      \<Rightarrow> ((astarte_result_t + byte list) \<times> int set) option" where
  "http_request H request_method url header_fields payload resp_buf_size sockets = do {
     (ares, ctx, sockets) \<leftarrow> astarte_http_do_request (he_heap H) (he_rcv_buffer_size H)
       (he_server H request_method url header_fields payload) (request_ctx (replicate resp_buf_size 0)) sockets;
     Some (if ares \<noteq> ASTARTE_RESULT_OK then Inl ares else Inr (the (hx_resp_buf ctx)), sockets)
   }"

definition astarte_http_post ::
    "http_env \<Rightarrow> byte list \<Rightarrow> byte list list \<Rightarrow> byte list \<Rightarrow> nat \<Rightarrow> int set
      \<Rightarrow> ((astarte_result_t + byte list) \<times> int set) option" where
  "astarte_http_post H url header_fields payload resp_buf_size =
     http_request H HTTP_POST url header_fields (Some payload) resp_buf_size"

definition astarte_http_get ::
    "http_env \<Rightarrow> byte list \<Rightarrow> byte list list \<Rightarrow> nat \<Rightarrow> int set \<Rightarrow> ((astarte_result_t + byte list) \<times> int set) option" where
  "astarte_http_get H url header_fields resp_buf_size = http_request H HTTP_GET url header_fields None resp_buf_size"

section \<open>The buffer of the response\<close>

text \<open>What the callback keeps: the bodies so far at the front of a buffer that ends with zeros.\<close>

definition response_inv :: "nat \<Rightarrow> byte list \<Rightarrow> http_req_ctx \<Rightarrow> bool" where
  "response_inv n body ctx \<longleftrightarrow> hx_resp_buf ctx = Some (body @ replicate (n - length body) 0)
     \<and> hx_resp_buf_size ctx = n \<and> hx_bytes_written ctx = length body \<and> length body < n"

definition response_body :: "http_response \<Rightarrow> byte list" where
  "response_body rsp = (case hr_body_frag rsp of None \<Rightarrow> [] | Some frag \<Rightarrow> frag)"

lemma copy_at_end:
  assumes "length bs \<le> m"
  shows "copy_at (pre @ replicate m 0) (length pre) bs = Some (pre @ bs @ replicate (m - length bs) 0)"
  using assms by (simp add: copy_at_def)

lemma http_response_cb_ok:
  assumes "response_inv n body ctx"
  shows "\<exists>res ctx'. http_response_cb rsp ctx = Some (res, ctx')
    \<and> (hx_request_ok ctx' \<longrightarrow> hx_request_ok ctx)
    \<and> (if length body + length (response_body rsp) < n then response_inv n (body @ response_body rsp) ctx'
       else response_inv n body ctx' \<and> \<not> hx_request_ok ctx')"
proof -
  define c where "c = (if hr_status_code rsp < 200 \<or> hr_status_code rsp \<ge> 300 then ctx\<lparr>hx_request_ok := False\<rparr> else ctx)"
  define b where "b = response_body rsp"
  have i: "hx_resp_buf c = Some (body @ replicate (n - length body) 0)" "hx_resp_buf_size c = n"
    "hx_bytes_written c = length body" "length body < n" "hx_request_ok c \<longrightarrow> hx_request_ok ctx"
    using assms by (auto simp: c_def response_inv_def)
  have zero: "copy_at (pre @ replicate (n - length pre) 0) (length pre) [0]
      = Some (pre @ replicate (n - length pre) 0)" if "length pre < n" for pre :: "byte list"
    using that copy_at_end [of "[0]" "n - length pre" pre]
    by (cases "n - length pre") auto
  show ?thesis
  proof (cases "length body + length b < n")
    case False
    then have "b \<noteq> []" using i(4) by auto
    with False i show ?thesis
      by (simp add: http_response_cb_def Let_def flip: c_def response_body_def b_def)
        (simp add: response_inv_def)
  next
    case True
    show ?thesis
      using True i copy_at_end [of b "n - length body" body] zero [of body] zero [of "body @ b"]
      by (auto simp: http_response_cb_def Let_def response_inv_def simp flip: c_def response_body_def b_def)
  qed
qed

lemma http_responses_ok:
  assumes "response_inv n body ctx"
  shows "\<exists>ctx' got. http_responses rsps ctx = Some ctx' \<and> response_inv n (body @ got) ctx'
    \<and> (hx_request_ok ctx' \<longrightarrow> hx_request_ok ctx \<and> got = concat (map response_body rsps))"
  using assms
proof (induction rsps arbitrary: body ctx)
  case Nil
  then show ?case by (auto intro: exI [of _ "[]"])
next
  case (Cons rsp rsps)
  obtain res c where c: "http_response_cb rsp ctx = Some (res, c)" "hx_request_ok c \<longrightarrow> hx_request_ok ctx"
    "if length body + length (response_body rsp) < n then response_inv n (body @ response_body rsp) c
     else response_inv n body c \<and> \<not> hx_request_ok c"
    using http_response_cb_ok [OF Cons.prems] by blast
  show ?case
  proof (cases "length body + length (response_body rsp) < n")
    case True
    then have "response_inv n (body @ response_body rsp) c" using c(3) by simp
    from Cons.IH [OF this] show ?thesis using c(1,2) by auto
  next
    case False
    then have "response_inv n body c" "\<not> hx_request_ok c" using c(3) by simp_all
    from Cons.IH [OF this(1)] this(2) show ?thesis using c(1) by auto
  qed
qed

section \<open>The sockets\<close>

lemma connect_loop_sockets:
  assumes "\<forall>a\<in>set as. sa_socket a \<notin> sockets"
  shows "case connect_loop as sockets of (sock, sockets') \<Rightarrow>
    if sock = - 1 then sockets' = sockets else sock \<notin> sockets \<and> sockets' = insert sock sockets \<and> sock \<in> sa_socket ` set as"
  using assms
proof (induction as)
  case (Cons a as)
  then show ?case
    by (auto simp: Let_def split: prod.splits if_splits)
qed simp

lemma dns_addresses:
  "set (snd (fold dns_resolve_cb es ctx)) \<subseteq> set (snd ctx) \<union> (\<lambda>e. snd (snd e)) ` set es"
proof (induction es arbitrary: ctx)
  case (Cons e es)
  have "set (snd (dns_resolve_cb e ctx)) \<subseteq> set (snd ctx) \<union> {snd (snd e)}"
    by (auto simp: dns_resolve_cb_def split: prod.splits if_splits)
  with Cons [of "dns_resolve_cb e ctx"] show ?case by auto
qed simp

lemma dns_bound:
  "length (snd ctx) \<le> MAX_DNS_RESOLVED_ADDRESSES \<Longrightarrow>
   length (snd (fold dns_resolve_cb es ctx)) \<le> MAX_DNS_RESOLVED_ADDRESSES"
proof (induction es arbitrary: ctx)
  case (Cons e es)
  have "length (snd (dns_resolve_cb e ctx)) \<le> MAX_DNS_RESOLVED_ADDRESSES"
    using Cons.prems by (auto simp: dns_resolve_cb_def split: prod.splits)
  with Cons.IH show ?case by simp
qed simp

text \<open>New sockets have non-negative numbers that are not in use.\<close>

definition fresh_sockets :: "http_world \<Rightarrow> int set \<Rightarrow> bool" where
  "fresh_sockets W sockets \<longleftrightarrow>
     (\<forall>(status, info, a)\<in>set (hw_dns_events W). sa_socket a \<notin> sockets \<and> sa_socket a \<ge> - 1)"

lemma request_closes_socket:
  assumes fresh: "fresh_sockets W sockets"
    and r: "astarte_http_do_request heap n W ctx sockets = Some (ares, ctx', sockets')"
  shows "sockets' = sockets"
proof -
  obtain sock ss where c: "create_and_connect_socket W sockets = Some (sock, ss)"
    using r by (auto simp: astarte_http_do_request_def bind_eq_Some_conv)
  have "if sock = - 1 then ss = sockets else sock \<notin> sockets \<and> ss = insert sock sockets \<and> sock \<ge> - 1"
  proof (cases "hw_resolve_rc W = 0")
    case True
    obtain given addrs where f: "fold dns_resolve_cb (hw_dns_events W) (False, []) = (given, addrs)" by fastforce
    have "\<forall>a\<in>set addrs. sa_socket a \<notin> sockets \<and> sa_socket a \<ge> - 1"
      using dns_addresses [of "hw_dns_events W" "(False, [])"] fresh f by (fastforce simp: fresh_sockets_def)
    then show ?thesis
      using c True f connect_loop_sockets [of addrs sockets]
      by (auto simp: create_and_connect_socket_def split: if_splits)
  qed (use c in \<open>auto simp: create_and_connect_socket_def\<close>)
  then show ?thesis
    using r c by (auto simp: astarte_http_do_request_def bind_eq_Some_conv split: if_splits)
qed

lemma do_request_response:
  assumes "0 < n" and "astarte_http_do_request heap m W (request_ctx (replicate n 0)) sockets = Some (ares, ctx, sockets')"
  shows "\<exists>body. hx_resp_buf ctx = Some (body @ replicate (n - length body) 0) \<and> length body < n
    \<and> (ares = ASTARTE_RESULT_OK \<longrightarrow> body = concat (map response_body (hw_responses W)))"
proof -
  have i: "response_inv n [] (request_ctx (replicate n 0))"
    using assms(1) by (simp add: response_inv_def request_ctx_def)
  obtain c got where "http_responses (hw_responses W) (request_ctx (replicate n 0)) = Some c" "response_inv n got c"
    "hx_request_ok c \<longrightarrow> got = concat (map response_body (hw_responses W))"
    using http_responses_ok [OF i, of "hw_responses W"] by auto
  moreover from this(1) have "ctx = request_ctx (replicate n 0) \<and> ares \<noteq> ASTARTE_RESULT_OK
      \<or> ctx = c \<and> (ares = ASTARTE_RESULT_OK \<longrightarrow> hx_request_ok c)"
    using assms(2) by (auto simp: astarte_http_do_request_def bind_eq_Some_conv split: if_splits)
  ultimately show ?thesis
    using i by (auto simp: response_inv_def intro: exI [of _ "[]"])
qed

text \<open>With an answer of the resolver, the request returns: no call of the callback writes outside the buffer.\<close>

lemma do_request_returns:
  assumes "0 < n" and "create_and_connect_socket W sockets \<noteq> None"
  shows "\<exists>x. astarte_http_do_request heap m W (request_ctx (replicate n 0)) sockets = Some x"
proof -
  have i: "response_inv n [] (request_ctx (replicate n 0))"
    using assms(1) by (simp add: response_inv_def request_ctx_def)
  show ?thesis
    using assms(2) http_responses_ok [OF i, of "hw_responses W"] by (auto simp: astarte_http_do_request_def)
qed

end
