(* ===== verification/Pairing.thy ===== *)
theory Pairing
  imports Http Properties_Purge
begin

text \<open>
  The pairing of a device with Astarte (lib/astarte\_device\_sdk/pairing/core.c, pairing/serdes.c), the
  keys of the device (crypto.c) and its TLS credentials (tls\_credentials.c): the registration, the
  address of the broker, and the client certificate with its private key.

  The JSON library, the cryptographic libraries and the store of the TLS credentials are not part of
  the repository.  The first is the record \<open>json_ops\<close>; what the others answer is an argument.  \<open>keys\<close> is
  the set of the private keys the key store of PSA holds.  A buffer with a C string is its string.
\<close>

section \<open>Strings\<close>

text \<open>\<open>strstr\<close>: the position of the first occurrence.\<close>

fun strstr :: "byte list \<Rightarrow> byte list \<Rightarrow> nat option" where
  "strstr [] needle = (if needle = [] then Some 0 else None)"
| "strstr (c # hay) needle =
     (if take (length needle) (c # hay) = needle then Some 0 else map_option Suc (strstr hay needle))"

lemma strstr_bound: "strstr hay needle = Some p \<Longrightarrow> p + length needle \<le> length hay"
proof (induction hay arbitrary: p)
  case (Cons c hay)
  show ?case
  proof (cases "take (length needle) (c # hay) = needle")
    case True
    from arg_cong [OF this, of length] have "length needle \<le> length (c # hay)" by simp
    with True Cons.prems show ?thesis by simp
  qed (use Cons in auto)
qed (auto split: if_splits)

text \<open>\<open>strtok_r\<close> with the delimiter \<open>d\<close>: the token and the rest of the string.\<close>

definition strtok_at :: "byte \<Rightarrow> byte list \<Rightarrow> (byte list \<times> byte list) option" where
  "strtok_at d str = (let str = dropWhile (\<lambda>c. c = d) str in
     if str = [] then None else Some (takeWhile (\<lambda>c. c \<noteq> d) str, tl (dropWhile (\<lambda>c. c \<noteq> d) str)))"

section \<open>serdes.c\<close>

text \<open>
  A JSON object with one string inside nested objects is described by the names on the path to the
  string.  \<open>js_parse\<close> answers the code of \<open>json_obj_parse\<close> and the string, if it is there.  For the
  verification the object has a boolean and a string.
\<close>

record json_ops =
  js_encoded_len :: "byte list list \<Rightarrow> byte list \<Rightarrow> int"
  js_encode :: "byte list list \<Rightarrow> byte list \<Rightarrow> nat \<Rightarrow> int \<times> byte list"
  js_parse :: "byte list list \<Rightarrow> byte list \<Rightarrow> int \<times> byte list option"
  js_parse_verify :: "byte list \<Rightarrow> int \<times> bool \<times> byte list option"

definition ASTARTE_DEVICE_ID_LEN :: nat where "ASTARTE_DEVICE_ID_LEN = 22"
definition ASTARTE_PAIRING_CRED_SECR_LEN :: nat where "ASTARTE_PAIRING_CRED_SECR_LEN = 44"
definition ASTARTE_PAIRING_MAX_BROKER_URL_LEN :: nat where "ASTARTE_PAIRING_MAX_BROKER_URL_LEN = 268"

text \<open>The body the three serializers share.\<close>

definition serialize_payload ::
    "json_ops \<Rightarrow> byte list list \<Rightarrow> byte list \<Rightarrow> nat \<Rightarrow> astarte_result_t + byte list" where
  "serialize_payload J path v out_buff_size =
     (let len = js_encoded_len J path v in
      if len \<le> 0 \<or> len > int out_buff_size then Inl ASTARTE_RESULT_JSON_ERROR
      else case js_encode J path v out_buff_size of (ret, out_buff) \<Rightarrow>
        if ret \<noteq> 0 then Inl ASTARTE_RESULT_JSON_ERROR else Inr out_buff)"

definition data_key :: "byte list" where "data_key = chars ''data''"

definition astarte_pairing_serialize_register_device_payload ::
    "json_ops \<Rightarrow> byte list \<Rightarrow> nat \<Rightarrow> astarte_result_t + byte list" where
  "astarte_pairing_serialize_register_device_payload J device_id =
     serialize_payload J [data_key, chars ''hw_id''] device_id"

definition astarte_pairing_serialize_get_client_certificate_payload ::
    "json_ops \<Rightarrow> byte list \<Rightarrow> nat \<Rightarrow> astarte_result_t + byte list" where
  "astarte_pairing_serialize_get_client_certificate_payload J csr = serialize_payload J [data_key, chars ''csr''] csr"

definition astarte_pairing_serialize_verify_client_certificate_payload ::
    "json_ops \<Rightarrow> byte list \<Rightarrow> nat \<Rightarrow> astarte_result_t + byte list" where
  "astarte_pairing_serialize_verify_client_certificate_payload J crt_pem =
     serialize_payload J [data_key, chars ''client_crt''] crt_pem"

text \<open>The parser returns the bits of the fields that it found on the outermost level.\<close>

definition expected_return_code :: int where "expected_return_code = 1"

definition parsed_string :: "json_ops \<Rightarrow> byte list list \<Rightarrow> byte list \<Rightarrow> byte list option" where
  "parsed_string J path resp_buf = (case js_parse J path (c_string resp_buf) of (ret, v) \<Rightarrow>
     if ret \<noteq> expected_return_code then None else map_option c_string v)"

definition astarte_pairing_deserialize_register_device_response ::
    "json_ops \<Rightarrow> byte list \<Rightarrow> nat \<Rightarrow> astarte_result_t + byte list" where
  "astarte_pairing_deserialize_register_device_response J resp_buf out_cred_secr_size =
     (case parsed_string J [data_key, chars ''credentials_secret''] resp_buf of
        None \<Rightarrow> Inl ASTARTE_RESULT_JSON_ERROR
      | Some credentials_secret \<Rightarrow>
          if length credentials_secret \<noteq> ASTARTE_PAIRING_CRED_SECR_LEN then Inl ASTARTE_RESULT_JSON_ERROR
          else if length credentials_secret \<ge> out_cred_secr_size then Inl ASTARTE_RESULT_JSON_ERROR
          else Inr credentials_secret)"

definition astarte_pairing_deserialize_get_broker_url_response ::
    "json_ops \<Rightarrow> byte list \<Rightarrow> nat \<Rightarrow> astarte_result_t + byte list" where
  "astarte_pairing_deserialize_get_broker_url_response J resp_buf out_url_size =
     (case parsed_string J [data_key, chars ''protocols'', chars ''astarte_mqtt_v1'', chars ''broker_url''] resp_buf of
        None \<Rightarrow> Inl ASTARTE_RESULT_JSON_ERROR
      | Some broker_url \<Rightarrow>
          if length broker_url > ASTARTE_PAIRING_MAX_BROKER_URL_LEN then Inl ASTARTE_RESULT_JSON_ERROR
          else if length broker_url \<ge> out_url_size then Inl ASTARTE_RESULT_JSON_ERROR
          else Inr broker_url)"

definition astarte_pairing_deserialize_get_client_certificate_response ::
    "json_ops \<Rightarrow> nat \<Rightarrow> byte list \<Rightarrow> nat \<Rightarrow> astarte_result_t + byte list" where
  "astarte_pairing_deserialize_get_client_certificate_response J client_crt_buffer_size resp_buf out_deb_size =
     (case parsed_string J [data_key, chars ''client_crt''] resp_buf of
        None \<Rightarrow> Inl ASTARTE_RESULT_JSON_ERROR
      | Some client_crt \<Rightarrow>
          if length client_crt = 0 then Inl ASTARTE_RESULT_JSON_ERROR
          else if length client_crt \<ge> client_crt_buffer_size then Inl ASTARTE_RESULT_INVALID_PARAM
          else if length client_crt \<ge> out_deb_size then Inl ASTARTE_RESULT_JSON_ERROR
          else Inr client_crt)"

text \<open>The first \<open>"details":null\<close> of a response gets a string of the same length.\<close>

definition details_null :: "byte list" where
  "details_null = [0x22] @ chars ''details'' @ [0x22, 0x3A] @ chars ''null''"

definition details_null_replacement :: "byte list" where
  "details_null_replacement = [0x22] @ chars ''details'' @ [0x22, 0x3A, 0x22] @ chars ''..'' @ [0x22]"

definition replace_null :: "byte list \<Rightarrow> byte list" where
  "replace_null resp_buf = (case strstr resp_buf details_null of
     None \<Rightarrow> resp_buf
   | Some p \<Rightarrow> take p resp_buf @ details_null_replacement @ drop (p + length details_null_replacement) resp_buf)"

definition astarte_pairing_deserialize_verify_client_certificate_response ::
    "json_ops \<Rightarrow> byte list \<Rightarrow> astarte_result_t" where
  "astarte_pairing_deserialize_verify_client_certificate_response J resp_buf =
     (case js_parse_verify J (replace_null (c_string resp_buf)) of (ret, is_valid, cause) \<Rightarrow>
        if ret \<noteq> expected_return_code then ASTARTE_RESULT_JSON_ERROR
        else if is_valid then ASTARTE_RESULT_OK
        else case cause of
          None \<Rightarrow> ASTARTE_RESULT_JSON_ERROR
        | Some cause \<Rightarrow> if strlen cause = 0 then ASTARTE_RESULT_JSON_ERROR else ASTARTE_RESULT_CLIENT_CERT_INVALID)"

section \<open>crypto.c\<close>

record client_crt =
  cc_privkey :: u32
  cc_privkey_pem :: "byte list"
  cc_crt_pem :: "byte list"

definition ASTARTE_TLS_CREDENTIALS_PRIVKEY_BUFFER_SIZE :: nat where "ASTARTE_TLS_CREDENTIALS_PRIVKEY_BUFFER_SIZE = 1024"
definition ASTARTE_TLS_CREDENTIALS_CSR_BUFFER_SIZE :: nat where "ASTARTE_TLS_CREDENTIALS_CSR_BUFFER_SIZE = 1024"

text \<open>The identifier zero is that of no key.\<close>

definition PSA_KEY_ID_NULL :: u32 where "PSA_KEY_ID_NULL = 0"

record key_answers =
  ka_init :: int
  ka_generate :: "int \<times> u32"
  ka_copy :: int
  ka_write_pem :: "int \<times> byte list"

record csr_answers =
  ca_init :: int
  ca_copy :: int
  ca_subject :: int
  ca_write_pem :: "int \<times> byte list"

text \<open>The branch \<open>error\<close>: the key is destroyed.\<close>

definition key_error :: "client_crt \<Rightarrow> u32 \<Rightarrow> u32 set \<Rightarrow> astarte_result_t \<times> client_crt \<times> u32 set" where
  "key_error crt key_id keys = (ASTARTE_RESULT_MBEDTLS_ERROR, crt\<lparr>cc_privkey := PSA_KEY_ID_NULL\<rparr>, keys - {key_id})"

definition astarte_crypto_create_key ::
    "key_answers \<Rightarrow> nat \<Rightarrow> client_crt \<Rightarrow> u32 set \<Rightarrow> astarte_result_t \<times> client_crt \<times> u32 set" where
  "astarte_crypto_create_key W privkey_pem_size crt keys =
     (if privkey_pem_size < ASTARTE_TLS_CREDENTIALS_PRIVKEY_BUFFER_SIZE then (ASTARTE_RESULT_INVALID_PARAM, crt, keys)
      else if ka_init W \<noteq> 0 then key_error crt PSA_KEY_ID_NULL keys
      else case ka_generate W of (psa_ret, key_id) \<Rightarrow>
        if psa_ret \<noteq> 0 then key_error crt PSA_KEY_ID_NULL keys
        else
          let keys = insert key_id keys in
          if ka_copy W \<noteq> 0 then key_error crt key_id keys
          else case ka_write_pem W of (pk_ret, privkey_pem) \<Rightarrow>
            if pk_ret \<noteq> 0 then key_error crt key_id keys
            else (ASTARTE_RESULT_OK, crt\<lparr>cc_privkey := key_id, cc_privkey_pem := privkey_pem\<rparr>, keys))"

definition astarte_crypto_create_csr :: "csr_answers \<Rightarrow> nat \<Rightarrow> astarte_result_t + byte list" where
  "astarte_crypto_create_csr W csr_pem_size =
     (if csr_pem_size < ASTARTE_TLS_CREDENTIALS_CSR_BUFFER_SIZE then Inl ASTARTE_RESULT_INVALID_PARAM
      else if ca_init W \<noteq> 0 then Inl ASTARTE_RESULT_MBEDTLS_ERROR
      else if ca_copy W \<noteq> 0 then Inl ASTARTE_RESULT_MBEDTLS_ERROR
      else if ca_subject W \<noteq> 0 then Inl ASTARTE_RESULT_MBEDTLS_ERROR
      else case ca_write_pem W of (res, csr_pem) \<Rightarrow>
        if res \<noteq> 0 then Inl ASTARTE_RESULT_MBEDTLS_ERROR else Inr csr_pem)"

section \<open>core.c\<close>

record pairing_env =
  pe_realm :: "byte list"
  pe_pairing_jwt :: "byte list"
  pe_client_crt_buffer_size :: nat
  pe_http :: http_env
  pe_json :: json_ops

abbreviation pe_heap :: "pairing_env \<Rightarrow> nat \<Rightarrow> bool" where "pe_heap P \<equiv> he_heap (pe_http P)"

definition REGISTER_DEVICE_PAYLOAD_MAX_SIZE :: nat where "REGISTER_DEVICE_PAYLOAD_MAX_SIZE = 50"
definition REGISTER_DEVICE_RESPONSE_MAX_SIZE :: nat where "REGISTER_DEVICE_RESPONSE_MAX_SIZE = 50 + ASTARTE_PAIRING_CRED_SECR_LEN"
definition GET_BROKER_INFO_RESPONSE_MAX_SIZE :: nat where "GET_BROKER_INFO_RESPONSE_MAX_SIZE = 50 + ASTARTE_PAIRING_MAX_BROKER_URL_LEN"
definition GET_CLIENT_CRT_PAYLOAD_MAX_SIZE :: nat where "GET_CLIENT_CRT_PAYLOAD_MAX_SIZE = 25 + ASTARTE_TLS_CREDENTIALS_CSR_BUFFER_SIZE"
definition VERIFY_CLIENT_CRT_RESPONSE_MAX_SIZE :: nat where "VERIFY_CLIENT_CRT_RESPONSE_MAX_SIZE = 128"

definition client_crt_message_size :: "pairing_env \<Rightarrow> nat" where
  "client_crt_message_size P = 50 + pe_client_crt_buffer_size P"

definition bearer_header :: "byte list \<Rightarrow> byte list" where
  "bearer_header token = chars ''Authorization: Bearer '' @ token @ [0x0D, 0x0A]"

text \<open>\<open>snprintf\<close> of the header with the credential secret, and of a URL with the device ID.\<close>

definition AUTH_HEADER_CRED_SECRET_SIZE :: nat where
  "AUTH_HEADER_CRED_SECRET_SIZE = 23 + ASTARTE_PAIRING_CRED_SECR_LEN + 3 - 1"

definition auth_header :: "byte list \<Rightarrow> byte list option" where
  "auth_header cred_secr = (let header = bearer_header (c_string cred_secr) in
     if length header \<noteq> AUTH_HEADER_CRED_SECRET_SIZE - 1 then None else Some header)"

definition PAIRING_URL_PREFIX :: "pairing_env \<Rightarrow> byte list" where
  "PAIRING_URL_PREFIX P = chars ''/pairing/v1/'' @ pe_realm P"

definition PAIRING_REGISTRATION_URL :: "pairing_env \<Rightarrow> byte list" where
  "PAIRING_REGISTRATION_URL P = PAIRING_URL_PREFIX P @ chars ''/agent/devices''"

definition PAIRING_DEVICE_CERT_URL_SUFFIX :: "byte list" where
  "PAIRING_DEVICE_CERT_URL_SUFFIX = chars ''/protocols/astarte_mqtt_v1/credentials''"

definition device_url :: "pairing_env \<Rightarrow> byte list \<Rightarrow> byte list \<Rightarrow> byte list option" where
  "device_url P device_id suffix =
     (let prefix = PAIRING_URL_PREFIX P @ chars ''/devices/'';
          url = prefix @ c_string device_id @ suffix in
      if length url \<noteq> length prefix + ASTARTE_DEVICE_ID_LEN + length suffix then None else Some url)"

definition astarte_pairing_register_device ::
    "pairing_env \<Rightarrow> byte list \<Rightarrow> nat \<Rightarrow> int set \<Rightarrow> ((astarte_result_t + byte list) \<times> int set) option" where
  "astarte_pairing_register_device P device_id out_cred_secr_size sockets =
     (if length (pe_pairing_jwt P) + 1 \<le> 1 then Some (Inl ASTARTE_RESULT_INVALID_CONFIGURATION, sockets)
      else if strlen device_id \<noteq> ASTARTE_DEVICE_ID_LEN then Some (Inl ASTARTE_RESULT_INVALID_PARAM, sockets)
      else if out_cred_secr_size \<le> ASTARTE_PAIRING_CRED_SECR_LEN then Some (Inl ASTARTE_RESULT_INVALID_PARAM, sockets)
      else case astarte_pairing_serialize_register_device_payload (pe_json P) device_id REGISTER_DEVICE_PAYLOAD_MAX_SIZE of
        Inl ares \<Rightarrow> Some (Inl ares, sockets)
      | Inr payload \<Rightarrow> do {
          (r, sockets) \<leftarrow> astarte_http_post (pe_http P) (PAIRING_REGISTRATION_URL P) [bearer_header (pe_pairing_jwt P)]
            payload REGISTER_DEVICE_RESPONSE_MAX_SIZE sockets;
          Some (case r of Inl ares \<Rightarrow> Inl ares
            | Inr resp_buf \<Rightarrow>
                astarte_pairing_deserialize_register_device_response (pe_json P) resp_buf out_cred_secr_size, sockets)
        })"

definition get_broker_info ::
    "pairing_env \<Rightarrow> byte list \<Rightarrow> byte list \<Rightarrow> nat \<Rightarrow> int set \<Rightarrow> ((astarte_result_t + byte list) \<times> int set) option" where
  "get_broker_info P device_id cred_secr out_url_size sockets =
     (if out_url_size \<le> ASTARTE_PAIRING_MAX_BROKER_URL_LEN then Some (Inl ASTARTE_RESULT_INVALID_PARAM, sockets)
      else if strlen device_id \<noteq> ASTARTE_DEVICE_ID_LEN then Some (Inl ASTARTE_RESULT_INVALID_PARAM, sockets)
      else case auth_header cred_secr of
        None \<Rightarrow> Some (Inl ASTARTE_RESULT_INVALID_PARAM, sockets)
      | Some header \<Rightarrow>
          (case device_url P device_id [] of
             None \<Rightarrow> Some (Inl ASTARTE_RESULT_INTERNAL_ERROR, sockets)
           | Some url \<Rightarrow> do {
               (r, sockets) \<leftarrow>
                 astarte_http_get (pe_http P) url [header] GET_BROKER_INFO_RESPONSE_MAX_SIZE sockets;
               Some (case r of Inl ares \<Rightarrow> Inl ares
                 | Inr resp_buf \<Rightarrow>
                     astarte_pairing_deserialize_get_broker_url_response (pe_json P) resp_buf out_url_size, sockets)
             }))"

definition ASTARTE_MQTT_MAX_BROKER_HOSTNAME_LEN :: nat where "ASTARTE_MQTT_MAX_BROKER_HOSTNAME_LEN = 253"
definition ASTARTE_MQTT_MAX_BROKER_PORT_LEN :: nat where "ASTARTE_MQTT_MAX_BROKER_PORT_LEN = 5"

definition url_scheme :: "byte list" where "url_scheme = chars ''mqtts://''"

text \<open>Host name and port of a URL \<open>mqtts://HOST:PORT/\<close>.\<close>

definition split_broker_url :: "byte list \<Rightarrow> astarte_result_t + byte list \<times> byte list" where
  "split_broker_url broker_url =
     (if \<not> strncmp_eq broker_url url_scheme (length url_scheme) then Inl ASTARTE_RESULT_HTTP_REQUEST_ERROR
      else case strtok_at 0x3A (drop (length url_scheme) broker_url) of
        None \<Rightarrow> Inl ASTARTE_RESULT_HTTP_REQUEST_ERROR
      | Some (broker_hostname, saveptr) \<Rightarrow>
          if length broker_hostname = 0 \<or> length broker_hostname > ASTARTE_MQTT_MAX_BROKER_HOSTNAME_LEN
          then Inl ASTARTE_RESULT_INTERNAL_ERROR
          else case strtok_at 0x2F saveptr of
            None \<Rightarrow> Inl ASTARTE_RESULT_HTTP_REQUEST_ERROR
          | Some (broker_port, saveptr) \<Rightarrow>
              if length broker_port = 0 \<or> length broker_port > ASTARTE_MQTT_MAX_BROKER_PORT_LEN
              then Inl ASTARTE_RESULT_INTERNAL_ERROR
              else Inr (broker_hostname, broker_port))"

definition astarte_pairing_get_mqtt_broker_hostname_and_port ::
    "pairing_env \<Rightarrow> byte list \<Rightarrow> byte list \<Rightarrow> int set
      \<Rightarrow> ((astarte_result_t + byte list \<times> byte list) \<times> int set) option" where
  "astarte_pairing_get_mqtt_broker_hostname_and_port P device_id cred_secr sockets = do {
     (r, sockets) \<leftarrow> get_broker_info P device_id cred_secr (ASTARTE_PAIRING_MAX_BROKER_URL_LEN + 1) sockets;
     Some (case r of Inl ares \<Rightarrow> Inl ares | Inr broker_url \<Rightarrow> split_broker_url broker_url, sockets)
   }"

text \<open>Every \<open>\\n\<close> of two characters becomes a line break, the leftmost one first.\<close>

definition escaped_newline :: "byte list" where "escaped_newline = [0x5C, 0x6E]"

function unescape_newlines :: "byte list \<Rightarrow> byte list" where
  "unescape_newlines crt_pem = (case strstr crt_pem escaped_newline of
     None \<Rightarrow> crt_pem
   | Some tmp \<Rightarrow> unescape_newlines (take tmp crt_pem @ [0x0A] @ drop (tmp + 2) crt_pem))"
  by pat_completeness auto
termination
  by (relation "measure length") (auto simp: escaped_newline_def dest!: strstr_bound)

declare unescape_newlines.simps [simp del]

text \<open>The cleanup of an attempt that failed: the private key is destroyed, the strings are wiped.\<close>

definition wipe_client_crt :: "client_crt \<Rightarrow> u32 set \<Rightarrow> client_crt \<times> u32 set" where
  "wipe_client_crt crt keys =
     (\<lparr>cc_privkey = PSA_KEY_ID_NULL, cc_privkey_pem = [], cc_crt_pem = []\<rparr>, keys - {cc_privkey crt})"

text \<open>The request of the certificate, with its three buffers: the response string, or an error.\<close>

definition request_certificate ::
    "pairing_env \<Rightarrow> csr_answers \<Rightarrow> byte list \<Rightarrow> byte list \<Rightarrow> int set
      \<Rightarrow> ((astarte_result_t + byte list) \<times> int set) option" where
  "request_certificate P W device_id cred_secr sockets =
     (if \<not> astarte_calloc (pe_heap P) ASTARTE_TLS_CREDENTIALS_CSR_BUFFER_SIZE 1
      then Some (Inl ASTARTE_RESULT_INTERNAL_ERROR, sockets)
      else case astarte_crypto_create_csr W ASTARTE_TLS_CREDENTIALS_CSR_BUFFER_SIZE of
        Inl ares \<Rightarrow> Some (Inl ares, sockets)
      | Inr csr_buf \<Rightarrow>
          (case auth_header cred_secr of
             None \<Rightarrow> Some (Inl ASTARTE_RESULT_INVALID_PARAM, sockets)
           | Some header \<Rightarrow>
               if \<not> astarte_calloc (pe_heap P) GET_CLIENT_CRT_PAYLOAD_MAX_SIZE 1
               then Some (Inl ASTARTE_RESULT_INTERNAL_ERROR, sockets)
               else case astarte_pairing_serialize_get_client_certificate_payload (pe_json P) csr_buf
                   GET_CLIENT_CRT_PAYLOAD_MAX_SIZE of
                 Inl ares \<Rightarrow> Some (Inl ares, sockets)
               | Inr payload \<Rightarrow>
                   if \<not> astarte_calloc (pe_heap P) (client_crt_message_size P) 1
                   then Some (Inl ASTARTE_RESULT_INTERNAL_ERROR, sockets)
                   else case device_url P device_id PAIRING_DEVICE_CERT_URL_SUFFIX of
                     None \<Rightarrow> Some (Inl ASTARTE_RESULT_INTERNAL_ERROR, sockets)
                   | Some url \<Rightarrow> do {
                       (r, sockets) \<leftarrow>
                         astarte_http_post (pe_http P) url [header] payload (client_crt_message_size P) sockets;
                       Some (case r of Inl ares \<Rightarrow> Inl ares
                         | Inr resp_buf \<Rightarrow> astarte_pairing_deserialize_get_client_certificate_response (pe_json P)
                             (pe_client_crt_buffer_size P) resp_buf (pe_client_crt_buffer_size P), sockets)
                     }))"

definition astarte_pairing_get_client_certificate ::
    "pairing_env \<Rightarrow> key_answers \<Rightarrow> csr_answers \<Rightarrow> byte list \<Rightarrow> byte list \<Rightarrow> client_crt \<Rightarrow> u32 set \<Rightarrow> int set
      \<Rightarrow> (astarte_result_t \<times> client_crt \<times> u32 set \<times> int set) option" where
  "astarte_pairing_get_client_certificate P K W device_id cred_secr crt keys sockets =
     (if strlen device_id \<noteq> ASTARTE_DEVICE_ID_LEN
      then (case wipe_client_crt crt keys of (crt, keys) \<Rightarrow> Some (ASTARTE_RESULT_INVALID_PARAM, crt, keys, sockets))
      else case astarte_crypto_create_key K ASTARTE_TLS_CREDENTIALS_PRIVKEY_BUFFER_SIZE crt keys of
        (ares, crt, keys) \<Rightarrow>
          if ares \<noteq> ASTARTE_RESULT_OK
          then (case wipe_client_crt crt keys of (crt, keys) \<Rightarrow> Some (ares, crt, keys, sockets))
          else do {
            (r, sockets) \<leftarrow> request_certificate P W device_id cred_secr sockets;
            Some (case r of
              Inl ares \<Rightarrow> (case wipe_client_crt crt keys of (crt, keys) \<Rightarrow> (ares, crt, keys, sockets))
            | Inr crt_pem \<Rightarrow> (ASTARTE_RESULT_OK, crt\<lparr>cc_crt_pem := unescape_newlines crt_pem\<rparr>, keys, sockets))
          })"

definition astarte_pairing_verify_client_certificate ::
    "pairing_env \<Rightarrow> byte list \<Rightarrow> byte list \<Rightarrow> byte list \<Rightarrow> int set \<Rightarrow> (astarte_result_t \<times> int set) option" where
  "astarte_pairing_verify_client_certificate P device_id cred_secr crt_pem sockets =
     (if strlen device_id \<noteq> ASTARTE_DEVICE_ID_LEN then Some (ASTARTE_RESULT_INVALID_PARAM, sockets)
      else case auth_header cred_secr of
        None \<Rightarrow> Some (ASTARTE_RESULT_INVALID_PARAM, sockets)
      | Some header \<Rightarrow>
          if \<not> astarte_calloc (pe_heap P) (client_crt_message_size P) 1
          then Some (ASTARTE_RESULT_INTERNAL_ERROR, sockets)
          else case astarte_pairing_serialize_verify_client_certificate_payload (pe_json P) crt_pem
              (client_crt_message_size P) of
            Inl ares \<Rightarrow> Some (ares, sockets)
          | Inr payload \<Rightarrow>
              (case device_url P device_id (PAIRING_DEVICE_CERT_URL_SUFFIX @ chars ''/verify'') of
                 None \<Rightarrow> Some (ASTARTE_RESULT_INTERNAL_ERROR, sockets)
               | Some url \<Rightarrow> do {
                   (r, sockets) \<leftarrow>
                     astarte_http_post (pe_http P) url [header] payload VERIFY_CLIENT_CRT_RESPONSE_MAX_SIZE sockets;
                   Some (case r of Inl ares \<Rightarrow> ares
                     | Inr resp_buf \<Rightarrow>
                         astarte_pairing_deserialize_verify_client_certificate_response (pe_json P) resp_buf, sockets)
                 }))"

section \<open>tls\_credentials.c\<close>

text \<open>The answers of \<open>tls_credential_add\<close> and \<open>tls_credential_delete\<close> for the certificate and for the key.\<close>

definition ENOENT :: int where "ENOENT = 2"

definition astarte_tls_credential_add ::
    "int \<Rightarrow> int \<Rightarrow> client_crt \<Rightarrow> u32 set \<Rightarrow> astarte_result_t \<times> client_crt \<times> u32 set" where
  "astarte_tls_credential_add crt_rc key_rc crt keys =
     (if crt_rc \<noteq> 0 \<or> key_rc \<noteq> 0
      then (case wipe_client_crt crt keys of (crt, keys) \<Rightarrow> (ASTARTE_RESULT_TLS_ERROR, crt, keys))
      else (ASTARTE_RESULT_OK, crt, keys))"

definition astarte_tls_credential_delete :: "int \<Rightarrow> int \<Rightarrow> astarte_result_t" where
  "astarte_tls_credential_delete crt_rc key_rc =
     (if crt_rc \<noteq> 0 \<and> crt_rc \<noteq> - ENOENT then ASTARTE_RESULT_TLS_ERROR
      else if key_rc \<noteq> 0 \<and> key_rc \<noteq> - ENOENT then ASTARTE_RESULT_TLS_ERROR
      else ASTARTE_RESULT_OK)"

section \<open>The certificate of a device (device/core.c)\<close>

record refresh_world =
  rw_delete :: "int \<times> int"
  rw_key :: key_answers
  rw_csr :: csr_answers
  rw_add :: "int \<times> int"

definition refresh_client_cert_handler ::
    "pairing_env \<Rightarrow> refresh_world \<Rightarrow> byte list \<Rightarrow> byte list \<Rightarrow> client_crt \<Rightarrow> u32 set \<Rightarrow> int set
      \<Rightarrow> (astarte_result_t \<times> client_crt \<times> u32 set \<times> int set) option" where
  "refresh_client_cert_handler P W device_id cred_secr crt keys sockets =
     (let renew = (\<lambda>sockets. do {
        (ares, crt, keys, sockets) \<leftarrow>
          astarte_pairing_get_client_certificate P (rw_key W) (rw_csr W) device_id cred_secr crt keys sockets;
        if ares \<noteq> ASTARTE_RESULT_OK then Some (ares, crt, keys, sockets)
        else (case astarte_tls_credential_add (fst (rw_add W)) (snd (rw_add W)) crt keys of
          (ares, crt, keys) \<Rightarrow> Some (ares, crt, keys, sockets))
      }) in
      if strlen (cc_crt_pem crt) \<noteq> 0 then do {
        (ares, sockets) \<leftarrow>
          astarte_pairing_verify_client_certificate P device_id cred_secr (cc_crt_pem crt) sockets;
        if ares \<noteq> ASTARTE_RESULT_OK \<and> ares \<noteq> ASTARTE_RESULT_CLIENT_CERT_INVALID then Some (ares, crt, keys, sockets)
        else if ares = ASTARTE_RESULT_OK then Some (ares, crt, keys, sockets)
        else
          let ares = astarte_tls_credential_delete (fst (rw_delete W)) (snd (rw_delete W)) in
          if ares \<noteq> ASTARTE_RESULT_OK then Some (ares, crt, keys, sockets) else renew sockets
      }
      else renew sockets)"

section \<open>Line breaks of a certificate\<close>

text \<open>The same in one pass from the left.\<close>

fun newlines :: "byte list \<Rightarrow> byte list" where
  "newlines (a # b # rest) =
     (if [a, b] = escaped_newline then 0x0A # newlines rest else a # newlines (b # rest))"
| "newlines bs = bs"

lemma newlines_Nil [simp]: "newlines (0x0A # bs) = 0x0A # newlines bs"
  by (cases bs) (simp_all add: escaped_newline_def)

lemma newlines_step:
  "strstr bs escaped_newline = Some p \<Longrightarrow> newlines (take p bs @ [0x0A] @ drop (p + 2) bs) = newlines bs"
proof (induction bs arbitrary: p)
  case (Cons a bs)
  show ?case
  proof (cases "take 2 (a # bs) = escaped_newline")
    case True
    then have "p = 0" using Cons.prems by (simp add: escaped_newline_def)
    moreover obtain bs' where "a # bs = 0x5C # 0x6E # bs'"
      using True by (cases bs) (auto simp: escaped_newline_def)
    ultimately show ?thesis by (simp add: escaped_newline_def)
  next
    case False
    then obtain q where q: "strstr bs escaped_newline = Some q" "p = Suc q"
      using Cons.prems by (auto simp: escaped_newline_def)
    have keep: "newlines (a # bs') = a # newlines bs'" if "take 1 bs' \<noteq> [0x6E] \<or> a \<noteq> 0x5C" for bs' :: "byte list"
      using that by (cases bs') (auto simp: escaped_newline_def)
    have n: "take 1 bs \<noteq> [0x6E] \<or> a \<noteq> 0x5C"
      using False by (cases bs) (auto simp: escaped_newline_def)
    have "newlines (a # take q bs @ [0x0A] @ drop (q + 2) bs) = a # newlines (take q bs @ [0x0A] @ drop (q + 2) bs)"
      using n by (intro keep) (cases q; cases bs; auto)
    then show ?thesis using Cons.IH [OF q(1)] q(2) keep [OF n] by simp
  qed
qed (simp add: escaped_newline_def)

lemma newlines_none: "strstr bs escaped_newline = None \<Longrightarrow> newlines bs = bs"
  by (induction bs rule: newlines.induct) (auto simp: escaped_newline_def split: if_splits)

lemma unescape_newlines_eq: "unescape_newlines crt_pem = newlines crt_pem"
proof (induction crt_pem rule: unescape_newlines.induct)
  case (1 crt_pem)
  show ?case
  proof (cases "strstr crt_pem escaped_newline")
    case None
    then show ?thesis by (subst unescape_newlines.simps) (simp add: newlines_none)
  next
    case (Some p)
    then show ?thesis
      using 1 [OF Some] newlines_step [OF Some] by (subst unescape_newlines.simps) simp
  qed
qed

lemma unescape_newlines_none: "strstr (unescape_newlines crt_pem) escaped_newline = None"
proof (induction crt_pem rule: unescape_newlines.induct)
  case (1 crt_pem)
  then show ?case
    by (subst unescape_newlines.simps) (cases "strstr crt_pem escaped_newline"; simp)
qed

lemma unescape_newlines_length: "length (unescape_newlines crt_pem) \<le> length crt_pem"
  unfolding unescape_newlines_eq by (induction crt_pem rule: newlines.induct) auto

section \<open>Keys and sockets\<close>

text \<open>The server opens only sockets that are not in use, and the key store hands out only new keys.\<close>

definition fresh_server :: "http_env \<Rightarrow> int set \<Rightarrow> bool" where
  "fresh_server H sockets \<longleftrightarrow> (\<forall>k url hs p. fresh_sockets (he_server H k url hs p) sockets)"

definition fresh_key :: "key_answers \<Rightarrow> u32 set \<Rightarrow> bool" where
  "fresh_key K keys \<longleftrightarrow> snd (ka_generate K) \<notin> keys"

lemma http_request_closes:
  assumes "fresh_server H sockets" and "http_request H k url hs p n sockets = Some (r, sockets')"
  shows "sockets' = sockets"
  using assms request_closes_socket
  by (fastforce simp: http_request_def fresh_server_def bind_eq_Some_conv)

lemma http_answer_closes:
  assumes "fresh_server H sockets"
    and "Option.bind (http_request H k url hs p n sockets) (\<lambda>(r, ss). Some (g r, ss)) = Some (x, sockets')"
  shows "sockets' = sockets"
  using assms(2) by (auto simp: bind_eq_Some_conv dest: http_request_closes [OF assms(1)])

lemma request_certificate_closes:
  assumes "fresh_server (pe_http P) sockets" and "request_certificate P W device_id cred_secr sockets = Some (r, sockets')"
  shows "sockets' = sockets"
  using assms(2) unfolding request_certificate_def astarte_http_post_def
  by (cases "astarte_crypto_create_csr W ASTARTE_TLS_CREDENTIALS_CSR_BUFFER_SIZE"; cases "auth_header cred_secr";
      cases "astarte_pairing_serialize_get_client_certificate_payload (pe_json P)
        (projr (astarte_crypto_create_csr W ASTARTE_TLS_CREDENTIALS_CSR_BUFFER_SIZE)) GET_CLIENT_CRT_PAYLOAD_MAX_SIZE";
      cases "device_url P device_id PAIRING_DEVICE_CERT_URL_SUFFIX")
    (auto dest: http_answer_closes [OF assms(1)] split: if_splits)

lemma verify_closes:
  assumes "fresh_server (pe_http P) sockets"
    and "astarte_pairing_verify_client_certificate P device_id cred_secr crt_pem sockets = Some (r, sockets')"
  shows "sockets' = sockets"
  using assms(2) unfolding astarte_pairing_verify_client_certificate_def astarte_http_post_def
  by (cases "auth_header cred_secr";
      cases "astarte_pairing_serialize_verify_client_certificate_payload (pe_json P) crt_pem (client_crt_message_size P)";
      cases "device_url P device_id (PAIRING_DEVICE_CERT_URL_SUFFIX @ chars ''/verify'')")
    (auto dest: http_answer_closes [OF assms(1)] split: if_splits)

lemma request_certificate_error:
  "request_certificate P W device_id cred_secr sockets = Some (Inl ares, sockets') \<Longrightarrow> ares \<noteq> ASTARTE_RESULT_OK"
  by (auto simp: request_certificate_def astarte_http_post_def http_request_def astarte_crypto_create_csr_def
      astarte_pairing_serialize_get_client_certificate_payload_def serialize_payload_def Let_def
      astarte_pairing_deserialize_get_client_certificate_response_def bind_eq_Some_conv
      split: if_splits option.splits sum.splits prod.splits)

lemma create_key_cases:
  assumes "fresh_key K keys" and "0 \<notin> keys"
    and "astarte_crypto_create_key K ASTARTE_TLS_CREDENTIALS_PRIVKEY_BUFFER_SIZE crt keys = (ares, crt', keys')"
  shows "if ares = ASTARTE_RESULT_OK then cc_privkey crt' = snd (ka_generate K) \<and> keys' = insert (cc_privkey crt') keys
    else cc_privkey crt' = 0 \<and> keys' = keys"
  using assms
  by (auto simp: astarte_crypto_create_key_def key_error_def PSA_KEY_ID_NULL_def fresh_key_def Let_def
      split: if_splits prod.splits)

text \<open>A certificate, or nothing.\<close>

definition wiped :: client_crt where
  "wiped = \<lparr>cc_privkey = PSA_KEY_ID_NULL, cc_privkey_pem = [], cc_crt_pem = []\<rparr>"

lemma get_certificate_cases:
  assumes fresh: "fresh_key K keys" "0 \<notin> keys" "fresh_server (pe_http P) sockets" and id: "strlen device_id = ASTARTE_DEVICE_ID_LEN"
    and r: "astarte_pairing_get_client_certificate P K W device_id cred_secr crt keys sockets = Some (ares, crt', keys', sockets')"
  shows "sockets' = sockets \<and> (if ares = ASTARTE_RESULT_OK
    then cc_privkey crt' = snd (ka_generate K) \<and> keys' = insert (cc_privkey crt') keys else crt' = wiped \<and> keys' = keys)"
proof -
  obtain a c ks where ck: "astarte_crypto_create_key K ASTARTE_TLS_CREDENTIALS_PRIVKEY_BUFFER_SIZE crt keys = (a, c, ks)"
    by (rule prod_cases3)
  note cases = create_key_cases [OF fresh(1,2) ck]
  show ?thesis
  proof (cases "a = ASTARTE_RESULT_OK")
    case False
    then show ?thesis
      using r ck id cases fresh(2)
      by (auto simp: astarte_pairing_get_client_certificate_def wipe_client_crt_def wiped_def)
  next
    case True
    then obtain q ss where q: "request_certificate P W device_id cred_secr sockets = Some (q, ss)"
      using r ck id by (auto simp: astarte_pairing_get_client_certificate_def bind_eq_Some_conv)
    show ?thesis
      using r ck id cases True q request_certificate_closes [OF fresh(3) q] fresh(1) request_certificate_error
      by (cases q) (auto simp: astarte_pairing_get_client_certificate_def wipe_client_crt_def wiped_def fresh_key_def)
  qed
qed

text \<open>The whole renewal.\<close>

lemma refresh_cases:
  assumes fresh: "fresh_key (rw_key W) keys" "PSA_KEY_ID_NULL \<notin> keys" "fresh_server (pe_http P) sockets"
    and id: "strlen device_id = ASTARTE_DEVICE_ID_LEN"
    and r: "refresh_client_cert_handler P W device_id cred_secr crt keys sockets = Some (ares, crt', keys', sockets')"
  shows "sockets' = sockets
    \<and> (if strlen (cc_crt_pem crt) \<noteq> 0
         \<and> astarte_pairing_verify_client_certificate P device_id cred_secr (cc_crt_pem crt) sockets = Some (ASTARTE_RESULT_OK, sockets)
       then ares = ASTARTE_RESULT_OK \<and> crt' = crt \<and> keys' = keys
       else if ares = ASTARTE_RESULT_OK
       then (strlen (cc_crt_pem crt) = 0
           \<or> astarte_pairing_verify_client_certificate P device_id cred_secr (cc_crt_pem crt) sockets
             = Some (ASTARTE_RESULT_CLIENT_CERT_INVALID, sockets))
         \<and> cc_privkey crt' = snd (ka_generate (rw_key W)) \<and> cc_privkey crt' \<notin> keys \<and> keys' = insert (cc_privkey crt') keys
       else keys' = keys \<and> (crt' = crt \<or> crt' = wiped))"
proof -
  have zero: "0 \<notin> keys" using fresh(2) by (simp add: PSA_KEY_ID_NULL_def)
  have renew: "sockets' = sockets
      \<and> (if ares = ASTARTE_RESULT_OK
         then cc_privkey crt' = snd (ka_generate (rw_key W)) \<and> cc_privkey crt' \<notin> keys \<and> keys' = insert (cc_privkey crt') keys
         else crt' = wiped \<and> keys' = keys)"
    if "Option.bind (astarte_pairing_get_client_certificate P (rw_key W) (rw_csr W) device_id cred_secr crt keys sockets)
      (\<lambda>(ares, crt, keys, sockets). if ares \<noteq> ASTARTE_RESULT_OK then Some (ares, crt, keys, sockets)
        else (case astarte_tls_credential_add (fst (rw_add W)) (snd (rw_add W)) crt keys of
          (ares, crt, keys) \<Rightarrow> Some (ares, crt, keys, sockets))) = Some (ares, crt', keys', sockets')"
  proof -
    from that obtain a c k ss where g: "astarte_pairing_get_client_certificate P (rw_key W) (rw_csr W) device_id cred_secr
        crt keys sockets = Some (a, c, k, ss)" by (auto simp: bind_eq_Some_conv)
    show ?thesis
      using that g get_certificate_cases [OF fresh(1) zero fresh(3) id g] fresh(1)
      by (auto simp: astarte_tls_credential_add_def wipe_client_crt_def wiped_def fresh_key_def split: if_splits)
  qed
  show ?thesis
  proof (cases "strlen (cc_crt_pem crt) = 0")
    case True
    then show ?thesis using r renew by (auto simp: refresh_client_cert_handler_def split: if_splits)
  next
    case False
    then obtain a ss where v: "astarte_pairing_verify_client_certificate P device_id cred_secr (cc_crt_pem crt) sockets = Some (a, ss)"
      using r by (auto simp: refresh_client_cert_handler_def bind_eq_Some_conv)
    then have "ss = sockets" by (rule verify_closes [OF fresh(3)])
    then show ?thesis
      using r v False renew
      by (auto simp: refresh_client_cert_handler_def Let_def split: if_splits)
  qed
qed

end
