(* ===== verification/Device_Core.thy ===== *)
theory Device_Core
  imports Mqtt_Client Transmission Introspection Pairing Object
begin

text \<open>
  The state of a device (include/device/core.h, device.h) and what it does with data of its user and
  of the server: properties (device/properties.c, the rest of device/properties\_storage.c) and
  datastreams (device/datastreams.c).

  The storage handle is inside the transmission queue, which holds the pointer to it: \<open>dev_caching\<close>
  reads it and \<open>set_caching\<close> writes it.  An operation gets the environment \<open>D\<close> of the device; \<open>None\<close>
  is, as everywhere, a call that does not return or that reads outside an object.

  An event of the data of the server points to the path inside the topic of the packet, which is freed
  when the handler of the packet returns; the model holds the string.
\<close>

section \<open>State\<close>

datatype connection_states =
    DEVICE_DISCONNECTED
  | DEVICE_MQTT_CONNECTING
  | DEVICE_START_HANDSHAKE
  | DEVICE_END_HANDSHAKE
  | DEVICE_HANDSHAKE_ERROR
  | DEVICE_CONNECTED

text \<open>
  The events for the user.  \<open>EventMisread\<close> is what the worker puts into the queue for an error: the
  structure of an error, of which the queue copies the size of an event, so that the result is where
  the type of the event is read.
\<close>

datatype device_event =
    EventConnected
  | EventDisconnected
  | EventIndividual "byte list" "byte list" astarte_data_t
  | EventObject "byte list" "byte list" "astarte_object_entry_t list"
  | EventPropertySet "byte list" "byte list" astarte_data_t
  | EventPropertyUnset "byte list" "byte list"
  | EventMisread astarte_result_t

record device_topics =
  dt_base :: "byte list"
  dt_capabilities :: "byte list"
  dt_control :: "byte list"
  dt_empty_cache :: "byte list"
  dt_consumer_prop :: "byte list"
  dt_producer_prop :: "byte list"

record ('v, 'i, 'e, 's) device_env =
  de_mqtt :: "'s mqtt_env"
  de_queue :: "('v, 'i) queue_env"
  de_events :: "('e, device_event) msgq_ops"
  de_config :: mqtt_config
  de_realm :: "byte list"
  de_clock :: "'s \<Rightarrow> (int \<times> int) option"

record ('v, 'i, 'e) device =
  dev_id :: "byte list"
  dev_session_present :: u8
  dev_introspection :: introspection_t
  dev_state :: connection_states
  dev_synchronized :: bool
  dev_subscription_failure :: bool
  dev_backoff :: backoff_context
  dev_reconnection :: nat
  dev_topics :: device_topics
  dev_queue :: "('v, 'i) transmission_queue"
  dev_connection_bit :: bool
  dev_destroy_bit :: bool
  dev_events :: 'e

definition dev_caching :: "('v, 'i, 'e) device \<Rightarrow> storage_data" where
  "dev_caching d = tq_storage (dev_queue d)"

definition set_caching :: "storage_data \<Rightarrow> ('v, 'i, 'e) device \<Rightarrow> ('v, 'i, 'e) device" where
  "set_caching caching d = d\<lparr>dev_queue := (dev_queue d)\<lparr>tq_storage := caching\<rparr>\<rparr>"

abbreviation de_kv :: "('v, 'i, 'e, 's) device_env \<Rightarrow> 's kv_env" where
  "de_kv D \<equiv> mq_kv (de_mqtt D)"

abbreviation de_heap :: "('v, 'i, 'e, 's) device_env \<Rightarrow> 's \<Rightarrow> nat \<Rightarrow> bool" where
  "de_heap D s \<equiv> k_heap (mq_kv (de_mqtt D)) s"

text \<open>\<open>k_msgq_put\<close> on the queue of the events.\<close>

definition put_event ::
    "('v, 'i, 'e, 's) device_env \<Rightarrow> device_event \<Rightarrow> ('v, 'i, 'e) device \<Rightarrow> bool \<times> ('v, 'i, 'e) device" where
  "put_event D event d = (case mq_put (de_events D) (dev_events d) event of
     Some q \<Rightarrow> (True, d\<lparr>dev_events := q\<rparr>) | None \<Rightarrow> (False, d))"

definition event_result :: "bool \<times> ('v, 'i, 'e) device \<Rightarrow> astarte_result_t \<times> ('v, 'i, 'e) device" where
  "event_result p = (if fst p then ASTARTE_RESULT_OK else ASTARTE_RESULT_INTERNAL_ERROR, snd p)"

definition insert_queue ::
    "('v, 'i, 'e, 's) device_env \<Rightarrow> queue_msg \<Rightarrow> ('v, 'i, 'e) device \<Rightarrow> 's
      \<Rightarrow> (astarte_result_t \<times> ('v, 'i, 'e) device \<times> 's) option" where
  "insert_queue D msg d s = do {
     (ares, q, s) \<leftarrow> astarte_transmission_queue_insert (de_kv D) (de_queue D) (de_clock D s) (dev_queue d) msg s;
     Some (ares, d\<lparr>dev_queue := q\<rparr>, s)
   }"

section \<open>Payloads\<close>

text \<open>The keys \<open>"v"\<close> and \<open>"t"\<close>.\<close>

definition V_KEY :: "byte list" where "V_KEY = [0x76]"
definition T_KEY :: "byte list" where "T_KEY = [0x74]"

definition append_timestamp ::
    "(nat \<Rightarrow> bool) \<Rightarrow> u64 option \<Rightarrow> astarte_bson_serializer_t \<Rightarrow> astarte_result_t \<times> astarte_bson_serializer_t" where
  "append_timestamp heap timestamp bson = (case timestamp of
     None \<Rightarrow> (ASTARTE_RESULT_OK, bson)
   | Some t \<Rightarrow> astarte_bson_serializer_append_datetime heap bson T_KEY t)"

definition serialize_individual_payload ::
    "(nat \<Rightarrow> bool) \<Rightarrow> astarte_data_t \<Rightarrow> u64 option \<Rightarrow> astarte_result_t \<times> astarte_bson_serializer_t" where
  "serialize_individual_payload heap d timestamp =
     and_then (astarte_bson_serializer_init heap zero_serializer) (\<lambda>bson.
     and_then (astarte_data_serialize heap bson V_KEY d) (\<lambda>bson.
     and_then (append_timestamp heap timestamp bson) (\<lambda>bson.
       astarte_bson_serializer_append_end_of_document heap bson)))"

definition serialize_aggregated_payload ::
    "(nat \<Rightarrow> bool) \<Rightarrow> astarte_object_entry_t list \<Rightarrow> u64 option \<Rightarrow> astarte_result_t \<times> astarte_bson_serializer_t" where
  "serialize_aggregated_payload heap entries timestamp =
     and_then (astarte_bson_serializer_init heap zero_serializer) (\<lambda>outer_bson.
       let inner = and_then (astarte_bson_serializer_init heap zero_serializer) (\<lambda>inner_bson.
           and_then (astarte_object_entries_serialize heap inner_bson entries) (\<lambda>inner_bson.
             astarte_bson_serializer_append_end_of_document heap inner_bson)) in
       if fst inner \<noteq> ASTARTE_RESULT_OK then (fst inner, outer_bson)
       else case astarte_bson_serializer_get_serialized (snd inner) of
         None \<Rightarrow> (ASTARTE_RESULT_BSON_SERIALIZER_ERROR, outer_bson)
       | Some (inner_data, inner_len) \<Rightarrow>
           if 2 ^ 31 \<le> inner_len then (ASTARTE_RESULT_BSON_SERIALIZER_ERROR, outer_bson)
           else and_then (astarte_bson_serializer_append_document heap outer_bson V_KEY inner_data) (\<lambda>outer_bson.
             and_then (append_timestamp heap timestamp outer_bson) (\<lambda>outer_bson.
               astarte_bson_serializer_append_end_of_document heap outer_bson)))"

text \<open>The bytes of a payload, with the checks the callers share.\<close>

definition serialized :: "astarte_result_t \<times> astarte_bson_serializer_t \<Rightarrow> astarte_result_t + byte list" where
  "serialized p = (case p of (ares, bson) \<Rightarrow>
     if ares \<noteq> ASTARTE_RESULT_OK then Inl ares
     else case astarte_bson_serializer_get_serialized bson of
       None \<Rightarrow> Inl ASTARTE_RESULT_BSON_SERIALIZER_ERROR
     | Some (bytes, len) \<Rightarrow> if 2 ^ 31 \<le> len then Inl ASTARTE_RESULT_BSON_SERIALIZER_ERROR else Inr (take len bytes))"

definition data_msg :: "byte list \<Rightarrow> byte list \<Rightarrow> byte list \<Rightarrow> int \<Rightarrow> astarte_mapping_retention_t \<Rightarrow> queue_msg" where
  "data_msg interface_name path bytes qos retention = zero_queue_msg\<lparr>qm_interface_name := Some interface_name,
     qm_path := Some path, qm_payload := Some bytes, qm_payload_len := of_nat (length bytes), qm_qos := of_int qos,
     qm_retention := retention\<rparr>"

section \<open>properties.c\<close>

text \<open>The states in which a property is sent.\<close>

definition sends_properties :: "connection_states \<Rightarrow> bool" where
  "sends_properties st \<longleftrightarrow> st = DEVICE_CONNECTED \<or> st = DEVICE_END_HANDSHAKE"

definition astarte_device_set_property ::
    "('v, 'i, 'e, 's) device_env \<Rightarrow> ('v, 'i, 'e) device \<Rightarrow> byte list \<Rightarrow> byte list \<Rightarrow> astarte_data_t \<Rightarrow> 's
      \<Rightarrow> (astarte_result_t \<times> ('v, 'i, 'e) device \<times> 's) option" where
  "astarte_device_set_property D d interface_name path v s =
     (case introspection_get (dev_introspection d) interface_name of
        None \<Rightarrow> Some (ASTARTE_RESULT_INTERFACE_NOT_FOUND, d, s)
      | Some interface \<Rightarrow>
          (case astarte_interface_get_mapping_from_path interface path of
             Inl ares \<Rightarrow> Some (ares, d, s)
           | Inr mapping \<Rightarrow>
               let ares = astarte_validation_set_property interface path v in
               if ares \<noteq> ASTARTE_RESULT_OK then Some (ares, d, s)
               else do {
                 (ares, caching, s) \<leftarrow>
                   astarte_storage_property_store (de_kv D) (dev_caching d) interface_name path (if_major interface) v s;
                 let d = set_caching caching d;
                 if \<not> sends_properties (dev_state d) then Some (ASTARTE_RESULT_OK, d, s)
                 else case serialized (serialize_individual_payload (de_heap D s) v None) of
                   Inl ares \<Rightarrow> Some (ares, d, s)
                 | Inr bytes \<Rightarrow>
                     insert_queue D (data_msg interface_name path bytes 2 ASTARTE_MAPPING_RETENTION_STORED) d s
               }))"

definition astarte_device_unset_property ::
    "('v, 'i, 'e, 's) device_env \<Rightarrow> ('v, 'i, 'e) device \<Rightarrow> byte list \<Rightarrow> byte list \<Rightarrow> 's
      \<Rightarrow> (astarte_result_t \<times> ('v, 'i, 'e) device \<times> 's) option" where
  "astarte_device_unset_property D d interface_name path s =
     (case introspection_get (dev_introspection d) interface_name of
        None \<Rightarrow> Some (ASTARTE_RESULT_INTERFACE_NOT_FOUND, d, s)
      | Some interface \<Rightarrow>
          let ares = astarte_validation_unset_property interface path in
          if ares \<noteq> ASTARTE_RESULT_OK then Some (ares, d, s)
          else do {
            (ares, caching, s) \<leftarrow> astarte_storage_property_delete (de_kv D) (dev_caching d) interface_name path s;
            let d = set_caching caching d;
            if \<not> sends_properties (dev_state d) then Some (ares, d, s)
            else insert_queue D (data_msg interface_name path [] 2 ASTARTE_MAPPING_RETENTION_STORED) d s
          })"

definition on_unset_property ::
    "('v, 'i, 'e, 's) device_env \<Rightarrow> ('v, 'i, 'e) device \<Rightarrow> byte list \<Rightarrow> byte list \<Rightarrow> 's
      \<Rightarrow> (astarte_result_t \<times> ('v, 'i, 'e) device \<times> 's) option" where
  "on_unset_property D d interface_name path s =
     (case introspection_get (dev_introspection d) interface_name of
        None \<Rightarrow> Some (ASTARTE_RESULT_INTERFACE_NOT_FOUND, d, s)
      | Some interface \<Rightarrow>
          let ares = astarte_validation_unset_property interface path in
          if ares \<noteq> ASTARTE_RESULT_OK then Some (ares, d, s)
          else do {
            (ares, caching, s) \<leftarrow> astarte_storage_property_delete (de_kv D) (dev_caching d) interface_name path s;
            (case event_result (put_event D (EventPropertyUnset interface_name path) (set_caching caching d)) of
               (ares, d) \<Rightarrow> Some (ares, d, s))
          })"

definition on_set_property ::
    "('v, 'i, 'e, 's) device_env \<Rightarrow> ('v, 'i, 'e) device \<Rightarrow> byte list \<Rightarrow> byte list \<Rightarrow> astarte_data_t \<Rightarrow> 's
      \<Rightarrow> (astarte_result_t \<times> ('v, 'i, 'e) device \<times> 's) option" where
  "on_set_property D d interface_name path v s =
     (case introspection_get (dev_introspection d) interface_name of
        None \<Rightarrow> Some (ASTARTE_RESULT_INTERFACE_NOT_FOUND, d, s)
      | Some interface \<Rightarrow>
          let ares = astarte_validation_set_property interface path v in
          if ares \<noteq> ASTARTE_RESULT_OK then Some (ares, d, s)
          else do {
            (ares, caching, s) \<leftarrow>
              astarte_storage_property_store (de_kv D) (dev_caching d) interface_name path (if_major interface) v s;
            (case event_result (put_event D (EventPropertySet interface_name path v) (set_caching caching d)) of
               (ares, d) \<Rightarrow> Some (ares, d, s))
          })"

text \<open>
  The element of the key \<open>"v"\<close> of a received document.  \<open>None\<close> of the inner option is a document the
  handlers refuse.
\<close>

definition received_element :: "byte list \<Rightarrow> astarte_bson_element_t option option" where
  "received_element bytes = do {
     valid \<leftarrow> astarte_bson_deserializer_check_validity bytes (Some 0) (length bytes);
     if \<not> valid then Some None
     else do {
       full_document \<leftarrow> astarte_bson_deserializer_init_doc bytes (Some 0);
       r \<leftarrow> astarte_bson_deserializer_element_lookup bytes full_document V_KEY;
       Some (case r of Inl ares \<Rightarrow> None | Inr v_elem \<Rightarrow> Some v_elem)
     }
   }"

text \<open>
  An individual value: its mapping, then its deserialization.  A value that \<open>handler\<close> does not take over
  is freed, which changes no result.
\<close>

definition received_individual ::
    "(nat \<Rightarrow> bool) \<Rightarrow> astarte_interface_t \<Rightarrow> byte list \<Rightarrow> byte list \<Rightarrow> astarte_bson_element_t
      \<Rightarrow> astarte_data_t option option" where
  "received_individual heap interface path bytes v_elem =
     (case astarte_interface_get_mapping_from_path interface path of
        Inl ares \<Rightarrow> Some None
      | Inr mapping \<Rightarrow> do {
          r \<leftarrow> astarte_data_deserialize heap bytes v_elem (mp_type (if_mappings interface ! mapping));
          Some (case r of Inl ares \<Rightarrow> None | Inr v \<Rightarrow> Some v)
        })"

definition astarte_device_properties_handle_incoming ::
    "('v, 'i, 'e, 's) device_env \<Rightarrow> ('v, 'i, 'e) device \<Rightarrow> astarte_interface_t \<Rightarrow> byte list \<Rightarrow> byte list \<Rightarrow> 's
      \<Rightarrow> (('v, 'i, 'e) device \<times> 's) option" where
  "astarte_device_properties_handle_incoming D d interface path bytes s =
     (if bytes = [] then map_option snd (on_unset_property D d (if_name interface) path s)
      else do {
        e \<leftarrow> received_element bytes;
        (case e of None \<Rightarrow> Some (d, s)
         | Some v_elem \<Rightarrow> do {
             r \<leftarrow> received_individual (de_heap D s) interface path bytes v_elem;
             (case r of None \<Rightarrow> Some (d, s)
              | Some v \<Rightarrow> map_option snd (on_set_property D d (if_name interface) path v s))
           })
      })"

section \<open>datastreams.c\<close>

text \<open>Data that may be lost is not sent while the device is not connected.\<close>

definition discarded_now :: "('v, 'i, 'e) device \<Rightarrow> astarte_mapping_t \<Rightarrow> bool" where
  "discarded_now d mapping \<longleftrightarrow> dev_state d \<noteq> DEVICE_CONNECTED \<and> mp_retention mapping = ASTARTE_MAPPING_RETENTION_DISCARD"

definition astarte_device_send_individual ::
    "('v, 'i, 'e, 's) device_env \<Rightarrow> ('v, 'i, 'e) device \<Rightarrow> byte list \<Rightarrow> byte list \<Rightarrow> astarte_data_t \<Rightarrow> u64 option \<Rightarrow> 's
      \<Rightarrow> (astarte_result_t \<times> ('v, 'i, 'e) device \<times> 's) option" where
  "astarte_device_send_individual D d interface_name path v timestamp s =
     (case introspection_get (dev_introspection d) interface_name of
        None \<Rightarrow> Some (ASTARTE_RESULT_INTERFACE_NOT_FOUND, d, s)
      | Some interface \<Rightarrow>
          (case astarte_interface_get_mapping_from_path interface path of
             Inl ares \<Rightarrow> Some (ares, d, s)
           | Inr i \<Rightarrow>
               let mapping = if_mappings interface ! i;
                   ares = astarte_validation_individual_datastream interface path v timestamp in
               if ares \<noteq> ASTARTE_RESULT_OK then Some (ares, d, s)
               else do {
                 r \<leftarrow> astarte_interface_get_qos interface path True;
                 (case r of Inl ares \<Rightarrow> Some (ares, d, s)
                  | Inr qos \<Rightarrow>
                      if discarded_now d mapping then Some (ASTARTE_RESULT_OK, d, s)
                      else case serialized (serialize_individual_payload (de_heap D s) v timestamp) of
                        Inl ares \<Rightarrow> Some (ares, d, s)
                      | Inr bytes \<Rightarrow> insert_queue D (data_msg interface_name path bytes qos (mp_retention mapping)) d s)
               }))"

text \<open>
  For an interface with individual aggregation the \<open>NULL\<close> that is passed for the path to
  \<open>astarte_interface_get_qos\<close> is read as a string: \<open>None\<close>.
\<close>

definition astarte_device_send_object ::
    "('v, 'i, 'e, 's) device_env \<Rightarrow> ('v, 'i, 'e) device \<Rightarrow> byte list \<Rightarrow> byte list \<Rightarrow> astarte_object_entry_t list \<Rightarrow> u64 option \<Rightarrow> 's
      \<Rightarrow> (astarte_result_t \<times> ('v, 'i, 'e) device \<times> 's) option" where
  "astarte_device_send_object D d interface_name path entries timestamp s =
     (case introspection_get (dev_introspection d) interface_name of
        None \<Rightarrow> Some (ASTARTE_RESULT_INTERFACE_NOT_FOUND, d, s)
      | Some interface \<Rightarrow>
          if length (if_mappings interface) \<noteq> length entries
          then Some (ASTARTE_RESULT_INCOMPLETE_AGGREGATION_OBJECT, d, s)
          else case entries of
            [] \<Rightarrow> None
          | entry # _ \<Rightarrow>
              (case astarte_interface_get_mapping_from_paths (de_heap D s) interface path (oe_path entry) of
                 Inl ares \<Rightarrow> Some (ares, d, s)
               | Inr i \<Rightarrow>
                   let mapping = if_mappings interface ! i;
                       ares = astarte_validation_aggregated_datastream (de_heap D s) interface path entries timestamp in
                   if ares \<noteq> ASTARTE_RESULT_OK then Some (ares, d, s)
                   else if discarded_now d mapping then Some (ASTARTE_RESULT_OK, d, s)
                   else do {
                     r \<leftarrow> (if if_aggregation interface = ASTARTE_INTERFACE_AGGREGATION_INDIVIDUAL then None
                       else astarte_interface_get_qos interface [] True);
                     (case r of Inl ares \<Rightarrow> Some (ares, d, s)
                      | Inr qos \<Rightarrow>
                          (case serialized (serialize_aggregated_payload (de_heap D s) entries timestamp) of
                             Inl ares \<Rightarrow> Some (ares, d, s)
                           | Inr bytes \<Rightarrow> insert_queue D (data_msg interface_name path bytes qos (mp_retention mapping)) d s))
                   }))"

text \<open>A missing explicit timestamp is accepted on reception.\<close>

definition accepted :: "astarte_result_t \<Rightarrow> bool" where
  "accepted ares \<longleftrightarrow> ares = ASTARTE_RESULT_MAPPING_EXPLICIT_TIMESTAMP_REQUIRED \<or> ares = ASTARTE_RESULT_OK"

definition on_datastream_individual ::
    "('v, 'i, 'e, 's) device_env \<Rightarrow> ('v, 'i, 'e) device \<Rightarrow> byte list \<Rightarrow> byte list \<Rightarrow> astarte_data_t
      \<Rightarrow> astarte_result_t \<times> ('v, 'i, 'e) device" where
  "on_datastream_individual D d interface_name path v =
     (case introspection_get (dev_introspection d) interface_name of
        None \<Rightarrow> (ASTARTE_RESULT_INTERFACE_NOT_FOUND, d)
      | Some interface \<Rightarrow>
          let ares = astarte_validation_individual_datastream interface path v None in
          if \<not> accepted ares then (ares, d)
          else event_result (put_event D (EventIndividual interface_name path v) d))"

definition on_datastream_aggregated ::
    "('v, 'i, 'e, 's) device_env \<Rightarrow> ('v, 'i, 'e) device \<Rightarrow> byte list \<Rightarrow> byte list \<Rightarrow> astarte_object_entry_t list \<Rightarrow> 's
      \<Rightarrow> astarte_result_t \<times> ('v, 'i, 'e) device" where
  "on_datastream_aggregated D d interface_name path entries s =
     (case introspection_get (dev_introspection d) interface_name of
        None \<Rightarrow> (ASTARTE_RESULT_INTERFACE_NOT_FOUND, d)
      | Some interface \<Rightarrow>
          let ares = astarte_validation_aggregated_datastream (de_heap D s) interface path entries None in
          if \<not> accepted ares then (ares, d)
          else event_result (put_event D (EventObject interface_name path entries) d))"

definition astarte_device_datastreams_handle_incoming ::
    "('v, 'i, 'e, 's) device_env \<Rightarrow> ('v, 'i, 'e) device \<Rightarrow> astarte_interface_t \<Rightarrow> byte list \<Rightarrow> byte list \<Rightarrow> 's
      \<Rightarrow> (('v, 'i, 'e) device \<times> 's) option" where
  "astarte_device_datastreams_handle_incoming D d interface path bytes s = do {
     e \<leftarrow> received_element bytes;
     (case e of None \<Rightarrow> Some (d, s)
      | Some v_elem \<Rightarrow>
          if if_aggregation interface = ASTARTE_INTERFACE_AGGREGATION_INDIVIDUAL then do {
            r \<leftarrow> received_individual (de_heap D s) interface path bytes v_elem;
            Some (case r of None \<Rightarrow> (d, s) | Some v \<Rightarrow> (snd (on_datastream_individual D d (if_name interface) path v), s))
          }
          else do {
            r \<leftarrow> astarte_object_entries_deserialize (de_heap D s) bytes v_elem interface path;
            Some (case r of Inl ares \<Rightarrow> (d, s)
              | Inr entries \<Rightarrow> (snd (on_datastream_aggregated D d (if_name interface) path entries s), s))
          })
   }"

section \<open>The rest of properties\_storage.c\<close>

text \<open>The data handed to the callback of the user.\<close>

definition astarte_device_get_property ::
    "('v, 'i, 'e, 's) device_env \<Rightarrow> ('v, 'i, 'e) device \<Rightarrow> byte list \<Rightarrow> byte list \<Rightarrow> 's
      \<Rightarrow> ((astarte_result_t + astarte_data_t) \<times> 's) option" where
  "astarte_device_get_property D d interface_name path s = do {
     (r, s) \<leftarrow> astarte_storage_property_load (de_kv D) (dev_caching d) interface_name path True True s;
     Some (case r of Inl ares \<Rightarrow> Inl ares
       | Inr (out_major, v) \<Rightarrow> Inr (the v), s)
   }"

definition send_device_owned_property ::
    "('v, 'i, 'e, 's) device_env \<Rightarrow> ('v, 'i, 'e) device \<Rightarrow> u32 \<Rightarrow> byte list \<Rightarrow> byte list \<Rightarrow> u32 \<Rightarrow> astarte_data_t \<Rightarrow> 's
      \<Rightarrow> (('v, 'i, 'e) device \<times> u32 \<times> 's) option" where
  "send_device_owned_property D d iter interface_name path major v s =
     (let delete = do {
            (ares, caching, iter, s) \<leftarrow> astarte_storage_property_iterator_delete (de_kv D) (dev_caching d) iter s;
            Some (set_caching caching d, iter, s) } in
      case introspection_get (dev_introspection d) interface_name of
        None \<Rightarrow> delete
      | Some interface \<Rightarrow>
          if if_major interface \<noteq> major then delete
          else if if_ownership interface = ASTARTE_INTERFACE_OWNERSHIP_DEVICE then do {
            (ares, d, s) \<leftarrow> astarte_device_set_property D d interface_name path v s;
            Some (d, iter, s)
          }
          else Some (d, iter, s))"

partial_function (option) send_owned_loop ::
    "('v, 'i, 'e, 's) device_env \<Rightarrow> ('v, 'i, 'e) device \<Rightarrow> u32 \<Rightarrow> 's
      \<Rightarrow> (astarte_result_t \<times> ('v, 'i, 'e) device \<times> 's) option" where
  "send_owned_loop D d iter s = do {
     (r, s) \<leftarrow> iterator_strings (de_kv D) iter s;
     case r of Inl ares \<Rightarrow> Some (ares, d, s)
     | Inr (interface_name, path) \<Rightarrow> do {
         (l, s) \<leftarrow> astarte_storage_property_load (de_kv D) (dev_caching d) interface_name path True True s;
         case l of Inl ares \<Rightarrow> Some (ares, d, s)
         | Inr (major, v) \<Rightarrow> do {
             (d, iter, s) \<leftarrow> send_device_owned_property D d iter interface_name path (the major) (the v) s;
             (r, s) \<leftarrow> astarte_storage_property_iterator_next (de_kv D) (dev_caching d) iter s;
             case r of
               Inl ares \<Rightarrow> Some (if ares = ASTARTE_RESULT_NOT_FOUND then ASTARTE_RESULT_OK else ares, d, s)
             | Inr iter \<Rightarrow> send_owned_loop D d iter s
           }
       }
   }"

declare send_owned_loop.simps [code]

definition astarte_device_properties_send_device_owned ::
    "('v, 'i, 'e, 's) device_env \<Rightarrow> ('v, 'i, 'e) device \<Rightarrow> 's
      \<Rightarrow> (astarte_result_t \<times> ('v, 'i, 'e) device \<times> 's) option" where
  "astarte_device_properties_send_device_owned D d s = do {
     (r, s) \<leftarrow> astarte_storage_property_iterator_new (de_kv D) (dev_caching d) s;
     case r of
       Inl ares \<Rightarrow> Some (if ares = ASTARTE_RESULT_NOT_FOUND then ASTARTE_RESULT_OK else ares, d, s)
     | Inr iter \<Rightarrow> send_owned_loop D d iter s
   }"

end
