(* ===== verification/Device_Session.thy ===== *)
theory Device_Session
  imports Device_Core
begin

text \<open>
  The session of a device with Astarte: the callbacks of the MQTT client (device/dispatcher.c) and the
  state machine of the handshake (device/session\_manager.c).

  The MQTT client is a part of the device; here it is an argument \<open>m\<close> next to the rest \<open>d\<close>.
\<close>

section \<open>dispatcher.c\<close>

definition MQTT_BASE_TOPIC_LEN :: "byte list \<Rightarrow> nat" where
  "MQTT_BASE_TOPIC_LEN realm = length realm + 1 + ASTARTE_DEVICE_ID_LEN"

definition astarte_device_dispatcher_on_connected :: "u8 \<Rightarrow> ('v, 'i, 'e) device \<Rightarrow> ('v, 'i, 'e) device" where
  "astarte_device_dispatcher_on_connected session_present_flag d =
     d\<lparr>dev_state := DEVICE_START_HANDSHAKE, dev_session_present := session_present_flag\<rparr>"

definition astarte_device_dispatcher_on_disconnected ::
    "('v, 'i, 'e, 's) device_env \<Rightarrow> ('v, 'i, 'e) device \<Rightarrow> ('v, 'i, 'e) device option" where
  "astarte_device_dispatcher_on_disconnected D d = do {
     let d = d\<lparr>dev_state := DEVICE_DISCONNECTED, dev_connection_bit := False\<rparr>;
     q \<leftarrow> astarte_transmission_queue_purge_discard (de_queue D) (dev_queue d);
     Some (snd (put_event D EventDisconnected (d\<lparr>dev_queue := q\<rparr>)))
   }"

definition astarte_device_dispatcher_on_subscribed :: "u8 \<Rightarrow> ('v, 'i, 'e) device \<Rightarrow> ('v, 'i, 'e) device" where
  "astarte_device_dispatcher_on_subscribed return_code d =
     (if return_code = 0 \<or> return_code = 1 \<or> return_code = 2 then d else d\<lparr>dev_subscription_failure := True\<rparr>)"

definition on_control_message ::
    "('v, 'i, 'e, 's) device_env \<Rightarrow> ('v, 'i, 'e) device \<Rightarrow> byte list \<Rightarrow> byte list \<Rightarrow> 's
      \<Rightarrow> (('v, 'i, 'e) device \<times> 's) option" where
  "on_control_message D d topic bytes s =
     (if c_string topic = dt_consumer_prop (dev_topics d) then do {
        (caching, s) \<leftarrow>
          astarte_device_properties_handle_purge (de_kv D) (dev_introspection d) (dev_caching d) bytes s;
        Some (set_caching caching d, s)
      }
      else Some (d, s))"

text \<open>
  \<open>topic\<close> is the text of the packet, which a zero follows in memory.  Of \<open>strstr(topic, base) != topic\<close>
  the position is what counts.
\<close>

definition astarte_device_dispatcher_on_incoming ::
    "('v, 'i, 'e, 's) device_env \<Rightarrow> ('v, 'i, 'e) device \<Rightarrow> byte list \<Rightarrow> byte list \<Rightarrow> 's
      \<Rightarrow> (('v, 'i, 'e) device \<times> 's) option" where
  "astarte_device_dispatcher_on_incoming D d topic bytes s =
     (let n = MQTT_BASE_TOPIC_LEN (de_realm D) in
      if strstr (c_string topic) (dt_base (dev_topics d)) \<noteq> Some 0 then Some (d, s)
      else if strstr (c_string topic) (dt_control (dev_topics d)) \<noteq> None
      then on_control_message D d topic bytes s
      else if length topic < n + 1 \<or> topic ! n \<noteq> slash then Some (d, s)
      else
        let interface_name_start = c_string (drop (n + 1) topic) in
        if slash \<notin> set interface_name_start then Some (d, s)
        else
          let interface_name = takeWhile (\<lambda>c. c \<noteq> slash) interface_name_start;
              path_start = dropWhile (\<lambda>c. c \<noteq> slash) interface_name_start in
          if ASTARTE_INTERFACE_NAME_MAX_SIZE \<le> length interface_name then Some (d, s)
          else case introspection_get (dev_introspection d) interface_name of
            None \<Rightarrow> Some (d, s)
          | Some interface \<Rightarrow>
              if if_type interface = ASTARTE_INTERFACE_TYPE_PROPERTIES
              then astarte_device_properties_handle_incoming D d interface path_start bytes s
              else astarte_device_datastreams_handle_incoming D d interface path_start bytes s)"

text \<open>\<open>snprintf\<close> of a topic \<open>"REALM/%s/%s%s"\<close>: \<open>None\<close> when the length is not the one computed before.\<close>

definition data_topic :: "byte list \<Rightarrow> byte list \<Rightarrow> byte list \<Rightarrow> byte list \<Rightarrow> byte list option" where
  "data_topic realm device_id interface_name path =
     (let topic = realm @ [slash] @ c_string device_id @ [slash] @ c_string interface_name @ c_string path in
      if length topic = length realm + 2 + ASTARTE_DEVICE_ID_LEN + strlen interface_name + strlen path
      then Some topic else None)"

definition astarte_device_dispatcher_publish_data ::
    "('v, 'i, 'e, 's) device_env \<Rightarrow> astarte_mqtt \<Rightarrow> ('v, 'i, 'e) device \<Rightarrow> byte list \<Rightarrow> byte list \<Rightarrow> byte list option \<Rightarrow> u32
      \<Rightarrow> u32 \<Rightarrow> 's \<Rightarrow> (astarte_result_t \<times> astarte_mqtt \<times> 's) option" where
  "astarte_device_dispatcher_publish_data D m d interface_name path bytes data_size qos s =
     (if strlen path = 0 \<or> path ! 0 \<noteq> slash then Some (ASTARTE_RESULT_INVALID_PARAM, m, s)
      else if sint qos < 0 \<or> sint qos > 2 then Some (ASTARTE_RESULT_INVALID_PARAM, m, s)
      else if \<not> astarte_calloc (de_heap D s)
          (length (de_realm D) + 2 + ASTARTE_DEVICE_ID_LEN + strlen interface_name + strlen path + 1) 1
      then Some (ASTARTE_RESULT_OUT_OF_MEMORY, m, s)
      else case data_topic (de_realm D) (dev_id d) interface_name path of
        None \<Rightarrow> Some (ASTARTE_RESULT_INTERNAL_ERROR, m, s)
      | Some topic \<Rightarrow> do {
          (m, s) \<leftarrow> astarte_mqtt_publish (de_mqtt D) m topic bytes data_size qos s;
          Some (ASTARTE_RESULT_OK, m, s)
        })"

text \<open>The callbacks the device installs; there is none for a delivered message.\<close>

definition device_cb :: "('v, 'i, 'e, 's) device_env \<Rightarrow> (('v, 'i, 'e) device, 's) mqtt_cb" where
  "device_cb D notice d s = (case notice of
     OnConnected session_present_flag \<Rightarrow> Some (astarte_device_dispatcher_on_connected session_present_flag d, s)
   | OnDisconnected \<Rightarrow> map_option (\<lambda>d. (d, s)) (astarte_device_dispatcher_on_disconnected D d)
   | OnIncoming topic bytes \<Rightarrow> astarte_device_dispatcher_on_incoming D d topic bytes s
   | OnSubscribed message_id return_code \<Rightarrow> Some (astarte_device_dispatcher_on_subscribed return_code d, s)
   | OnDelivered message_id \<Rightarrow> Some (d, s))"

section \<open>session\_manager.c\<close>

definition astarte_device_connect ::
    "('v, 'i, 'e, 's) device_env \<Rightarrow> connect_world \<Rightarrow> astarte_mqtt \<Rightarrow> ('v, 'i, 'e) device \<Rightarrow> 's
      \<Rightarrow> astarte_result_t \<times> astarte_mqtt \<times> ('v, 'i, 'e) device" where
  "astarte_device_connect D W m d s =
     (case dev_state d of
        DEVICE_MQTT_CONNECTING \<Rightarrow> (ASTARTE_RESULT_MQTT_CLIENT_ALREADY_CONNECTING, m, d)
      | DEVICE_START_HANDSHAKE \<Rightarrow> (ASTARTE_RESULT_MQTT_CLIENT_ALREADY_CONNECTING, m, d)
      | DEVICE_END_HANDSHAKE \<Rightarrow> (ASTARTE_RESULT_MQTT_CLIENT_ALREADY_CONNECTING, m, d)
      | DEVICE_CONNECTED \<Rightarrow> (ASTARTE_RESULT_MQTT_CLIENT_ALREADY_CONNECTED, m, d)
      | _ \<Rightarrow> (case astarte_mqtt_connect (de_mqtt D) (de_config D) W m s of (ares, m) \<Rightarrow>
          (ares, m, if ares = ASTARTE_RESULT_OK then d\<lparr>dev_state := DEVICE_MQTT_CONNECTING\<rparr> else d)))"

definition astarte_device_force_disconnect ::
    "('v, 'i, 'e, 's) device_env \<Rightarrow> int \<times> mqtt_evt list \<Rightarrow> astarte_mqtt \<Rightarrow> ('v, 'i, 'e) device \<Rightarrow> 's
      \<Rightarrow> (astarte_result_t \<times> astarte_mqtt \<times> ('v, 'i, 'e) device \<times> 's) option" where
  "astarte_device_force_disconnect D W m d s =
     (if dev_state d = DEVICE_DISCONNECTED then Some (ASTARTE_RESULT_DEVICE_NOT_READY, m, d, s)
      else astarte_mqtt_disconnect (de_mqtt D) (de_config D) (device_cb D) W m d s)"

text \<open>
  The loop that waits for the outgoing messages.  While it sleeps, the worker thread runs: \<open>waits\<close> tells
  for every turn whether the time is over and what the worker thread leaves behind.
\<close>

primrec wait_outgoing ::
    "(bool \<times> astarte_mqtt \<times> ('v, 'i, 'e) device \<times> 's) list \<Rightarrow> astarte_mqtt \<Rightarrow> ('v, 'i, 'e) device \<Rightarrow> 's
      \<Rightarrow> (bool \<times> astarte_mqtt \<times> ('v, 'i, 'e) device \<times> 's) option" where
  "wait_outgoing [] m d s = (if astarte_mqtt_has_pending_outgoing m then None else Some (True, m, d, s))"
| "wait_outgoing (w # ws) m d s =
     (if \<not> astarte_mqtt_has_pending_outgoing m then Some (True, m, d, s)
      else if fst w then Some (False, m, d, s)
      else wait_outgoing ws (fst (snd w)) (fst (snd (snd w))) (snd (snd (snd w))))"

definition astarte_device_disconnect ::
    "('v, 'i, 'e, 's) device_env \<Rightarrow> (bool \<times> astarte_mqtt \<times> ('v, 'i, 'e) device \<times> 's) list \<Rightarrow> int \<times> mqtt_evt list
      \<Rightarrow> astarte_mqtt \<Rightarrow> ('v, 'i, 'e) device \<Rightarrow> 's
      \<Rightarrow> (astarte_result_t \<times> astarte_mqtt \<times> ('v, 'i, 'e) device \<times> 's) option" where
  "astarte_device_disconnect D waits W m d s =
     (if dev_state d = DEVICE_DISCONNECTED then Some (ASTARTE_RESULT_DEVICE_NOT_READY, m, d, s)
      else do {
        (done_waiting, m, d, s) \<leftarrow> wait_outgoing waits m d s;
        if \<not> done_waiting then Some (ASTARTE_RESULT_TIMEOUT, m, d, s)
        else astarte_mqtt_disconnect (de_mqtt D) (de_config D) (device_cb D) W m d s
      })"

text \<open>Publications of the handshake: quality of service 2.\<close>

definition publish_2 ::
    "('v, 'i, 'e, 's) device_env \<Rightarrow> byte list \<Rightarrow> byte list \<Rightarrow> astarte_mqtt \<Rightarrow> 's \<Rightarrow> (astarte_mqtt \<times> 's) option" where
  "publish_2 D topic bytes m s = astarte_mqtt_publish (de_mqtt D) m topic (Some bytes) (of_nat (length bytes)) 2 s"

fun subscribe_loop ::
    "('v, 'i, 'e, 's) device_env \<Rightarrow> byte list \<Rightarrow> introspection_t \<Rightarrow> astarte_mqtt \<Rightarrow> 's
      \<Rightarrow> (astarte_result_t \<times> astarte_mqtt \<times> 's) option" where
  "subscribe_loop D device_id [] m s = Some (ASTARTE_RESULT_OK, m, s)"
| "subscribe_loop D device_id (interface # iterator) m s =
     (if if_ownership interface \<noteq> ASTARTE_INTERFACE_OWNERSHIP_SERVER then subscribe_loop D device_id iterator m s
      else if \<not> astarte_calloc (de_heap D s)
          (length (de_realm D) + 4 + ASTARTE_DEVICE_ID_LEN + strlen (if_name interface) + 1) 1
      then Some (ASTARTE_RESULT_OUT_OF_MEMORY, m, s)
      else case data_topic (de_realm D) device_id (if_name interface) [slash, 0x23] of
        None \<Rightarrow> Some (ASTARTE_RESULT_INTERNAL_ERROR, m, s)
      | Some topic \<Rightarrow> do {
          (m, s) \<leftarrow> astarte_mqtt_subscribe (de_mqtt D) m topic 2 s;
          subscribe_loop D device_id iterator m s
        })"

definition setup_subscriptions ::
    "('v, 'i, 'e, 's) device_env \<Rightarrow> astarte_mqtt \<Rightarrow> ('v, 'i, 'e) device \<Rightarrow> 's
      \<Rightarrow> (astarte_result_t \<times> astarte_mqtt \<times> 's) option" where
  "setup_subscriptions D m d s = do {
     (m, s) \<leftarrow> astarte_mqtt_subscribe (de_mqtt D) m (dt_consumer_prop (dev_topics d)) 2 s;
     subscribe_loop D (dev_id d) (dev_introspection d) m s
   }"

definition send_introspection ::
    "('v, 'i, 'e, 's) device_env \<Rightarrow> byte list \<Rightarrow> astarte_mqtt \<Rightarrow> ('v, 'i, 'e) device \<Rightarrow> 's \<Rightarrow> (astarte_mqtt \<times> 's) option" where
  "send_introspection D intr_str m d s = publish_2 D (dt_base (dev_topics d)) (c_string intr_str) m s"

definition send_device_capabilities ::
    "('v, 'i, 'e, 's) device_env \<Rightarrow> astarte_mqtt \<Rightarrow> ('v, 'i, 'e) device \<Rightarrow> 's \<Rightarrow> (astarte_mqtt \<times> 's) option" where
  "send_device_capabilities D m d s =
     (let bson = and_then (astarte_bson_serializer_init (de_heap D s) zero_serializer) (\<lambda>bson.
          and_then (astarte_bson_serializer_append_string (de_heap D s) bson
              (chars ''purge_properties_compression_format'') (chars ''plaintext'')) (\<lambda>bson.
            astarte_bson_serializer_append_end_of_document (de_heap D s) bson)) in
      if fst bson \<noteq> ASTARTE_RESULT_OK then Some (m, s)
      else case astarte_bson_serializer_get_serialized (snd bson) of
        None \<Rightarrow> Some (m, s)
      | Some (document, document_size) \<Rightarrow> publish_2 D (dt_capabilities (dev_topics d)) (take document_size document) m s)"

definition send_emptycache ::
    "('v, 'i, 'e, 's) device_env \<Rightarrow> astarte_mqtt \<Rightarrow> ('v, 'i, 'e) device \<Rightarrow> 's \<Rightarrow> (astarte_mqtt \<times> 's) option" where
  "send_emptycache D m d s = publish_2 D (dt_empty_cache (dev_topics d)) (chars ''1'') m s"

text \<open>The message of the properties: the function of the storage, then its publication.\<close>

definition send_purge ::
    "('v, 'i, 'e, 's) device_env \<Rightarrow> astarte_mqtt \<Rightarrow> ('v, 'i, 'e) device \<Rightarrow> 's
      \<Rightarrow> (astarte_result_t \<times> astarte_mqtt \<times> ('v, 'i, 'e) device \<times> 's) option" where
  "send_purge D m d s = do {
     (r, caching, s) \<leftarrow> astarte_device_properties_send_purge (de_kv D) (dev_caching d) (dev_introspection d) s;
     let d = set_caching caching d;
     case r of Inl ares \<Rightarrow> Some (ares, m, d, s)
     | Inr payload \<Rightarrow> do {
         (m, s) \<leftarrow> publish_2 D (dt_producer_prop (dev_topics d)) payload m s;
         Some (ASTARTE_RESULT_OK, m, d, s)
       }
   }"

text \<open>The introspection as a string, in a buffer of zeros.\<close>

definition introspection_text :: "introspection_t \<Rightarrow> byte list option" where
  "introspection_text introspection =
     (let n = introspection_get_string_size introspection in introspection_fill_string introspection (replicate n 0) n)"

definition handshake_error :: "('v, 'i, 'e) device \<Rightarrow> ('v, 'i, 'e) device" where
  "handshake_error d = d\<lparr>dev_state := DEVICE_HANDSHAKE_ERROR\<rparr>"

text \<open>The part of the handshake that is skipped when the server still knows the session.\<close>

definition full_handshake ::
    "('v, 'i, 'e, 's) device_env \<Rightarrow> byte list \<Rightarrow> astarte_mqtt \<Rightarrow> ('v, 'i, 'e) device \<Rightarrow> 's
      \<Rightarrow> (astarte_mqtt \<times> ('v, 'i, 'e) device \<times> 's) option" where
  "full_handshake D intr_str m d s = do {
     (ares, m, s) \<leftarrow> setup_subscriptions D m d s;
     if ares \<noteq> ASTARTE_RESULT_OK then Some (m, handshake_error d, s)
     else do {
       (m, s) \<leftarrow> send_introspection D intr_str m d s;
       (m, s) \<leftarrow> send_device_capabilities D m d s;
       (m, s) \<leftarrow> send_emptycache D m d s;
       (ares, m, d, s) \<leftarrow> send_purge D m d s;
       if ares \<noteq> ASTARTE_RESULT_OK then Some (m, handshake_error d, s)
       else do {
         (ares, d, s) \<leftarrow> astarte_device_properties_send_device_owned D d s;
         Some (m, if ares \<noteq> ASTARTE_RESULT_OK then handshake_error d else d\<lparr>dev_state := DEVICE_END_HANDSHAKE\<rparr>, s)
       }
     }
   }"

definition state_machine_start_handshake_run ::
    "('v, 'i, 'e, 's) device_env \<Rightarrow> astarte_mqtt \<Rightarrow> ('v, 'i, 'e) device \<Rightarrow> 's
      \<Rightarrow> (astarte_mqtt \<times> ('v, 'i, 'e) device \<times> 's) option" where
  "state_machine_start_handshake_run D m d s =
     (let d = d\<lparr>dev_subscription_failure := False\<rparr>;
          intr_str_size = introspection_get_string_size (dev_introspection d) in
      if intr_str_size = 0 then Some (m, handshake_error d, s)
      else if \<not> astarte_calloc (de_heap D s) intr_str_size 1 then Some (m, handshake_error d, s)
      else do {
        intr_str \<leftarrow> introspection_text (dev_introspection d);
        if dev_session_present d \<noteq> 0 \<and> dev_synchronized d then do {
          (ares, s) \<leftarrow> astarte_storage_introspection_check (de_kv D) (dev_caching d) intr_str s;
          if ares = ASTARTE_RESULT_OK then Some (m, d\<lparr>dev_state := DEVICE_END_HANDSHAKE\<rparr>, s)
          else full_handshake D intr_str m d s
        }
        else full_handshake D intr_str m d s
      })"

definition state_machine_end_handshake_run ::
    "('v, 'i, 'e, 's) device_env \<Rightarrow> astarte_mqtt \<Rightarrow> ('v, 'i, 'e) device \<Rightarrow> 's
      \<Rightarrow> (astarte_mqtt \<times> ('v, 'i, 'e) device \<times> 's) option" where
  "state_machine_end_handshake_run D m d s =
     (if dev_subscription_failure d then Some (m, handshake_error d, s)
      else if astarte_mqtt_has_pending_outgoing m then Some (m, d, s)
      else do {
        let d = d\<lparr>dev_synchronized := True, dev_state := DEVICE_CONNECTED, dev_connection_bit := True\<rparr>;
        (ares, caching, s) \<leftarrow> astarte_storage_synchronization_set (de_kv D) (dev_caching d) True s;
        let d = set_caching caching d;
        if \<not> astarte_calloc (de_heap D s) (introspection_get_string_size (dev_introspection d)) 1
        then Some (m, handshake_error d, s)
        else do {
          intr_str \<leftarrow> introspection_text (dev_introspection d);
          (ares, s) \<leftarrow> astarte_storage_introspection_check (de_kv D) (dev_caching d) intr_str s;
          (ares, caching, s) \<leftarrow>
            (if ares = ASTARTE_RESULT_DEVICE_CACHING_OUTDATED_INTROSPECTION
             then astarte_storage_introspection_store (de_kv D) (dev_caching d) intr_str s
             else Some (ares, dev_caching d, s));
          Some (m, snd (put_event D EventConnected (set_caching caching d)), s)
        }
      })"

text \<open>\<open>random\<close> is the answer of the generator the backoff asks.\<close>

definition state_machine_handshake_error_run ::
    "('v, 'i, 'e, 's) device_env \<Rightarrow> u32 \<Rightarrow> ('v, 'i, 'e) device \<Rightarrow> 's \<Rightarrow> (('v, 'i, 'e) device \<times> 's) option" where
  "state_machine_handshake_error_run D random d s = do {
     (d, s) \<leftarrow>
       (if dev_synchronized d then do {
          (ares, caching, s) \<leftarrow> astarte_storage_synchronization_set (de_kv D) (dev_caching d) False s;
          Some ((set_caching caching d)\<lparr>dev_synchronized := False\<rparr>, s)
        }
        else Some (d, s));
     Some (if dev_reconnection d \<le> mq_now (de_mqtt D) s then
         (case backoff_get_next_delay (dev_backoff d) random of (next_backoff_ms, b) \<Rightarrow>
            d\<lparr>dev_state := DEVICE_START_HANDSHAKE, dev_backoff := b,
              dev_reconnection := mq_now (de_mqtt D) s + unat next_backoff_ms\<rparr>)
       else d, s)
   }"

definition state_machine_connected_run ::
    "('v, 'i, 'e, 's) device_env \<Rightarrow> ('v, 'i, 'e) device \<Rightarrow> ('v, 'i, 'e) device" where
  "state_machine_connected_run D d = d\<lparr>dev_backoff := reset_backoff (de_config D) (dev_backoff d)\<rparr>"

definition state_machine_run ::
    "('v, 'i, 'e, 's) device_env \<Rightarrow> u32 \<Rightarrow> astarte_mqtt \<Rightarrow> ('v, 'i, 'e) device \<Rightarrow> 's
      \<Rightarrow> (astarte_mqtt \<times> ('v, 'i, 'e) device \<times> 's) option" where
  "state_machine_run D random m d s = (case dev_state d of
     DEVICE_DISCONNECTED \<Rightarrow> Some (m, d, s)
   | DEVICE_MQTT_CONNECTING \<Rightarrow> Some (m, d, s)
   | DEVICE_START_HANDSHAKE \<Rightarrow> state_machine_start_handshake_run D m d s
   | DEVICE_END_HANDSHAKE \<Rightarrow> state_machine_end_handshake_run D m d s
   | DEVICE_HANDSHAKE_ERROR \<Rightarrow> map_option (Pair m) (state_machine_handshake_error_run D random d s)
   | DEVICE_CONNECTED \<Rightarrow> Some (m, state_machine_connected_run D d, s))"

definition astarte_device_internal_poll ::
    "('v, 'i, 'e, 's) device_env \<Rightarrow> u32 \<Rightarrow> poll_world \<Rightarrow> astarte_mqtt \<Rightarrow> ('v, 'i, 'e) device \<Rightarrow> 's
      \<Rightarrow> (astarte_result_t \<times> astarte_mqtt \<times> ('v, 'i, 'e) device \<times> 's) option" where
  "astarte_device_internal_poll D random W m d s = do {
     (m, d, s) \<leftarrow> state_machine_run D random m d s;
     astarte_mqtt_poll (de_mqtt D) (de_config D) (device_cb D) W m d s
   }"

end
