(* ===== verification/Device_Worker.thy ===== *)
theory Device_Worker
  imports Device_Session
begin

text \<open>
  The life of a device (device/core.c): its creation and destruction, the operations that only queue
  something or take something from a queue, and the worker thread, which polls the session and sends
  the queued data at a limited rate.

  What happens between two steps of the worker thread is an argument, as is the time.  A sleep is the
  number of milliseconds the function asks for.
\<close>

section \<open>Creation\<close>

text \<open>The strings of the configuration, and the array of interfaces or \<open>NULL\<close>.\<close>

record device_config =
  dc_device_id :: "byte list"
  dc_cred_secr :: "byte list"
  dc_interfaces :: "astarte_interface_t option list option"

fun add_interfaces ::
    "(nat \<Rightarrow> bool) \<Rightarrow> introspection_t \<Rightarrow> astarte_interface_t option list \<Rightarrow> astarte_result_t + introspection_t" where
  "add_interfaces heap introspection [] = Inr introspection"
| "add_interfaces heap introspection (interface # interfaces) =
     (case introspection_add heap introspection interface of (ares, introspection) \<Rightarrow>
        if ares \<noteq> ASTARTE_RESULT_OK then Inl ares else add_interfaces heap introspection interfaces)"

definition initialize_introspection ::
    "(nat \<Rightarrow> bool) \<Rightarrow> astarte_interface_t option list option \<Rightarrow> astarte_result_t + introspection_t" where
  "initialize_introspection heap interfaces =
     (case introspection_init heap True of
        Inl ares \<Rightarrow> Inl ares
      | Inr introspection \<Rightarrow>
          (case interfaces of None \<Rightarrow> Inr introspection
           | Some interfaces \<Rightarrow> add_interfaces heap introspection interfaces))"

text \<open>\<open>snprintf\<close> of one topic, with the check of its length.\<close>

definition device_topic :: "byte list \<Rightarrow> byte list \<Rightarrow> byte list \<Rightarrow> byte list option" where
  "device_topic realm device_id suffix =
     (let topic = realm @ [slash] @ c_string device_id @ suffix in
      if length topic \<noteq> MQTT_BASE_TOPIC_LEN realm + length suffix then None else Some topic)"

definition control_suffix :: "byte list" where "control_suffix = chars ''/control''"

definition initialize_mqtt_topics :: "byte list \<Rightarrow> byte list \<Rightarrow> astarte_result_t + device_topics" where
  "initialize_mqtt_topics realm device_id =
     (case device_topic realm device_id [] of None \<Rightarrow> Inl ASTARTE_RESULT_INTERNAL_ERROR | Some base_topic \<Rightarrow>
      case device_topic realm device_id (chars ''/capabilities'') of
        None \<Rightarrow> Inl ASTARTE_RESULT_INTERNAL_ERROR | Some capabilities_topic \<Rightarrow>
      case device_topic realm device_id control_suffix of
        None \<Rightarrow> Inl ASTARTE_RESULT_INTERNAL_ERROR | Some control_topic \<Rightarrow>
      case device_topic realm device_id (control_suffix @ chars ''/emptyCache'') of
        None \<Rightarrow> Inl ASTARTE_RESULT_INTERNAL_ERROR | Some control_empty_cache_topic \<Rightarrow>
      case device_topic realm device_id (control_suffix @ chars ''/consumer/properties'') of
        None \<Rightarrow> Inl ASTARTE_RESULT_INTERNAL_ERROR | Some control_consumer_prop_topic \<Rightarrow>
      case device_topic realm device_id (control_suffix @ chars ''/producer/properties'') of
        None \<Rightarrow> Inl ASTARTE_RESULT_INTERNAL_ERROR | Some control_producer_prop_topic \<Rightarrow>
        Inr \<lparr>dt_base = base_topic, dt_capabilities = capabilities_topic, dt_control = control_topic,
          dt_empty_cache = control_empty_cache_topic, dt_consumer_prop = control_consumer_prop_topic,
          dt_producer_prop = control_producer_prop_topic\<rparr>)"

text \<open>The synchronization flag of the storage; the storage without one leaves the flag \<open>False\<close>.\<close>

definition stored_synchronization ::
    "'s kv_env \<Rightarrow> storage_data \<Rightarrow> 's \<Rightarrow> ((astarte_result_t + bool) \<times> 's) option" where
  "stored_synchronization Z caching s = do {
     (r, s) \<leftarrow> astarte_storage_synchronization_get Z caching s;
     Some (case r of Inl ares \<Rightarrow> if ares = ASTARTE_RESULT_NOT_FOUND then Inr False else Inl ares | Inr sync \<Rightarrow> Inr sync, s)
   }"

text \<open>
  A failure gives back what was opened, which has no effect that lasts: the queue has no storage before
  its initialisation is complete.  \<open>device_initialized\<close> is the static flag of the one instance.
\<close>

definition astarte_device_new ::
    "('v, 'i, 'e, 's) device_env \<Rightarrow> pairing_env \<Rightarrow> 's platform \<Rightarrow> u16 \<Rightarrow> device_config \<Rightarrow> bool \<Rightarrow> 's \<Rightarrow> int set
      \<Rightarrow> ((astarte_result_t + astarte_mqtt \<times> ('v, 'i, 'e) device) \<times> 's \<times> int set) option" where
  "astarte_device_new D P F last_message_id cfg device_initialized s sockets =
     (if device_initialized then Some (Inl ASTARTE_RESULT_INVALID_PARAM, s, sockets)
      else do {
        (ares, caching, s) \<leftarrow> astarte_storage_init (de_kv D) F s;
        if ares \<noteq> ASTARTE_RESULT_OK then Some (Inl ares, s, sockets)
        else do {
          (sync, s) \<leftarrow> stored_synchronization (de_kv D) caching s;
          case sync of Inl ares \<Rightarrow> Some (Inl ares, s, sockets)
          | Inr synchronization_completed \<Rightarrow>
          case initialize_introspection (de_heap D s) (dc_interfaces cfg) of
            Inl ares \<Rightarrow> Some (Inl ares, s, sockets)
          | Inr introspection \<Rightarrow>
          case initialize_mqtt_topics (de_realm D) (dc_device_id cfg) of
            Inl ares \<Rightarrow> Some (Inl ares, s, sockets)
          | Inr topics \<Rightarrow> do {
              (broker, sockets) \<leftarrow>
                astarte_pairing_get_mqtt_broker_hostname_and_port P (dc_device_id cfg) (dc_cred_secr cfg) sockets;
              case broker of Inl ares \<Rightarrow> Some (Inl ares, s, sockets)
              | Inr broker \<Rightarrow>
              if length (de_realm D @ [slash] @ c_string (dc_device_id cfg)) \<noteq> MQTT_BASE_TOPIC_LEN (de_realm D)
              then Some (Inl ASTARTE_RESULT_INTERNAL_ERROR, s, sockets)
              else do {
                m \<leftarrow> astarte_mqtt_init (de_mqtt D) (de_config D) last_message_id s;
                (q, s) \<leftarrow> astarte_transmission_queue_init (de_kv D) (de_queue D) (de_clock D s) caching s;
                case q of Inl ares \<Rightarrow> Some (Inl ares, s, sockets)
                | Inr transmission_queue \<Rightarrow>
                Some (Inr (m, \<lparr>dev_id = c_string (dc_device_id cfg), dev_session_present = 0,
                  dev_introspection = introspection, dev_state = DEVICE_DISCONNECTED,
                  dev_synchronized = synchronization_completed, dev_subscription_failure = False,
                  dev_backoff = reset_backoff (de_config D) zero_backoff, dev_reconnection = no_wait,
                  dev_topics = topics, dev_queue = transmission_queue, dev_connection_bit = False,
                  dev_destroy_bit = False, dev_events = mq_init (de_events D)\<rparr>), s, sockets)
              }
            }
        }
      })"

section \<open>Operations of the user\<close>

definition interface_op_msg :: "transmission_operation \<Rightarrow> astarte_interface_t \<Rightarrow> queue_msg" where
  "interface_op_msg operation interface = zero_queue_msg\<lparr>qm_operation := operation, qm_interface := Some interface\<rparr>"

definition astarte_device_add_interface ::
    "('v, 'i, 'e, 's) device_env \<Rightarrow> ('v, 'i, 'e) device \<Rightarrow> astarte_interface_t option \<Rightarrow> 's
      \<Rightarrow> (astarte_result_t \<times> ('v, 'i, 'e) device \<times> 's) option" where
  "astarte_device_add_interface D d interface s =
     (case interface of None \<Rightarrow> Some (ASTARTE_RESULT_INVALID_PARAM, d, s)
      | Some interface \<Rightarrow> insert_queue D (interface_op_msg ASTARTE_TRANSMISSION_OP_ADD_INTERFACE interface) d s)"

definition astarte_device_remove_interface ::
    "('v, 'i, 'e, 's) device_env \<Rightarrow> ('v, 'i, 'e) device \<Rightarrow> astarte_interface_t option \<Rightarrow> 's
      \<Rightarrow> (astarte_result_t \<times> ('v, 'i, 'e) device \<times> 's) option" where
  "astarte_device_remove_interface D d interface s =
     (case interface of None \<Rightarrow> Some (ASTARTE_RESULT_INVALID_PARAM, d, s)
      | Some interface \<Rightarrow> insert_queue D (interface_op_msg ASTARTE_TRANSMISSION_OP_REMOVE_INTERFACE interface) d s)"

text \<open>The first event; with none, the time is waited for and over.\<close>

definition astarte_device_get_event ::
    "('v, 'i, 'e, 's) device_env \<Rightarrow> ('v, 'i, 'e) device \<Rightarrow> (astarte_result_t + device_event) \<times> ('v, 'i, 'e) device" where
  "astarte_device_get_event D d = (case mq_get (de_events D) (dev_events d) of
     Some (event, q) \<Rightarrow> (Inr event, d\<lparr>dev_events := q\<rparr>)
   | None \<Rightarrow> (Inl ASTARTE_RESULT_TIMEOUT, d))"

text \<open>
  The end of a device.  The worker thread runs until it ends: \<open>finish\<close> tells what it leaves behind.  The
  flag of the result is \<open>device_initialized\<close>.
\<close>

definition astarte_device_destroy ::
    "('v, 'i, 'e, 's) device_env \<Rightarrow> int \<times> mqtt_evt list \<Rightarrow> int \<times> int
      \<Rightarrow> (astarte_mqtt \<Rightarrow> ('v, 'i, 'e) device \<Rightarrow> 's \<Rightarrow> astarte_mqtt \<times> ('v, 'i, 'e) device \<times> 's)
      \<Rightarrow> bool \<Rightarrow> astarte_mqtt \<Rightarrow> ('v, 'i, 'e) device \<Rightarrow> 's
      \<Rightarrow> (astarte_result_t \<times> bool \<times> astarte_mqtt \<times> ('v, 'i, 'e) device \<times> 's) option" where
  "astarte_device_destroy D W tls finish device_initialized m d s =
     (if \<not> device_initialized then Some (ASTARTE_RESULT_INVALID_PARAM, device_initialized, m, d, s)
      else do {
        (ares, m, d, s) \<leftarrow>
          (if dev_state d \<noteq> DEVICE_DISCONNECTED then astarte_device_force_disconnect D W m d s
           else Some (ASTARTE_RESULT_OK, m, d, s));
        if ares \<noteq> ASTARTE_RESULT_OK then Some (ares, device_initialized, m, d, s)
        else
          (case astarte_mqtt_clear_all_pending (de_mqtt D) m s of (m, s) \<Rightarrow>
             let ares = astarte_tls_credential_delete (fst tls) (snd tls) in
             if ares \<noteq> ASTARTE_RESULT_OK then Some (ares, device_initialized, m, d, s)
             else
               (case finish m (d\<lparr>dev_destroy_bit := True\<rparr>) s of (m, d, s) \<Rightarrow> do {
                  (q, s) \<leftarrow> astarte_transmission_queue_clear (de_kv D) (de_queue D) (dev_queue d) s;
                  Some (ASTARTE_RESULT_OK, False, m,
                    d\<lparr>dev_queue := q\<lparr>tq_storage := astarte_storage_destroy (tq_storage q)\<rparr>, dev_introspection := []\<rparr>, s)
                }))
      })"

section \<open>The token bucket\<close>

definition TRANSMISSION_PACING_MAX_TOKENS :: u32 where "TRANSMISSION_PACING_MAX_TOKENS = 10"
definition TRANSMISSION_PACING_TOKEN_VALUE_MS :: int where "TRANSMISSION_PACING_TOKEN_VALUE_MS = 20"
definition TRANSMISSION_EMPTY_QUEUE_WAITING_MS :: int where "TRANSMISSION_EMPTY_QUEUE_WAITING_MS = 100"
definition TRANSMISSION_ERROR_RETRY_DELAY_MS :: int where "TRANSMISSION_ERROR_RETRY_DELAY_MS = 50"
definition POLLING_ERROR_RETRY_DELAY_MS :: int where "POLLING_ERROR_RETRY_DELAY_MS = 50"

text \<open>\<open>now\<close> is the answer of \<open>k_uptime_get\<close>, in milliseconds.\<close>

definition refill_transmission_tokens :: "int \<Rightarrow> u32 \<times> int \<Rightarrow> u32 \<times> int" where
  "refill_transmission_tokens now = (\<lambda>(transmission_tokens, last_refill).
     let elapsed = now - last_refill in
     if elapsed \<ge> TRANSMISSION_PACING_TOKEN_VALUE_MS then
       let generated_tokens = elapsed div TRANSMISSION_PACING_TOKEN_VALUE_MS in
       (if uint transmission_tokens + generated_tokens > uint TRANSMISSION_PACING_MAX_TOKENS then TRANSMISSION_PACING_MAX_TOKENS
        else transmission_tokens + word_of_int generated_tokens,
        last_refill + generated_tokens * TRANSMISSION_PACING_TOKEN_VALUE_MS)
     else (transmission_tokens, last_refill))"

definition INT32_MAX :: int where "INT32_MAX = 0x7FFFFFFF"

definition token_wait :: "int \<Rightarrow> int \<Rightarrow> int" where
  "token_wait now last_refill =
     (let wait_ms = TRANSMISSION_PACING_TOKEN_VALUE_MS - (now - last_refill) in
      if wait_ms > 0 then if wait_ms > INT32_MAX then INT32_MAX else wait_ms else 0)"

section \<open>The worker thread\<close>

definition interface_update ::
    "('v, 'i, 'e, 's) device_env \<Rightarrow> queue_msg \<Rightarrow> ('v, 'i, 'e) device \<Rightarrow> 's \<Rightarrow> ('v, 'i, 'e) device" where
  "interface_update D msg d s =
     (let introspection =
        (if qm_operation msg = ASTARTE_TRANSMISSION_OP_ADD_INTERFACE
         then snd (introspection_update (de_heap D s) (dev_introspection d) (qm_interface msg))
         else snd (introspection_remove (dev_introspection d) (if_name (the (qm_interface msg))))) in
      d\<lparr>dev_introspection := introspection,
        dev_queue := snd (astarte_transmission_queue_discard_interface (de_queue D) (dev_queue d))\<rparr>)"

text \<open>The result: the time to sleep, the client, the device, and the tokens that are left.\<close>

definition process_transmission_queue ::
    "('v, 'i, 'e, 's) device_env \<Rightarrow> int \<Rightarrow> int \<Rightarrow> astarte_mqtt \<Rightarrow> ('v, 'i, 'e) device \<Rightarrow> u32 \<Rightarrow> 's
      \<Rightarrow> (int \<times> astarte_mqtt \<times> ('v, 'i, 'e) device \<times> u32 \<times> 's) option" where
  "process_transmission_queue D now last_refill m d transmission_tokens s = do {
     (r, s) \<leftarrow> astarte_transmission_queue_peek (de_kv D) (de_queue D) (dev_queue d) zero_queue_msg s;
     case r of Inl ares \<Rightarrow> Some (TRANSMISSION_EMPTY_QUEUE_WAITING_MS, m, d, transmission_tokens, s)
     | Inr msg \<Rightarrow>
         if is_interface_op (qm_operation msg) then Some (0, m, interface_update D msg d s, transmission_tokens, s)
         else if transmission_tokens = 0 then Some (token_wait now last_refill, m, d, transmission_tokens, s)
         else do {
           interface_name \<leftarrow> qm_interface_name msg;
           path \<leftarrow> qm_path msg;
           (ares, m, s) \<leftarrow> astarte_device_dispatcher_publish_data D m d interface_name path (qm_payload msg)
             (qm_payload_len msg) (qm_qos msg) s;
           if ares = ASTARTE_RESULT_OK then do {
             (ares, q, s) \<leftarrow> astarte_transmission_queue_discard_by_retention (de_kv D) (de_queue D) (dev_queue d)
               (qm_retention msg) s;
             Some (0, m, d\<lparr>dev_queue := q\<rparr>, transmission_tokens - 1, s)
           }
           else Some (TRANSMISSION_ERROR_RETRY_DELAY_MS, m, snd (put_event D (EventMisread ares) d), transmission_tokens, s)
         }
   }"

text \<open>
  One turn of the thread: the answers of the poll, whether the destruction is asked for before the wait
  for the connection ends, and the time at the two places where it is read.
\<close>

record turn_world =
  tw_random :: u32
  tw_poll :: poll_world
  tw_destroy :: bool
  tw_refill_time :: int
  tw_wait_time :: int

type_synonym ('v, 'i, 'e, 's) worker_state = "astarte_mqtt \<times> ('v, 'i, 'e) device \<times> (u32 \<times> int) \<times> 's"

text \<open>The flag of the result tells whether the loop goes on.\<close>

definition worker_turn ::
    "('v, 'i, 'e, 's) device_env \<Rightarrow> turn_world \<Rightarrow> ('v, 'i, 'e, 's) worker_state
      \<Rightarrow> (bool \<times> int \<times> ('v, 'i, 'e, 's) worker_state) option" where
  "worker_turn D W = (\<lambda>(m, d, bucket, s).
     if dev_destroy_bit d then Some (False, 0, m, d, bucket, s)
     else do {
       (ares, m, d, s) \<leftarrow> astarte_device_internal_poll D (tw_random W) (tw_poll W) m d s;
       if ares \<noteq> ASTARTE_RESULT_OK
       then Some (True, POLLING_ERROR_RETRY_DELAY_MS, m, snd (put_event D (EventMisread ares) d), bucket, s)
       else
         let d = (if tw_destroy W then d\<lparr>dev_destroy_bit := True\<rparr> else d) in
         if dev_destroy_bit d then Some (False, 0, m, d, bucket, s)
         else if \<not> dev_connection_bit d then Some (True, 0, m, d, bucket, s)
         else
           (case refill_transmission_tokens (tw_refill_time W) bucket of (transmission_tokens, last_refill) \<Rightarrow> do {
              (sleep, m, d, transmission_tokens, s) \<leftarrow> process_transmission_queue D (tw_wait_time W) last_refill m d transmission_tokens s;
              Some (True, sleep, m, d, (transmission_tokens, last_refill), s)
            })
     })"

text \<open>The thread from its start, for as many turns as there are answers.\<close>

primrec worker_loop ::
    "('v, 'i, 'e, 's) device_env \<Rightarrow> turn_world list \<Rightarrow> ('v, 'i, 'e, 's) worker_state
      \<Rightarrow> ('v, 'i, 'e, 's) worker_state option" where
  "worker_loop D [] st = Some st"
| "worker_loop D (W # Ws) st = do {
     (go_on, sleep, st) \<leftarrow> worker_turn D W st;
     if go_on then worker_loop D Ws st else Some st
   }"

definition astarte_device_worker_thread_entry ::
    "('v, 'i, 'e, 's) device_env \<Rightarrow> int \<Rightarrow> turn_world list \<Rightarrow> astarte_mqtt \<Rightarrow> ('v, 'i, 'e) device \<Rightarrow> 's
      \<Rightarrow> ('v, 'i, 'e, 's) worker_state option" where
  "astarte_device_worker_thread_entry D now Ws m d s =
     worker_loop D Ws (m, d, (TRANSMISSION_PACING_MAX_TOKENS, now), s)"

end
