(* ===== verification/Device_Spec.thy ===== *)
theory Device_Spec
  imports Device_Worker Mqtt_Refine Transmission_Spec
begin

text \<open>
  What the worker thread promises about the data in the transmission queue: the oldest message is the
  one it publishes, and the token bucket limits how many it publishes.  The two steps of a turn behind
  the poll are \<open>transmit\<close>.
\<close>

section \<open>Transmission\<close>

type_synonym times = "int \<times> int"

definition transmit ::
    "('v, 'i, 'e, 's) device_env \<Rightarrow> times \<Rightarrow> ('v, 'i, 'e, 's) worker_state \<Rightarrow> ('v, 'i, 'e, 's) worker_state option" where
  "transmit D t = (\<lambda>(m, d, bucket, s).
     case refill_transmission_tokens (fst t) bucket of (toks, last_refill) \<Rightarrow> do {
       (sleep, m, d, toks, s) \<leftarrow> process_transmission_queue D (snd t) last_refill m d toks s;
       Some (m, d, (toks, last_refill), s)
     })"

primrec transmit_loop ::
    "('v, 'i, 'e, 's) device_env \<Rightarrow> times list \<Rightarrow> ('v, 'i, 'e, 's) worker_state \<Rightarrow> ('v, 'i, 'e, 's) worker_state option" where
  "transmit_loop D [] st = Some st"
| "transmit_loop D (t # ts) st = do { st \<leftarrow> transmit D t st; transmit_loop D ts st }"

text \<open>A turn of the worker thread that reaches the queue ends with \<open>transmit\<close>.\<close>

lemma worker_turn_transmits:
  assumes "\<not> dev_destroy_bit d" "\<not> tw_destroy W"
    and "astarte_device_internal_poll D (tw_random W) (tw_poll W) m d s = Some (ASTARTE_RESULT_OK, m', d', s')"
    and "\<not> dev_destroy_bit d'" "dev_connection_bit d'"
  shows "map_option (\<lambda>r. snd (snd r)) (worker_turn D W (m, d, bucket, s))
    = transmit D (tw_refill_time W, tw_wait_time W) (m', d', bucket, s')"
  using assms by (cases "refill_transmission_tokens (tw_refill_time W) bucket")
    (auto simp: worker_turn_def transmit_def split: bind_splits)

section \<open>The rate\<close>

lemma refill_last:
  "refill_transmission_tokens now (toks, last_refill) = (toks', last') \<Longrightarrow>
   \<exists>g. 0 \<le> g \<and> last' = last_refill + 20 * g \<and> (last_refill \<le> now \<longrightarrow> last' \<le> now \<and> now - last' < 20)
     \<and> uint toks' \<le> uint toks + g \<and> (0 < g \<longrightarrow> 0 < uint toks')"
proof -
  assume r: "refill_transmission_tokens now (toks, last_refill) = (toks', last')"
  show ?thesis
  proof (cases "now - last_refill \<ge> 20")
    case False
    then show ?thesis
      using r by (intro exI [of _ 0]) (auto simp: refill_transmission_tokens_def TRANSMISSION_PACING_TOKEN_VALUE_MS_def)
  next
    case True
    define g where "g = (now - last_refill) div 20"
    have g: "0 < g" "20 * g \<le> now - last_refill" "now - last_refill < 20 * g + 20"
      using True by (simp_all add: g_def)
    show ?thesis
    proof (cases "uint toks + g > 10")
      case True
      then show ?thesis
        using r g \<open>now - last_refill \<ge> 20\<close> by (intro exI [of _ g])
          (auto simp: refill_transmission_tokens_def TRANSMISSION_PACING_TOKEN_VALUE_MS_def
            TRANSMISSION_PACING_MAX_TOKENS_def Let_def simp flip: g_def)
    next
      case False
      have "0 \<le> uint toks" by simp
      then have "g < 4294967296" "uint toks + g < 4294967296" using False by linarith+
      then have "uint (toks + word_of_int g) = uint toks + g"
        using g(1) by (simp add: uint_word_of_int uint_word_ariths)
      moreover have "0 < uint toks + g" using \<open>0 \<le> uint toks\<close> g(1) by linarith
      ultimately show ?thesis
        using r g False \<open>now - last_refill \<ge> 20\<close> by (intro exI [of _ g])
          (auto simp: refill_transmission_tokens_def TRANSMISSION_PACING_TOKEN_VALUE_MS_def
            TRANSMISSION_PACING_MAX_TOKENS_def Let_def simp flip: g_def)
    qed
  qed
qed

lemma publish_one_packet:
  assumes "astarte_mqtt_publish E m topic bytes n qos s = Some (m', s')"
  shows "length (am_packets m') = Suc (length (am_packets m))"
  using assms
  by (auto simp: astarte_mqtt_publish_def send_packet_def allocate_id_def cache_outgoing_def bind_eq_Some_conv
      split: if_splits)

lemma publish_data_packets:
  assumes "astarte_device_dispatcher_publish_data D m d i p bytes n qos s = Some (ares, m', s')"
  shows "length (am_packets m') = length (am_packets m) + of_bool (ares = ASTARTE_RESULT_OK)"
  using assms publish_one_packet
  by (auto simp: astarte_device_dispatcher_publish_data_def bind_eq_Some_conv split: if_splits option.splits)

text \<open>What a call of \<open>process_transmission_queue\<close> that returns has done.\<close>

lemma process_cases:
  assumes "process_transmission_queue D now last_refill m d toks s = Some (sleep, m', d', toks', s')"
  obtains (kept) "m' = m" "toks' = toks"
    | (failed) i p bytes n qos ares t where "ares \<noteq> ASTARTE_RESULT_OK" "toks' = toks"
      "astarte_device_dispatcher_publish_data D m d i p bytes n qos t = Some (ares, m', s')"
    | (sent) i p bytes n qos t t' where "toks \<noteq> 0" "toks' = toks - 1"
      "astarte_device_dispatcher_publish_data D m d i p bytes n qos t = Some (ASTARTE_RESULT_OK, m', t')"
proof -
  obtain r t where peek: "astarte_transmission_queue_peek (de_kv D) (de_queue D) (dev_queue d) zero_queue_msg s = Some (r, t)"
    using assms by (auto simp: process_transmission_queue_def bind_eq_Some_conv)
  note a = assms [unfolded process_transmission_queue_def peek, simplified]
  show thesis
  proof (cases r)
    case (Inl ares)
    then show thesis using a kept by simp
  next
    case (Inr msg)
    show thesis
    proof (cases "is_interface_op (qm_operation msg) \<or> toks = 0")
      case True
      then show thesis using a Inr kept by (auto split: if_splits)
    next
      case False
      then obtain i p ares m1 t1 where pub: "astarte_device_dispatcher_publish_data D m d i p (qm_payload msg)
          (qm_payload_len msg) (qm_qos msg) t = Some (ares, m1, t1)" "qm_interface_name msg = Some i" "qm_path msg = Some p"
        using a Inr by (auto simp: bind_eq_Some_conv)
      then show thesis
        using a Inr False failed [where t = t and ares = ares and i = i and p = p] sent [where t = t and i = i and p = p]
        by (cases "ares = ASTARTE_RESULT_OK") (auto simp: bind_eq_Some_conv)
    qed
  qed
qed

lemma uint_minus_one: "toks \<noteq> 0 \<Longrightarrow> uint (toks - 1 :: u32) = uint toks - 1 \<and> 0 < uint toks"
proof -
  assume "toks \<noteq> 0"
  then have "0 < uint toks" by (simp add: word_neq_0_conv word_less_def)
  moreover have "uint toks < 2 ^ 32" using uint_lt2p [of toks] by simp
  ultimately show ?thesis by (simp add: uint_word_ariths)
qed

lemma process_packets:
  assumes "process_transmission_queue D now last_refill m d toks s = Some (sleep, m', d', toks', s')"
  shows "int (length (am_packets m')) + uint toks' = int (length (am_packets m)) + uint toks"
  using assms
proof (cases rule: process_cases)
  case failed
  then show ?thesis using publish_data_packets [OF failed(3)] by simp
next
  case sent
  then show ?thesis using publish_data_packets [OF sent(3)] uint_minus_one by simp
qed simp

lemma transmit_rate:
  assumes "transmit D t (m, d, (toks, last_refill), s) = Some (m', d', (toks', last'), s')"
  shows "\<exists>g. last' = last_refill + 20 * g
    \<and> int (length (am_packets m')) + uint toks' \<le> int (length (am_packets m)) + uint toks + g
    \<and> (last_refill \<le> fst t \<longrightarrow> last' \<le> fst t)"
proof -
  obtain k l where r: "refill_transmission_tokens (fst t) (toks, last_refill) = (k, l)" by fastforce
  then obtain g where g: "l = last_refill + 20 * g" "uint k \<le> uint toks + g" "last_refill \<le> fst t \<longrightarrow> l \<le> fst t"
    using refill_last [OF r] by auto
  obtain sleep where p: "process_transmission_queue D (snd t) l m d k s = Some (sleep, m', d', toks', s')" and "l = last'"
    using assms r by (auto simp: transmit_def bind_eq_Some_conv)
  with process_packets [OF p] g show ?thesis by (intro exI [of _ g]) auto
qed

lemma transmit_loop_rate:
  assumes "transmit_loop D ts (m, d, (toks, last_refill), s) = Some (m', d', (toks', last'), s')"
    and "sorted (map fst ts)" and "\<forall>t\<in>set ts. last_refill \<le> fst t \<and> fst t \<le> T" and "last_refill \<le> T"
  shows "\<exists>g. last' = last_refill + 20 * g
    \<and> int (length (am_packets m')) + uint toks' \<le> int (length (am_packets m)) + uint toks + g \<and> last' \<le> T"
  using assms
proof (induction ts arbitrary: m d toks last_refill s)
  case (Cons t ts)
  obtain m1 d1 k l s1 where t: "transmit D t (m, d, (toks, last_refill), s) = Some (m1, d1, (k, l), s1)"
    and rest: "transmit_loop D ts (m1, d1, (k, l), s1) = Some (m', d', (toks', last'), s')"
    using Cons.prems(1) by (auto simp: bind_eq_Some_conv)
  from transmit_rate [OF t] Cons.prems(3) obtain g where g: "l = last_refill + 20 * g" "l \<le> fst t"
    "int (length (am_packets m1)) + uint k \<le> int (length (am_packets m)) + uint toks + g" by auto
  then have "\<forall>t\<in>set ts. l \<le> fst t \<and> fst t \<le> T" using Cons.prems(2,3) by auto
  from Cons.IH [OF rest _ this] g(2) Cons.prems(2,3) obtain g' where "last' = l + 20 * g'"
    "int (length (am_packets m')) + uint toks' \<le> int (length (am_packets m1)) + uint k + g'" "last' \<le> T" by auto
  with g show ?case by (intro exI [of _ "g + g'"]) simp
qed simp

section \<open>Order\<close>

text \<open>The topic of a queued message, and what the broker gets of it.\<close>

definition queued_topic :: "('v, 'i, 'e, 's) device_env \<Rightarrow> ('v, 'i, 'e) device \<Rightarrow> queued \<Rightarrow> byte list" where
  "queued_topic D d q = de_realm D @ [slash] @ c_string (dev_id d) @ [slash]
     @ c_string (the (qm_interface_name (out_of q))) @ c_string (the (qm_path (out_of q)))"

type_synonym publication = "byte list \<times> byte list option \<times> u32 \<times> u32"

definition publication_of :: "('v, 'i, 'e, 's) device_env \<Rightarrow> ('v, 'i, 'e) device \<Rightarrow> queued \<Rightarrow> publication" where
  "publication_of D d q = (queued_topic D d q, qm_payload (out_of q), qm_payload_len (out_of q), qm_qos (out_of q))"

fun packet_publication :: "mqtt_packet \<Rightarrow> publication option" where
  "packet_publication (PktPublish topic bytes n qos i dup) = Some (topic, bytes, n, qos)"
| "packet_publication _ = None"

text \<open>Data with a path and a quality of service that exist, that the client can keep in flight.\<close>

definition sendable_data :: "('v, 'i, 'e, 's) device_env \<Rightarrow> ('v, 'i, 'e) device \<Rightarrow> queued \<Rightarrow> bool" where
  "sendable_data D d q \<longleftrightarrow> kind_of q \<noteq> KInterface \<and> qm_interface_name (out_of q) \<noteq> None
     \<and> (\<exists>p. qm_path (out_of q) = Some p \<and> take 1 p = [slash])
     \<and> 0 \<le> sint (qm_qos (out_of q)) \<and> sint (qm_qos (out_of q)) \<le> 2 \<and> strlen (dev_id d) = ASTARTE_DEVICE_ID_LEN
     \<and> mqtt_valid (publish_msg (queued_topic D d q) (qm_payload (out_of q)) (qm_payload_len (out_of q)) (qm_qos (out_of q)))"

lemma out_of_data: "kind_of q \<noteq> KInterface \<Longrightarrow>
    qm_operation (out_of q) = ASTARTE_TRANSMISSION_OP_DATA \<and> kind_of_retention (qm_retention (out_of q)) = kind_of q"
  by (cases q) (simp_all add: vol_out_def zero_queue_msg_def)

text \<open>The messages in flight are in the part of the store that the queue does not touch.\<close>

lemma in_flight_move:
  assumes f: "in_flight E C al out_msgs in_msgs s mo mi" and same: "same_rest C s s'" and k: "kv_stores (mq_kv E) C s' al'"
  shows "in_flight E C al' out_msgs in_msgs s' mo mi"
proof -
  from f obtain R where c: "cache_at E C STORAGE_MQTT_MSG_OUTGOING al R R out_msgs s mo"
    "cache_at E C STORAGE_MQTT_MSG_INCOMING al R R in_msgs s mi" "sendable mo" by (rule in_flightE)
  from k obtain R' where k': "kv_rep (mq_kv E) C R' s' al'" by (auto simp: kv_stores_def)
  have "R' i = R i" if "other_id i" for i
  proof -
    from c(1) have "kv_rep (mq_kv E) C R s al" by (simp add: cache_at_def)
    then show ?thesis using that k' same by (auto simp: rep_def same_rest_def elim!: kv_repE)
  qed
  then have "cache_at E C dir al' R' R' cc s' mm" if "cache_at E C dir al R R cc s mm" for dir cc mm
    using that k' full_key_other by (simp add: cache_at_def)
  then show ?thesis using c unfolding in_flight_def by blast
qed

lemma in_flight_stores: "in_flight E C al out_msgs in_msgs s mo mi \<Longrightarrow> kv_stores (mq_kv E) C s al"
  by (elim in_flightE) (auto simp: cache_at_def kv_stores_def)

lemma same_rest_step: "kv_stores Z C s al \<Longrightarrow> kv_rep Z C R s' al' \<Longrightarrow> kv_rep Z C R s al \<Longrightarrow> same_rest C s s'"
  by (rule kv_rep_same_rest)

lemma discard_same_rest:
  assumes r: "trans_rel Z C P others (h, i, s) ms" and m: "trans_may P others ms xs"
    and d: "astarte_storage_transmission_discard Z h i s = Some (ares, h', i', s')"
  shows "same_rest C s s'"
proof -
  from r m obtain R al where f: "reliable_store Z C" "kv_rep Z C R s al" "length al < ring_size" "sd_initialized h"
    "valid_name (kv_namespace (sd_trans h))" by (rule trans_relE) blast
  show ?thesis
    by (rule reliable_store.delete_ok' [OF f(1,2,5) valid_trans_name f(3), of "ti_head i"])
      (use d f(4) kv_rep_same_rest [OF f(2)] in \<open>auto simp: astarte_storage_transmission_discard_def\<close>)
qed

lemma trans_rel_move:
  assumes "trans_rel Z C P others (h, i, s) ms"
    and "\<And>al. kv_stores Z C s al \<Longrightarrow> kv_stores Z C s' al"
  shows "trans_rel Z C P others (h, i, s') ms"
  using assms by (auto simp: trans_rel_def)

section \<open>One turn\<close>

text \<open>The client with its messages in flight, next to the queue, in one store.\<close>

definition sending ::
    "('v, 'i, 'e, 's) device_env \<Rightarrow> ('s \<Rightarrow> u32 \<rightharpoonup> byte list) \<Rightarrow> 's platform \<Rightarrow> nat \<Rightarrow> ('v \<Rightarrow> volatile_msg list)
      \<Rightarrow> ('i \<Rightarrow> interface_msg list) \<Rightarrow> nat \<Rightarrow> astarte_mqtt \<Rightarrow> ('v, 'i, 'e) device \<Rightarrow> 's \<Rightarrow> mqtt_view \<Rightarrow> queue_abs \<Rightarrow> bool" where
  "sending D C P others cv ci cap m d s a qa \<longleftrightarrow> (\<exists>al. mqtt_rel (de_mqtt D) C al (m, s) a)
     \<and> queue_rel (de_kv D) C P others (de_queue D) cv ci cap (dev_queue d, s) qa"

lemma publish_queued:
  assumes rel: "mqtt_rel (de_mqtt D) C al (m, s) a" and ok: "sendable_data D d q" and free: "free_id a"
    and n: "qm_interface_name (out_of q) = Some i" "qm_path (out_of q) = Some p"
  obtains m' s' a' id where
    "astarte_device_dispatcher_publish_data D m d i p (qm_payload (out_of q)) (qm_payload_len (out_of q)) (qm_qos (out_of q)) s
      = Some (ASTARTE_RESULT_OK, m', s')"
    "mqtt_rel (de_mqtt D) C al (m', s') a'" "card (dom (mv_out a')) \<le> Suc (card (dom (mv_out a)))"
    "am_packets m' = am_packets m @ [PktPublish (queued_topic D d q) (qm_payload (out_of q)) (qm_payload_len (out_of q))
      (qm_qos (out_of q)) id False]"
proof -
  let ?msg = "publish_msg (queued_topic D d q) (qm_payload (out_of q)) (qm_payload_len (out_of q)) (qm_qos (out_of q))"
  have v: "mqtt_valid ?msg" using ok by (simp add: sendable_data_def)
  have heap: "de_heap D s k" for k using in_flight_heap [OF relD(1) [OF rel]] .
  have p: "p \<noteq> []" "p ! 0 = slash" "strlen p \<noteq> 0"
    using ok n by (auto simp: sendable_data_def strlen_def c_string_def slash_def take_Suc_conv_app_nth split: if_splits)
      (cases p; simp)+
  have t: "data_topic (de_realm D) (dev_id d) i p = Some (queued_topic D d q)"
    using ok n by (simp add: data_topic_def queued_topic_def sendable_data_def strlen_def Let_def)
  have pub: "astarte_device_dispatcher_publish_data D m d i p (qm_payload (out_of q)) (qm_payload_len (out_of q))
      (qm_qos (out_of q)) s = map_option (Pair ASTARTE_RESULT_OK) (astarte_mqtt_publish (de_mqtt D) m (queued_topic D d q)
        (qm_payload (out_of q)) (qm_payload_len (out_of q)) (qm_qos (out_of q)) s)"
    using ok p heap t
    by (cases "astarte_mqtt_publish (de_mqtt D) m (queued_topic D d q) (qm_payload (out_of q)) (qm_payload_len (out_of q))
        (qm_qos (out_of q)) s") (auto simp: astarte_device_dispatcher_publish_data_def sendable_data_def)
  show thesis
  proof (cases "sint (qm_qos (out_of q)) > 0")
    case True
    obtain m' s' where c: "cache_outgoing (de_mqtt D) (next_id a) ?msg (m\<lparr>am_last_message_id := next_id a\<rparr>) s = Some (m', s')"
      "mqtt_rel (de_mqtt D) C al (m', s') (send_msg ?msg a)" "am_packets m' = am_packets m"
      using sent_ok [OF rel free v] by auto
    have "card (dom (mv_out (send_msg ?msg a))) \<le> Suc (card (dom (mv_out a)))"
      by (simp add: send_msg_def card_insert_if)
    then show thesis
      using True c allocated(1) [OF rel free] valid_topic [OF v] pub
      by (intro that [of "send_packet (PktPublish (queued_topic D d q) (qm_payload (out_of q)) (qm_payload_len (out_of q))
          (qm_qos (out_of q)) (next_id a) False) m'" s' "send_msg ?msg a" "next_id a"])
        (auto simp: astarte_mqtt_publish_def publish_msg_def)
  next
    case False
    then show thesis
      using rel valid_topic [OF v] pub
      by (intro that [of "send_packet (PktPublish (queued_topic D d q) (qm_payload (out_of q)) (qm_payload_len (out_of q))
          (qm_qos (out_of q)) 0 False) m" s a 0])
        (auto simp: astarte_mqtt_publish_def)
  qed
qed

lemma queue_rel_stores:
  assumes "queue_rel Z C P others E cv ci cap (h, s) qa"
  obtains al where "kv_stores Z C s al"
  using assms by (cases qa) (auto simp: queue_rel_def trans_rel_def)

lemma queue_rel_move:
  assumes "queue_rel Z C P others E cv ci cap (h, s) qa" and "\<And>al. kv_stores Z C s al \<Longrightarrow> kv_stores Z C s' al"
  shows "queue_rel Z C P others E cv ci cap (h, s') qa"
  using assms trans_rel_move [OF _ assms(2)] by (cases qa) (auto simp: queue_rel_def)

lemma mqtt_rel_move:
  assumes "mqtt_rel E C al (m, s) a" and "same_rest C s s'" and "kv_stores (mq_kv E) C s' al'"
  shows "mqtt_rel E C al' (m, s') a"
  using in_flight_move [OF relD(1) [OF assms(1)] assms(2,3)] relD(2,3) [OF assms(1)] by (simp add: mqtt_rel_def)

lemma mqtt_rel_stores: "mqtt_rel E C al (m, s) a \<Longrightarrow> kv_stores (mq_kv E) C s al"
  using in_flight_stores [OF relD(1)] .

text \<open>Only the operations that are not insertions count for what the queue may do.\<close>

lemma queue_may_discard:
  "queue_may P others qa (replicate (Suc k) OpPeek) \<Longrightarrow> queue_may P others qa (OpDiscard r # replicate k OpPeek)"
  by (simp add: queue_may_def case_prod_beta)

lemma discard_by_retention_rest:
  assumes rel: "queue_rel Z C P others E cv ci cap (h, s) qa" and may: "queue_may P others qa (x # xs)"
    and d: "astarte_transmission_queue_discard_by_retention Z E h r s = Some (ares, h', s')"
  shows "same_rest C s s'"
proof (cases r)
  case ASTARTE_MAPPING_RETENTION_STORED
  obtain tv n qs where qa: "qa = (tv, n, qs)" by (rule prod_cases3)
  have t: "trans_rel Z C P others (tq_storage h, tq_indexes h, s) (stored_of qs)"
    using rel by (simp add: queue_rel_def qa)
  have "trans_may P others (stored_of qs) [TDiscard]" using queue_may_trans may qa by blast
  from discard_same_rest [OF t this] show ?thesis
    using d ASTARTE_MAPPING_RETENTION_STORED
    by (auto simp: astarte_transmission_queue_discard_by_retention_def bind_eq_Some_conv)
qed (use d in \<open>auto simp: astarte_transmission_queue_discard_by_retention_def split: option.splits\<close>)

lemma process_sends:
  assumes S: "sending D C P others cv ci cap m d s a (tv, n, q # qs)" and toks: "toks \<noteq> 0" and ok: "sendable_data D d q"
    and free: "free_id a" and may: "queue_may P others (tv, n, q # qs) (replicate (Suc k) OpPeek)"
  obtains m' h s' a' id where
    "process_transmission_queue D now last_refill m d toks s = Some (0, m', d\<lparr>dev_queue := h\<rparr>, toks - 1, s')"
    "sending D C P others cv ci cap m' (d\<lparr>dev_queue := h\<rparr>) s' a' (tv, n, qs)"
    "queue_may P others (tv, n, qs) (replicate k OpPeek)" "card (dom (mv_out a')) \<le> Suc (card (dom (mv_out a)))"
    "am_packets m' = am_packets m @ [PktPublish (queued_topic D d q) (qm_payload (out_of q)) (qm_payload_len (out_of q))
      (qm_qos (out_of q)) id False]"
proof -
  let ?msg = "out_of q"
  from S obtain al0 where rel0: "mqtt_rel (de_mqtt D) C al0 (m, s) a"
    and qr: "queue_rel (de_kv D) C P others (de_queue D) cv ci cap (dev_queue d, s) (tv, n, q # qs)"
    by (auto simp: sending_def)
  have peek: "astarte_transmission_queue_peek (de_kv D) (de_queue D) (dev_queue d) zero_queue_msg s = Some (Inr ?msg, s)"
    using queue_may_peek [OF qr] may by simp
  obtain i p where n: "qm_interface_name ?msg = Some i" "qm_path ?msg = Some p" using ok by (auto simp: sendable_data_def)
  note publish = publish_queued [OF _ ok free n]
  from qr obtain al where "kv_stores (de_kv D) C s al" by (rule queue_rel_stores)
  from publish [OF mqtt_rel_move [OF rel0 same_rest_refl this]] obtain m' s1 a' id where
    pub: "astarte_device_dispatcher_publish_data D m d i p (qm_payload ?msg) (qm_payload_len ?msg) (qm_qos ?msg) s
      = Some (ASTARTE_RESULT_OK, m', s1)"
    and rel1: "mqtt_rel (de_mqtt D) C al (m', s1) a'" and rest: "card (dom (mv_out a')) \<le> Suc (card (dom (mv_out a)))"
      "am_packets m' = am_packets m @ [PktPublish (queued_topic D d q) (qm_payload ?msg) (qm_payload_len ?msg) (qm_qos ?msg) id False]" .
  have "kv_stores (de_kv D) C s1 al'" if "kv_stores (de_kv D) C s al'" for al'
    by (rule publish [OF mqtt_rel_move [OF rel0 same_rest_refl that]]) (use pub mqtt_rel_stores in fastforce)
  from queue_rel_move [OF qr this] have qr1: "queue_rel (de_kv D) C P others (de_queue D) cv ci cap (dev_queue d, s1) (tv, n, q # qs)" .
  note kind = out_of_data [of q]
  have dk: "kind_of q \<noteq> KInterface" using ok by (simp add: sendable_data_def)
  note may' = queue_may_discard [OF may, of "qm_retention ?msg"]
  obtain h s2 where disc: "astarte_transmission_queue_discard_by_retention (de_kv D) (de_queue D) (dev_queue d)
      (qm_retention ?msg) s1 = Some (removal (kind_of q) (q # qs), h, s2)"
    and qr2: "queue_rel (de_kv D) C P others (de_queue D) cv ci cap (h, s2) (tv, n, qs)"
    using queue_step_refines [OF qr1 may'] kind dk
    by (auto simp: queue_step_def queue_spec_def bind_eq_Some_conv)
  from qr2 obtain al2 where "kv_stores (de_kv D) C s2 al2" by (rule queue_rel_stores)
  from mqtt_rel_move [OF rel1 discard_by_retention_rest [OF qr1 may' disc] this]
  have "sending D C P others cv ci cap m' (d\<lparr>dev_queue := h\<rparr>) s2 a' (tv, n, qs)"
    using qr2 by (auto simp: sending_def)
  moreover have "queue_may P others (tv, n, qs) (replicate k OpPeek)"
    using queue_may_tl [OF may', of _] kind dk by (simp add: queue_spec_def)
  moreover have "process_transmission_queue D now last_refill m d toks s = Some (0, m', d\<lparr>dev_queue := h\<rparr>, toks - 1, s2)"
    using peek n pub disc toks kind dk by (simp add: process_transmission_queue_def is_interface_op_def)
  ultimately show thesis using rest that by blast
qed

section \<open>Many turns\<close>

text \<open>Turns at least one token apart.\<close>

primrec spaced :: "int \<Rightarrow> times list \<Rightarrow> bool" where
  "spaced last_refill [] \<longleftrightarrow> True"
| "spaced last_refill (t # ts) \<longleftrightarrow> last_refill + TRANSMISSION_PACING_TOKEN_VALUE_MS \<le> fst t \<and> spaced (fst t) ts"

lemma spaced_mono: "spaced l ts \<Longrightarrow> l' \<le> l \<Longrightarrow> spaced l' ts"
  by (cases ts) auto

lemma few_in_flight_free:
  assumes "card (dom (mv_out a)) < 65535"
  shows "free_id a"
proof (rule ccontr)
  assume "\<not> free_id a"
  then have "- {0} \<subseteq> dom (mv_out a)" by (auto simp: free_id_def)
  then have "card (- {0 :: u16}) \<le> card (dom (mv_out a))" by (intro card_mono) simp_all
  moreover have "card (- {0 :: u16}) = 65535" by (simp add: Compl_eq_Diff_UNIV card_Diff_subset card_word)
  ultimately show False using assms by simp
qed

lemma sendable_data_queue [simp]: "sendable_data D (d\<lparr>dev_queue := h\<rparr>) q = sendable_data D d q"
  "publication_of D (d\<lparr>dev_queue := h\<rparr>) q = publication_of D d q"
  by (simp_all add: sendable_data_def publication_of_def queued_topic_def)

lemma transmit_sends:
  assumes S: "sending D C P others cv ci cap m d s a (tv, n, q # qs)" and ok: "sendable_data D d q"
    and free: "free_id a" and may: "queue_may P others (tv, n, q # qs) (replicate (Suc k) OpPeek)"
    and sp: "spaced last_refill (t # ts)"
  obtains m' h toks' last' s' a' where
    "transmit D t (m, d, (toks, last_refill), s) = Some (m', d\<lparr>dev_queue := h\<rparr>, (toks', last'), s')"
    "sending D C P others cv ci cap m' (d\<lparr>dev_queue := h\<rparr>) s' a' (tv, n, qs)" "spaced last' ts"
    "queue_may P others (tv, n, qs) (replicate k OpPeek)" "card (dom (mv_out a')) \<le> Suc (card (dom (mv_out a)))"
    "map packet_publication (am_packets m') = map packet_publication (am_packets m) @ [Some (publication_of D d q)]"
proof -
  obtain toks1 last1 where r: "refill_transmission_tokens (fst t) (toks, last_refill) = (toks1, last1)" by fastforce
  from refill_last [OF r] obtain g where g: "0 \<le> g" "last1 = last_refill + 20 * g" "last_refill \<le> fst t \<longrightarrow> last1 \<le> fst t \<and> fst t - last1 < 20"
    "0 < g \<longrightarrow> 0 < uint toks1" by auto
  have "last_refill + 20 \<le> fst t" using sp by (simp add: TRANSMISSION_PACING_TOKEN_VALUE_MS_def)
  then have "0 < g" "last1 \<le> fst t" using g(2,3) by auto
  then have "toks1 \<noteq> 0" "spaced last1 ts" using g(4) sp spaced_mono by auto
  from process_sends [OF S this(1) ok free may, where now = "snd t" and last_refill = last1] obtain m' h s' a' i where
    "process_transmission_queue D (snd t) last1 m d toks1 s = Some (0, m', d\<lparr>dev_queue := h\<rparr>, toks1 - 1, s')"
    "sending D C P others cv ci cap m' (d\<lparr>dev_queue := h\<rparr>) s' a' (tv, n, qs)"
    "queue_may P others (tv, n, qs) (replicate k OpPeek)" "card (dom (mv_out a')) \<le> Suc (card (dom (mv_out a)))"
    "am_packets m' = am_packets m @ [PktPublish (queued_topic D d q) (qm_payload (out_of q)) (qm_payload_len (out_of q))
      (qm_qos (out_of q)) i False]" .
  with r \<open>spaced last1 ts\<close> show thesis
    by (intro that [of m' h "toks1 - 1" last1 s' a']) (simp_all add: transmit_def publication_of_def)
qed

lemma transmit_loop_sends:
  assumes "sending D C P others cv ci cap m d s a (tv, n, qs)" and "length ts \<le> length qs"
    and "\<forall>q\<in>set (take (length ts) qs). sendable_data D d q" and "card (dom (mv_out a)) + length ts \<le> 65535"
    and "queue_may P others (tv, n, qs) (replicate (length ts) OpPeek)" and "spaced (snd bucket) ts"
  shows "\<exists>m' h bucket' s' a'. transmit_loop D ts (m, d, bucket, s) = Some (m', d\<lparr>dev_queue := h\<rparr>, bucket', s')
    \<and> sending D C P others cv ci cap m' (d\<lparr>dev_queue := h\<rparr>) s' a' (tv, n, drop (length ts) qs)
    \<and> map packet_publication (am_packets m')
      = map packet_publication (am_packets m) @ map (\<lambda>q. Some (publication_of D d q)) (take (length ts) qs)"
  using assms
proof (induction ts arbitrary: m d bucket s a qs)
  case Nil
  then show ?case
    by (intro exI [of _ m] exI [of _ "dev_queue d"] exI [of _ bucket] exI [of _ s] exI [of _ a]) simp
next
  case (Cons t ts)
  from Cons.prems(2) obtain q qs' where qs: "qs = q # qs'" by (cases qs) auto
  have free: "free_id a" using Cons.prems(4) by (intro few_in_flight_free) simp
  obtain toks l where b: "bucket = (toks, l)" by fastforce
  have may: "queue_may P others (tv, n, q # qs') (replicate (Suc (length ts)) OpPeek)" using Cons.prems(5) qs by simp
  have sp: "spaced l (t # ts)" using Cons.prems(6) b by simp
  have S: "sending D C P others cv ci cap m d s a (tv, n, q # qs')" and ok: "sendable_data D d q"
    using Cons.prems(1,3) qs by simp_all
  obtain m1 h1 toks1 l1 s1 a1 where
    t: "transmit D t (m, d, (toks, l), s) = Some (m1, d\<lparr>dev_queue := h1\<rparr>, (toks1, l1), s1)"
    and S1: "sending D C P others cv ci cap m1 (d\<lparr>dev_queue := h1\<rparr>) s1 a1 (tv, n, qs')" and sp1: "spaced l1 ts"
    and may1: "queue_may P others (tv, n, qs') (replicate (length ts) OpPeek)"
    and c1: "card (dom (mv_out a1)) \<le> Suc (card (dom (mv_out a)))"
    and p1: "map packet_publication (am_packets m1) = map packet_publication (am_packets m) @ [Some (publication_of D d q)]"
    by (rule transmit_sends [OF S ok free may sp, where toks = toks])
  from Cons.IH [OF S1 _ _ _ may1, of "(toks1, l1)"] Cons.prems(2-4) qs sp1 c1 obtain m' h bucket' s' a' where
    "transmit_loop D ts (m1, d\<lparr>dev_queue := h1\<rparr>, (toks1, l1), s1) = Some (m', d\<lparr>dev_queue := h\<rparr>, bucket', s')"
    "sending D C P others cv ci cap m' (d\<lparr>dev_queue := h\<rparr>) s' a' (tv, n, drop (length ts) qs')"
    "map packet_publication (am_packets m') = map packet_publication (am_packets m1)
      @ map (\<lambda>q. Some (publication_of D d q)) (take (length ts) qs')"
    by auto
  then show ?case using t b p1 qs by auto
qed

end
