(* ===== verification/Device_States.thy ===== *)
theory Device_States
  imports Device_Spec
begin

text \<open>
  The connection of a device as a state machine: the steps are the calls of the user and the polls of the
  worker thread, each with any answers of the outside, and the invariants of the states that can be
  reached.
\<close>

section \<open>Operations that do not touch the connection\<close>

definition same_session :: "('v, 'i, 'e) device \<Rightarrow> ('v, 'i, 'e) device \<Rightarrow> bool" where
  "same_session d d' \<longleftrightarrow> dev_state d' = dev_state d \<and> dev_synchronized d' = dev_synchronized d
     \<and> dev_connection_bit d' = dev_connection_bit d"

lemma same_session_refl [simp]: "same_session d d"
  by (simp add: same_session_def)

lemma same_session_trans: "same_session d d' \<Longrightarrow> same_session d' d'' \<Longrightarrow> same_session d d''"
  by (simp add: same_session_def)

lemma same_session_put [simp]: "same_session d (snd (put_event D e d'')) = same_session d d''"
  by (auto simp: put_event_def same_session_def split: option.splits)

lemma same_session_caching [simp]: "same_session d (set_caching c d'') = same_session d d''"
  "same_session d (d''\<lparr>dev_queue := q\<rparr>) = same_session d d''"
  by (simp_all add: set_caching_def same_session_def)

lemma snd_event_result [simp]: "snd (event_result p) = snd p"
  by (simp add: event_result_def)

lemma event_result_eq: "event_result p = (r, d) \<Longrightarrow> d = snd p"
  by (auto simp: event_result_def)

text \<open>What holds of the value of a computation, if it returns one.\<close>

definition returns :: "('a \<Rightarrow> bool) \<Rightarrow> 'a option \<Rightarrow> bool" where
  "returns P x \<longleftrightarrow> (\<forall>v. x = Some v \<longrightarrow> P v)"

lemma returns_simps [simp]:
  "returns P None" "returns P (Some v) = P v" "returns P (Option.bind x f) = returns (\<lambda>v. returns P (f v)) x"
  "returns P (map_option g x) = returns (\<lambda>v. P (g v)) x"
  by (auto simp: returns_def bind_eq_Some_conv)

lemma returns_any [intro]: "(\<And>v. P v) \<Longrightarrow> returns P x"
  by (simp add: returns_def)

lemma returns_mono: "returns Q x \<Longrightarrow> (\<And>v. Q v \<Longrightarrow> P v) \<Longrightarrow> returns P x"
  by (simp add: returns_def)

lemmas operation_splits = option.split sum.split if_split prod.split list.split

abbreviation same_dev :: "('v, 'i, 'e) device \<Rightarrow> (('r \<times> ('v, 'i, 'e) device \<times> 's) option) \<Rightarrow> bool" where
  "same_dev d \<equiv> returns (\<lambda>(r, d', s'). same_session d d')"

lemma insert_queue_session: "same_session d d'' \<Longrightarrow> same_dev d (insert_queue D msg d'' s)"
  by (auto simp: insert_queue_def)

lemma unset_session: "same_dev d (on_unset_property D d i p s)"
  by (auto simp: on_unset_property_def Let_def split_def split: option.split)

lemma set_session: "same_dev d (on_set_property D d i p v s)"
  by (auto simp: on_set_property_def Let_def split_def split: option.split)

lemma properties_incoming_session:
  "returns (\<lambda>(d', s'). same_session d d') (astarte_device_properties_handle_incoming D d interface p bytes s)"
proof -
  note fs = unset_session [of d D "if_name interface" p s, simplified split_def]
    set_session [of d D "if_name interface" p _ s, simplified split_def]
  show ?thesis
    by (auto simp: astarte_device_properties_handle_incoming_def split_def fs intro!: returns_any split: option.split)
qed

lemma datastreams_incoming_session:
  "returns (\<lambda>(d', s'). same_session d d') (astarte_device_datastreams_handle_incoming D d interface p bytes s)"
  by (auto simp: astarte_device_datastreams_handle_incoming_def on_datastream_individual_def
      on_datastream_aggregated_def Let_def split: option.split sum.split)

lemma incoming_session:
  "returns (\<lambda>(d', s'). same_session d d') (astarte_device_dispatcher_on_incoming D d topic bytes s)"
  using properties_incoming_session datastreams_incoming_session
  by (auto simp: astarte_device_dispatcher_on_incoming_def on_control_message_def Let_def split: option.split)

lemma set_property_session: "same_dev d (astarte_device_set_property D d i p v s)"
  by (auto simp: astarte_device_set_property_def Let_def split_def intro!: returns_any
      insert_queue_session [unfolded split_def] split: option.split sum.split)

lemma user_session:
  "same_dev d (astarte_device_unset_property D d i p s)"
  "same_dev d (astarte_device_send_individual D d i p v t s)"
  "same_dev d (astarte_device_send_object D d i p es t s)"
  "same_dev d (astarte_device_add_interface D d f s)"
  "same_dev d (astarte_device_remove_interface D d f s)"
  by (auto simp: astarte_device_unset_property_def astarte_device_send_individual_def astarte_device_send_object_def
      astarte_device_add_interface_def astarte_device_remove_interface_def Let_def split_def
      intro!: returns_any insert_queue_session [unfolded split_def] split: option.split sum.split list.split)

lemma send_owned_property_session:
  "returns (\<lambda>(d', iter', s'). same_session d d') (send_device_owned_property D d iter i p major v s)"
  using set_property_session [of d D i p v s]
  by (auto simp: send_device_owned_property_def Let_def split_def intro!: returns_any split: option.split)

lemma returnsI: "(\<And>v. x = Some v \<Longrightarrow> P v) \<Longrightarrow> returns P x"
  by (simp add: returns_def)

lemma returnsD: "returns P x \<Longrightarrow> x = Some v \<Longrightarrow> P v"
  by (simp add: returns_def)

lemma returns_bind:
  assumes "returns Q x" and "\<And>v. Q v \<Longrightarrow> returns P (f v)"
  shows "returns P (Option.bind x f)"
  using assms by (simp add: returns_def bind_eq_Some_conv) blast

lemma returns_later: "(\<And>v. returns P (f v)) \<Longrightarrow> returns P (Option.bind x f)"
  by (cases x) simp_all

text \<open>What every sent property keeps, the loop keeps.\<close>

lemma send_owned_loop_keeps:
  assumes step: "\<And>d iter i p major v s. R d \<Longrightarrow>
      returns (\<lambda>(d', iter', s'). R d') (send_device_owned_property D d iter i p major v s)"
    and start: "R d"
  shows "returns (\<lambda>(r, d', s'). R d') (send_owned_loop D d iter s)"
proof (rule returnsI)
  fix x assume x: "send_owned_loop D d iter s = Some x"
  have "D = D \<and> R d \<longrightarrow> (case x of (r, d', s') \<Rightarrow> R d')"
  proof (rule send_owned_loop.raw_induct [where P = "\<lambda>D' d iter s x. D' = D \<and> R d \<longrightarrow> (case x of (r, d', s') \<Rightarrow> R d')", OF _ x])
    fix loop :: "('a, 'b, 'c, 'd) device_env \<Rightarrow> ('a, 'b, 'c) device \<Rightarrow> 32 word \<Rightarrow> 'd \<Rightarrow> _" and D' d iter s x
    assume ih: "\<And>D' d iter s y. loop D' d iter s = Some y \<Longrightarrow> D' = D \<and> R d \<longrightarrow> (case y of (r, d', s') \<Rightarrow> R d')"
      and eq: "do {
        (r, s) \<leftarrow> iterator_strings (de_kv D') iter s;
        case r of Inl ares \<Rightarrow> Some (ares, d, s)
        | Inr (interface_name, path) \<Rightarrow> do {
            (l, s) \<leftarrow> astarte_storage_property_load (de_kv D') (dev_caching d) interface_name path True True s;
            case l of Inl ares \<Rightarrow> Some (ares, d, s)
            | Inr (major, v) \<Rightarrow> do {
                (d, iter, s) \<leftarrow> send_device_owned_property D' d iter interface_name path (the major) (the v) s;
                (r, s) \<leftarrow> astarte_storage_property_iterator_next (de_kv D') (dev_caching d) iter s;
                case r of
                  Inl ares \<Rightarrow> Some (if ares = ASTARTE_RESULT_NOT_FOUND then ASTARTE_RESULT_OK else ares, d, s)
                | Inr iter \<Rightarrow> loop D' d iter s
              }
          }
      } = Some x"
    have l: "returns (\<lambda>(r, d', s'). R d') (loop D d' iter s)" if "R d'" for d' iter s
      using ih [of D d' iter s] that by (intro returnsI) auto
    have n: "returns (\<lambda>(r, d', s'). R d') (do {
        (r, s) \<leftarrow> astarte_storage_property_iterator_next (de_kv D) (dev_caching d') iter s;
        case r of
          Inl ares \<Rightarrow> Some (if ares = ASTARTE_RESULT_NOT_FOUND then ASTARTE_RESULT_OK else ares, d', s)
        | Inr iter \<Rightarrow> loop D d' iter s
      })" if "R d'" for d' iter s
      using l that by (intro returns_later) (auto split: sum.split)
    have o: "returns (\<lambda>(r, d', s'). R d') (do {
        (d', iter, s) \<leftarrow> send_device_owned_property D d iter i p major v s;
        (r, s) \<leftarrow> astarte_storage_property_iterator_next (de_kv D) (dev_caching d') iter s;
        case r of
          Inl ares \<Rightarrow> Some (if ares = ASTARTE_RESULT_NOT_FOUND then ASTARTE_RESULT_OK else ares, d', s)
        | Inr iter \<Rightarrow> loop D d' iter s
      })" if "R d" for i p major v iter s
      by (rule returns_bind [OF step [OF that]]) (use n in auto)
    have "returns (\<lambda>(r, d', s'). R d') (Some x)" if "D' = D" "R d"
      unfolding eq [symmetric] that(1)
      using o [OF that(2)] by (intro returns_later) (auto simp: that(2) simp del: returns_simps(3) split: sum.split
        intro!: returns_later)
    then show "D' = D \<and> R d \<longrightarrow> (case x of (r, d', s') \<Rightarrow> R d')" by simp
  qed
  then show "case x of (r, d', s') \<Rightarrow> R d'" using start by simp
qed

lemma send_owned_keeps:
  assumes step: "\<And>d iter i p major v s. R d \<Longrightarrow>
      returns (\<lambda>(d', iter', s'). R d') (send_device_owned_property D d iter i p major v s)"
    and start: "R d"
  shows "returns (\<lambda>(r, d', s'). R d') (astarte_device_properties_send_device_owned D d s)"
  using start
  by (auto simp: astarte_device_properties_send_device_owned_def simp del: returns_simps(3)
      intro!: returns_later send_owned_loop_keeps [OF step] split: sum.split)

text \<open>
  In a handshake the properties of the device are only stored again: no message is put into the queue,
  of which nothing but the handle of the storage changes.
\<close>

lemma start_set_property:
  assumes "dev_state d = DEVICE_START_HANDSHAKE"
  shows "returns (\<lambda>(r, d', s'). \<exists>c. d' = set_caching c d) (astarte_device_set_property D d i p v s)"
proof -
  have k: "\<exists>c. d = set_caching c d" by (rule exI [of _ "dev_caching d"]) (simp add: set_caching_def dev_caching_def)
  have "dev_state (set_caching c d) = DEVICE_START_HANDSHAKE" for c using assms by (simp add: set_caching_def)
  with k show ?thesis
    by (auto simp: astarte_device_set_property_def Let_def sends_properties_def simp del: returns_simps(3)
        intro!: returns_later split: option.split sum.split)
qed

lemma start_send_owned:
  assumes st: "dev_state d = DEVICE_START_HANDSHAKE"
  shows "returns (\<lambda>(r, d', s'). \<exists>c. d' = set_caching c d) (astarte_device_properties_send_device_owned D d s)"
proof (rule send_owned_keeps)
  have twice: "set_caching c' (set_caching c d) = set_caching c' d" for c c' by (simp add: set_caching_def)
  fix e iter i p major v s assume "\<exists>c. e = set_caching c d"
  then obtain c where e: "e = set_caching c d" by blast
  have "dev_state e = DEVICE_START_HANDSHAKE" using st e by (simp add: set_caching_def)
  from start_set_property [OF this]
  have "returns (\<lambda>(r, d', s'). \<exists>c. d' = set_caching c d) (astarte_device_set_property D e i p v s)"
    by (rule returns_mono) (auto simp: e twice)
  then show "returns (\<lambda>(d', iter', s'). \<exists>c. d' = set_caching c d) (send_device_owned_property D e iter i p major v s)"
    by (auto simp: send_device_owned_property_def Let_def e twice split_def intro!: returns_any split: option.split)
next
  show "\<exists>c. d = set_caching c d" by (rule exI [of _ "dev_caching d"]) (simp add: set_caching_def dev_caching_def)
qed

lemma send_owned_session: "same_dev d (astarte_device_properties_send_device_owned D d s)"
proof (rule send_owned_keeps)
  fix e iter i p major v s assume e: "same_session d e"
  show "returns (\<lambda>(d', iter', s'). same_session d d') (send_device_owned_property D e iter i p major v s)"
    using send_owned_property_session [of e D iter i p major v s]
    by (rule returns_mono) (auto intro: same_session_trans [OF e])
qed simp

lemma send_purge_session: "returns (\<lambda>(r, m', d', s'). same_session d d') (send_purge D m d s)"
  by (auto simp: send_purge_def Let_def simp del: returns_simps(3) intro!: returns_later split: sum.split)

section \<open>The invariant of the session\<close>

text \<open>
  A connected device is synchronized and its thread sends; a disconnected one does not send.
\<close>

definition session_inv :: "('v, 'i, 'e) device \<Rightarrow> bool" where
  "session_inv d \<longleftrightarrow>
     (dev_state d = DEVICE_CONNECTED \<longrightarrow> dev_synchronized d \<and> dev_connection_bit d)
     \<and> (dev_state d = DEVICE_DISCONNECTED \<longrightarrow> \<not> dev_connection_bit d)"

lemma session_inv_same: "same_session d d' \<Longrightarrow> session_inv d' = session_inv d"
  by (simp add: same_session_def session_inv_def)

lemma session_inv_other:
  "dev_state d \<noteq> DEVICE_CONNECTED \<Longrightarrow> dev_state d \<noteq> DEVICE_DISCONNECTED \<Longrightarrow> session_inv d"
  by (simp add: session_inv_def)

lemma session_inv_put [simp]: "session_inv (snd (put_event D e d)) = session_inv d"
  by (rule session_inv_same) simp

lemma session_inv_caching [simp]: "session_inv (set_caching c d) = session_inv d"
  by (rule session_inv_same) simp

lemma device_cb_inv: "session_inv d \<Longrightarrow> returns (\<lambda>(d', s'). session_inv d') (device_cb D notice d s)"
proof (cases notice)
  case OnDisconnected
  then show ?thesis
    by (auto simp: device_cb_def astarte_device_dispatcher_on_disconnected_def split_def intro!: returns_any)
      (simp add: session_inv_def)
next
  case (OnIncoming topic bytes)
  assume "session_inv d"
  then show ?thesis
    using incoming_session [of d D topic bytes s] OnIncoming
    by (auto simp: device_cb_def session_inv_same elim!: returns_mono)
qed (auto simp: device_cb_def astarte_device_dispatcher_on_connected_def astarte_device_dispatcher_on_subscribed_def
    session_inv_def)

section \<open>Events and polls keep what the callbacks keep\<close>

definition keeps :: "('d, 's) mqtt_cb \<Rightarrow> ('d \<Rightarrow> bool) \<Rightarrow> bool" where
  "keeps cb Q \<longleftrightarrow> (\<forall>notice d s. Q d \<longrightarrow> returns (\<lambda>(d', s'). Q d') (cb notice d s))"

lemma notify_keeps:
  assumes "keeps cb Q" "Q d"
  shows "returns (\<lambda>(m', d', s'). Q d') (notify cb notice m d s)"
  using assms by (auto simp: notify_def keeps_def split_def)

lemma handler_keeps:
  assumes "keeps cb Q" "Q d"
  shows "returns (\<lambda>(m', d', s'). Q d') (mqtt_evt_handler E cfg cb evt m d s)"
proof -
  note n = notify_keeps [OF assms]
  have p: "returns (\<lambda>(m', d', s'). Q d') (astarte_mqtt_handle_publish_event E cfg cb publish reads m d s)" for publish reads
    using assms(2) n
    by (auto simp: astarte_mqtt_handle_publish_event_def Let_def simp del: returns_simps(3) intro!: returns_later)
  show ?thesis
    using assms(2) n p
    by (cases evt; cases "fst evt")
      (auto simp: mqtt_evt_handler_def astarte_mqtt_handle_connack_event_def astarte_mqtt_handle_disconnection_event_def
        astarte_mqtt_handle_puback_event_def astarte_mqtt_handle_pubcomp_event_def astarte_mqtt_handle_suback_event_def
        Let_def split: prod.split)
qed

lemma events_keeps:
  assumes "keeps cb Q" "Q d"
  shows "returns (\<lambda>(m', d', s'). Q d') (mqtt_events E cfg cb evts m d s)"
  using assms(2)
proof (induction evts arbitrary: m d s)
  case (Cons evt evts)
  show ?case
    unfolding mqtt_events.simps
    by (rule returns_bind [OF handler_keeps [OF assms(1) Cons.prems]]) (auto intro: Cons.IH)
qed simp

lemma disconnect_keeps:
  assumes "keeps cb Q" "Q d"
  shows "returns (\<lambda>(r, m', d', s'). Q d') (astarte_mqtt_disconnect E cfg cb W m d s)"
  using assms(2)
  by (auto simp: astarte_mqtt_disconnect_def simp del: returns_simps(3) split: astarte_mqtt_connection_states_t.split
      intro!: returns_bind [OF events_keeps [OF assms]])

lemma poll_input_keeps:
  assumes "keeps cb Q" "Q d"
  shows "returns (\<lambda>(r, m', d', s'). Q d') (poll_input E cfg cb W m d s)"
  using assms(2)
  by (auto simp: poll_input_def simp del: returns_simps(3) intro!: returns_bind [OF events_keeps [OF assms]])

lemma poll_keeps:
  assumes "keeps cb Q" "Q d"
  shows "returns (\<lambda>(r, m', d', s'). Q d') (astarte_mqtt_poll E cfg cb W m d s)"
  using assms(2)
  by (auto simp: astarte_mqtt_poll_def Let_def simp del: returns_simps(3) split: prod.split
      intro!: returns_later poll_input_keeps [OF assms(1)] returns_bind [OF events_keeps [OF assms]])

lemma device_cb_keeps: "keeps (device_cb D) session_inv"
  by (simp add: keeps_def device_cb_inv)

section \<open>The handshake\<close>

text \<open>The start of the handshake ends with its second part or with an error, whatever happens in it.\<close>

lemma full_handshake_state:
  "returns (\<lambda>(m', d', s'). dev_state d' = DEVICE_HANDSHAKE_ERROR \<or> dev_state d' = DEVICE_END_HANDSHAKE)
    (full_handshake D intr_str m d s)"
  by (auto simp: full_handshake_def handshake_error_def simp del: returns_simps(3) intro!: returns_later)

lemma start_handshake_state:
  "returns (\<lambda>(m', d', s'). dev_state d' = DEVICE_HANDSHAKE_ERROR \<or> dev_state d' = DEVICE_END_HANDSHAKE)
    (state_machine_start_handshake_run D m d s)"
  using full_handshake_state
  by (auto simp: state_machine_start_handshake_run_def handshake_error_def Let_def simp del: returns_simps(3)
      intro!: returns_later)

text \<open>The queue does not get a message from the start of the handshake.\<close>

definition only_caching :: "('v, 'i, 'e) device \<Rightarrow> ('v, 'i, 'e) device \<Rightarrow> bool" where
  "only_caching d d' \<longleftrightarrow> (\<exists>c. dev_queue d' = (dev_queue d)\<lparr>tq_storage := c\<rparr>)"

lemma only_caching_same: "only_caching d d" "dev_queue d' = dev_queue d \<Longrightarrow> only_caching d d'"
  "dev_queue e = (dev_queue d)\<lparr>tq_storage := c\<rparr> \<Longrightarrow> only_caching d e"
  "only_caching d (handshake_error e) = only_caching d e"
  by (auto simp: only_caching_def handshake_error_def intro: exI [of _ "tq_storage (dev_queue d)"])

lemma send_purge_queue:
  "returns (\<lambda>(r, m', d', s'). dev_state d' = dev_state d \<and> only_caching d d') (send_purge D m d s)"
  by (auto simp: send_purge_def Let_def set_caching_def only_caching_same simp del: returns_simps(3)
      intro!: returns_later split: sum.split)

lemma full_handshake_queue:
  assumes "dev_state d = DEVICE_START_HANDSHAKE"
  shows "returns (\<lambda>(m', d', s'). only_caching d d') (full_handshake D intr_str m d s)"
proof -
  have o: "returns (\<lambda>(m', d', s'). only_caching d d') (do {
      (ares, d', s) \<leftarrow> astarte_device_properties_send_device_owned D e s;
      Some (m, if ares \<noteq> ASTARTE_RESULT_OK then handshake_error d' else d'\<lparr>dev_state := DEVICE_END_HANDSHAKE\<rparr>, s) })"
    if "dev_state e = DEVICE_START_HANDSHAKE" "only_caching d e" for e m s
    by (rule returns_bind [OF start_send_owned [OF that(1)]])
      (use that(2) in \<open>auto simp: only_caching_def set_caching_def handshake_error_def\<close>)
  have p: "returns (\<lambda>(m', d', s'). only_caching d d') (do {
      (ares, m, d', s) \<leftarrow> send_purge D m d s;
      if ares \<noteq> ASTARTE_RESULT_OK then Some (m, handshake_error d', s)
      else do {
        (ares, d', s) \<leftarrow> astarte_device_properties_send_device_owned D d' s;
        Some (m, if ares \<noteq> ASTARTE_RESULT_OK then handshake_error d' else d'\<lparr>dev_state := DEVICE_END_HANDSHAKE\<rparr>, s)
      } })" for m s
    using assms o
    by (intro returns_bind [OF send_purge_queue]) (auto simp: only_caching_same simp del: returns_simps(3))
  show ?thesis
    by (auto simp: full_handshake_def only_caching_same simp del: returns_simps(3) intro!: p returns_later)
qed

lemma start_handshake_queue:
  assumes "dev_state d = DEVICE_START_HANDSHAKE"
  shows "returns (\<lambda>(m', d', s'). only_caching d d') (state_machine_start_handshake_run D m d s)"
proof -
  have "returns (\<lambda>(m', d', s'). only_caching d d')
      (full_handshake D intr_str m (d\<lparr>dev_subscription_failure := False\<rparr>) s)" for intr_str s
    using full_handshake_queue [of "d\<lparr>dev_subscription_failure := False\<rparr>" D intr_str m s] assms
    by (simp add: only_caching_def)
  then show ?thesis
    by (auto simp: state_machine_start_handshake_run_def handshake_error_def Let_def only_caching_same
        simp del: returns_simps(3) intro!: returns_later)
qed

lemma end_handshake_inv:
  assumes "dev_state d = DEVICE_END_HANDSHAKE"
  shows "returns (\<lambda>(m', d', s'). session_inv d') (state_machine_end_handshake_run D m d s)"
  using assms
  by (auto simp: state_machine_end_handshake_run_def handshake_error_def Let_def session_inv_other
      simp del: returns_simps(3) intro!: returns_later) (simp_all add: session_inv_def)

lemma handshake_error_inv:
  assumes "dev_state d = DEVICE_HANDSHAKE_ERROR"
  shows "returns (\<lambda>(d', s'). session_inv d') (state_machine_handshake_error_run D random d s)"
  using assms
  by (auto simp: state_machine_handshake_error_run_def set_caching_def session_inv_def split: prod.split
      intro!: returns_any)

lemma state_machine_inv:
  assumes "session_inv d"
  shows "returns (\<lambda>(m', d', s'). session_inv d') (state_machine_run D random m d s)"
proof (cases "dev_state d")
  case DEVICE_START_HANDSHAKE
  then show ?thesis
    using start_handshake_state [of D m d s]
    by (auto simp: state_machine_run_def elim!: returns_mono intro: session_inv_other)
next
  case DEVICE_END_HANDSHAKE
  then show ?thesis using end_handshake_inv by (simp add: state_machine_run_def)
next
  case DEVICE_HANDSHAKE_ERROR
  then show ?thesis using handshake_error_inv by (simp add: state_machine_run_def split_def)
qed (use assms in \<open>simp_all add: state_machine_run_def state_machine_connected_run_def session_inv_def\<close>)

lemma internal_poll_inv:
  assumes "session_inv d"
  shows "returns (\<lambda>(r, m', d', s'). session_inv d') (astarte_device_internal_poll D random W m d s)"
  unfolding astarte_device_internal_poll_def
  by (rule returns_bind [OF state_machine_inv [OF assms]]) (auto intro: poll_keeps device_cb_keeps)

section \<open>The worker thread\<close>

lemma process_session:
  "returns (\<lambda>(sleep, m', d', toks', s'). same_session d d') (process_transmission_queue D now last_refill m d toks s)"
  by (auto simp: process_transmission_queue_def interface_update_def same_session_def put_event_def
      simp del: returns_simps(3) intro!: returns_later split: sum.split option.split)

lemma worker_turn_inv:
  assumes "session_inv d"
  shows "returns (\<lambda>(go_on, sleep, m', d', bucket', s'). session_inv d') (worker_turn D W (m, d, bucket, s))"
proof -
  have t: "returns (\<lambda>(go_on, sleep, m', d', bucket', s'). session_inv d') (do {
      (sleep, m, d', toks, s) \<leftarrow> process_transmission_queue D now l m d toks s;
      Some (True, sleep, m, d', (toks, l), s) })" if "session_inv d" for now l m d toks s
    by (rule returns_bind [OF process_session]) (use that in \<open>auto dest: session_inv_same\<close>)
  have d: "session_inv (d\<lparr>dev_destroy_bit := b\<rparr>) = session_inv d" for b and d :: "('a, 'b, 'c) device"
    by (rule session_inv_same) (simp add: same_session_def)
  show ?thesis
    using assms
    by (auto simp: worker_turn_def Let_def d simp del: returns_simps(3) split: prod.split
        intro!: returns_bind [OF internal_poll_inv] t)
qed

section \<open>Steps\<close>

text \<open>
  The steps of a device: the calls of its user, and the turns of the worker thread, with any answers of
  the outside.  While \<open>astarte_device_disconnect\<close> waits the worker thread makes its steps; the end of the
  wait is a step of its own, without a further wait.
\<close>

type_synonym ('v, 'i, 'e, 's) device_state = "astarte_mqtt \<times> ('v, 'i, 'e) device \<times> 's"

inductive session_step ::
    "('v, 'i, 'e, 's) device_env \<Rightarrow> ('v, 'i, 'e, 's) device_state \<Rightarrow> ('v, 'i, 'e, 's) device_state \<Rightarrow> bool"
  for D :: "('v, 'i, 'e, 's) device_env" where
  connect: "astarte_device_connect D W m d s = (ares, m', d') \<Longrightarrow> session_step D (m, d, s) (m', d', s)"
| disconnect: "astarte_device_disconnect D [] W m d s = Some (ares, m', d', s') \<Longrightarrow> session_step D (m, d, s) (m', d', s')"
| force_disconnect: "astarte_device_force_disconnect D W m d s = Some (ares, m', d', s') \<Longrightarrow>
    session_step D (m, d, s) (m', d', s')"
| set_property: "astarte_device_set_property D d i p v s = Some (ares, d', s') \<Longrightarrow> session_step D (m, d, s) (m, d', s')"
| unset_property: "astarte_device_unset_property D d i p s = Some (ares, d', s') \<Longrightarrow> session_step D (m, d, s) (m, d', s')"
| send_individual: "astarte_device_send_individual D d i p v t s = Some (ares, d', s') \<Longrightarrow> session_step D (m, d, s) (m, d', s')"
| send_object: "astarte_device_send_object D d i p es t s = Some (ares, d', s') \<Longrightarrow> session_step D (m, d, s) (m, d', s')"
| add_interface: "astarte_device_add_interface D d f s = Some (ares, d', s') \<Longrightarrow> session_step D (m, d, s) (m, d', s')"
| remove_interface: "astarte_device_remove_interface D d f s = Some (ares, d', s') \<Longrightarrow> session_step D (m, d, s) (m, d', s')"
| get_event: "astarte_device_get_event D d = (r, d') \<Longrightarrow> session_step D (m, d, s) (m, d', s)"
| turn: "worker_turn D T (m, d, bucket, s) = Some (go_on, sleep, m', d', bucket', s') \<Longrightarrow> session_step D (m, d, s) (m', d', s')"

inductive_simps session_step_iff: "session_step D x y"

lemma get_event_session: "same_session d (snd (astarte_device_get_event D d))"
  by (auto simp: astarte_device_get_event_def same_session_def split: option.split)

text \<open>A step of the data of the device moves no session.\<close>

lemma data_step_session:
  "astarte_device_set_property D d i p v s = Some (ares, d', s') \<Longrightarrow> same_session d d'"
  "astarte_device_unset_property D d i p s = Some (ares, d', s') \<Longrightarrow> same_session d d'"
  "astarte_device_send_individual D d i p v t s = Some (ares, d', s') \<Longrightarrow> same_session d d'"
  "astarte_device_send_object D d i p es t s = Some (ares, d', s') \<Longrightarrow> same_session d d'"
  "astarte_device_add_interface D d f s = Some (ares, d', s') \<Longrightarrow> same_session d d'"
  "astarte_device_remove_interface D d f s = Some (ares, d', s') \<Longrightarrow> same_session d d'"
  "astarte_device_get_event D d = (r, d') \<Longrightarrow> same_session d d'"
  using returnsD [OF set_property_session] returnsD [OF user_session(1)] returnsD [OF user_session(2)]
    returnsD [OF user_session(3)] returnsD [OF user_session(4)] returnsD [OF user_session(5)] get_event_session [of d D]
  by (fastforce, fastforce, fastforce, fastforce, fastforce, fastforce, simp)

lemma disconnect_inv:
  assumes "session_inv d"
  shows "returns (\<lambda>(r, m', d', s'). session_inv d') (astarte_device_force_disconnect D W m d s)"
    "returns (\<lambda>(r, m', d', s'). session_inv d') (astarte_device_disconnect D [] W m d s)"
  using assms by (simp_all add: astarte_device_force_disconnect_def astarte_device_disconnect_def
      disconnect_keeps [OF device_cb_keeps])

lemma connect_inv:
  "astarte_device_connect D W m d s = (ares, m', d') \<Longrightarrow> session_inv d \<Longrightarrow> session_inv d'"
  by (auto simp: astarte_device_connect_def session_inv_def split: connection_states.splits prod.splits if_splits)

lemma session_step_inv:
  assumes "session_step D (m, d, s) (m', d', s')" and inv: "session_inv d"
  shows "session_inv d'"
  using assms(1)
proof (cases rule: session_step.cases)
  case connect
  then show ?thesis by (auto intro: connect_inv [OF _ inv])
next
  case disconnect
  then show ?thesis using returnsD [OF disconnect_inv(2) [OF inv]] by fastforce
next
  case force_disconnect
  then show ?thesis using returnsD [OF disconnect_inv(1) [OF inv]] by fastforce
next
  case turn
  then show ?thesis using returnsD [OF worker_turn_inv [OF inv]] by fastforce
qed (auto dest!: data_step_session session_inv_same simp: inv)

lemma session_steps_inv:
  assumes "(session_step D)\<^sup>*\<^sup>* x y" and "session_inv (fst (snd x))"
  shows "session_inv (fst (snd y))"
  using assms by (induction) (auto intro: session_step_inv)

lemma new_device_inv:
  assumes "astarte_device_new D P F last_message_id cfg b s sockets = Some (Inr (m, d), s', sockets')"
  shows "session_inv d"
proof -
  have "returns (\<lambda>(r, s', sockets'). \<forall>m d. r = Inr (m, d) \<longrightarrow> session_inv d)
      (astarte_device_new D P F last_message_id cfg b s sockets)"
    by (auto simp: astarte_device_new_def session_inv_def simp del: returns_simps(3) intro!: returns_later split: sum.split)
  from returnsD [OF this assms] show ?thesis by simp
qed

section \<open>A device without its client\<close>

text \<open>
  The client gives up a connection without the callback when the poll of its socket fails.  A
  disconnection asked for in that moment succeeds, and again without the callback.
\<close>

definition stranded :: "astarte_mqtt \<Rightarrow> ('v, 'i, 'e) device \<Rightarrow> bool" where
  "stranded m d \<longleftrightarrow> am_connection_state m = ASTARTE_MQTT_DISCONNECTED \<and> dev_state d = DEVICE_CONNECTED"

lemma stranded_same: "same_session d d' \<Longrightarrow> am_connection_state m' = am_connection_state m \<Longrightarrow> stranded m' d' = stranded m d"
  by (simp add: same_session_def stranded_def)

lemma publish_state:
  "astarte_mqtt_publish E m topic bytes n qos s = Some (m', s') \<Longrightarrow> am_connection_state m' = am_connection_state m"
  by (auto simp: astarte_mqtt_publish_def send_packet_def allocate_id_def cache_outgoing_def bind_eq_Some_conv
      split: if_splits)

lemma publish_data_state:
  "astarte_device_dispatcher_publish_data D m d i p bytes n qos s = Some (ares, m', s') \<Longrightarrow>
    am_connection_state m' = am_connection_state m"
  by (auto simp: astarte_device_dispatcher_publish_data_def bind_eq_Some_conv split: if_splits option.splits
      dest: publish_state)

lemma process_client:
  assumes "process_transmission_queue D now last_refill m d toks s = Some (sleep, m', d', toks', s')"
  shows "am_connection_state m' = am_connection_state m"
  using assms by (cases rule: process_cases) (auto dest: publish_data_state)

lemma stranded_poll:
  assumes "stranded m d"
  shows "\<exists>b. astarte_device_internal_poll D random W m d s = Some (ASTARTE_RESULT_OK, m, d\<lparr>dev_backoff := b\<rparr>, s)"
  using assms by (auto simp: stranded_def astarte_device_internal_poll_def state_machine_run_def
      state_machine_connected_run_def astarte_mqtt_poll_def)

lemma stranded_turn:
  assumes "stranded m d" and "worker_turn D W (m, d, bucket, s) = Some (go_on, sleep, m', d', bucket', s')"
  shows "stranded m' d'"
proof -
  obtain b where poll: "astarte_device_internal_poll D (tw_random W) (tw_poll W) m d s
      = Some (ASTARTE_RESULT_OK, m, d\<lparr>dev_backoff := b\<rparr>, s)"
    using stranded_poll [OF assms(1), of D "tw_random W" "tw_poll W" s] by (elim exE)
  have d: "stranded m (d\<lparr>dev_backoff := b, dev_destroy_bit := c\<rparr>)" "stranded m (d\<lparr>dev_backoff := b\<rparr>)" for c
    using assms(1) by (simp_all add: stranded_def)
  have p: "stranded m'' d''" if "process_transmission_queue D now l m e toks s = Some (x, m'', d'', toks', t)" "stranded m e"
    for now l e toks x m'' d'' toks' t
    using process_client [OF that(1)] returnsD [OF process_session that(1)] that(2) by (simp add: stranded_same)
  show ?thesis
    using assms poll d by (auto simp: worker_turn_def Let_def bind_eq_Some_conv split: if_splits prod.splits dest: p)
qed

lemma stranded_user:
  assumes "stranded m d"
  shows "astarte_device_connect D W m d s = (ASTARTE_RESULT_MQTT_CLIENT_ALREADY_CONNECTED, m, d)"
    "astarte_device_force_disconnect D V m d s = Some (ASTARTE_RESULT_MQTT_CLIENT_NOT_READY, m, d, s)"
    "astarte_device_destroy D V tls finish True m d s = Some (ASTARTE_RESULT_MQTT_CLIENT_NOT_READY, True, m, d, s)"
  using assms by (auto simp: stranded_def astarte_device_connect_def astarte_device_force_disconnect_def
      astarte_mqtt_disconnect_def astarte_device_destroy_def)

lemma stranded_step:
  assumes "session_step D (m, d, s) (m', d', s')" and st: "stranded m d"
  shows "stranded m' d'"
  using assms(1)
proof (cases rule: session_step.cases)
  case disconnect
  then show ?thesis
    using st by (auto simp: stranded_def astarte_device_disconnect_def astarte_mqtt_disconnect_def split: if_splits)
next
  case turn
  then show ?thesis by (auto intro: stranded_turn [OF st])
qed (use st in \<open>auto dest!: data_step_session dest: stranded_same simp: stranded_user\<close>)

lemma stranded_steps:
  assumes "(session_step D)\<^sup>*\<^sup>* x y" and "stranded (fst x) (fst (snd x))"
  shows "stranded (fst y) (fst (snd y))"
  using assms by (induction) (auto intro: stranded_step)

text \<open>A failed poll of the socket: the client knows, the device does not.\<close>

lemma socket_error_states:
  assumes "dev_state d = DEVICE_CONNECTED" and "pw_live_events W = []"
    and "astarte_device_internal_poll D random W m d s = Some (ASTARTE_RESULT_SOCKET_ERROR, m1, d1, s1)"
  shows "dev_state d1 = DEVICE_CONNECTED" "am_connection_state m1 = ASTARTE_MQTT_CONNECTION_ERROR"
  using assms
  by (auto simp: astarte_device_internal_poll_def state_machine_run_def state_machine_connected_run_def
      astarte_mqtt_poll_def poll_input_def Let_def bind_eq_Some_conv split: if_splits prod.splits)

end
