(* ===== verification/Device_Id.thy ===== *)
theory Device_Id
  imports Pairing
begin

text \<open>
  Identifiers of devices (device\_id.c).  The UUIDs and their base64 text are of the kernel: a record of its
  functions, each with its return code.  The random generator answers for one call.
\<close>

definition ASTARTE_DEVICE_ID_NAMESPACE_SIZE :: nat where "ASTARTE_DEVICE_ID_NAMESPACE_SIZE = 16"

record uuid_ops =
  uo_generate_v4 :: "int \<times> byte list"
  uo_generate_v5 :: "byte list \<Rightarrow> byte list \<Rightarrow> int \<times> byte list"
  uo_to_base64url :: "byte list \<Rightarrow> int \<times> byte list"

text \<open>The part both functions share: the identifier is the base64 text of the UUID.\<close>

definition id_of_uuid :: "uuid_ops \<Rightarrow> int \<times> byte list \<Rightarrow> astarte_result_t + byte list" where
  "id_of_uuid U generated = (case generated of (res, uuid) \<Rightarrow>
     if res \<noteq> 0 then Inl ASTARTE_RESULT_INTERNAL_ERROR
     else case uo_to_base64url U uuid of (res, out) \<Rightarrow>
       if res \<noteq> 0 then Inl ASTARTE_RESULT_INTERNAL_ERROR else Inr out)"

definition astarte_device_id_generate_random :: "uuid_ops \<Rightarrow> astarte_result_t + byte list" where
  "astarte_device_id_generate_random U = id_of_uuid U (uo_generate_v4 U)"

definition astarte_device_id_generate_deterministic ::
    "uuid_ops \<Rightarrow> byte list \<Rightarrow> byte list \<Rightarrow> nat \<Rightarrow> astarte_result_t + byte list" where
  "astarte_device_id_generate_deterministic U nsp name name_size =
     id_of_uuid U (uo_generate_v5 U (take ASTARTE_DEVICE_ID_NAMESPACE_SIZE nsp) (take name_size name))"

text \<open>Two devices with the same namespace and the same bytes of the name have the same identifier.\<close>

lemma deterministic_id:
  assumes "take 16 nsp = take 16 nsp'" and "take n name = take n name'"
  shows "astarte_device_id_generate_deterministic U nsp name n = astarte_device_id_generate_deterministic U nsp' name' n"
  using assms by (simp add: astarte_device_id_generate_deterministic_def ASTARTE_DEVICE_ID_NAMESPACE_SIZE_def)

end
