(* ===== verification/Device_Claims.thy ===== *)
theory Device_Claims
  imports Device_States Device_Id Mqtt_Claims Storage_Claims
begin

text \<open>
  The properties of a device: its session with the server, the sending of the queued data, the
  certificate and the HTTP client behind it.
\<close>

section \<open>A concrete device\<close>

definition demo_device_env ::
    "(volatile_msg list, interface_msg list, device_event list, u32 \<rightharpoonup> byte list) device_env" where
  "demo_device_env = \<lparr>de_mqtt = demo_mq, de_queue = demo_env, de_events = list_msgq 1, de_config = demo_config,
     de_realm = [114], de_clock = (\<lambda>_. None)\<rparr>"

text \<open>A device without interfaces; its topics are the ones of \<open>initialize_mqtt_topics\<close>.\<close>

definition demo_device ::
    "connection_states \<Rightarrow> bool \<Rightarrow> (volatile_msg list, interface_msg list, device_event list) device" where
  "demo_device st b = \<lparr>dev_id = replicate 22 97, dev_session_present = 1, dev_introspection = [], dev_state = st,
     dev_synchronized = b, dev_subscription_failure = False, dev_backoff = zero_backoff, dev_reconnection = no_wait,
     dev_topics = projr (initialize_mqtt_topics [114] (replicate 22 97)), dev_queue = demo_queue,
     dev_connection_bit = b, dev_destroy_bit = False, dev_events = []\<rparr>"

section \<open>The session\<close>

text \<open>The state that \<open>astarte_device_new\<close> gives to a device.\<close>

lemma new_device_disconnected:
  assumes "astarte_device_new D P F last_message_id cfg b s sockets = Some (Inr (m, d), s', sockets')"
  shows "dev_state d = DEVICE_DISCONNECTED \<and> \<not> dev_connection_bit d"
proof -
  have "returns (\<lambda>(r, s', sockets'). \<forall>m d. r = Inr (m, d) \<longrightarrow> dev_state d = DEVICE_DISCONNECTED \<and> \<not> dev_connection_bit d)
      (astarte_device_new D P F last_message_id cfg b s sockets)"
    by (auto simp: astarte_device_new_def simp del: returns_simps(3) intro!: returns_later split: sum.split)
  from returnsD [OF this assms] show ?thesis by simp
qed

text \<open>C10: In every state that a device reaches from the one it is created in (\<open>new_device_disconnected\<close>), by
  any calls of the user and any turns of the worker thread, with any answers of the outside: a connected
  device has its flag of synchronization set and its worker thread sends, and the worker thread of a
  disconnected device does not.\<close>

theorem session_invariant:
  assumes "dev_state d = DEVICE_DISCONNECTED" and "\<not> dev_connection_bit d"
    and "(session_step D)\<^sup>*\<^sup>* (m, d, s) (m', d', s')"
  shows "(dev_state d' = DEVICE_CONNECTED \<longrightarrow> dev_synchronized d' \<and> dev_connection_bit d')
    \<and> (dev_state d' = DEVICE_DISCONNECTED \<longrightarrow> \<not> dev_connection_bit d')"
  using session_steps_inv [OF assms(3)] assms(1,2) by (simp add: session_inv_def)

definition demo_connect :: connect_world where
  "demo_connect = \<lparr>cw_refresh = ASTARTE_RESULT_OK, cw_dns_rc = 0, cw_addr_found = True, cw_connect_rc = 0\<rparr>"

text \<open>The device connects, and its client is accepted by the broker with a new session.\<close>

definition demo_turn :: turn_world where
  "demo_turn = \<lparr>tw_random = 0, tw_poll = \<lparr>pw_random = 0, pw_connect = demo_connect, pw_disconnect_events = [],
     pw_live_events = [(MQTT_EVT_CONNACK 1, 0)], pw_poll_rc = 0, pw_input_rc = 0, pw_input_events = []\<rparr>,
     tw_destroy = False, tw_refill_time = 0, tw_wait_time = 0\<rparr>"

lemma session_invariant_witness:
  "\<exists>m d. (session_step demo_device_env)\<^sup>*\<^sup>*
      (demo_client\<lparr>am_connection_state := ASTARTE_MQTT_DISCONNECTED\<rparr>, demo_device DEVICE_DISCONNECTED False, Map.empty)
      (m, d, Map.empty)
    \<and> dev_state d = DEVICE_START_HANDSHAKE \<and> (dev_state d = DEVICE_DISCONNECTED \<longrightarrow> \<not> dev_connection_bit d)"
proof -
  let ?D = demo_device_env and ?s = "Map.empty :: u32 \<rightharpoonup> byte list"
  let ?m = "demo_client\<lparr>am_connection_state := ASTARTE_MQTT_DISCONNECTED\<rparr>" and ?d = "demo_device DEVICE_DISCONNECTED False"
  let ?m1 = "?m\<lparr>am_connection_timepoint := Some 15000, am_connection_state := ASTARTE_MQTT_CONNECTING\<rparr>"
    and ?d1 = "?d\<lparr>dev_state := DEVICE_MQTT_CONNECTING\<rparr>"
  note env = demo_device_env_def demo_mq_def demo_config_def
  have "astarte_device_connect ?D demo_connect ?m ?d ?s = (ASTARTE_RESULT_OK, ?m1, ?d1)"
    by (simp add: astarte_device_connect_def astarte_mqtt_connect_def demo_device_def demo_connect_def env)
  then have one: "session_step ?D (?m, ?d, ?s) (?m1, ?d1, ?s)" by (rule session_step.connect)
  obtain m2 where "worker_turn ?D demo_turn (?m1, ?d1, (10, 0), ?s)
      = Some (True, 0, m2, ?d1\<lparr>dev_state := DEVICE_START_HANDSHAKE, dev_session_present := 1\<rparr>, (10, 0), ?s)"
    by (simp add: worker_turn_def astarte_device_internal_poll_def state_machine_run_def astarte_mqtt_poll_def
        demo_turn_def demo_device_def env demo_client_def mqtt_evt_handler_def is_connack_def astarte_mqtt_handle_connack_event_def
        notify_def device_cb_def astarte_device_dispatcher_on_connected_def poll_input_def expired_def Let_def)
  then have "session_step ?D (?m1, ?d1, ?s) (m2, ?d1\<lparr>dev_state := DEVICE_START_HANDSHAKE, dev_session_present := 1\<rparr>, ?s)"
    by (rule session_step.turn)
  with one have steps: "(session_step ?D)\<^sup>*\<^sup>* (?m, ?d, ?s) (m2, ?d1\<lparr>dev_state := DEVICE_START_HANDSHAKE, dev_session_present := 1\<rparr>, ?s)"
    by simp
  have "dev_state ?d = DEVICE_DISCONNECTED" "\<not> dev_connection_bit ?d" by (simp_all add: demo_device_def)
  from session_invariant [OF this steps] steps show ?thesis by force
qed

text \<open>C28: The start of the handshake, which restores the properties of the device, hands none of them to
  the worker thread: when it has returned, nothing of the transmission queue, the indexes of its stored
  part included, has changed but the handle of the storage.\<close>

theorem handshake_sends_no_property:
  "pred_option (\<lambda>(m', d', s'). \<exists>c. dev_queue d' = (dev_queue d)\<lparr>tq_storage := c\<rparr>)
    (state_machine_start_handshake_run D m (d\<lparr>dev_state := DEVICE_START_HANDSHAKE\<rparr>) s)"
proof -
  have "returns (\<lambda>(m', d', s'). only_caching d d')
      (state_machine_start_handshake_run D m (d\<lparr>dev_state := DEVICE_START_HANDSHAKE\<rparr>) s)"
    using start_handshake_queue [of "d\<lparr>dev_state := DEVICE_START_HANDSHAKE\<rparr>" D m s] by (simp add: only_caching_def)
  then show ?thesis
    by (cases "state_machine_start_handshake_run D m (d\<lparr>dev_state := DEVICE_START_HANDSHAKE\<rparr>) s")
      (auto simp: only_caching_def)
qed

text \<open>C11: A device whose socket fails and that is then disconnected is lost.  The failed poll leaves the
  device connected; the disconnection succeeds without the callback; and from then on, whatever the user
  calls and the worker thread does, the device counts as connected while its client is disconnected:
  every connection, disconnection or destruction is refused and changes nothing.\<close>

theorem socket_error_strands_device:
  assumes "dev_state d = DEVICE_CONNECTED" and "pw_live_events W = []"
    and "astarte_device_internal_poll D random W m d s = Some (ASTARTE_RESULT_SOCKET_ERROR, m1, d1, s1)"
  shows "\<exists>m2. astarte_device_force_disconnect D V m1 d1 s1 = Some (ASTARTE_RESULT_OK, m2, d1, s1)
    \<and> (\<forall>m' d' s'. (session_step D)\<^sup>*\<^sup>* (m2, d1, s1) (m', d', s') \<longrightarrow>
        dev_state d' = DEVICE_CONNECTED \<and> am_connection_state m' = ASTARTE_MQTT_DISCONNECTED
        \<and> (\<forall>X. astarte_device_connect D X m' d' s' = (ASTARTE_RESULT_MQTT_CLIENT_ALREADY_CONNECTED, m', d'))
        \<and> (\<forall>X. astarte_device_force_disconnect D X m' d' s' = Some (ASTARTE_RESULT_MQTT_CLIENT_NOT_READY, m', d', s'))
        \<and> (\<forall>X tls finish. astarte_device_destroy D X tls finish True m' d' s'
            = Some (ASTARTE_RESULT_MQTT_CLIENT_NOT_READY, True, m', d', s')))"
proof -
  have d1: "dev_state d1 = DEVICE_CONNECTED" and m1: "am_connection_state m1 = ASTARTE_MQTT_CONNECTION_ERROR"
    using socket_error_states [OF assms] by simp_all
  let ?m2 = "m1\<lparr>am_connection_state := ASTARTE_MQTT_DISCONNECTED\<rparr>"
  have "astarte_device_force_disconnect D V m1 d1 s1 = Some (ASTARTE_RESULT_OK, ?m2, d1, s1)"
    using d1 m1 by (simp add: astarte_device_force_disconnect_def astarte_mqtt_disconnect_def)
  moreover have "stranded m' d'" if "(session_step D)\<^sup>*\<^sup>* (?m2, d1, s1) (m', d', s')" for m' d' s'
    using stranded_steps [OF that] d1 by (simp add: stranded_def)
  ultimately show ?thesis by (auto simp: stranded_user) (simp_all add: stranded_def)
qed

definition demo_poll :: poll_world where
  "demo_poll = \<lparr>pw_random = 0, pw_connect = demo_connect, pw_disconnect_events = [], pw_live_events = [],
     pw_poll_rc = - 1, pw_input_rc = 0, pw_input_events = []\<rparr>"

lemma socket_error_strands_device_witness:
  "\<exists>m1 d1 m2. astarte_device_internal_poll demo_device_env 0 demo_poll demo_client (demo_device DEVICE_CONNECTED True) Map.empty
      = Some (ASTARTE_RESULT_SOCKET_ERROR, m1, d1, Map.empty)
    \<and> astarte_device_force_disconnect demo_device_env (0, []) m1 d1 Map.empty = Some (ASTARTE_RESULT_OK, m2, d1, Map.empty)
    \<and> astarte_device_connect demo_device_env demo_connect m2 d1 Map.empty
      = (ASTARTE_RESULT_MQTT_CLIENT_ALREADY_CONNECTED, m2, d1)"
proof -
  let ?d = "demo_device DEVICE_CONNECTED True" and ?s = "Map.empty :: u32 \<rightharpoonup> byte list"
  have d: "dev_state ?d = DEVICE_CONNECTED" "pw_live_events demo_poll = []" by (simp_all add: demo_device_def demo_poll_def)
  obtain m1 d1 where p: "astarte_device_internal_poll demo_device_env 0 demo_poll demo_client ?d ?s
      = Some (ASTARTE_RESULT_SOCKET_ERROR, m1, d1, ?s)"
    by (simp add: astarte_device_internal_poll_def state_machine_run_def astarte_mqtt_poll_def demo_device_def
        demo_device_env_def demo_mq_def demo_config_def demo_client_def poll_input_def demo_poll_def
        retransmit_expired_def astarte_mqtt_caching_check_message_expiry_def)
  from socket_error_strands_device [OF d p, of "(0, [])"] obtain m2 where
    "astarte_device_force_disconnect demo_device_env (0, []) m1 d1 ?s = Some (ASTARTE_RESULT_OK, m2, d1, ?s)"
    "astarte_device_connect demo_device_env demo_connect m2 d1 ?s = (ASTARTE_RESULT_MQTT_CLIENT_ALREADY_CONNECTED, m2, d1)"
    by blast
  with p show ?thesis by blast
qed

section \<open>The queued data\<close>

text \<open>C26: The token bucket bounds what the worker thread publishes from the queue: from its start, with a
  full bucket, until a time \<open>T\<close> at most 10 messages and one more for every 20 ms that have passed, however
  often it runs; what the clock answers must not go back.\<close>

theorem transmission_rate:
  assumes "transmit_loop D ts (m, d, (TRANSMISSION_PACING_MAX_TOKENS, start), s) = Some (m', d', (toks', last'), s')"
    and "sorted (map fst ts)" and "\<forall>t\<in>set ts. start \<le> fst t \<and> fst t \<le> T" and "start \<le> T"
  shows "int (length (am_packets m')) \<le> int (length (am_packets m)) + 10 + (T - start) div 20"
proof -
  obtain g where g: "last' = start + 20 * g" and l: "last' \<le> T"
    and "int (length (am_packets m')) + uint toks' \<le> int (length (am_packets m)) + 10 + g"
    using transmit_loop_rate [OF assms] by (auto simp: TRANSMISSION_PACING_MAX_TOKENS_def)
  moreover have "g \<le> (T - start) div 20" using g l by simp
  moreover have "0 \<le> uint toks'" by simp
  ultimately show ?thesis by linarith
qed

text \<open>C4: The worker thread sends what is queued: when the oldest \<open>n\<close> messages of the queue are data with a path,
  and the client has identifiers for them, \<open>n\<close> turns at least 20 ms apart publish exactly these messages, in
  their order, each under the topic of the device, its interface and its path, and take exactly these out
  of the queue.\<close>

theorem queued_data_sent:
  assumes "sending D C P others cv ci cap m d s a (tv, n, qs)" and "length ts \<le> length qs"
    and "\<forall>q\<in>set (take (length ts) qs). sendable_data D d q" and "card (dom (mv_out a)) + length ts \<le> 65535"
    and "queue_may P others (tv, n, qs) (replicate (length ts) OpPeek)" and "spaced (snd bucket) ts"
  shows "\<exists>m' h bucket' s' a'. transmit_loop D ts (m, d, bucket, s) = Some (m', d\<lparr>dev_queue := h\<rparr>, bucket', s')
    \<and> sending D C P others cv ci cap m' (d\<lparr>dev_queue := h\<rparr>) s' a' (tv, n, drop (length ts) qs)
    \<and> map packet_publication (am_packets m')
      = map packet_publication (am_packets m) @ map (\<lambda>q. Some (publication_of D d q)) (take (length ts) qs)"
  using assms by (rule transmit_loop_sends)

definition demo_sample :: "u64 \<Rightarrow> byte \<Rightarrow> volatile_msg" where
  "demo_sample i b = \<lparr>vm_interface_name = [105], vm_path = [47, 112], vm_payload = Some [b], vm_payload_len = 1,
     vm_qos = 1, vm_timestamp = 0, vm_sequence_number = i\<rparr>"

text \<open>A volatile message behind one that is discarded on a disconnection.\<close>

definition demo_waiting :: "queued list" where
  "demo_waiting = [QDiscard (demo_sample 0 5), QVolatile (demo_sample 1 6)]"

definition demo_sender :: "(volatile_msg list, interface_msg list, device_event list) device" where
  "demo_sender = (demo_device DEVICE_CONNECTED True)\<lparr>dev_queue :=
     demo_queue\<lparr>tq_discard := [demo_sample 0 5], tq_volatile := [demo_sample 1 6], tq_next_seq := 2\<rparr>\<rparr>"

lemma demo_sending:
  "sending demo_device_env (\<lambda>m. m) disk_platform 0 (\<lambda>q. q) (\<lambda>q. q) 1 demo_client demo_sender Map.empty demo_view
    (False, 2, demo_waiting)"
proof -
  have "queue_rel (disk_env (\<lambda>_. 0)) (\<lambda>m. m) disk_platform 0 demo_env (\<lambda>q. q) (\<lambda>q. q) 1
      (dev_queue demo_sender, Map.empty) (False, 2, demo_waiting)"
    using disk_trans [of "\<lambda>_. 0"]
    by (simp add: queue_rel_def msgqs_rel_def demo_queue_def demo_env_def demo_sender_def demo_device_def demo_waiting_def
        demo_sample_def list_msgq.k_msgq_axioms [of "Suc 0"] vols_def of_kind_def ifaces_def stored_of_def ordered_def)
  then show ?thesis
    using demo_mqtt_rel by (auto simp: sending_def demo_device_env_def demo_mq_def)
qed

lemma demo_topic:
  "q \<in> set demo_waiting \<Longrightarrow> queued_topic demo_device_env demo_sender q = 114 # 47 # replicate 22 97 @ [47, 105, 47, 112]"
  by (auto simp: queued_topic_def demo_waiting_def demo_device_env_def demo_sender_def demo_device_def
      demo_sample_def vol_out_def zero_queue_msg_def slash_def c_string_def)

lemma demo_sendable: "q \<in> set demo_waiting \<Longrightarrow> sendable_data demo_device_env demo_sender q"
  using demo_topic [of q]
  by (auto simp: sendable_data_def demo_waiting_def demo_sample_def vol_out_def zero_queue_msg_def slash_def c_string_def
      demo_sender_def demo_device_def strlen_def ASTARTE_DEVICE_ID_LEN_def mqtt_valid_def publish_msg_def nul_free_def
      copy_payload_def)

lemma demo_may: "queue_may disk_platform 0 (False, 2, demo_waiting) [OpPeek, OpPeek]"
  by (auto simp: queue_may_def demo_waiting_def stored_of_def of_kind_def ring_size_def queue_size_def)

lemma demo_spaced: "spaced 0 [(20, 20), (40, 40)]"
  by (simp add: TRANSMISSION_PACING_TOKEN_VALUE_MS_def)

lemma queued_data_sent_witness:
  "\<exists>m d bucket s. transmit_loop demo_device_env [(20, 20), (40, 40)] (demo_client, demo_sender, (0, 0), Map.empty)
      = Some (m, d, bucket, s)
    \<and> map packet_publication (am_packets m)
      = [Some (114 # 47 # replicate 22 97 @ [47, 105, 47, 112], Some [5], 1, 1),
         Some (114 # 47 # replicate 22 97 @ [47, 105, 47, 112], Some [6], 1, 1)]"
  using queued_data_sent [OF demo_sending, of "[(20, 20), (40, 40)]" "(0, 0)"] demo_topic demo_sendable demo_may demo_spaced
  by (auto simp: demo_waiting_def demo_view_def publication_of_def demo_client_def demo_sample_def vol_out_def copy_payload_def)

lemma transmission_rate_witness:
  "\<exists>m d bucket s. transmit_loop demo_device_env [(20, 20), (40, 40)]
      (demo_client, demo_sender, (TRANSMISSION_PACING_MAX_TOKENS, 0), Map.empty) = Some (m, d, bucket, s)
    \<and> length (am_packets m) \<le> 12"
proof -
  obtain m h bucket s where r: "transmit_loop demo_device_env [(20, 20), (40, 40)]
      (demo_client, demo_sender, (TRANSMISSION_PACING_MAX_TOKENS, 0), Map.empty) = Some (m, demo_sender\<lparr>dev_queue := h\<rparr>, bucket, s)"
    using transmit_loop_sends [OF demo_sending, of "[(20, 20), (40, 40)]" "(TRANSMISSION_PACING_MAX_TOKENS, 0)"]
      demo_sendable demo_may demo_spaced
    by (auto simp: demo_waiting_def demo_view_def)
  obtain toks l where b: "bucket = (toks, l)" by fastforce
  from transmission_rate [OF r [unfolded b], of 40] show ?thesis
    using r by (auto simp: demo_client_def)
qed

section \<open>The certificate\<close>

text \<open>C34: The loop that restores the line breaks of a received certificate ends, with the certificate
  where, in one pass from the left, every escaped line break has become a real one; none is left, and
  the certificate has not grown, so that it still fits its buffer.\<close>

theorem certificate_unescaped:
  "unescape_newlines crt_pem = newlines crt_pem \<and> strstr (unescape_newlines crt_pem) escaped_newline = None
    \<and> length (unescape_newlines crt_pem) \<le> length crt_pem"
  using unescape_newlines_eq unescape_newlines_none unescape_newlines_length by blast

text \<open>C25: The handler that renews the certificate, on all its ways: it leaves no socket open.  If there is a
  certificate and the server says that it is valid, nothing changes.  Otherwise a success means that there
  was none or that the server has refused it, and that the device has the new key, which the store holds
  next to exactly the old ones, also next to the one of the certificate that is replaced; and after a
  failure the store of keys is as before, and the device has its old certificate or none.\<close>

theorem certificate_renewal_keys:
  assumes "fresh_key (rw_key W) keys" and "PSA_KEY_ID_NULL \<notin> keys" and "fresh_server (pe_http P) sockets"
    and "strlen device_id = ASTARTE_DEVICE_ID_LEN"
    and "refresh_client_cert_handler P W device_id cred_secr crt keys sockets = Some (ares, crt', keys', sockets')"
  shows "sockets' = sockets
    \<and> (if strlen (cc_crt_pem crt) \<noteq> 0
         \<and> astarte_pairing_verify_client_certificate P device_id cred_secr (cc_crt_pem crt) sockets = Some (ASTARTE_RESULT_OK, sockets)
       then ares = ASTARTE_RESULT_OK \<and> crt' = crt \<and> keys' = keys
       else if ares = ASTARTE_RESULT_OK
       then (strlen (cc_crt_pem crt) = 0
           \<or> astarte_pairing_verify_client_certificate P device_id cred_secr (cc_crt_pem crt) sockets
             = Some (ASTARTE_RESULT_CLIENT_CERT_INVALID, sockets))
         \<and> cc_privkey crt' = snd (ka_generate (rw_key W)) \<and> cc_privkey crt' \<notin> keys \<and> keys' = insert (cc_privkey crt') keys
       else keys' = keys \<and> (crt' = crt \<or> crt' = wiped))"
  using refresh_cases [OF assms] .

definition demo_server :: http_server where
  "demo_server = (\<lambda>k url hs p. \<lparr>hw_resolve_rc = 0,
     hw_dns_events = [(DNS_EAI_INPROGRESS, Some True, \<lparr>sa_socket = 3, sa_sec_tag_list = 0, sa_hostname = 0, sa_connect = 0\<rparr>),
       (DNS_EAI_ALLDONE, None, \<lparr>sa_socket = -1, sa_sec_tag_list = 0, sa_hostname = 0, sa_connect = 0\<rparr>)],
     hw_responses = [\<lparr>hr_status_code = 200, hr_body_frag = Some [1, 2], hr_final = False\<rparr>,
       \<lparr>hr_status_code = 200, hr_body_frag = Some [3], hr_final = True\<rparr>], hw_http_rc = 0\<rparr>)"

text \<open>A server that refuses the old certificate and sends a new one.\<close>

definition demo_pairing :: pairing_env where
  "demo_pairing = \<lparr>pe_realm = [114], pe_pairing_jwt = [106], pe_client_crt_buffer_size = 16,
     pe_http = \<lparr>he_heap = (\<lambda>_. True), he_rcv_buffer_size = 16, he_server = demo_server\<rparr>,
     pe_json = \<lparr>js_encoded_len = (\<lambda>_ _. 1), js_encode = (\<lambda>_ _ _. (0, [1])), js_parse = (\<lambda>_ _. (1, Some [0x41, 0x5C, 0x6E])),
       js_parse_verify = (\<lambda>_. (1, False, Some [1]))\<rparr>\<rparr>"

definition demo_refresh :: refresh_world where
  "demo_refresh = \<lparr>rw_delete = (0, 0), rw_key = \<lparr>ka_init = 0, ka_generate = (0, 9), ka_copy = 0, ka_write_pem = (0, [8])\<rparr>,
     rw_csr = \<lparr>ca_init = 0, ca_copy = 0, ca_subject = 0, ca_write_pem = (0, [7])\<rparr>, rw_add = (0, 0)\<rparr>"

lemma demo_renewal:
  "refresh_client_cert_handler demo_pairing demo_refresh (replicate 22 97) (replicate 44 98)
      \<lparr>cc_privkey = 7, cc_privkey_pem = [6], cc_crt_pem = [5]\<rparr> {7} {}
    = Some (ASTARTE_RESULT_OK, \<lparr>cc_privkey = 9, cc_privkey_pem = [8], cc_crt_pem = [0x41, 0x0A]\<rparr>, {9, 7}, {})"
  by code_simp

lemma demo_verified: "astarte_pairing_verify_client_certificate demo_pairing (replicate 22 97) (replicate 44 98) [5] {}
    = Some (ASTARTE_RESULT_CLIENT_CERT_INVALID, {})"
  by code_simp

lemma certificate_renewal_keys_witness:
  "\<exists>crt. refresh_client_cert_handler demo_pairing demo_refresh (replicate 22 97) (replicate 44 98)
      \<lparr>cc_privkey = 7, cc_privkey_pem = [6], cc_crt_pem = [5]\<rparr> {7} {} = Some (ASTARTE_RESULT_OK, crt, {9, 7}, {})
    \<and> cc_privkey crt = snd (ka_generate (rw_key demo_refresh)) \<and> {9, 7} = insert (cc_privkey crt) {7}"
proof -
  have "fresh_key (rw_key demo_refresh) {7}" "PSA_KEY_ID_NULL \<notin> {7}" "fresh_server (pe_http demo_pairing) {}"
    "strlen (replicate 22 97) = ASTARTE_DEVICE_ID_LEN"
    by (simp_all add: fresh_key_def demo_refresh_def PSA_KEY_ID_NULL_def fresh_server_def demo_pairing_def demo_server_def
        fresh_sockets_def strlen_def c_string_def ASTARTE_DEVICE_ID_LEN_def)
  from certificate_renewal_keys [OF this demo_renewal] have "cc_privkey \<lparr>cc_privkey = 9, cc_privkey_pem = [8], cc_crt_pem = [0x41, 0x0A]\<rparr>
      = snd (ka_generate (rw_key demo_refresh)) \<and> {9, 7} = insert (9 :: u32) {7}"
    using demo_verified by (simp del: insert_commute)
  with demo_renewal show ?thesis by auto
qed

section \<open>The HTTP client\<close>

text \<open>C27: Whatever a server answers, in any number of fragments of any length, a request returns without a
  write outside the buffer of its caller, once the host name is resolved: the buffer keeps its length and
  ends with a zero, and when the request succeeds it holds the fragments one after the other, each in full.\<close>

theorem http_response_in_buffer:
  assumes "0 < n" and "create_and_connect_socket W sockets \<noteq> None"
  shows "\<exists>ares ctx sockets' body k.
    astarte_http_do_request heap m W (request_ctx (replicate n 0)) sockets = Some (ares, ctx, sockets')
    \<and> hx_resp_buf ctx = Some (body @ replicate k 0) \<and> 0 < k \<and> length body + k = n
    \<and> (ares = ASTARTE_RESULT_OK \<longrightarrow> body = concat (map response_body (hw_responses W)))"
proof -
  from do_request_returns [OF assms] obtain ares ctx sockets' where
    r: "astarte_http_do_request heap m W (request_ctx (replicate n 0)) sockets = Some (ares, ctx, sockets')"
    by (metis prod_cases3)
  from do_request_response [OF assms(1) r] obtain body where
    "hx_resp_buf ctx = Some (body @ replicate (n - length body) 0)" "length body < n"
    "ares = ASTARTE_RESULT_OK \<longrightarrow> body = concat (map response_body (hw_responses W))" by blast
  with r show ?thesis
    by (intro exI [of _ ares] exI [of _ ctx] exI [of _ sockets'] exI [of _ body] exI [of _ "n - length body"]) simp
qed

lemma http_response_in_buffer_witness:
  "\<exists>ctx. astarte_http_do_request (\<lambda>_. True) 16 (demo_server HTTP_GET [] [] None) (request_ctx (replicate 4 0)) {}
      = Some (ASTARTE_RESULT_OK, ctx, {}) \<and> hx_resp_buf ctx = Some [1, 2, 3, 0]"
proof -
  have r: "astarte_http_do_request (\<lambda>_. True) 16 (demo_server HTTP_GET [] [] None) (request_ctx (replicate 4 0)) {}
      = Some (ASTARTE_RESULT_OK, \<lparr>hx_request_ok = True, hx_resp_buf = Some [1, 2, 3, 0], hx_resp_buf_size = 4,
          hx_bytes_written = 3\<rparr>, {})"
    by code_simp
  have "create_and_connect_socket (demo_server HTTP_GET [] [] None) {} = Some (3, {3})" by code_simp
  then have c: "create_and_connect_socket (demo_server HTTP_GET [] [] None) {} \<noteq> None" by simp
  have "concat (map response_body (hw_responses (demo_server HTTP_GET [] [] None))) = [1, 2, 3]"
    by (simp add: demo_server_def response_body_def)
  with http_response_in_buffer [OF _ c, of 4 "\<lambda>_. True" 16] r show ?thesis by auto
qed

end
