(* ===== verification/Spec2Isabelle.thy ===== *)
theory Spec2Isabelle
  imports KV_Runs Interface_Claims Storage_Claims Prop_Claims Mqtt_Claims Device_Claims
begin

text \<open>
  A verification of the Astarte device SDK for Zephyr: the library under
  src/lib/astarte\_device\_sdk, translated function by function, and theorems about it.  File names
  below are relative to that directory.

  \<^bold>\<open>The program.\<close>  A device has interfaces, kept in its introspection.  Data its user sends is validated
  against them, put into a transmission queue, serialized to BSON and published over MQTT by a worker
  thread, which also runs the session with the server: pairing over HTTP for a client certificate, the
  handshake that announces the introspection and the properties, and the reconnections.  What must survive
  a restart (properties, queued data, MQTT messages in flight, the introspection) is in a key-value store
  on top of the file system ZMS of Zephyr.

  \<^bold>\<open>Where the parts are.\<close>  From the bottom up; each theory says at its beginning which files it models.

  \<^item> Prelude, Result, Alloc: machine integers, C strings and little-endian images; result.c; alloc.c.
  Refine: the interface of a refinement by operations.
  \<^item> Key-value store, key\_value/.  Model: KV\_Env (what ZMS, the hash and the mutex are), KV\_Format,
  KV\_Ops, KV\_Core.  Proofs: KV\_Ring, KV\_Table and KV\_Probe (the ring of IDs, the linked list and linear
  probing, without bytes), KV\_Rep (bytes as a table), KV\_Insert, KV\_Delete, KV\_Store (the operations),
  KV\_Recover (power loss), KV\_Iter, KV\_Direct, KV\_Contract (sequences of operations), KV\_Claims, KV\_Runs.
  \<^item> BSON and data, bson/ and data/.  Model: Bson\_Types, Bson\_Serializer, Bson\_Deserializer, Data\_Core,
  Data\_Codec.  Proofs: Bson\_Append (what is written), Bson\_Safe and Data\_Safe (nothing is read outside),
  Bson\_Roundtrip, Data\_Spec, Bson\_Claims.
  \<^item> Interfaces: Astarte\_Mapping (mapping.c), Interface (interface.c, validation.c), Object (object.c),
  Introspection (introspection.c).  Proofs: Mapping\_Path, Object\_Spec, Introspection\_Spec,
  Introspection\_Text, Interface\_Claims.
  \<^item> Permanent storage, storage/: Storage\_Core (core.c, sync.c, introsp.c), Storage\_Trans (trans.c),
  Storage\_Prop (prop.c), Mqtt\_Storage (mqtt.c).  Proofs: Trans\_Index, Trans\_Queue, Prop\_Spec.
  \<^item> Transmission queue: Transmission (device/transmission\_queue.c, transmission\_queue\_msg.c).  Proofs:
  Transmission\_Spec, Storage\_Claims.
  \<^item> MQTT client, mqtt/: Mqtt\_Caching (caching.c), Backoff (backoff.c), Mqtt\_Client (core.c, events.c,
  pubsub.c).  Proofs: Mqtt\_Cache\_Spec, Mqtt\_Spec, Mqtt\_Refine, Mqtt\_Claims.
  \<^item> Pairing: Http (http.c), Pairing (pairing/, crypto.c, tls\_credentials.c and the renewal of the
  certificate in device/core.c), Device\_Id (device\_id.c).
  \<^item> Device, device/: Properties\_Purge (properties\_storage.c), Device\_Core (properties.c, datastreams.c),
  Device\_Session (dispatcher.c, session\_manager.c), Device\_Worker (core.c).  Proofs: Purge\_Loss,
  Prop\_Claims, Device\_Spec, Device\_States, Device\_Claims.

  \<^bold>\<open>How the code is read.\<close>  An integer of C is a word of its width, \<open>size_t\<close> a word or a natural number
  where its sums stay in range; the target has 32 bits.  A structure is a record or, for a tagged union, a
  datatype; an out parameter is part of the result.  A function that can fail returns its
  \<open>astarte_result_t\<close> (\<open>Inl\<close>) or its value (\<open>Inr\<close>), one that changes state the new state next to the code.
  A function with a loop whose end the code does not guarantee is a \<open>partial_function\<close> in the option
  monad: \<open>None\<close> is a run that does not end, or, for code on raw bytes, an access outside the memory.  So
  a theorem that says \<open>Some\<close> says that the code returns and stays in its buffers.  There is no fuel in the
  model; only \<open>iterate_keys\<close>, a client of the iterator that lists a namespace, counts its turns, and one
  more than there are pairs is enough.  Pointers into a buffer are offsets, pointers to list nodes are
  the elements of a list, and an uninitialised handle and \<open>NULL\<close> get the same answer.

  What is not in the repository is an argument: the answers of ZMS, the heap (\<open>heap n\<close>: can it serve \<open>n\<close>
  bytes), the kernel's message queue, hash map and clock, the random numbers, the resolver, the sockets,
  the HTTP, MQTT, JSON and cryptographic libraries, and the callbacks of the user.  A theorem that holds
  for all arguments holds for any behaviour of these; a theorem that needs more says so by a locale or a
  hypothesis.

  \<^bold>\<open>Interfaces.\<close>  \<open>zms_store\<close> states the documented behaviour of ZMS, where a write may fail and then
  changes nothing, \<open>reliable_store\<close> that the device works; \<open>k_msgq\<close> the message queue of the kernel;
  \<open>ring_hash\<close> a hash that lands in the ring of IDs.  They are instantiated by stores in memory (with and
  without a limit on the writes, for power losses), by a list, and by the hash of the code.
  \<open>refinement\<close> is the promise of a component: every sequence of its operations answers like the
  specification and keeps a relation between the states.  It is instantiated by the code of the key-value
  store (an association list), the introspection (a map), the persistent queue and the transmission queue
  (a list), the MQTT cache and the MQTT client (two maps of messages in flight), and the main
  properties rest on these instances.

  \<^bold>\<open>What is shown.\<close>
  \<^item> Key-value store: sequences of operations (C1), the iterator (C22), the quota (C23, C24), and the
  recovery after a power loss at any write of an insertion or of the unlinking of an entry (C12, C13).
  The shift that follows the unlinking is not safe: C35 and C36 describe the states the recovery leaves
  broken, for any contents of that shape, and C37 a read error it takes for a healthy store.
  \<^item> BSON, data and interfaces: memory safety for any received bytes (C9), round trips of data and of
  objects (C7, C8), the types (C40), validation (C15, C16, C30), paths (C17), the introspection as a map, its
  updates and its text (C14, C31, C29), and the text buffer a long name overflows (C39).
  \<^item> Storage: the persistent queue (C18), the four queues as one list (C2), properties (C19), their purge
  and its message (C20, C21), and the properties the message misses (C38).
  \<^item> MQTT: the client as two maps (C3), delivery at most once (C5), retransmission (C6), identifiers (C33),
  delays (C32).
  \<^item> Device: the queued data is sent in order (C4) at a bounded rate (C26), the invariant of the session
  (C10), the state it can be stuck in (C11), the properties the handshake does not send (C28), pairing: the
  response stays in its buffer (C27), the certificate and its keys (C34, C25).

  Properties with hypotheses are followed by a \<open>_witness\<close>, the same property on concrete values.

  \<^bold>\<open>Not modelled.\<close>  The log, the releases of memory at the end of a scope (they change no result; what
  frees the blocks of received data is modelled as their list), the settings of TLS and of the buffers of
  the MQTT library, the configuration without permanent storage and the one without TLS, real concurrency
  (the code serializes its operations by mutexes; what other threads do between two steps of the worker
  thread is an argument), and what is not part of the library: samples, end-to-end tests, unit tests,
  scripts and generated interfaces.
\<close>

end
